(* ===== verification/Pi_Prelude.thy ===== *)
theory Pi_Prelude
  imports Complex_Main "HOL-Library.Word"
begin

text \<open>
  Shared vocabulary of the development: the return codes and device roles of
  \<^verbatim>\<open>native/pi_control/include/pi_control.hpp\<close>, names for the machine integers the
  native node uses, the collections of facts the component theories add to, and the
  generic lemmas on lists and options that several components need.
\<close>

unbundle bit_operations_syntax

section \<open>Collections and type names\<close>

named_theorems flt_simps \<open>evaluation rules of the floating-point operations\<close>
named_theorems io_simps \<open>evaluation rules of the scripted bus environment\<close>
named_theorems pi_defs \<open>definitions the component proofs unfold together\<close>

type_synonym u8 = "8 word"
type_synonym u16 = "16 word"
type_synonym u32 = "32 word"

section \<open>Return codes and roles (pi_control.hpp)\<close>

datatype ReturnCode =
    SUCCESS
  | FAIL
  | NOT_SUPPORTED
  | INVALID_PARAM
  | NOT_INITIALIZED
  | NOT_FOUND
  | NO_RESPONSE
  | BUSY
  | HARDWARE_FAULT
  | SAFE_MODE
  | SAFE_MODE_POS_BEHIND
  | SAFE_MODE_POS_EXCEED
  | SAFE_MODE_VEL
  | SAFE_MODE_TOR
  | SAFE_MODE_SIG
  | SAFE_MODE_TEMPERATURE
  | STALL

text \<open>The numeric values the enumeration gives its codes.\<close>

fun code_of :: "ReturnCode \<Rightarrow> int" where
  "code_of SUCCESS = 0"
| "code_of FAIL = -1"
| "code_of NOT_SUPPORTED = -2"
| "code_of INVALID_PARAM = -3"
| "code_of NOT_INITIALIZED = -4"
| "code_of NOT_FOUND = -5"
| "code_of NO_RESPONSE = -6"
| "code_of BUSY = -7"
| "code_of HARDWARE_FAULT = -8"
| "code_of SAFE_MODE = -100"
| "code_of SAFE_MODE_POS_BEHIND = -101"
| "code_of SAFE_MODE_POS_EXCEED = -102"
| "code_of SAFE_MODE_VEL = -103"
| "code_of SAFE_MODE_TOR = -104"
| "code_of SAFE_MODE_SIG = -105"
| "code_of SAFE_MODE_TEMPERATURE = -106"
| "code_of STALL = -200"

lemma code_of_inject: "code_of a = code_of b \<longleftrightarrow> a = b"
  by (cases a; cases b) simp_all

datatype Role = LEADER | FOLLOWER | ROLE_UNKNOWN

section \<open>Generic lemmas\<close>

lemma find_append_Some:
  "find P (xs @ ys) = (case find P xs of Some x \<Rightarrow> Some x | None \<Rightarrow> find P ys)"
  by (induction xs) simp_all

lemma map_of_filter_neq: "map_of (filter (\<lambda>p. fst p \<noteq> k) xs) j = (if j = k then None else map_of xs j)"
  by (induction xs) auto

lemma unat_less_two_power: "unat (w :: 'a::len word) < 2 ^ LENGTH('a)"
  by (rule unsigned_less)

end
