(* ===== verification/Pi_Float.thy ===== *)
theory Pi_Float
  imports Pi_Prelude "HOL-Library.Log_Nat"
begin

text \<open>
  The \<^verbatim>\<open>float\<close> and \<^verbatim>\<open>double\<close> arithmetic of the C++ sources: IEEE-754 binary32 and
  binary64 with the default rounding mode (nearest, ties to even). A value is a finite
  real, an infinity or a NaN; an operation is the exact real operation followed by a
  rounding to the format. The two signed zeros are one value: no modelled function
  inspects the sign of a zero. A conversion to an integer that C++ leaves undefined
  (NaN, infinity, out of range) is \<^verbatim>\<open>None\<close>.

  The locale \<open>rounding\<close> states what clients use of a rounding (it is monotone, odd and
  fixes the integers of the significand and the powers of two); both formats interpret it.
\<close>

section \<open>Rounding to a binary format\<close>

record fmt =
  prec :: nat
  emax :: int

definition binary32 :: fmt where
  "binary32 = \<lparr>prec = 24, emax = 127\<rparr>"

definition binary64 :: fmt where
  "binary64 = \<lparr>prec = 53, emax = 1023\<rparr>"

text \<open>Round to the nearest integer, ties to even.\<close>

definition rne :: "real \<Rightarrow> int" where
  "rne x = (let f = \<lfloor>x\<rfloor>; d = x - of_int f
            in if d < 1/2 then f else if 1/2 < d then f + 1 else if even f then f else f + 1)"

text \<open>
  The exponent of a positive real: the \<open>e\<close> with \<open>2 powi e \<le> x < 2 powi (e + 1)\<close>,
  computed from the bit lengths of integers.
\<close>

definition binade :: "real \<Rightarrow> int" where
  "binade x = (if 1 \<le> x then bitlen \<lfloor>x\<rfloor> - 1 else - bitlen (\<lceil>1 / x\<rceil> - 1))"

definition ulp :: "fmt \<Rightarrow> real \<Rightarrow> real" where
  "ulp F x = 2 powi (max (binade \<bar>x\<bar>) (1 - emax F) - (int (prec F) - 1))"

definition rnd :: "fmt \<Rightarrow> real \<Rightarrow> real" where
  "rnd F x = (if x = 0 then 0 else of_int (rne (x / ulp F x)) * ulp F x)"

subsection \<open>Nearest-even rounding to integers\<close>

lemma rne_of_int [simp]: "rne (of_int n) = n"
  by (simp add: rne_def)

lemma rne_zero [simp]: "rne 0 = 0"
  using rne_of_int [of 0] by simp

lemma rne_error: "\<bar>of_int (rne x) - x\<bar> \<le> 1/2"
  unfolding rne_def Let_def by (auto simp: abs_if split: if_splits) linarith+

lemma rne_mono: "x \<le> y \<Longrightarrow> rne x \<le> rne y"
proof -
  assume le: "x \<le> y"
  then have fl: "\<lfloor>x\<rfloor> \<le> \<lfloor>y\<rfloor>" by (rule floor_mono)
  show ?thesis
  proof (cases "\<lfloor>x\<rfloor> = \<lfloor>y\<rfloor>")
    case True
    then show ?thesis using le unfolding rne_def Let_def by auto
  next
    case False
    with fl have "\<lfloor>x\<rfloor> + 1 \<le> \<lfloor>y\<rfloor>" by simp
    moreover have "rne x \<le> \<lfloor>x\<rfloor> + 1" unfolding rne_def Let_def by auto
    moreover have "\<lfloor>y\<rfloor> \<le> rne y" unfolding rne_def Let_def by auto
    ultimately show ?thesis by simp
  qed
qed

lemma rne_minus: "rne (- x) = - rne x"
proof (cases "x = of_int \<lfloor>x\<rfloor>")
  case True
  then have "rne x = \<lfloor>x\<rfloor>" "rne (- x) = - \<lfloor>x\<rfloor>"
    by (metis rne_of_int, metis of_int_minus rne_of_int)
  then show ?thesis by simp
next
  case False
  then have "\<lfloor>- x\<rfloor> = - \<lfloor>x\<rfloor> - 1" by linarith
  then show ?thesis unfolding rne_def Let_def by auto
qed

subsection \<open>Exponents\<close>

lemma powi_two_pos [simp]: "0 < (2::real) powi e"
  by (rule zero_less_power_int) simp

lemma powi_two_le_iff [simp]: "(2::real) powi a \<le> 2 powi b \<longleftrightarrow> a \<le> b"
  by (metis linorder_not_le one_less_numeral_iff power_int_increasing power_int_strict_increasing
      less_imp_le semiring_norm(76))

lemma powi_two_less_iff [simp]: "(2::real) powi a < 2 powi b \<longleftrightarrow> a < b"
  by (simp add: not_le [symmetric] del: not_le)

lemma powi_two_add: "(2::real) powi (a + b) = 2 powi a * 2 powi b"
  by (simp add: power_int_add)

lemma powi_two_diff: "(2::real) powi (a - b) = 2 powi a / 2 powi b"
  by (simp add: power_int_diff)

lemma powi_two_int: "0 \<le> e \<Longrightarrow> (2::real) powi e = of_int (2 ^ nat e)"
  by (simp add: power_int_def)

lemma binade_ge_one:
  assumes "1 \<le> x"
  shows "2 powi binade x \<le> x \<and> x < 2 powi (binade x + 1)"
proof -
  let ?n = "\<lfloor>x\<rfloor>"
  have n: "0 < ?n" using assms by simp
  have b: "1 \<le> bitlen ?n" using n bitlen_eq_zero_iff [of ?n] bitlen_nonneg [of ?n] by linarith
  have "2 ^ nat (bitlen ?n - 1) \<le> ?n" "?n + 1 \<le> 2 ^ nat (bitlen ?n)"
    using bitlen_bounds [OF n] by auto
  then have "of_int (2 ^ nat (bitlen ?n - 1)) \<le> (of_int ?n :: real)"
    "of_int (?n + 1) \<le> (of_int (2 ^ nat (bitlen ?n)) :: real)"
    by (simp_all only: of_int_le_iff)
  moreover have "of_int ?n \<le> x" "x < of_int (?n + 1)" by linarith+
  ultimately have "of_int (2 ^ nat (bitlen ?n - 1)) \<le> x" "x < of_int (2 ^ nat (bitlen ?n))"
    by linarith+
  then show ?thesis
    using assms b powi_two_int [of "bitlen ?n - 1"] powi_two_int [of "bitlen ?n"]
    by (simp add: binade_def)
qed

lemma binade_less_one:
  assumes "0 < x" "x < 1"
  shows "2 powi binade x \<le> x \<and> x < 2 powi (binade x + 1)"
proof -
  let ?n = "\<lceil>1 / x\<rceil> - 1"
  have "1 < 1 / x" using assms by simp
  then have n: "0 < ?n" by linarith
  let ?b = "bitlen ?n"
  have b: "1 \<le> ?b" using n bitlen_eq_zero_iff [of ?n] bitlen_nonneg [of ?n] by linarith
  have "2 ^ nat (?b - 1) \<le> ?n" "?n + 1 \<le> 2 ^ nat ?b"
    using bitlen_bounds [OF n] by auto
  then have "of_int (2 ^ nat (?b - 1)) \<le> (of_int ?n :: real)"
    "of_int (?n + 1) \<le> (of_int (2 ^ nat ?b) :: real)"
    by (simp_all only: of_int_le_iff)
  moreover have "1 / x \<le> of_int (?n + 1)" "of_int ?n < 1 / x"
    by linarith+
  ultimately have "1 / x \<le> of_int (2 ^ nat ?b)" "of_int (2 ^ nat (?b - 1)) < 1 / x"
    by linarith+
  then have "1 / x \<le> 2 powi ?b" "2 powi (?b - 1) < 1 / x"
    using b powi_two_int [of "?b - 1"] powi_two_int [of ?b] by simp_all
  then have "1 / 2 powi ?b \<le> x" "x < 1 / 2 powi (?b - 1)"
    using assms by (simp_all add: field_simps)
  moreover have "1 / 2 powi ?b = (2::real) powi (- ?b)" "1 / 2 powi (?b - 1) = (2::real) powi (- ?b + 1)"
    by (simp_all add: power_int_minus field_simps powi_two_diff powi_two_add)
  ultimately show ?thesis using assms by (simp add: binade_def)
qed

lemma binade_bounds:
  assumes "0 < x"
  shows "2 powi binade x \<le> x" "x < 2 powi (binade x + 1)"
  using assms binade_ge_one [of x] binade_less_one [of x] by (cases "1 \<le> x"; simp)+

lemma binade_unique: "2 powi e \<le> x \<Longrightarrow> x < 2 powi (e + 1) \<Longrightarrow> binade x = e"
proof -
  assume a: "2 powi e \<le> x" "x < 2 powi (e + 1)"
  then have x: "0 < x" by (metis less_le_trans powi_two_pos)
  note b = binade_bounds [OF x]
  from a(1) b(2) have "2 powi e < (2::real) powi (binade x + 1)" by linarith
  moreover from a(2) b(1) have "2 powi binade x < (2::real) powi (e + 1)" by linarith
  ultimately show ?thesis by simp
qed

lemma binade_less: "0 < x \<Longrightarrow> x < 2 powi e \<Longrightarrow> binade x < e"
  using binade_bounds(1) [of x] by (metis less_trans not_less order_trans powi_two_less_iff le_less_trans)

lemma binade_ge: "2 powi e \<le> x \<Longrightarrow> e \<le> binade x"
proof -
  assume a: "2 powi e \<le> x"
  then have "0 < x" by (metis less_le_trans powi_two_pos)
  then have "2 powi e < (2::real) powi (binade x + 1)" using a binade_bounds(2) [of x] by linarith
  then show ?thesis by simp
qed

lemma binade_mono: "0 < x \<Longrightarrow> x \<le> y \<Longrightarrow> binade x \<le> binade y"
  using binade_bounds(1) [of x] by (auto intro: binade_ge)

subsection \<open>Rounding to the grid of a format\<close>

definition expo :: "fmt \<Rightarrow> real \<Rightarrow> int" where
  "expo F x = max (binade \<bar>x\<bar>) (1 - emax F)"

definition lo_exp :: "fmt \<Rightarrow> int" where
  "lo_exp F = 1 - emax F - (int (prec F) - 1)"

lemma ulp_expo: "ulp F x = 2 powi (expo F x - (int (prec F) - 1))"
  by (simp add: ulp_def expo_def)

lemma ulp_pos [simp]: "0 < ulp F x"
  by (simp add: ulp_def)

lemma ulp_neq_zero [simp]: "ulp F x \<noteq> 0"
  by (metis less_irrefl ulp_pos)

lemma ulp_minus [simp]: "ulp F (- x) = ulp F x"
  by (simp add: ulp_def)

lemma rnd_zero [simp]: "rnd F 0 = 0"
  by (simp add: rnd_def)

lemma rnd_minus: "rnd F (- x) = - rnd F x"
  by (simp add: rnd_def rne_minus)

lemma ulp_scale: "2 ^ prec F * ulp F x = 2 powi (expo F x + 1)"
  by (simp add: ulp_expo powi_two_diff powi_two_add)

lemma ulp_scale_half: "0 < prec F \<Longrightarrow> 2 ^ (prec F - 1) * ulp F x = 2 powi expo F x"
  by (cases "prec F") (simp_all add: ulp_expo powi_two_diff powi_two_add)

lemma rnd_le_top:
  assumes "0 < x"
  shows "rne (x / ulp F x) \<le> 2 ^ prec F"
proof -
  have "binade x \<le> expo F x" using assms by (simp add: expo_def)
  then have "x < 2 powi (expo F x + 1)"
    using binade_bounds(2) [OF assms] by (metis add_le_cancel_right less_le_trans powi_two_le_iff)
  then have "x \<le> 2 ^ prec F * ulp F x" by (simp only: ulp_scale less_imp_le)
  then have "x / ulp F x \<le> of_int (2 ^ prec F)" by (simp add: pos_divide_le_eq)
  then show ?thesis by (metis rne_mono rne_of_int)
qed

lemma rnd_ge_bottom:
  assumes "0 < x" "expo F x = binade x" "0 < prec F"
  shows "2 ^ (prec F - 1) \<le> rne (x / ulp F x)"
proof -
  have "2 powi expo F x \<le> x" using binade_bounds(1) [OF assms(1)] assms(2) by simp
  then have "2 ^ (prec F - 1) * ulp F x \<le> x" by (simp only: ulp_scale_half [OF assms(3)])
  then have "of_int (2 ^ (prec F - 1)) \<le> x / ulp F x" by (simp add: pos_le_divide_eq)
  then show ?thesis by (metis rne_mono rne_of_int)
qed

lemma rnd_nonneg: "0 \<le> x \<Longrightarrow> 0 \<le> rnd F x"
proof -
  assume "0 \<le> x"
  then have "0 \<le> x / ulp F x" by (simp add: less_imp_le)
  then have "0 \<le> rne (x / ulp F x)" using rne_mono [of 0 "x / ulp F x"] by simp
  then show ?thesis by (simp add: rnd_def less_imp_le)
qed

lemma rnd_mono_pos:
  assumes "0 < x" "x \<le> y" "0 < prec F"
  shows "rnd F x \<le> rnd F y"
proof (cases "expo F x = expo F y")
  case True
  then have u: "ulp F x = ulp F y" by (simp add: ulp_expo)
  have "x / ulp F y \<le> y / ulp F y" using assms(2) by (simp add: divide_right_mono less_imp_le)
  then have "rne (x / ulp F y) \<le> rne (y / ulp F y)" by (rule rne_mono)
  then show ?thesis using assms u by (simp add: rnd_def less_imp_le)
next
  case False
  have "binade x \<le> binade y" using assms(1,2) by (rule binade_mono)
  with False assms have e: "expo F x < expo F y" "expo F y = binade y"
    by (auto simp: expo_def max_def split: if_splits)
  have "rnd F x \<le> of_int (2 ^ prec F) * ulp F x"
    unfolding rnd_def using assms rnd_le_top [OF assms(1), of F]
    by (simp del: of_int_power add: less_imp_le)
  also have "\<dots> = 2 powi (expo F x + 1)" by (simp add: ulp_scale)
  also have "\<dots> \<le> 2 powi expo F y" using e by simp
  also have "\<dots> = of_int (2 ^ (prec F - 1)) * ulp F y"
    using ulp_scale_half [OF assms(3), of y] by simp
  also have "\<dots> \<le> rnd F y"
    unfolding rnd_def using assms e rnd_ge_bottom [of y F]
    by (simp del: of_int_power add: less_imp_le)
  finally show ?thesis .
qed

lemma rnd_mono: 
  assumes "x \<le> y" "0 < prec F"
  shows "rnd F x \<le> rnd F y"
proof -
  consider "0 < x" | "x \<le> 0" "0 \<le> y" | "y < 0" using assms(1) by linarith
  then show ?thesis
  proof cases
    case 1
    then show ?thesis using assms by (rule rnd_mono_pos)
  next
    case 2
    then show ?thesis using rnd_nonneg [of y F] rnd_nonneg [of "- x" F] by (simp add: rnd_minus)
  next
    case 3
    then show ?thesis using rnd_mono_pos [of "- y" "- x" F] assms by (simp add: rnd_minus)
  qed
qed

lemma rnd_exact:
  assumes "x = of_int n * 2 powi (expo F x - (int (prec F) - 1))"
  shows "rnd F x = x"
proof -
  have "x / ulp F x = of_int n" using assms by (metis less_irrefl nonzero_mult_div_cancel_right ulp_expo ulp_pos)
  moreover have "x / ulp F x * ulp F x = x" using ulp_pos [of F x] by simp
  ultimately show ?thesis by (metis rnd_def rne_of_int)
qed

lemma int_powi_shift:
  assumes "l \<le> k"
  shows "\<exists>m. of_int n * (2::real) powi k = of_int m * 2 powi l"
proof
  have "(2::real) powi k = 2 powi (k - l) * 2 powi l" by (simp add: powi_two_add [symmetric])
  then have "(2::real) powi k = of_int (2 ^ nat (k - l)) * 2 powi l"
    using assms by (simp only: powi_two_int)
  then show "of_int n * (2::real) powi k = of_int (n * 2 ^ nat (k - l)) * 2 powi l"
    by simp
qed

lemma rnd_fix_less:
  assumes "\<bar>n\<bar> < 2 ^ prec F" "lo_exp F \<le> k"
  shows "rnd F (of_int n * 2 powi k) = of_int n * 2 powi k"
proof (cases "n = 0")
  case False
  let ?x = "of_int n * (2::real) powi k"
  have "\<bar>?x\<bar> < 2 ^ prec F * 2 powi k"
    using assms(1) by (simp add: abs_mult) (metis of_int_abs of_int_less_iff of_int_numeral of_int_power)
  also have "2 ^ prec F * 2 powi k = (2::real) powi (int (prec F) + k)" by (simp add: powi_two_add)
  finally have "binade \<bar>?x\<bar> < int (prec F) + k" using False by (intro binade_less) simp_all
  then have "expo F ?x - (int (prec F) - 1) \<le> k" using assms(2) by (simp add: expo_def lo_exp_def)
  then obtain m where "?x = of_int m * 2 powi (expo F ?x - (int (prec F) - 1))"
    using int_powi_shift by metis
  then show ?thesis by (rule rnd_exact)
qed simp

lemma rnd_fix:
  assumes "\<bar>n\<bar> \<le> 2 ^ prec F" "lo_exp F \<le> k" "0 < prec F"
  shows "rnd F (of_int n * 2 powi k) = of_int n * 2 powi k"
proof (cases "\<bar>n\<bar> < 2 ^ prec F")
  case True
  then show ?thesis using assms(2) by (rule rnd_fix_less)
next
  case False
  then have "\<bar>n\<bar> = 2 ^ prec F" using assms(1) by simp
  then have "n = 2 * (sgn n * 2 ^ (prec F - 1))"
    using assms(3) by (cases "prec F") (auto simp: sgn_if abs_if split: if_splits)
  then have "(of_int n :: real) = 2 * of_int (sgn n * 2 ^ (prec F - 1))"
    by (metis of_int_mult of_int_numeral)
  then have eq: "of_int n * (2::real) powi k = of_int (sgn n * 2 ^ (prec F - 1)) * 2 powi (k + 1)"
    by (simp only: powi_two_add power_int_1_right mult_ac)
  have "\<bar>sgn n * 2 ^ (prec F - 1)\<bar> < 2 ^ prec F"
    using assms(3) by (cases "prec F") (simp_all add: abs_mult abs_sgn_eq)
  then show ?thesis unfolding eq using assms(2) by (intro rnd_fix_less) simp_all
qed

lemma rnd_as_grid: "\<exists>n k. rnd F x = of_int n * 2 powi k \<and> \<bar>n\<bar> \<le> 2 ^ prec F \<and> lo_exp F \<le> k"
proof (cases "x = 0")
  case True
  then show ?thesis by (intro exI [of _ 0] exI [of _ "lo_exp F"]) simp
next
  case False
  have *: "\<bar>rne (x / ulp F x)\<bar> \<le> 2 ^ prec F"
  proof (cases "0 < x")
    case True
    then show ?thesis using rnd_le_top [of x F] rne_mono [of 0 "x / ulp F x"] by (simp add: less_imp_le)
  next
    case neg: False
    then have n: "0 < - x" using False by simp
    then have "0 \<le> (- x) / ulp F x" by (simp add: divide_nonpos_pos less_imp_le)
    then show ?thesis
      using rnd_le_top [OF n, of F] rne_mono [of 0 "(- x) / ulp F x"] rne_minus [of "x / ulp F x"]
      by simp
  qed
  show ?thesis
    using * False by (intro exI [of _ "rne (x / ulp F x)"] exI [of _ "expo F x - (int (prec F) - 1)"])
      (simp add: rnd_def ulp_expo lo_exp_def expo_def)
qed

lemma rnd_idem: "0 < prec F \<Longrightarrow> rnd F (rnd F x) = rnd F x"
  using rnd_as_grid [of F x] rnd_fix by metis

lemma rnd_multiple: "\<exists>n. rnd F x = of_int n * 2 powi lo_exp F"
  using rnd_as_grid [of F x] int_powi_shift by metis

lemma rnd_error: "\<bar>rnd F x - x\<bar> \<le> ulp F x / 2"
proof (cases "x = 0")
  case False
  have "x = x / ulp F x * ulp F x" using ulp_pos [of F x] by simp
  then have "rnd F x - x = (of_int (rne (x / ulp F x)) - x / ulp F x) * ulp F x"
    using False by (simp add: rnd_def left_diff_distrib)
  then have "\<bar>rnd F x - x\<bar> = \<bar>of_int (rne (x / ulp F x)) - x / ulp F x\<bar> * ulp F x"
    by (simp add: abs_mult less_imp_le)
  also have "\<dots> \<le> 1/2 * ulp F x" by (intro mult_right_mono rne_error) (simp add: less_imp_le)
  finally show ?thesis by simp
qed (simp add: less_imp_le)

lemma rnd_rel_error:
  assumes "2 powi (1 - emax F) \<le> \<bar>x\<bar>"
  shows "\<bar>rnd F x - x\<bar> \<le> \<bar>x\<bar> * 2 powi (- int (prec F))"
proof -
  have pos: "0 < \<bar>x\<bar>" using assms by (metis less_le_trans powi_two_pos)
  have e: "expo F x = binade \<bar>x\<bar>" using binade_ge [OF assms] by (simp add: expo_def)
  have "ulp F x / 2 = 2 powi binade \<bar>x\<bar> * 2 powi (- int (prec F))"
    by (simp add: ulp_expo e powi_two_diff powi_two_add power_int_minus field_simps)
  also have "\<dots> \<le> \<bar>x\<bar> * 2 powi (- int (prec F))"
    by (intro mult_right_mono binade_bounds(1) pos) (simp add: less_imp_le)
  finally show ?thesis using rnd_error [of F x] by linarith
qed

section \<open>The interface of a rounding\<close>

locale rounding =
  fixes rd :: "real \<Rightarrow> real" and p :: nat and lo :: int
  assumes rd_mono: "x \<le> y \<Longrightarrow> rd x \<le> rd y"
    and rd_minus: "rd (- x) = - rd x"
    and rd_fix: "\<bar>n\<bar> \<le> 2 ^ p \<Longrightarrow> lo \<le> k \<Longrightarrow> rd (of_int n * 2 powi k) = of_int n * 2 powi k"
    and rd_idem: "rd (rd x) = rd x"
    and rd_multiple: "\<exists>n. rd x = of_int n * 2 powi lo"
    and rd_rel: "2 powi (lo + int p - 1) \<le> \<bar>x\<bar> \<Longrightarrow> \<bar>rd x - x\<bar> \<le> \<bar>x\<bar> * 2 powi (- int p)"
    and lo_neg: "lo < 0"
begin

lemma rd_int: "\<bar>n\<bar> \<le> 2 ^ p \<Longrightarrow> rd (of_int n) = of_int n"
  using rd_fix [of n 0] lo_neg by simp

lemma rd_zero: "rd 0 = 0"
  using rd_int [of 0] by simp

lemma rd_nonneg: "0 \<le> x \<Longrightarrow> 0 \<le> rd x"
  using rd_mono [of 0 x] rd_zero by simp

lemma rd_le: "x \<le> y \<Longrightarrow> rd y = y \<Longrightarrow> rd x \<le> y"
  using rd_mono [of x y] by simp

lemma rd_ge: "x \<le> y \<Longrightarrow> rd x = x \<Longrightarrow> x \<le> rd y"
  using rd_mono [of x y] by simp

lemma rd_abs: "rd \<bar>x\<bar> = \<bar>rd x\<bar>"
  using rd_minus [of x] rd_nonneg [of x] rd_nonneg [of "- x"] by (auto simp: abs_if)

lemma rd_powi: "lo \<le> k \<Longrightarrow> rd (2 powi k) = 2 powi k"
  using rd_fix [of 1 k] by simp

text \<open>The difference of two distinct values of the format does not round to zero.\<close>

lemma rd_diff_pos:
  assumes "rd x = x" "rd y = y" "x < y"
  shows "2 powi lo \<le> rd (y - x)"
proof -
  obtain m n where "x = of_int m * 2 powi lo" "y = of_int n * 2 powi lo"
    using rd_multiple [of x] rd_multiple [of y] assms by auto
  then have d: "y - x = of_int (n - m) * 2 powi lo" by (simp add: left_diff_distrib)
  have "0 < of_int (n - m) * (2::real) powi lo" using assms(3) d by simp
  then have "0 < n - m" by (metis of_int_0_less_iff powi_two_pos zero_less_mult_pos2)
  then have "(1::real) \<le> of_int (n - m)" by simp
  then have "2 powi lo \<le> y - x" unfolding d using mult_right_mono [of 1 "of_int (n - m)" "2 powi lo :: real"]
    by (simp add: less_imp_le del: of_int_diff)
  then show ?thesis by (rule rd_ge) (simp add: rd_powi)
qed

text \<open>Scaling by an integer and dividing back overshoots the integer by less than a half.\<close>

lemma rd_scale_le:
  assumes "0 < m" "m < 2 ^ (p - 2)" "2 \<le> p" "2 powi (lo + int p - 1) \<le> d"
  shows "rd (rd (of_int m * d) / d) \<le> of_int m + 1/2"
proof -
  have d: "0 < d" using assms(4) by (metis less_le_trans powi_two_pos)
  have m1: "(1::real) \<le> of_int m" using assms(1) by simp
  have md: "d \<le> of_int m * d" using d m1 mult_right_mono [of 1 "of_int m" d] by simp
  then have "2 powi (lo + int p - 1) \<le> \<bar>of_int m * d\<bar>" using assms(4) d md by linarith
  then have "\<bar>rd (of_int m * d) - of_int m * d\<bar> \<le> \<bar>of_int m * d\<bar> * 2 powi (- int p)" by (rule rd_rel)
  then have "rd (of_int m * d) \<le> of_int m * d + of_int m * d * 2 powi (- int p)" using md d by linarith
  then have "rd (of_int m * d) / d \<le> (of_int m * d + of_int m * d * 2 powi (- int p)) / d"
    using d by (intro divide_right_mono) simp_all
  also have "\<dots> = of_int m + of_int m * 2 powi (- int p)" using d by (simp add: field_simps)
  also have "of_int m * 2 powi (- int p) \<le> (1/2 :: real)"
  proof -
    have "(of_int m :: real) \<le> of_int (2 ^ (p - 2))" using assms(2) by (simp only: of_int_le_iff less_imp_le)
    then have "of_int m * 2 powi (- int p) \<le> (2::real) ^ (p - 2) * 2 powi (- int p)"
      by (intro mult_right_mono) (simp_all add: less_imp_le)
    also have "\<dots> \<le> 2 ^ p * 2 powi (- int p) / 2"
      using assms(3) by (cases p; cases "p - 1") (simp_all add: power_int_minus field_simps)
    also have "\<dots> = (1/2 :: real)" by (simp add: power_int_minus)
    finally show ?thesis .
  qed
  finally have le: "rd (of_int m * d) / d \<le> of_int m + 1/2" by linarith
  have "\<bar>2 * m + 1\<bar> \<le> 2 ^ p"
  proof -
    have "2 * m + 1 \<le> 2 * 2 ^ (p - 2)" using assms(2) by simp
    also have "\<dots> \<le> 2 ^ p" using assms(3) by (cases p; cases "p - 1") simp_all
    finally show ?thesis using assms(1) by simp
  qed
  moreover have "lo \<le> - 1" using lo_neg by simp
  ultimately have "rd (of_int (2 * m + 1) * 2 powi (- 1)) = of_int (2 * m + 1) * 2 powi (- 1)"
    by (rule rd_fix)
  then have "rd (of_int m + 1/2) = of_int m + 1/2" by (simp add: field_simps power_int_minus)
  with le show ?thesis by (rule rd_le)
qed

end

lemma rounding_rnd:
  assumes "0 < prec F" "lo_exp F < 0"
  shows "rounding (rnd F) (prec F) (lo_exp F)"
  using assms rnd_mono [of _ _ F] rnd_minus [of F] rnd_fix [of _ F] rnd_idem [of F] rnd_multiple [of F] rnd_rel_error [of F]
  by unfold_locales (simp_all add: lo_exp_def)

interpretation r32: rounding "rnd binary32" 24 "-149"
  using rounding_rnd [of binary32] by (simp add: binary32_def lo_exp_def)

interpretation r64: rounding "rnd binary64" 53 "-1074"
  using rounding_rnd [of binary64] by (simp add: binary64_def lo_exp_def)

section \<open>Floating-point values and operations\<close>

datatype flt = Fin real | PInf | NInf | NaN

definition fround :: "fmt \<Rightarrow> real \<Rightarrow> flt" where
  "fround F x = (let r = rnd F x in
     if 2 powi (emax F + 1) \<le> r then PInf else if r \<le> - (2 powi (emax F + 1)) then NInf else Fin r)"

fun isfinite :: "flt \<Rightarrow> bool" where
  "isfinite (Fin _) = True"
| "isfinite _ = False"

fun fneg :: "flt \<Rightarrow> flt" where
  "fneg (Fin a) = Fin (- a)"
| "fneg PInf = NInf"
| "fneg NInf = PInf"
| "fneg NaN = NaN"

fun fabs :: "flt \<Rightarrow> flt" where
  "fabs (Fin a) = Fin \<bar>a\<bar>"
| "fabs PInf = PInf"
| "fabs NInf = PInf"
| "fabs NaN = NaN"

fun fadd :: "fmt \<Rightarrow> flt \<Rightarrow> flt \<Rightarrow> flt" where
  "fadd F (Fin a) (Fin b) = fround F (a + b)"
| "fadd F NaN _ = NaN"
| "fadd F _ NaN = NaN"
| "fadd F PInf NInf = NaN"
| "fadd F NInf PInf = NaN"
| "fadd F PInf _ = PInf"
| "fadd F _ PInf = PInf"
| "fadd F NInf _ = NInf"
| "fadd F _ NInf = NInf"

definition fsub :: "fmt \<Rightarrow> flt \<Rightarrow> flt \<Rightarrow> flt" where
  "fsub F a b = fadd F a (fneg b)"

text \<open>The sign of a value, for products and quotients with an infinity; \<open>None\<close> for zero.\<close>

fun fsign :: "flt \<Rightarrow> bool option" where
  "fsign (Fin a) = (if a = 0 then None else Some (a < 0))"
| "fsign PInf = Some False"
| "fsign NInf = Some True"
| "fsign NaN = None"

definition inf_of :: "bool \<Rightarrow> flt" where
  "inf_of neg = (if neg then NInf else PInf)"

fun fmul :: "fmt \<Rightarrow> flt \<Rightarrow> flt \<Rightarrow> flt" where
  "fmul F (Fin a) (Fin b) = fround F (a * b)"
| "fmul F a b = (case (fsign a, fsign b) of (Some s, Some t) \<Rightarrow> inf_of (s \<noteq> t) | _ \<Rightarrow> NaN)"

fun fdiv :: "fmt \<Rightarrow> flt \<Rightarrow> flt \<Rightarrow> flt" where
  "fdiv F (Fin a) (Fin b) =
     (if b = 0 then (if a = 0 then NaN else inf_of (a < 0)) else fround F (a / b))"
| "fdiv F NaN _ = NaN"
| "fdiv F _ NaN = NaN"
| "fdiv F (Fin a) _ = Fin 0"
| "fdiv F a (Fin b) = inf_of ((a = NInf) \<noteq> (b < 0))"
| "fdiv F _ _ = NaN"

fun fsqrt :: "fmt \<Rightarrow> flt \<Rightarrow> flt" where
  "fsqrt F (Fin a) = (if a < 0 then NaN else fround F (sqrt a))"
| "fsqrt F PInf = PInf"
| "fsqrt F _ = NaN"

fun flt_lt :: "flt \<Rightarrow> flt \<Rightarrow> bool" where
  "flt_lt NaN _ = False"
| "flt_lt _ NaN = False"
| "flt_lt (Fin a) (Fin b) = (a < b)"
| "flt_lt NInf b = (b \<noteq> NInf)"
| "flt_lt a PInf = (a \<noteq> PInf)"
| "flt_lt _ _ = False"

fun flt_eq :: "flt \<Rightarrow> flt \<Rightarrow> bool" where
  "flt_eq NaN _ = False"
| "flt_eq a b = (a = b)"

definition flt_le :: "flt \<Rightarrow> flt \<Rightarrow> bool" where
  "flt_le a b = (flt_lt a b \<or> flt_eq a b)"

text \<open>\<^verbatim>\<open>std::max\<close> and \<^verbatim>\<open>std::min\<close>: the first argument wins ties and comparisons with NaN.\<close>

definition fmax :: "flt \<Rightarrow> flt \<Rightarrow> flt" where
  "fmax a b = (if flt_lt a b then b else a)"

definition fmin :: "flt \<Rightarrow> flt \<Rightarrow> flt" where
  "fmin a b = (if flt_lt b a then b else a)"

text \<open>Conversions: an integer, a narrowing (\<^verbatim>\<open>double\<close> to \<^verbatim>\<open>float\<close>), a truncation to \<^verbatim>\<open>int\<close>.\<close>

definition of_int_f :: "fmt \<Rightarrow> int \<Rightarrow> flt" where
  "of_int_f F n = fround F (of_int n)"

fun narrow :: "fmt \<Rightarrow> flt \<Rightarrow> flt" where
  "narrow F (Fin a) = fround F a"
| "narrow F a = a"

definition trunc :: "real \<Rightarrow> int" where
  "trunc x = (if 0 \<le> x then \<lfloor>x\<rfloor> else \<lceil>x\<rceil>)"

fun to_int32 :: "flt \<Rightarrow> int option" where
  "to_int32 (Fin a) = (let n = trunc a in if - (2 ^ 31) \<le> n \<and> n < 2 ^ 31 then Some n else None)"
| "to_int32 _ = None"

text \<open>A literal of the source, rounded to its type.\<close>

abbreviation lit32 :: "real \<Rightarrow> flt" where
  "lit32 x \<equiv> fround binary32 x"

abbreviation lit64 :: "real \<Rightarrow> flt" where
  "lit64 x \<equiv> fround binary64 x"

text \<open>A value of a format: every finite value is on the format's grid.\<close>

fun is_flt :: "fmt \<Rightarrow> flt \<Rightarrow> bool" where
  "is_flt F (Fin a) = (rnd F a = a \<and> \<bar>a\<bar> < 2 powi (emax F + 1))"
| "is_flt F _ = True"

subsection \<open>Basic facts\<close>

lemma flt_lt_irrefl [simp]: "\<not> flt_lt a a"
  by (cases a) simp_all

lemma flt_lt_trans: "flt_lt a b \<Longrightarrow> flt_lt b c \<Longrightarrow> flt_lt a c"
  by (cases a; cases b; cases c) auto

lemma flt_lt_asym: "flt_lt a b \<Longrightarrow> \<not> flt_lt b a"
  using flt_lt_irrefl flt_lt_trans by blast

lemma flt_le_refl_iff: "flt_le a a \<longleftrightarrow> a \<noteq> NaN"
  by (cases a) (simp_all add: flt_le_def)

lemma flt_le_Fin [simp]: "flt_le (Fin a) (Fin b) \<longleftrightarrow> a \<le> b"
  by (auto simp: flt_le_def)

lemma flt_le_trans: "flt_le a b \<Longrightarrow> flt_le b c \<Longrightarrow> flt_le a c"
  by (cases a; cases b; cases c) (auto simp: flt_le_def)

lemma flt_le_not_lt: "flt_le a b \<Longrightarrow> \<not> flt_lt b a"
  by (cases a; cases b) (auto simp: flt_le_def)

lemma flt_not_lt: "a \<noteq> NaN \<Longrightarrow> b \<noteq> NaN \<Longrightarrow> \<not> flt_lt a b \<longleftrightarrow> flt_le b a"
  by (cases a; cases b) (auto simp: flt_le_def)

lemma is_flt_fround:
  assumes "0 < prec F"
  shows "is_flt F (fround F x)"
  using assms by (auto simp: fround_def Let_def rnd_idem abs_less_iff)

lemma fround_Fin:
  assumes "\<bar>rnd F x\<bar> < 2 powi (emax F + 1)"
  shows "fround F x = Fin (rnd F x)"
  using assms unfolding fround_def Let_def by auto

lemma fround32_Fin: "\<bar>rnd binary32 x\<bar> < 2 powi 128 \<Longrightarrow> fround binary32 x = Fin (rnd binary32 x)"
  by (rule fround_Fin) (simp add: binary32_def)

lemma fround_exact: "is_flt F (Fin x) \<Longrightarrow> fround F x = Fin x"
  using fround_Fin [of F x] by simp

lemma fround_zero [simp]: "fround F 0 = Fin 0"
  using fround_Fin [of F 0] by simp

lemma prec_pos [simp]: "0 < prec binary32" "0 < prec binary64"
  by (simp_all add: binary32_def binary64_def)

lemma fround_bound32:
  assumes "\<bar>x\<bar> \<le> 2 powi k" "-149 \<le> k" "k < 128"
  shows "fround binary32 x = Fin (rnd binary32 x)" "\<bar>rnd binary32 x\<bar> \<le> 2 powi k"
proof -
  have "rnd binary32 \<bar>x\<bar> \<le> 2 powi k" using assms by (intro r32.rd_le r32.rd_powi) simp_all
  then show b: "\<bar>rnd binary32 x\<bar> \<le> 2 powi k" by (simp add: r32.rd_abs)
  have "(2::real) powi k < 2 powi 128" using assms(3) by (simp only: powi_two_less_iff)
  with b have "\<bar>rnd binary32 x\<bar> < 2 powi 128" by linarith
  then show "fround binary32 x = Fin (rnd binary32 x)" by (rule fround32_Fin)
qed

lemma fmax_ge: "a \<noteq> NaN \<Longrightarrow> b \<noteq> NaN \<Longrightarrow> flt_le a (fmax a b) \<and> flt_le b (fmax a b)"
  by (cases a; cases b) (auto simp: fmax_def flt_le_def)

lemma trunc_of_int [simp]: "trunc (of_int n) = n"
  by (simp add: trunc_def)

lemma trunc_mono: "x \<le> y \<Longrightarrow> trunc x \<le> trunc y"
  by (auto simp: trunc_def intro: floor_mono ceiling_mono) (meson ceiling_le_zero dual_order.trans linorder_not_le order_less_imp_le zero_le_floor)

subsection \<open>Bit patterns\<close>

text \<open>The value of a binary32 bit pattern, as a \<^verbatim>\<open>union\<close> or a \<^verbatim>\<open>memcpy\<close> reads it.\<close>

definition flt_of_bits :: "u32 \<Rightarrow> flt" where
  "flt_of_bits w =
     (let neg = bit w 31; e = int (unat (drop_bit 23 w AND 0xFF)); m = real (unat (w AND 0x7FFFFF));
          v = (if e = 0 then m * 2 powi (-149) else (2 ^ 23 + m) * 2 powi (e - 150))
      in if e = 255 then (if m = 0 then inf_of neg else NaN)
         else Fin (if neg then - v else v))"

text \<open>Evaluation of closed terms: the definitions with the recursion equation of \<open>bitlen\<close>.\<close>

lemmas flt_eval = fround_def rnd_def ulp_def binade_def rne_def compute_bitlen Let_def
  binary32_def binary64_def

subsection \<open>Absorption of NaN\<close>

lemma fadd_NaN_right [simp]: "fadd F a NaN = NaN"
  by (cases a) simp_all

lemma fmul_NaN_left [simp]: "fmul F NaN b = NaN"
  by (cases b) simp_all

lemma fmul_NaN_right [simp]: "fmul F a NaN = NaN"
  by (cases a) (simp_all split: option.splits)

lemma fsub_NaN [simp]: "fsub F NaN b = NaN" "fsub F a NaN = NaN"
  by (simp_all add: fsub_def)

lemma fdiv_NaN_right [simp]: "fdiv F a NaN = NaN"
  by (cases a) simp_all

subsection \<open>Order and rounding\<close>

lemma finite_not_le: "isfinite a \<Longrightarrow> isfinite b \<Longrightarrow> \<not> flt_le b a \<Longrightarrow> flt_lt a b"
  by (cases a; cases b) (auto simp: flt_le_Fin)

lemma finite_not_lt: "isfinite a \<Longrightarrow> isfinite b \<Longrightarrow> \<not> flt_lt b a \<Longrightarrow> flt_le a b"
  by (cases a; cases b) (auto simp: flt_le_Fin)

lemma nonneg_iff: "flt_le (Fin 0) x \<longleftrightarrow> x = PInf \<or> (\<exists>a \<ge> 0. x = Fin a)"
  by (cases x) (auto simp: flt_le_def)

lemma fround_nonneg: "0 \<le> y \<Longrightarrow> flt_le (Fin 0) (fround F y)"
  using rnd_nonneg [of y F] by (auto simp: fround_def Let_def nonneg_iff) 

lemma flt_le_antisym: "flt_le a b \<Longrightarrow> flt_le b a \<Longrightarrow> a = b"
  by (cases a; cases b) (auto simp: flt_le_def)

lemma fround_mono: "x \<le> y \<Longrightarrow> 0 < prec F \<Longrightarrow> flt_le (fround F x) (fround F y)"
  using rnd_mono [of x y F] by (auto simp: fround_def Let_def flt_le_def)

lemma fround_between:
  assumes "a \<le> y" "y \<le> b" "is_flt F (Fin a)" "is_flt F (Fin b)" "0 < prec F"
  shows "\<exists>d. fround F y = Fin d \<and> is_flt F (Fin d) \<and> a \<le> d \<and> d \<le> b"
proof -
  have "a \<le> rnd F y" "rnd F y \<le> b" using rnd_mono [OF assms(1,5)] rnd_mono [OF assms(2,5)] assms(3,4) by simp_all
  then show ?thesis using assms(3,4) rnd_idem [OF assms(5), of y] by (auto simp: fround_def Let_def)
qed

lemma is_flt_widen: "is_flt binary32 (Fin x) \<Longrightarrow> is_flt binary64 (Fin x)"
proof -
  assume a: "is_flt binary32 (Fin x)"
  obtain n k where g: "rnd binary32 x = of_int n * 2 powi k" "\<bar>n\<bar> \<le> 2 ^ 24" "lo_exp binary32 \<le> k"
    using rnd_as_grid [of binary32 x] by (auto simp: binary32_def)
  have "\<bar>n\<bar> \<le> 2 ^ prec binary64" "lo_exp binary64 \<le> k"
    using g(2,3) by (simp_all add: binary32_def binary64_def lo_exp_def)
  then have "rnd binary64 x = x" using rnd_fix [of n binary64 k] a g(1) by simp
  moreover have "\<bar>x\<bar> < (2::real) powi 1024"
    using a less_trans [of "\<bar>x\<bar>" "2 powi 128" "2 powi 1024"] by (simp add: binary32_def)
  ultimately show ?thesis by (simp add: binary64_def)
qed

lemma is_flt_small [simp]: "is_flt binary64 (Fin 0)" "is_flt binary64 (Fin 1)" "is_flt binary64 (Fin 30)" "is_flt binary32 (Fin 0)"
  by (simp_all add: binary64_def binary32_def flt_eval)

lemma flt_lt_NaN_right [simp]: "\<not> flt_lt a NaN"
  by (cases a) simp_all

end
