(* ===== verification/Math_Ops.thy ===== *)
theory Math_Ops
  imports Pi_Float
begin

text \<open>
  The numeric helpers of the CAN codec, \<^verbatim>\<open>native/pi_control/src/can/math_ops.cpp\<close>: the
  linear quantiser and its inverse, the half-precision conversions on bit patterns and the
  small vector helpers. The main facts: the quantiser never leaves the bit field it is
  given, whatever the rounding errors; half-precision conversion is exact on every normal
  half-precision number; and it is wrong on subnormal numbers and on NaN.
\<close>

section \<open>Definitions\<close>

definition fmaxf3 :: "flt \<Rightarrow> flt \<Rightarrow> flt \<Rightarrow> flt" where
  "fmaxf3 x y z =
     (let max_val = x;
          max_val = (if flt_lt max_val y then y else max_val);
          max_val = (if flt_lt max_val z then z else max_val)
      in max_val)"

definition fminf3 :: "flt \<Rightarrow> flt \<Rightarrow> flt \<Rightarrow> flt" where
  "fminf3 x y z =
     (let min_val = x;
          min_val = (if flt_lt y min_val then y else min_val);
          min_val = (if flt_lt z min_val then z else min_val)
      in min_val)"

definition max_int :: "nat \<Rightarrow> int" where
  "max_int bits = 2 ^ bits - 1"

definition float_to_uint :: "flt \<Rightarrow> flt \<Rightarrow> flt \<Rightarrow> nat \<Rightarrow> int option" where
  "float_to_uint x x_min x_max bits =
     to_int32 (fdiv binary32
       (fmul binary32 (of_int_f binary32 (max_int bits)) (fsub binary32 x x_min))
       (fsub binary32 x_max x_min))"

definition uint_to_float :: "int \<Rightarrow> flt \<Rightarrow> flt \<Rightarrow> nat \<Rightarrow> flt" where
  "uint_to_float x_int x_min x_max bits =
     fadd binary32
       (fdiv binary32
         (fmul binary32 (of_int_f binary32 x_int) (fsub binary32 x_max x_min))
         (of_int_f binary32 (max_int bits)))
       x_min"

definition int_to_float :: "int \<Rightarrow> flt \<Rightarrow> flt \<Rightarrow> nat \<Rightarrow> flt" where
  "int_to_float val mn mx bits =
     (let scaled = fdiv binary32 (of_int_f binary32 val) (of_int_f binary32 (max_int bits))
      in fadd binary32 (fmul binary32 (fsub binary32 mn mx) scaled) mx)"

definition limit_norm :: "flt \<Rightarrow> flt \<Rightarrow> flt \<Rightarrow> flt \<times> flt" where
  "limit_norm x y limit =
     (let norm = fsqrt binary32 (fadd binary32 (fmul binary32 x x) (fmul binary32 y y))
      in if flt_lt limit norm
         then (fdiv binary32 (fmul binary32 x limit) norm, fdiv binary32 (fmul binary32 y limit) norm)
         else (x, y))"

text \<open>Half precision, on the bit patterns the C++ code reads through pointers.\<close>

definition float32_to_float16 :: "u32 \<Rightarrow> u16" where
  "float32_to_float16 f32 =
     (let sign = ucast (drop_bit 16 f32) AND 0x8000 :: u16;
          ex = int (unat (drop_bit 23 f32 AND 0xFF)) - 112;
          mantissa = ucast (drop_bit 13 f32 AND 0x3FF) :: u16
      in if ex \<le> 0 then
           (if ex < -10 then sign
            else sign OR drop_bit (nat (1 - ex)) (mantissa OR 0x400))
         else if ex \<ge> 31 then
           sign OR push_bit 10 31 OR (if ex = 255 \<and> mantissa \<noteq> 0 then 0x200 else 0)
         else sign OR push_bit 10 (word_of_int ex) OR mantissa)"

text \<open>The loop that shifts a subnormal mantissa up to its implicit bit; it would not end on 0.\<close>

partial_function (option) normalise_loop :: "u32 \<Rightarrow> u32 \<Rightarrow> (u32 \<times> u32) option" where
  "normalise_loop mantissa ex =
     (if mantissa AND 0x400 = 0 then normalise_loop (push_bit 1 mantissa) (ex - 1)
      else Some (mantissa, ex))"

definition float16_to_float32 :: "u16 \<Rightarrow> u32 option" where
  "float16_to_float32 f16 =
     (let sign = push_bit 16 (ucast (f16 AND 0x8000)) :: u32;
          ex = ucast (drop_bit 10 (f16 AND 0x7C00)) :: u32;
          mantissa = ucast (f16 AND 0x3FF) :: u32
      in if ex = 0 then
           (if mantissa = 0 then Some sign
            else case normalise_loop mantissa 1 of
                None \<Rightarrow> None
              | Some (m, e) \<Rightarrow> Some (sign OR push_bit 23 (e + (127 - 15 + 1)) OR (m AND 0x3FF)))
         else if ex = 0x1F then
           Some (sign OR push_bit 23 255 OR
                 (if mantissa \<noteq> 0 then push_bit 13 mantissa OR 0x7FFFFF else 0))
         else Some (sign OR push_bit 23 (ex + (127 - 15)) OR push_bit 13 mantissa))"

text \<open>The exponent field of a half-precision pattern.\<close>

definition half_exp :: "u16 \<Rightarrow> u16" where "half_exp f = drop_bit 10 (f AND 0x7C00)"

section \<open>Lemmas\<close>

lemma of_int_f32_exact: "\<bar>n\<bar> \<le> 2 ^ 24 \<Longrightarrow> of_int_f binary32 n = Fin (of_int n)"
proof -
  assume n: "\<bar>n\<bar> \<le> 2 ^ 24"
  then have "\<bar>of_int n :: real\<bar> \<le> of_int (2 ^ 24)" by (simp only: of_int_abs [symmetric] of_int_le_iff)
  then have "\<bar>of_int n :: real\<bar> \<le> 2 powi 24" by simp
  then have "fround binary32 (of_int n) = Fin (rnd binary32 (of_int n))"
    by (rule fround_bound32) simp_all
  then show ?thesis using r32.rd_int [of n] n by (simp add: of_int_f_def)
qed

lemma fsub_Fin: "fsub F (Fin a) (Fin b) = fround F (a - b)"
  by (simp add: fsub_def)

text \<open>The quantiser on a range of ordinary width: three roundings, then a truncation.\<close>

lemma float_to_uint_eq:
  assumes w: "xmax - xmin \<le> 2 ^ 60" "xmin \<le> x" "x \<le> xmax" "xmin < xmax"
    and r: "rnd binary32 xmin = xmin" "rnd binary32 xmax = xmax" and b: "bits \<le> 22"
  defines "d \<equiv> rnd binary32 (xmax - xmin)" and "u \<equiv> rnd binary32 (x - xmin)"
    and "m \<equiv> (of_int (max_int bits) :: real)"
  shows "0 < d" "u \<le> d" "0 \<le> u"
    "float_to_uint (Fin x) (Fin xmin) (Fin xmax) bits
      = to_int32 (fround binary32 (rnd binary32 (m * u) / d))"
proof -
  show d: "0 < d" using r32.rd_diff_pos [OF r(1) r(2) w(4)] powi_two_pos [of "-149"] d_def by linarith
  show ud: "u \<le> d" unfolding u_def d_def using w by (intro r32.rd_mono) simp
  show u: "0 \<le> u" unfolding u_def using w by (intro r32.rd_nonneg) simp
  have "2 ^ bits \<le> (2::int) ^ 22" using b by (intro power_increasing) simp_all
  then have mi: "0 \<le> max_int bits" "max_int bits \<le> 2 ^ 22" by (simp_all add: max_int_def)
  then have m0: "0 \<le> m" "m \<le> 2 ^ 22" unfolding m_def by (simp, metis of_int_le_iff of_int_numeral of_int_power)
  have k: "\<bar>xmax - xmin\<bar> \<le> 2 powi 60" "\<bar>x - xmin\<bar> \<le> 2 powi 60" using w by simp_all
  have f: "fround binary32 (xmax - xmin) = Fin d" "fround binary32 (x - xmin) = Fin u" "\<bar>u\<bar> \<le> 2 powi 60"
    unfolding d_def u_def using fround_bound32 [OF k(1)] fround_bound32 [OF k(2)] by simp_all
  have "m * u \<le> 2 ^ 22 * 2 ^ 60" using m0 u f(3) by (intro mult_mono) simp_all
  then have "\<bar>m * u\<bar> \<le> 2 powi 82" using m0 u by simp
  then have "fround binary32 (m * u) = Fin (rnd binary32 (m * u))" by (rule fround_bound32) simp_all
  moreover have "of_int_f binary32 (max_int bits) = Fin m"
    unfolding m_def using mi by (intro of_int_f32_exact) simp
  ultimately show "float_to_uint (Fin x) (Fin xmin) (Fin xmax) bits
      = to_int32 (fround binary32 (rnd binary32 (m * u) / d))"
    unfolding float_to_uint_def fsub_Fin f using d by simp
qed

subsection \<open>Half precision\<close>

lemma take_bit_small: "unat w < 2 ^ k \<Longrightarrow> take_bit k w = (w :: 'a::len word)"
  by (simp add: word_unat_eq_iff unsigned_take_bit_eq take_bit_nat_eq_self)

lemma bit_small: "unat (w :: 'a::len word) < 2 ^ k \<Longrightarrow> bit w n \<Longrightarrow> n < k"
  using take_bit_small [of w k] by (metis bit_take_bit_iff)


lemma bit_and_low:
  "bit ((w :: 'a::len word) AND 0x3FF) n \<longleftrightarrow> bit w n \<and> n < 10"
  "bit (w AND 0xFF) n \<longleftrightarrow> bit w n \<and> n < 8"
  using bit_take_bit_iff [of 10 w n] bit_take_bit_iff [of 8 w n]
  by (auto simp: take_bit_eq_mask mask_eq_exp_minus_1)

lemma bit_and_field:
  "bit ((f :: u16) AND 0x8000) n \<longleftrightarrow> bit f n \<and> n = 15"
  "bit (f AND 0x7C00) n \<longleftrightarrow> bit f n \<and> 10 \<le> n \<and> n < 15"
proof -
  have m: "(0x8000 :: u16) = push_bit 15 (mask 1)" "(0x7C00 :: u16) = push_bit 10 (mask 5)"
    by (simp_all add: mask_eq_exp_minus_1)
  have b: "bit f n \<Longrightarrow> n < 16" using bit_imp_le_length [of f n] by simp
  show "bit (f AND 0x8000) n \<longleftrightarrow> bit f n \<and> n = 15"
    unfolding m(1) bit_and_iff bit_push_bit_iff bit_mask_iff using b by (cases "bit f n") auto
  show "bit (f AND 0x7C00) n \<longleftrightarrow> bit f n \<and> 10 \<le> n \<and> n < 15"
    unfolding m(2) bit_and_iff bit_push_bit_iff bit_mask_iff using b by (cases "bit f n") auto
qed

lemmas half_bits = bit_and_low bit_and_field bit_or_iff bit_push_bit_iff bit_drop_bit_eq bit_unsigned_iff comp_def

lemma half_exp_bound: "unat (half_exp f) < 32"
proof -
  have "take_bit 5 (half_exp f) = half_exp f"
    by (rule bit_word_eqI) (auto simp only: half_exp_def half_bits bit_take_bit_iff; simp)
  then have "unat (half_exp f) = take_bit 5 (unat (half_exp f))" by (metis unsigned_take_bit_eq)
  also have "... < 2 ^ 5" by (rule take_bit_nat_less_exp)
  finally show ?thesis by simp
qed

lemma half_split: "(f AND 0x8000) OR push_bit 10 (half_exp f) OR (f AND 0x3FF) = f"
proof (rule bit_word_eqI)
  fix n assume "n < LENGTH(16)"
  then consider "n < 10" | "10 \<le> n" "n < 15" | "n = 15" by fastforce
  then show "bit ((f AND 0x8000) OR push_bit 10 (half_exp f) OR (f AND 0x3FF)) n = bit f n"
    unfolding half_exp_def half_bits by cases simp_all
qed

lemma pack32:
  fixes E :: u32 and f :: u16
  assumes E: "unat E < 2 ^ 8"
  defines "g \<equiv> push_bit 16 (ucast (f AND 0x8000)) OR push_bit 23 E OR push_bit 13 (ucast ((f :: u16) AND 0x3FF))"
  shows "(ucast (drop_bit 16 g) AND 0x8000 :: u16) = f AND 0x8000"
    "drop_bit 23 g AND 0xFF = E" "(ucast (drop_bit 13 g AND 0x3FF) :: u16) = f AND 0x3FF"
proof -
  have b: "bit E n \<Longrightarrow> n < 8" for n using bit_small [OF E] by simp
  show "(ucast (drop_bit 16 g) AND 0x8000 :: u16) = f AND 0x8000"
    unfolding g_def by (rule bit_word_eqI, unfold half_bits) (use b b [of 8] in auto)
  show "drop_bit 23 g AND 0xFF = E"
  proof (rule bit_word_eqI)
    fix n
    show "bit (drop_bit 23 g AND 0xFF) n = bit E n"
      unfolding g_def half_bits using b [of n] by (cases "n < 8") auto
  qed
  show "(ucast (drop_bit 13 g AND 0x3FF) :: u16) = f AND 0x3FF"
    unfolding g_def by (rule bit_word_eqI, unfold half_bits) (use b in auto)
qed

lemma float16_to_float32_normal:
  assumes "half_exp f \<noteq> 0" "half_exp f \<noteq> 31"
  shows "float16_to_float32 f = Some (push_bit 16 (ucast (f AND 0x8000))
     OR push_bit 23 (ucast (half_exp f) + 112) OR push_bit 13 (ucast (f AND 0x3FF)))"
proof -
  have "(ucast (half_exp f) :: u32) \<noteq> 0" "(ucast (half_exp f) :: u32) \<noteq> 31"
    using assms half_exp_bound [of f]
    by (auto simp: word_unat_eq_iff unsigned_ucast_eq take_bit_nat_eq_self)
  then show ?thesis unfolding float16_to_float32_def half_exp_def [symmetric] Let_def by simp
qed


lemma normalise_loop_returns:
  "0 < unat m \<Longrightarrow> unat m < 2048 \<Longrightarrow> \<exists>r. normalise_loop m e = Some r"
proof (induction "2048 - unat m" arbitrary: m e rule: less_induct)
  case less
  show ?case
  proof (cases "m AND 0x400 = 0")
    case False
    then show ?thesis by (simp add: normalise_loop.simps)
  next
    case True
    have "unat m < 1024"
    proof (rule ccontr)
      assume "\<not> unat m < 1024"
      then have "unat m div 2 ^ 10 = 1" using less.prems by (intro div_nat_eqI) simp_all
      then have "odd (unat m div 2 ^ 10)" by simp
      then have "bit (unat m) 10" unfolding bit_iff_odd .
      then have "bit m 10" by (simp only: bit_unsigned_iff)
      moreover have "m AND 2 ^ 10 = 0" using True by simp
      ultimately show False using and_exp_eq_0_iff_not_bit [of m 10] by blast
    qed
    then have u: "unat (push_bit 1 m) = 2 * unat m"
      by (simp add: push_bit_eq_mult unat_word_ariths)
    have "\<exists>r. normalise_loop (push_bit 1 m) (e - 1) = Some r"
      using less.prems \<open>unat m < 1024\<close> u by (intro less.hyps) simp_all
    then show ?thesis using True by (subst normalise_loop.simps) simp
  qed
qed

lemma float_to_uint_bounds:
  assumes w: "2 powi (-100) \<le> xmax - xmin" "xmax - xmin \<le> 2 ^ 60" "xmin \<le> x" "x \<le> xmax"
    and r: "rnd binary32 xmin = xmin" "rnd binary32 xmax = xmax" and b: "0 < bits" "bits \<le> 21"
  shows "\<exists>n. float_to_uint (Fin x) (Fin xmin) (Fin xmax) bits = Some n \<and> 0 \<le> n \<and> n \<le> 2 ^ bits - 1"
proof -
  have lt: "xmin < xmax" using w(1) powi_two_pos [of "-100"] by linarith
  define d u m where "d = rnd binary32 (xmax - xmin)" and "u = rnd binary32 (x - xmin)"
    and "m = max_int bits"
  note q = float_to_uint_eq [OF w(2) w(3) w(4) lt r, of bits, folded d_def u_def m_def]
  have bits: "(2::int) ^ bits \<le> 2 ^ 21" "(2::int) ^ 1 \<le> 2 ^ bits"
    using b by (intro power_increasing; simp)+
  then have m: "0 < m" "m < 2 ^ 22" by (simp_all add: m_def max_int_def)
  have dge: "2 powi (-100) \<le> d" unfolding d_def by (rule r32.rd_ge [OF w(1)], rule r32.rd_powi) simp
  have "(2::real) powi (-126) \<le> 2 powi (-100)" by (simp only: powi_two_le_iff)
  with dge have dlow: "2 powi (-149 + int 24 - 1) \<le> d" by simp
  let ?t = "rnd binary32 (of_int m * u)"
  have "of_int m * u \<le> of_int m * d" using q m b by (intro mult_left_mono) simp_all
  then have t: "?t \<le> rnd binary32 (of_int m * d)" "0 \<le> ?t"
    using q m b by (auto intro!: r32.rd_mono r32.rd_nonneg mult_nonneg_nonneg)
  have "rnd binary32 (?t / d) \<le> rnd binary32 (rnd binary32 (of_int m * d) / d)"
    using t q b by (intro r32.rd_mono [OF divide_right_mono]) simp_all
  also have "\<dots> \<le> of_int m + 1/2" using m dlow by (intro r32.rd_scale_le) simp_all
  finally have up: "rnd binary32 (?t / d) \<le> of_int m + 1/2" .
  have low: "0 \<le> rnd binary32 (?t / d)" using t q b by (intro r32.rd_nonneg [OF divide_nonneg_pos]) simp_all
  have "(of_int m :: real) \<le> of_int (2 ^ 22)" using m by (simp only: of_int_le_iff less_imp_le)
  with up low have "\<bar>rnd binary32 (?t / d)\<bar> < 2 powi 128" by simp
  then have fr: "fround binary32 (?t / d) = Fin (rnd binary32 (?t / d))" by (rule fround32_Fin)
  have "trunc (rnd binary32 (?t / d)) \<le> m" "0 \<le> trunc (rnd binary32 (?t / d))"
    using up low by (auto simp: trunc_def floor_le_iff)
  then show ?thesis using q(4) b m fr by (simp add: m_def max_int_def)
qed

section \<open>Properties\<close>

text \<open>the quantiser of the CAN codec stays inside its bit field. For a range of ordinary width
  whose ends are representable and a finite value inside the range, \<^verbatim>\<open>float_to_uint\<close> returns an
  integer between 0 and \<open>2 ^ bits - 1\<close>: the roundings of the subtraction, of the product and
  of the quotient can never push the truncated result into the next bit.\<close>

theorem float_to_uint_range:
  assumes w: "2 powi (-100) \<le> xmax - xmin" "xmax - xmin \<le> 2 ^ 60" "xmin \<le> x" "x \<le> xmax"
    and r: "rnd binary32 xmin = xmin" "rnd binary32 xmax = xmax" and b: "0 < bits" "bits \<le> 21"
  shows "\<exists>n. float_to_uint (Fin x) (Fin xmin) (Fin xmax) bits = Some n \<and> 0 \<le> n \<and> n \<le> 2 ^ bits - 1"
  using assms by (rule float_to_uint_bounds)

theorem float_to_uint_range_witness:
  "\<exists>n. float_to_uint (Fin 1) (Fin (- 25 / 2)) (Fin (25 / 2)) 16 = Some n \<and> 0 \<le> n \<and> n \<le> 2 ^ 16 - 1"
proof -
  have g: "rnd binary32 (25 / 2) = 25 / 2"
    using r32.rd_fix [of 25 "-1"] by (simp add: power_int_minus)
  then have "rnd binary32 (- 25 / 2) = - 25 / 2" using r32.rd_minus [of "25 / 2"] by simp
  moreover have "(2::real) powi (-100) \<le> 25 / 2 - (- 25 / 2)"
    by (simp add: power_int_minus)
  ultimately show ?thesis using g float_to_uint_range [of "25 / 2" "- 25 / 2" 1 16] by simp
qed

text \<open>half precision round trip. Every normal half-precision number survives the conversion
  to single precision and back bit for bit.\<close>

theorem half_roundtrip:
  assumes "half_exp f \<noteq> 0" "half_exp f \<noteq> 31"
  shows "\<exists>g. float16_to_float32 f = Some g \<and> float32_to_float16 g = f"
proof -
  let ?E = "ucast (half_exp f) + 112 :: u32"
  have e: "0 < unat (half_exp f)" "unat (half_exp f) < 31"
    using assms half_exp_bound [of f] by (auto simp: word_unat_eq_iff) 
  then have i: "0 < uint (half_exp f)" "uint (half_exp f) < 31"
    by (metis of_nat_0_less_iff of_nat_unat, metis of_nat_less_iff of_nat_numeral of_nat_unat)
  have E: "unat ?E = unat (half_exp f) + 112"
    using e by (simp add: unat_word_ariths unsigned_ucast_eq take_bit_nat_eq_self)
  then have "unat ?E < 2 ^ 8" using e by simp
  note pk = pack32 [OF this, of f]
  have "float32_to_float16 (push_bit 16 (ucast (f AND 0x8000))
     OR push_bit 23 ?E OR push_bit 13 (ucast (f AND 0x3FF))) = f"
    unfolding float32_to_float16_def pk Let_def E using i half_split [of f] by simp
  then show ?thesis unfolding float16_to_float32_normal [OF assms] by blast
qed

theorem half_roundtrip_witness:
  "half_exp 0x3C01 = 15 \<and> (\<exists>g. float16_to_float32 0x3C01 = Some g \<and> float32_to_float16 g = 0x3C01)"
  using half_roundtrip [of "0x3C01"] by (simp add: half_exp_def)

text \<open>the half-to-single conversion returns on every input: its normalisation loop ends for
  every subnormal mantissa.\<close>

theorem float16_to_float32_total: "\<exists>g. float16_to_float32 f = Some g"
proof -
  let ?m = "ucast (f AND 0x3FF) :: u32"
  have "unat ?m \<noteq> 0 \<Longrightarrow> unat ?m < 2048 \<Longrightarrow> \<exists>r. normalise_loop ?m 1 = Some r"
    by (rule normalise_loop_returns) simp_all
  moreover have "take_bit 10 ?m = ?m"
    by (rule bit_word_eqI, unfold half_bits bit_take_bit_iff) auto
  then have "unat ?m = take_bit 10 (unat ?m)" by (metis unsigned_take_bit_eq)
  then have "unat ?m < 2048" using take_bit_nat_less_exp [of 10 "unat ?m"] by simp
  ultimately have "?m \<noteq> 0 \<Longrightarrow> \<exists>r. normalise_loop ?m 1 = Some r"
    by (simp add: word_unat_eq_iff)
  then show ?thesis unfolding float16_to_float32_def Let_def by auto
qed

text \<open>what the single-to-half conversion does with a NaN or an infinity: the exponent has had
  112 subtracted before it is compared with 255, so the NaN branch is never taken and every NaN
  becomes an infinity of the same sign.\<close>

theorem float32_to_float16_nan_is_inf:
  assumes "drop_bit 23 g AND 0xFF = 255"
  shows "float32_to_float16 g = (ucast (drop_bit 16 g) AND 0x8000) OR 0x7C00"
  using assms by (simp add: float32_to_float16_def Let_def)

theorem float32_to_float16_nan_is_inf_witness:
  "drop_bit 23 (0x7FC00000 :: u32) AND 0xFF = 255 \<and> float32_to_float16 0x7FC00000 = 0x7C00"
  using float32_to_float16_nan_is_inf [of "0x7FC00000"] by simp

end
