(* ===== verification/Trigger.thy ===== *)
theory Trigger
  imports Pi_Prelude
begin

text \<open>
  The contract shared by the debounced detectors of the native node: a detector that is not
  active counts consecutive satisfied conditions, a condition that fails restarts the count,
  and the detector becomes active only when the count reaches its threshold. What clients
  rely on (an activation is always preceded by a full run of satisfied conditions) is proved
  once here; \<open>Hold_Checker\<close> and \<open>Stall_Detect\<close> interpret the locale.
\<close>

definition replicate_in :: "nat \<Rightarrow> bool list \<Rightarrow> bool" where
  "replicate_in n cs \<longleftrightarrow> (\<exists>ys zs. cs = ys @ replicate n True @ zs)"

lemma replicate_in_append: "replicate_in n cs \<Longrightarrow> replicate_in n (cs @ ds)"
  by (metis append.assoc replicate_in_def)

lemma replicate_in_length: "replicate_in n cs \<Longrightarrow> n \<le> length cs"
  by (auto simp: replicate_in_def)

text \<open>The truth values of a condition along a run of a step function.\<close>

primrec conds_of :: "('s \<Rightarrow> 'i \<Rightarrow> 's) \<Rightarrow> ('s \<Rightarrow> 'i \<Rightarrow> bool) \<Rightarrow> 's \<Rightarrow> 'i list \<Rightarrow> bool list" where
  "conds_of step cond s [] = []"
| "conds_of step cond s (i # is) = cond s i # conds_of step cond (step s i) is"

locale consecutive_trigger =
  fixes step :: "'s \<Rightarrow> 'i \<Rightarrow> 's" and cond :: "'s \<Rightarrow> 'i \<Rightarrow> bool"
    and active :: "'s \<Rightarrow> bool" and cnt :: "'s \<Rightarrow> int" and thr :: "'s \<Rightarrow> int"
  assumes thr_step: "thr (step s i) = thr s"
    and cnt_true: "\<not> active s \<Longrightarrow> cond s i \<Longrightarrow> \<not> active (step s i) \<Longrightarrow> cnt (step s i) = cnt s + 1"
    and cnt_false: "0 < thr s \<Longrightarrow> \<not> active s \<Longrightarrow> \<not> cond s i \<Longrightarrow> \<not> active (step s i) \<and> cnt (step s i) = 0"
    and enter: "0 < thr s \<Longrightarrow> \<not> active s \<Longrightarrow> cond s i \<Longrightarrow> active (step s i) \<longleftrightarrow> thr s \<le> cnt s + 1"
begin

abbreviation run :: "'s \<Rightarrow> 'i list \<Rightarrow> 's" where
  "run \<equiv> foldl step"

abbreviation conds :: "'s \<Rightarrow> 'i list \<Rightarrow> bool list" where
  "conds \<equiv> conds_of step cond"

lemma conds_append: "conds s (xs @ ys) = conds s xs @ conds (run s xs) ys"
  by (induction xs arbitrary: s) simp_all

text \<open>While inactive, the count is the number of satisfied conditions at the end of the run.\<close>

lemma count_is_suffix:
  assumes "0 < thr s" "\<not> active s" "cnt s = int k" "\<forall>n \<le> length is. \<not> active (run s (take n is))"
  shows "\<exists>ys n. replicate k True @ conds s is = ys @ replicate n True \<and> cnt (run s is) = int n"
  using assms
proof (induction "is" arbitrary: s k)
  case Nil
  then show ?case by auto
next
  case (Cons i "is")
  let ?s = "step s i"
  have na: "\<not> active ?s" using Cons.prems(4) [rule_format, of 1] by simp
  have all: "\<forall>n \<le> length is. \<not> active (run ?s (take n is))"
    using Cons.prems(4) by (metis Suc_le_mono length_Cons foldl_Cons take_Suc_Cons)
  have t: "0 < thr ?s" using Cons.prems(1) by (simp add: thr_step)
  show ?case
  proof (cases "cond s i")
    case True
    then have "cnt ?s = int (Suc k)" using cnt_true [OF Cons.prems(2) True na] Cons.prems(3) by simp
    from Cons.IH [OF t na this all] True show ?thesis
      by (simp add: replicate_append_same [symmetric])
  next
    case False
    then have "cnt ?s = int 0" using cnt_false [OF Cons.prems(1,2) False] by simp
    from Cons.IH [OF t na this all] obtain ys n
      where "conds ?s is = ys @ replicate n True" "cnt (run ?s is) = int n" by auto
    then show ?thesis by (intro exI [of _ "replicate k True @ cond s i # ys"] exI [of _ n]) simp
  qed
qed

text \<open>No activation without a full run of satisfied conditions.\<close>

lemma activation_needs_run:
  assumes "0 < thr s" "\<not> active s" "cnt s = 0" "active (run s is)"
  shows "replicate_in (nat (thr s)) (conds s is)"
proof -
  let ?P = "\<lambda>n. n \<le> length is \<and> active (run s (take n is))"
  define n where "n = (LEAST n. ?P n)"
  have ex: "?P (length is)" using assms(4) by simp
  then have n: "?P n" unfolding n_def by (rule LeastI)
  have least: "m < n \<Longrightarrow> \<not> ?P m" for m unfolding n_def by (rule not_less_Least)
  have "n \<noteq> 0" using n assms(2) by (cases n) auto
  then obtain k where k: "n = Suc k" by (cases n) auto
  let ?xs = "take k is" and ?t = "run s (take k is)"
  have kl: "k < length is" using n k by simp
  have tk: "take n is = ?xs @ [is ! k]" using kl k by (simp add: take_Suc_conv_app_nth)
  have na: "\<not> active ?t" using least [of k] k kl by simp
  have thr: "thr (run s ys) = thr s" for ys by (induction ys arbitrary: s) (simp_all add: thr_step)
  have act: "active (step ?t (is ! k))" using n by (simp add: tk foldl_append)
  have all: "\<forall>m \<le> length ?xs. \<not> active (run s (take m ?xs))"
  proof (intro allI impI)
    fix m assume "m \<le> length ?xs"
    then have "m < n" "m \<le> length is" "take m ?xs = take m is" using k kl by (simp_all add: min_def)
    then show "\<not> active (run s (take m ?xs))" using least [of m] by simp
  qed
  obtain ys j where j: "conds s ?xs = ys @ replicate j True" "cnt ?t = int j"
    using count_is_suffix [OF assms(1,2), of 0 ?xs] assms(3) all by auto
  have c: "cond ?t (is ! k)" using cnt_false [of ?t "is ! k"] act na assms(1) thr by auto
  then have "thr s \<le> int j + 1" using enter [of ?t "is ! k"] act na assms(1) thr j by simp
  then have j2: "Suc j = (Suc j - nat (thr s)) + nat (thr s)" by simp
  have "conds s (take n is) = ys @ replicate (Suc j) True"
    using j c by (simp add: tk conds_append replicate_append_same)
  also have "\<dots> = (ys @ replicate (Suc j - nat (thr s)) True) @ replicate (nat (thr s)) True @ []"
    by (subst j2) (simp only: replicate_add append_assoc append_Nil2)
  finally have "replicate_in (nat (thr s)) (conds s (take n is))" unfolding replicate_in_def by blast
  then have "replicate_in (nat (thr s)) (conds s (take n is) @ conds (run s (take n is)) (drop n is))"
    by (rule replicate_in_append)
  then show ?thesis by (simp only: conds_append [symmetric] append_take_drop_id)
qed

text \<open>A full run of satisfied conditions does activate it.\<close>

lemma run_activates:
  assumes "0 < thr s" "\<not> active s" "cnt s = c" "thr s \<le> c + int (length is)"
    "False \<notin> set (conds s is)" "is \<noteq> []"
  shows "\<exists>n \<le> length is. active (run s (take n is))"
  using assms
proof (induction "is" arbitrary: s c)
  case (Cons i "is")
  have c: "cond s i" using Cons.prems by simp
  show ?case
  proof (cases "active (step s i)")
    case True
    then show ?thesis by (intro exI [of _ 1]) simp
  next
    case False
    then have cnt: "cnt (step s i) = c + 1" using cnt_true c Cons.prems by simp
    have "c + 1 < thr s" using enter [of s i] c False Cons.prems by auto
    then have ne: "is \<noteq> []" using Cons.prems(4) by auto
    have "0 < thr (step s i)" "thr (step s i) \<le> c + 1 + int (length is)"
      using Cons.prems(1,4) by (simp_all add: thr_step)
    moreover have "False \<notin> set (conds (step s i) is)" using Cons.prems(5) by simp
    ultimately have "\<exists>n \<le> length is. active (run (step s i) (take n is))"
      using Cons.IH [of "step s i" "c + 1"] False cnt ne by blast
    then obtain n where "n \<le> length is" "active (run (step s i) (take n is))" by blast
    then show ?thesis by (intro exI [of _ "Suc n"]) simp
  qed
qed simp

end

end
