(* ===== verification/Hold_Checker.thy ===== *)
theory Hold_Checker
  imports Trigger
begin

text \<open>
  The hysteresis checker of \<^verbatim>\<open>native/pi_control/src/pi_hold_checker.cpp\<close>, which every servo
  uses to debounce its safety conditions. The state is the C++ object's four fields. The
  theorems show that the first hold is entered exactly by a run of satisfied conditions and
  left only by 100 consecutive failures, and that neither counter is cleared on exit, so a
  later hold is entered and left by single samples.
\<close>

section \<open>Definitions\<close>

definition EXIT_COUNT_THRESHOLD :: int where
  "EXIT_COUNT_THRESHOLD = 100"

record hold_checker =
  hold_count :: int
  exit_count :: int
  holding_status :: bool
  hold_count_threshold :: int

definition new_hold_checker :: "int \<Rightarrow> hold_checker" where
  "new_hold_checker threshold =
     \<lparr>hold_count = 0, exit_count = 0, holding_status = False, hold_count_threshold = threshold\<rparr>"

text \<open>\<^verbatim>\<open>HoldChecker::is_holding\<close>: the updated object and the returned status.\<close>

definition is_holding :: "hold_checker \<Rightarrow> bool \<Rightarrow> hold_checker \<times> bool" where
  "is_holding h condition =
     (let h' =
        (if \<not> holding_status h then
           (let h1 = h\<lparr>hold_count := (if condition then hold_count h + 1 else 0)\<rparr>
            in if hold_count_threshold h1 \<le> hold_count h1 then h1\<lparr>holding_status := True\<rparr> else h1)
         else
           (let h1 = h\<lparr>exit_count := (if condition then 0 else exit_count h + 1)\<rparr>
            in if EXIT_COUNT_THRESHOLD \<le> exit_count h1 then h1\<lparr>holding_status := False\<rparr> else h1))
      in (h', holding_status h'))"

definition hold_reset :: "hold_checker \<Rightarrow> hold_checker" where
  "hold_reset h = h\<lparr>hold_count := 0, exit_count := 0, holding_status := False\<rparr>"

definition set_hold_count_threshold :: "hold_checker \<Rightarrow> int \<Rightarrow> hold_checker" where
  "set_hold_count_threshold h threshold = hold_reset (h\<lparr>hold_count_threshold := threshold\<rparr>)"

text \<open>A sequence of samples.\<close>

definition hold_step :: "hold_checker \<Rightarrow> bool \<Rightarrow> hold_checker" where
  "hold_step h c = fst (is_holding h c)"

definition hold_run :: "hold_checker \<Rightarrow> bool list \<Rightarrow> hold_checker" where
  "hold_run = foldl hold_step"

section \<open>Lemmas\<close>

lemmas hold_defs = hold_step_def is_holding_def Let_def EXIT_COUNT_THRESHOLD_def

lemma hold_run_replicate_Suc: "hold_run h (replicate (Suc k) c) = hold_step (hold_run h (replicate k c)) c"
  unfolding hold_run_def replicate_Suc replicate_append_same [symmetric] by simp

lemma snd_is_holding [simp]: "snd (is_holding h c) = holding_status (hold_step h c)"
  by (simp add: hold_defs)

lemma hold_step_threshold [simp]: "hold_count_threshold (hold_step h c) = hold_count_threshold h"
  by (simp add: hold_defs)

interpretation hold: consecutive_trigger hold_step "\<lambda>_ c. c" holding_status hold_count hold_count_threshold
  by unfold_locales (auto simp: hold_defs split: if_splits)

lemma conds_of_input [simp]: "conds_of step (\<lambda>_ c. c) s xs = xs"
  by (induction xs arbitrary: s) simp_all

text \<open>Samples seen while holding, up to the first run of 100 failures.\<close>

lemma holding_keeps:
  "holding_status h \<Longrightarrow> 0 \<le> exit_count h \<Longrightarrow>
   \<not> replicate_in 100 (map Not (replicate (nat (exit_count h)) False @ cs)) \<Longrightarrow>
   holding_status (hold_run h cs)"
proof (induction cs arbitrary: h)
  case Nil
  then show ?case by (simp add: hold_run_def)
next
  case (Cons c cs)
  let ?e = "nat (exit_count h)" and ?h = "hold_step h c"
  let ?bad = "\<lambda>n ds. replicate_in 100 (map Not (replicate n False @ ds))"
  have run: "hold_run h (c # cs) = hold_run ?h cs" by (simp add: hold_run_def)
  show ?case
  proof (cases c)
    case True
    then have h: "holding_status ?h" "exit_count ?h = 0" using Cons.prems(1) by (simp_all add: hold_defs)
    have "?bad 0 cs \<Longrightarrow> ?bad ?e (c # cs)"
    proof -
      assume "?bad 0 cs"
      then obtain ys zs where "map Not cs = ys @ replicate 100 True @ zs" by (auto simp: replicate_in_def)
      then have "map Not (replicate ?e False @ c # cs) = (map Not (replicate ?e False) @ Not c # ys) @ replicate 100 True @ zs"
        by simp
      then show ?thesis unfolding replicate_in_def by blast
    qed
    then show ?thesis unfolding run using Cons.prems h by (intro Cons.IH) auto
  next
    case False
    have lt: "exit_count h + 1 < 100"
    proof (rule ccontr)
      assume "\<not> exit_count h + 1 < 100"
      then have "Suc ?e = 100 + (Suc ?e - 100)" using Cons.prems(2) by simp
      then have "replicate (Suc ?e) True = replicate 100 True @ replicate (Suc ?e - 100) True"
        by (metis replicate_add)
      moreover have "map Not (replicate ?e False @ c # cs) = replicate (Suc ?e) True @ map Not cs"
        using False by (simp add: replicate_app_Cons_same)
      ultimately have "map Not (replicate ?e False @ c # cs)
          = [] @ replicate 100 True @ (replicate (Suc ?e - 100) True @ map Not cs)" by simp
      then show False using Cons.prems(3) unfolding replicate_in_def by blast
    qed
    then have h: "holding_status ?h" "exit_count ?h = exit_count h + 1"
      using False Cons.prems by (simp_all add: hold_defs)
    have "replicate (nat (exit_count ?h)) False @ cs = replicate ?e False @ c # cs"
      using h False Cons.prems(2) by (simp add: nat_add_distrib replicate_append_same [symmetric])
    then show ?thesis unfolding run using Cons.prems h by (intro Cons.IH) auto
  qed
qed

lemma hold_run_counts:
  "k < n \<Longrightarrow> hold_run (new_hold_checker (int n)) (replicate k True) = (new_hold_checker (int n))\<lparr>hold_count := int k\<rparr>"
proof (induction k)
  case (Suc k)
  then show ?case unfolding hold_run_replicate_Suc by (simp add: hold_defs new_hold_checker_def)
qed (simp add: hold_run_def new_hold_checker_def)

lemma hold_run_enter:
  assumes "0 < n"
  shows "hold_run (new_hold_checker (int n)) (replicate n True)
    = (new_hold_checker (int n))\<lparr>hold_count := int n, holding_status := True\<rparr>"
proof -
  obtain m where m: "n = Suc m" using assms by (cases n) auto
  have "hold_run (new_hold_checker (int n)) (replicate n True)
      = hold_step (hold_run (new_hold_checker (int n)) (replicate m True)) True"
    unfolding m by (rule hold_run_replicate_Suc)
  also have "\<dots> = (new_hold_checker (int n))\<lparr>hold_count := int n, holding_status := True\<rparr>"
    using hold_run_counts [of m n] m by (simp add: hold_defs new_hold_checker_def)
  finally show ?thesis .
qed

lemma hold_run_holds:
  assumes "0 < n" "n \<le> m"
  shows "holding_status (hold_run (new_hold_checker (int n)) (replicate m True))"
proof -
  have no: "\<not> replicate_in 100 (map Not (replicate k True))" for k
  proof
    assume "replicate_in 100 (map Not (replicate k True))"
    then obtain ys zs where "replicate k False = ys @ replicate 100 True @ zs" by (auto simp: replicate_in_def)
    then have "set (ys @ replicate 100 True @ zs) \<subseteq> {False}" by (metis set_replicate_conv_if empty_subsetI order_refl)
    then show False by simp
  qed
  have "replicate m True = replicate n True @ replicate (m - n) True"
    using assms(2) by (simp add: replicate_add [symmetric])
  then have "hold_run (new_hold_checker (int n)) (replicate m True)
      = hold_run (hold_run (new_hold_checker (int n)) (replicate n True)) (replicate (m - n) True)"
    by (simp add: hold_run_def)
  then show ?thesis unfolding hold_run_enter [OF assms(1)] using no [of "m - n"]
    by (simp add: holding_keeps new_hold_checker_def)
qed

section \<open>Properties\<close>

text \<open>a fresh checker never reports a hold before its threshold: if it is holding after some
  samples, those samples contain a run of at least \<open>threshold\<close> consecutive satisfied conditions.\<close>

theorem hold_needs_consecutive:
  assumes "0 < n" "holding_status (hold_run (new_hold_checker n) cs)"
  shows "replicate_in (nat n) cs"
  using hold.activation_needs_run [of "new_hold_checker n" cs] assms
  by (simp add: new_hold_checker_def hold_run_def)

theorem hold_needs_consecutive_witness:
  "holding_status (hold_run (new_hold_checker 2) [True, False, True, True]) \<and>
   replicate_in (nat 2) [True, False, True, True]"
proof -
  have "holding_status (hold_run (new_hold_checker 2) [True, False, True, True])"
    by (simp add: hold_run_def hold_defs new_hold_checker_def)
  then show ?thesis using hold_needs_consecutive [of 2] by simp
qed

text \<open>entering and keeping the first hold: after \<open>n\<close> satisfied conditions in a row the checker
  holds, and it goes on holding through any samples without 100 consecutive failures.\<close>

theorem hold_enters_and_keeps:
  assumes "0 < n" "\<not> replicate_in 100 (map Not cs)"
  shows "holding_status (hold_run (new_hold_checker (int n)) (replicate n True @ cs))"
proof -
  have "hold_run (new_hold_checker (int n)) (replicate n True @ cs)
      = hold_run (hold_run (new_hold_checker (int n)) (replicate n True)) cs"
    by (simp add: hold_run_def)
  then show ?thesis unfolding hold_run_enter [OF assms(1)] using assms(2)
    by (simp add: holding_keeps new_hold_checker_def)
qed

theorem hold_enters_and_keeps_witness:
  "holding_status (hold_run (new_hold_checker (int 1)) (replicate 1 True @ [False, True]))"
proof (rule hold_enters_and_keeps)
  have "length (map Not [False, True]) < 100" by simp
  then show "\<not> replicate_in 100 (map Not [False, True])"
    using replicate_in_length [of 100 "map Not [False, True]"] by auto
qed simp

text \<open>the counters survive the end of a hold. In the state in which a hold has just ended a
  single satisfied condition starts a new hold and a single failure then ends it at once: the
  hysteresis holds for the first hold only.\<close>

theorem hold_reenters_at_once:
  assumes "\<not> holding_status h" "hold_count_threshold h \<le> hold_count h" "EXIT_COUNT_THRESHOLD \<le> exit_count h"
  shows "holding_status (hold_run h [True]) \<and> \<not> holding_status (hold_run h [True, False])"
  using assms by (simp add: hold_run_def hold_defs)

theorem hold_reenters_at_once_witness:
  "holding_status (hold_run (new_hold_checker 3) (replicate 3 True @ replicate 100 False @ [True])) \<and>
   \<not> holding_status (hold_run (new_hold_checker 3) (replicate 3 True @ replicate 100 False @ [True, False]))"
proof -
  have h: "hold_run (new_hold_checker 3) (replicate 3 True @ replicate 100 False)
     = \<lparr>hold_count = 3, exit_count = 100, holding_status = False, hold_count_threshold = 3\<rparr>"
    by code_simp
  show ?thesis
    using hold_reenters_at_once [of "hold_run (new_hold_checker 3) (replicate 3 True @ replicate 100 False)"] h
    by (simp add: EXIT_COUNT_THRESHOLD_def hold_run_def)
qed

end
