(* ===== verification/Circular_Buffer.thy ===== *)
theory Circular_Buffer
  imports Pi_Float
begin

text \<open>
  The fixed-capacity buffer of samples used by the stall detector and by the window filters.
  The sources use \<^verbatim>\<open>boost::circular_buffer\<close>, which is not part of the repository, so its
  operations are a parameter of the definitions that use it; \<open>cbuf_laws\<close> states the
  documented behaviour those definitions rely on (pushing into a full buffer drops the
  front). The list instance shows that the laws can be met.
\<close>

record 'b cbuf =
  cb_make :: "nat \<Rightarrow> 'b"
  cb_push_back :: "'b \<Rightarrow> flt \<Rightarrow> 'b"
  cb_clear :: "'b \<Rightarrow> 'b"
  cb_elems :: "'b \<Rightarrow> flt list"
  cb_capacity :: "'b \<Rightarrow> nat"

definition cb_full :: "'b cbuf \<Rightarrow> 'b \<Rightarrow> bool" where
  "cb_full B b \<longleftrightarrow> length (cb_elems B b) = cb_capacity B b"

definition push_window :: "nat \<Rightarrow> 'a list \<Rightarrow> 'a \<Rightarrow> 'a list" where
  "push_window n xs x = (if length xs < n then xs @ [x] else tl xs @ [x])"

definition cbuf_laws :: "'b cbuf \<Rightarrow> bool" where
  "cbuf_laws B \<longleftrightarrow>
     (\<forall>n. cb_elems B (cb_make B n) = [] \<and> cb_capacity B (cb_make B n) = n) \<and>
     (\<forall>b x. cb_capacity B (cb_push_back B b x) = cb_capacity B b) \<and>
     (\<forall>b x. 0 < cb_capacity B b \<longrightarrow>
        cb_elems B (cb_push_back B b x) = push_window (cb_capacity B b) (cb_elems B b) x) \<and>
     (\<forall>b. cb_elems B (cb_clear B b) = [] \<and> cb_capacity B (cb_clear B b) = cb_capacity B b) \<and>
     (\<forall>b. length (cb_elems B b) \<le> cb_capacity B b)"

lemma cbuf_make: "cbuf_laws B \<Longrightarrow> cb_elems B (cb_make B n) = [] \<and> cb_capacity B (cb_make B n) = n"
  by (simp add: cbuf_laws_def)

lemma cbuf_push:
  "cbuf_laws B \<Longrightarrow> 0 < cb_capacity B b \<Longrightarrow>
   cb_elems B (cb_push_back B b x) = push_window (cb_capacity B b) (cb_elems B b) x \<and>
   cb_capacity B (cb_push_back B b x) = cb_capacity B b"
  by (simp add: cbuf_laws_def)

lemma cbuf_clear:
  "cbuf_laws B \<Longrightarrow> cb_elems B (cb_clear B b) = [] \<and> cb_capacity B (cb_clear B b) = cb_capacity B b"
  by (simp add: cbuf_laws_def)

lemma cbuf_bound: "cbuf_laws B \<Longrightarrow> length (cb_elems B b) \<le> cb_capacity B b"
  by (simp add: cbuf_laws_def)

lemma length_push_window: "0 < n \<Longrightarrow> length xs \<le> n \<Longrightarrow> length (push_window n xs x) = min n (length xs + 1)"
  by (cases xs) (simp_all add: push_window_def)

lemma push_window_nonempty [simp]: "push_window n xs x \<noteq> []"
  by (simp add: push_window_def)

lemma set_push_window: "set (push_window n xs x) \<subseteq> insert x (set xs)"
  by (cases xs) (auto simp: push_window_def)

section \<open>A list instance\<close>

typedef lbuf = "{(n :: nat, xs :: flt list). length xs \<le> n}"
  by (rule exI [of _ "(0, [])"]) simp

setup_lifting type_definition_lbuf

lift_definition lb_make :: "nat \<Rightarrow> lbuf" is "\<lambda>n. (n, [])" by simp
lift_definition lb_push :: "lbuf \<Rightarrow> flt \<Rightarrow> lbuf" is
  "\<lambda>(n, xs) x. if n = 0 then (n, xs) else (n, push_window n xs x)"
  by (auto simp: length_push_window split: if_splits)
lift_definition lb_clear :: "lbuf \<Rightarrow> lbuf" is "\<lambda>(n, xs). (n, [])" by auto
lift_definition lb_elems :: "lbuf \<Rightarrow> flt list" is snd .
lift_definition lb_capacity :: "lbuf \<Rightarrow> nat" is fst .

definition list_cbuf :: "lbuf cbuf" where
  "list_cbuf = \<lparr>cb_make = lb_make, cb_push_back = lb_push, cb_clear = lb_clear,
     cb_elems = lb_elems, cb_capacity = lb_capacity\<rparr>"

lemma cbuf_laws_list: "cbuf_laws list_cbuf"
  unfolding cbuf_laws_def list_cbuf_def cbuf.simps
  by (intro conjI allI impI; transfer) auto

end
