(* ===== verification/Stall_Detect.thy ===== *)
theory Stall_Detect
  imports Circular_Buffer Trigger
begin

text \<open>
  The stall detector of \<^verbatim>\<open>native/pi_control/src/pi_stall_detect.cpp\<close>: three consecutive
  control cycles with a small velocity, a small displacement and a large torque report a
  stall and the mean of the buffered torques. The circular buffer is the parameter \<open>B\<close>.
\<close>

section \<open>Definitions\<close>

definition POS_THRESHOLD :: flt where "POS_THRESHOLD = lit64 (1/10)"
definition VEL_THRESHOLD :: flt where "VEL_THRESHOLD = lit64 (1/10)"
definition TOR_THRESHOLD :: flt where "TOR_THRESHOLD = lit64 (1/10)"
definition STALL_COUNT_THRESHOLD :: int where "STALL_COUNT_THRESHOLD = 3"

record 'b stall_detect =
  is_stall_detected :: bool
  stall_count :: int
  stall_tor :: flt
  pos_prev :: flt
  stall_tor_buffer :: 'b

definition new_stall_detect :: "'b cbuf \<Rightarrow> 'b stall_detect" where
  "new_stall_detect B =
     \<lparr>is_stall_detected = False, stall_count = 0, stall_tor = Fin 0, pos_prev = Fin 0,
      stall_tor_buffer = cb_make B (nat STALL_COUNT_THRESHOLD)\<rparr>"

text \<open>The condition of one cycle.\<close>

definition stall_cond :: "'b stall_detect \<Rightarrow> flt \<times> flt \<times> flt \<Rightarrow> bool" where
  "stall_cond s = (\<lambda>(pos, vel, tor).
     flt_lt (fabs vel) VEL_THRESHOLD \<and> flt_lt (fabs (fsub binary32 pos (pos_prev s))) POS_THRESHOLD
     \<and> flt_lt TOR_THRESHOLD (fabs tor))"

text \<open>The mean of the buffered torques: \<^verbatim>\<open>std::accumulate\<close> from 0 and one division.\<close>

definition mean32 :: "flt list \<Rightarrow> flt" where
  "mean32 xs = fdiv binary32 (foldl (fadd binary32) (Fin 0) xs) (of_int_f binary32 (int (length xs)))"

definition detect_stall :: "'b cbuf \<Rightarrow> 'b stall_detect \<Rightarrow> flt \<Rightarrow> flt \<Rightarrow> flt \<Rightarrow> 'b stall_detect \<times> flt" where
  "detect_stall B s pos vel tor =
     (let s1 =
        (if stall_cond s (pos, vel, tor) then
           (let s2 = s\<lparr>stall_count := stall_count s + 1,
                       stall_tor_buffer := cb_push_back B (stall_tor_buffer s) tor\<rparr>
            in if STALL_COUNT_THRESHOLD \<le> stall_count s2
               then s2\<lparr>is_stall_detected := True,
                       stall_tor := mean32 (cb_elems B (stall_tor_buffer s2)), stall_count := 0\<rparr>
               else s2)
         else s\<lparr>stall_count := 0, is_stall_detected := False,
                stall_tor_buffer := cb_clear B (stall_tor_buffer s), stall_tor := Fin 0\<rparr>);
          s3 = s1\<lparr>pos_prev := pos\<rparr>
      in (s3, stall_tor s3))"

definition get_stall_tor :: "'b stall_detect \<Rightarrow> flt" where
  "get_stall_tor s = stall_tor s"

definition stall_step :: "'b cbuf \<Rightarrow> 'b stall_detect \<Rightarrow> flt \<times> flt \<times> flt \<Rightarrow> 'b stall_detect" where
  "stall_step B s = (\<lambda>(pos, vel, tor). fst (detect_stall B s pos vel tor))"

section \<open>Lemmas\<close>

lemmas stall_defs = stall_step_def detect_stall_def Let_def STALL_COUNT_THRESHOLD_def

interpretation stall: consecutive_trigger "stall_step B" stall_cond is_stall_detected stall_count "\<lambda>_. 3"
  for B :: "'b cbuf"
  by unfold_locales (auto simp: stall_defs split: if_splits)

lemma stall_step_clear:
  "\<not> stall_cond s i \<Longrightarrow> \<not> is_stall_detected (stall_step B s i) \<and> stall_tor (stall_step B s i) = Fin 0
     \<and> stall_count (stall_step B s i) = 0"
  by (cases i) (simp add: stall_defs)

lemma stall_step_count:
  "stall_cond s (p, v, t) \<Longrightarrow> stall_count s < 2 \<Longrightarrow>
   stall_step B s (p, v, t) = s\<lparr>stall_count := stall_count s + 1,
     stall_tor_buffer := cb_push_back B (stall_tor_buffer s) t, pos_prev := p\<rparr>"
  by (simp add: stall_defs)

lemma stall_step_report:
  "stall_cond s (p, v, t) \<Longrightarrow> stall_count s = 2 \<Longrightarrow>
   stall_step B s (p, v, t) = s\<lparr>is_stall_detected := True, stall_count := 0,
     stall_tor := mean32 (cb_elems B (cb_push_back B (stall_tor_buffer s) t)),
     stall_tor_buffer := cb_push_back B (stall_tor_buffer s) t, pos_prev := p\<rparr>"
  by (simp add: stall_defs)

section \<open>Properties\<close>

text \<open>no stall is reported without three consecutive stalled cycles: if a fresh detector reports
  a stall after some cycles, the stall condition held in three consecutive ones of them.\<close>

theorem stall_needs_three_cycles:
  assumes "is_stall_detected (foldl (stall_step B) (new_stall_detect B) is)"
  shows "replicate_in 3 (conds_of (stall_step B) stall_cond (new_stall_detect B) is)"
  using stall.activation_needs_run [of "new_stall_detect B" B "is"] assms
  by (simp add: new_stall_detect_def)

lemma stall_sample: "stall_cond s (Fin 0, Fin 0, Fin 1)" if "pos_prev s = Fin 0"
proof -
  have t: "lit64 (1/10) = Fin (3602879701896397 / 36028797018963968)" by (simp add: flt_eval)
  show ?thesis using that by (simp add: stall_cond_def VEL_THRESHOLD_def POS_THRESHOLD_def TOR_THRESHOLD_def t fsub_def)
qed

theorem stall_needs_three_cycles_witness:
  "is_stall_detected (foldl (stall_step list_cbuf) (new_stall_detect list_cbuf) (replicate 3 (Fin 0, Fin 0, Fin 1))) \<and>
   replicate_in 3 (conds_of (stall_step list_cbuf) stall_cond (new_stall_detect list_cbuf) (replicate 3 (Fin 0, Fin 0, Fin 1)))"
proof -
  have "is_stall_detected (foldl (stall_step list_cbuf) (new_stall_detect list_cbuf) (replicate 3 (Fin 0, Fin 0, Fin 1)))"
    by (simp add: stall_sample stall_defs new_stall_detect_def numeral_3_eq_3)
  then show ?thesis using stall_needs_three_cycles by blast
qed

text \<open>a stall report is exact. From a fresh detector, three stalled cycles with torques \<open>t1\<close>,
  \<open>t2\<close>, \<open>t3\<close> report a stall whose torque is the mean of these three and of nothing else,
  and one cycle without the stall condition withdraws the report and sets the torque to 0.\<close>

theorem stall_report:
  assumes "cbuf_laws B"
    and "conds_of (stall_step B) stall_cond (new_stall_detect B) [(p1, v1, t1), (p2, v2, t2), (p3, v3, t3)]
         = [True, True, True]"
  defines "s \<equiv> foldl (stall_step B) (new_stall_detect B) [(p1, v1, t1), (p2, v2, t2), (p3, v3, t3)]"
  shows "is_stall_detected s \<and> get_stall_tor s = mean32 [t1, t2, t3] \<and>
     (\<not> stall_cond s i \<longrightarrow> \<not> is_stall_detected (stall_step B s i) \<and> get_stall_tor (stall_step B s i) = Fin 0)"
proof -
  have l: "cb_elems B (cb_push_back B (cb_push_back B (cb_push_back B (cb_make B 3) t1) t2) t3) = [t1, t2, t3]"
    using assms(1) by (simp add: cbuf_push cbuf_make push_window_def)
  define s0 s1 s2 where "s0 = new_stall_detect B" and "s1 = stall_step B s0 (p1, v1, t1)"
    and "s2 = stall_step B s1 (p2, v2, t2)"
  have c: "stall_cond s0 (p1, v1, t1)" "stall_cond s1 (p2, v2, t2)" "stall_cond s2 (p3, v3, t3)"
    using assms(2) by (simp_all add: s0_def s1_def s2_def)
  have s0: "stall_count s0 = 0" "stall_tor_buffer s0 = cb_make B 3"
    by (simp_all add: s0_def new_stall_detect_def STALL_COUNT_THRESHOLD_def)
  then have s1: "stall_count s1 = 1" "stall_tor_buffer s1 = cb_push_back B (cb_make B 3) t1"
    using stall_step_count [OF c(1), of B] by (simp_all add: s1_def)
  then have s2: "stall_count s2 = 2"
    "stall_tor_buffer s2 = cb_push_back B (cb_push_back B (cb_make B 3) t1) t2"
    using stall_step_count [OF c(2), of B] by (simp_all add: s2_def)
  have "s = stall_step B s2 (p3, v3, t3)" by (simp add: s_def s0_def s1_def s2_def)
  then have "is_stall_detected s \<and> get_stall_tor s = mean32 [t1, t2, t3]"
    using stall_step_report [OF c(3) s2(1), of B] s2 l by (simp add: get_stall_tor_def)
  then show ?thesis using stall_step_clear [of s i B] by (simp add: get_stall_tor_def)
qed

theorem stall_report_witness:
  "\<exists>s. is_stall_detected s \<and> get_stall_tor (s :: lbuf stall_detect) = mean32 [Fin 1, Fin 1, Fin 1]"
proof -
  have c: "conds_of (stall_step list_cbuf) stall_cond (new_stall_detect list_cbuf)
     [(Fin 0, Fin 0, Fin 1), (Fin 0, Fin 0, Fin 1), (Fin 0, Fin 0, Fin 1)] = [True, True, True]"
    by (simp add: stall_sample stall_defs new_stall_detect_def)
  show ?thesis using stall_report [OF cbuf_laws_list c] by blast
qed

end
