(* ===== verification/Servo_Dm_Status.thy ===== *)
theory Servo_Dm_Status
  imports Pi_Prelude
begin

text \<open>
  The status table of the DM servos, \<^verbatim>\<open>native/pi_control/src/pi_servo_dm_status.cpp\<close> and
  \<^verbatim>\<open>native/pi_control/include/pi_servo_dm_status.hpp\<close>: the low nibble of a status code
  selects a description and the flags the enable handshake and the thermal latch act on.
\<close>

record DmServoStatusInfo =
  description :: string
  action :: string
  is_fault :: bool
  is_thermal_fault :: bool
  is_resettable_on_enable :: bool

definition kDisabled :: DmServoStatusInfo where
  "kDisabled = \<lparr>description = ''disabled'',
     action = ''No action required.'',
     is_fault = False, is_thermal_fault = False, is_resettable_on_enable = False\<rparr>"
definition kEnabled :: DmServoStatusInfo where
  "kEnabled = \<lparr>description = ''enabled'',
     action = ''No action required.'',
     is_fault = False, is_thermal_fault = False, is_resettable_on_enable = False\<rparr>"
definition kReserved :: DmServoStatusInfo where
  "kReserved = \<lparr>description = ''reserved/non-normal status'',
     action = ''Retry once; if the status persists, consult the motor manual.'',
     is_fault = False, is_thermal_fault = False, is_resettable_on_enable = False\<rparr>"
definition kOvervoltage :: DmServoStatusInfo where
  "kOvervoltage = \<lparr>description = ''overvoltage'',
     action = ''Stop operation and verify the supply voltage before retrying.'',
     is_fault = True, is_thermal_fault = False, is_resettable_on_enable = False\<rparr>"
definition kUndervoltage :: DmServoStatusInfo where
  "kUndervoltage = \<lparr>description = ''undervoltage'',
     action = ''Stop operation and verify the supply voltage and power wiring before retrying.'',
     is_fault = True, is_thermal_fault = False, is_resettable_on_enable = False\<rparr>"
definition kOvercurrent :: DmServoStatusInfo where
  "kOvercurrent = \<lparr>description = ''overcurrent'',
     action = ''Stop operation and inspect power wiring and mechanical load before retrying.'',
     is_fault = True, is_thermal_fault = False, is_resettable_on_enable = False\<rparr>"
definition kMosOvertemperature :: DmServoStatusInfo where
  "kMosOvertemperature = \<lparr>description = ''MOSFET overtemperature'',
     action = ''Stop commands and allow the drive electronics to cool before retrying.'',
     is_fault = True, is_thermal_fault = True, is_resettable_on_enable = False\<rparr>"
definition kMotorCoilOvertemperature :: DmServoStatusInfo where
  "kMotorCoilOvertemperature = \<lparr>description = ''motor coil overtemperature'',
     action = ''Stop commands and allow the motor to cool; inspect for mechanical binding or sustained load before retrying.'',
     is_fault = True, is_thermal_fault = True, is_resettable_on_enable = False\<rparr>"
definition kCommunicationLoss :: DmServoStatusInfo where
  "kCommunicationLoss = \<lparr>description = ''communication loss'',
     action = ''Stop operation and check CAN wiring, termination, and bus health before retrying.'',
     is_fault = True, is_thermal_fault = False, is_resettable_on_enable = True\<rparr>"
definition kOverload :: DmServoStatusInfo where
  "kOverload = \<lparr>description = ''overload'',
     action = ''Stop operation and inspect for mechanical binding or sustained load before retrying.'',
     is_fault = True, is_thermal_fault = False, is_resettable_on_enable = False\<rparr>"
definition kUnknownFault :: DmServoStatusInfo where
  "kUnknownFault = \<lparr>description = ''unknown DM hardware fault'',
     action = ''Stop operation and consult the motor manual before retrying.'',
     is_fault = True, is_thermal_fault = False, is_resettable_on_enable = False\<rparr>"

definition dm_servo_status_info :: "u8 \<Rightarrow> DmServoStatusInfo" where
  "dm_servo_status_info status_code =
     (let c = status_code AND 0x0F in
      if c = 0x0 then kDisabled
      else if c = 0x1 then kEnabled
      else if c = 0x8 then kOvervoltage
      else if c = 0x9 then kUndervoltage
      else if c = 0xA then kOvercurrent
      else if c = 0xB then kMosOvertemperature
      else if c = 0xC then kMotorCoilOvertemperature
      else if c = 0xD then kCommunicationLoss
      else if c = 0xE then kOverload
      else if c = 0xF then kUnknownFault
      else kReserved)"

lemmas dm_status_defs = kDisabled_def kEnabled_def kReserved_def kOvervoltage_def kUndervoltage_def
  kOvercurrent_def kMosOvertemperature_def kMotorCoilOvertemperature_def kCommunicationLoss_def
  kOverload_def kUnknownFault_def

lemma is_thermal_fault_iff:
  "is_thermal_fault (dm_servo_status_info c) \<longleftrightarrow> c AND 0x0F = 0xB \<or> c AND 0x0F = 0xC"
  unfolding dm_servo_status_info_def Let_def by (simp add: dm_status_defs)

lemma is_resettable_iff: "is_resettable_on_enable (dm_servo_status_info c) \<longleftrightarrow> c AND 0x0F = 0xD"
  unfolding dm_servo_status_info_def Let_def by (simp add: dm_status_defs)

lemma thermal_is_fault: "is_thermal_fault (dm_servo_status_info c) \<Longrightarrow> is_fault (dm_servo_status_info c)"
  unfolding dm_servo_status_info_def Let_def by (simp add: dm_status_defs split: if_splits)

lemma nibble_less: "unat ((c :: u8) AND 0x0F) < 16"
proof -
  have "c AND 0x0F = take_bit 4 c" by (simp add: take_bit_eq_mask mask_eq_exp_minus_1)
  then have "unat (c AND 0x0F) = take_bit 4 (unat c)" by (simp add: unsigned_take_bit_eq)
  also have "\<dots> < 2 ^ 4" by (rule take_bit_nat_less_exp)
  finally show ?thesis by simp
qed

text \<open>A status is a fault exactly when its high bit is set.\<close>

lemma is_fault_iff: "is_fault (dm_servo_status_info c) \<longleftrightarrow> 8 \<le> unat (c AND 0x0F)"
proof -
  define d where "d = c AND 0x0F"
  have e: "unat d \<in> {0..<16}" using nibble_less by (simp add: d_def)
  have w: "d = word_of_nat (unat d)" by simp
  have u: "{0..<16::nat} = {0,1,2,3,4,5,6,7,8,9,10,11,12,13,14,15}" by (rule set_eqI, simp, presburger)
  show ?thesis
    unfolding dm_servo_status_info_def Let_def d_def [symmetric]
    using e unfolding u by (auto simp: dm_status_defs word_unat_eq_iff)
qed

section \<open>Properties\<close>

text \<open>classification of a status byte. The upper nibble is ignored; the code is a fault exactly
  when the low nibble is 8 or more; only the two overtemperature codes are thermal, only the
  communication loss may be reset on enable, and both are faults.\<close>

theorem dm_status_classification:
  "is_fault (dm_servo_status_info c) = (8 \<le> unat (c AND 0x0F)) \<and>
   is_thermal_fault (dm_servo_status_info c) = (c AND 0x0F = 0xB \<or> c AND 0x0F = 0xC) \<and>
   is_resettable_on_enable (dm_servo_status_info c) = (c AND 0x0F = 0xD) \<and>
   dm_servo_status_info (c AND 0x0F) = dm_servo_status_info c"
proof -
  have "(c AND 0x0F) AND 0x0F = c AND 0x0F" by (simp add: and.assoc)
  then have "dm_servo_status_info (c AND 0x0F) = dm_servo_status_info c"
    unfolding dm_servo_status_info_def by simp
  then show ?thesis using is_fault_iff is_thermal_fault_iff is_resettable_iff by simp
qed

end
