(* ===== verification/Pi_Filter.thy ===== *)
theory Pi_Filter
  imports Circular_Buffer "HOL-Library.Multiset"
begin

text \<open>
  The signal filters of \<^verbatim>\<open>native/pi_control/src/pi_filter.cpp\<close> behind the wrapper class of
  \<^verbatim>\<open>native/pi_control/include/pi_filter.hpp\<close>: exponential moving average, median, moving
  average and the one-dimensional Kalman filter. Each filter is a record, its \<^verbatim>\<open>update\<close> a
  function returning the new object and the output. \<^verbatim>\<open>std::sort\<close> on a range that holds a NaN
  has undefined behaviour, which is \<^verbatim>\<open>None\<close> here.
\<close>

section \<open>Definitions\<close>

datatype FilterType = EMA | MEDIAN | MOVING_AVERAGE | KALMAN

record filter_ema =
  ema_alpha :: flt
  ema_initialized :: bool
  ema_value :: flt

definition new_ema :: "flt \<Rightarrow> filter_ema" where
  "new_ema alpha = \<lparr>ema_alpha = alpha, ema_initialized = False, ema_value = Fin 0\<rparr>"

definition ema_update :: "filter_ema \<Rightarrow> flt \<Rightarrow> filter_ema \<times> flt" where
  "ema_update f new_input =
     (let f' = (if \<not> ema_initialized f
                then f\<lparr>ema_value := new_input, ema_initialized := True\<rparr>
                else f\<lparr>ema_value :=
                  fadd binary32 (fmul binary32 (ema_alpha f) new_input)
                    (fmul binary32 (fsub binary32 (Fin 1) (ema_alpha f)) (ema_value f))\<rparr>)
      in (f', ema_value f'))"

text \<open>Ascending sort by \<^verbatim>\<open><\<close>.\<close>

fun ins_flt :: "flt \<Rightarrow> flt list \<Rightarrow> flt list" where
  "ins_flt x [] = [x]"
| "ins_flt x (y # ys) = (if flt_lt y x then y # ins_flt x ys else x # y # ys)"

fun sort_flt :: "flt list \<Rightarrow> flt list" where
  "sort_flt [] = []"
| "sort_flt (x # xs) = ins_flt x (sort_flt xs)"

definition std_sort :: "flt list \<Rightarrow> flt list option" where
  "std_sort xs = (if NaN \<in> set xs then None else Some (sort_flt xs))"

record 'b filter_median =
  med_buffer :: 'b

definition new_median :: "'b cbuf \<Rightarrow> nat \<Rightarrow> 'b filter_median" where
  "new_median B window_size = \<lparr>med_buffer = cb_make B window_size\<rparr>"

definition median_update :: "'b cbuf \<Rightarrow> 'b filter_median \<Rightarrow> flt \<Rightarrow> 'b filter_median \<times> flt option" where
  "median_update B f new_input =
     (let b = cb_push_back B (med_buffer f) new_input;
          f' = f\<lparr>med_buffer := b\<rparr>;
          median_index = length (cb_elems B b) div 2
      in (f', map_option
           (\<lambda>sorted_values.
              if length sorted_values mod 2 = 0
              then fdiv binary32 (fadd binary32 (sorted_values ! (median_index - 1)) (sorted_values ! median_index)) (Fin 2)
              else sorted_values ! median_index)
           (std_sort (cb_elems B b))))"

record 'b filter_moving_average =
  ma_buffer :: 'b
  ma_sum :: flt

definition new_moving_average :: "'b cbuf \<Rightarrow> nat \<Rightarrow> 'b filter_moving_average" where
  "new_moving_average B window_size = \<lparr>ma_buffer = cb_make B window_size, ma_sum = Fin 0\<rparr>"

definition moving_average_update ::
  "'b cbuf \<Rightarrow> 'b filter_moving_average \<Rightarrow> flt \<Rightarrow> 'b filter_moving_average \<times> flt" where
  "moving_average_update B f new_input =
     (let f1 = (if cb_full B (ma_buffer f)
                then f\<lparr>ma_sum := fsub binary32 (ma_sum f) (hd (cb_elems B (ma_buffer f)))\<rparr> else f);
          f2 = f1\<lparr>ma_buffer := cb_push_back B (ma_buffer f1) new_input,
                  ma_sum := fadd binary32 (ma_sum f1) new_input\<rparr>
      in (f2, fdiv binary32 (ma_sum f2) (of_int_f binary32 (int (length (cb_elems B (ma_buffer f2)))))))"

record filter_kalman =
  kal_q :: flt
  kal_r :: flt
  kal_x :: flt
  kal_p :: flt
  kal_initialized :: bool

definition new_kalman :: "flt \<Rightarrow> flt \<Rightarrow> filter_kalman" where
  "new_kalman q r = \<lparr>kal_q = q, kal_r = r, kal_x = Fin 0, kal_p = Fin 1, kal_initialized = False\<rparr>"

definition kalman_gain :: "filter_kalman \<Rightarrow> flt" where
  "kalman_gain f =
     (let p = fadd binary32 (kal_p f) (kal_q f) in fdiv binary32 p (fadd binary32 p (kal_r f)))"

definition kalman_update :: "filter_kalman \<Rightarrow> flt \<Rightarrow> filter_kalman \<times> flt" where
  "kalman_update f new_input =
     (let f1 = (if \<not> kal_initialized f then f\<lparr>kal_x := new_input, kal_initialized := True\<rparr> else f);
          p = fadd binary32 (kal_p f1) (kal_q f1);
          k = fdiv binary32 p (fadd binary32 p (kal_r f1));
          f2 = f1\<lparr>kal_x := fadd binary32 (kal_x f1) (fmul binary32 k (fsub binary32 new_input (kal_x f1))),
                  kal_p := fmul binary32 (fsub binary32 (Fin 1) k) p\<rparr>
      in (f2, kal_x f2))"

text \<open>The wrapper: one of the four implementations behind a pointer that is null after a move.\<close>

datatype 'b filter_impl =
    ImplEMA filter_ema
  | ImplMedian "'b filter_median"
  | ImplMovingAverage "'b filter_moving_average"
  | ImplKalman filter_kalman

record 'b filter_obj =
  filter_type :: FilterType
  p_filter :: "'b filter_impl option"
  latest_value :: flt

datatype filter_error = invalid_argument string

definition new_filter ::
  "'b cbuf \<Rightarrow> FilterType \<Rightarrow> flt \<Rightarrow> nat \<Rightarrow> flt \<Rightarrow> flt \<Rightarrow> filter_error + 'b filter_obj" where
  "new_filter B type alpha window_size kalman_q kalman_r =
     (if (type = MEDIAN \<or> type = MOVING_AVERAGE) \<and> window_size = 0
      then Inl (invalid_argument ''Window size must be greater than zero for median and moving-average filters'')
      else Inr \<lparr>filter_type = type,
        p_filter = Some (case type of
            EMA \<Rightarrow> ImplEMA (new_ema alpha)
          | MEDIAN \<Rightarrow> ImplMedian (new_median B window_size)
          | MOVING_AVERAGE \<Rightarrow> ImplMovingAverage (new_moving_average B window_size)
          | KALMAN \<Rightarrow> ImplKalman (new_kalman kalman_q kalman_r)),
        latest_value = Fin 0\<rparr>)"

fun impl_update :: "'b cbuf \<Rightarrow> 'b filter_impl \<Rightarrow> flt \<Rightarrow> 'b filter_impl \<times> flt option" where
  "impl_update B (ImplEMA f) x = (case ema_update f x of (f', y) \<Rightarrow> (ImplEMA f', Some y))"
| "impl_update B (ImplMedian f) x = (case median_update B f x of (f', y) \<Rightarrow> (ImplMedian f', y))"
| "impl_update B (ImplMovingAverage f) x =
     (case moving_average_update B f x of (f', y) \<Rightarrow> (ImplMovingAverage f', Some y))"
| "impl_update B (ImplKalman f) x = (case kalman_update f x of (f', y) \<Rightarrow> (ImplKalman f', Some y))"

text \<open>\<^verbatim>\<open>Filter::update\<close>; the result is \<open>None\<close> where the implementation has undefined behaviour.\<close>

definition filter_update :: "'b cbuf \<Rightarrow> 'b filter_obj \<Rightarrow> flt \<Rightarrow> ('b filter_obj \<times> flt) option" where
  "filter_update B f new_input =
     (case p_filter f of
        None \<Rightarrow> Some (f, latest_value f)
      | Some impl \<Rightarrow>
          (case impl_update B impl new_input of
             (_, None) \<Rightarrow> None
           | (impl', Some y) \<Rightarrow> Some (f\<lparr>p_filter := Some impl', latest_value := y\<rparr>, y)))"

definition get_latest_value :: "'b filter_obj \<Rightarrow> flt" where
  "get_latest_value f = latest_value f"

section \<open>Lemmas\<close>

subsection \<open>Sorting\<close>

lemma mset_ins_flt: "mset (ins_flt x xs) = add_mset x (mset xs)"
  by (induction xs) auto

lemma mset_sort_flt: "mset (sort_flt xs) = mset xs"
  by (induction xs) (simp_all add: mset_ins_flt)

lemma set_sort_flt [simp]: "set (sort_flt xs) = set xs"
  using mset_sort_flt mset_eq_setD by blast

lemma length_sort_flt [simp]: "length (sort_flt xs) = length xs"
  using mset_sort_flt mset_eq_length by blast

lemma set_ins_flt [simp]: "set (ins_flt x xs) = insert x (set xs)"
  by (induction xs) auto

lemma sorted_ins_flt:
  "NaN \<notin> insert x (set xs) \<Longrightarrow> sorted_wrt flt_le xs \<Longrightarrow> sorted_wrt flt_le (ins_flt x xs)"
proof (induction xs)
  case (Cons y ys)
  show ?case
  proof (cases "flt_lt y x")
    case True
    then show ?thesis using Cons by (auto simp: flt_le_def)
  next
    case False
    then have "flt_le x y" using Cons.prems(1) flt_not_lt [of y x] by (metis insertI1 insertI2 list.set_intros(1))
    then show ?thesis using Cons.prems False by (auto intro: flt_le_trans)
  qed
qed simp

lemma sorted_sort_flt: "NaN \<notin> set xs \<Longrightarrow> sorted_wrt flt_le (sort_flt xs)"
  by (induction xs) (simp_all add: sorted_ins_flt)

text \<open>At most \<open>k\<close> elements of a sorted list lie below its element \<open>k\<close>, and dually.\<close>

lemma sorted_count_below:
  assumes "sorted_wrt flt_le xs" "k < length xs"
  shows "length (filter (\<lambda>v. flt_lt v (xs ! k)) xs) \<le> k"
proof -
  have xs: "xs = take k xs @ xs ! k # drop (Suc k) xs" using assms(2) by (rule id_take_nth_drop)
  have "sorted_wrt flt_le (take k xs @ xs ! k # drop (Suc k) xs)" using assms(1) xs by metis
  then have "\<forall>v \<in> set (drop (Suc k) xs). flt_le (xs ! k) v" by (simp add: sorted_wrt_append)
  then have "filter (\<lambda>v. flt_lt v (xs ! k)) (drop (Suc k) xs) = []"
    by (auto simp: filter_empty_conv dest: flt_le_not_lt)
  then have "filter (\<lambda>v. flt_lt v (xs ! k)) xs = filter (\<lambda>v. flt_lt v (xs ! k)) (take k xs)"
    by (subst xs) (simp del: append_take_drop_id)
  then show ?thesis by (metis length_filter_le length_take min.bounded_iff)
qed

lemma sorted_count_above:
  assumes "sorted_wrt flt_le xs" "k < length xs"
  shows "length (filter (flt_lt (xs ! k)) xs) \<le> length xs - Suc k"
proof -
  have xs: "xs = take k xs @ xs ! k # drop (Suc k) xs" using assms(2) by (rule id_take_nth_drop)
  have "sorted_wrt flt_le (take k xs @ xs ! k # drop (Suc k) xs)" using assms(1) xs by metis
  then have "\<forall>v \<in> set (take k xs). flt_le v (xs ! k)" by (simp add: sorted_wrt_append)
  then have "filter (flt_lt (xs ! k)) (take k xs) = []"
    by (auto simp: filter_empty_conv dest: flt_le_not_lt)
  then have "filter (flt_lt (xs ! k)) xs = filter (flt_lt (xs ! k)) (drop (Suc k) xs)"
    by (subst xs) (simp del: append_take_drop_id)
  then show ?thesis by (metis length_drop length_filter_le)
qed

lemma length_filter_mset: "mset xs = mset ys \<Longrightarrow> length (filter P xs) = length (filter P ys)"
  by (metis mset_filter size_mset)

subsection \<open>The moving average on integer samples\<close>

definition int_samples :: "int list \<Rightarrow> flt list" where
  "int_samples ns = map (\<lambda>n. Fin (of_int n)) ns"

lemma fround32_int: "\<bar>n\<bar> \<le> 2 ^ 24 \<Longrightarrow> fround binary32 (of_int n) = Fin (of_int n)"
proof -
  assume n: "\<bar>n\<bar> \<le> 2 ^ 24"
  then have "\<bar>of_int n :: real\<bar> \<le> of_int (2 ^ 24)" by (simp only: of_int_abs [symmetric] of_int_le_iff)
  then have "\<bar>of_int n :: real\<bar> \<le> 2 powi 24" by simp
  then have "fround binary32 (of_int n) = Fin (rnd binary32 (of_int n))"
    by (rule fround_bound32) simp_all
  then show ?thesis using r32.rd_int [of n] n by simp
qed

lemma sum_list_abs_bound: "\<forall>n \<in> set ns. \<bar>n\<bar> \<le> M \<Longrightarrow> \<bar>sum_list ns\<bar> \<le> int (length ns) * M"
  by (induction ns) (auto simp: algebra_simps)

lemma last_window_snoc:
  assumes "0 < w"
  shows "push_window w (drop (length ns - w) ns) n = drop (length (ns @ [n]) - w) (ns @ [n])"
proof (cases "length ns < w")
  case False
  then have "Suc (length ns) - w = Suc (length ns - w)" by simp
  then show ?thesis using False assms by (simp add: push_window_def drop_Suc tl_drop)
qed (simp add: push_window_def)

definition ma_feed :: "'b cbuf \<Rightarrow> nat \<Rightarrow> flt list \<Rightarrow> 'b filter_moving_average" where
  "ma_feed B w xs = foldl (\<lambda>f x. fst (moving_average_update B f x)) (new_moving_average B w) xs"

lemma ma_feed_int:
  assumes B: "cbuf_laws B" and w: "0 < w" "int w * M \<le> 2 ^ 24" and M: "\<forall>n \<in> set ns. \<bar>n\<bar> \<le> M"
  shows "cb_capacity B (ma_buffer (ma_feed B w (int_samples ns))) = w \<and>
    cb_elems B (ma_buffer (ma_feed B w (int_samples ns))) = int_samples (drop (length ns - w) ns) \<and>
    ma_sum (ma_feed B w (int_samples ns)) = Fin (of_int (sum_list (drop (length ns - w) ns)))"
  using M
proof (induction ns rule: rev_induct)
  case Nil
  then show ?case using cbuf_make [OF B] by (simp add: ma_feed_def new_moving_average_def int_samples_def)
next
  case (snoc n ns)
  define d where "d = drop (length ns - w) ns"
  let ?f = "ma_feed B w (int_samples ns)"
  have IH: "cb_capacity B (ma_buffer ?f) = w" "cb_elems B (ma_buffer ?f) = int_samples d"
    "ma_sum ?f = Fin (of_int (sum_list d))" using snoc by (simp_all add: d_def)
  have M: "\<forall>k \<in> set d. \<bar>k\<bar> \<le> M" "\<bar>n\<bar> \<le> M" using snoc.prems by (auto simp: d_def dest: in_set_dropD)
  have len: "length d \<le> w" by (simp add: d_def)
  have bound: "\<forall>k \<in> set ks. \<bar>k\<bar> \<le> M \<Longrightarrow> length ks \<le> w \<Longrightarrow> \<bar>sum_list ks\<bar> \<le> 2 ^ 24" for ks
  proof -
    assume a: "\<forall>k \<in> set ks. \<bar>k\<bar> \<le> M" "length ks \<le> w"
    have "0 \<le> M" using M(2) by simp
    then have "int (length ks) * M \<le> int w * M" using a(2) by (intro mult_right_mono) simp_all
    then show ?thesis using sum_list_abs_bound [OF a(1)] w(2) by linarith
  qed
  let ?e = "if length d = w then tl d else d"
  have full: "cb_full B (ma_buffer ?f) \<longleftrightarrow> length d = w"
    using IH by (simp add: cb_full_def int_samples_def)
  have ne: "length d = w \<Longrightarrow> d \<noteq> []" using w(1) by auto
  have "length ?e < w" using len w(1) by (auto simp: le_less)
  moreover have "set (tl xs) \<subseteq> set xs" for xs :: "int list" by (cases xs) auto
  then have "\<forall>k \<in> set ?e. \<bar>k\<bar> \<le> M" using M(1) by (simp add: subset_iff)
  ultimately have be: "\<bar>sum_list ?e\<bar> \<le> 2 ^ 24" "\<bar>sum_list (?e @ [n])\<bar> \<le> 2 ^ 24"
    using M(2) by (intro bound; auto)+
  have s1: "(if cb_full B (ma_buffer ?f) then fsub binary32 (ma_sum ?f) (hd (cb_elems B (ma_buffer ?f)))
     else ma_sum ?f) = Fin (of_int (sum_list ?e))"
  proof (cases "length d = w")
    case True
    obtain k ks where k: "d = k # ks" using ne [OF True] by (cases d) auto
    have "fsub binary32 (Fin (of_int (sum_list d))) (Fin (of_int k)) = fround binary32 (of_int (sum_list ks))"
      by (simp add: fsub_def k)
    also have "\<dots> = Fin (of_int (sum_list ks))" using be(1) True k by (intro fround32_int) simp
    finally show ?thesis using True full IH k by (simp add: int_samples_def)
  qed (use full IH in simp)
  have s2: "fadd binary32 (Fin (of_int (sum_list ?e))) (Fin (of_int n)) = Fin (of_int (sum_list (?e @ [n])))"
    using fround32_int [OF be(2)] by simp
  have win: "?e @ [n] = drop (length (ns @ [n]) - w) (ns @ [n])"
    using last_window_snoc [OF w(1), of ns n, folded d_def] len by (auto simp: push_window_def split: if_splits)
  have feed: "ma_feed B w (int_samples (ns @ [n])) = fst (moving_average_update B ?f (Fin (of_int n)))"
    by (simp add: ma_feed_def int_samples_def)
  have buf: "ma_buffer (ma_feed B w (int_samples (ns @ [n]))) = cb_push_back B (ma_buffer ?f) (Fin (of_int n))"
    unfolding feed by (simp add: moving_average_update_def Let_def)
  have sum: "ma_sum (ma_feed B w (int_samples (ns @ [n]))) = Fin (of_int (sum_list (?e @ [n])))"
    unfolding feed using s1 s2 by (auto simp: moving_average_update_def Let_def split: if_splits)
  have elems: "cb_elems B (cb_push_back B (ma_buffer ?f) (Fin (of_int n))) = int_samples (?e @ [n])"
    using cbuf_push [OF B, of "ma_buffer ?f" "Fin (of_int n)"] IH w(1) len
    by (auto simp: push_window_def int_samples_def map_tl)
  show ?case
    using cbuf_push [OF B, of "ma_buffer ?f" "Fin (of_int n)"] IH w(1)
    unfolding buf sum elems win by simp
qed

subsection \<open>The Kalman gain\<close>

lemma kalman_gain_range:
  assumes p: "0 \<le> P" "P \<le> 2 ^ 60" and q: "0 \<le> Q" "Q \<le> 2 ^ 60" and r: "2 powi (-100) \<le> R" "R \<le> 2 ^ 60"
  defines "P1 \<equiv> rnd binary32 (P + Q)"
  shows "\<exists>k P2. fadd binary32 (Fin P) (Fin Q) = Fin P1 \<and>
    fdiv binary32 (Fin P1) (fadd binary32 (Fin P1) (Fin R)) = Fin k \<and> 0 \<le> k \<and> k \<le> 1 \<and>
    fmul binary32 (fsub binary32 (Fin 1) (Fin k)) (Fin P1) = Fin P2 \<and> 0 \<le> P2 \<and> P2 \<le> P1"
proof -
  have "\<bar>P + Q\<bar> \<le> 2 powi 61" using p q by simp
  note f1 = fround_bound32 [OF this, folded P1_def]
  have P1: "0 \<le> P1" "P1 \<le> 2 powi 61" using f1 r32.rd_nonneg [of "P + Q"] p q by (simp_all add: P1_def)
  define D where "D = rnd binary32 (P1 + R)"
  have "\<bar>P1 + R\<bar> \<le> 2 powi 62" using P1 r powi_two_pos [of "-100"] by simp
  note f2 = fround_bound32 [OF this, folded D_def]
  have idem: "rnd binary32 P1 = P1" by (simp add: P1_def r32.rd_idem)
  have R0: "0 < R" using r(1) powi_two_pos [of "-100"] by linarith
  have "P1 \<le> D" unfolding D_def by (rule r32.rd_ge [OF _ idem]) (use R0 in simp)
  moreover have "2 powi (-100) \<le> D"
    unfolding D_def by (rule r32.rd_ge) (use r(1) P1 in linarith, rule r32.rd_powi, simp)
  then have D0: "0 < D" using powi_two_pos [of "-100"] by linarith
  ultimately have quot: "0 \<le> P1 / D" "P1 / D \<le> 1" using P1 by simp_all
  define k where "k = rnd binary32 (P1 / D)"
  have one: "rnd binary32 1 = 1" using r32.rd_int [of 1] by simp
  have k: "0 \<le> k" "k \<le> 1"
    unfolding k_def using quot one by (auto intro: r32.rd_nonneg r32.rd_le)
  have "\<bar>P1 / D\<bar> \<le> 2 powi 0" using quot by simp
  note f3 = fround_bound32 [OF this, folded k_def]
  define c where "c = rnd binary32 (1 - k)"
  have c: "0 \<le> c" "c \<le> 1" unfolding c_def using k one by (auto intro: r32.rd_nonneg r32.rd_le)
  have "\<bar>1 - k\<bar> \<le> 2 powi 0" using k by simp
  note f4 = fround_bound32 [OF this, folded c_def]
  have cP: "0 \<le> c * P1" "c * P1 \<le> P1" using c P1 mult_right_mono [of c 1 P1] by simp_all
  have "\<bar>c * P1\<bar> \<le> 2 powi 61" using cP P1 by linarith
  note f5 = fround_bound32 [OF this]
  have "0 \<le> rnd binary32 (c * P1)" "rnd binary32 (c * P1) \<le> P1"
    using cP idem by (auto intro: r32.rd_nonneg r32.rd_le)
  then show ?thesis
    using f1 f2 f3 f4 f5 k D0 by (intro exI [of _ k] exI [of _ "rnd binary32 (c * P1)"]) (simp add: fsub_def)
qed

section \<open>Properties\<close>

text \<open>the median filter returns the median. When the window holds an odd number of samples and
  no NaN, the output is one of these samples, and at most half of them lie strictly below it and
  at most half strictly above it.\<close>

theorem median_is_median:
  assumes "NaN \<notin> set w" "odd (length w)" "w = cb_elems B (cb_push_back B (med_buffer f) x)"
  shows "\<exists>y. snd (median_update B f x) = Some y \<and> y \<in> set w \<and>
    length (filter (\<lambda>v. flt_lt v y) w) \<le> length w div 2 \<and> length (filter (flt_lt y) w) \<le> length w div 2"
proof -
  let ?s = "sort_flt w" and ?k = "length w div 2"
  have "0 < length w" using assms(2) by (cases w) auto
  then have k: "?k < length ?s" by simp
  have s: "sorted_wrt flt_le ?s" using assms(1) by (rule sorted_sort_flt)
  have "length w - Suc ?k = ?k" using assms(2) by presburger
  moreover have "?s ! ?k \<in> set w" using k by (metis nth_mem set_sort_flt)
  moreover have "snd (median_update B f x) = Some (?s ! ?k)"
    using assms by (simp add: median_update_def Let_def std_sort_def odd_iff_mod_2_eq_one)
  ultimately show ?thesis
    using sorted_count_below [OF s k] sorted_count_above [OF s k]
      length_filter_mset [OF mset_sort_flt [of w]] by auto
qed

theorem median_is_median_witness:
  "\<exists>y. snd (median_update list_cbuf (new_median list_cbuf 3) (Fin 7)) = Some y \<and> y \<in> set [Fin 7]"
proof -
  have "cb_elems list_cbuf (cb_push_back list_cbuf (med_buffer (new_median list_cbuf 3)) (Fin 7)) = [Fin 7]"
    using cbuf_push [OF cbuf_laws_list, of "cb_make list_cbuf 3" "Fin 7"] cbuf_make [OF cbuf_laws_list, of 3]
    by (simp add: new_median_def push_window_def)
  moreover have "NaN \<notin> set [Fin 7]" "odd (length [Fin 7])" by simp_all
  ultimately show ?thesis using median_is_median by metis
qed

text \<open>the running sum of the moving average does not drift on integer samples. If the samples
  are integers whose window sums fit the significand, the filter's sum is the exact sum of the
  last \<open>w\<close> samples after any number of updates.\<close>

theorem moving_average_no_drift:
  assumes "cbuf_laws B" "0 < w" "int w * M \<le> 2 ^ 24" "\<forall>n \<in> set ns. \<bar>n\<bar> \<le> M"
  shows "ma_sum (ma_feed B w (int_samples ns)) = Fin (of_int (sum_list (drop (length ns - w) ns)))"
  using ma_feed_int [OF assms] by simp

theorem moving_average_no_drift_witness:
  "ma_sum (ma_feed list_cbuf 2 (int_samples [5, 7, 9])) = Fin 16"
  using moving_average_no_drift [OF cbuf_laws_list, of 2 9 "[5, 7, 9]"] by simp

text \<open>one NaN sample is never forgotten by the moving average: the window drops the sample, but
  the running sum keeps the NaN, so every later output is a NaN.\<close>

theorem moving_average_nan_sticks:
  assumes "ma_sum f = NaN"
  shows "ma_sum (fst (moving_average_update B f x)) = NaN \<and> snd (moving_average_update B f x) = NaN"
  using assms by (simp add: moving_average_update_def Let_def)

theorem moving_average_nan_sticks_witness:
  "snd (moving_average_update list_cbuf (fst (moving_average_update list_cbuf (new_moving_average list_cbuf 1) NaN)) (Fin 1)) = NaN"
proof -
  have "ma_sum (fst (moving_average_update list_cbuf (new_moving_average list_cbuf 1) NaN)) = NaN"
    by (simp add: moving_average_update_def Let_def)
  from moving_average_nan_sticks [OF this] show ?thesis by blast
qed

text \<open>the Kalman filter is stable. With a nonnegative process noise and a positive measurement
  noise of ordinary size, the rounded gain lies between 0 and 1 and the new covariance is finite,
  nonnegative and not larger than the predicted one.\<close>

theorem kalman_stable:
  assumes "kal_p f = Fin P" "0 \<le> P" "P \<le> 2 ^ 60" "kal_q f = Fin Q" "0 \<le> Q" "Q \<le> 2 ^ 60"
    "kal_r f = Fin R" "2 powi (-100) \<le> R" "R \<le> 2 ^ 60"
  shows "\<exists>k P2. kalman_gain f = Fin k \<and> 0 \<le> k \<and> k \<le> 1 \<and>
    kal_p (fst (kalman_update f x)) = Fin P2 \<and> 0 \<le> P2 \<and> P2 \<le> rnd binary32 (P + Q)"
  using kalman_gain_range [of P Q R] assms
  by (auto simp: kalman_gain_def kalman_update_def Let_def)

theorem kalman_stable_witness:
  "\<exists>k. kalman_gain (new_kalman (Fin 1) (Fin 1)) = Fin k \<and> 0 \<le> k \<and> k \<le> 1"
proof -
  have "(2::real) powi (-100) \<le> 2 powi 0" by (simp only: powi_two_le_iff)
  then show ?thesis
    using kalman_stable [of "new_kalman (Fin 1) (Fin 1)" 1 1 1 "Fin 0"] by (auto simp: new_kalman_def)
qed

end
