(* ===== verification/Current_Estimation.thy ===== *)
theory Current_Estimation
  imports Pi_Float
begin

text \<open>
  The DC current estimator of \<^verbatim>\<open>native/pi_control/src/pi_current_estimation.cpp\<close>, with the
  mixed \<^verbatim>\<open>float\<close>/\<^verbatim>\<open>double\<close> arithmetic written out: a \<^verbatim>\<open>double\<close> literal promotes the
  operation it occurs in, and the result is narrowed when it is stored or returned.
\<close>

section \<open>Definitions\<close>

record motor_params =
  kt0 :: flt
  r0 :: flt
  t0 :: flt
  beta :: flt
  alpha :: flt
  c1 :: flt
  c2 :: flt
  eta_inv :: flt
  p_drv :: flt
  eta_g :: flt
  gear_ratio :: flt

record calib_params =
  a_gain :: flt
  b_offset :: flt
  i_baseline :: flt
  beta_scale :: flt
  alpha_scale :: flt
  delta_t_winding :: flt
  stall_gain :: flt
  stall_omega_thr :: flt

text \<open>A \<^verbatim>\<open>double\<close> literal stored in a \<^verbatim>\<open>float\<close>.\<close>

definition dlit :: "real \<Rightarrow> flt" where
  "dlit x = narrow binary32 (lit64 x)"

definition default_motor_params :: motor_params where
  "default_motor_params =
     \<lparr>kt0 = dlit 0, r0 = dlit 0, t0 = dlit 25, beta = dlit (- 15 / 10000), alpha = dlit (39 / 10000),
      c1 = dlit 0, c2 = dlit 0, eta_inv = dlit (96 / 100), p_drv = dlit 0, eta_g = dlit 1, gear_ratio = dlit 1\<rparr>"

definition current_estimation_calib :: calib_params where
  "current_estimation_calib =
     \<lparr>a_gain = dlit (256 / 1000), b_offset = dlit 0, i_baseline = dlit (16 / 1000),
      beta_scale = dlit (90 / 100), alpha_scale = dlit (29 / 10), delta_t_winding = Fin 5,
      stall_gain = dlit (25 / 10), stall_omega_thr = dlit (5 / 100)\<rparr>"

definition kt_at_T :: "motor_params \<Rightarrow> flt \<Rightarrow> flt \<Rightarrow> flt \<Rightarrow> flt" where
  "kt_at_T mp temperature bscale delta_T_winding =
     (let T_w = fadd binary32 temperature delta_T_winding
      in narrow binary32 (fmul binary64 (kt0 mp)
           (fadd binary64 (Fin 1)
             (fmul binary32 (fmul binary32 (beta mp) bscale) (fsub binary32 T_w (t0 mp))))))"

definition R_at_T_scaled :: "motor_params \<Rightarrow> flt \<Rightarrow> flt \<Rightarrow> flt \<Rightarrow> flt" where
  "R_at_T_scaled mp temperature ascale delta_T_winding =
     (let T_w = fadd binary32 temperature delta_T_winding
      in narrow binary32 (fmul binary64 (r0 mp)
           (fadd binary64 (Fin 1)
             (fmul binary32 (fmul binary32 (alpha mp) ascale) (fsub binary32 T_w (t0 mp))))))"

definition iron_loss :: "motor_params \<Rightarrow> flt \<Rightarrow> flt" where
  "iron_loss mp velocity =
     (if flt_eq (c1 mp) (Fin 0) \<and> flt_eq (c2 mp) (Fin 0) then Fin 0
      else fadd binary32 (fmul binary32 (c1 mp) (fabs velocity))
             (fmul binary32 (c2 mp) (fmul binary32 velocity velocity)))"

definition electromagnetic_torque :: "flt \<Rightarrow> flt \<Rightarrow> flt \<Rightarrow> flt \<Rightarrow> flt \<Rightarrow> flt \<Rightarrow> flt \<Rightarrow> flt \<Rightarrow> flt" where
  "electromagnetic_torque base_tau_em velocity J domega_dt B tau_coulomb tau_gravity eta =
     (let tau_inertia = fmul binary32 J domega_dt;
          tau_friction = fadd binary32 (fmul binary32 B velocity) tau_coulomb;
          tau_total = fadd binary32 (fadd binary32 (fadd binary32 base_tau_em tau_inertia) tau_friction) tau_gravity
      in fdiv binary32 tau_total eta)"

text \<open>The electromagnetic torque the estimate starts from.\<close>

definition tau_em_of ::
  "motor_params \<Rightarrow> flt \<Rightarrow> flt \<Rightarrow> bool \<Rightarrow> flt \<Rightarrow> flt \<Rightarrow> flt \<Rightarrow> flt \<Rightarrow> flt \<Rightarrow> flt" where
  "tau_em_of mp torque velocity use_load_torque J domega_dt B tau_coulomb tau_gravity =
     (if use_load_torque
      then electromagnetic_torque (fdiv binary32 torque (fmax (gear_ratio mp) (lit32 (1 / 1000000))))
             velocity J domega_dt B tau_coulomb tau_gravity (eta_g mp)
      else torque)"

definition estimate_idc_calibrated ::
  "calib_params \<Rightarrow> motor_params \<Rightarrow> flt \<Rightarrow> flt \<Rightarrow> flt \<Rightarrow> flt \<Rightarrow> flt \<Rightarrow> bool
   \<Rightarrow> flt \<Rightarrow> flt \<Rightarrow> flt \<Rightarrow> flt \<Rightarrow> flt \<Rightarrow> flt" where
  "estimate_idc_calibrated cp mp torque velocity temperature vdc max_torque use_load_torque
     J domega_dt B tau_coulomb tau_gravity =
     (let tau_em = tau_em_of mp torque velocity use_load_torque J domega_dt B tau_coulomb tau_gravity;
          tau_em_abs = fabs tau_em;
          velocity_abs = fabs velocity;
          Kt = fmax (kt_at_T mp temperature (beta_scale cp) (delta_t_winding cp)) (lit32 (1 / 1000000));
          Rph = R_at_T_scaled mp temperature (alpha_scale cp) (delta_t_winding cp);
          P_mech = fmul binary32 tau_em_abs velocity_abs;
          P_fe = iron_loss mp velocity_abs;
          P_cu = narrow binary32 (fmul binary64 (fmul binary64 (fmul binary64 (Fin 3) Rph)
                   (fdiv binary32 tau_em_abs Kt)) (fdiv binary32 tau_em_abs Kt));
          I_model = fdiv binary32 (fadd binary32 (fadd binary32 (fadd binary32 P_mech P_cu) P_fe) (p_drv mp))
                      (fmax (fmul binary32 (eta_inv mp) vdc) (lit32 (1 / 1000000)));
          is_stall = flt_lt max_torque (fabs torque) \<and> flt_lt (fabs velocity) (stall_omega_thr cp);
          I_model = (if is_stall then fmul binary32 I_model (stall_gain cp) else I_model);
          I_hat = fadd binary32 (fadd binary32 (fmul binary32 (a_gain cp) I_model) (b_offset cp)) (i_baseline cp)
      in fmax I_hat (Fin 0))"

section \<open>Lemmas\<close>

lemma fround_minus: "fround F (- x) = fneg (fround F x)"
proof -
  have t: "0 < (2::real) powi (emax F + 1)" by simp
  consider "2 powi (emax F + 1) \<le> rnd F x" | "rnd F x \<le> - (2 powi (emax F + 1))"
    | "\<bar>rnd F x\<bar> < 2 powi (emax F + 1)" by linarith
  then show ?thesis
  proof cases
    case 1
    then have "\<not> 2 powi (emax F + 1) \<le> - rnd F x" using t by linarith
    with 1 show ?thesis unfolding fround_def Let_def rnd_minus by auto
  next
    case 2
    then have "\<not> 2 powi (emax F + 1) \<le> rnd F x" using t by linarith
    with 2 show ?thesis unfolding fround_def Let_def rnd_minus by auto
  next
    case 3
    then show ?thesis unfolding fround_def Let_def rnd_minus by auto
  qed
qed

lemma fabs_fneg [simp]: "fabs (fneg a) = fabs a"
  by (cases a) simp_all

lemma fdiv_fneg: "fdiv F (fneg a) b = fneg (fdiv F a b)"
  by (cases a; cases b) (auto simp: fround_minus inf_of_def)

lemma fadd_zero_fneg: "fadd F (fneg a) (Fin 0) = fneg (fadd F a (Fin 0))"
  by (cases a) (simp_all add: fround_minus)

lemma fmax_zero_nonneg: "fmax a (Fin 0) = NaN \<or> flt_le (Fin 0) (fmax a (Fin 0))"
  by (cases a) (auto simp: fmax_def flt_le_def)

section \<open>Properties\<close>

text \<open>the estimated current is never negative: it is at least 0 or not a number at all.\<close>

theorem idc_never_negative:
  "let I = estimate_idc_calibrated cp mp torque velocity temperature vdc max_torque ult J dw B tc tg
   in I = NaN \<or> flt_le (Fin 0) I"
  unfolding estimate_idc_calibrated_def Let_def by (rule fmax_zero_nonneg)

text \<open>the sign of the torque does not matter: with the default mechanical arguments and a finite
  velocity the estimate for the opposite torque is the same, bit for bit.\<close>

theorem idc_torque_sign:
  assumes "velocity = Fin v"
  shows "estimate_idc_calibrated cp mp (fneg torque) velocity temperature vdc max_torque True
           (Fin 0) (Fin 0) (Fin 0) (Fin 0) (Fin 0)
       = estimate_idc_calibrated cp mp torque velocity temperature vdc max_torque True
           (Fin 0) (Fin 0) (Fin 0) (Fin 0) (Fin 0)"
proof -
  have "tau_em_of mp (fneg torque) velocity True (Fin 0) (Fin 0) (Fin 0) (Fin 0) (Fin 0)
     = fneg (tau_em_of mp torque velocity True (Fin 0) (Fin 0) (Fin 0) (Fin 0) (Fin 0))"
    by (simp add: assms tau_em_of_def electromagnetic_torque_def Let_def fdiv_fneg fadd_zero_fneg)
  then show ?thesis by (simp add: estimate_idc_calibrated_def Let_def)
qed

theorem idc_torque_sign_witness:
  "estimate_idc_calibrated current_estimation_calib default_motor_params (Fin (- 2)) (Fin 1) (Fin 25) (Fin 24) (Fin 10)
     True (Fin 0) (Fin 0) (Fin 0) (Fin 0) (Fin 0)
   = estimate_idc_calibrated current_estimation_calib default_motor_params (Fin 2) (Fin 1) (Fin 25) (Fin 24) (Fin 10)
     True (Fin 0) (Fin 0) (Fin 0) (Fin 0) (Fin 0)"
  using idc_torque_sign [of "Fin 1" 1 current_estimation_calib default_motor_params "Fin 2" "Fin 25" "Fin 24" "Fin 10"]
  by simp

text \<open>The torque limit only decides the stall boost, and a moving joint never gets it.\<close>

lemma idc_moving_no_boost:
  assumes "\<not> flt_lt (fabs velocity) (stall_omega_thr cp)"
  shows "estimate_idc_calibrated cp mp torque velocity temperature vdc max1 ult J dw B tc tg
       = estimate_idc_calibrated cp mp torque velocity temperature vdc max2 ult J dw B tc tg"
  using assms by (simp add: estimate_idc_calibrated_def)

end
