(* ===== verification/Std_Map.thy ===== *)
theory Std_Map
  imports Pi_Prelude "HOL-Library.AList"
begin

text \<open>
  \<^verbatim>\<open>std::map\<close> and \<^verbatim>\<open>std::set\<close> as the sources use them: entries in the order of their keys,
  \<^verbatim>\<open>m[k] = v\<close>, \<^verbatim>\<open>find\<close>, \<^verbatim>\<open>erase\<close> and iteration in key order. The locale \<open>keyed_store\<close> is the
  contract the driver registry and the driver caches rely on; it is interpreted on the
  ordered association lists.
\<close>

section \<open>The contract\<close>

locale keyed_store =
  fixes inv :: "'m \<Rightarrow> bool" and lookup :: "'m \<Rightarrow> 'k \<Rightarrow> 'v option"
    and store :: "'k \<Rightarrow> 'v \<Rightarrow> 'm \<Rightarrow> 'm" and remove :: "'k \<Rightarrow> 'm \<Rightarrow> 'm" and keys_of :: "'m \<Rightarrow> 'k list"
  assumes lookup_store: "inv m \<Longrightarrow> lookup (store k v m) j = (if j = k then Some v else lookup m j)"
    and lookup_remove: "inv m \<Longrightarrow> lookup (remove k m) j = (if j = k then None else lookup m j)"
    and inv_store: "inv m \<Longrightarrow> inv (store k v m)"
    and inv_remove: "inv m \<Longrightarrow> inv (remove k m)"
    and keys_lookup: "inv m \<Longrightarrow> k \<in> set (keys_of m) \<longleftrightarrow> lookup m k \<noteq> None"
begin

text \<open>Removing the keys a test selects, one at a time.\<close>

lemma lookup_remove_all:
  "inv m \<Longrightarrow> lookup (fold remove ks m) j = (if j \<in> set ks then None else lookup m j) \<and> inv (fold remove ks m)"
  by (induction ks arbitrary: m) (simp_all add: lookup_remove inv_remove)

lemma store_store_other:
  "inv m \<Longrightarrow> k \<noteq> l \<Longrightarrow> lookup (store k v (store l w m)) l = Some w"
  by (simp add: lookup_store inv_store)

lemma keys_store: "inv m \<Longrightarrow> set (keys_of (store k v m)) = insert k (set (keys_of m))"
  by (auto simp: keys_lookup inv_store lookup_store split: if_splits)

end

section \<open>Ordered association lists\<close>

type_synonym ('k, 'v) smap = "('k \<times> 'v) list"

definition smap_find :: "('k, 'v) smap \<Rightarrow> 'k \<Rightarrow> 'v option" where
  "smap_find m k = map_of m k"

fun smap_set :: "'k::linorder \<Rightarrow> 'v \<Rightarrow> ('k, 'v) smap \<Rightarrow> ('k, 'v) smap" where
  "smap_set k v [] = [(k, v)]"
| "smap_set k v ((j, w) # m) =
     (if k < j then (k, v) # (j, w) # m else if k = j then (k, v) # m else (j, w) # smap_set k v m)"

definition smap_erase :: "'k \<Rightarrow> ('k, 'v) smap \<Rightarrow> ('k, 'v) smap" where
  "smap_erase k m = filter (\<lambda>p. fst p \<noteq> k) m"

definition smap_keys :: "('k, 'v) smap \<Rightarrow> 'k list" where
  "smap_keys m = map fst m"

definition smap_inv :: "('k::linorder, 'v) smap \<Rightarrow> bool" where
  "smap_inv m = sorted_wrt (<) (smap_keys m)"

lemma smap_set_keys: "set (smap_keys (smap_set k v m)) = insert k (set (smap_keys m))"
  by (induction k v m rule: smap_set.induct) (auto simp: smap_keys_def)

lemma smap_inv_Cons: "smap_inv ((j, w) # m) \<longleftrightarrow> (\<forall>x \<in> set (smap_keys m). j < x) \<and> smap_inv m"
  by (simp add: smap_inv_def smap_keys_def)

lemma smap_inv_set: "smap_inv m \<Longrightarrow> smap_inv (smap_set k v m)"
proof (induction k v m rule: smap_set.induct)
  case (2 k v j w m)
  consider "k < j" | "k = j" | "j < k" by fastforce
  then show ?case
  proof cases
    case 1
    with 2 show ?thesis by (auto simp: smap_inv_Cons) (auto simp: smap_keys_def)
  next
    case 2
    with \<open>smap_inv ((j, w) # m)\<close> show ?thesis by (simp add: smap_inv_Cons)
  next
    case 3
    with 2 show ?thesis by (auto simp: smap_inv_Cons smap_set_keys)
  qed
qed (simp add: smap_inv_def smap_keys_def)

lemma smap_find_set: "smap_find (smap_set k v m) j = (if j = k then Some v else smap_find m j)"
  by (induction k v m rule: smap_set.induct) (auto simp: smap_find_def)

lemma smap_find_erase: "smap_find (smap_erase k m) j = (if j = k then None else smap_find m j)"
  by (simp add: smap_find_def smap_erase_def map_of_filter_neq)

lemma smap_inv_erase: "smap_inv m \<Longrightarrow> smap_inv (smap_erase k m)"
  by (induction m) (auto simp: smap_inv_def smap_erase_def smap_keys_def)

lemma smap_keys_find: "k \<in> set (smap_keys m) \<longleftrightarrow> smap_find m k \<noteq> None"
  by (simp add: smap_keys_def smap_find_def map_of_eq_None_iff)

interpretation smap: keyed_store smap_inv smap_find smap_set smap_erase smap_keys
  by unfold_locales
    (simp_all add: smap_find_set smap_find_erase smap_inv_set smap_inv_erase smap_keys_find)

lemma smap_find_Nil [simp]: "smap_find [] k = None"
  by (simp add: smap_find_def)

lemma smap_inv_Nil [simp]: "smap_inv []"
  by (simp add: smap_inv_def smap_keys_def)

declare smap_find_set [simp] smap_find_erase [simp]

end
