(* ===== verification/Driver_Registry.thy ===== *)
theory Driver_Registry
  imports Std_Map
begin

text \<open>
  The process-wide servo registry of \<^verbatim>\<open>native/pi_control/src/pi_driver.cpp\<close>: two maps from a
  servo id, one to the slot of its received data and one to the servo object. Objects are
  named by addresses of a type \<open>'p\<close>. The second half models the life cycle of the objects
  against the reception thread: the mutex is held from \<^verbatim>\<open>lock_registered_servo\<close> until the
  handle is dropped, and a destructor unregisters before the memory is released.
\<close>

section \<open>Definitions\<close>

record 'p registry =
  map_id_to_data_index :: "(int, int) smap"
  map_id_to_servo :: "(int, 'p) smap"

definition empty_registry :: "'p registry" where
  "empty_registry = \<lparr>map_id_to_data_index = [], map_id_to_servo = []\<rparr>"

definition register_servo_data_index :: "int \<Rightarrow> int \<Rightarrow> 'p \<Rightarrow> 'p registry \<Rightarrow> 'p registry" where
  "register_servo_data_index servo_id servo_data_index p_servo r =
     r\<lparr>map_id_to_data_index := smap_set servo_id servo_data_index (map_id_to_data_index r),
       map_id_to_servo := smap_set servo_id p_servo (map_id_to_servo r)\<rparr>"

definition find_data_index :: "'p registry \<Rightarrow> int \<Rightarrow> int" where
  "find_data_index r servo_id =
     (case smap_find (map_id_to_data_index r) servo_id of None \<Rightarrow> -1 | Some i \<Rightarrow> i)"

definition find_servo :: "'p registry \<Rightarrow> int \<Rightarrow> 'p option" where
  "find_servo r servo_id = smap_find (map_id_to_servo r) servo_id"

text \<open>\<^verbatim>\<open>Driver::unregister_servo\<close>: the iterator walks the servo map and erases from both.\<close>

fun unregister_loop :: "'p \<Rightarrow> (int, 'p) smap \<Rightarrow> 'p registry \<Rightarrow> 'p registry" where
  "unregister_loop p_servo [] r = r"
| "unregister_loop p_servo ((k, q) # it) r =
     (if q \<noteq> p_servo then unregister_loop p_servo it r
      else unregister_loop p_servo it
             (r\<lparr>map_id_to_data_index := smap_erase k (map_id_to_data_index r),
                map_id_to_servo := smap_erase k (map_id_to_servo r)\<rparr>))"

definition unregister_servo :: "'p \<Rightarrow> 'p registry \<Rightarrow> 'p registry" where
  "unregister_servo p_servo r = unregister_loop p_servo (map_id_to_servo r) r"

section \<open>Invariant\<close>

text \<open>Both maps are ordered and have the same ids.\<close>

definition registry_inv :: "'p registry \<Rightarrow> bool" where
  "registry_inv r \<longleftrightarrow> smap_inv (map_id_to_data_index r) \<and> smap_inv (map_id_to_servo r) \<and>
     (\<forall>k. smap_find (map_id_to_data_index r) k = None \<longleftrightarrow> smap_find (map_id_to_servo r) k = None)"

lemma registry_inv_empty: "registry_inv empty_registry"
  by (simp add: registry_inv_def empty_registry_def)

lemma registry_inv_register: "registry_inv r \<Longrightarrow> registry_inv (register_servo_data_index k i p r)"
  by (simp add: registry_inv_def register_servo_data_index_def smap_inv_set)

lemma unregister_loop_inv: "registry_inv r \<Longrightarrow> registry_inv (unregister_loop p m r)"
  by (induction p m r rule: unregister_loop.induct) (simp_all add: registry_inv_def smap_inv_erase)

lemma registry_inv_unregister: "registry_inv r \<Longrightarrow> registry_inv (unregister_servo p r)"
  by (simp add: unregister_servo_def unregister_loop_inv)

lemma unregister_loop_find:
  "smap_find (map_id_to_servo (unregister_loop p m r)) k =
     (if (k, p) \<in> set m then None else smap_find (map_id_to_servo r) k) \<and>
   smap_find (map_id_to_data_index (unregister_loop p m r)) k =
     (if (k, p) \<in> set m then None else smap_find (map_id_to_data_index r) k)"
  by (induction p m r rule: unregister_loop.induct) auto

lemma smap_find_set_iff: "smap_inv m \<Longrightarrow> (k, v) \<in> set m \<longleftrightarrow> smap_find m k = Some v"
  by (simp add: smap_inv_def smap_keys_def smap_find_def strict_sorted_iff)

lemma unregister_servo_find:
  assumes "registry_inv r"
  shows "find_servo (unregister_servo p r) k = (if find_servo r k = Some p then None else find_servo r k)"
    and "find_data_index (unregister_servo p r) k = (if find_servo r k = Some p then -1 else find_data_index r k)"
  using assms unregister_loop_find [of p "map_id_to_servo r" r k]
  by (simp_all add: unregister_servo_def find_servo_def find_data_index_def registry_inv_def
      smap_find_set_iff)

lemma find_register:
  "find_servo (register_servo_data_index k i p r) j = (if j = k then Some p else find_servo r j)"
  "find_data_index (register_servo_data_index k i p r) j = (if j = k then i else find_data_index r j)"
  by (simp_all add: find_servo_def find_data_index_def register_servo_data_index_def)

section \<open>Object lifetime against the reception thread\<close>

text \<open>
  The registry, the reception thread's handle (\<open>Some p\<close>: it owns \<^verbatim>\<open>registry_mutex_\<close> and may
  dereference \<open>p\<close>, where \<open>p = None\<close> is a null pointer), the objects whose memory is live,
  and those whose destructor has unregistered them. A step of the registry is atomic:
  its whole body runs under the mutex.
\<close>

record 'p lifetime =
  reg :: "'p registry"
  rx_handle :: "'p option option"
  alive :: "'p set"
  destructing :: "'p set"

definition mutex_free :: "'p lifetime \<Rightarrow> bool" where
  "mutex_free s = (rx_handle s = None)"

inductive life_step :: "'p lifetime \<Rightarrow> 'p lifetime \<Rightarrow> bool" where
  construct: "p \<notin> alive s \<Longrightarrow> life_step s (s\<lparr>alive := insert p (alive s), destructing := destructing s - {p}\<rparr>)"
| register: "mutex_free s \<Longrightarrow> p \<in> alive s \<Longrightarrow> p \<notin> destructing s \<Longrightarrow>
    life_step s (s\<lparr>reg := register_servo_data_index k i p (reg s)\<rparr>)"
| rx_lock: "mutex_free s \<Longrightarrow> life_step s (s\<lparr>rx_handle := Some (find_servo (reg s) k)\<rparr>)"
| rx_release: "life_step s (s\<lparr>rx_handle := None\<rparr>)"
| destruct: "mutex_free s \<Longrightarrow> p \<in> alive s \<Longrightarrow>
    life_step s (s\<lparr>reg := unregister_servo p (reg s), destructing := insert p (destructing s)\<rparr>)"
| release_memory: "p \<in> destructing s \<Longrightarrow> life_step s (s\<lparr>alive := alive s - {p}\<rparr>)"

definition life_init :: "'p lifetime" where
  "life_init = \<lparr>reg = empty_registry, rx_handle = None, alive = {}, destructing = {}\<rparr>"

definition life_inv :: "'p lifetime \<Rightarrow> bool" where
  "life_inv s \<longleftrightarrow> registry_inv (reg s) \<and>
     (\<forall>k p. find_servo (reg s) k = Some p \<longrightarrow> p \<in> alive s \<and> p \<notin> destructing s) \<and>
     (\<forall>p. rx_handle s = Some (Some p) \<longrightarrow> p \<in> alive s \<and> p \<notin> destructing s)"

lemma life_inv_step: "life_step s t \<Longrightarrow> life_inv s \<Longrightarrow> life_inv t"
proof (induction rule: life_step.induct)
  case (register s p k i)
  then show ?case by (auto simp: life_inv_def registry_inv_register find_register mutex_free_def)
next
  case (destruct s p)
  then show ?case
    by (auto simp: life_inv_def registry_inv_unregister unregister_servo_find mutex_free_def split: if_splits)
qed (auto simp: life_inv_def mutex_free_def)

inductive life_reachable :: "'p lifetime \<Rightarrow> bool" where
  start: "life_reachable life_init"
| step: "life_reachable s \<Longrightarrow> life_step s t \<Longrightarrow> life_reachable t"

lemma life_reachable_inv: "life_reachable s \<Longrightarrow> life_inv s"
proof (induction rule: life_reachable.induct)
  case start
  show ?case
    by (simp add: life_inv_def life_init_def registry_inv_empty find_servo_def)
      (simp add: empty_registry_def)
next
  case (step s t)
  then show ?case by (blast intro: life_inv_step)
qed

section \<open>Properties\<close>

text \<open>unregistering a servo object removes every id that pointed to it, in both maps, and leaves
  every other id with its servo and its data slot; a lookup of a removed id reports slot \<open>-1\<close>.\<close>

theorem unregister_exact:
  assumes "registry_inv r"
  shows "registry_inv (unregister_servo p r) \<and>
    (\<forall>k. find_servo (unregister_servo p r) k = (if find_servo r k = Some p then None else find_servo r k)) \<and>
    (\<forall>k. find_data_index (unregister_servo p r) k =
       (if find_servo r k = Some p then -1 else find_data_index r k))"
  using assms by (simp add: registry_inv_unregister unregister_servo_find)

theorem unregister_exact_witness:
  "let r = register_servo_data_index 4 0 ''a'' (register_servo_data_index 9 1 ''b''
             (register_servo_data_index 2 2 ''a'' empty_registry))
   in find_data_index (unregister_servo ''a'' r) 4 = -1 \<and> find_data_index (unregister_servo ''a'' r) 2 = -1 \<and>
      find_data_index (unregister_servo ''a'' r) 9 = 1"
proof -
  let ?r = "register_servo_data_index 4 0 ''a'' (register_servo_data_index 9 1 ''b''
             (register_servo_data_index 2 2 ''a'' empty_registry)) :: string registry"
  have "registry_inv ?r" by (intro registry_inv_register registry_inv_empty)
  from unregister_exact [OF this, of "''a''"] show ?thesis by (simp add: find_register Let_def)
qed

text \<open>C38: the reception thread never holds a dangling servo pointer. In every reachable
  interleaving of object creation, registration, destruction and frame handling, the servo the
  reception thread got from \<open>lock_registered_servo\<close> is live and not being destroyed, and so is
  every servo the registry names.\<close>

theorem no_dangling_servo:
  assumes "life_reachable s"
  shows "(rx_handle s = Some (Some p) \<longrightarrow> p \<in> alive s \<and> p \<notin> destructing s) \<and>
    (find_servo (reg s) k = Some p \<longrightarrow> p \<in> alive s \<and> p \<notin> destructing s)"
  using life_reachable_inv [OF assms] by (auto simp: life_inv_def)

theorem no_dangling_servo_witness:
  "\<exists>s. life_reachable s \<and> rx_handle s = Some (Some (7::nat)) \<and> 7 \<in> alive s \<and> 7 \<notin> destructing s"
proof -
  let ?s1 = "life_init\<lparr>alive := insert (7::nat) (alive life_init), destructing := destructing life_init - {7}\<rparr>"
  let ?s2 = "?s1\<lparr>reg := register_servo_data_index 3 0 7 (reg ?s1)\<rparr>"
  let ?s3 = "?s2\<lparr>rx_handle := Some (find_servo (reg ?s2) 3)\<rparr>"
  have 1: "life_reachable ?s1"
    by (rule life_reachable.step [OF life_reachable.start], rule life_step.construct) (simp add: life_init_def)
  have 2: "life_reachable ?s2"
    by (rule life_reachable.step [OF 1], rule life_step.register) (simp_all add: life_init_def mutex_free_def)
  have 3: "life_reachable ?s3"
    by (rule life_reachable.step [OF 2], rule life_step.rx_lock) (simp add: life_init_def mutex_free_def)
  have "rx_handle ?s3 = Some (Some 7)" by (simp add: find_register)
  with no_dangling_servo [OF 3, of 7] 3 show ?thesis by blast
qed

end
