(* ===== verification/Device_Config.thy ===== *)
theory Device_Config
  imports Pi_Float "HOL-Library.AList"
begin

text \<open>
  The configuration access of \<^verbatim>\<open>native/pi_control/src/pi_device_config.cpp\<close>: a JSON value, the
  typed field access of \<^verbatim>\<open>DeviceConfig::get_field_value\<close> with the conversions of
  \<^verbatim>\<open>nlohmann::json::get\<close> for \<^verbatim>\<open>int\<close>, \<^verbatim>\<open>float\<close>, \<^verbatim>\<open>bool\<close> and \<^verbatim>\<open>std::string\<close>, the version
  gate of a configuration file and the cascade of \<^verbatim>\<open>open_at_min\<close> into the servo blocks.
  What a path holds (missing file, malformed text, a value) is an argument of the model.
\<close>

section \<open>JSON values\<close>

datatype json =
    JNull
  | JBool bool
  | JInt int
  | JFloat flt
  | JString string
  | JArray "json list"
  | JObject "(string \<times> json) list"

fun j_contains :: "json \<Rightarrow> string \<Rightarrow> bool" where
  "j_contains (JObject fs) k = (map_of fs k \<noteq> None)"
| "j_contains _ k = False"

fun j_field :: "json \<Rightarrow> string \<Rightarrow> json option" where
  "j_field (JObject fs) k = map_of fs k"
| "j_field _ k = None"

fun j_is_array :: "json \<Rightarrow> bool" where
  "j_is_array (JArray _) = True"
| "j_is_array _ = False"

fun j_elems :: "json \<Rightarrow> json list" where
  "j_elems (JArray js) = js"
| "j_elems (JObject fs) = map snd fs"
| "j_elems JNull = []"
| "j_elems j = [j]"

text \<open>
  \<^verbatim>\<open>get<T>\<close>; \<open>None\<close> is a \<^verbatim>\<open>type_error\<close>. An integer is reduced to 32 bits; for a floating number
  outside the range of \<^verbatim>\<open>int\<close>, where C++ leaves the conversion open, the value is the one the
  target instruction delivers (the smallest integer).
\<close>

definition int32 :: "int \<Rightarrow> int" where
  "int32 n = sint (word_of_int n :: u32)"

fun get_int :: "json \<Rightarrow> int option" where
  "get_int (JInt n) = Some (int32 n)"
| "get_int (JFloat f) = Some (case to_int32 f of Some n \<Rightarrow> n | None \<Rightarrow> - (2 ^ 31))"
| "get_int (JBool b) = Some (if b then 1 else 0)"
| "get_int _ = None"

fun get_float :: "json \<Rightarrow> flt option" where
  "get_float (JInt n) = Some (of_int_f binary32 n)"
| "get_float (JFloat f) = Some (narrow binary32 f)"
| "get_float (JBool b) = Some (Fin (if b then 1 else 0))"
| "get_float _ = None"

fun get_bool :: "json \<Rightarrow> bool option" where
  "get_bool (JBool b) = Some b"
| "get_bool _ = None"

fun get_string :: "json \<Rightarrow> string option" where
  "get_string (JString s) = Some s"
| "get_string _ = None"

text \<open>
  \<^verbatim>\<open>get_field_value\<close>: the output argument keeps its old value unless the field is present and
  has the requested type. \<^verbatim>\<open>get_field_value_optional\<close> differs only in what it logs.
\<close>

definition get_field_value :: "(json \<Rightarrow> 'a option) \<Rightarrow> json \<Rightarrow> string \<Rightarrow> 'a \<Rightarrow> 'a \<times> ReturnCode" where
  "get_field_value get json_data field_name value =
     (case j_field json_data field_name of
        None \<Rightarrow> (value, INVALID_PARAM)
      | Some j \<Rightarrow> (case get j of None \<Rightarrow> (value, INVALID_PARAM) | Some v \<Rightarrow> (v, SUCCESS)))"

section \<open>Loading a configuration\<close>

datatype file_content = FileMissing | FileMalformed | FileJson json

datatype DeviceConfigType = CONFIG_ARM | CONFIG_EFFECTOR

definition CURRENT_CONFIG_VERSION :: string where
  "CURRENT_CONFIG_VERSION = ''1.3.1''"

definition init_config :: "(string \<Rightarrow> file_content) \<Rightarrow> string \<Rightarrow> json \<Rightarrow> json \<times> ReturnCode" where
  "init_config files file_path values =
     (case files file_path of
        FileMissing \<Rightarrow> (values, NOT_FOUND)
      | FileMalformed \<Rightarrow> (values, INVALID_PARAM)
      | FileJson j \<Rightarrow>
          (let (config_version, rc) = get_field_value get_string j ''config_version'' []
           in if rc \<noteq> SUCCESS then (j, NOT_FOUND)
              else if config_version \<noteq> CURRENT_CONFIG_VERSION then (j, NOT_SUPPORTED)
              else (j, SUCCESS)))"

text \<open>\<^verbatim>\<open>servo[field] = value\<close>: \<open>None\<close> is the exception for a value that is no object.\<close>

fun j_set_field :: "json \<Rightarrow> string \<Rightarrow> json \<Rightarrow> json option" where
  "j_set_field (JObject fs) k v = Some (JObject (AList.update k v fs))"
| "j_set_field JNull k v = Some (JObject [(k, v)])"
| "j_set_field _ k v = None"

fun cascade_servos :: "bool \<Rightarrow> json list \<Rightarrow> json list option" where
  "cascade_servos b [] = Some []"
| "cascade_servos b (servo # servos) =
     (case (if j_contains servo ''open_at_min'' then Some servo else j_set_field servo ''open_at_min'' (JBool b)) of
        None \<Rightarrow> None
      | Some servo' \<Rightarrow> (case cascade_servos b servos of None \<Rightarrow> None | Some rest \<Rightarrow> Some (servo' # rest)))"

fun cascade_joint :: "bool \<Rightarrow> json \<Rightarrow> json option" where
  "cascade_joint b (JObject fs) =
     (case map_of fs ''servos'' of
        Some (JArray servos) \<Rightarrow>
          (case cascade_servos b servos of
             None \<Rightarrow> None | Some servos' \<Rightarrow> Some (JObject (AList.update ''servos'' (JArray servos') fs)))
      | _ \<Rightarrow> Some (JObject fs))"
| "cascade_joint b joint = Some joint"

fun cascade_joints :: "bool \<Rightarrow> json list \<Rightarrow> json list option" where
  "cascade_joints b [] = Some []"
| "cascade_joints b (joint # joints) =
     (case cascade_joint b joint of
        None \<Rightarrow> None
      | Some joint' \<Rightarrow> (case cascade_joints b joints of None \<Rightarrow> None | Some rest \<Rightarrow> Some (joint' # rest)))"

fun cascade_effector_open_at_min_to_servos :: "json \<Rightarrow> json option" where
  "cascade_effector_open_at_min_to_servos (JObject fs) =
     (case map_of fs ''open_at_min'' of
        Some (JBool top_open_at_min) \<Rightarrow>
          (case map_of fs ''joints'' of
             Some (JArray joints) \<Rightarrow>
               (case cascade_joints top_open_at_min joints of
                  None \<Rightarrow> None
                | Some joints' \<Rightarrow> Some (JObject (AList.update ''joints'' (JArray joints') fs)))
           | _ \<Rightarrow> Some (JObject fs))
      | _ \<Rightarrow> Some (JObject fs))"
| "cascade_effector_open_at_min_to_servos j = Some j"

definition init_config_model_file ::
  "(string \<Rightarrow> file_content) \<Rightarrow> DeviceConfigType \<Rightarrow> string \<Rightarrow> string \<Rightarrow> json \<Rightarrow> json \<times> ReturnCode" where
  "init_config_model_file files cfg_type arm_model_config effector_model_config values =
     (if cfg_type = CONFIG_ARM \<and> arm_model_config \<noteq> [] then init_config files arm_model_config values
      else if cfg_type = CONFIG_EFFECTOR \<and> effector_model_config \<noteq> []
           then init_config files effector_model_config values
      else (values, INVALID_PARAM))"

definition init_config_individual_file ::
  "(string \<Rightarrow> file_content) \<Rightarrow> DeviceConfigType \<Rightarrow> string \<Rightarrow> string \<Rightarrow> json \<Rightarrow> (json \<times> ReturnCode) option" where
  "init_config_individual_file files cfg_type arm_instance_config effector_instance_config values =
     (if cfg_type = CONFIG_ARM \<and> arm_instance_config \<noteq> []
      then Some (init_config files arm_instance_config values)
      else if cfg_type = CONFIG_EFFECTOR \<and> effector_instance_config \<noteq> []
      then (let (values', rc) = init_config files effector_instance_config values
            in if rc = SUCCESS
               then (case cascade_effector_open_at_min_to_servos values' of
                       None \<Rightarrow> None | Some v \<Rightarrow> Some (v, rc))
               else Some (values', rc))
      else Some (values, INVALID_PARAM))"

section \<open>Lemmas\<close>

lemma get_field_value_success:
  "get_field_value get j k v = (w, SUCCESS) \<longleftrightarrow> (\<exists>x. j_field j k = Some x \<and> get x = Some w)"
  by (auto simp: get_field_value_def split: option.splits)

lemma get_field_value_rc:
  "snd (get_field_value get j k v) = SUCCESS \<or> get_field_value get j k v = (v, INVALID_PARAM)"
  by (auto simp: get_field_value_def split: option.splits)

definition open_at_min_of :: "json \<Rightarrow> json option" where
  "open_at_min_of servo = j_field servo ''open_at_min''"

lemma cascade_servo_field:
  assumes "(if j_contains servo ''open_at_min'' then Some servo
            else j_set_field servo ''open_at_min'' (JBool b)) = Some servo'"
  shows "open_at_min_of servo' = Some (case open_at_min_of servo of Some v \<Rightarrow> v | None \<Rightarrow> JBool b)"
  using assms by (cases servo) (auto simp: open_at_min_of_def update_conv' split: if_splits)

lemma cascade_servos_fields:
  "cascade_servos b servos = Some servos' \<Longrightarrow>
   map open_at_min_of servos' =
     map (\<lambda>s. Some (case open_at_min_of s of Some v \<Rightarrow> v | None \<Rightarrow> JBool b)) servos"
proof (induction servos arbitrary: servos')
  case (Cons s servos)
  then obtain s' r where
    s': "(if j_contains s ''open_at_min'' then Some s else j_set_field s ''open_at_min'' (JBool b)) = Some s'"
    and r: "cascade_servos b servos = Some r" "servos' = s' # r"
    unfolding cascade_servos.simps by (auto split: option.splits)
  show ?case using cascade_servo_field [OF s'] Cons.IH [OF r(1)] r(2) by simp
qed simp

section \<open>Properties\<close>

text \<open>the cascade fills in and never overrides. When the cascade of a servo list returns, every
  servo block has an \<open>open_at_min\<close> field; a block that had one keeps its value and a block that had
  none gets the effector's.\<close>

theorem cascade_fills_in:
  assumes "cascade_servos b servos = Some servos'"
  shows "length servos' = length servos \<and>
    (\<forall>i < length servos. open_at_min_of (servos' ! i) =
       Some (case open_at_min_of (servos ! i) of Some v \<Rightarrow> v | None \<Rightarrow> JBool b))"
proof -
  have eq: "map open_at_min_of servos' =
      map (\<lambda>s. Some (case open_at_min_of s of Some v \<Rightarrow> v | None \<Rightarrow> JBool b)) servos"
    using assms by (rule cascade_servos_fields)
  then have l: "length servos' = length servos" by (metis length_map)
  have "open_at_min_of (servos' ! i) = Some (case open_at_min_of (servos ! i) of Some v \<Rightarrow> v | None \<Rightarrow> JBool b)"
    if "i < length servos" for i
    using arg_cong [OF eq, of "\<lambda>xs. xs ! i"] that l by simp
  then show ?thesis using l by blast
qed

theorem cascade_fills_in_witness:
  "let servos = [JObject [(''servo_id'', JInt 8)], JObject [(''open_at_min'', JBool False)]]
   in \<exists>out. cascade_servos True servos = Some out \<and> length out = 2 \<and>
        open_at_min_of (out ! 0) = Some (JBool True) \<and> open_at_min_of (out ! 1) = Some (JBool False)"
proof -
  let ?s = "[JObject [(''servo_id'', JInt 8)], JObject [(''open_at_min'', JBool False)]]"
  have "\<exists>out. cascade_servos True ?s = Some out" by simp
  then obtain out where out: "cascade_servos True ?s = Some out" by blast
  have "open_at_min_of (?s ! 0) = None" "open_at_min_of (?s ! 1) = Some (JBool False)"
    by (simp_all add: open_at_min_of_def)
  then show ?thesis using cascade_fills_in [OF out] out
    by (auto simp: Let_def numeral_2_eq_2)
qed

text \<open>a configuration file is accepted only with the supported version: loading succeeds exactly
  when the path holds a JSON object whose \<open>config_version\<close> is the string \<open>1.3.1\<close>, and then the loaded
  values are that object.\<close>

theorem init_config_version_gate:
  "init_config files path values = (v, SUCCESS) \<longleftrightarrow>
     files path = FileJson v \<and> j_field v ''config_version'' = Some (JString CURRENT_CONFIG_VERSION)"
proof (cases "files path")
  case (FileJson j)
  show ?thesis
  proof (cases "j_field j ''config_version''")
    case None
    with FileJson show ?thesis by (auto simp: init_config_def get_field_value_def)
  next
    case (Some x)
    with FileJson show ?thesis
      by (cases x) (auto simp: init_config_def get_field_value_def split: if_splits)
  qed
qed (simp_all add: init_config_def)

end
