(* ===== verification/Driver_Factory.thy ===== *)
theory Driver_Factory
  imports Device_Config
begin

text \<open>
  The factory of \<^verbatim>\<open>native/pi_control/src/pi_driver.cpp\<close>, which chooses the driver class from the
  field \<^verbatim>\<open>driver_type\<close> of the model configuration. The Trossen driver carries the name of its controller;
  a null configuration and a null result are \<open>None\<close>.
\<close>

datatype DriverClass =
  DriverCanMit_class | DriverArxEncoder_class | DriverTrossen_class string | DriverFt_class | DriverFR3_class

definition new_driver :: "json option \<Rightarrow> DriverClass option" where
  "new_driver p_config =
     (case p_config of
        None \<Rightarrow> None
      | Some values \<Rightarrow>
          (let (driver_type, rc) = get_field_value get_string values ''driver_type'' []
           in if rc \<noteq> SUCCESS then None
              else if driver_type = ''CAN'' then Some DriverCanMit_class
              else if driver_type = ''CAN_ENCODER'' then Some DriverArxEncoder_class
              else if driver_type = ''TROSSEN_ETHERNET'' then
                (let (controller_model, rc) = get_field_value get_string values ''controller_model'' []
                 in if rc \<noteq> SUCCESS then None else Some (DriverTrossen_class controller_model))
              else if driver_type = ''FEETECH'' then Some DriverFt_class
              else if driver_type = ''FR3'' then Some DriverFR3_class
              else None))"

text \<open>The name a class is configured by; the factory inverts it.\<close>

fun type_name :: "DriverClass \<Rightarrow> string" where
  "type_name DriverCanMit_class = ''CAN''"
| "type_name DriverArxEncoder_class = ''CAN_ENCODER''"
| "type_name (DriverTrossen_class _) = ''TROSSEN_ETHERNET''"
| "type_name DriverFt_class = ''FEETECH''"
| "type_name DriverFR3_class = ''FR3''"

lemma get_string_field_iff:
  "get_field_value get_string j k v = (s, SUCCESS) \<longleftrightarrow> j_field j k = Some (JString s)"
proof (cases "j_field j k")
  case (Some x)
  then show ?thesis by (cases x) (auto simp: get_field_value_def)
qed (simp add: get_field_value_def)

text \<open>The factory makes a driver of a class exactly when the configuration names that class, and for the
  Trossen driver its controller as well; any other configuration gives none.\<close>

theorem new_driver_iff:
  "new_driver (Some j) = Some c \<longleftrightarrow>
     j_field j ''driver_type'' = Some (JString (type_name c)) \<and>
     (\<forall>m. c = DriverTrossen_class m \<longrightarrow> j_field j ''controller_model'' = Some (JString m))"
proof (cases "get_field_value get_string j ''driver_type'' []")
  case (Pair ty rc)
  show ?thesis
  proof (cases "rc = SUCCESS")
    case True
    then have f: "j_field j ''driver_type'' = Some (JString ty)" using Pair get_string_field_iff by simp
    obtain m rc' where cm: "get_field_value get_string j ''controller_model'' [] = (m, rc')" by fastforce
    have g: "rc' = SUCCESS \<and> m = m' \<longleftrightarrow> j_field j ''controller_model'' = Some (JString m')" for m'
      using get_string_field_iff [of j "''controller_model''" "[]" m'] cm by auto
    show ?thesis using g by (cases c) (auto simp: new_driver_def Pair True f cm)
  next
    case False
    then have "j_field j ''driver_type'' \<noteq> Some (JString (type_name c))"
      using Pair get_string_field_iff [of j "''driver_type''" "[]"] by (metis prod.inject)
    then show ?thesis using Pair False by (simp add: new_driver_def)
  qed
qed

end
