(* ===== verification/Servo_State.thy ===== *)
theory Servo_State
  imports Current_Estimation Hold_Checker
begin

text \<open>
  The public data of a servo object (\<^verbatim>\<open>native/pi_control/include/pi_servo.hpp\<close>) and the accessors
  every servo class shares. What a servo reads of the joint and the device it belongs to is
  two records; a missing joint is \<open>None\<close>. The device pointer is never null: the constructor
  dereferences it.
\<close>

section \<open>Data\<close>

datatype DeviceType = TYPE_UNKNOWN | ARM | EFFECTOR
datatype DeviceMode = MODE_INVALID | MODE_NORMAL | MODE_PASSIVE
datatype MsgType = MSG_INVALID | JOINT_INFO

datatype ServoType =
  SERVO_NOT_SUPPORTED | ENCOS_A4310 | ARX_ENCODER | DM_4340 | DM_4310 | FT_STS3215 | CAN_PASSIVE_ENCODER
  | CONTROLLER_JOINT

record servo_param =
  tolerable_pos_difference_rad :: flt
  max_pos_difference_rad :: flt
  velocity_threshold_rad_sec :: flt

record joint_view =
  tele_pos :: flt
  torq_min :: flt
  torq_max :: flt
  torq_rescale :: flt
  pos_error_margin :: flt

record device_view =
  dev_type :: DeviceType
  dev_role :: Role
  dev_mode :: DeviceMode
  dev_msg_type :: MsgType
  dev_in_move_to_ready :: bool
  dev_read_only :: bool
  dev_force_feedback_enabled :: bool
  dev_force_feedback :: flt

record servo_data =
  servo_model :: string
  id_of :: int
  data_index :: int
  pos_kp :: flt
  pos_ki :: flt
  pos_kd :: flt
  kt :: flt
  kv :: flt
  ka :: flt
  dir_invert :: int
  abs_position :: bool
  zero_pos_abs :: flt
  position_wrap_period :: flt
  position_wrap_offset_rel :: flt
  position_wrap_initialized :: bool
  spring_home_pos_rel :: flt
  home_pos_rel :: flt
  pos_min_rel :: flt
  pos_max_rel :: flt
  pos_min_configured :: bool
  pos_max_configured :: bool
  curr_pos_abs :: flt
  curr_vel :: flt
  curr_tor :: flt
  temperature :: flt
  motor_error_code :: u8
  idc_current :: flt
  response_delay :: flt
  pre_pos_abs :: flt
  prev_pos :: flt
  prev_vel :: flt
  prev_tor :: flt
  motor_params_current_estimation :: motor_params
  sv_param :: servo_param
  p_joint :: "joint_view option"
  p_device :: device_view

section \<open>Accessors\<close>

definition rel_of_abs :: "'a servo_data_scheme \<Rightarrow> flt \<Rightarrow> flt" where
  "rel_of_abs sv rad_absolute =
     (let relative = fadd binary32
            (fmul binary32 (fsub binary32 rad_absolute (zero_pos_abs sv)) (of_int_f binary32 (dir_invert sv)))
            (position_wrap_offset_rel sv)
      in if abs_position sv then fabs relative else relative)"

definition get_pos_rad_relative :: "'a servo_data_scheme \<Rightarrow> flt" where
  "get_pos_rad_relative sv = rel_of_abs sv (curr_pos_abs sv)"

definition get_pos_rad_absolute :: "'a servo_data_scheme \<Rightarrow> flt \<Rightarrow> flt" where
  "get_pos_rad_absolute sv rad_relative =
     fadd binary32
       (fmul binary32 (fsub binary32 rad_relative (position_wrap_offset_rel sv)) (of_int_f binary32 (dir_invert sv)))
       (zero_pos_abs sv)"

definition get_tele_pos_rad :: "'a servo_data_scheme \<Rightarrow> flt" where
  "get_tele_pos_rad sv = (case p_joint sv of None \<Rightarrow> Fin 0 | Some j \<Rightarrow> tele_pos j)"

definition get_tor_max :: "'a servo_data_scheme \<Rightarrow> flt" where
  "get_tor_max sv = (case p_joint sv of None \<Rightarrow> Fin 0 | Some j \<Rightarrow> torq_max j)"

definition get_pos_error_margin :: "'a servo_data_scheme \<Rightarrow> flt" where
  "get_pos_error_margin sv = (case p_joint sv of None \<Rightarrow> Fin 0 | Some j \<Rightarrow> pos_error_margin j)"

definition is_behind_more_than_max_threshold :: "'a servo_data_scheme \<Rightarrow> bool" where
  "is_behind_more_than_max_threshold sv =
     flt_lt (max_pos_difference_rad (sv_param sv))
            (fabs (fsub binary32 (get_pos_rad_relative sv) (get_tele_pos_rad sv)))"

definition is_behind_more_than_tolerable_threshold :: "'a servo_data_scheme \<Rightarrow> bool" where
  "is_behind_more_than_tolerable_threshold sv =
     flt_lt (tolerable_pos_difference_rad (sv_param sv))
            (fabs (fsub binary32 (get_pos_rad_relative sv) (get_tele_pos_rad sv)))"

definition get_adjusted_pos_kp :: "'a servo_data_scheme \<Rightarrow> flt" where
  "get_adjusted_pos_kp sv =
     (if dev_force_feedback_enabled (p_device sv) \<and> \<not> dev_in_move_to_ready (p_device sv)
      then fmul binary32 (dev_force_feedback (p_device sv)) (pos_kp sv) else pos_kp sv)"

definition get_adjusted_pos_kd :: "'a servo_data_scheme \<Rightarrow> flt" where
  "get_adjusted_pos_kd sv =
     (if dev_force_feedback_enabled (p_device sv) \<and> \<not> dev_in_move_to_ready (p_device sv)
      then Fin 0 else pos_kd sv)"

definition clipping :: "flt \<Rightarrow> flt \<Rightarrow> flt \<Rightarrow> flt" where
  "clipping value lo hi = (if flt_lt hi value then hi else if flt_lt value lo then lo else value)"

section \<open>Lemmas\<close>

lemma clipping_range:
  assumes "value \<noteq> NaN" "lo \<noteq> NaN" "hi \<noteq> NaN" "flt_le lo hi"
  shows "flt_le lo (clipping value lo hi) \<and> flt_le (clipping value lo hi) hi"
  using assms flt_not_lt [of hi "value"] flt_not_lt [of "value" lo]
  by (auto simp: clipping_def flt_le_refl_iff)

lemma of_int_dir: "of_int_f binary32 1 = Fin 1" "of_int_f binary32 (-1) = Fin (-1)"
  by (simp_all add: of_int_f_def flt_eval)

text \<open>Relative and absolute positions are inverse where the additions are exact.\<close>

lemma abs_rel_roundtrip:
  assumes "dir_invert sv \<in> {1, -1}" "\<not> abs_position sv"
    "zero_pos_abs sv = Fin z" "position_wrap_offset_rel sv = Fin w"
    "is_flt binary32 (Fin r)" "is_flt binary32 (Fin (r - w))"
    "is_flt binary32 (Fin ((r - w) * of_int (dir_invert sv) + z))"
  shows "rel_of_abs sv (get_pos_rad_absolute sv (Fin r)) = Fin r"
proof -
  have one: "fmul binary32 (Fin (r - w)) (of_int_f binary32 (dir_invert sv)) = Fin ((r - w) * of_int (dir_invert sv))"
    using assms(1,6) by (auto simp: of_int_dir fround_exact rnd_minus [of _ "r - w", simplified])
  have a: "get_pos_rad_absolute sv (Fin r) = Fin ((r - w) * of_int (dir_invert sv) + z)"
    unfolding get_pos_rad_absolute_def using assms one by (simp add: fsub_def fround_exact)
  have d: "is_flt binary32 (Fin ((r - w) * of_int (dir_invert sv)))"
    using assms(1,6) by (auto simp: rnd_minus [of _ "r - w", simplified])
  have "fsub binary32 (Fin ((r - w) * of_int (dir_invert sv) + z)) (zero_pos_abs sv)
      = Fin ((r - w) * of_int (dir_invert sv))"
    using fround_exact [OF d] assms(3) by (simp add: fsub_def)
  moreover have "fmul binary32 (Fin ((r - w) * of_int (dir_invert sv))) (of_int_f binary32 (dir_invert sv)) = Fin (r - w)"
    using assms(1,6) by (auto simp: of_int_dir fround_exact)
  ultimately show ?thesis
    using assms(2,4) fround_exact [OF assms(5)] unfolding a rel_of_abs_def by (simp add: Let_def)
qed

end
