(* ===== verification/Safe_Mode.thy ===== *)
theory Safe_Mode
  imports Servo_State
begin

text \<open>
  The protective-stop manager of a servo, \<^verbatim>\<open>native/pi_control/src/pi_safe_mode.cpp\<close>. The record
  has the fields of the C++ class; each handler takes the servo it manages and returns the
  updated manager and its return code.
\<close>

section \<open>Definitions\<close>

record safe_mode =
  is_safe_mode_enabled :: bool
  is_torque_mode_enabled :: bool
  is_pos_exceed :: bool
  is_pos_behind :: bool
  is_vel :: bool
  is_tor :: bool
  is_no_signal :: bool
  is_temperature :: bool
  servo_pos_rad :: flt
  servo_vel :: flt
  servo_tor :: flt
  pos_behind_hold_pos_rad :: flt

definition new_safe_mode :: "bool \<Rightarrow> bool \<Rightarrow> safe_mode" where
  "new_safe_mode safety_feature_off safety_torque_mode =
     \<lparr>is_safe_mode_enabled = \<not> safety_feature_off, is_torque_mode_enabled = safety_torque_mode,
      is_pos_exceed = False, is_pos_behind = False, is_vel = False, is_tor = False,
      is_no_signal = False, is_temperature = False,
      servo_pos_rad = Fin 0, servo_vel = Fin 0, servo_tor = Fin 0, pos_behind_hold_pos_rad = Fin 0\<rparr>"

definition update_servo_values :: "'a servo_data_scheme \<Rightarrow> safe_mode \<Rightarrow> safe_mode" where
  "update_servo_values sv m =
     m\<lparr>servo_pos_rad := get_pos_rad_relative sv, servo_vel := curr_vel sv, servo_tor := curr_tor sv\<rparr>"

definition graceful_management_pos_exceed :: "'a servo_data_scheme \<Rightarrow> safe_mode \<Rightarrow> safe_mode \<times> ReturnCode" where
  "graceful_management_pos_exceed sv m = (update_servo_values sv (m\<lparr>is_pos_exceed := True\<rparr>), SUCCESS)"

definition graceful_management_pos_behind :: "'a servo_data_scheme \<Rightarrow> safe_mode \<Rightarrow> safe_mode \<times> ReturnCode" where
  "graceful_management_pos_behind sv m =
     (let m = (if \<not> is_pos_behind m
               then m\<lparr>is_pos_behind := True, pos_behind_hold_pos_rad := get_pos_rad_relative sv\<rparr> else m)
      in (update_servo_values sv m, SUCCESS))"

definition graceful_management_vel :: "'a servo_data_scheme \<Rightarrow> safe_mode \<Rightarrow> safe_mode \<times> ReturnCode" where
  "graceful_management_vel sv m = (update_servo_values sv (m\<lparr>is_vel := True\<rparr>), SAFE_MODE_VEL)"

text \<open>The nested \<^verbatim>\<open>graceful_management(p_servo, SAFE_MODE_POS_BEHIND)\<close> of the torque and temperature handlers.\<close>

definition nested_pos_behind :: "'a servo_data_scheme \<Rightarrow> safe_mode \<Rightarrow> safe_mode" where
  "nested_pos_behind sv m =
     (if is_behind_more_than_tolerable_threshold sv
      then (if \<not> is_safe_mode_enabled m then m else fst (graceful_management_pos_behind sv m)) else m)"

definition graceful_management_tor :: "'a servo_data_scheme \<Rightarrow> safe_mode \<Rightarrow> safe_mode \<times> ReturnCode" where
  "graceful_management_tor sv m =
     (nested_pos_behind sv (update_servo_values sv (m\<lparr>is_tor := True\<rparr>)), SAFE_MODE_TOR)"

definition graceful_management_sig :: "'a servo_data_scheme \<Rightarrow> safe_mode \<Rightarrow> safe_mode \<times> ReturnCode" where
  "graceful_management_sig sv m = (update_servo_values sv (m\<lparr>is_no_signal := True\<rparr>), SAFE_MODE_SIG)"

definition graceful_management_temperature :: "'a servo_data_scheme \<Rightarrow> safe_mode \<Rightarrow> safe_mode \<times> ReturnCode" where
  "graceful_management_temperature sv m =
     (nested_pos_behind sv (update_servo_values sv (m\<lparr>is_temperature := True\<rparr>)), SAFE_MODE_TEMPERATURE)"

definition graceful_management :: "'a servo_data_scheme \<Rightarrow> ReturnCode \<Rightarrow> safe_mode \<Rightarrow> safe_mode \<times> ReturnCode" where
  "graceful_management sv servo_return_code m =
     (if \<not> is_safe_mode_enabled m then (m, servo_return_code)
      else case servo_return_code of
        SAFE_MODE_POS_EXCEED \<Rightarrow> graceful_management_pos_exceed sv m
      | SAFE_MODE_POS_BEHIND \<Rightarrow> graceful_management_pos_behind sv m
      | SAFE_MODE_VEL \<Rightarrow> graceful_management_vel sv m
      | SAFE_MODE_TOR \<Rightarrow> graceful_management_tor sv m
      | SAFE_MODE_SIG \<Rightarrow> graceful_management_sig sv m
      | SAFE_MODE_TEMPERATURE \<Rightarrow> graceful_management_temperature sv m
      | _ \<Rightarrow> (m, servo_return_code))"

definition exit_safe_mode :: "ReturnCode \<Rightarrow> safe_mode \<Rightarrow> safe_mode \<times> ReturnCode" where
  "exit_safe_mode safe_mode_return_code m =
     (if \<not> is_safe_mode_enabled m then (m, SUCCESS)
      else (case safe_mode_return_code of
        SAFE_MODE_POS_EXCEED \<Rightarrow> if is_pos_exceed m then m\<lparr>is_pos_exceed := False\<rparr> else m
      | SAFE_MODE_POS_BEHIND \<Rightarrow> if is_pos_behind m then m\<lparr>is_pos_behind := False\<rparr> else m
      | SAFE_MODE_VEL \<Rightarrow> if is_vel m then m\<lparr>is_vel := False\<rparr> else m
      | SAFE_MODE_TOR \<Rightarrow> if is_tor m then m\<lparr>is_tor := False\<rparr> else m
      | SAFE_MODE_SIG \<Rightarrow> if is_no_signal m then m\<lparr>is_no_signal := False\<rparr> else m
      | SAFE_MODE_TEMPERATURE \<Rightarrow> if is_temperature m then m\<lparr>is_temperature := False\<rparr> else m
      | _ \<Rightarrow> m, SUCCESS))"

definition get_safe_tele_pos_rad :: "safe_mode \<Rightarrow> 'a servo_data_scheme \<Rightarrow> flt \<Rightarrow> flt" where
  "get_safe_tele_pos_rad m sv tele =
     (if \<not> is_safe_mode_enabled m then tele
      else if is_pos_exceed m \<and> flt_lt (pos_max_rel sv) tele then pos_max_rel sv
      else if is_pos_exceed m \<and> flt_lt tele (pos_min_rel sv) then pos_min_rel sv
      else if is_pos_behind m then pos_behind_hold_pos_rad m
      else tele)"

definition encode_bits :: "safe_mode \<Rightarrow> u8" where
  "encode_bits m =
     (if is_pos_behind m then 0x01 else 0) OR (if is_tor m then 0x02 else 0) OR
     (if is_temperature m then 0x04 else 0) OR (if is_pos_exceed m then 0x08 else 0) OR
     (if is_vel m then 0x10 else 0) OR (if is_no_signal m then 0x20 else 0)"

section \<open>The manager as a state machine\<close>

text \<open>One call of the manager by the servo: a violation is managed or a safe mode is exited.\<close>

datatype 'a sm_call = Manage "'a servo_data_scheme" ReturnCode | Exit ReturnCode

fun sm_step :: "safe_mode \<Rightarrow> 'a sm_call \<Rightarrow> safe_mode" where
  "sm_step m (Manage sv rc) = fst (graceful_management sv rc m)"
| "sm_step m (Exit rc) = fst (exit_safe_mode rc m)"

section \<open>Lemmas\<close>

lemmas gm_defs = graceful_management_def graceful_management_pos_exceed_def graceful_management_pos_behind_def
  graceful_management_vel_def graceful_management_tor_def graceful_management_sig_def
  graceful_management_temperature_def nested_pos_behind_def update_servo_values_def Let_def

lemma nested_is_graceful:
  "nested_pos_behind sv m = (if is_behind_more_than_tolerable_threshold sv
     then fst (graceful_management sv SAFE_MODE_POS_BEHIND m) else m)"
  by (simp add: nested_pos_behind_def graceful_management_def)

lemma sm_step_enabled [simp]: "is_safe_mode_enabled (sm_step m c) = is_safe_mode_enabled m"
  by (cases c) (auto simp: gm_defs exit_safe_mode_def split: ReturnCode.split)

lemma sm_step_keeps_anchor:
  assumes "is_safe_mode_enabled m" "is_pos_behind m" "c \<noteq> Exit SAFE_MODE_POS_BEHIND"
  shows "is_pos_behind (sm_step m c) \<and> pos_behind_hold_pos_rad (sm_step m c) = pos_behind_hold_pos_rad m"
  using assms by (cases c) (auto simp: gm_defs exit_safe_mode_def split: ReturnCode.split)

lemma sm_run_keeps_anchor:
  assumes "is_safe_mode_enabled m" "is_pos_behind m" "Exit SAFE_MODE_POS_BEHIND \<notin> set cs"
  shows "is_safe_mode_enabled (foldl sm_step m cs) \<and> is_pos_behind (foldl sm_step m cs) \<and>
    pos_behind_hold_pos_rad (foldl sm_step m cs) = pos_behind_hold_pos_rad m"
  using assms
proof (induction cs arbitrary: m)
  case (Cons c cs)
  then have "c \<noteq> Exit SAFE_MODE_POS_BEHIND" by auto
  with Cons.prems have "is_pos_behind (sm_step m c)" "pos_behind_hold_pos_rad (sm_step m c) = pos_behind_hold_pos_rad m"
    using sm_step_keeps_anchor by blast+
  with Cons show ?case by (simp del: sm_step.simps)
qed simp

lemma encode_bits_bit:
  "bit (encode_bits m) n =
     (n = 0 \<and> is_pos_behind m \<or> n = 1 \<and> is_tor m \<or> n = 2 \<and> is_temperature m \<or>
      n = 3 \<and> is_pos_exceed m \<or> n = 4 \<and> is_vel m \<or> n = 5 \<and> is_no_signal m)"
proof -
  have e: "bit ((2::u8) ^ k) n = (n = k)" if "k < 8" for k n
    using that by (auto simp: bit_exp_iff)
  have p: "(0x01::u8) = 2 ^ 0" "(0x02::u8) = 2 ^ 1" "(0x04::u8) = 2 ^ 2" "(0x08::u8) = 2 ^ 3"
    "(0x10::u8) = 2 ^ 4" "(0x20::u8) = 2 ^ 5" by simp_all
  have b: "bit (0x01 :: u8) n = (n = 0)" "bit (0x02 :: u8) n = (n = 1)" "bit (0x04 :: u8) n = (n = 2)"
    "bit (0x08 :: u8) n = (n = 3)" "bit (0x10 :: u8) n = (n = 4)" "bit (0x20 :: u8) n = (n = 5)"
    by (subst p, rule e, simp)+
  have i: "bit (if c then x else 0 :: u8) n = (c \<and> bit x n)" for c x n by simp
  show ?thesis unfolding encode_bits_def bit_or_iff i b by blast
qed

section \<open>Properties\<close>

text \<open>C35: the hold anchor of a position-behind stop does not drift. When a position-behind violation is
  managed by an enabled manager that was not already holding, the position measured at that moment
  is the commanded target of every later cycle, whatever further violations are managed or exited and
  whatever the servo measures meanwhile, until the position-behind stop itself is exited.\<close>

theorem hold_anchor_does_not_drift:
  assumes "is_safe_mode_enabled m" "\<not> is_pos_behind m"
    and "Exit SAFE_MODE_POS_BEHIND \<notin> set cs"
  shows "let m' = foldl sm_step m (Manage sv SAFE_MODE_POS_BEHIND # cs) in is_pos_behind m' \<and> pos_behind_hold_pos_rad m' = get_pos_rad_relative sv \<and>
    (\<not> is_pos_exceed m' \<longrightarrow> get_safe_tele_pos_rad m' sv' tele = get_pos_rad_relative sv)"
proof -
  let ?m = "sm_step m (Manage sv SAFE_MODE_POS_BEHIND)"
  have s: "is_safe_mode_enabled ?m" "is_pos_behind ?m" "pos_behind_hold_pos_rad ?m = get_pos_rad_relative sv"
    using assms by (simp_all add: gm_defs)
  have "is_safe_mode_enabled (foldl sm_step n cs) \<and> is_pos_behind (foldl sm_step n cs) \<and>
      pos_behind_hold_pos_rad (foldl sm_step n cs) = pos_behind_hold_pos_rad n"
    if "is_safe_mode_enabled n" "is_pos_behind n" for n
    using sm_run_keeps_anchor [OF that assms(3)] .
  from this [OF s(1,2)] s(3) show ?thesis
    by (simp add: Let_def get_safe_tele_pos_rad_def)
qed

definition sample_servo :: servo_data where
  "sample_servo =
     \<lparr>servo_model = ''DM J4310'', id_of = 4, data_index = 3, pos_kp = Fin 30, pos_ki = Fin 0, pos_kd = Fin 1,
      kt = Fin 0, kv = Fin 0, ka = Fin 0, dir_invert = 1, abs_position = False, zero_pos_abs = Fin 0,
      position_wrap_period = Fin 0, position_wrap_offset_rel = Fin 0, position_wrap_initialized = False,
      spring_home_pos_rel = Fin 0, home_pos_rel = Fin 0, pos_min_rel = Fin (-2), pos_max_rel = Fin 2,
      pos_min_configured = True, pos_max_configured = True, curr_pos_abs = Fin 1, curr_vel = Fin 0,
      curr_tor = Fin 0, temperature = Fin 30, motor_error_code = 1, idc_current = Fin 0, response_delay = Fin 0,
      pre_pos_abs = Fin 0, prev_pos = Fin 0, prev_vel = Fin 0, prev_tor = Fin 0,
      motor_params_current_estimation = default_motor_params,
      sv_param = \<lparr>tolerable_pos_difference_rad = Fin 1, max_pos_difference_rad = Fin 2, velocity_threshold_rad_sec = Fin 1\<rparr>,
      p_joint = Some \<lparr>tele_pos = Fin 0, torq_min = Fin (-10), torq_max = Fin 10, torq_rescale = Fin 1, pos_error_margin = Fin 0\<rparr>,
      p_device = \<lparr>dev_type = ARM, dev_role = FOLLOWER, dev_mode = MODE_NORMAL, dev_msg_type = JOINT_INFO,
        dev_in_move_to_ready = False, dev_read_only = False, dev_force_feedback_enabled = False,
        dev_force_feedback = Fin 0\<rparr>\<rparr>"

lemma fround32_one: "fround binary32 1 = Fin 1"
  by (simp add: flt_eval)

lemma sample_servo_pos: "get_pos_rad_relative sample_servo = Fin 1"
  by (simp add: get_pos_rad_relative_def rel_of_abs_def sample_servo_def of_int_dir fsub_def fround32_one)

theorem hold_anchor_does_not_drift_witness:
  "let m = foldl sm_step (new_safe_mode False True)
             [Manage sample_servo SAFE_MODE_POS_BEHIND, Manage (sample_servo\<lparr>curr_pos_abs := Fin (1/2)\<rparr>) SAFE_MODE_TOR,
              Manage (sample_servo\<lparr>curr_pos_abs := Fin (1/4)\<rparr>) SAFE_MODE_POS_BEHIND, Exit SAFE_MODE_TOR]
   in get_safe_tele_pos_rad m sample_servo (Fin 2) = Fin 1"
proof -
  let ?cs = "[Manage (sample_servo\<lparr>curr_pos_abs := Fin (1/2)\<rparr>) SAFE_MODE_TOR,
     Manage (sample_servo\<lparr>curr_pos_abs := Fin (1/4)\<rparr>) SAFE_MODE_POS_BEHIND, Exit SAFE_MODE_TOR] :: unit sm_call list"
  have e: "\<not> is_pos_exceed (foldl sm_step (new_safe_mode False True) (Manage sample_servo SAFE_MODE_POS_BEHIND # ?cs))"
    by (simp add: gm_defs exit_safe_mode_def new_safe_mode_def)
  have "is_safe_mode_enabled (new_safe_mode False True)" "\<not> is_pos_behind (new_safe_mode False True)"
    "Exit SAFE_MODE_POS_BEHIND \<notin> set ?cs" by (simp_all add: new_safe_mode_def)
  from hold_anchor_does_not_drift [OF this, of sample_servo sample_servo "Fin 2"] e
  show ?thesis by (simp only: Let_def sample_servo_pos simp_thms)
qed

text \<open>a command passes the position-exceed stop only inside the limits. With the manager enabled, the
  exceed flag set and the behind flag clear, the target that is passed on lies between the servo's
  limits, and it is the requested one when that is inside them.\<close>

theorem exceed_clamps_target:
  assumes "is_safe_mode_enabled m" "is_pos_exceed m" "\<not> is_pos_behind m"
    and "tele \<noteq> NaN" "pos_min_rel sv \<noteq> NaN" "pos_max_rel sv \<noteq> NaN" "flt_le (pos_min_rel sv) (pos_max_rel sv)"
  shows "flt_le (pos_min_rel sv) (get_safe_tele_pos_rad m sv tele) \<and>
    flt_le (get_safe_tele_pos_rad m sv tele) (pos_max_rel sv) \<and>
    (flt_le (pos_min_rel sv) tele \<and> flt_le tele (pos_max_rel sv) \<longrightarrow> get_safe_tele_pos_rad m sv tele = tele)"
proof -
  have "get_safe_tele_pos_rad m sv tele = clipping tele (pos_min_rel sv) (pos_max_rel sv)"
    using assms by (simp add: get_safe_tele_pos_rad_def clipping_def)
  moreover have "flt_le (pos_min_rel sv) tele \<and> flt_le tele (pos_max_rel sv) \<Longrightarrow>
      clipping tele (pos_min_rel sv) (pos_max_rel sv) = tele"
    by (simp add: clipping_def flt_le_not_lt)
  ultimately show ?thesis using clipping_range [of tele "pos_min_rel sv" "pos_max_rel sv"] assms by simp
qed

theorem exceed_clamps_target_witness:
  "let m = sm_step (new_safe_mode False False) (Manage sample_servo SAFE_MODE_POS_EXCEED)
   in flt_le (get_safe_tele_pos_rad m sample_servo (Fin 5)) (Fin 2)"
proof -
  let ?m = "sm_step (new_safe_mode False False) (Manage sample_servo SAFE_MODE_POS_EXCEED)"
  have "is_safe_mode_enabled ?m" "is_pos_exceed ?m" "\<not> is_pos_behind ?m"
    by (simp_all add: gm_defs new_safe_mode_def)
  from exceed_clamps_target [OF this, of "Fin 5" sample_servo] show ?thesis
    by (simp add: Let_def sample_servo_def)
qed

text \<open>the logged status byte determines all six flags, and its two upper bits are never set.\<close>

theorem encode_bits_faithful:
  "(encode_bits m = encode_bits n \<longleftrightarrow>
     is_pos_behind m = is_pos_behind n \<and> is_tor m = is_tor n \<and> is_temperature m = is_temperature n \<and>
     is_pos_exceed m = is_pos_exceed n \<and> is_vel m = is_vel n \<and> is_no_signal m = is_no_signal n) \<and>
   unat (encode_bits m) < 64"
proof -
  have "encode_bits m = encode_bits n \<longleftrightarrow>
     is_pos_behind m = is_pos_behind n \<and> is_tor m = is_tor n \<and> is_temperature m = is_temperature n \<and>
     is_pos_exceed m = is_pos_exceed n \<and> is_vel m = is_vel n \<and> is_no_signal m = is_no_signal n" (is "?l = ?r")
  proof
    assume l: ?l
    have "bit (encode_bits m) k = bit (encode_bits n) k" for k using l by simp
    from this [of 0] this [of 1] this [of 2] this [of 3] this [of 4] this [of 5] show ?r
      by (simp add: encode_bits_bit)
  next
    assume ?r
    then show ?l by (simp add: encode_bits_def)
  qed
  moreover have "encode_bits m = take_bit 6 (encode_bits m)"
    by (rule bit_eqI) (auto simp: bit_take_bit_iff encode_bits_bit)
  then have "unat (encode_bits m) = take_bit 6 (unat (encode_bits m))" by (metis unsigned_take_bit_eq)
  then have "unat (encode_bits m) < 2 ^ 6" by (metis take_bit_nat_less_exp)
  ultimately show ?thesis by simp
qed

end
