(* ===== verification/Servo.thy ===== *)
theory Servo
  imports Safe_Mode Driver_Registry Device_Config
begin

text \<open>
  The servo base class, \<^verbatim>\<open>native/pi_control/src/pi_servo.cpp\<close>: configuration from the model and
  the individual file, the startup position unwrapping, the factory and the safety checks of
  one read cycle. A virtual call is a function argument: the driver's read of the hardware
  values and a derived class's choice of motor parameters.
\<close>

section \<open>State\<close>

record servo = servo_data +
  parked :: bool
  sv_type :: ServoType
  checker_pos_exceed :: hold_checker
  checker_vel_exceed :: hold_checker
  checker_tor_exceed :: hold_checker
  torque_mode_disabled_warning_active :: bool
  checker_pos_difference_exceed :: hold_checker
  checker_temperature_exceed :: hold_checker
  checker_stall_detection :: hold_checker
  current_estimation :: calib_params
  safe_mode :: safe_mode

definition MAX_CNT_POS_EXCEED :: int where "MAX_CNT_POS_EXCEED = 100"
definition MAX_CNT_VEL_EXCEED :: int where "MAX_CNT_VEL_EXCEED = 100"
definition MAX_CNT_TOR_EXCEED :: int where "MAX_CNT_TOR_EXCEED = 300"
definition MAX_CNT_POS_DIFFERENCE_EXCEED :: int where "MAX_CNT_POS_DIFFERENCE_EXCEED = 1000"
definition MAX_CNT_STALL_DETECTION :: int where "MAX_CNT_STALL_DETECTION = 2000"
definition MAX_CNT_TEMPERATURE_EXCEED :: int where "MAX_CNT_TEMPERATURE_EXCEED = 100"

text \<open>The constructor: the checkers and the safe mode are fresh, the data is \<open>d\<close>'s.\<close>

definition new_servo :: "servo_data \<Rightarrow> bool \<Rightarrow> bool \<Rightarrow> servo" where
  "new_servo d safety_feature_off safety_torque_mode =
     servo_data.extend d
       \<lparr>parked = False, sv_type = SERVO_NOT_SUPPORTED,
        checker_pos_exceed = new_hold_checker MAX_CNT_POS_EXCEED,
        checker_vel_exceed = new_hold_checker MAX_CNT_VEL_EXCEED,
        checker_tor_exceed = new_hold_checker MAX_CNT_TOR_EXCEED,
        torque_mode_disabled_warning_active = False,
        checker_pos_difference_exceed = new_hold_checker MAX_CNT_POS_DIFFERENCE_EXCEED,
        checker_temperature_exceed = new_hold_checker MAX_CNT_TEMPERATURE_EXCEED,
        checker_stall_detection = new_hold_checker MAX_CNT_STALL_DETECTION,
        current_estimation = current_estimation_calib,
        safe_mode = new_safe_mode safety_feature_off safety_torque_mode\<rparr>"

section \<open>Configuration\<close>

text \<open>An optional field: the target keeps its value when the field is missing or has another type.\<close>

definition opt_field :: "(json \<Rightarrow> 'b option) \<Rightarrow> json \<Rightarrow> string \<Rightarrow> 'b \<Rightarrow> 'b" where
  "opt_field get j k v = fst (get_field_value get j k v)"

text \<open>
  \<^verbatim>\<open>Servo::init_config_model\<close>. The result is the servo, the registry (changed once the id and
  the data index are known) and the return code; \<open>p\<close> is the address of the object,
  \<open>init_ce\<close> the virtual \<^verbatim>\<open>init_current_estimation\<close>.
\<close>

definition model_gains :: "json \<Rightarrow> 'a servo_scheme \<Rightarrow> 'a servo_scheme" where
  "model_gains cfg sv =
     sv\<lparr>pos_kp := opt_field get_float cfg ''pos_kp'' (pos_kp sv),
        pos_ki := opt_field get_float cfg ''pos_ki'' (pos_ki sv),
        pos_kd := opt_field get_float cfg ''pos_kd'' (pos_kd sv),
        kt := opt_field get_float cfg ''kT'' (kt sv),
        kv := opt_field get_float cfg ''kV'' (kv sv),
        ka := opt_field get_float cfg ''kA'' (ka sv),
        response_delay := opt_field get_float cfg ''response_delay'' (response_delay sv)\<rparr>"

definition model_limits :: "json \<Rightarrow> 'a servo_scheme \<Rightarrow> 'a servo_scheme \<times> ReturnCode" where
  "model_limits cfg sv =
     (let (mn, rc1) = get_field_value get_float cfg ''pos_min'' (pos_min_rel sv);
          sv = sv\<lparr>pos_min_rel := mn\<rparr>;
          sv = (if rc1 = SUCCESS then sv\<lparr>pos_min_configured := True\<rparr> else sv);
          (mx, rc2) = get_field_value get_float cfg ''pos_max'' (pos_max_rel sv);
          sv = sv\<lparr>pos_max_rel := mx\<rparr>
      in if rc2 = SUCCESS
         then (let sv = sv\<lparr>pos_max_configured := True\<rparr>
               in if pos_min_configured sv \<and> flt_lt (pos_max_rel sv) (pos_min_rel sv) then (sv, INVALID_PARAM)
                  else (sv, SUCCESS))
         else (sv, SUCCESS))"

definition init_config_model ::
  "('a servo_scheme \<Rightarrow> 'a servo_scheme \<times> ReturnCode) \<Rightarrow> 'p \<Rightarrow> json \<Rightarrow> 'a servo_scheme \<Rightarrow> 'p registry
   \<Rightarrow> 'a servo_scheme \<times> 'p registry \<times> ReturnCode" where
  "init_config_model init_ce p cfg sv r =
     (let (i, rc) = get_field_value get_int cfg ''servo_id'' (id_of sv); sv = sv\<lparr>id_of := i\<rparr>
      in if rc \<noteq> SUCCESS then (sv, r, rc) else
      let (di, rc) = get_field_value get_int cfg ''data_index'' (data_index sv); sv = sv\<lparr>data_index := di\<rparr>
      in if rc \<noteq> SUCCESS then (sv, r, rc) else
      let r = register_servo_data_index (id_of sv) (data_index sv) p r;
          (model, rc) = get_field_value get_string cfg ''servo_model'' (servo_model sv);
          sv = sv\<lparr>servo_model := model\<rparr>
      in if rc \<noteq> SUCCESS then (sv, r, rc) else
      let sv = model_gains cfg sv;
          (d, rc) = get_field_value get_int cfg ''dir_invert'' (dir_invert sv); sv = sv\<lparr>dir_invert := d\<rparr>
      in if rc = SUCCESS \<and> dir_invert sv \<noteq> 1 \<and> dir_invert sv \<noteq> -1 then (sv, r, INVALID_PARAM) else
      let (ap, rc) = (if j_contains cfg ''abs_position''
                      then get_field_value get_bool cfg ''abs_position'' (abs_position sv)
                      else (abs_position sv, SUCCESS));
          sv = sv\<lparr>abs_position := ap\<rparr>
      in if rc \<noteq> SUCCESS then (sv, r, rc) else
      let (sv, rc) = model_limits cfg sv
      in if rc \<noteq> SUCCESS then (sv, r, rc) else
      let (sv, rc) = init_ce sv
      in if rc \<noteq> SUCCESS then (sv, r, rc) else (sv, r, SUCCESS))"

text \<open>\<^verbatim>\<open>Servo::init_config_individual\<close>.\<close>

definition individual_gains :: "json \<Rightarrow> 'a servo_scheme \<Rightarrow> 'a servo_scheme" where
  "individual_gains cfg sv =
     sv\<lparr>pos_kp := opt_field get_float cfg ''pos_kp'' (pos_kp sv),
        pos_ki := opt_field get_float cfg ''pos_ki'' (pos_ki sv),
        pos_kd := opt_field get_float cfg ''pos_kd'' (pos_kd sv)\<rparr>"

definition wrap_config_ok :: "'a servo_scheme \<Rightarrow> bool" where
  "wrap_config_ok sv =
     (pos_min_configured sv \<and> pos_max_configured sv \<and>
      isfinite (pos_min_rel sv) \<and> isfinite (pos_max_rel sv) \<and>
      \<not> flt_le (pos_max_rel sv) (pos_min_rel sv) \<and> isfinite (position_wrap_period sv) \<and>
      \<not> flt_le (position_wrap_period sv) (Fin 0) \<and>
      \<not> flt_le (position_wrap_period sv) (fsub binary32 (pos_max_rel sv) (pos_min_rel sv)))"

definition individual_limits :: "json \<Rightarrow> 'a servo_scheme \<Rightarrow> 'a servo_scheme" where
  "individual_limits cfg sv =
     (let (mn, rc1) = get_field_value get_float cfg ''pos_min'' (pos_min_rel sv);
          sv = sv\<lparr>pos_min_rel := mn\<rparr>;
          sv = (if rc1 = SUCCESS then sv\<lparr>pos_min_configured := True\<rparr> else sv);
          (mx, rc2) = get_field_value get_float cfg ''pos_max'' (pos_max_rel sv);
          sv = sv\<lparr>pos_max_rel := mx\<rparr>
      in if rc2 = SUCCESS then sv\<lparr>pos_max_configured := True\<rparr> else sv)"

definition init_config_individual :: "json \<Rightarrow> 'a servo_scheme \<Rightarrow> 'a servo_scheme \<times> ReturnCode" where
  "init_config_individual cfg sv =
     (let sv = sv\<lparr>position_wrap_period := Fin 0, position_wrap_offset_rel := Fin 0, position_wrap_initialized := False\<rparr>;
          (d, rc) = get_field_value get_int cfg ''dir_invert'' 0
      in if rc = SUCCESS \<and> d \<noteq> 1 \<and> d \<noteq> -1 then (sv, INVALID_PARAM) else
      let sv = (if rc = SUCCESS then sv\<lparr>dir_invert := d\<rparr> else sv);
          sv = individual_limits cfg (individual_gains cfg sv)
      in if pos_min_configured sv \<and> pos_max_configured sv \<and> flt_lt (pos_max_rel sv) (pos_min_rel sv)
         then (sv, INVALID_PARAM) else
      let sv = sv\<lparr>zero_pos_abs := opt_field get_float cfg ''zero_pos'' (zero_pos_abs sv)\<rparr>;
          (w, rc) = get_field_value get_float cfg ''position_wrap_period'' (position_wrap_period sv);
          sv = sv\<lparr>position_wrap_period := w\<rparr>
      in if rc = SUCCESS \<and> \<not> wrap_config_ok sv then (sv, INVALID_PARAM) else
      (sv\<lparr>spring_home_pos_rel := opt_field get_float cfg ''spring_home_pos'' (spring_home_pos_rel sv),
          home_pos_rel := opt_field get_float cfg ''home_pos'' (home_pos_rel sv)\<rparr>, SUCCESS))"

text \<open>The overload that configures the servos of a joint, one block per servo.\<close>

fun individual_loop :: "json list \<Rightarrow> 'a servo_scheme list \<Rightarrow> 'a servo_scheme list \<times> ReturnCode" where
  "individual_loop [] svs = (svs, if svs = [] then SUCCESS else INVALID_PARAM)"
| "individual_loop (cfg # cfgs) [] = ([], INVALID_PARAM)"
| "individual_loop (cfg # cfgs) (sv # svs) =
     (let (sv', rc) = init_config_individual cfg sv
      in if rc \<noteq> SUCCESS then (sv' # svs, rc)
         else (let (svs', rc') = individual_loop cfgs svs in (sv' # svs', rc')))"

definition init_config_individual_all ::
  "json \<Rightarrow> bool \<Rightarrow> 'a servo_scheme list \<Rightarrow> 'a servo_scheme list \<times> ReturnCode" where
  "init_config_individual_all joint_config config_null svs =
     (if config_null then (svs, NOT_INITIALIZED)
      else case j_field joint_config ''servos'' of
        None \<Rightarrow> (svs, INVALID_PARAM)
      | Some l \<Rightarrow> (if length (j_elems l) \<noteq> length svs then (svs, INVALID_PARAM) else individual_loop (j_elems l) svs))"

section \<open>Startup position unwrapping\<close>

fun fceil :: "flt \<Rightarrow> flt" where
  "fceil (Fin a) = Fin (of_int \<lceil>a\<rceil>)"
| "fceil a = a"

fun ffloor :: "flt \<Rightarrow> flt" where
  "ffloor (Fin a) = Fin (of_int \<lfloor>a\<rfloor>)"
| "ffloor a = a"

definition initialize_position_wrap :: "'a servo_scheme \<Rightarrow> 'a servo_scheme \<times> ReturnCode" where
  "initialize_position_wrap sv =
     (if flt_le (position_wrap_period sv) (Fin 0) \<or> position_wrap_initialized sv then (sv, SUCCESS)
      else
        let sv = sv\<lparr>position_wrap_initialized := True\<rparr>;
            base_relative = fmul binary32 (fsub binary32 (curr_pos_abs sv) (zero_pos_abs sv))
                              (of_int_f binary32 (dir_invert sv));
            min_turns = fceil (fdiv binary32 (fsub binary32 (pos_min_rel sv) base_relative) (position_wrap_period sv));
            max_turns = ffloor (fdiv binary32 (fsub binary32 (pos_max_rel sv) base_relative) (position_wrap_period sv))
        in if flt_lt max_turns min_turns then (sv, SUCCESS)
           else if \<not> flt_eq min_turns max_turns then (sv, INVALID_PARAM)
           else (sv\<lparr>position_wrap_offset_rel := fmul binary32 (narrow binary32 min_turns) (position_wrap_period sv)\<rparr>,
                 SUCCESS))"

section \<open>Factory\<close>

datatype ServoClass = ServoDm_class | ServoCanPassiveEncoder_class | ServoController_class | ServoFt_class

definition servo_class_of :: "string \<Rightarrow> ServoClass option" where
  "servo_class_of m =
     (if m = ''DM J4340'' \<or> m = ''DM J4310'' \<or> m = ''Encos EC-A4310-P2-36'' \<or> m = ''ARX Remote Encoder''
      then Some ServoDm_class
      else if m = ''CAN Passive Encoder'' then Some ServoCanPassiveEncoder_class
      else if m = ''Trossen WXAI Joint'' then Some ServoController_class
      else if m = ''FeeTech STS3215'' then Some ServoFt_class
      else None)"

text \<open>
  \<^verbatim>\<open>Servo::new_servos\<close>. Objects get consecutive addresses; \<open>init\<close> is the virtual
  \<^verbatim>\<open>init_config_model\<close> of the class on a fresh object. A failure destroys the objects made so
  far, and every destructor unregisters its object.
\<close>

definition destroy_all :: "'p list \<Rightarrow> 'p registry \<Rightarrow> 'p registry" where
  "destroy_all ps r = fold unregister_servo ps r"

fun new_servos_loop ::
  "(ServoClass \<Rightarrow> nat \<Rightarrow> json \<Rightarrow> nat registry \<Rightarrow> 's \<times> nat registry \<times> ReturnCode) \<Rightarrow> json list \<Rightarrow> nat
   \<Rightarrow> (nat \<times> 's) list \<Rightarrow> nat registry \<Rightarrow> (nat \<times> 's) list \<times> nat registry \<times> ReturnCode" where
  "new_servos_loop init [] a acc r = (acc, r, SUCCESS)"
| "new_servos_loop init (cfg # cfgs) a acc r =
     (let (model, rc) = get_field_value get_string cfg ''servo_model'' []
      in if rc \<noteq> SUCCESS then ([], destroy_all (map fst acc) r, rc)
         else case servo_class_of model of
           None \<Rightarrow> ([], destroy_all (map fst acc) r, NOT_SUPPORTED)
         | Some c \<Rightarrow>
             (let (s, r', rc) = init c a cfg r
              in if rc \<noteq> SUCCESS then ([], destroy_all (map fst acc) (unregister_servo a r'), rc)
                 else new_servos_loop init cfgs (a + 1) (acc @ [(a, s)]) r'))"

definition new_servos ::
  "(ServoClass \<Rightarrow> nat \<Rightarrow> json \<Rightarrow> nat registry \<Rightarrow> 's \<times> nat registry \<times> ReturnCode) \<Rightarrow> bool \<Rightarrow> bool \<Rightarrow> json
   \<Rightarrow> (nat \<times> 's) list \<Rightarrow> nat \<Rightarrow> nat registry \<Rightarrow> (nat \<times> 's) list \<times> nat registry \<times> ReturnCode" where
  "new_servos init config_null deps_null joint_config servos a r =
     (if config_null then (servos, r, NOT_INITIALIZED)
      else if deps_null then (servos, r, NOT_INITIALIZED)
      else case j_field joint_config ''servos'' of
        None \<Rightarrow> (servos, r, INVALID_PARAM)
      | Some l \<Rightarrow>
          (if j_elems l = [] then (servos, r, INVALID_PARAM)
           else let (news, r', rc) = new_servos_loop init (j_elems l) a [] r
                in if rc \<noteq> SUCCESS then (servos, r', rc) else (servos @ news, r', SUCCESS)))"

section \<open>What the configuration guarantees\<close>

text \<open>A configured servo: its direction is a sign, its limits are not in the wrong order, and a wrap period is longer, as
  a real number, than the width of a nonempty finite range. The code compares with the rounded width.\<close>

definition servo_config_inv :: "'a servo_scheme \<Rightarrow> bool" where
  "servo_config_inv sv \<longleftrightarrow> dir_invert sv \<in> {1, -1} \<and>
     (pos_min_configured sv \<and> pos_max_configured sv \<longrightarrow> \<not> flt_lt (pos_max_rel sv) (pos_min_rel sv)) \<and>
     (flt_eq (position_wrap_period sv) (Fin 0) \<or>
      (\<exists>mn mx P. pos_min_rel sv = Fin mn \<and> pos_max_rel sv = Fin mx \<and> position_wrap_period sv = Fin P \<and>
         mn < mx \<and> 0 < P \<and> mx - mn < P))"

lemma get_float_is_flt:
  assumes "get_float j = Some x"
  shows "is_flt binary32 x"
proof -
  have r: "is_flt binary32 (fround binary32 y)" for y by (rule is_flt_fround) (simp add: binary32_def)
  have "is_flt binary32 (narrow binary32 f)" for f using r by (cases f) (simp_all del: is_flt.simps(1))
  moreover have "is_flt binary32 (Fin 1)" by (simp add: flt_eval)
  ultimately show ?thesis using assms r is_flt_small(4)
    by (cases j) (auto simp: of_int_f_def simp del: is_flt.simps(1) split: if_splits)
qed

lemma float_field_is_flt: "get_field_value get_float j k v = (w, SUCCESS) \<Longrightarrow> is_flt binary32 w"
  by (auto simp: get_field_value_def get_float_is_flt split: option.splits)

lemma wrap_config_width:
  assumes "wrap_config_ok sv" "is_flt binary32 (position_wrap_period sv)"
  shows "\<exists>mn mx P. pos_min_rel sv = Fin mn \<and> pos_max_rel sv = Fin mx \<and> position_wrap_period sv = Fin P \<and>
    mn < mx \<and> 0 < P \<and> mx - mn < P"
proof -
  obtain mn mx P where v: "pos_min_rel sv = Fin mn" "pos_max_rel sv = Fin mx" "position_wrap_period sv = Fin P"
    using assms(1) unfolding wrap_config_ok_def by (metis isfinite.elims(2))
  have r: "\<not> flt_le (Fin P) (fround binary32 (mx - mn))" "mn < mx" "0 < P"
    using assms(1) by (simp_all add: wrap_config_ok_def v fsub_def)
  have "mx - mn < P"
  proof (rule ccontr)
    assume "\<not> mx - mn < P"
    then have "flt_le (fround binary32 P) (fround binary32 (mx - mn))" by (intro fround_mono) (simp_all add: binary32_def)
    then show False using r(1) fround_exact [of binary32 P] assms(2) by (simp add: v del: is_flt.simps)
  qed
  then show ?thesis using v r by blast
qed

lemma individual_limits_frame [simp]:
  "dir_invert (individual_limits cfg sv) = dir_invert sv"
  "position_wrap_period (individual_limits cfg sv) = position_wrap_period sv"
  by (simp_all add: individual_limits_def Let_def split: prod.split)

lemma individual_gains_frame [simp]:
  "dir_invert (individual_gains cfg sv) = dir_invert sv"
  "position_wrap_period (individual_gains cfg sv) = position_wrap_period sv"
  by (simp_all add: individual_gains_def)

lemma get_field_value_fail: "get_field_value get j k v = (w, rc) \<Longrightarrow> rc \<noteq> SUCCESS \<Longrightarrow> w = v"
  by (auto simp: get_field_value_def split: option.splits)

lemma individual_dir:
  assumes "get_field_value get_int cfg ''dir_invert'' 0 = (d, rc)" "\<not> (rc = SUCCESS \<and> d \<noteq> 1 \<and> d \<noteq> -1)"
    "dir_invert sv \<in> {1, -1}"
  shows "dir_invert (if rc = SUCCESS then sv\<lparr>dir_invert := d\<rparr> else sv) \<in> {1, -1}"
  using assms by auto

lemma init_config_individual_inv:
  assumes "dir_invert sv \<in> {1, -1}" "init_config_individual cfg sv = (sv', SUCCESS)"
  shows "servo_config_inv sv' \<and> \<not> position_wrap_initialized sv'"
proof -
  let ?s0 = "sv\<lparr>position_wrap_period := Fin 0, position_wrap_offset_rel := Fin 0, position_wrap_initialized := False\<rparr>"
  obtain d rc where d: "get_field_value get_int cfg ''dir_invert'' 0 = (d, rc)" by fastforce
  define s1 where "s1 = (if rc = SUCCESS then ?s0\<lparr>dir_invert := d\<rparr> else ?s0)"
  define s2 where "s2 = individual_limits cfg (individual_gains cfg s1)"
  define s3 where "s3 = s2\<lparr>zero_pos_abs := opt_field get_float cfg ''zero_pos'' (zero_pos_abs s2)\<rparr>"
  obtain w rw where w: "get_field_value get_float cfg ''position_wrap_period'' (position_wrap_period s3) = (w, rw)"
    by fastforce
  have ok: "\<not> (rc = SUCCESS \<and> d \<noteq> 1 \<and> d \<noteq> -1)"
    "\<not> (pos_min_configured s2 \<and> pos_max_configured s2 \<and> flt_lt (pos_max_rel s2) (pos_min_rel s2))"
    "\<not> (rw = SUCCESS \<and> \<not> wrap_config_ok (s3\<lparr>position_wrap_period := w\<rparr>))"
    "sv' = s3\<lparr>position_wrap_period := w,
       spring_home_pos_rel := opt_field get_float cfg ''spring_home_pos'' (spring_home_pos_rel s3),
       home_pos_rel := opt_field get_float cfg ''home_pos'' (home_pos_rel s3)\<rparr>"
    using assms(2) unfolding init_config_individual_def d Let_def prod.case s1_def [symmetric] s2_def [symmetric]
      s3_def [symmetric] w by (auto split: if_splits)
  have per: "position_wrap_period s3 = Fin 0" by (simp add: s3_def s2_def s1_def)
  have ini: "\<not> position_wrap_initialized s3"
    by (simp add: s3_def s2_def s1_def individual_limits_def individual_gains_def Let_def split: prod.split)
  have dir: "dir_invert s3 \<in> {1, -1}" using individual_dir [OF d ok(1), of ?s0] assms(1)
    by (simp add: s3_def s2_def s1_def)
  have "w = Fin 0" if "rw \<noteq> SUCCESS" using get_field_value_fail [OF w that] per by simp
  then have "flt_eq w (Fin 0) \<or> wrap_config_ok (s3\<lparr>position_wrap_period := w\<rparr>) \<and> is_flt binary32 w"
    using ok(3) float_field_is_flt [of cfg "''position_wrap_period''" "position_wrap_period s3" w] w
    by (cases "rw = SUCCESS") auto
  then have "flt_eq w (Fin 0) \<or> (\<exists>mn mx P. pos_min_rel s3 = Fin mn \<and> pos_max_rel s3 = Fin mx \<and> w = Fin P \<and>
      mn < mx \<and> 0 < P \<and> mx - mn < P)"
    using wrap_config_width [of "s3\<lparr>position_wrap_period := w\<rparr>"] by fastforce
  then show ?thesis using ok(2) dir ini
    unfolding ok(4) servo_config_inv_def by (simp add: s3_def)
qed

text \<open>The hook a derived class overrides: it may only choose the motor parameters.\<close>

locale current_estimation_hook =
  fixes init_ce :: "'a servo_scheme \<Rightarrow> 'a servo_scheme \<times> ReturnCode"
  assumes hook_dir: "dir_invert (fst (init_ce sv)) = dir_invert sv"
begin

lemma model_limits_dir: "dir_invert (fst (model_limits cfg sv)) = dir_invert sv"
  by (simp add: model_limits_def Let_def split: prod.split)

lemma model_config_dir:
  assumes "dir_invert sv \<in> {1, -1}" "init_config_model init_ce p cfg sv r = (sv', r', SUCCESS)"
  shows "dir_invert sv' \<in> {1, -1}"
proof -
  obtain i rc1 where 1: "get_field_value get_int cfg ''servo_id'' (id_of sv) = (i, rc1)" by fastforce
  obtain di rc2 where 2: "get_field_value get_int cfg ''data_index'' (data_index sv) = (di, rc2)" by fastforce
  obtain m rc3 where 3: "get_field_value get_string cfg ''servo_model'' (servo_model sv) = (m, rc3)" by fastforce
  let ?s = "model_gains cfg (sv\<lparr>id_of := i, data_index := di, servo_model := m\<rparr>)"
  have d: "dir_invert ?s = dir_invert sv" by (simp add: model_gains_def)
  obtain d rc4 where 4: "get_field_value get_int cfg ''dir_invert'' (dir_invert ?s) = (d, rc4)" by fastforce
  have dd: "rc4 = SUCCESS \<or> d = dir_invert sv" using get_field_value_fail [OF 4] d by auto
  let ?t = "?s\<lparr>dir_invert := d\<rparr>"
  obtain ap rc5 where 5: "(if j_contains cfg ''abs_position''
      then get_field_value get_bool cfg ''abs_position'' (abs_position ?t) else (abs_position ?t, SUCCESS)) = (ap, rc5)"
    by fastforce
  obtain t rc6 where 6: "model_limits cfg (?t\<lparr>abs_position := ap\<rparr>) = (t, rc6)" by fastforce
  have t: "dir_invert t = d" using arg_cong [OF 6, of "\<lambda>x. dir_invert (fst x)"] by (simp add: model_limits_dir)
  have "\<not> (rc4 = SUCCESS \<and> d \<noteq> 1 \<and> d \<noteq> -1) \<and> sv' = fst (init_ce t)"
    using assms(2) 5 6 unfolding init_config_model_def
    by (simp add: 1 2 3 4 Let_def split: prod.splits if_split_asm)
  then show ?thesis using dd assms(1) t by (auto simp: hook_dir)
qed

lemma configured_servo:
  assumes "dir_invert sv \<in> {1, -1}" "init_config_model init_ce p cfg sv r = (sv', r', SUCCESS)"
    "init_config_individual icfg sv' = (sv'', SUCCESS)"
  shows "servo_config_inv sv''"
  using init_config_individual_inv [OF model_config_dir [OF assms(1,2)] assms(3)] by blast

end

definition base_init_current_estimation :: "'a servo_scheme \<Rightarrow> 'a servo_scheme \<times> ReturnCode" where
  "base_init_current_estimation sv = (sv, SUCCESS)"

interpretation base_hook: current_estimation_hook base_init_current_estimation
  by unfold_locales (simp add: base_init_current_estimation_def)

section \<open>The factory and the registry\<close>

text \<open>What the factory relies on: initialising an object registers at most that object.\<close>

locale servo_factory =
  fixes init :: "ServoClass \<Rightarrow> nat \<Rightarrow> json \<Rightarrow> nat registry \<Rightarrow> 's \<times> nat registry \<times> ReturnCode"
  assumes init_registers: "registry_inv r \<Longrightarrow> init c a cfg r = (s, r', rc) \<Longrightarrow>
    registry_inv r' \<and> (\<forall>k p. find_servo r' k = Some p \<longrightarrow> p = a \<or> find_servo r k = Some p)"
begin

lemma destroy_all_clean:
  "registry_inv r \<Longrightarrow> registry_inv (destroy_all ps r) \<and>
     (\<forall>k p. find_servo (destroy_all ps r) k = Some p \<longrightarrow> p \<notin> set ps \<and> find_servo r k = Some p)"
  unfolding destroy_all_def
proof (induction ps arbitrary: r)
  case (Cons q ps)
  have "find_servo (unregister_servo q r) k = Some p \<Longrightarrow> p \<noteq> q \<and> find_servo r k = Some p" for k p
    using unregister_servo_find(1) [OF Cons.prems, of q k] by (auto split: if_splits)
  with Cons.IH [OF registry_inv_unregister [OF Cons.prems, of q]] show ?case by fastforce
qed simp

lemma loop_registry:
  assumes "registry_inv r" "\<forall>k p. find_servo r k = Some p \<longrightarrow> p < b \<or> p \<in> fst ` set acc"
    "new_servos_loop init cfgs a acc r = (news, r', rc)"
  shows "registry_inv r' \<and>
    (\<forall>k p. find_servo r' k = Some p \<longrightarrow> p < b \<or> rc = SUCCESS \<and> p \<in> fst ` set news)"
  using assms
proof (induction cfgs arbitrary: a acc r)
  case Nil
  then show ?case by auto
next
  case (Cons cfg cfgs)
  obtain m rc1 where m: "get_field_value get_string cfg ''servo_model'' [] = (m, rc1)" by fastforce
  note dest = destroy_all_clean [OF Cons.prems(1), of "map fst acc"]
  show ?case
  proof (cases "rc1 \<noteq> SUCCESS \<or> servo_class_of m = None")
    case True
    then have "r' = destroy_all (map fst acc) r" using Cons.prems(3) by (cases "rc1 = SUCCESS") (auto simp: m)
    then show ?thesis using dest Cons.prems(2) by (metis list.set_map)
  next
    case False
    then obtain c where c: "servo_class_of m = Some c" "rc1 = SUCCESS" by blast
    obtain s r1 rc2 where i: "init c a cfg r = (s, r1, rc2)" by (metis prod_cases3)
    note reg = init_registers [OF Cons.prems(1) i]
    show ?thesis
    proof (cases "rc2 = SUCCESS")
      case True
      have acc': "\<forall>k p. find_servo r1 k = Some p \<longrightarrow> p < b \<or> p \<in> fst ` set (acc @ [(a, s)])"
        using reg Cons.prems(2) by auto
      have "new_servos_loop init cfgs (a + 1) (acc @ [(a, s)]) r1 = (news, r', rc)"
        using Cons.prems(3) True c by (simp add: m i)
      then show ?thesis using Cons.IH [OF _ acc'] reg by blast
    next
      case rc2: False
      let ?u = "unregister_servo a r1"
      have u: "registry_inv ?u" using reg by (blast intro: registry_inv_unregister)
      have r': "r' = destroy_all (map fst acc) ?u" using Cons.prems(3) c rc2 by (simp add: m i)
      have find: "find_servo ?u k = Some p \<Longrightarrow> find_servo r k = Some p" for k p
        using reg by (auto simp: unregister_servo_find split: if_splits)
      show ?thesis using destroy_all_clean [OF u, of "map fst acc"] find Cons.prems(2) unfolding r' by fastforce
    qed
  qed
qed

lemma new_servos_registry:
  assumes "registry_inv r" "\<forall>k p. find_servo r k = Some p \<longrightarrow> p < a"
    "new_servos init cn dn joint_config servos a r = (servos', r', rc)"
  shows "registry_inv r' \<and> (\<forall>k p. find_servo r' k = Some p \<longrightarrow> p < a \<or> rc = SUCCESS \<and> p \<in> fst ` set servos') \<and>
    (rc \<noteq> SUCCESS \<longrightarrow> servos' = servos)"
proof (cases "cn \<or> dn \<or> (case j_field joint_config ''servos'' of None \<Rightarrow> True | Some l \<Rightarrow> j_elems l = [])")
  case True
  then show ?thesis using assms by (auto simp: new_servos_def split: if_splits option.splits)
next
  case False
  then obtain l where l: "\<not> cn" "\<not> dn" "j_field joint_config ''servos'' = Some l" "j_elems l \<noteq> []"
    by (auto split: option.splits)
  obtain news r1 rc1 where n: "new_servos_loop init (j_elems l) a [] r = (news, r1, rc1)" by (metis prod_cases3)
  have "\<forall>k p. find_servo r k = Some p \<longrightarrow> p < a \<or> p \<in> fst ` set ([] :: (nat \<times> 'a) list)" using assms(2) by auto
  note loop = loop_registry [OF assms(1) this n]
  have "servos' = (if rc1 \<noteq> SUCCESS then servos else servos @ news)" "r' = r1" "rc = rc1"
    using assms(3) l by (auto simp: new_servos_def n split: if_splits)
  then show ?thesis using loop by (simp add: image_Un) blast
qed

end

text \<open>\<open>Servo::init_config_model\<close> is such an initialisation, whatever the hook and the fresh object are.\<close>

lemma init_config_model_registry:
  "fst (snd (init_config_model init_ce p cfg sv r)) \<in> {r} \<union> range (\<lambda>(i, d). register_servo_data_index i d p r)"
proof -
  obtain i rc1 where 1: "get_field_value get_int cfg ''servo_id'' (id_of sv) = (i, rc1)" by fastforce
  obtain di rc2 where 2: "get_field_value get_int cfg ''data_index'' (data_index sv) = (di, rc2)" by fastforce
  have "fst (snd (init_config_model init_ce p cfg sv r)) =
      (if rc1 \<noteq> SUCCESS \<or> rc2 \<noteq> SUCCESS then r else register_servo_data_index i di p r)"
    unfolding init_config_model_def Let_def
    by (simp add: 1 2 case_prod_beta if_distrib [of fst] if_distrib [of snd] cong: if_cong)
  then show ?thesis by (auto simp: image_iff)
qed

interpretation model_factory: servo_factory "\<lambda>c a cfg r. init_config_model (ce c) a cfg (fresh c) r"
  for ce :: "ServoClass \<Rightarrow> 'a servo_scheme \<Rightarrow> 'a servo_scheme \<times> ReturnCode" and fresh :: "ServoClass \<Rightarrow> 'a servo_scheme"
proof unfold_locales
  fix r :: "nat registry" and c a cfg s r' rc
  assume "registry_inv r" "init_config_model (ce c) a cfg (fresh c) r = (s, r', rc)"
  moreover from this have "r' = r \<or> (\<exists>i d. r' = register_servo_data_index i d a r)"
    using init_config_model_registry [of "ce c" a cfg "fresh c" r] by auto
  ultimately show "registry_inv r' \<and> (\<forall>k p. find_servo r' k = Some p \<longrightarrow> p = a \<or> find_servo r k = Some p)"
    by (auto simp: registry_inv_register find_register split: if_splits)
qed

section \<open>Unwrapping over exact quotients\<close>

lemma turns_window:
  fixes P mn mx b :: real
  assumes "0 < P"
  shows "mn \<le> b + of_int k * P \<and> b + of_int k * P \<le> mx \<longleftrightarrow> \<lceil>(mn - b) / P\<rceil> \<le> k \<and> k \<le> \<lfloor>(mx - b) / P\<rfloor>"
  using assms by (auto simp: ceiling_le_iff le_floor_iff field_simps)

lemma turns_unique:
  fixes P mn mx b :: real
  assumes "0 < P" "mx - mn < P"
  shows "\<lfloor>(mx - b) / P\<rfloor> \<le> \<lceil>(mn - b) / P\<rceil>"
proof -
  have "(mx - b) / P < (mn - b) / P + 1" using assms by (simp add: field_simps)
  then show ?thesis by linarith
qed

section \<open>Properties\<close>

text \<open>C36: a servo that both configurations accept is safe to use. Its direction is 1 or -1 and its position
  limits, when both are configured, are not in the wrong order. A wrap period in use is positive and, as a real number,
  longer than the nonempty finite range, so that the startup unwrapping is never ambiguous: from no position do two different
  numbers of whole turns lead into the limits.\<close>

theorem configuration_establishes_limits:
  assumes "dir_invert sv \<in> {1, -1}"
    and "init_config_model base_init_current_estimation p cfg sv r = (sv', r', SUCCESS)"
    and "init_config_individual icfg sv' = (sv'', SUCCESS)"
  shows "dir_invert sv'' \<in> {1, -1} \<and>
    (pos_min_configured sv'' \<and> pos_max_configured sv'' \<longrightarrow> \<not> flt_lt (pos_max_rel sv'') (pos_min_rel sv'')) \<and>
    (flt_eq (position_wrap_period sv'') (Fin 0) \<or>
     (\<exists>mn mx P. pos_min_rel sv'' = Fin mn \<and> pos_max_rel sv'' = Fin mx \<and> position_wrap_period sv'' = Fin P \<and>
        mn < mx \<and> 0 < P \<and> mx - mn < P \<and>
        (\<forall>b (k::int) k'. b + of_int k * P \<in> {mn..mx} \<longrightarrow> b + of_int k' * P \<in> {mn..mx} \<longrightarrow> k = k')))"
proof -
  have one: "k = k'" if "0 < P" "mx - mn < P" "b + of_int k * P \<in> {mn..mx}" "b + of_int k' * P \<in> {mn..mx}"
    for P mn mx b :: real and k k' :: int
    using turns_unique [OF that(1,2), of b] turns_window [OF that(1), of mn b k mx] turns_window [OF that(1), of mn b k' mx]
      that(3,4) by simp
  have "servo_config_inv sv''" using assms by (rule base_hook.configured_servo)
  then show ?thesis unfolding servo_config_inv_def by (meson one)
qed

definition sample_model_cfg :: json where
  "sample_model_cfg = JObject [(''servo_id'', JInt 4), (''data_index'', JInt 3), (''servo_model'', JString ''DM J4310''),
     (''dir_invert'', JInt (-1)), (''pos_min'', JInt (-2)), (''pos_max'', JInt 3)]"

definition sample_individual_cfg :: json where
  "sample_individual_cfg = JObject [(''pos_max'', JInt 2), (''position_wrap_period'', JInt 8)]"

lemma of_int_f_eval: "of_int_f binary32 (-2) = Fin (-2)" "of_int_f binary32 3 = Fin 3"
  "of_int_f binary32 2 = Fin 2" "of_int_f binary32 8 = Fin 8" "fround binary32 4 = Fin 4"
  by (simp_all add: of_int_f_def flt_eval)

theorem configuration_establishes_limits_witness:
  "\<exists>sv' r' sv''. init_config_model base_init_current_estimation ''p'' sample_model_cfg
       (new_servo sample_servo False False) empty_registry = (sv', r', SUCCESS) \<and>
     init_config_individual sample_individual_cfg sv' = (sv'', SUCCESS) \<and>
     dir_invert sv'' = -1 \<and> position_wrap_period sv'' = Fin 8 \<and>
     (\<exists>mn mx. pos_min_rel sv'' = Fin mn \<and> pos_max_rel sv'' = Fin mx \<and> mx - mn < 8)"
proof -
  let ?sv = "new_servo sample_servo False False"
  have i: "int32 4 = 4" "int32 3 = 3" "int32 (-1) = -1" by (simp_all add: int32_def)
  obtain sv' r' where 1: "init_config_model base_init_current_estimation ''p'' sample_model_cfg ?sv empty_registry
      = (sv', r', SUCCESS)" and d: "dir_invert sv' = -1" and l: "pos_min_rel sv' = Fin (-2)"
      "pos_min_configured sv'"
    by (simp add: init_config_model_def sample_model_cfg_def get_field_value_def i Let_def model_gains_def
        opt_field_def model_limits_def base_init_current_estimation_def of_int_f_eval new_servo_def)
  obtain sv'' where 2: "init_config_individual sample_individual_cfg sv' = (sv'', SUCCESS)"
      "dir_invert sv'' = -1" "position_wrap_period sv'' = Fin 8"
    using d l by (simp add: init_config_individual_def sample_individual_cfg_def get_field_value_def Let_def
        individual_limits_def individual_gains_def opt_field_def wrap_config_ok_def of_int_f_eval fsub_def)
  have "dir_invert ?sv \<in> {1, -1}" by (simp add: new_servo_def sample_servo_def servo_data.extend_def)
  from configuration_establishes_limits [OF this 1 2(1)] have "\<exists>mn mx. pos_min_rel sv'' = Fin mn \<and> pos_max_rel sv'' = Fin mx \<and> mx - mn < 8"
    unfolding 2(3) by auto
  then show ?thesis using 1 2 by blast
qed

text \<open>the startup unwrapping picks the only possible turn. When the range is narrower than the period
  and the two quotients are exact in binary32, the unwrapping succeeds; if some whole number of turns
  brings the measured position into the limits, exactly one does and its offset is stored, and
  otherwise the offset is left alone.\<close>

theorem wrap_selects_the_turn:
  assumes "\<not> position_wrap_initialized sv" "position_wrap_period sv = Fin P" "0 < P"
    and "pos_min_rel sv = Fin mn" "pos_max_rel sv = Fin mx" "mx - mn < P"
    and "fmul binary32 (fsub binary32 (curr_pos_abs sv) (zero_pos_abs sv)) (of_int_f binary32 (dir_invert sv)) = Fin b"
    and "fdiv binary32 (fsub binary32 (Fin mn) (Fin b)) (Fin P) = Fin ((mn - b) / P)"
    and "fdiv binary32 (fsub binary32 (Fin mx) (Fin b)) (Fin P) = Fin ((mx - b) / P)"
  shows "let (sv', rc) = initialize_position_wrap sv; inside = (\<lambda>k::int. mn \<le> b + of_int k * P \<and> b + of_int k * P \<le> mx)
    in rc = SUCCESS \<and> position_wrap_initialized sv' \<and>
       (if \<exists>k. inside k
        then \<exists>!k. inside k \<and> position_wrap_offset_rel sv' = fmul binary32 (of_int_f binary32 k) (Fin P)
        else position_wrap_offset_rel sv' = position_wrap_offset_rel sv)"
proof -
  let ?lo = "\<lceil>(mn - b) / P\<rceil>" and ?hi = "\<lfloor>(mx - b) / P\<rfloor>"
  let ?inside = "\<lambda>k::int. mn \<le> b + of_int k * P \<and> b + of_int k * P \<le> mx"
  have ins: "?inside k \<longleftrightarrow> ?lo \<le> k \<and> k \<le> ?hi" for k by (rule turns_window [OF assms(3)])
  have le: "?hi \<le> ?lo" using turns_unique [OF assms(3,6)] .
  have "\<not> flt_le (position_wrap_period sv) (Fin 0)" using assms(2,3) by simp
  note run = initialize_position_wrap_def Let_def this assms(1,7,8,9)
  show ?thesis
  proof (cases "?hi < ?lo")
    case True
    then have no: "(\<exists>k. ?inside k) = False" using ins by (metis le_less_trans order.strict_trans2 not_less)
    have "initialize_position_wrap sv = (sv\<lparr>position_wrap_initialized := True\<rparr>, SUCCESS)"
      using True assms(2,3,4,5) by (simp add: run)
    then show ?thesis unfolding Let_def prod.case no if_False by simp
  next
    case False
    with le have eq: "?hi = ?lo" by simp
    then have one: "?inside k \<longleftrightarrow> k = ?lo" for k using ins by auto
    have "initialize_position_wrap sv = (sv\<lparr>position_wrap_initialized := True,
        position_wrap_offset_rel := fmul binary32 (of_int_f binary32 ?lo) (Fin P)\<rparr>, SUCCESS)"
      using eq assms(2,3,4,5) by (simp add: run of_int_f_def [symmetric])
    then show ?thesis using one by (simp add: Let_def) blast
  qed
qed

lemma wrap_sample_arith: "of_int_f binary32 1 = Fin 1" "fround binary32 (- 7) = Fin (- 7)"
  "fround binary32 5 = Fin 5" "fround binary32 9 = Fin 9" "fround binary32 (5/8) = Fin (5/8)"
  "fround binary32 (9/8) = Fin (9/8)" "fround binary32 8 = Fin 8"
  by (simp_all add: of_int_f_def flt_eval)

theorem wrap_selects_the_turn_witness:
  "let sv = (new_servo (sample_servo\<lparr>position_wrap_period := Fin 8, curr_pos_abs := Fin (- 7)\<rparr>) False False)
   in snd (initialize_position_wrap sv) = SUCCESS \<and>
      position_wrap_offset_rel (fst (initialize_position_wrap sv)) = Fin 8"
proof -
  let ?sv = "new_servo (sample_servo\<lparr>position_wrap_period := Fin 8, curr_pos_abs := Fin (- 7)\<rparr>) False False"
  note d = new_servo_def sample_servo_def servo_data.extend_def
  have h: "\<not> position_wrap_initialized ?sv" "position_wrap_period ?sv = Fin 8" "pos_min_rel ?sv = Fin (-2)"
    "pos_max_rel ?sv = Fin 2"
    "fmul binary32 (fsub binary32 (curr_pos_abs ?sv) (zero_pos_abs ?sv)) (of_int_f binary32 (dir_invert ?sv)) = Fin (- 7)"
    "fdiv binary32 (fsub binary32 (Fin (-2)) (Fin (- 7))) (Fin 8) = Fin ((- 2 - - 7) / 8)"
    "fdiv binary32 (fsub binary32 (Fin 2) (Fin (- 7))) (Fin 8) = Fin ((2 - - 7) / 8)"
    by (simp_all add: d fsub_def wrap_sample_arith)
  have one: "(5 \<le> real_of_int k * 8 \<and> real_of_int k * 8 \<le> 9) = (k = 1)" for k :: int
    by linarith
  from wrap_selects_the_turn [OF h(1,2) _ h(3,4) _ h(5,6,7)]
  have "let (sv', rc) = initialize_position_wrap ?sv in rc = SUCCESS \<and>
      (\<exists>!k. k = 1 \<and> position_wrap_offset_rel sv' = fmul binary32 (of_int_f binary32 k) (Fin 8))"
    by (simp add: one case_prod_beta Let_def)
  then show ?thesis by (auto simp: Let_def case_prod_beta wrap_sample_arith)
qed

text \<open>the unwrapping runs at most once. A second call changes nothing and reports success, also after
  a first call that reported ambiguous candidates.\<close>

theorem wrap_runs_once:
  "initialize_position_wrap (fst (initialize_position_wrap sv)) = (fst (initialize_position_wrap sv), SUCCESS)"
proof (cases "flt_le (position_wrap_period sv) (Fin 0) \<or> position_wrap_initialized sv")
  case True
  then show ?thesis by (simp add: initialize_position_wrap_def)
next
  case False
  then have "position_wrap_initialized (fst (initialize_position_wrap sv))"
    by (simp add: initialize_position_wrap_def Let_def)
  then show ?thesis by (simp add: initialize_position_wrap_def [of "fst (initialize_position_wrap sv)"])
qed

text \<open>a failed factory run leaves nothing behind. If creating the servos of a joint fails, the
  joint's servo list is unchanged and no id in the registry refers to any of the objects that were
  created; after a success every new registration is one of the joint's servos.\<close>

theorem factory_failure_is_clean:
  assumes "registry_inv r" "\<forall>k p. find_servo r k = Some p \<longrightarrow> p < a"
    and "new_servos (\<lambda>c a cfg r. init_config_model (ce c) a cfg (fresh c) r) cn dn joint_config servos a r
         = (servos', r', rc)"
  shows "registry_inv r' \<and> (\<forall>k p. find_servo r' k = Some p \<longrightarrow> p < a \<or> rc = SUCCESS \<and> p \<in> fst ` set servos') \<and>
    (rc \<noteq> SUCCESS \<longrightarrow> servos' = servos)"
  using assms by (rule model_factory.new_servos_registry)

theorem factory_failure_is_clean_witness:
  "let joint = JObject [(''servos'', JArray [sample_model_cfg, JObject [(''servo_model'', JString ''unknown'')]])];
       (svs, r, rc) = new_servos (\<lambda>c a cfg r. init_config_model base_init_current_estimation a cfg
          (new_servo sample_servo False False) r) False False joint [] 5 empty_registry
   in rc = NOT_SUPPORTED \<and> svs = [] \<and> (\<forall>k p. find_servo r k = Some p \<longrightarrow> p < 5)"
proof -
  let ?joint = "JObject [(''servos'', JArray [sample_model_cfg, JObject [(''servo_model'', JString ''unknown'')]])]"
  let ?init = "\<lambda>c a cfg r. init_config_model base_init_current_estimation a cfg (new_servo sample_servo False False) r"
  obtain svs r rc where n: "new_servos ?init False False ?joint [] 5 empty_registry = (svs, r, rc)"
    by (metis prod_cases3)
  have i: "int32 4 = 4" "int32 3 = 3" "int32 (-1) = -1" by (simp_all add: int32_def)
  have rc: "rc = NOT_SUPPORTED" using n
    by (simp add: new_servos_def sample_model_cfg_def servo_class_of_def init_config_model_def get_field_value_def i
        Let_def model_gains_def opt_field_def model_limits_def base_init_current_estimation_def of_int_f_eval
        split: prod.splits)
  have e: "\<forall>k p. find_servo (empty_registry :: nat registry) k = Some p \<longrightarrow> p < 5"
    by (simp add: find_servo_def empty_registry_def)
  from factory_failure_is_clean [OF registry_inv_empty e n] rc n show ?thesis by simp
qed

end
