(* ===== verification/Servo_Cycle.thy ===== *)
theory Servo_Cycle
  imports Servo
begin

text \<open>
  One read cycle of a servo, \<^verbatim>\<open>Servo::read_hardware_values\<close> of
  \<^verbatim>\<open>native/pi_control/src/pi_servo.cpp\<close>: the values of the previous cycle are kept, the driver
  delivers new ones, the DC current is estimated and five debounced safety checks run in a
  fixed order, each of which may end the cycle. The driver's virtual read is an argument
  (\<open>None\<close> for a null driver pointer); the locale \<open>value_reader\<close> says what a read may change.
\<close>

section \<open>Definitions\<close>

text \<open>A check returns the servo and, when it ends the cycle, the return code.\<close>

type_synonym 'a check = "'a servo_scheme \<Rightarrow> 'a servo_scheme \<times> ReturnCode option"

definition then_check :: "'a check \<Rightarrow> 'a check \<Rightarrow> 'a check" where
  "then_check f g sv = (case f sv of (sv', Some rc) \<Rightarrow> (sv', Some rc) | (sv', None) \<Rightarrow> g sv')"

definition manage :: "ReturnCode \<Rightarrow> 'a check" where
  "manage code sv = (let (m, rc) = graceful_management sv code (safe_mode sv) in (sv\<lparr>safe_mode := m\<rparr>, Some rc))"

definition leave :: "ReturnCode \<Rightarrow> 'a check" where
  "leave code sv = (sv\<lparr>safe_mode := fst (exit_safe_mode code (safe_mode sv))\<rparr>, None)"

definition check_temperature :: "'a check" where
  "check_temperature sv =
     (let (h, holding) = is_holding (checker_temperature_exceed sv) (flt_lt (Fin 93) (temperature sv));
          sv = sv\<lparr>checker_temperature_exceed := h\<rparr>
      in if holding then (sv, Some SAFE_MODE_TEMPERATURE)
         else if \<not> is_behind_more_than_tolerable_threshold sv then leave SAFE_MODE_TEMPERATURE sv
         else (sv, None))"

definition pos_out_of_limits :: "'a servo_scheme \<Rightarrow> bool" where
  "pos_out_of_limits sv =
     (flt_lt (get_pos_rad_relative sv) (fsub binary32 (pos_min_rel sv) (get_pos_error_margin sv)) \<or>
      flt_lt (fadd binary32 (pos_max_rel sv) (get_pos_error_margin sv)) (get_pos_rad_relative sv))"

definition check_pos_exceed :: "'a check" where
  "check_pos_exceed sv =
     (if dev_mode (p_device sv) = MODE_NORMAL
      then (let (h, holding) = is_holding (checker_pos_exceed sv) (pos_out_of_limits sv);
                sv = sv\<lparr>checker_pos_exceed := h\<rparr>
            in if holding then manage SAFE_MODE_POS_EXCEED sv else leave SAFE_MODE_POS_EXCEED sv)
      else (sv, None))"

definition check_pos_behind :: "'a check" where
  "check_pos_behind sv =
     (if dev_type (p_device sv) = ARM \<and> dev_role (p_device sv) = FOLLOWER \<and> dev_mode (p_device sv) = MODE_NORMAL \<and>
         dev_msg_type (p_device sv) = JOINT_INFO \<and> \<not> dev_in_move_to_ready (p_device sv)
      then (let (h, holding) = is_holding (checker_pos_difference_exceed sv) (is_behind_more_than_max_threshold sv);
                sv = sv\<lparr>checker_pos_difference_exceed := h\<rparr>
            in if holding then manage SAFE_MODE_POS_BEHIND sv else leave SAFE_MODE_POS_BEHIND sv)
      else (sv, None))"

definition check_vel :: "'a check" where
  "check_vel sv =
     (let (h, holding) = is_holding (checker_vel_exceed sv) (flt_lt (Fin 30) (fabs (curr_vel sv)));
          sv = sv\<lparr>checker_vel_exceed := h\<rparr>
      in if holding then manage SAFE_MODE_VEL sv else leave SAFE_MODE_VEL sv)"

definition check_tor :: "'a check" where
  "check_tor sv =
     (let (h, holding) = is_holding (checker_tor_exceed sv) (flt_lt (get_tor_max sv) (fabs (curr_tor sv)));
          sv = sv\<lparr>checker_tor_exceed := h\<rparr>
      in if holding
         then (if \<not> is_torque_mode_enabled (safe_mode sv)
               then (sv\<lparr>torque_mode_disabled_warning_active := True\<rparr>, None)
               else manage SAFE_MODE_TOR sv)
         else (let sv = sv\<lparr>torque_mode_disabled_warning_active := False\<rparr>
               in if \<not> is_behind_more_than_tolerable_threshold sv then leave SAFE_MODE_TOR sv else (sv, None)))"

definition safety_checks :: "'a check" where
  "safety_checks =
     then_check check_temperature (then_check check_pos_exceed (then_check check_pos_behind
       (then_check check_vel check_tor)))"

definition keep_previous :: "'a servo_scheme \<Rightarrow> 'a servo_scheme" where
  "keep_previous sv =
     sv\<lparr>prev_vel := curr_vel sv, prev_tor := curr_tor sv, pre_pos_abs := curr_pos_abs sv,
        prev_pos := get_pos_rad_relative sv\<rparr>"

definition estimate_current :: "'a servo_scheme \<Rightarrow> 'a servo_scheme" where
  "estimate_current sv =
     sv\<lparr>idc_current := estimate_idc_calibrated (current_estimation sv) (motor_params_current_estimation sv)
          (curr_tor sv) (curr_vel sv) (temperature sv) (Fin 24) (get_tor_max sv) True
          (Fin 0) (Fin 0) (Fin 0) (Fin 0) (Fin 0)\<rparr>"

definition read_hardware_values ::
  "('a servo_scheme \<Rightarrow> 'a servo_scheme \<times> ReturnCode) option \<Rightarrow> 'a servo_scheme \<Rightarrow> 'a servo_scheme \<times> ReturnCode" where
  "read_hardware_values p_driver sv =
     (let sv = keep_previous sv in
      case p_driver of
        None \<Rightarrow> (sv, NOT_INITIALIZED)
      | Some rd \<Rightarrow>
          (let (sv, rc) = rd sv
           in if rc \<noteq> SUCCESS then (sv, rc)
              else if dev_read_only (p_device sv) then (sv, SUCCESS)
              else (case safety_checks (estimate_current sv) of
                      (sv, Some rc') \<Rightarrow> (sv, rc')
                    | (sv, None) \<Rightarrow> (sv, SUCCESS))))"

section \<open>Lemmas\<close>

lemma keep_previous_frame [simp]:
  "checker_temperature_exceed (keep_previous sv) = checker_temperature_exceed sv"
  "safe_mode (keep_previous sv) = safe_mode sv" "p_device (keep_previous sv) = p_device sv"
  by (simp_all add: keep_previous_def)

lemma estimate_current_frame [simp]:
  "checker_temperature_exceed (estimate_current sv) = checker_temperature_exceed sv"
  "checker_pos_exceed (estimate_current sv) = checker_pos_exceed sv"
  "checker_vel_exceed (estimate_current sv) = checker_vel_exceed sv"
  "checker_tor_exceed (estimate_current sv) = checker_tor_exceed sv"
  "safe_mode (estimate_current sv) = safe_mode sv" "p_device (estimate_current sv) = p_device sv"
  "temperature (estimate_current sv) = temperature sv"
  by (simp_all add: estimate_current_def)

lemmas check_defs = manage_def leave_def check_temperature_def check_pos_exceed_def check_pos_behind_def
  check_vel_def check_tor_def

lemma then_check_fst:
  "P (fst (f sv)) \<Longrightarrow> (\<And>s. P s \<Longrightarrow> P (fst (g s))) \<Longrightarrow> P (fst (then_check f g sv))"
  by (auto simp: then_check_def split: prod.split option.split)

text \<open>Only the temperature check moves the temperature checker.\<close>

lemma later_checks_temperature_checker:
  "checker_temperature_exceed (fst (check_pos_exceed sv)) = checker_temperature_exceed sv"
  "checker_temperature_exceed (fst (check_pos_behind sv)) = checker_temperature_exceed sv"
  "checker_temperature_exceed (fst (check_vel sv)) = checker_temperature_exceed sv"
  "checker_temperature_exceed (fst (check_tor sv)) = checker_temperature_exceed sv"
  by (simp_all add: check_defs Let_def split: prod.split)

lemma check_temperature_checker:
  "checker_temperature_exceed (fst (check_temperature sv)) =
     hold_step (checker_temperature_exceed sv) (flt_lt (Fin 93) (temperature sv))"
  "snd (check_temperature sv) =
     (if holding_status (hold_step (checker_temperature_exceed sv) (flt_lt (Fin 93) (temperature sv)))
      then Some SAFE_MODE_TEMPERATURE else None)"
  by (simp_all add: check_defs Let_def hold_step_def case_prod_beta)

lemma safety_checks_temperature:
  "checker_temperature_exceed (fst (safety_checks sv)) =
     hold_step (checker_temperature_exceed sv) (flt_lt (Fin 93) (temperature sv))"
proof -
  let ?h = "hold_step (checker_temperature_exceed sv) (flt_lt (Fin 93) (temperature sv))"
  let ?P = "\<lambda>s :: 'a servo_scheme. checker_temperature_exceed s = ?h"
  have "?P (fst (safety_checks sv))"
    unfolding safety_checks_def
    by (intro then_check_fst [where P = ?P]) (simp_all add: check_temperature_checker later_checks_temperature_checker)
  then show ?thesis .
qed

text \<open>No check sets the temperature flag of the safe mode.\<close>

lemma graceful_temperature_flag:
  "code \<noteq> SAFE_MODE_TEMPERATURE \<Longrightarrow> is_temperature (fst (graceful_management sv code m)) = is_temperature m"
  by (cases code) (simp_all add: gm_defs)

lemma exit_temperature_flag: "is_temperature (fst (exit_safe_mode code m)) \<Longrightarrow> is_temperature m"
  by (cases code) (auto simp: exit_safe_mode_def split: if_splits)

lemma manage_temperature_flag:
  "code \<noteq> SAFE_MODE_TEMPERATURE \<Longrightarrow> is_temperature (safe_mode (fst (manage code sv))) = is_temperature (safe_mode sv)"
  by (simp add: manage_def graceful_temperature_flag case_prod_beta Let_def)

lemma leave_temperature_flag: "is_temperature (safe_mode (fst (leave code sv))) \<Longrightarrow> is_temperature (safe_mode sv)"
  by (auto simp: leave_def dest: exit_temperature_flag)

lemma checks_temperature_flag:
  "\<not> is_temperature (safe_mode sv) \<Longrightarrow> \<not> is_temperature (safe_mode (fst (check_temperature sv)))"
  "\<not> is_temperature (safe_mode sv) \<Longrightarrow> \<not> is_temperature (safe_mode (fst (check_pos_exceed sv)))"
  "\<not> is_temperature (safe_mode sv) \<Longrightarrow> \<not> is_temperature (safe_mode (fst (check_pos_behind sv)))"
  "\<not> is_temperature (safe_mode sv) \<Longrightarrow> \<not> is_temperature (safe_mode (fst (check_vel sv)))"
  "\<not> is_temperature (safe_mode sv) \<Longrightarrow> \<not> is_temperature (safe_mode (fst (check_tor sv)))"
  by (auto simp: check_temperature_def check_pos_exceed_def check_pos_behind_def check_vel_def check_tor_def Let_def
      manage_temperature_flag split: prod.splits if_splits dest!: leave_temperature_flag)

lemma safety_checks_temperature_flag:
  "\<not> is_temperature (safe_mode sv) \<Longrightarrow> \<not> is_temperature (safe_mode (fst (safety_checks sv)))"
  unfolding safety_checks_def
  by (intro then_check_fst [where P = "\<lambda>s. \<not> is_temperature (safe_mode s)"]) (simp_all add: checks_temperature_flag)

lemma read_hardware_values_checked:
  assumes "rd (keep_previous sv) = (sv1, SUCCESS)" "\<not> dev_read_only (p_device sv1)"
  shows "read_hardware_values (Some rd) sv =
    (fst (safety_checks (estimate_current sv1)),
     case snd (safety_checks (estimate_current sv1)) of Some rc \<Rightarrow> rc | None \<Rightarrow> SUCCESS)"
  using assms by (simp add: read_hardware_values_def Let_def split: prod.split option.split)

lemma safety_checks_hot:
  assumes "holding_status (hold_step (checker_temperature_exceed sv) (flt_lt (Fin 93) (temperature sv)))"
  shows "safety_checks sv =
    (sv\<lparr>checker_temperature_exceed := hold_step (checker_temperature_exceed sv) (flt_lt (Fin 93) (temperature sv))\<rparr>,
     Some SAFE_MODE_TEMPERATURE)"
  using assms unfolding safety_checks_def then_check_def [of check_temperature]
  by (simp add: check_temperature_def case_prod_beta Let_def hold_step_def)

section \<open>Sequences of cycles\<close>

text \<open>A cycle that reads a temperature above the force-stop threshold, and a run of such cycles.\<close>

definition hot_cycle ::
  "('a servo_scheme \<Rightarrow> 'a servo_scheme \<times> ReturnCode) \<Rightarrow> 'a servo_scheme \<Rightarrow> bool" where
  "hot_cycle rd sv =
     (snd (rd (keep_previous sv)) = SUCCESS \<and> flt_lt (Fin 93) (temperature (fst (rd (keep_previous sv)))))"

primrec hot_run :: "('i \<Rightarrow> 'a servo_scheme \<Rightarrow> 'a servo_scheme \<times> ReturnCode) \<Rightarrow> 'a servo_scheme \<Rightarrow> 'i list \<Rightarrow> bool" where
  "hot_run rd sv [] = True"
| "hot_run rd sv (i # is) =
     (hot_cycle (rd i) sv \<and> hot_run rd (fst (read_hardware_values (Some (rd i)) sv)) is)"

definition cycles ::
  "('i \<Rightarrow> 'a servo_scheme \<Rightarrow> 'a servo_scheme \<times> ReturnCode) \<Rightarrow> 'a servo_scheme \<Rightarrow> 'i list \<Rightarrow> 'a servo_scheme" where
  "cycles rd = foldl (\<lambda>sv i. fst (read_hardware_values (Some (rd i)) sv))"

text \<open>What a driver's read may touch: neither the safety state nor the device.\<close>

locale value_reader =
  fixes rd :: "'i \<Rightarrow> 'a servo_scheme \<Rightarrow> 'a servo_scheme \<times> ReturnCode"
  assumes rd_checker: "checker_temperature_exceed (fst (rd i sv)) = checker_temperature_exceed sv"
    and rd_safe_mode: "safe_mode (fst (rd i sv)) = safe_mode sv"
    and rd_device: "p_device (fst (rd i sv)) = p_device sv"
begin

lemma cycle_device: "p_device (fst (read_hardware_values (Some (rd i)) sv)) = p_device sv"
proof -
  have c: "p_device (fst (safety_checks s)) = p_device s" for s :: "'a servo_scheme"
    unfolding safety_checks_def
    by (intro then_check_fst [where P = "\<lambda>t. p_device t = p_device s"])
      (simp_all add: check_defs Let_def split: prod.split)
  obtain sv1 rc where r: "rd i (keep_previous sv) = (sv1, rc)" by fastforce
  have d: "p_device sv1 = p_device sv" using rd_device [of i "keep_previous sv"] r by simp
  show ?thesis using d c [of "estimate_current sv1"] unfolding read_hardware_values_def
    by (auto simp: r Let_def split: prod.split option.split)
qed

lemma cycle_flag:
  assumes "\<not> is_temperature (safe_mode sv)"
  shows "\<not> is_temperature (safe_mode (fst (read_hardware_values (Some (rd i)) sv)))"
proof -
  obtain sv1 rc where r: "rd i (keep_previous sv) = (sv1, rc)" by fastforce
  have d: "\<not> is_temperature (safe_mode (estimate_current sv1))"
    using rd_safe_mode [of i "keep_previous sv"] r assms by simp
  show ?thesis using d safety_checks_temperature_flag [OF d] unfolding read_hardware_values_def
    by (auto simp: r Let_def split: prod.split option.split)
qed

lemma cycles_flag: "\<not> is_temperature (safe_mode sv) \<Longrightarrow> \<not> is_temperature (safe_mode (cycles rd sv is))"
  unfolding cycles_def by (induction "is" arbitrary: sv) (simp_all add: cycle_flag)

lemma hot_cycle_step:
  assumes "hot_cycle (rd i) sv" "\<not> dev_read_only (p_device sv)"
  shows "checker_temperature_exceed (fst (read_hardware_values (Some (rd i)) sv)) =
      hold_step (checker_temperature_exceed sv) True"
    and "holding_status (hold_step (checker_temperature_exceed sv) True) \<Longrightarrow>
      snd (read_hardware_values (Some (rd i)) sv) = SAFE_MODE_TEMPERATURE"
proof -
  obtain sv1 where r: "rd i (keep_previous sv) = (sv1, SUCCESS)" and t: "flt_lt (Fin 93) (temperature sv1)"
    using assms(1) by (metis hot_cycle_def prod.collapse)
  have c: "checker_temperature_exceed sv1 = checker_temperature_exceed sv" "p_device sv1 = p_device sv"
    using rd_checker [of i "keep_previous sv"] rd_device [of i "keep_previous sv"] r by simp_all
  note run = read_hardware_values_checked [of "rd i" sv sv1, OF r]
  show "checker_temperature_exceed (fst (read_hardware_values (Some (rd i)) sv)) =
      hold_step (checker_temperature_exceed sv) True"
    using assms(2) c t by (simp add: run safety_checks_temperature)
  show "snd (read_hardware_values (Some (rd i)) sv) = SAFE_MODE_TEMPERATURE"
    if "holding_status (hold_step (checker_temperature_exceed sv) True)"
    using assms(2) c t that safety_checks_hot [of "estimate_current sv1"] by (simp add: run)
qed

lemma hot_run_checker:
  assumes "hot_run rd sv is" "\<not> dev_read_only (p_device sv)"
  shows "checker_temperature_exceed (cycles rd sv is) =
    hold_run (checker_temperature_exceed sv) (replicate (length is) True) \<and>
    \<not> dev_read_only (p_device (cycles rd sv is))"
  using assms
proof (induction "is" arbitrary: sv)
  case Nil
  then show ?case by (simp add: cycles_def hold_run_def)
next
  case (Cons i "is")
  then show ?case
    using hot_cycle_step(1) [of i sv] cycle_device [of i sv] by (simp add: cycles_def hold_run_def)
qed

text \<open>From a fresh checker, the hundredth hot cycle and every later one ends with the temperature stop.\<close>

lemma hot_run_stops:
  assumes "hot_run rd sv (is @ [i])" "\<not> dev_read_only (p_device sv)"
    and "checker_temperature_exceed sv = new_hold_checker MAX_CNT_TEMPERATURE_EXCEED"
    and "99 \<le> length is"
  shows "snd (read_hardware_values (Some (rd i)) (cycles rd sv is)) = SAFE_MODE_TEMPERATURE"
proof -
  have split: "hot_run rd sv is \<and> hot_cycle (rd i) (cycles rd sv is)"
    using assms(1) by (induction "is" arbitrary: sv) (simp_all add: cycles_def)
  note chk = hot_run_checker [OF conjunct1 [OF split] assms(2)]
  have "hold_step (checker_temperature_exceed (cycles rd sv is)) True =
      hold_run (new_hold_checker 100) (replicate (Suc (length is)) True)"
    using chk assms(3) by (simp add: hold_run_replicate_Suc MAX_CNT_TEMPERATURE_EXCEED_def del: replicate_Suc)
  moreover have "holding_status (hold_run (new_hold_checker 100) (replicate (Suc (length is)) True))"
    using hold_run_holds [of 100 "Suc (length is)"] assms(4) by (simp del: replicate_Suc)
  ultimately show ?thesis using hot_cycle_step(2) [OF conjunct2 [OF split]] chk by simp
qed

end

section \<open>Properties\<close>

text \<open>the temperature stop cannot be masked. In a cycle whose reading succeeds and whose temperature
  checker holds, the cycle returns \<open>SAFE_MODE_TEMPERATURE\<close> whatever position, velocity and torque are,
  and no other checker and no part of the safe mode changes.\<close>

theorem temperature_stop_comes_first:
  assumes "rd (keep_previous sv) = (sv1, SUCCESS)" "\<not> dev_read_only (p_device sv1)"
    and "holding_status (hold_step (checker_temperature_exceed sv1) (flt_lt (Fin 93) (temperature sv1)))"
  shows "let (sv', rc) = read_hardware_values (Some rd) sv
    in rc = SAFE_MODE_TEMPERATURE \<and> checker_pos_exceed sv' = checker_pos_exceed sv1 \<and>
       checker_vel_exceed sv' = checker_vel_exceed sv1 \<and> checker_tor_exceed sv' = checker_tor_exceed sv1 \<and>
       safe_mode sv' = safe_mode sv1"
  using assms safety_checks_hot [of "estimate_current sv1"]
  by (simp add: read_hardware_values_checked)

definition hot_servo :: servo where
  "hot_servo = (new_servo (sample_servo\<lparr>temperature := Fin 95, curr_vel := Fin 99\<rparr>) False False)
     \<lparr>checker_temperature_exceed := \<lparr>hold_count = 99, exit_count = 0, holding_status = False, hold_count_threshold = 100\<rparr>\<rparr>"

theorem temperature_stop_comes_first_witness:
  "snd (read_hardware_values (Some (\<lambda>sv. (sv, SUCCESS))) hot_servo) = SAFE_MODE_TEMPERATURE"
proof -
  have "\<not> dev_read_only (p_device (keep_previous hot_servo))"
    by (simp add: hot_servo_def new_servo_def sample_servo_def servo_data.extend_def)
  moreover have "holding_status (hold_step (checker_temperature_exceed (keep_previous hot_servo))
      (flt_lt (Fin 93) (temperature (keep_previous hot_servo))))"
    by (simp add: hot_servo_def new_servo_def sample_servo_def servo_data.extend_def keep_previous_def hold_defs)
  ultimately show ?thesis
    using temperature_stop_comes_first [of "\<lambda>sv. (sv, SUCCESS)" hot_servo "keep_previous hot_servo"]
    by (simp add: Let_def case_prod_beta)
qed

text \<open>what a position-limit stop hides. While the position-exceed checker holds in normal mode with
  the safe mode enabled and no temperature stop, the cycle reports success, the exceed flag is set, and
  neither the velocity nor the torque checker sees the sample.\<close>

theorem exceed_hides_velocity_and_torque:
  assumes "rd (keep_previous sv) = (sv1, SUCCESS)" "\<not> dev_read_only (p_device sv1)"
    and "\<not> holding_status (hold_step (checker_temperature_exceed sv1) (flt_lt (Fin 93) (temperature sv1)))"
    and "dev_mode (p_device sv1) = MODE_NORMAL" "is_safe_mode_enabled (safe_mode sv1)"
    and "holding_status (hold_step (checker_pos_exceed sv1) (pos_out_of_limits sv1))"
  shows "let (sv', rc) = read_hardware_values (Some rd) sv
    in rc = SUCCESS \<and> is_pos_exceed (safe_mode sv') \<and>
       checker_vel_exceed sv' = checker_vel_exceed sv1 \<and> checker_tor_exceed sv' = checker_tor_exceed sv1"
proof -
  define s where "s = estimate_current sv1"
  define t where "t = fst (check_temperature s)"
  have sd: "pos_out_of_limits s = pos_out_of_limits sv1"
    by (simp add: s_def pos_out_of_limits_def estimate_current_def get_pos_rad_relative_def rel_of_abs_def
        get_pos_error_margin_def)
  have ct: "check_temperature s = (t, None)"
    using assms(3) check_temperature_checker(2) [of s] by (simp add: t_def s_def prod_eq_iff)
  have tf: "checker_pos_exceed t = checker_pos_exceed sv1" "p_device t = p_device sv1"
    "checker_vel_exceed t = checker_vel_exceed sv1" "checker_tor_exceed t = checker_tor_exceed sv1"
    "is_safe_mode_enabled (safe_mode t)" "pos_out_of_limits t = pos_out_of_limits s"
    using assms(5) unfolding t_def s_def check_temperature_def leave_def exit_safe_mode_def Let_def
    by (simp_all add: case_prod_beta pos_out_of_limits_def get_pos_rad_relative_def rel_of_abs_def get_pos_error_margin_def)
  have cp: "check_pos_exceed t = manage SAFE_MODE_POS_EXCEED
      (t\<lparr>checker_pos_exceed := hold_step (checker_pos_exceed t) (pos_out_of_limits t)\<rparr>)"
    using assms(4,6) tf sd by (simp add: check_pos_exceed_def Let_def case_prod_beta hold_step_def)
  have "safety_checks s = manage SAFE_MODE_POS_EXCEED
      (t\<lparr>checker_pos_exceed := hold_step (checker_pos_exceed t) (pos_out_of_limits t)\<rparr>)"
    unfolding safety_checks_def then_check_def ct prod.case option.case cp by (simp add: manage_def Let_def case_prod_beta)
  then show ?thesis
    unfolding read_hardware_values_checked [of rd sv sv1, OF assms(1,2)] s_def [symmetric] using tf
    by (simp add: manage_def gm_defs)
qed

lemma fround32_two: "fround binary32 2 = Fin 2"
  by (simp add: flt_eval)

definition exceeding_servo :: servo where
  "exceeding_servo = (new_servo (sample_servo\<lparr>curr_pos_abs := Fin 5, curr_vel := Fin 99\<rparr>) False False)
     \<lparr>checker_pos_exceed := \<lparr>hold_count = 99, exit_count = 0, holding_status = False, hold_count_threshold = 100\<rparr>\<rparr>"

theorem exceed_hides_velocity_and_torque_witness:
  "let (sv', rc) = read_hardware_values (Some (\<lambda>sv. (sv, SUCCESS))) exceeding_servo
   in rc = SUCCESS \<and> is_pos_exceed (safe_mode sv') \<and> hold_count (checker_vel_exceed sv') = 0"
proof -
  let ?s = "keep_previous exceeding_servo"
  note d = exceeding_servo_def new_servo_def sample_servo_def servo_data.extend_def keep_previous_def
  have "pos_out_of_limits ?s"
    by (simp add: pos_out_of_limits_def d get_pos_rad_relative_def rel_of_abs_def get_pos_error_margin_def
        of_int_dir fsub_def wrap_sample_arith of_int_f_eval fround32_two)
  then have h: "\<not> dev_read_only (p_device ?s)"
    "\<not> holding_status (hold_step (checker_temperature_exceed ?s) (flt_lt (Fin 93) (temperature ?s)))"
    "dev_mode (p_device ?s) = MODE_NORMAL" "is_safe_mode_enabled (safe_mode ?s)"
    "holding_status (hold_step (checker_pos_exceed ?s) (pos_out_of_limits ?s))" "hold_count (checker_vel_exceed ?s) = 0"
    by (simp_all add: d hold_defs new_hold_checker_def new_safe_mode_def MAX_CNT_TEMPERATURE_EXCEED_def)
  show ?thesis using exceed_hides_velocity_and_torque [OF _ h(1-5), of "\<lambda>sv. (sv, SUCCESS)" exceeding_servo] h(6)
    by (simp add: Let_def case_prod_beta)
qed

end
