(* ===== verification/Can_Lifecycle.thy ===== *)
theory Can_Lifecycle
  imports Pi_Prelude
begin

text \<open>
  The life cycle of the CAN socket and its reception thread, \<^verbatim>\<open>native/pi_control/src/pi_driver_can.cpp\<close>,
  as a step relation over any number of client threads and successive reception threads. A
  step is one critical section under \<^verbatim>\<open>lifecycle_mutex_\<close>: a client that has to join a
  reception thread releases the mutex inside \<^verbatim>\<open>join_reception_thread_locked\<close> and resumes in a
  later step, one that finds a join in progress waits and then runs its loop again. The
  reception thread leaves its loop in one step and ends, clearing \<^verbatim>\<open>is_running_\<close>, in another;
  from its callback it may itself call stop, close or start.
\<close>

section \<open>State\<close>

text \<open>What a client does after the join it waits for.\<close>

datatype goal = GStop | GClose | GStart

text \<open>Where a client thread is: outside the driver, waiting for another's join, or joining.\<close>

datatype pc = Outside | Waiting goal | Joining goal nat

record 'c lifecycle =
  sock_open :: bool
  is_running :: bool
  reception_thread :: "nat option"
  reception_thread_id :: "nat option"
  reception_join_in_progress :: bool
  live :: "nat set"
  leaving :: "nat set"
  next_tid :: nat
  pc_of :: "'c \<Rightarrow> pc"

definition lifecycle_init :: "'c lifecycle" where
  "lifecycle_init = \<lparr>sock_open = False, is_running = False, reception_thread = None, reception_thread_id = None,
     reception_join_in_progress = False, live = {}, leaving = {}, next_tid = 0, pc_of = (\<lambda>_. Outside)\<rparr>"

section \<open>Operations\<close>

text \<open>\<^verbatim>\<open>join_reception_thread_locked\<close> up to the unlock: the handle moves into the joining client.\<close>

definition begin_join :: "'c \<Rightarrow> goal \<Rightarrow> nat \<Rightarrow> 'c lifecycle \<Rightarrow> 'c lifecycle" where
  "begin_join c g w s = s\<lparr>reception_join_in_progress := True, reception_thread := None,
     pc_of := (pc_of s)(c := Joining g w)\<rparr>"

text \<open>The end of \<^verbatim>\<open>join_reception_thread_locked\<close> after the worker has ended.\<close>

definition end_join :: "'c lifecycle \<Rightarrow> 'c lifecycle" where
  "end_join s = s\<lparr>reception_join_in_progress := False, reception_thread_id := None\<rparr>"

definition close_socket :: "'c lifecycle \<Rightarrow> 'c lifecycle" where
  "close_socket s = s\<lparr>sock_open := False\<rparr>"

text \<open>What follows \<^verbatim>\<open>stop_reception_locked\<close> in the caller.\<close>

fun after_stop :: "goal \<Rightarrow> 'c lifecycle \<Rightarrow> 'c lifecycle" where
  "after_stop GClose s = close_socket s"
| "after_stop _ s = s"

text \<open>\<^verbatim>\<open>stop_reception_locked\<close> (for \<open>GStop\<close> and \<open>GClose\<close>) by a client that is not the reception thread.\<close>

definition stop_reception_locked :: "'c \<Rightarrow> goal \<Rightarrow> 'c lifecycle \<Rightarrow> 'c lifecycle" where
  "stop_reception_locked c g s =
     (let s = s\<lparr>is_running := False\<rparr>
      in if reception_join_in_progress s then s\<lparr>pc_of := (pc_of s)(c := Waiting g)\<rparr>
         else case reception_thread s of
           Some w \<Rightarrow> begin_join c g w s
         | None \<Rightarrow> after_stop g (s\<lparr>pc_of := (pc_of s)(c := Outside)\<rparr>))"

text \<open>The loop of \<^verbatim>\<open>start_reception\<close> by such a client.\<close>

definition spawn :: "'c lifecycle \<Rightarrow> 'c lifecycle" where
  "spawn s = s\<lparr>is_running := True, reception_thread := Some (next_tid s), reception_thread_id := Some (next_tid s),
     live := insert (next_tid s) (live s), next_tid := next_tid s + 1\<rparr>"

definition start_reception :: "'c \<Rightarrow> 'c lifecycle \<Rightarrow> 'c lifecycle" where
  "start_reception c s =
     (let out = s\<lparr>pc_of := (pc_of s)(c := Outside)\<rparr>
      in if is_running s then out
         else if reception_join_in_progress s then s\<lparr>pc_of := (pc_of s)(c := Waiting GStart)\<rparr>
         else case reception_thread s of
           Some w \<Rightarrow> begin_join c GStart w s
         | None \<Rightarrow> (if sock_open s then spawn out else out))"

text \<open>The three entry points by goal, and the resumption after the caller's own join.\<close>

fun enter :: "'c \<Rightarrow> goal \<Rightarrow> 'c lifecycle \<Rightarrow> 'c lifecycle" where
  "enter c GStart s = start_reception c s"
| "enter c g s = stop_reception_locked c g s"

fun resume :: "'c \<Rightarrow> goal \<Rightarrow> 'c lifecycle \<Rightarrow> 'c lifecycle" where
  "resume c GStart s = start_reception c (end_join s)"
| "resume c g s = after_stop g ((end_join s)\<lparr>pc_of := (pc_of s)(c := Outside)\<rparr>)"

inductive can_step :: "'c lifecycle \<Rightarrow> 'c lifecycle \<Rightarrow> bool" where
  open_socket: "pc_of s c = Outside \<Longrightarrow> \<not> reception_join_in_progress s \<Longrightarrow> can_step s (s\<lparr>sock_open := True\<rparr>)"
| call: "pc_of s c = Outside \<Longrightarrow> can_step s (enter c g s)"
| wake: "pc_of s c = Waiting g \<Longrightarrow> \<not> reception_join_in_progress s \<Longrightarrow> can_step s (enter c g s)"
| joined: "pc_of s c = Joining g w \<Longrightarrow> w \<notin> live s \<Longrightarrow> can_step s (resume c g s)"
| self_open: "w \<in> live s \<Longrightarrow> \<not> reception_join_in_progress s \<Longrightarrow> can_step s (s\<lparr>sock_open := True\<rparr>)"
| self_stop: "w \<in> live s \<Longrightarrow> reception_thread_id s = Some w \<Longrightarrow> can_step s (s\<lparr>is_running := False\<rparr>)"
| self_close: "w \<in> live s \<Longrightarrow> reception_thread_id s = Some w \<Longrightarrow>
    can_step s (close_socket (s\<lparr>is_running := False\<rparr>))"
| leave_loop: "w \<in> live s \<Longrightarrow> can_step s (s\<lparr>leaving := insert w (leaving s)\<rparr>)"
| worker_end: "w \<in> live s \<Longrightarrow> w \<in> leaving s \<Longrightarrow>
    can_step s (s\<lparr>live := live s - {w}, leaving := leaving s - {w}, is_running := False\<rparr>)"

inductive can_reachable :: "'c lifecycle \<Rightarrow> bool" where
  start: "can_reachable lifecycle_init"
| step: "can_reachable s \<Longrightarrow> can_step s t \<Longrightarrow> can_reachable t"

section \<open>Invariant\<close>

text \<open>
  Without a join in progress the only live thread is the one behind the handle; during a join
  exactly one client joins, it holds the handle of the only thread that may be live, and no
  thread is running. The recorded thread id is the live thread's.
\<close>

definition sole_joiner :: "'c lifecycle \<Rightarrow> 'c \<Rightarrow> goal \<Rightarrow> nat \<Rightarrow> bool" where
  "sole_joiner s c g w \<longleftrightarrow> pc_of s c = Joining g w \<and> live s \<subseteq> {w} \<and>
     (\<forall>c' g' w'. pc_of s c' = Joining g' w' \<longrightarrow> c' = c)"

definition lifecycle_inv :: "'c lifecycle \<Rightarrow> bool" where
  "lifecycle_inv s \<longleftrightarrow>
     (if reception_join_in_progress s then reception_thread s = None \<and> (\<exists>c g w. sole_joiner s c g w)
      else live s \<subseteq> set_option (reception_thread s) \<and> (\<forall>c g w. pc_of s c \<noteq> Joining g w)) \<and>
     (\<forall>w \<in> live s. reception_thread_id s = Some w \<and> w < next_tid s)"

lemma lifecycle_inv_no_join:
  "\<not> reception_join_in_progress s \<Longrightarrow> lifecycle_inv s \<longleftrightarrow>
     live s \<subseteq> set_option (reception_thread s) \<and> (\<forall>c g w. pc_of s c \<noteq> Joining g w) \<and>
     (\<forall>w \<in> live s. reception_thread_id s = Some w \<and> w < next_tid s)"
  by (auto simp: lifecycle_inv_def)

lemma live_thread_id: "lifecycle_inv s \<Longrightarrow> w \<in> live s \<Longrightarrow> reception_thread_id s = Some w"
  by (simp add: lifecycle_inv_def)

lemma lifecycle_inv_init: "lifecycle_inv lifecycle_init"
  by (simp add: lifecycle_inv_def lifecycle_init_def)

lemma inv_begin_join:
  assumes "lifecycle_inv s" "\<not> reception_join_in_progress s" "reception_thread s = Some w"
  shows "lifecycle_inv (begin_join c g w s)"
proof -
  have "sole_joiner (begin_join c g w s) c g w"
    using assms by (auto simp: lifecycle_inv_no_join sole_joiner_def begin_join_def)
  then have "\<exists>c' g' w'. sole_joiner (begin_join c g w s) c' g' w'" by blast
  then show ?thesis using assms(1,2) by (simp add: lifecycle_inv_def begin_join_def)
qed

text \<open>Fields the invariant does not read, and fewer live threads.\<close>

lemma inv_live_mono:
  assumes "lifecycle_inv s" "L \<subseteq> live s"
  shows "lifecycle_inv (s\<lparr>live := L, leaving := X, is_running := b\<rparr>)"
proof (cases "reception_join_in_progress s")
  case True
  then obtain c g w where "sole_joiner s c g w" and n: "reception_thread s = None"
    using assms(1) by (auto simp: lifecycle_inv_def)
  then have "sole_joiner (s\<lparr>live := L, leaving := X, is_running := b\<rparr>) c g w"
    using assms(2) by (auto simp: sole_joiner_def)
  then have "\<exists>c g w. sole_joiner (s\<lparr>live := L, leaving := X, is_running := b\<rparr>) c g w" by blast
  then show ?thesis using assms True n by (auto simp: lifecycle_inv_def)
next
  case False
  then show ?thesis using assms by (auto simp: lifecycle_inv_def)
qed

lemma sole_joiner_frame [simp]:
  "sole_joiner (s\<lparr>is_running := b\<rparr>) = sole_joiner s" "sole_joiner (s\<lparr>sock_open := b\<rparr>) = sole_joiner s"
  "sole_joiner (s\<lparr>leaving := X\<rparr>) = sole_joiner s"
  by (intro ext, simp add: sole_joiner_def)+

lemma inv_set_flag:
  "lifecycle_inv (s\<lparr>is_running := b\<rparr>) = lifecycle_inv s" "lifecycle_inv (s\<lparr>sock_open := b\<rparr>) = lifecycle_inv s"
  "lifecycle_inv (s\<lparr>leaving := X\<rparr>) = lifecycle_inv s"
  by (simp_all add: lifecycle_inv_def)

lemma inv_after_stop: "lifecycle_inv (after_stop g s) = lifecycle_inv s"
  by (cases g) (simp_all add: close_socket_def inv_set_flag)

lemma inv_pc:
  assumes "lifecycle_inv s" "\<forall>g w. pc_of s c \<noteq> Joining g w" "\<forall>g w. p \<noteq> Joining g w"
  shows "lifecycle_inv (s\<lparr>pc_of := (pc_of s)(c := p)\<rparr>)"
proof (cases "reception_join_in_progress s")
  case True
  then obtain c1 g w where j: "sole_joiner s c1 g w" and n: "reception_thread s = None"
    using assms(1) by (auto simp: lifecycle_inv_def)
  have "c1 \<noteq> c" using j assms(2) by (auto simp: sole_joiner_def)
  then have "sole_joiner (s\<lparr>pc_of := (pc_of s)(c := p)\<rparr>) c1 g w"
    using j assms(3) by (auto simp: sole_joiner_def)
  then have "\<exists>c' g w. sole_joiner (s\<lparr>pc_of := (pc_of s)(c := p)\<rparr>) c' g w" by blast
  then show ?thesis using assms(1) True n by (simp add: lifecycle_inv_def)
next
  case False
  then show ?thesis using assms by (auto simp: lifecycle_inv_def)
qed

lemma inv_stop:
  assumes "lifecycle_inv s" "\<forall>g w. pc_of s c \<noteq> Joining g w"
  shows "lifecycle_inv (stop_reception_locked c g s)"
proof -
  let ?s = "s\<lparr>is_running := False\<rparr>"
  have s: "lifecycle_inv ?s" "\<forall>g w. pc_of ?s c \<noteq> Joining g w" using assms by (simp_all add: inv_set_flag)
  show ?thesis
    using inv_begin_join [OF s(1)] inv_pc [OF s, of "Waiting g"] inv_pc [OF s, of Outside]
    by (auto simp: stop_reception_locked_def Let_def inv_after_stop split: option.split)
qed

lemma inv_spawn:
  assumes "lifecycle_inv s" "\<not> reception_join_in_progress s" "reception_thread s = None"
  shows "lifecycle_inv (spawn s)"
  using assms by (auto simp: lifecycle_inv_def spawn_def)

lemma inv_start:
  assumes "lifecycle_inv s" "\<forall>g w. pc_of s c \<noteq> Joining g w"
  shows "lifecycle_inv (start_reception c s)"
  using inv_begin_join [OF assms(1)] inv_pc [OF assms, of "Waiting GStart"] inv_pc [OF assms, of Outside]
    inv_spawn [of "s\<lparr>pc_of := (pc_of s)(c := Outside)\<rparr>"]
  by (auto simp: start_reception_def Let_def split: option.split)

lemma inv_enter:
  "lifecycle_inv s \<Longrightarrow> \<forall>g w. pc_of s c \<noteq> Joining g w \<Longrightarrow> lifecycle_inv (enter c g s)"
  by (cases g) (simp_all add: inv_start inv_stop)

text \<open>When the joined worker has ended, nothing is live and the handle is gone.\<close>

lemma join_done:
  assumes "lifecycle_inv s" "pc_of s c = Joining g w" "w \<notin> live s"
  shows "live s = {}" "reception_thread s = None" "\<forall>c' g' w'. pc_of s c' = Joining g' w' \<longrightarrow> c' = c"
proof -
  have f: "reception_join_in_progress s" using assms lifecycle_inv_no_join [of s] by blast
  then obtain c1 g1 w1 where j: "sole_joiner s c1 g1 w1" and n: "reception_thread s = None"
    using assms(1) by (auto simp: lifecycle_inv_def)
  have "c = c1" using j assms(2) by (auto simp: sole_joiner_def)
  with j assms(2,3) show "live s = {}" "\<forall>c' g' w'. pc_of s c' = Joining g' w' \<longrightarrow> c' = c"
    by (auto simp: sole_joiner_def)
  show "reception_thread s = None" by (rule n)
qed

lemma inv_joined:
  assumes "lifecycle_inv s" "pc_of s c = Joining g w" "w \<notin> live s"
  shows "lifecycle_inv (resume c g s)"
proof -
  note d = join_done [OF assms]
  let ?t = "(end_join s)\<lparr>pc_of := (pc_of s)(c := Outside)\<rparr>"
  have "\<forall>c' g' w'. pc_of ?t c' \<noteq> Joining g' w'" using d(3) by auto
  then have t: "lifecycle_inv ?t" using d(1,2) by (simp add: lifecycle_inv_no_join end_join_def)
  have "start_reception c (end_join s) = start_reception c ?t"
    using d(2) by (simp add: start_reception_def Let_def end_join_def)
  moreover have "lifecycle_inv (start_reception c ?t)" by (rule inv_start [OF t]) simp
  ultimately show ?thesis using t by (cases g) (simp_all add: close_socket_def inv_set_flag)
qed

lemma lifecycle_inv_step: "can_step s t \<Longrightarrow> lifecycle_inv s \<Longrightarrow> lifecycle_inv t"
proof (induction rule: can_step.induct)
  case (call s c g)
  then show ?case by (intro inv_enter) auto
next
  case (wake s c g)
  then show ?case by (intro inv_enter) auto
next
  case (joined s c g w)
  then show ?case by (intro inv_joined)
next
  case (worker_end w s)
  then show ?case by (intro inv_live_mono) auto
qed (simp_all add: close_socket_def inv_set_flag)

lemma can_reachable_inv: "can_reachable s \<Longrightarrow> lifecycle_inv s"
  by (induction rule: can_reachable.induct) (auto intro: lifecycle_inv_init lifecycle_inv_step)

section \<open>Properties\<close>

text \<open>C39: there is never more than one reception thread. In every reachable interleaving of opening,
  closing, starting and stopping by any number of clients and by the callback itself, at most one
  reception thread is live, and the recorded thread id is that thread's.\<close>

theorem one_reception_thread:
  assumes "can_reachable s" "v \<in> live s" "w \<in> live s"
  shows "v = w \<and> reception_thread_id s = Some w"
proof -
  have "lifecycle_inv s" using assms(1) by (rule can_reachable_inv)
  then have "reception_thread_id s = Some v" "reception_thread_id s = Some w"
    using assms(2,3) by (blast intro: live_thread_id)+
  then show ?thesis by simp
qed

lemma reachable_running:
  "\<exists>s :: unit lifecycle. can_reachable s \<and> live s = {0} \<and> reception_thread s = Some 0 \<and> \<not> reception_join_in_progress s \<and>
     pc_of s () = Outside \<and> sock_open s"
proof -
  let ?s1 = "(lifecycle_init :: unit lifecycle)\<lparr>sock_open := True\<rparr>"
  have 1: "can_reachable ?s1"
    by (rule can_reachable.step [OF can_reachable.start], rule can_step.open_socket [where c = "()"])
      (simp_all add: lifecycle_init_def)
  have "can_reachable (enter () GStart ?s1)"
    by (rule can_reachable.step [OF 1], rule can_step.call) (simp add: lifecycle_init_def)
  moreover have "enter () GStart ?s1 = spawn ?s1"
    by (simp add: start_reception_def lifecycle_init_def Let_def fun_eq_iff spawn_def)
  ultimately show ?thesis
    by (intro exI [of _ "spawn ?s1"]) (simp add: spawn_def lifecycle_init_def)
qed

theorem one_reception_thread_witness:
  "\<exists>s :: unit lifecycle. can_reachable s \<and> 0 \<in> live s \<and> reception_thread_id s = Some 0"
  using reachable_running one_reception_thread [of _ 0 0] by blast

text \<open>stopping really stops. When a client's stop or close that had to join returns, no reception
  thread is live, no handle and no thread id is left, and after a close the socket is closed; so a thread
  that ends late cannot clear the running flag of its successor.\<close>

theorem stop_leaves_no_thread:
  assumes "can_reachable s" "pc_of s c = Joining g w" "w \<notin> live s" "g \<noteq> GStart"
  shows "live (resume c g s) = {} \<and> reception_thread (resume c g s) = None \<and>
    reception_thread_id (resume c g s) = None \<and> \<not> reception_join_in_progress (resume c g s) \<and>
    (g = GClose \<longrightarrow> \<not> sock_open (resume c g s))"
  using join_done [OF can_reachable_inv [OF assms(1)] assms(2,3)] assms(4)
  by (cases g) (simp_all add: end_join_def close_socket_def)

theorem stop_leaves_no_thread_witness:
  "\<exists>s :: unit lifecycle. can_reachable s \<and> pc_of s () = Joining GClose 0 \<and>
     live (resume () GClose s) = {} \<and> \<not> sock_open (resume () GClose s)"
proof -
  obtain s :: "unit lifecycle" where s: "can_reachable s" "live s = {0}" "reception_thread s = Some 0"
      "\<not> reception_join_in_progress s" "pc_of s () = Outside"
    using reachable_running by blast
  let ?s1 = "enter () GClose s"
  have e1: "?s1 = begin_join () GClose 0 (s\<lparr>is_running := False\<rparr>)"
    using s by (simp add: stop_reception_locked_def Let_def)
  have 1: "can_reachable ?s1" by (rule can_reachable.step [OF s(1)], rule can_step.call, rule s(5))
  let ?s2 = "?s1\<lparr>leaving := insert 0 (leaving ?s1)\<rparr>"
  have l1: "0 \<in> live ?s1" using s(2) unfolding e1 by (simp add: begin_join_def)
  have 2: "can_reachable ?s2" by (rule can_reachable.step [OF 1], rule can_step.leave_loop, rule l1)
  let ?s3 = "?s2\<lparr>live := live ?s2 - {0}, leaving := leaving ?s2 - {0}, is_running := False\<rparr>"
  have 3: "can_reachable ?s3"
    by (rule can_reachable.step [OF 2], rule can_step.worker_end) (use l1 in simp_all)
  have p: "pc_of ?s3 () = Joining GClose 0" unfolding e1 by (simp add: begin_join_def)
  from stop_leaves_no_thread [OF 3 p] 3 p show ?thesis by (intro exI [of _ ?s3]) simp
qed

text \<open>a reception thread is only started while no other is live: whenever a client's start creates a
  thread, no reception thread was live before and the socket was open.\<close>

theorem start_needs_quiet_bus:
  assumes "can_reachable s" "\<forall>g w. pc_of s c \<noteq> Joining g w" "live (start_reception c s) \<noteq> live s"
  shows "live s = {} \<and> sock_open s \<and> live (start_reception c s) = {next_tid s}"
proof -
  have inv: "lifecycle_inv s" using assms(1) by (rule can_reachable_inv)
  have "\<not> reception_join_in_progress s" "reception_thread s = None" "sock_open s" "\<not> is_running s"
    using assms(3) by (auto simp: start_reception_def Let_def begin_join_def split: if_splits option.splits)
  then show ?thesis using inv by (simp add: lifecycle_inv_no_join start_reception_def spawn_def)
qed

theorem start_needs_quiet_bus_witness:
  "let s = (lifecycle_init :: unit lifecycle)\<lparr>sock_open := True\<rparr>
   in can_reachable s \<and> live (start_reception () s) = {0}"
proof -
  let ?s = "(lifecycle_init :: unit lifecycle)\<lparr>sock_open := True\<rparr>"
  have r: "can_reachable ?s"
    by (rule can_reachable.step [OF can_reachable.start], rule can_step.open_socket [where c = "()"])
      (simp_all add: lifecycle_init_def)
  have "live (start_reception () ?s) \<noteq> live ?s" "\<forall>g w. pc_of ?s () \<noteq> Joining g w"
    by (simp_all add: start_reception_def lifecycle_init_def Let_def spawn_def)
  then have "live (start_reception () ?s) = {next_tid ?s}" using start_needs_quiet_bus [OF r] by blast
  then show ?thesis using r by (simp add: Let_def lifecycle_init_def)
qed

end
