(* ===== verification/Can_Bus.thy ===== *)
theory Can_Bus
  imports Pi_Prelude
begin

text \<open>
  Synchronous CAN traffic as the drivers see it: \<^verbatim>\<open>send_frame\<close> and \<^verbatim>\<open>read_frame\<close> of
  \<^verbatim>\<open>native/pi_control/src/pi_driver_can.cpp\<close>. What \<^verbatim>\<open>select\<close>, \<^verbatim>\<open>recvmsg\<close> and \<^verbatim>\<open>write\<close> deliver is a
  script in the state, one entry per call with the microseconds the call took; past the end of the
  script every read times out after its 5 ms and every write succeeds. The state also has
  the clock, the frames sent so far and whether the reception thread runs.
\<close>

section \<open>Frames and the environment\<close>

record can_frame =
  can_id :: u32
  can_dlc :: nat
  data :: "u8 list"

definition zero_frame :: can_frame where
  "zero_frame = \<lparr>can_id = 0, can_dlc = 0, data = replicate 8 0\<rparr>"

text \<open>The payload always has its 8 bytes.\<close>

definition frame_ok :: "can_frame \<Rightarrow> bool" where
  "frame_ok f \<longleftrightarrow> length (data f) = 8"

datatype read_event =
    SelInterrupted
  | SelError
  | SelTimeout
  | RecvError
  | RecvTruncated
  | RecvShort
  | RecvFrame can_frame

datatype write_event = WInterrupted | WSelError | WTimeout | WError | WDone

record bus =
  sock :: bool
  reads :: "(nat \<times> read_event) list"
  writes :: "(nat \<times> write_event) list"
  tx :: "can_frame list"
  now :: nat
  rx_running :: bool

definition kReadTimeoutUs :: nat where "kReadTimeoutUs = 5000"
definition kWriteTimeoutUs :: nat where "kWriteTimeoutUs = 5000"

section \<open>Operations\<close>

definition usleep :: "nat \<Rightarrow> 'a bus_scheme \<Rightarrow> 'a bus_scheme" where
  "usleep us b = b\<lparr>now := now b + us\<rparr>"

definition is_socket_open :: "'a bus_scheme \<Rightarrow> bool" where
  "is_socket_open b = sock b"

text \<open>The read outcome: the frame is present exactly when the code is \<open>SUCCESS\<close>.\<close>

fun read_code :: "read_event \<Rightarrow> ReturnCode \<times> can_frame option" where
  "read_code SelInterrupted = (NO_RESPONSE, None)"
| "read_code SelError = (FAIL, None)"
| "read_code SelTimeout = (NO_RESPONSE, None)"
| "read_code RecvError = (FAIL, None)"
| "read_code RecvTruncated = (FAIL, None)"
| "read_code RecvShort = (FAIL, None)"
| "read_code (RecvFrame f) = (SUCCESS, Some f)"

definition read_frame :: "'a bus_scheme \<Rightarrow> 'a bus_scheme \<times> ReturnCode \<times> can_frame option" where
  "read_frame b =
     (if \<not> sock b then (b, FAIL, None)
      else case reads b of
        [] \<Rightarrow> (b\<lparr>now := now b + kReadTimeoutUs\<rparr>, NO_RESPONSE, None)
      | (dt, ev) # rs \<Rightarrow> (b\<lparr>reads := rs, now := now b + dt\<rparr>, read_code ev))"

fun write_code :: "write_event \<Rightarrow> ReturnCode" where
  "write_code WInterrupted = BUSY"
| "write_code WSelError = FAIL"
| "write_code WTimeout = BUSY"
| "write_code WError = FAIL"
| "write_code WDone = SUCCESS"

definition send_frame :: "can_frame \<Rightarrow> 'a bus_scheme \<Rightarrow> 'a bus_scheme \<times> ReturnCode" where
  "send_frame f b =
     (if \<not> sock b then (b, FAIL)
      else
        let (dt, ev, ws) = (case writes b of [] \<Rightarrow> (0, WDone, []) | (dt, ev) # ws \<Rightarrow> (dt, ev, ws));
            b = b\<lparr>writes := ws, now := now b + dt\<rparr>
        in if write_code ev = SUCCESS then (usleep 100 (b\<lparr>tx := tx b @ [f]\<rparr>), SUCCESS) else (b, write_code ev))"

text \<open>The thread life cycle seen from the transaction: \<open>Can_Lifecycle\<close> has the concurrent model.\<close>

definition stop_rx :: "'a bus_scheme \<Rightarrow> 'a bus_scheme" where
  "stop_rx b = b\<lparr>rx_running := False\<rparr>"

definition start_rx :: "'a bus_scheme \<Rightarrow> 'a bus_scheme \<times> ReturnCode" where
  "start_rx b = (if rx_running b then (b, SUCCESS) else if \<not> sock b then (b, FAIL) else (b\<lparr>rx_running := True\<rparr>, SUCCESS))"

text \<open>
  \<^verbatim>\<open>open\<close> and \<^verbatim>\<open>close\<close> of the driver, outside a join: what \<^verbatim>\<open>socket\<close>, \<^verbatim>\<open>ioctl\<close> and \<^verbatim>\<open>bind\<close> answer is an
  argument; a failure after the socket exists closes it.
\<close>

record open_env =
  socket_ok :: bool
  ioctl_ok :: bool
  bind_ok :: bool

definition can_close :: "'a bus_scheme \<Rightarrow> 'a bus_scheme \<times> ReturnCode" where
  "can_close b = ((stop_rx b)\<lparr>sock := False\<rparr>, SUCCESS)"

definition can_open :: "open_env \<Rightarrow> 'a bus_scheme \<Rightarrow> 'a bus_scheme \<times> ReturnCode" where
  "can_open e b =
     (if sock b then (b, SUCCESS)
      else if \<not> socket_ok e then (b, FAIL)
      else let b = b\<lparr>sock := True\<rparr>
           in if \<not> ioctl_ok e then (fst (can_close b), FAIL)
              else if \<not> bind_ok e then (fst (can_close b), FAIL)
              else (b, SUCCESS))"

section \<open>The contract of a timed source\<close>

text \<open>
  What a loop with a deadline needs of the read it polls: the clock never goes back, and a call
  either uses up a scripted event or advances the clock.
\<close>

locale timed_source =
  fixes pull :: "'s \<Rightarrow> 's \<times> 'r" and budget :: "'s \<Rightarrow> nat" and clock :: "'s \<Rightarrow> nat" and active :: "'s \<Rightarrow> bool"
  assumes clock_mono: "pull s = (s', r) \<Longrightarrow> clock s \<le> clock s'"
    and progress: "active s \<Longrightarrow> pull s = (s', r) \<Longrightarrow> budget s' < budget s \<or> budget s' = budget s \<and> clock s < clock s'"
begin

text \<open>The measure under which a polling loop with deadline \<open>d\<close> ends.\<close>

lemma poll_decreases:
  assumes "active s" "clock s < d" "pull s = (s', r)"
  shows "budget s' < budget s \<or> budget s' = budget s \<and> d - clock s' < d - clock s"
  using progress [OF assms(1,3)] assms(2) by auto

end

section \<open>Lemmas\<close>

lemma read_frame_frame:
  "read_frame b = (b', r) \<Longrightarrow> sock b' = sock b \<and> tx b' = tx b \<and> writes b' = writes b \<and> rx_running b' = rx_running b"
  by (auto simp: read_frame_def split: if_splits list.splits)

lemma read_frame_some: "read_frame b = (b', rc, fo) \<Longrightarrow> (rc = SUCCESS \<longleftrightarrow> fo \<noteq> None)"
proof -
  have "read_code ev = (rc', fo') \<Longrightarrow> (rc' = SUCCESS \<longleftrightarrow> fo' \<noteq> None)" for ev rc' fo' by (cases ev) auto
  then show "read_frame b = (b', rc, fo) \<Longrightarrow> (rc = SUCCESS \<longleftrightarrow> fo \<noteq> None)"
    by (auto simp: read_frame_def split: if_splits list.splits)
qed

interpretation can_bus: timed_source read_frame "\<lambda>b. length (reads b)" now sock
  by unfold_locales (auto simp: read_frame_def kReadTimeoutUs_def split: if_splits list.splits)

lemma send_frame_result:
  "send_frame f b = (b', rc) \<Longrightarrow> \<exists>ws t. now b \<le> t \<and>
     b' = b\<lparr>writes := ws, tx := (if rc = SUCCESS then tx b @ [f] else tx b), now := t\<rparr>"
proof (cases "sock b")
  case True
  assume s: "send_frame f b = (b', rc)"
  obtain dt ev ws where w: "(case writes b of [] \<Rightarrow> (0, WDone, []) | (dt, ev) # ws \<Rightarrow> (dt, ev, ws)) = (dt, ev, ws)"
    by (metis prod_cases3)
  show ?thesis
  proof (cases "write_code ev = SUCCESS")
    case True
    with s \<open>sock b\<close> have "b' = b\<lparr>writes := ws, tx := tx b @ [f], now := now b + dt + 100\<rparr>" "rc = SUCCESS"
      by (auto simp: send_frame_def w usleep_def)
    then show ?thesis by (intro exI [of _ ws] exI [of _ "now b + dt + 100"]) simp
  next
    case False
    with s \<open>sock b\<close> have "b' = b\<lparr>writes := ws, now := now b + dt\<rparr>" "rc \<noteq> SUCCESS"
      by (auto simp: send_frame_def w usleep_def)
    then show ?thesis by (intro exI [of _ ws] exI [of _ "now b + dt"]) simp
  qed
next
  case False
  assume "send_frame f b = (b', rc)"
  with False have "b' = b" "rc \<noteq> SUCCESS" by (auto simp: send_frame_def)
  then show ?thesis by (intro exI [of _ "writes b"] exI [of _ "now b"]) simp
qed

lemma send_frame_tx:
  "send_frame f b = (b', rc) \<Longrightarrow> tx b' = (if rc = SUCCESS then tx b @ [f] else tx b)"
  by (drule send_frame_result) auto

lemma send_frame_frame:
  "send_frame f b = (b', rc) \<Longrightarrow> sock b' = sock b \<and> reads b' = reads b \<and> rx_running b' = rx_running b \<and> now b \<le> now b'"
  by (drule send_frame_result) auto

lemma send_frame_ok:
  "sock b \<Longrightarrow> writes b = [] \<Longrightarrow> send_frame f b = (b\<lparr>tx := tx b @ [f], now := now b + 100\<rparr>, SUCCESS)"
  by (simp add: send_frame_def usleep_def)

section \<open>Traffic of an operation\<close>

text \<open>
  What the drivers' transactions have in common: socket and thread flag stay as they are, the clock does not go
  back, the frames sent so far are kept and at most \<open>n\<close> new ones, all in \<open>P\<close>, are appended, and the
  script is used from the front.
\<close>

definition traffic :: "(can_frame \<Rightarrow> bool) \<Rightarrow> nat \<Rightarrow> 'a bus_scheme \<Rightarrow> 'a bus_scheme \<Rightarrow> bool" where
  "traffic P n b b' \<longleftrightarrow> sock b' = sock b \<and> rx_running b' = rx_running b \<and> now b \<le> now b' \<and>
     (\<exists>new. tx b' = tx b @ new \<and> length new \<le> n \<and> (\<forall>f \<in> set new. P f)) \<and> (\<exists>used. reads b = used @ reads b')"

lemma traffic_refl: "traffic P n b b"
  by (simp add: traffic_def)

lemma traffic_trans:
  assumes "traffic P n b b'" "traffic P k b' b''"
  shows "traffic P (n + k) b b''"
proof -
  obtain new new' where "tx b'' = tx b @ (new @ new')" "length (new @ new') \<le> n + k" "\<forall>f \<in> set (new @ new'). P f"
    using assms by (fastforce simp: traffic_def)
  moreover obtain used used' where "reads b = (used @ used') @ reads b''" using assms by (auto simp: traffic_def)
  moreover have "sock b'' = sock b" "rx_running b'' = rx_running b" "now b \<le> now b''" using assms by (auto simp: traffic_def)
  ultimately show ?thesis unfolding traffic_def by blast
qed

lemma traffic_mono: "traffic P n b b' \<Longrightarrow> (\<And>f. P f \<Longrightarrow> Q f) \<Longrightarrow> n \<le> k \<Longrightarrow> traffic Q k b b'"
  by (fastforce simp: traffic_def)

lemma traffic_send: "P f \<Longrightarrow> traffic P 1 b (fst (send_frame f b))"
proof -
  assume "P f"
  obtain b' rc where s: "send_frame f b = (b', rc)" by fastforce
  show ?thesis using \<open>P f\<close> send_frame_frame [OF s] send_frame_tx [OF s] by (simp add: s traffic_def)
qed

lemma traffic_read: "traffic P 0 b (fst (read_frame b))"
  by (auto simp: traffic_def read_frame_def split: list.split)

lemma traffic_usleep: "traffic P 0 b (usleep us b)"
  by (simp add: traffic_def usleep_def)

lemma traffic_set_rx: "traffic P n b b' \<Longrightarrow> traffic P n (b\<lparr>rx_running := x\<rparr>) (b'\<lparr>rx_running := x\<rparr>)"
  by (simp add: traffic_def)

lemma traffic_fields: "traffic P n b b' \<Longrightarrow> sock b' = sock b \<and> rx_running b' = rx_running b"
  by (simp add: traffic_def)

end
