(* ===== verification/Servo_Dm_Codec.thy ===== *)
theory Servo_Dm_Codec
  imports Math_Ops Servo_Dm_Status Can_Bus Servo_State
begin

text \<open>
  The CAN codec of the DM and ENCOS servos: the static frame builders and parsers of
  \<^verbatim>\<open>native/pi_control/src/pi_servo_dm.cpp\<close>. A function that looks a servo up in the registry takes
  the lookup as an argument: \<open>par id\<close> is the parameter block of the registered DM servo, \<open>None\<close> when
  there is none. A command whose value cannot be converted to an integer (undefined in C++) is
  \<open>None\<close> instead of a frame.
\<close>

section \<open>Parameter blocks\<close>

record dm_param = servo_param +
  kp_min :: flt
  kp_max :: flt
  kd_min :: flt
  kd_max :: flt
  par_pos_min :: flt
  par_pos_max :: flt
  vel_min :: flt
  vel_max :: flt
  tor_min :: flt
  tor_max :: flt

text \<open>The thresholds 0.2, 0.3 and 0.1 are \<^verbatim>\<open>double\<close> literals passed to \<^verbatim>\<open>float\<close> parameters.\<close>

definition mk_dm_param :: "real \<Rightarrow> real \<Rightarrow> real \<Rightarrow> real \<Rightarrow> real \<Rightarrow> dm_param" where
  "mk_dm_param kpmx kdmx p v t =
     \<lparr>tolerable_pos_difference_rad = dlit (2 / 10), max_pos_difference_rad = dlit (3 / 10),
      velocity_threshold_rad_sec = dlit (1 / 10),
      kp_min = Fin 0, kp_max = Fin kpmx, kd_min = Fin 0, kd_max = Fin kdmx,
      par_pos_min = Fin (- p), par_pos_max = Fin p, vel_min = Fin (- v), vel_max = Fin v,
      tor_min = Fin (- t), tor_max = Fin t\<rparr>"

definition g_servo_dm_param_4340 :: dm_param where
  "g_servo_dm_param_4340 = mk_dm_param 500 5 (25 / 2) 10 28"
definition g_servo_dm_param_4310 :: dm_param where
  "g_servo_dm_param_4310 = mk_dm_param 500 5 (25 / 2) 30 10"
definition g_servo_dm_param_encos_A4310 :: dm_param where
  "g_servo_dm_param_encos_A4310 = mk_dm_param 500 5 (25 / 2) 18 42"
definition g_servo_dm_param_arx_encoder :: dm_param where
  "g_servo_dm_param_arx_encoder = mk_dm_param 0 0 (25 / 2) 0 0"

section \<open>Received data\<close>

record received_servo_data =
  motor_id :: int
  angle_actual_rad :: flt
  speed_actual_rad :: flt
  current_actual_float :: flt
  temperature_u8 :: u8
  error_u8 :: u8
  digital_inputs :: u8
  update_count :: u32
  last_update_perf :: nat

definition zero_received :: received_servo_data where
  "zero_received = \<lparr>motor_id = 0, angle_actual_rad = Fin 0, speed_actual_rad = Fin 0, current_actual_float = Fin 0,
     temperature_u8 = 0, error_u8 = 0, digital_inputs = 0, update_count = 0, last_update_perf = 0\<rparr>"

definition MAX_SERVO_INFO_BUF_SIZE :: int where "MAX_SERVO_INFO_BUF_SIZE = 20"

section \<open>Command frames\<close>

definition clamp :: "flt \<Rightarrow> flt \<Rightarrow> flt \<Rightarrow> flt" where
  "clamp v lo hi = (if flt_lt hi v then hi else if flt_lt v lo then lo else v)"

text \<open>The five clamped and quantised values of a command.\<close>

definition quantise ::
  "dm_param \<Rightarrow> nat \<Rightarrow> flt \<Rightarrow> flt \<Rightarrow> flt \<Rightarrow> flt \<Rightarrow> flt \<Rightarrow> (int \<times> int \<times> int \<times> int \<times> int) option" where
  "quantise sp kd_bits kp kd pos spd tor =
     (let kp = clamp kp (kp_min sp) (kp_max sp);
          kd = clamp kd (kd_min sp) (kd_max sp);
          pos = clamp pos (par_pos_min sp) (par_pos_max sp);
          spd = clamp spd (vel_min sp) (vel_max sp);
          tor = clamp tor (tor_min sp) (tor_max sp)
      in case (float_to_uint kp (kp_min sp) (kp_max sp) 12, float_to_uint kd (kd_min sp) (kd_max sp) kd_bits,
               float_to_uint pos (par_pos_min sp) (par_pos_max sp) 16, float_to_uint spd (vel_min sp) (vel_max sp) 12,
               float_to_uint tor (tor_min sp) (tor_max sp) 12) of
           (Some a, Some b, Some c, Some d, Some e) \<Rightarrow> Some (a, b, c, d, e)
         | _ \<Rightarrow> None)"

definition encos_command_bytes :: "int \<Rightarrow> int \<Rightarrow> int \<Rightarrow> int \<Rightarrow> int \<Rightarrow> u8 list" where
  "encos_command_bytes kp_int kd_int pos_int spd_int tor_int =
     map word_of_int
       [0 OR drop_bit 7 kp_int, push_bit 1 (kp_int AND 0x7F) OR drop_bit 8 (kd_int AND 0x100), kd_int AND 0xFF,
        drop_bit 8 pos_int, pos_int AND 0xFF, drop_bit 4 spd_int,
        push_bit 4 (spd_int AND 0x0F) OR drop_bit 8 tor_int, tor_int AND 0xFF]"

definition dm_command_bytes :: "u16 \<Rightarrow> u16 \<Rightarrow> u16 \<Rightarrow> u16 \<Rightarrow> u16 \<Rightarrow> u8 list" where
  "dm_command_bytes kp_tmp kd_tmp pos_tmp vel_tmp tor_tmp =
     map ucast
       [drop_bit 8 pos_tmp, pos_tmp AND 0xFF, drop_bit 4 vel_tmp, push_bit 4 (vel_tmp AND 0xF) OR drop_bit 8 kp_tmp,
        kp_tmp AND 0xFF, drop_bit 4 kd_tmp, push_bit 4 (kd_tmp AND 0xF) OR drop_bit 8 tor_tmp, tor_tmp AND 0xFF]"

text \<open>The outcome of a builder: an error code, an undefined conversion, or the frame.\<close>

datatype build = BuildError ReturnCode | BuildUndefined | Built can_frame

definition can_frame_to_command_encos_servo ::
  "(int \<Rightarrow> dm_param option) \<Rightarrow> u16 \<Rightarrow> flt \<Rightarrow> flt \<Rightarrow> flt \<Rightarrow> flt \<Rightarrow> flt \<Rightarrow> build" where
  "can_frame_to_command_encos_servo par mid kp kd pos spd tor =
     (case par (uint mid) of
        None \<Rightarrow> BuildError INVALID_PARAM
      | Some sp \<Rightarrow>
          (case quantise sp 9 kp kd pos spd tor of
             None \<Rightarrow> BuildUndefined
           | Some (kp_int, kd_int, pos_int, spd_int, tor_int) \<Rightarrow>
               Built (zero_frame\<lparr>can_dlc := 8, can_id := ucast mid,
                 data := encos_command_bytes kp_int kd_int pos_int spd_int tor_int\<rparr>)))"

definition can_frame_to_command_dm_servo ::
  "(int \<Rightarrow> dm_param option) \<Rightarrow> u16 \<Rightarrow> flt \<Rightarrow> flt \<Rightarrow> flt \<Rightarrow> flt \<Rightarrow> flt \<Rightarrow> build" where
  "can_frame_to_command_dm_servo par mid kp kd pos spd tor =
     (case par (uint mid) of
        None \<Rightarrow> BuildError INVALID_PARAM
      | Some sp \<Rightarrow>
          (case quantise sp 12 kp kd pos spd tor of
             None \<Rightarrow> BuildUndefined
           | Some (kp_tmp, kd_tmp, pos_tmp, vel_tmp, tor_tmp) \<Rightarrow>
               Built (zero_frame\<lparr>can_dlc := 8, can_id := ucast mid,
                 data := dm_command_bytes (word_of_int kp_tmp) (word_of_int kd_tmp) (word_of_int pos_tmp)
                           (word_of_int vel_tmp) (word_of_int tor_tmp)\<rparr>)))"

section \<open>Service frames\<close>

text \<open>A frame with a payload of at most 8 bytes, the rest zero.\<close>

definition mk_frame :: "u32 \<Rightarrow> nat \<Rightarrow> u8 list \<Rightarrow> can_frame" where
  "mk_frame cid dlc bytes = \<lparr>can_id = cid, can_dlc = dlc, data = bytes @ replicate (8 - length bytes) 0\<rparr>"

datatype RegAddr = TIMEOUT | CONTROL_MODE

fun reg_addr_byte :: "RegAddr \<Rightarrow> u8" where
  "reg_addr_byte TIMEOUT = 9"
| "reg_addr_byte CONTROL_MODE = 10"

definition can_frame_to_write_register_dm_servo :: "u16 \<Rightarrow> RegAddr \<Rightarrow> u32 \<Rightarrow> can_frame" where
  "can_frame_to_write_register_dm_servo mid register_id register_value =
     mk_frame 0x7FF 8
       [ucast (mid AND 0xFF), ucast (drop_bit 8 mid), 0x55, reg_addr_byte register_id,
        ucast register_value, ucast (drop_bit 8 register_value), ucast (drop_bit 16 register_value),
        ucast (drop_bit 24 register_value)]"

text \<open>\<^verbatim>\<open>OperationMode::MIT\<close> is 1.\<close>

definition can_frame_to_set_operation_mode_dm_servo :: "u16 \<Rightarrow> can_frame" where
  "can_frame_to_set_operation_mode_dm_servo mid = can_frame_to_write_register_dm_servo mid CONTROL_MODE 1"

definition can_frame_to_enable_dm_servo :: "u16 \<Rightarrow> bool \<Rightarrow> can_frame" where
  "can_frame_to_enable_dm_servo mid enable_flag =
     mk_frame (ucast mid) 8 [0xFF, 0xFF, 0xFF, 0xFF, 0xFF, 0xFF, 0xFF, if enable_flag then 0xFC else 0xFD]"

definition can_frame_to_reset_dm_servo :: "u16 \<Rightarrow> can_frame" where
  "can_frame_to_reset_dm_servo mid = mk_frame (ucast mid) 8 [0xFF, 0xFF, 0xFF, 0xFF, 0xFF, 0xFF, 0xFF, 0xFB]"

definition can_frame_to_set_zero_dm_servo :: "u16 \<Rightarrow> can_frame" where
  "can_frame_to_set_zero_dm_servo mid = mk_frame (ucast mid) 8 [0xFF, 0xFF, 0xFF, 0xFF, 0xFF, 0xFF, 0xFF, 0xFE]"

definition can_frame_to_set_can_timeout_encos_servo :: "u16 \<Rightarrow> u16 \<Rightarrow> can_frame" where
  "can_frame_to_set_can_timeout_encos_servo mid timeout_ms =
     mk_frame (ucast mid) 4 [push_bit 5 0x06, 0x0B, ucast (drop_bit 8 timeout_ms), ucast (timeout_ms AND 0xFF)]"

definition can_frame_to_get_can_timeout_encos_servo :: "u16 \<Rightarrow> can_frame" where
  "can_frame_to_get_can_timeout_encos_servo mid = mk_frame (ucast mid) 2 [push_bit 5 0x07, 31]"

definition ENCOS_QUERY_SPD_RANGE :: u8 where "ENCOS_QUERY_SPD_RANGE = 26"
definition ENCOS_QUERY_TOR_RANGE :: u8 where "ENCOS_QUERY_TOR_RANGE = 27"

definition can_frame_to_get_mit_range_encos_servo :: "u16 \<Rightarrow> u8 \<Rightarrow> can_frame option" where
  "can_frame_to_get_mit_range_encos_servo mid query_code =
     (if query_code \<noteq> ENCOS_QUERY_SPD_RANGE \<and> query_code \<noteq> ENCOS_QUERY_TOR_RANGE then None
      else Some (mk_frame (ucast mid) 2 [push_bit 5 0x07, query_code]))"

definition byte :: "can_frame \<Rightarrow> nat \<Rightarrow> u8" where
  "byte f i = data f ! i"

definition be16 :: "u8 \<Rightarrow> u8 \<Rightarrow> u16" where
  "be16 hi lo = push_bit 8 (ucast hi) OR ucast lo"

definition parse_can_timeout_reply_encos_servo :: "can_frame \<Rightarrow> u16 \<Rightarrow> u16 option" where
  "parse_can_timeout_reply_encos_servo f mid =
     (if can_id f \<noteq> ucast mid \<or> can_dlc f < 4 then None
      else if drop_bit 5 (byte f 0) \<noteq> 5 \<or> byte f 1 \<noteq> 31 then None
      else Some (be16 (byte f 2) (byte f 3)))"

definition parse_mit_range_reply_encos_servo :: "can_frame \<Rightarrow> u16 \<Rightarrow> u8 \<Rightarrow> flt \<Rightarrow> (flt \<times> flt) option" where
  "parse_mit_range_reply_encos_servo f mid query_code scale =
     (if can_id f \<noteq> ucast mid \<or> can_dlc f < 6 then None
      else if drop_bit 5 (byte f 0) \<noteq> 5 \<or> byte f 1 \<noteq> query_code then None
      else let raw_min = sint (be16 (byte f 2) (byte f 3)); raw_max = sint (be16 (byte f 4) (byte f 5))
           in Some (fmul binary32 (of_int_f binary32 raw_min) scale, fmul binary32 (of_int_f binary32 raw_max) scale))"

section \<open>Status frames\<close>

definition pos16 :: "can_frame \<Rightarrow> int" where
  "pos16 f = push_bit 8 (uint (byte f 1)) OR uint (byte f 2)"
definition spd12 :: "can_frame \<Rightarrow> int" where
  "spd12 f = push_bit 4 (uint (byte f 3)) OR drop_bit 4 (uint (byte f 4))"
definition tor12 :: "can_frame \<Rightarrow> int" where
  "tor12 f = push_bit 8 (uint (byte f 4) AND 0x0F) OR uint (byte f 5)"

text \<open>
  The cache is a list of slots; \<open>idx\<close> is \<^verbatim>\<open>Driver::find_data_index\<close>, \<open>t\<close> the current time.
\<close>

definition parse_dm_servo_status ::
  "(int \<Rightarrow> int) \<Rightarrow> (int \<Rightarrow> dm_param option) \<Rightarrow> nat \<Rightarrow> can_frame \<Rightarrow> received_servo_data list
   \<Rightarrow> received_servo_data list \<times> ReturnCode" where
  "parse_dm_servo_status idx par t f cache =
     (if can_dlc f < 8 then (cache, INVALID_PARAM)
      else
        let mid = uint (byte f 0 AND 0x0F); data_index = idx mid
        in if data_index < 0 \<or> MAX_SERVO_INFO_BUF_SIZE \<le> data_index then (cache, INVALID_PARAM)
           else if byte f 2 = 0x55 then (cache, SUCCESS)
           else case par mid of
             None \<Rightarrow> (cache, INVALID_PARAM)
           | Some sp \<Rightarrow>
               (cache[nat data_index := (cache ! nat data_index)
                  \<lparr>motor_id := mid, error_u8 := drop_bit 4 (byte f 0),
                   angle_actual_rad := uint_to_float (pos16 f) (par_pos_min sp) (par_pos_max sp) 16,
                   speed_actual_rad := uint_to_float (spd12 f) (vel_min sp) (vel_max sp) 12,
                   current_actual_float := uint_to_float (tor12 f) (tor_min sp) (tor_max sp) 12,
                   temperature_u8 := byte f 7, last_update_perf := t\<rparr>], SUCCESS))"

text \<open>C++ division truncates towards zero; the result is stored in a \<^verbatim>\<open>uint8_t\<close>.\<close>

definition encos_temperature :: "u8 \<Rightarrow> u8" where
  "encos_temperature b =
     word_of_int (let n = uint b - 50 in if 0 \<le> n then n div 2 else - ((- n) div 2))"

definition parser_encos_servo_status ::
  "(int \<Rightarrow> int) \<Rightarrow> (int \<Rightarrow> dm_param option) \<Rightarrow> nat \<Rightarrow> can_frame \<Rightarrow> received_servo_data list
   \<Rightarrow> received_servo_data list \<times> ReturnCode" where
  "parser_encos_servo_status idx par t f cache =
     (let ack_status = drop_bit 5 (byte f 0); mid = uint (ucast (can_id f) :: u8); data_index = idx mid
      in if data_index < 0 \<or> MAX_SERVO_INFO_BUF_SIZE \<le> data_index then (cache, INVALID_PARAM)
         else let i = nat data_index
         in if can_dlc f < 8 then (cache[i := (cache ! i)\<lparr>motor_id := mid, last_update_perf := t\<rparr>], SUCCESS)
         else let cache = cache[i := (cache ! i)\<lparr>motor_id := mid, error_u8 := byte f 0 AND 0x1F, last_update_perf := t\<rparr>]
         in if ack_status = 1
            then (case par mid of
                None \<Rightarrow> (cache, INVALID_PARAM)
              | Some sp \<Rightarrow>
                  (cache[i := (cache ! i)
                     \<lparr>angle_actual_rad := uint_to_float (pos16 f) (par_pos_min sp) (par_pos_max sp) 16,
                      speed_actual_rad := uint_to_float (spd12 f) (vel_min sp) (vel_max sp) 12,
                      current_actual_float := uint_to_float (tor12 f) (tor_min sp) (tor_max sp) 12,
                      temperature_u8 := encos_temperature (byte f 6)\<rparr>], SUCCESS))
            else if ack_status = 2
            then (cache[i := (cache ! i)
                     \<lparr>angle_actual_rad := flt_of_bits (ucast (byte f 4) OR push_bit 8 (ucast (byte f 3)) OR
                        push_bit 16 (ucast (byte f 2)) OR push_bit 24 (ucast (byte f 1))),
                      current_actual_float := fdiv binary32
                        (of_int_f binary32 (push_bit 8 (uint (byte f 5)) OR uint (byte f 6))) (Fin 100),
                      temperature_u8 := encos_temperature (byte f 7)\<rparr>], SUCCESS)
            else (cache, SUCCESS))"

section \<open>Lemmas\<close>

lemma clamp_not_NaN:
  assumes "v \<noteq> NaN" "lo \<le> hi"
  shows "\<exists>x. clamp v (Fin lo) (Fin hi) = Fin x \<and> lo \<le> x \<and> x \<le> hi"
  using assms by (cases v) (auto simp: clamp_def)

lemma clamp_NaN: "clamp NaN lo hi = NaN"
  by (cases hi) (simp_all add: clamp_def)

text \<open>A range the quantiser accepts: representable ends, ordinary width.\<close>

definition good_range :: "flt \<Rightarrow> flt \<Rightarrow> bool" where
  "good_range lo hi \<longleftrightarrow> (\<exists>a b. lo = Fin a \<and> hi = Fin b \<and> 2 powi (-100) \<le> b - a \<and> b - a \<le> 2 ^ 60 \<and>
     rnd binary32 a = a \<and> rnd binary32 b = b)"

lemma quantise_field:
  assumes "good_range lo hi" "v \<noteq> NaN" "0 < bits" "bits \<le> 21"
  shows "\<exists>n. float_to_uint (clamp v lo hi) lo hi bits = Some n \<and> 0 \<le> n \<and> n < 2 ^ bits"
proof -
  obtain a b where r: "lo = Fin a" "hi = Fin b" "2 powi (-100) \<le> b - a" "b - a \<le> 2 ^ 60"
    "rnd binary32 a = a" "rnd binary32 b = b" using assms(1) by (auto simp: good_range_def)
  have "a \<le> b" using r(3) powi_two_pos [of "-100"] by linarith
  then obtain x where x: "clamp v lo hi = Fin x" "a \<le> x" "x \<le> b"
    using clamp_not_NaN [OF assms(2)] r(1,2) by blast
  show ?thesis using float_to_uint_bounds [OF r(3,4) x(2,3) r(5,6) assms(3,4)] x(1) r(1,2) by auto
qed

definition actuated_param :: "dm_param \<Rightarrow> bool" where
  "actuated_param sp \<longleftrightarrow> good_range (kp_min sp) (kp_max sp) \<and> good_range (kd_min sp) (kd_max sp) \<and>
     good_range (par_pos_min sp) (par_pos_max sp) \<and> good_range (vel_min sp) (vel_max sp) \<and>
     good_range (tor_min sp) (tor_max sp)"

lemma quantise_defined:
  assumes "actuated_param sp" "NaN \<notin> {kp, kd, pos, spd, tor}" "0 < bits" "bits \<le> 21"
  shows "\<exists>a b c d e. quantise sp bits kp kd pos spd tor = Some (a, b, c, d, e) \<and>
    0 \<le> a \<and> a < 2 ^ 12 \<and> 0 \<le> b \<and> b < 2 ^ bits \<and> 0 \<le> c \<and> c < 2 ^ 16 \<and> 0 \<le> d \<and> d < 2 ^ 12 \<and> 0 \<le> e \<and> e < 2 ^ 12"
proof -
  have r: "good_range (kp_min sp) (kp_max sp)" "good_range (kd_min sp) (kd_max sp)"
     "good_range (par_pos_min sp) (par_pos_max sp)" "good_range (vel_min sp) (vel_max sp)"
     "good_range (tor_min sp) (tor_max sp)" using assms(1) by (auto simp: actuated_param_def)
  have n: "kp \<noteq> NaN" "kd \<noteq> NaN" "pos \<noteq> NaN" "spd \<noteq> NaN" "tor \<noteq> NaN" using assms(2) by auto
  obtain a where a: "float_to_uint (clamp kp (kp_min sp) (kp_max sp)) (kp_min sp) (kp_max sp) 12 = Some a" "0 \<le> a" "a < 2 ^ 12"
    using quantise_field [OF r(1) n(1), of 12] by auto
  obtain b where b: "float_to_uint (clamp kd (kd_min sp) (kd_max sp)) (kd_min sp) (kd_max sp) bits = Some b" "0 \<le> b" "b < 2 ^ bits"
    using quantise_field [OF r(2) n(2) assms(3,4)] by auto
  obtain c where c: "float_to_uint (clamp pos (par_pos_min sp) (par_pos_max sp)) (par_pos_min sp) (par_pos_max sp) 16 = Some c"
      "0 \<le> c" "c < 2 ^ 16"
    using quantise_field [OF r(3) n(3), of 16] by auto
  obtain d where d: "float_to_uint (clamp spd (vel_min sp) (vel_max sp)) (vel_min sp) (vel_max sp) 12 = Some d" "0 \<le> d" "d < 2 ^ 12"
    using quantise_field [OF r(4) n(4), of 12] by auto
  obtain e where e: "float_to_uint (clamp tor (tor_min sp) (tor_max sp)) (tor_min sp) (tor_max sp) 12 = Some e" "0 \<le> e" "e < 2 ^ 12"
    using quantise_field [OF r(5) n(5), of 12] by auto
  have "quantise sp bits kp kd pos spd tor = Some (a, b, c, d, e)"
    unfolding quantise_def Let_def a(1) b(1) c(1) d(1) e(1) by simp
  then show ?thesis using a b c d e by blast
qed

lemma rnd32_int: "\<bar>n\<bar> \<le> 2 ^ 24 \<Longrightarrow> rnd binary32 (of_int n) = of_int n"
  by (rule r32.rd_int) simp

lemma rnd32_half: "rnd binary32 (25 / 2) = 25 / 2" "rnd binary32 (- (25 / 2)) = - (25 / 2)"
  using r32.rd_fix [of 25 "-1"] r32.rd_minus [of "25 / 2"] by (simp_all add: power_int_minus)

lemma good_range_int:
  assumes "a < b" "\<bar>a\<bar> \<le> 1000" "\<bar>b\<bar> \<le> 1000"
  shows "good_range (Fin (of_int a)) (Fin (of_int b))"
proof -
  have "(2::real) powi (-100) \<le> 2 powi 0" by (simp only: powi_two_le_iff)
  moreover have "1 \<le> real_of_int (b - a)" using assms(1) by linarith
  ultimately have "2 powi (-100) \<le> real_of_int b - real_of_int a" by simp
  moreover have "real_of_int b - real_of_int a \<le> 2 ^ 60" using assms by simp
  ultimately show ?thesis
    unfolding good_range_def using rnd32_int [of a] rnd32_int [of b] assms by auto
qed

lemma good_range_pos: "good_range (Fin (- (25 / 2))) (Fin (25 / 2))"
proof -
  have "(2::real) powi (-100) \<le> 2 powi 0" by (simp only: powi_two_le_iff)
  then have "(2::real) powi (-100) \<le> 25 / 2 - - (25 / 2)" by simp
  then show ?thesis unfolding good_range_def
    by (intro exI [of _ "- (25 / 2)"] exI [of _ "25 / 2"] conjI refl rnd32_half) simp_all
qed

lemma actuated_params:
  "actuated_param g_servo_dm_param_4340" "actuated_param g_servo_dm_param_4310"
  "actuated_param g_servo_dm_param_encos_A4310"
  using good_range_int [of 0 500] good_range_int [of 0 5] good_range_int [of "-10" 10] good_range_int [of "-28" 28]
    good_range_int [of "-30" 30] good_range_int [of "-18" 18] good_range_int [of "-42" 42] good_range_pos
  by (simp_all add: actuated_param_def g_servo_dm_param_4340_def g_servo_dm_param_4310_def
      g_servo_dm_param_encos_A4310_def mk_dm_param_def)

subsection \<open>Bit fields\<close>

lemma bit_and_nibble: "bit ((w :: 'a::len word) AND 0xF) n \<longleftrightarrow> bit w n \<and> n < 4"
  using bit_take_bit_iff [of 4 w n] by (auto simp: take_bit_eq_mask mask_eq_exp_minus_1)

lemmas field_bits = bit_and_nibble bit_and_low(2) bit_or_iff bit_push_bit_iff bit_drop_bit_eq bit_unsigned_iff comp_def

text \<open>Two 12-bit fields packed into three bytes, as the command frames have them.\<close>

definition mid_byte :: "u16 \<Rightarrow> u16 \<Rightarrow> u8" where
  "mid_byte v k = ucast (push_bit 4 (v AND 0xF) OR drop_bit 8 k)"

lemma pack_pos: "be16 (ucast (drop_bit 8 p)) (ucast (p AND 0xFF)) = p"
proof (rule bit_word_eqI)
  fix n assume "n < LENGTH(16)"
  then show "bit (be16 (ucast (drop_bit 8 p)) (ucast (p AND 0xFF))) n = bit p n"
    unfolding be16_def field_bits by (cases "n < 8") auto
qed

lemma pack_high:
  assumes "unat (v :: u16) < 2 ^ 12" "unat (k :: u16) < 2 ^ 12"
  shows "push_bit 4 (ucast (ucast (drop_bit 4 v) :: u8)) OR drop_bit 4 (ucast (mid_byte v k)) = v"
proof (rule bit_word_eqI)
  fix n assume n: "n < LENGTH(16)"
  have v: "bit v m \<Longrightarrow> m < 12" and k: "bit k m \<Longrightarrow> m < 12" for m using bit_small assms by blast+
  show "bit (push_bit 4 (ucast (ucast (drop_bit 4 v) :: u8)) OR drop_bit 4 (ucast (mid_byte v k)) :: u16) n = bit v n"
    unfolding mid_byte_def field_bits using n v [of n] k [of "12 + n"] by (cases "n < 4") auto
qed

lemma pack_low:
  assumes "unat (v :: u16) < 2 ^ 12" "unat (k :: u16) < 2 ^ 12"
  shows "push_bit 8 (ucast (mid_byte v k AND 0xF)) OR ucast (ucast (k AND 0xFF) :: u8) = k"
proof (rule bit_word_eqI)
  fix n assume n: "n < LENGTH(16)"
  have k: "bit k m \<Longrightarrow> m < 12" for m using bit_small assms by blast
  show "bit (push_bit 8 (ucast (mid_byte v k AND 0xF)) OR ucast (ucast (k AND 0xFF) :: u8) :: u16) n = bit k n"
    unfolding mid_byte_def field_bits using n k [of n] by (cases "n < 8") auto
qed

text \<open>What a DM motor reads out of a command payload.\<close>

definition dm_fields :: "u8 list \<Rightarrow> u16 \<times> u16 \<times> u16 \<times> u16 \<times> u16" where
  "dm_fields d =
     (push_bit 8 (ucast (d ! 3 AND 0xF)) OR ucast (d ! 4), push_bit 4 (ucast (d ! 5)) OR drop_bit 4 (ucast (d ! 6)),
      be16 (d ! 0) (d ! 1), push_bit 4 (ucast (d ! 2)) OR drop_bit 4 (ucast (d ! 3)),
      push_bit 8 (ucast (d ! 6 AND 0xF)) OR ucast (d ! 7))"

lemma dm_fields_command:
  assumes "unat kp < 2 ^ 12" "unat kd < 2 ^ 12" "unat vel < 2 ^ 12" "unat tor < 2 ^ 12"
  shows "dm_fields (dm_command_bytes kp kd pos vel tor) = (kp, kd, pos, vel, tor)"
proof -
  have "dm_command_bytes kp kd pos vel tor =
      [ucast (drop_bit 8 pos), ucast (pos AND 0xFF), ucast (drop_bit 4 vel), mid_byte vel kp, ucast (kp AND 0xFF),
       ucast (drop_bit 4 kd), mid_byte kd tor, ucast (tor AND 0xFF)]"
    by (simp add: dm_command_bytes_def mid_byte_def)
  then show ?thesis unfolding dm_fields_def
    using pack_pos [of pos] pack_high [OF assms(3,1)] pack_low [OF assms(3,1)] pack_high [OF assms(2,4)]
      pack_low [OF assms(2,4)]
    by (simp only: nth_Cons_0 nth_Cons_Suc numeral_nat One_nat_def)
qed

lemma pos16_low: "pos16 f AND 0xFF = uint (byte f 2)"
proof -
  have m: "(0xFF :: int) = mask 8" by (simp add: mask_eq_exp_minus_1)
  have b: "bit (uint (byte f 2)) n \<Longrightarrow> n < 8" for n using bit_imp_le_length [of "byte f 2" n] by (simp add: bit_unsigned_iff)
  show ?thesis unfolding m pos16_def
    by (rule bit_eqI) (use b in \<open>auto simp: bit_and_iff bit_mask_iff bit_or_iff bit_push_bit_iff\<close>)
qed

section \<open>Properties\<close>

text \<open>C2: a command frame carries exactly the clamped and quantised command. For a servo of an actuated
  model and a command without NaN (infinite values included), the DM builder produces an 8-byte frame
  addressed to the motor, and reading the frame with the motor's field layout gives back the five
  quantised values, each inside its bit width.\<close>

theorem dm_command_frame_exact:
  assumes "par (uint mid) = Some sp" "actuated_param sp" "NaN \<notin> {kp, kd, pos, spd, tor}"
  shows "\<exists>f a b c d e. can_frame_to_command_dm_servo par mid kp kd pos spd tor = Built f \<and>
    can_id f = ucast mid \<and> can_dlc f = 8 \<and> length (data f) = 8 \<and>
    quantise sp 12 kp kd pos spd tor = Some (a, b, c, d, e) \<and>
    (case dm_fields (data f) of (a', b', c', d', e') \<Rightarrow>
       uint a' = a \<and> uint b' = b \<and> uint c' = c \<and> uint d' = d \<and> uint e' = e)"
proof -
  obtain a b c d e where q: "quantise sp 12 kp kd pos spd tor = Some (a, b, c, d, e)"
    "0 \<le> a" "a < 2 ^ 12" "0 \<le> b" "b < 2 ^ 12" "0 \<le> c" "c < 2 ^ 16" "0 \<le> d" "d < 2 ^ 12" "0 \<le> e" "e < 2 ^ 12"
    using quantise_defined [OF assms(2,3), of 12] by auto
  let ?d = "dm_command_bytes (word_of_int a) (word_of_int b) (word_of_int c) (word_of_int d) (word_of_int e)"
  have u: "uint (word_of_int n :: u16) = n" "unat (word_of_int n :: u16) = nat n" if "0 \<le> n" "n < 2 ^ 16" for n
    using that by (simp_all add: unsigned_of_int take_bit_int_eq_self)
  have s: "unat (word_of_int n :: u16) < 2 ^ 12" if "0 \<le> n" "n < 2 ^ 12" for n
    using u [of n] that by simp
  have f: "dm_fields ?d = (word_of_int a, word_of_int b, word_of_int c, word_of_int d, word_of_int e)"
    using q by (intro dm_fields_command s)
  have "can_frame_to_command_dm_servo par mid kp kd pos spd tor =
      Built (zero_frame\<lparr>can_dlc := 8, can_id := ucast mid, data := ?d\<rparr>)"
    by (simp add: can_frame_to_command_dm_servo_def assms(1) q(1))
  then show ?thesis using q f u
    by (intro exI [of _ "zero_frame\<lparr>can_dlc := 8, can_id := ucast mid, data := ?d\<rparr>"] exI [of _ a] exI [of _ b]
        exI [of _ c] exI [of _ d] exI [of _ e]) (simp add: zero_frame_def, simp add: dm_command_bytes_def)
qed

theorem dm_command_frame_exact_witness:
  "\<exists>f. can_frame_to_command_dm_servo (\<lambda>_. Some g_servo_dm_param_4310) 4 (Fin 30) PInf (Fin 1) (Fin 0) NInf = Built f \<and>
     can_id f = 4"
  using dm_command_frame_exact [of "\<lambda>_. Some g_servo_dm_param_4310" 4 g_servo_dm_param_4310 "Fin 30" PInf "Fin 1" "Fin 0" NInf]
    actuated_params(2) by auto

text \<open>the clamps do not stop a NaN. A command with a NaN position passes every clamp unchanged and
  reaches the integer conversion, which C++ leaves undefined, in both builders.\<close>

theorem nan_command_undefined:
  assumes "par (uint mid) = Some sp"
  shows "can_frame_to_command_dm_servo par mid kp kd NaN spd tor = BuildUndefined \<and>
    can_frame_to_command_encos_servo par mid kp kd NaN spd tor = BuildUndefined"
proof -
  have n: "float_to_uint (clamp NaN (par_pos_min sp) (par_pos_max sp)) (par_pos_min sp) (par_pos_max sp) 16 = None"
    unfolding float_to_uint_def clamp_NaN fsub_NaN fmul_NaN_right by simp
  have "quantise sp bits kp kd NaN spd tor = None" for bits
    unfolding quantise_def Let_def n by (simp split: option.split)
  then show ?thesis using assms
    by (simp add: can_frame_to_command_dm_servo_def can_frame_to_command_encos_servo_def)
qed

theorem nan_command_undefined_witness:
  "can_frame_to_command_dm_servo (\<lambda>_. Some g_servo_dm_param_4310) 4 (Fin 30) (Fin 1) NaN (Fin 0) (Fin 0) = BuildUndefined"
  using nan_command_undefined [of "\<lambda>_. Some g_servo_dm_param_4310" 4 g_servo_dm_param_4310] by simp

text \<open>a genuine DM status frame is ignored when the low byte of its position is \<open>0x55\<close>: the parser takes
  it for the acknowledgement of a register write, reports success and leaves the cache, the receive
  time included, as it was.\<close>

theorem status_with_low_byte_55_ignored:
  assumes "8 \<le> can_dlc f" "0 \<le> idx (uint (byte f 0 AND 0x0F))" "idx (uint (byte f 0 AND 0x0F)) < 20"
    and "pos16 f AND 0xFF = 0x55"
  shows "parse_dm_servo_status idx par t f cache = (cache, SUCCESS)"
proof -
  have "pos16 f AND 0xFF = uint (byte f 2)" by (rule pos16_low)
  then have "byte f 2 = 0x55" using assms(4) by (simp add: word_uint_eq_iff)
  then show ?thesis using assms by (simp add: parse_dm_servo_status_def Let_def MAX_SERVO_INFO_BUF_SIZE_def)
qed

theorem status_with_low_byte_55_ignored_witness:
  "let f = \<lparr>can_id = 0, can_dlc = 8, data = [0x14, 0x80, 0x55, 0x7F, 0xF7, 0xFF, 0, 30]\<rparr>
   in parse_dm_servo_status (\<lambda>_. 0) (\<lambda>_. Some g_servo_dm_param_4310) 9 f [zero_received] = ([zero_received], SUCCESS)"
proof -
  let ?f = "\<lparr>can_id = 0, can_dlc = 8, data = [0x14, 0x80, 0x55, 0x7F, 0xF7, 0xFF, 0, 30]\<rparr>"
  have "pos16 ?f AND 0xFF = 0x55" unfolding pos16_low by (simp add: byte_def)
  then show ?thesis using status_with_low_byte_55_ignored [of ?f "\<lambda>_. 0"] by (simp only: Let_def) simp
qed

text \<open>a sub-zero ENCOS temperature reads as a very hot motor. The raw byte is twice the temperature plus
  50; every raw value below 49 is stored as at least 231 degrees, above the force-stop threshold of 93.\<close>

theorem encos_cold_reads_hot:
  assumes "uint b < 49"
  shows "231 \<le> uint (encos_temperature b)"
proof -
  let ?m = "(50 - uint b) div 2"
  have b0: "0 \<le> uint b" by simp
  have m: "1 \<le> ?m" "?m \<le> 25" using assms b0 by linarith+
  have "encos_temperature b = word_of_int (- ?m)" using assms by (simp add: encos_temperature_def Let_def)
  moreover have "uint (word_of_int (- ?m) :: u8) = (- ?m) mod 256" by (simp only: unsigned_of_int take_bit_eq_mod) simp
  moreover have "1 \<le> x \<Longrightarrow> x \<le> 25 \<Longrightarrow> (- x) mod 256 = 256 - x" for x :: int
    using mod_add_self2 [of "- x" 256] mod_pos_pos_trivial [of "- x + 256" 256] by simp
  from this [OF m] have "(- ?m) mod 256 = 256 - ?m" .
  ultimately show ?thesis using m by simp
qed

theorem encos_cold_reads_hot_witness: "231 \<le> uint (encos_temperature 40)"
  by (rule encos_cold_reads_hot) simp

end
