(* ===== verification/Driver_Can_Mit.thy ===== *)
theory Driver_Can_Mit
  imports Servo_Dm_Codec Servo_Cycle
begin

text \<open>
  The MIT-mode CAN driver, \<^verbatim>\<open>native/pi_control/src/pi_driver_can_mit.cpp\<close>: its state (an extension of
  the bus), the reception callback that routes every frame to one cache slot, the staleness
  watchdog of the group read, the per-servo read and the command path. The passive encoder's frame
  parser of \<^verbatim>\<open>pi_servo_can_encoder.cpp\<close> and the receive slot of \<^verbatim>\<open>pi_driver_arx_encoder.cpp\<close> are here
  too. The registered DM servo objects are a map from ids in the driver state; \<open>idx\<close> is
  \<^verbatim>\<open>Driver::find_data_index\<close> of \<open>Driver_Registry\<close>.
\<close>

section \<open>State\<close>

record route =
  encoder_id :: int
  route_data_index :: int
  firmware_compat :: bool

text \<open>The part of a \<^verbatim>\<open>ServoDm\<close> object the driver uses through the registry.\<close>

record dm_obj =
  obj_type :: ServoType
  obj_param :: "dm_param option"
  encos_param_override :: "dm_param option"
  reported_spd :: "(flt \<times> flt) option"
  reported_tor :: "(flt \<times> flt) option"

record mit = bus +
  received :: "received_servo_data list"
  passive_encoder_routes :: "(int, route) smap"
  dm_objs :: "int \<Rightarrow> dm_obj option"
  last_enable_fault_status :: int
  dead_servo_ids :: "int list"
  last_failed_servo_id :: int
  any_motor_moved :: bool
  stall_warned_since :: "(int, nat) smap"

definition new_received :: "received_servo_data list" where
  "new_received = replicate 20 zero_received"

definition dm_par :: "'a mit_scheme \<Rightarrow> int \<Rightarrow> dm_param option" where
  "dm_par m i = (case dm_objs m i of None \<Rightarrow> None | Some ob \<Rightarrow> obj_param ob)"

definition in_cache :: "int \<Rightarrow> bool" where
  "in_cache i \<longleftrightarrow> 0 \<le> i \<and> i < MAX_SERVO_INFO_BUF_SIZE"

definition get_received_motor_id :: "'a mit_scheme \<Rightarrow> int \<Rightarrow> int" where
  "get_received_motor_id m i = (if \<not> in_cache i then 0 else motor_id (received m ! nat i))"

definition get_last_update_perf :: "'a mit_scheme \<Rightarrow> int \<Rightarrow> nat" where
  "get_last_update_perf m i = (if \<not> in_cache i then 0 else last_update_perf (received m ! nat i))"

definition get_received_encoder_data :: "'a mit_scheme \<Rightarrow> int \<Rightarrow> (flt \<times> flt \<times> u8 \<times> u32) option" where
  "get_received_encoder_data m i =
     (if \<not> in_cache i then None
      else let d = received m ! nat i
           in Some (angle_actual_rad d, speed_actual_rad d, digital_inputs d, update_count d))"

section \<open>Reception\<close>

text \<open>\<^verbatim>\<open>dm_response_motor_id\<close>: the motor a status frame belongs to, or -1.\<close>

definition dm_response_motor_id :: "can_frame \<Rightarrow> int" where
  "dm_response_motor_id f =
     (if can_dlc f < 8 then -1
      else let cid = uint (can_id f AND 0x7FF); payload_motor_id = uint (byte f 0 AND 0x0F)
           in if cid = 0 then payload_motor_id
              else if 0x11 \<le> cid \<and> cid \<le> 0x1F \<and> cid - 0x10 = payload_motor_id then payload_motor_id
              else -1)"

text \<open>\<^verbatim>\<open>(float)M_PI\<close> and the encoder scale.\<close>

definition pi_f :: flt where
  "pi_f = dlit (314159265358979323846 / 10 ^ 20)"

definition PASSIVE_ENCODER_RAD_PER_TICK :: flt where
  "PASSIVE_ENCODER_RAD_PER_TICK = fdiv binary32 (fmul binary32 (Fin 2) pi_f) (of_int_f binary32 4096)"

definition parse_encoder_status ::
  "nat \<Rightarrow> can_frame \<Rightarrow> int \<Rightarrow> received_servo_data \<Rightarrow> received_servo_data \<times> ReturnCode" where
  "parse_encoder_status t f expected_encoder_id slot =
     (if can_dlc f < 6 then (slot, INVALID_PARAM)
      else let position_ticks = sint (be16 (byte f 1) (byte f 2)); velocity_ticks = sint (be16 (byte f 3) (byte f 4))
           in (slot\<lparr>motor_id := expected_encoder_id, error_u8 := 0,
                 angle_actual_rad := fmul binary32 (of_int_f binary32 position_ticks) PASSIVE_ENCODER_RAD_PER_TICK,
                 speed_actual_rad := fmul binary32 (of_int_f binary32 velocity_ticks) PASSIVE_ENCODER_RAD_PER_TICK,
                 current_actual_float := Fin 0, temperature_u8 := 0, digital_inputs := byte f 5,
                 update_count := update_count slot + 1, last_update_perf := t\<rparr>, SUCCESS))"

text \<open>
  \<^verbatim>\<open>handle_received_message\<close>: no buffer, a truncated buffer (a frame has 16 bytes), an
  explicit encoder route, a DM status frame, an ENCOS channel, or a frame that is dropped.
\<close>

definition handle_frame :: "(int \<Rightarrow> int) \<Rightarrow> can_frame \<Rightarrow> 'a mit_scheme \<Rightarrow> 'a mit_scheme" where
  "handle_frame idx f m =
     (case smap_find (passive_encoder_routes m) (uint (can_id f AND 0x7FF)) of
        Some r \<Rightarrow>
          (let i = nat (route_data_index r); (slot, rc) = parse_encoder_status (now m) f (encoder_id r) (received m ! i)
           in m\<lparr>received := (received m)[i := slot]\<rparr>)
      | None \<Rightarrow>
          (if 0 \<le> dm_response_motor_id f
           then m\<lparr>received := fst (parse_dm_servo_status idx (dm_par m) (now m) f (received m))\<rparr>
           else if 1 \<le> uint (can_id f) \<and> uint (can_id f) \<le> 7
           then m\<lparr>received := fst (parser_encos_servo_status idx (dm_par m) (now m) f (received m))\<rparr>
           else m))"

definition handle_received_message ::
  "(int \<Rightarrow> int) \<Rightarrow> can_frame option \<Rightarrow> nat \<Rightarrow> nat \<Rightarrow> 'a mit_scheme \<Rightarrow> 'a mit_scheme" where
  "handle_received_message idx p_data_buf data_buf_size read_bytes m =
     (case p_data_buf of
        None \<Rightarrow> m
      | Some f \<Rightarrow> (if data_buf_size < 16 \<or> read_bytes < 16 then m else handle_frame idx f m))"

definition register_passive_encoder ::
  "int \<Rightarrow> int \<Rightarrow> int \<Rightarrow> bool \<Rightarrow> 'a mit_scheme \<Rightarrow> 'a mit_scheme \<times> ReturnCode" where
  "register_passive_encoder response_can_id enc_id index fw_compat m =
     (if \<not> in_cache index then (m, INVALID_PARAM)
      else (m\<lparr>passive_encoder_routes := smap_set response_can_id
                \<lparr>encoder_id = enc_id, route_data_index = index, firmware_compat = fw_compat\<rparr> (passive_encoder_routes m)\<rparr>,
            SUCCESS))"

definition update_encoder_slot :: "int \<Rightarrow> int \<Rightarrow> flt \<Rightarrow> 'a mit_scheme \<Rightarrow> 'a mit_scheme \<times> ReturnCode" where
  "update_encoder_slot index mid angle_rad m =
     (if \<not> in_cache index then (m, FAIL)
      else (m\<lparr>received := (received m)[nat index := (received m ! nat index)
                \<lparr>motor_id := mid, angle_actual_rad := angle_rad, last_update_perf := now m\<rparr>]\<rparr>, SUCCESS))"

text \<open>\<^verbatim>\<open>DriverArxEncoder::handle_received_message\<close>.\<close>

definition arx_handle_received_message :: "(int \<Rightarrow> int) \<Rightarrow> can_frame option \<Rightarrow> 'a mit_scheme \<Rightarrow> 'a mit_scheme" where
  "arx_handle_received_message idx p_data_buf m =
     (case p_data_buf of
        None \<Rightarrow> m
      | Some f \<Rightarrow>
          (if can_dlc f \<noteq> 2 then m
           else let index = idx (sint (can_id f))
                in if index < 0 then m
                   else let raw = uint (be16 (byte f 0) (byte f 1));
                            angle_rad = fdiv binary32 (fmul binary32 (of_int_f binary32 (raw - 8192)) pi_f) (Fin 4096)
                        in fst (update_encoder_slot index (sint (can_id f)) angle_rad m)))"

section \<open>Staleness watchdog\<close>

definition CAN_MIT_STALE_FRAME_AGE_NORMAL_MS :: nat where "CAN_MIT_STALE_FRAME_AGE_NORMAL_MS = 10000"
definition CAN_MIT_STALE_FRAME_AGE_INITIAL_MS :: nat where "CAN_MIT_STALE_FRAME_AGE_INITIAL_MS = 2500"
definition CAN_MIT_STALL_WARN_AGE_MS :: nat where "CAN_MIT_STALL_WARN_AGE_MS = 250"

text \<open>\<^verbatim>\<open>Profile::get_time_diff\<close> in milliseconds.\<close>

definition age_ms :: "nat \<Rightarrow> nat \<Rightarrow> nat" where
  "age_ms from t = (t - from) div 1000"

fun set_insert :: "int \<Rightarrow> int list \<Rightarrow> int list" where
  "set_insert k [] = [k]"
| "set_insert k (j # js) = (if k < j then k # j # js else if k = j then j # js else j # set_insert k js)"

definition stale_threshold :: "bool \<Rightarrow> nat" where
  "stale_threshold moved = (if moved then CAN_MIT_STALE_FRAME_AGE_NORMAL_MS else CAN_MIT_STALE_FRAME_AGE_INITIAL_MS)"

text \<open>The warn-only diagnostic: one entry while the newest frame of a servo is too old.\<close>

definition stall_warning :: "int \<Rightarrow> nat \<Rightarrow> nat \<Rightarrow> (int, nat) smap \<Rightarrow> (int, nat) smap" where
  "stall_warning servo_id last_update age warned =
     (if CAN_MIT_STALL_WARN_AGE_MS < age
      then (if smap_find warned servo_id = None then smap_set servo_id last_update warned else warned)
      else if smap_find warned servo_id \<noteq> None then smap_erase servo_id warned else warned)"

text \<open>One servo of the scan: the driver and whether a frame was ever parsed for it.\<close>

definition scan_servo :: "(int \<Rightarrow> int) \<Rightarrow> nat \<Rightarrow> int \<Rightarrow> 'a mit_scheme \<times> bool \<Rightarrow> 'a mit_scheme \<times> bool" where
  "scan_servo idx threshold_ms servo_id = (\<lambda>(m, any_alive).
     let index = idx servo_id; dead = set_insert servo_id (dead_servo_ids m)
     in if \<not> in_cache index then (m\<lparr>dead_servo_ids := dead\<rparr>, any_alive)
        else let last_update = last_update_perf (received m ! nat index)
        in if last_update = 0 then (m\<lparr>dead_servo_ids := dead\<rparr>, any_alive)
        else let age = age_ms last_update (now m)
             in (m\<lparr>dead_servo_ids := (if threshold_ms < age then dead else dead_servo_ids m),
                   stall_warned_since := stall_warning servo_id last_update age (stall_warned_since m)\<rparr>, True))"

definition group_read_hardware_values ::
  "(int \<Rightarrow> int) \<Rightarrow> int list option \<Rightarrow> 'a mit_scheme \<Rightarrow> 'a mit_scheme \<times> ReturnCode" where
  "group_read_hardware_values idx p_dev m =
     (let m = m\<lparr>dead_servo_ids := [], last_failed_servo_id := -1\<rparr>
      in case p_dev of
           None \<Rightarrow> (m, FAIL)
         | Some servo_ids \<Rightarrow>
             (if servo_ids = [] then (m, SUCCESS)
              else let (m, any_alive) = fold (scan_servo idx (stale_threshold (any_motor_moved m))) servo_ids (m, False);
                       m = (if \<not> any_motor_moved m \<and> any_alive then m\<lparr>any_motor_moved := True\<rparr> else m)
                   in if dead_servo_ids m = [] then (m, SUCCESS)
                      else (m\<lparr>last_failed_servo_id := hd (dead_servo_ids m)\<rparr>, FAIL)))"

section \<open>Per-servo read and command\<close>

text \<open>
  \<^verbatim>\<open>DriverCanMit::read_hardware_values\<close> of a \<^verbatim>\<open>ServoDm\<close> (\<open>is_dm\<close>: the dynamic cast succeeds). The base
  driver's read returns success.
\<close>

definition mit_read_hardware_values ::
  "bool \<Rightarrow> 'm mit_scheme \<Rightarrow> 'a servo_scheme \<Rightarrow> 'a servo_scheme \<times> ReturnCode" where
  "mit_read_hardware_values is_dm m sv =
     (if \<not> is_dm then (sv, INVALID_PARAM)
      else if \<not> in_cache (data_index sv) then (sv, INVALID_PARAM)
      else let d = received m ! nat (data_index sv);
               sv = sv\<lparr>curr_pos_abs := angle_actual_rad d, curr_vel := speed_actual_rad d,
                       curr_tor := current_actual_float d,
                       temperature := of_int_f binary32 (uint (temperature_u8 d)), motor_error_code := error_u8 d\<rparr>
           in if motor_id d \<noteq> 0
              then (let (sv, rc) = initialize_position_wrap sv in if rc \<noteq> SUCCESS then (sv, rc) else (sv, SUCCESS))
              else (sv, SUCCESS))"

text \<open>\<^verbatim>\<open>send_command\<close>; \<open>None\<close> is an undefined conversion in the frame builder.\<close>

definition send_built :: "build \<Rightarrow> 'a mit_scheme \<Rightarrow> ('a mit_scheme \<times> ReturnCode) option" where
  "send_built b m =
     (case b of BuildError rc \<Rightarrow> Some (m, rc) | BuildUndefined \<Rightarrow> None | Built f \<Rightarrow> Some (send_frame f m))"

definition send_command ::
  "(ServoType \<times> int) option \<Rightarrow> flt \<Rightarrow> flt \<Rightarrow> flt \<Rightarrow> flt \<Rightarrow> flt \<Rightarrow> 'a mit_scheme \<Rightarrow> ('a mit_scheme \<times> ReturnCode) option" where
  "send_command p_servo_dm kp kd position velocity torque m =
     (case p_servo_dm of
        None \<Rightarrow> Some (m, INVALID_PARAM)
      | Some (ty, sid) \<Rightarrow>
          (if is_socket_open m
           then (if ty = ENCOS_A4310
                 then send_built (can_frame_to_command_encos_servo (dm_par m) (word_of_int sid) kp kd position velocity torque) m
                 else if ty = DM_4340 \<or> ty = DM_4310
                 then send_built (can_frame_to_command_dm_servo (dm_par m) (word_of_int sid) kp kd position velocity torque) m
                 else Some (m, NOT_SUPPORTED))
           else Some (m, NOT_INITIALIZED)))"

definition send_disable_once :: "int \<Rightarrow> ServoType \<Rightarrow> 'a mit_scheme \<Rightarrow> 'a mit_scheme \<times> ReturnCode" where
  "send_disable_once sid ty m =
     (if \<not> is_socket_open m then (m, NOT_INITIALIZED)
      else if ty \<noteq> DM_4340 \<and> ty \<noteq> DM_4310 then (m, NOT_SUPPORTED)
      else send_frame (can_frame_to_enable_dm_servo (word_of_int sid) False) m)"

definition reset_zero_position :: "int \<Rightarrow> ServoType \<Rightarrow> 'a mit_scheme \<Rightarrow> 'a mit_scheme \<times> ReturnCode" where
  "reset_zero_position sid ty m =
     (if is_socket_open m
      then (if ty = DM_4340 \<or> ty = DM_4310
            then (let (m, rc) = send_frame (can_frame_to_set_zero_dm_servo (word_of_int sid)) m
                  in if rc \<noteq> SUCCESS then (m, rc) else (usleep 1000 m, SUCCESS))
            else if ty = ENCOS_A4310 then (usleep 1000 m, SUCCESS)
            else (m, NOT_SUPPORTED))
      else (m, NOT_INITIALIZED))"

section \<open>Routing\<close>

text \<open>The cache slot a frame belongs to, -1 for a frame nobody owns.\<close>

definition frame_owner :: "(int \<Rightarrow> int) \<Rightarrow> can_frame \<Rightarrow> 'a mit_scheme \<Rightarrow> int" where
  "frame_owner idx f m =
     (case smap_find (passive_encoder_routes m) (uint (can_id f AND 0x7FF)) of
        Some r \<Rightarrow> route_data_index r
      | None \<Rightarrow> if 0 \<le> dm_response_motor_id f then idx (dm_response_motor_id f)
                else if 1 \<le> uint (can_id f) \<and> uint (can_id f) \<le> 7 then idx (uint (can_id f)) else -1)"

definition mit_ok :: "'a mit_scheme \<Rightarrow> bool" where
  "mit_ok m \<longleftrightarrow> length (received m) = 20 \<and> (\<forall>k r. smap_find (passive_encoder_routes m) k = Some r \<longrightarrow> in_cache (route_data_index r))"

text \<open>A parser writes at most the one slot, and stamps it when it writes.\<close>

definition one_slot :: "int \<Rightarrow> nat \<Rightarrow> received_servo_data list \<Rightarrow> received_servo_data list \<Rightarrow> bool" where
  "one_slot k t cache cache' \<longleftrightarrow>
     cache' = cache \<or> in_cache k \<and> (\<exists>d. last_update_perf d = t \<and> cache' = cache[nat k := d])"

lemma one_slot_refl [simp]: "one_slot k t cache cache"
  by (simp add: one_slot_def)

lemma one_slot_update: "in_cache k \<Longrightarrow> last_update_perf d = t \<Longrightarrow> one_slot k t cache (cache[nat k := d])"
  by (auto simp: one_slot_def)

lemma one_slot_length: "one_slot k t cache cache' \<Longrightarrow> length cache' = length cache"
  by (auto simp: one_slot_def)

lemma one_slot_nth:
  assumes "one_slot k t cache cache'"
  shows "cache' ! j = cache ! j \<or> int j = k \<and> (j < length cache \<longrightarrow> last_update_perf (cache' ! j) = t)"
proof (cases "cache' = cache")
  case False
  then obtain d where d: "in_cache k" "last_update_perf d = t" "cache' = cache[nat k := d]"
    using assms by (auto simp: one_slot_def)
  then show ?thesis by (cases "j = nat k") (auto simp: in_cache_def)
qed simp

lemma out_of_cache: "(i < 0 \<or> MAX_SERVO_INFO_BUF_SIZE \<le> i) = (\<not> in_cache i)"
  by (auto simp: in_cache_def)

lemma dm_response_payload: "0 \<le> dm_response_motor_id f \<Longrightarrow> dm_response_motor_id f = uint (byte f 0 AND 0x0F)"
  by (auto simp: dm_response_motor_id_def Let_def split: if_splits)

lemma parse_dm_one_slot:
  "one_slot (idx (uint (byte f 0 AND 0x0F))) t cache (fst (parse_dm_servo_status idx par t f cache))"
  by (simp add: parse_dm_servo_status_def Let_def out_of_cache one_slot_update split: option.split)

lemma parser_encos_one_slot:
  "one_slot (idx (uint (ucast (can_id f) :: u8))) t cache (fst (parser_encos_servo_status idx par t f cache))"
proof (cases "in_cache (idx (uint (ucast (can_id f) :: u8)))")
  case True
  then show ?thesis
  proof (cases "nat (idx (uint (ucast (can_id f) :: u8))) < length cache")
    case False
    then have "cache[nat (idx (uint (ucast (can_id f) :: u8))) := d] = cache" for d by (simp add: list_update_beyond)
    then show ?thesis by (simp add: parser_encos_servo_status_def Let_def split: option.split)
  qed (simp add: parser_encos_servo_status_def Let_def out_of_cache one_slot_update split: option.split)
qed (simp add: parser_encos_servo_status_def Let_def out_of_cache)

lemma parse_encoder_one_slot:
  "in_cache k \<Longrightarrow> one_slot k t cache (cache[nat k := fst (parse_encoder_status t f e (cache ! nat k))])"
  by (auto simp: parse_encoder_status_def Let_def intro: one_slot_update)

lemma small_id_low_byte:
  assumes "uint (i :: u32) \<le> 7"
  shows "uint (ucast i :: u8) = uint i"
proof -
  have "uint i mod 256 = uint i" using assms by (intro mod_pos_pos_trivial) simp_all
  then show ?thesis by (simp add: unsigned_ucast_eq take_bit_eq_mod)
qed

lemma handle_frame_received:
  "\<exists>c. handle_frame idx f m = m\<lparr>received := c\<rparr>"
proof -
  have "\<exists>c. m = m\<lparr>received := c\<rparr>" by (rule exI [of _ "received m"]) simp
  then show ?thesis by (auto simp: handle_frame_def Let_def split: option.split prod.split)
qed

lemma handle_frame_one_slot:
  assumes "mit_ok m"
  shows "one_slot (frame_owner idx f m) (now m) (received m) (received (handle_frame idx f m))"
proof (cases "smap_find (passive_encoder_routes m) (uint (can_id f AND 0x7FF))")
  case (Some r)
  then have "in_cache (route_data_index r)" using assms by (simp add: mit_ok_def)
  then show ?thesis using parse_encoder_one_slot [of "route_data_index r" "now m" "received m" f "encoder_id r"]
    by (simp add: handle_frame_def frame_owner_def Some Let_def case_prod_beta)
next
  case None
  then show ?thesis
    using parse_dm_one_slot [of idx f "now m" "received m" "dm_par m"]
      parser_encos_one_slot [of idx f "now m" "received m" "dm_par m"]
    by (auto simp: handle_frame_def frame_owner_def dm_response_payload small_id_low_byte)
qed

section \<open>The scan of the watchdog\<close>

lemma set_set_insert [simp]: "set (set_insert k js) = insert k (set js)"
  by (induction k js rule: set_insert.induct) auto

lemma set_insert_sorted: "sorted_wrt (<) js \<Longrightarrow> sorted_wrt (<) (set_insert k js)"
  by (induction k js rule: set_insert.induct) auto

lemma hd_is_Min: "sorted_wrt (<) js \<Longrightarrow> js \<noteq> [] \<Longrightarrow> hd js = Min (set (js :: int list))"
  by (cases js) (auto intro!: Min_eqI [symmetric])

text \<open>A servo without a slot, without any frame so far or with too old a frame.\<close>

definition heard :: "(int \<Rightarrow> int) \<Rightarrow> 'a mit_scheme \<Rightarrow> int \<Rightarrow> bool" where
  "heard idx m k \<longleftrightarrow> in_cache (idx k) \<and> last_update_perf (received m ! nat (idx k)) \<noteq> 0"

definition frame_age :: "(int \<Rightarrow> int) \<Rightarrow> 'a mit_scheme \<Rightarrow> int \<Rightarrow> nat" where
  "frame_age idx m k = age_ms (last_update_perf (received m ! nat (idx k))) (now m)"

definition silent :: "(int \<Rightarrow> int) \<Rightarrow> nat \<Rightarrow> 'a mit_scheme \<Rightarrow> int \<Rightarrow> bool" where
  "silent idx th m k \<longleftrightarrow> \<not> heard idx m k \<or> th < frame_age idx m k"

lemma scan_servo_result:
  "\<exists>w. scan_servo idx th k (m, al) =
     (m\<lparr>dead_servo_ids := (if silent idx th m k then set_insert k (dead_servo_ids m) else dead_servo_ids m),
        stall_warned_since := w\<rparr>, al \<or> heard idx m k)"
proof (cases "heard idx m k")
  case True
  then show ?thesis unfolding scan_servo_def silent_def frame_age_def by (auto simp: Let_def heard_def)
next
  case False
  then have "scan_servo idx th k (m, al) = (m\<lparr>dead_servo_ids := set_insert k (dead_servo_ids m)\<rparr>, al)"
    by (auto simp: scan_servo_def Let_def heard_def)
  then show ?thesis using False by (intro exI [of _ "stall_warned_since m"]) (simp add: silent_def)
qed

lemma scan_result:
  assumes "sorted_wrt (<) (dead_servo_ids m)"
  shows "\<exists>d w. fold (scan_servo idx th) ids (m, al) =
      (m\<lparr>dead_servo_ids := d, stall_warned_since := w\<rparr>, al \<or> (\<exists>k\<in>set ids. heard idx m k)) \<and>
    sorted_wrt (<) d \<and> set d = set (dead_servo_ids m) \<union> {k \<in> set ids. silent idx th m k}"
  using assms
proof (induction ids arbitrary: m al)
  case Nil
  show ?case by (rule exI [of _ "dead_servo_ids m"], rule exI [of _ "stall_warned_since m"]) (simp add: Nil)
next
  case (Cons k ids)
  let ?d = "if silent idx th m k then set_insert k (dead_servo_ids m) else dead_servo_ids m"
  obtain w where w: "scan_servo idx th k (m, al) =
     (m\<lparr>dead_servo_ids := ?d, stall_warned_since := w\<rparr>, al \<or> heard idx m k)"
    using scan_servo_result by blast
  define m' where "m' = m\<lparr>dead_servo_ids := ?d, stall_warned_since := w\<rparr>"
  have f: "heard idx m' j = heard idx m j" "silent idx th m' j = silent idx th m j" for j
    by (simp_all add: m'_def heard_def silent_def frame_age_def)
  have d': "dead_servo_ids m' = ?d" by (simp add: m'_def)
  then have "sorted_wrt (<) (dead_servo_ids m')" using Cons.prems by (simp add: set_insert_sorted)
  from Cons.IH [OF this, of "al \<or> heard idx m k", unfolded f]
  obtain d w' where r: "fold (scan_servo idx th) ids (m', al \<or> heard idx m k) =
      (m'\<lparr>dead_servo_ids := d, stall_warned_since := w'\<rparr>, (al \<or> heard idx m k) \<or> (\<exists>j\<in>set ids. heard idx m j))"
      "sorted_wrt (<) d" "set d = set (dead_servo_ids m') \<union> {j \<in> set ids. silent idx th m j}"
    by (elim exE conjE)
  have "m'\<lparr>dead_servo_ids := d, stall_warned_since := w'\<rparr> = m\<lparr>dead_servo_ids := d, stall_warned_since := w'\<rparr>"
    by (simp add: m'_def)
  then have "fold (scan_servo idx th) (k # ids) (m, al) =
      (m\<lparr>dead_servo_ids := d, stall_warned_since := w'\<rparr>, al \<or> (\<exists>j\<in>set (k # ids). heard idx m j))"
    using r(1) by (simp add: w m'_def [symmetric])
  moreover have "set d = set (dead_servo_ids m) \<union> {j \<in> set (k # ids). silent idx th m j}"
    using r(3) d' by (cases "silent idx th m k") auto
  ultimately show ?case using r(2) by blast
qed

text \<open>The group read in terms of what was heard.\<close>

lemma group_read_result:
  obtains d w where
    "group_read_hardware_values idx (Some ids) m =
      (m\<lparr>dead_servo_ids := d, stall_warned_since := w, last_failed_servo_id := (if d = [] then -1 else Min (set d)),
         any_motor_moved := (any_motor_moved m \<or> (\<exists>k\<in>set ids. heard idx m k))\<rparr>,
       if d = [] then SUCCESS else FAIL)"
    "sorted_wrt (<) d" "set d = {k \<in> set ids. silent idx (stale_threshold (any_motor_moved m)) m k}"
proof (cases "ids = []")
  case True
  show ?thesis by (rule that [of "[]" "stall_warned_since m"]) (simp_all add: True group_read_hardware_values_def)
next
  case False
  let ?m = "m\<lparr>dead_servo_ids := [], last_failed_servo_id := -1\<rparr>" and ?th = "stale_threshold (any_motor_moved m)"
  have f: "heard idx ?m j = heard idx m j" "silent idx ?th ?m j = silent idx ?th m j" for j
    by (simp_all add: heard_def silent_def frame_age_def)
  obtain d w where r: "fold (scan_servo idx ?th) ids (?m, False) =
      (?m\<lparr>dead_servo_ids := d, stall_warned_since := w\<rparr>, \<exists>k\<in>set ids. heard idx m k)"
      "sorted_wrt (<) d" "set d = {k \<in> set ids. silent idx ?th m k}"
    using scan_result [of ?m idx ?th ids False] unfolding f by auto
  show ?thesis
    by (rule that [of d w]) (use r False hd_is_Min [OF r(2)] in \<open>simp_all add: group_read_hardware_values_def Let_def\<close>)
qed

section \<open>The read cycle of a servo on this driver\<close>

lemma wrap_frame:
  "checker_temperature_exceed (fst (initialize_position_wrap sv)) = checker_temperature_exceed sv"
  "safe_mode (fst (initialize_position_wrap sv)) = safe_mode sv" "p_device (fst (initialize_position_wrap sv)) = p_device sv"
  "temperature (fst (initialize_position_wrap sv)) = temperature sv"
  by (simp_all add: initialize_position_wrap_def Let_def)

lemma mit_read_temperature:
  "in_cache (data_index sv) \<Longrightarrow>
   temperature (fst (mit_read_hardware_values True m sv)) =
     of_int_f binary32 (uint (temperature_u8 (received m ! nat (data_index sv))))"
  by (simp add: mit_read_hardware_values_def Let_def case_prod_beta wrap_frame)

interpretation mit_reader: value_reader "mit_read_hardware_values True"
  by unfold_locales (simp_all add: mit_read_hardware_values_def Let_def case_prod_beta wrap_frame)

text \<open>With the startup unwrapping over, a cycle always reads, and a run of hot frames is a hot run.\<close>

definition wrap_done :: "'a servo_scheme \<Rightarrow> bool" where
  "wrap_done sv \<longleftrightarrow> flt_le (position_wrap_period sv) (Fin 0) \<or> position_wrap_initialized sv"

definition slot_temperature :: "'m mit_scheme \<Rightarrow> 'a servo_scheme \<Rightarrow> int" where
  "slot_temperature m sv = uint (temperature_u8 (received m ! nat (data_index sv)))"

lemma wrap_done_idle: "wrap_done sv \<Longrightarrow> initialize_position_wrap sv = (sv, SUCCESS)"
  by (simp add: wrap_done_def initialize_position_wrap_def)

lemma mit_read_done:
  assumes "wrap_done sv" "in_cache (data_index sv)"
  shows "snd (mit_read_hardware_values True m sv) = SUCCESS"
    and "data_index (fst (mit_read_hardware_values True m sv)) = data_index sv"
    and "wrap_done (fst (mit_read_hardware_values True m sv))"
  using assms by (simp_all add: mit_read_hardware_values_def Let_def case_prod_beta wrap_done_def initialize_position_wrap_def)

lemma safety_checks_keep:
  "data_index (fst (safety_checks sv)) = data_index sv \<and> wrap_done (fst (safety_checks sv)) = wrap_done sv"
proof -
  let ?P = "\<lambda>s. data_index s = data_index sv \<and> wrap_done s = wrap_done sv"
  show ?thesis unfolding safety_checks_def
    by (intro then_check_fst [where P = ?P]) (simp_all add: check_defs wrap_done_def Let_def split: prod.split)
qed

lemma cycle_keep:
  assumes "wrap_done sv" "in_cache (data_index sv)"
  shows "data_index (fst (read_hardware_values (Some (mit_read_hardware_values True m)) sv)) = data_index sv \<and>
    wrap_done (fst (read_hardware_values (Some (mit_read_hardware_values True m)) sv))"
proof -
  have k: "wrap_done (keep_previous sv)" "data_index (keep_previous sv) = data_index sv"
    using assms by (simp_all add: keep_previous_def wrap_done_def)
  obtain sv1 where r: "mit_read_hardware_values True m (keep_previous sv) = (sv1, SUCCESS)"
      "data_index sv1 = data_index sv" "wrap_done sv1"
    using mit_read_done [OF k(1), of m] k(2) assms(2) by (metis prod.collapse)
  have e: "data_index (estimate_current sv1) = data_index sv" "wrap_done (estimate_current sv1)"
    using r by (simp_all add: estimate_current_def wrap_done_def)
  show ?thesis using r e safety_checks_keep [of "estimate_current sv1"]
    by (auto simp: read_hardware_values_def Let_def split: prod.split option.split)
qed

lemma hot_frames_run:
  assumes "wrap_done sv" "in_cache (data_index sv)" "\<forall>m\<in>set ms. 93 < slot_temperature m sv"
  shows "hot_run (mit_read_hardware_values True) sv ms"
  using assms
proof (induction ms arbitrary: sv)
  case (Cons m ms)
  let ?k = "keep_previous sv"
  have k: "wrap_done ?k" "data_index ?k = data_index sv" using Cons.prems by (simp_all add: keep_previous_def wrap_done_def)
  have "\<bar>slot_temperature m sv\<bar> \<le> 2 ^ 24"
    using uint_bounded [of "temperature_u8 (received m ! nat (data_index sv))"] by (simp add: slot_temperature_def)
  note exact = of_int_f32_exact [OF this]
  have "temperature (fst (mit_read_hardware_values True m ?k)) = Fin (real_of_int (slot_temperature m sv))"
    using mit_read_temperature [of ?k m] exact k(2) Cons.prems(2) unfolding slot_temperature_def by metis
  then have "flt_lt (Fin 93) (temperature (fst (mit_read_hardware_values True m ?k)))" using Cons.prems(3) by simp
  then have "hot_cycle (mit_read_hardware_values True m) sv"
    using mit_read_done(1) [OF k(1), of m] k(2) Cons.prems(2) by (simp add: hot_cycle_def)
  moreover have "hot_run (mit_read_hardware_values True)
      (fst (read_hardware_values (Some (mit_read_hardware_values True m)) sv)) ms"
    using cycle_keep [OF Cons.prems(1,2), of m] Cons.prems by (intro Cons.IH) (simp_all add: slot_temperature_def)
  ultimately show ?case by simp
qed simp

section \<open>Properties\<close>

text \<open>C1: every received frame changes at most the slot of its owner. For any buffer handed to the reception
  callback the cache keeps its 20 slots and the routes stay valid; a slot other than the owner's is
  unchanged, and a slot that changes carries the time of this frame.\<close>

theorem reception_touches_one_slot:
  assumes "mit_ok m"
  shows "let m' = handle_received_message idx (Some f) buf_size n m
    in mit_ok m' \<and> (\<forall>j < 20. received m' ! j = received m ! j \<or>
         int j = frame_owner idx f m \<and> last_update_perf (received m' ! j) = now m)"
proof (cases "buf_size < 16 \<or> n < 16")
  case False
  obtain c where c: "handle_frame idx f m = m\<lparr>received := c\<rparr>" using handle_frame_received by blast
  have o: "one_slot (frame_owner idx f m) (now m) (received m) c"
    using handle_frame_one_slot [OF assms, of idx f] c by simp
  then have "mit_ok (m\<lparr>received := c\<rparr>)" using assms one_slot_length [OF o] by (simp add: mit_ok_def)
  moreover have "length (received m) = 20" using assms by (simp add: mit_ok_def)
  ultimately show ?thesis using False one_slot_nth [OF o] by (auto simp: handle_received_message_def c)
qed (use assms in \<open>simp add: handle_received_message_def\<close>)

definition sample_mit :: mit where
  "sample_mit = \<lparr>sock = True, reads = [], writes = [], tx = [], now = 7000000, rx_running = True,
     received = new_received, passive_encoder_routes = [], dm_objs = (\<lambda>_. None), last_enable_fault_status = -1,
     dead_servo_ids = [], last_failed_servo_id = -1, any_motor_moved = False, stall_warned_since = []\<rparr>"

lemma sample_mit_ok: "mit_ok sample_mit" "mit_ok (sample_mit\<lparr>dm_objs := ob\<rparr>)"
  by (simp_all add: mit_ok_def sample_mit_def new_received_def)

theorem reception_touches_one_slot_witness:
  "let m = sample_mit\<lparr>dm_objs := [4 \<mapsto> \<lparr>obj_type = DM_4310, obj_param = Some g_servo_dm_param_4310,
         encos_param_override = None, reported_spd = None, reported_tor = None\<rparr>]\<rparr>;
       f = \<lparr>can_id = 0x14, can_dlc = 8, data = [0x14, 0x80, 0, 0x7F, 0xF7, 0xFF, 0, 30]\<rparr>;
       m' = handle_received_message (\<lambda>k. if k = 4 then 2 else -1) (Some f) 16 16 m
   in motor_id (received m' ! 2) = 4 \<and> last_update_perf (received m' ! 2) = 7000000 \<and> received m' ! 3 = zero_received"
proof -
  let ?m = "sample_mit\<lparr>dm_objs := [4 \<mapsto> \<lparr>obj_type = DM_4310, obj_param = Some g_servo_dm_param_4310,
         encos_param_override = None, reported_spd = None, reported_tor = None\<rparr>]\<rparr>"
  let ?f = "\<lparr>can_id = 0x14, can_dlc = 8, data = [0x14, 0x80, 0, 0x7F, 0xF7, 0xFF, 0, 30]\<rparr>"
  let ?idx = "\<lambda>k. if k = 4 then 2 else (-1::int)"
  let ?m' = "handle_received_message ?idx (Some ?f) 16 16 ?m"
  have id4: "dm_response_motor_id ?f = 4" by (simp add: dm_response_motor_id_def byte_def)
  have r: "passive_encoder_routes ?m = []" "received ?m = new_received" "now ?m = 7000000" by (simp_all add: sample_mit_def)
  have c: "received ?m' = new_received[2 := (new_received ! 2)
      \<lparr>motor_id := 4, error_u8 := 1, angle_actual_rad := angle_actual_rad (received ?m' ! 2),
       speed_actual_rad := speed_actual_rad (received ?m' ! 2),
       current_actual_float := current_actual_float (received ?m' ! 2), temperature_u8 := 30, last_update_perf := 7000000\<rparr>]"
    by (simp add: handle_received_message_def handle_frame_def r id4 parse_dm_servo_status_def byte_def
        dm_par_def MAX_SERVO_INFO_BUF_SIZE_def new_received_def)
  have "frame_owner ?idx ?f ?m = 2" by (simp add: frame_owner_def r id4)
  moreover have "\<forall>j<20. received ?m' ! j = received ?m ! j \<or>
      int j = frame_owner ?idx ?f ?m \<and> last_update_perf (received ?m' ! j) = now ?m"
    using reception_touches_one_slot [OF sample_mit_ok(2)] unfolding Let_def by blast
  from this [rule_format, of 3] calculation have "received ?m' ! 3 = received ?m ! 3" by simp
  then have "received ?m' ! 3 = zero_received" by (simp add: r new_received_def)
  moreover have "motor_id (received ?m' ! 2) = 4" "last_update_perf (received ?m' ! 2) = 7000000"
    by (subst c, simp add: new_received_def)+
  ultimately show ?thesis unfolding Let_def by blast
qed

text \<open>C34: the group read names exactly the silent servos. The dead ids are the ids of the device that have
  no slot, were never heard or whose newest frame is older than the threshold; the read succeeds when
  there is none and otherwise reports the lowest of them. The cache and the clock are only read.\<close>

theorem group_read_exact:
  "let (m', rc) = group_read_hardware_values idx (Some ids) m;
       dead = {k \<in> set ids. silent idx (if any_motor_moved m then 10000 else 2500) m k}
   in set (dead_servo_ids m') = dead \<and> rc = (if dead = {} then SUCCESS else FAIL) \<and>
      last_failed_servo_id m' = (if dead = {} then -1 else Min dead) \<and>
      any_motor_moved m' = (any_motor_moved m \<or> (\<exists>k\<in>set ids. heard idx m k)) \<and>
      received m' = received m \<and> now m' = now m"
proof -
  have th: "stale_threshold b = (if b then 10000 else 2500)" for b
    by (simp add: stale_threshold_def CAN_MIT_STALE_FRAME_AGE_NORMAL_MS_def CAN_MIT_STALE_FRAME_AGE_INITIAL_MS_def)
  obtain d w where run: "group_read_hardware_values idx (Some ids) m =
      (m\<lparr>dead_servo_ids := d, stall_warned_since := w, last_failed_servo_id := (if d = [] then -1 else Min (set d)),
         any_motor_moved := (any_motor_moved m \<or> (\<exists>k\<in>set ids. heard idx m k))\<rparr>,
       if d = [] then SUCCESS else FAIL)"
    and "sorted_wrt (<) d" and d: "set d = {k \<in> set ids. silent idx (stale_threshold (any_motor_moved m)) m k}"
    by (rule group_read_result)
  show ?thesis unfolding Let_def d [unfolded th, symmetric] run by simp
qed

text \<open>hearing one servo relaxes the watchdog instead of tightening it. While no frame has been seen, a servo
  that is silent for more than 2.5 s is dead; when every servo was heard within the last 10 s, the next group
  read, at the same time and on the same cache, reports that very servo alive.\<close>

theorem watchdog_relaxes:
  assumes "\<not> any_motor_moved m" "\<forall>k\<in>set ids. heard idx m k \<and> frame_age idx m k \<le> 10000"
    and "j \<in> set ids" "2500 < frame_age idx m j"
    and "group_read_hardware_values idx (Some ids) m = (m1, rc1)"
  shows "rc1 = FAIL \<and> j \<in> set (dead_servo_ids m1) \<and> snd (group_read_hardware_values idx (Some ids) m1) = SUCCESS"
proof -
  note th = stale_threshold_def CAN_MIT_STALE_FRAME_AGE_NORMAL_MS_def CAN_MIT_STALE_FRAME_AGE_INITIAL_MS_def
  obtain d w where 1: "group_read_hardware_values idx (Some ids) m =
      (m\<lparr>dead_servo_ids := d, stall_warned_since := w, last_failed_servo_id := (if d = [] then -1 else Min (set d)),
         any_motor_moved := (any_motor_moved m \<or> (\<exists>k\<in>set ids. heard idx m k))\<rparr>,
       if d = [] then SUCCESS else FAIL)"
    and "sorted_wrt (<) d" and d: "set d = {k \<in> set ids. silent idx (stale_threshold (any_motor_moved m)) m k}"
    by (rule group_read_result)
  have j: "j \<in> set d" using assms(1,3,4) by (simp add: d silent_def th)
  then have "d \<noteq> []" by auto
  with 1 assms(2,3,5) have m1: "rc1 = FAIL" "dead_servo_ids m1 = d" "any_motor_moved m1"
    "received m1 = received m" "now m1 = now m" by auto
  have "silent idx (stale_threshold (any_motor_moved m1)) m1 k = False" if "k \<in> set ids" for k
    using assms(2) that m1(3-5) by (auto simp: silent_def heard_def frame_age_def th)
  then have "{k \<in> set ids. silent idx (stale_threshold (any_motor_moved m1)) m1 k} = {}" by blast
  moreover obtain d2 w2 where 2: "group_read_hardware_values idx (Some ids) m1 =
      (m1\<lparr>dead_servo_ids := d2, stall_warned_since := w2,
         last_failed_servo_id := (if d2 = [] then -1 else Min (set d2)),
         any_motor_moved := (any_motor_moved m1 \<or> (\<exists>k\<in>set ids. heard idx m1 k))\<rparr>,
       if d2 = [] then SUCCESS else FAIL)"
    and "sorted_wrt (<) d2" and d2: "set d2 = {k \<in> set ids. silent idx (stale_threshold (any_motor_moved m1)) m1 k}"
    by (rule group_read_result)
  ultimately have "d2 = []" unfolding set_empty [symmetric] by (simp only: d2)
  then show ?thesis using m1(1,2) j by (simp add: 2)
qed

theorem watchdog_relaxes_witness:
  "let m = sample_mit\<lparr>received := new_received[1 := zero_received\<lparr>motor_id := 4, last_update_perf := 4000000\<rparr>]\<rparr>;
       (m1, rc1) = group_read_hardware_values (\<lambda>k. k - 3) (Some [4]) m
   in rc1 = FAIL \<and> dead_servo_ids m1 = [4] \<and> snd (group_read_hardware_values (\<lambda>k. k - 3) (Some [4]) m1) = SUCCESS"
proof -
  let ?m = "sample_mit\<lparr>received := new_received[1 := zero_received\<lparr>motor_id := 4, last_update_perf := 4000000\<rparr>]\<rparr>"
  let ?idx = "\<lambda>k. k - (3::int)"
  note defs = sample_mit_def new_received_def MAX_SERVO_INFO_BUF_SIZE_def in_cache_def age_ms_def
  have h: "heard ?idx ?m 4" "frame_age ?idx ?m 4 = 3000" by (simp_all add: heard_def frame_age_def defs)
  obtain m1 rc1 where r: "group_read_hardware_values ?idx (Some [4]) ?m = (m1, rc1)" by fastforce
  have "dead_servo_ids (fst (group_read_hardware_values ?idx (Some [4]) ?m)) = [4]"
    by (simp add: group_read_hardware_values_def scan_servo_def defs stale_threshold_def
        CAN_MIT_STALE_FRAME_AGE_INITIAL_MS_def)
  then have "dead_servo_ids m1 = [4]" unfolding r by simp
  moreover have "\<not> any_motor_moved ?m" by (simp add: sample_mit_def)
  ultimately have "rc1 = FAIL \<and> dead_servo_ids m1 = [4] \<and> snd (group_read_hardware_values ?idx (Some [4]) m1) = SUCCESS"
    using watchdog_relaxes [OF _ _ _ _ r, of 4] h by simp
  then show ?thesis unfolding Let_def r by simp
qed

text \<open>C6: an overheated motor stops the cycle. With the MIT driver as the source of the values, a run of
  at least a hundred cycles whose frames carry more than 93 degrees ends with
  \<open>SAFE_MODE_TEMPERATURE\<close>, whatever else the frames carry.\<close>

theorem overheated_motor_stops:
  assumes "wrap_done sv" "in_cache (data_index sv)" "\<forall>m' \<in> set (ms @ [m]). 93 < slot_temperature m' sv"
    and "\<not> dev_read_only (p_device sv)" "checker_temperature_exceed sv = new_hold_checker MAX_CNT_TEMPERATURE_EXCEED"
    and "99 \<le> length ms"
  shows "snd (read_hardware_values (Some (mit_read_hardware_values True m))
    (cycles (mit_read_hardware_values True) sv ms)) = SAFE_MODE_TEMPERATURE"
  using mit_reader.hot_run_stops [OF hot_frames_run [OF assms(1-3)] assms(4-6)] .

theorem overheated_motor_stops_witness:
  "let sv = new_servo sample_servo False False; m = sample_mit\<lparr>received := new_received[3 := zero_received\<lparr>temperature_u8 := 95\<rparr>]\<rparr>
   in snd (read_hardware_values (Some (mit_read_hardware_values True m))
        (cycles (mit_read_hardware_values True) sv (replicate 99 m))) = SAFE_MODE_TEMPERATURE"
proof -
  let ?sv = "new_servo sample_servo False False"
  let ?m = "sample_mit\<lparr>received := new_received[3 := zero_received\<lparr>temperature_u8 := 95\<rparr>]\<rparr>"
  note d = new_servo_def sample_servo_def servo_data.extend_def
  have "wrap_done ?sv" "in_cache (data_index ?sv)" "93 < slot_temperature ?m ?sv" "\<not> dev_read_only (p_device ?sv)"
    "checker_temperature_exceed ?sv = new_hold_checker MAX_CNT_TEMPERATURE_EXCEED"
    by (simp_all add: d wrap_done_def in_cache_def MAX_SERVO_INFO_BUF_SIZE_def slot_temperature_def new_received_def)
  then have "snd (read_hardware_values (Some (mit_read_hardware_values True ?m))
      (cycles (mit_read_hardware_values True) ?sv (replicate 99 ?m))) = SAFE_MODE_TEMPERATURE"
    by (intro overheated_motor_stops) auto
  then show ?thesis unfolding Let_def .
qed

text \<open>the temperature flag of the safe mode is never set. No sequence of read cycles on the MIT driver sets it,
  so the temperature bit of the published safe-mode mask stays clear, also after a temperature stop.\<close>

theorem temperature_flag_never_set:
  assumes "\<not> is_temperature (safe_mode sv)"
  shows "\<not> is_temperature (safe_mode (cycles (mit_read_hardware_values True) sv ms))"
  using assms by (rule mit_reader.cycles_flag)

theorem temperature_flag_never_set_witness:
  "\<not> is_temperature (safe_mode (cycles (mit_read_hardware_values True) (new_servo sample_servo False False)
     (replicate 500 (sample_mit\<lparr>received := new_received[3 := zero_received\<lparr>temperature_u8 := 95\<rparr>]\<rparr>))))"
  by (rule temperature_flag_never_set) (simp add: new_servo_def servo_data.extend_def new_safe_mode_def)

end
