(* ===== verification/Encoder_Setup.thy ===== *)
theory Encoder_Setup
  imports Driver_Can_Mit
begin

text \<open>
  Opening the MIT driver, \<^verbatim>\<open>native/pi_control/src/pi_driver_can_mit.cpp\<close>: before reception starts, every
  registered passive encoder is asked for its firmware version and its two frequencies, which are
  corrected and read back when they differ from the required values. All of it runs synchronously
  on the bus of \<open>Can_Bus\<close>; the waiting loops are recursive functions that end by the contract
  \<open>timed_source\<close>.
\<close>

section \<open>Requests and replies\<close>

definition kPassiveEncoderAllDevices :: u8 where "kPassiveEncoderAllDevices = 0xFF"
definition kPassiveEncoderReqReportFrequency :: u8 where "kPassiveEncoderReqReportFrequency = 0x01"
definition kPassiveEncoderReqVersion :: u8 where "kPassiveEncoderReqVersion = 0x03"
definition kPassiveEncoderReqAdcFrequency :: u8 where "kPassiveEncoderReqAdcFrequency = 0x04"
definition kPassiveEncoderReqReadings :: u8 where "kPassiveEncoderReqReadings = 0x06"
definition kPassiveEncoderReqGetEeprom :: u8 where "kPassiveEncoderReqGetEeprom = 0x07"
definition kPassiveEncoderResponseFlag :: u8 where "kPassiveEncoderResponseFlag = 0x80"
definition kPassiveEncoderAdcFrequencyHighOffset :: u8 where "kPassiveEncoderAdcFrequencyHighOffset = 27"
definition kPassiveEncoderAdcFrequencyLowOffset :: u8 where "kPassiveEncoderAdcFrequencyLowOffset = 8"
definition kPassiveEncoderReportFrequencyHighOffset :: u8 where "kPassiveEncoderReportFrequencyHighOffset = 28"
definition kPassiveEncoderReportFrequencyLowOffset :: u8 where "kPassiveEncoderReportFrequencyLowOffset = 25"
definition kPassiveEncoderRequiredAdcFrequency :: int where "kPassiveEncoderRequiredAdcFrequency = 255"
definition kPassiveEncoderRequiredReportFrequency :: int where "kPassiveEncoderRequiredReportFrequency = 0"
definition kPassiveEncoderVersionTimeoutMs :: nat where "kPassiveEncoderVersionTimeoutMs = 1000"
definition kPassiveEncoderEepromTimeoutMs :: nat where "kPassiveEncoderEepromTimeoutMs = 500"
definition kPassiveEncoderDrainTimeoutMs :: nat where "kPassiveEncoderDrainTimeoutMs = 50"

definition send_passive_encoder_request :: "int \<Rightarrow> u8 list \<Rightarrow> 'a bus_scheme \<Rightarrow> 'a bus_scheme \<times> ReturnCode" where
  "send_passive_encoder_request request_can_id p_data b =
     (if p_data = [] \<or> 8 < length p_data then (b, INVALID_PARAM)
      else send_frame (mk_frame (word_of_int request_can_id) (length p_data) p_data) b)"

text \<open>The loop of the two waiting functions: \<open>accept\<close> is the test on a frame with its result.\<close>

function poll_until ::
  "(can_frame \<Rightarrow> 'r option) \<Rightarrow> nat \<Rightarrow> 'a bus_scheme \<Rightarrow> 'a bus_scheme \<times> ReturnCode \<times> 'r option" where
  "poll_until accept deadline b =
     (if \<not> now b < deadline then (b, NO_RESPONSE, None)
      else case read_frame b of (b', rc, fo) \<Rightarrow>
        if rc = NO_RESPONSE then poll_until accept deadline b'
        else if rc \<noteq> SUCCESS then (b', rc, None)
        else case fo of
          None \<Rightarrow> (b', FAIL, None)
        | Some f \<Rightarrow> (case accept f of None \<Rightarrow> poll_until accept deadline b' | Some r \<Rightarrow> (b', SUCCESS, Some r)))"
  by pat_completeness auto

lemma read_frame_closed: "\<not> sock b \<Longrightarrow> read_frame b = (b, FAIL, None)"
  by (simp add: read_frame_def)

lemma poll_measure:
  assumes "now b < deadline" "read_frame b = (b', rc, fo)" "rc = NO_RESPONSE \<or> rc = SUCCESS"
  shows "(b', b) \<in> measures [\<lambda>b. length (reads b), \<lambda>b. deadline - now b]"
proof -
  have "sock b" using assms(2,3) read_frame_closed [of b] by auto
  from can_bus.poll_decreases [OF this assms(1,2)] show ?thesis by auto
qed

termination poll_until
proof (relation "inv_image (measures [\<lambda>(d, b). length (reads b), \<lambda>(d, b). d - now b]) (\<lambda>(a, d, b). (d, b))",
    goal_cases)
  case (2 accept deadline b b' y rc fo)
  then show ?case using poll_measure [of b deadline b' rc fo] by simp
next
  case (3 accept deadline b b' y rc fo f)
  then show ?case using poll_measure [of b deadline b' rc fo] by simp
qed simp

declare poll_until.simps [simp del]

definition reply_matches :: "int \<Rightarrow> int \<Rightarrow> u8 \<Rightarrow> nat \<Rightarrow> can_frame \<Rightarrow> can_frame option" where
  "reply_matches request_can_id expected_device expected_command expected_len f =
     (if uint (can_id f AND 0x7FF) \<noteq> request_can_id \<or> can_dlc f \<noteq> expected_len \<or> byte f 1 \<noteq> expected_command \<or>
         0 \<le> expected_device \<and> byte f 0 \<noteq> word_of_int expected_device
      then None else Some f)"

definition wait_for_passive_encoder_reply ::
  "int \<Rightarrow> int \<Rightarrow> u8 \<Rightarrow> nat \<Rightarrow> nat \<Rightarrow> 'a bus_scheme \<Rightarrow> 'a bus_scheme \<times> ReturnCode \<times> can_frame option" where
  "wait_for_passive_encoder_reply request_can_id expected_device expected_command expected_len timeout_ms b =
     poll_until (reply_matches request_can_id expected_device expected_command expected_len) (now b + timeout_ms * 1000) b"

text \<open>The compatibility mode accepts the old reply (5 bytes, 16-bit value) and the new one (3 bytes).\<close>

definition eeprom_reply :: "int \<Rightarrow> u8 \<Rightarrow> can_frame \<Rightarrow> u8 option" where
  "eeprom_reply request_can_id device f =
     (if uint (can_id f AND 0x7FF) \<noteq> request_can_id \<or> byte f 0 \<noteq> device then None
      else if can_dlc f = 5 \<and> byte f 1 = kPassiveEncoderReqReadings OR kPassiveEncoderResponseFlag
      then Some (ucast (be16 (byte f 2) (byte f 3) AND 0xFF))
      else if can_dlc f = 3 \<and> byte f 1 = kPassiveEncoderReqGetEeprom OR kPassiveEncoderResponseFlag
      then Some (byte f 2)
      else None)"

definition read_passive_encoder_eeprom ::
  "int \<Rightarrow> u8 \<Rightarrow> u8 \<Rightarrow> bool \<Rightarrow> 'a bus_scheme \<Rightarrow> 'a bus_scheme \<times> ReturnCode \<times> u8 option" where
  "read_passive_encoder_eeprom request_can_id device offset fw_compat b =
     (let (b, rc) = send_passive_encoder_request request_can_id [device, kPassiveEncoderReqGetEeprom, offset] b
      in if rc \<noteq> SUCCESS then (b, rc, None)
         else if \<not> fw_compat
         then (case wait_for_passive_encoder_reply request_can_id (uint device)
                 (kPassiveEncoderReqReadings OR kPassiveEncoderResponseFlag) 5 kPassiveEncoderEepromTimeoutMs b of
                 (b, rc, None) \<Rightarrow> (b, rc, None)
               | (b, rc, Some f) \<Rightarrow> (b, SUCCESS, Some (ucast (be16 (byte f 2) (byte f 3) AND 0xFF))))
         else poll_until (eeprom_reply request_can_id device) (now b + kPassiveEncoderEepromTimeoutMs * 1000) b)"

text \<open>
  \<^verbatim>\<open>read_passive_encoder_frequency\<close>: in compatibility mode a silent high byte counts as the
  uninitialised marker.
\<close>

definition frequency_of :: "u8 \<Rightarrow> u8 \<Rightarrow> int" where
  "frequency_of high low = (if high = 0xFF then uint low else push_bit 8 (uint high) OR uint low)"

definition read_passive_encoder_frequency ::
  "int \<Rightarrow> u8 \<Rightarrow> u8 \<Rightarrow> u8 \<Rightarrow> bool \<Rightarrow> 'a bus_scheme \<Rightarrow> 'a bus_scheme \<times> ReturnCode \<times> int option" where
  "read_passive_encoder_frequency request_can_id device high_offset low_offset fw_compat b =
     (let (b, rc, hi) = read_passive_encoder_eeprom request_can_id device high_offset fw_compat b;
          high = (if fw_compat \<and> rc = NO_RESPONSE then Some 0xFF else hi)
      in case high of
           None \<Rightarrow> (b, rc, None)
         | Some high \<Rightarrow>
             (case read_passive_encoder_eeprom request_can_id device low_offset fw_compat b of
                (b, rc, None) \<Rightarrow> (b, rc, None)
              | (b, rc, Some low) \<Rightarrow> (b, SUCCESS, Some (frequency_of high low))))"

section \<open>Configuration\<close>

text \<open>
  One encoder. The third component is what the final log line reports: the firmware version and the
  two frequencies. \<open>correct_frequency\<close> is the write, the wait of 100 ms and the read-back.
\<close>

definition correct_frequency ::
  "int \<Rightarrow> u8 \<Rightarrow> u8 \<Rightarrow> int \<Rightarrow> u8 \<Rightarrow> u8 \<Rightarrow> bool \<Rightarrow> int \<Rightarrow> 'a bus_scheme \<Rightarrow> 'a bus_scheme \<times> ReturnCode \<times> int option" where
  "correct_frequency request_can_id device req required high_offset low_offset fw_compat current b =
     (if current = required then (b, SUCCESS, Some current)
      else let (b, rc) = send_passive_encoder_request request_can_id
                 [kPassiveEncoderAllDevices, req, word_of_int required] b
           in if rc \<noteq> SUCCESS then (b, rc, None)
              else case read_passive_encoder_frequency request_can_id device high_offset low_offset fw_compat
                          (usleep 100000 b) of
                     (b, rc, None) \<Rightarrow> (b, rc, None)
                   | (b, rc, Some v) \<Rightarrow> if v \<noteq> required then (b, FAIL, None) else (b, SUCCESS, Some v))"

definition firmware_below_minimum :: "u8 \<Rightarrow> u8 \<Rightarrow> u8 \<Rightarrow> bool" where
  "firmware_below_minimum major minor patch \<longleftrightarrow>
     uint major < 2 \<or> uint major = 2 \<and> (uint minor < 2 \<or> uint minor = 2 \<and> uint patch < 12)"

definition configure_passive_encoder ::
  "int \<Rightarrow> bool \<Rightarrow> 'a bus_scheme \<Rightarrow> 'a bus_scheme \<times> ReturnCode \<times> (u8 \<times> u8 \<times> u8 \<times> int \<times> int) option" where
  "configure_passive_encoder request_can_id fw_compat b =
     (let (b, rc) = send_passive_encoder_request request_can_id [kPassiveEncoderAllDevices, kPassiveEncoderReqVersion] b
      in if rc \<noteq> SUCCESS then (b, rc, None)
      else case wait_for_passive_encoder_reply request_can_id (-1)
                  (kPassiveEncoderReqVersion OR kPassiveEncoderResponseFlag) 5 kPassiveEncoderVersionTimeoutMs b of
        (b, rc, None) \<Rightarrow> (b, rc, None)
      | (b, rc, Some reply) \<Rightarrow>
      if firmware_below_minimum (byte reply 2) (byte reply 3) (byte reply 4) then (b, NOT_SUPPORTED, None)
      else let device = byte reply 0
      in case read_passive_encoder_frequency request_can_id device kPassiveEncoderAdcFrequencyHighOffset
                kPassiveEncoderAdcFrequencyLowOffset fw_compat b of
        (b, rc, None) \<Rightarrow> (b, rc, None)
      | (b, rc, Some adc) \<Rightarrow>
      case read_passive_encoder_frequency request_can_id device kPassiveEncoderReportFrequencyHighOffset
                kPassiveEncoderReportFrequencyLowOffset fw_compat b of
        (b, rc, None) \<Rightarrow> (b, rc, None)
      | (b, rc, Some report) \<Rightarrow>
      case correct_frequency request_can_id device kPassiveEncoderReqAdcFrequency kPassiveEncoderRequiredAdcFrequency
                kPassiveEncoderAdcFrequencyHighOffset kPassiveEncoderAdcFrequencyLowOffset fw_compat adc b of
        (b, rc, None) \<Rightarrow> (b, rc, None)
      | (b, rc, Some adc) \<Rightarrow>
      case correct_frequency request_can_id device kPassiveEncoderReqReportFrequency
                kPassiveEncoderRequiredReportFrequency kPassiveEncoderReportFrequencyHighOffset
                kPassiveEncoderReportFrequencyLowOffset fw_compat report b of
        (b, rc, None) \<Rightarrow> (b, rc, None)
      | (b, rc, Some report) \<Rightarrow>
          (b, SUCCESS, Some (byte reply 2, byte reply 3, byte reply 4, adc, report)))"

text \<open>The requests, one per encoder id in ascending order, with the disjunction of the routes' flags.\<close>

definition add_request :: "int \<times> route \<Rightarrow> (int, bool) smap \<Rightarrow> (int, bool) smap" where
  "add_request p q =
     (let k = encoder_id (snd p); old = (case smap_find q k of None \<Rightarrow> False | Some c \<Rightarrow> c)
      in smap_set k (old \<or> firmware_compat (snd p)) q)"

definition request_firmware_compat :: "(int, route) smap \<Rightarrow> (int, bool) smap" where
  "request_firmware_compat routes = fold add_request routes []"

fun configure_all :: "(int \<times> bool) list \<Rightarrow> 'a bus_scheme \<Rightarrow> 'a bus_scheme \<times> ReturnCode" where
  "configure_all [] b = (b, SUCCESS)"
| "configure_all ((request_can_id, fw_compat) # rest) b =
     (let (b, rc, _) = configure_passive_encoder request_can_id fw_compat b
      in if rc \<noteq> SUCCESS then (b, rc) else configure_all rest b)"

function drain_until :: "nat \<Rightarrow> 'a bus_scheme \<Rightarrow> 'a bus_scheme" where
  "drain_until deadline b =
     (if \<not> now b < deadline then b
      else case read_frame b of (b', rc, fo) \<Rightarrow> if rc \<noteq> SUCCESS then b' else drain_until deadline b')"
  by pat_completeness auto
termination drain_until
proof (relation "inv_image (measures [\<lambda>(d, b). length (reads b), \<lambda>(d, b). d - now b]) (\<lambda>(d, b). (d, b))", goal_cases)
  case (2 deadline b b' y rc fo)
  then show ?case using poll_measure [of b deadline b' rc fo] by simp
qed simp

declare drain_until.simps [simp del]

definition drain_startup_frames :: "'a bus_scheme \<Rightarrow> 'a bus_scheme" where
  "drain_startup_frames b = drain_until (now b + kPassiveEncoderDrainTimeoutMs * 1000) b"

definition configure_passive_encoders :: "'a mit_scheme \<Rightarrow> 'a mit_scheme \<times> ReturnCode" where
  "configure_passive_encoders m =
     (let requests = request_firmware_compat (passive_encoder_routes m); (m, rc) = configure_all requests m
      in if rc \<noteq> SUCCESS then (m, rc)
         else (if requests \<noteq> [] then drain_startup_frames m else m, SUCCESS))"

definition mit_open :: "open_env \<Rightarrow> 'a mit_scheme \<Rightarrow> 'a mit_scheme \<times> ReturnCode" where
  "mit_open e m =
     (let (m, rc) = can_open e m
      in if rc \<noteq> SUCCESS then (m, rc)
      else let (m, rc) = configure_passive_encoders m
      in if rc \<noteq> SUCCESS then (fst (can_close m), rc)
      else let (m, rc) = start_rx m
      in if rc \<noteq> SUCCESS then (fst (can_close m), rc) else (m, SUCCESS))"

definition mit_close :: "'a mit_scheme \<Rightarrow> 'a mit_scheme \<times> ReturnCode" where
  "mit_close m = can_close m"

section \<open>Lemmas\<close>

text \<open>Every configuration step is traffic of requests to an encoder.\<close>

definition encoder_request :: "int \<Rightarrow> can_frame \<Rightarrow> bool" where
  "encoder_request k f \<longleftrightarrow> can_id f = word_of_int k \<and> can_dlc f \<in> {2, 3}"

lemma poll_until_traffic: "traffic P 0 b (fst (poll_until accept d b))"
proof (induction accept d b rule: poll_until.induct)
  case (1 accept d b)
  obtain b' rc fo where r: "read_frame b = (b', rc, fo)" by (metis prod_cases3)
  have t: "traffic P 0 b b'" using traffic_read [of P b] by (simp add: r)
  note step = traffic_trans [OF t, where k = 0, simplified]
  show ?case
  proof (cases "now b < d")
    case True
    with 1 show ?thesis using t step by (auto simp: poll_until.simps [of accept d b] r traffic_refl split: option.split)
  qed (simp add: poll_until.simps [of accept d b] traffic_refl)
qed

lemma drain_traffic: "traffic P 0 b (drain_until d b)"
proof (induction d b rule: drain_until.induct)
  case (1 d b)
  obtain b' rc fo where r: "read_frame b = (b', rc, fo)" by (metis prod_cases3)
  have t: "traffic P 0 b b'" using traffic_read [of P b] by (simp add: r)
  note step = traffic_trans [OF t, where k = 0, simplified]
  show ?case
  proof (cases "now b < d")
    case True
    with 1 show ?thesis using t step by (auto simp: drain_until.simps [of d b] r)
  qed (simp add: drain_until.simps [of d b] traffic_refl)
qed

lemma poll_until_result: "poll_until accept d b = (b', rc, r) \<Longrightarrow> (rc = SUCCESS \<longleftrightarrow> r \<noteq> None)"
proof (induction accept d b rule: poll_until.induct)
  case (1 accept d b)
  obtain b1 rc1 fo where r: "read_frame b = (b1, rc1, fo)" by (metis prod_cases3)
  show ?case
  proof (cases "now b < d")
    case True
    with 1 show ?thesis by (auto simp: poll_until.simps [of accept d b] r split: if_splits option.splits) metis
  next
    case False
    with 1 show ?thesis by (auto simp: poll_until.simps [of accept d b])
  qed
qed

text \<open>Sequencing of the two shapes of result the configuration steps have.\<close>

lemma traffic_case_option:
  assumes "traffic P n b (fst x)" and "\<And>b' rc v. x = (b', rc, Some v) \<Longrightarrow> traffic P k b' (fst (g b' rc v))"
  shows "traffic P (n + k) b (fst (case x of (b', rc, None) \<Rightarrow> (b', rc, None) | (b', rc, Some v) \<Rightarrow> g b' rc v))"
proof -
  obtain b' rc o' where x: "x = (b', rc, o')" by (metis prod_cases3)
  show ?thesis
  proof (cases o')
    case None
    then show ?thesis using traffic_mono [OF assms(1), of P "n + k"] by (simp add: x)
  next
    case (Some v)
    then show ?thesis using traffic_trans [of P n b b' k] assms x by simp
  qed
qed

lemma traffic_if_success:
  assumes "traffic P n b (fst x)" and "\<And>b'. x = (b', SUCCESS) \<Longrightarrow> traffic P k b' (fst (g b'))"
  shows "traffic P (n + k) b (fst (let (b', rc) = x in if rc \<noteq> SUCCESS then (b', rc, None) else g b'))"
proof -
  obtain b' rc where x: "x = (b', rc)" by fastforce
  show ?thesis
  proof (cases "rc = SUCCESS")
    case True
    then show ?thesis using traffic_trans [of P n b b' k] assms x by simp
  next
    case False
    then show ?thesis using traffic_mono [OF assms(1), of P "n + k"] by (simp add: x)
  qed
qed

lemma request_traffic:
  "length p_data = 2 \<or> length p_data = 3 \<Longrightarrow>
   traffic (encoder_request k) 1 b (fst (send_passive_encoder_request k p_data b))"
  using traffic_send [of "encoder_request k" "mk_frame (word_of_int k) (length p_data) p_data" b]
  by (auto simp: send_passive_encoder_request_def encoder_request_def mk_frame_def)

lemma eeprom_traffic: "traffic (encoder_request k) 1 b (fst (read_passive_encoder_eeprom k device offset c b))"
proof -
  have w: "traffic (encoder_request k) 0 b' (fst (case wait_for_passive_encoder_reply k d cmd l t b' of
      (b, rc, None) \<Rightarrow> (b, rc, None) | (b, rc, Some f) \<Rightarrow> (b, SUCCESS, Some (g f))))" for b' :: "'a bus_scheme" and d cmd l t g
    using traffic_case_option [of _ 0 b' "wait_for_passive_encoder_reply k d cmd l t b'" 0 "\<lambda>b rc f. (b, SUCCESS, Some (g f))"]
    by (simp add: poll_until_traffic wait_for_passive_encoder_reply_def traffic_refl)
  show ?thesis unfolding read_passive_encoder_eeprom_def
    by (rule traffic_if_success [where n = 1 and k = 0, unfolded add_0_right])
      (auto intro: request_traffic [unfolded One_nat_def] poll_until_traffic w)
qed

lemma frequency_traffic:
  "traffic (encoder_request k) 2 b (fst (read_passive_encoder_frequency k device hi lo c b))"
proof -
  obtain b1 rc h where e: "read_passive_encoder_eeprom k device hi c b = (b1, rc, h)" by (metis prod_cases3)
  have t1: "traffic (encoder_request k) 1 b b1" using eeprom_traffic [of k b device hi c] by (simp add: e)
  have t2: "traffic (encoder_request k) 1 b1 (fst (case read_passive_encoder_eeprom k device lo c b1 of
      (b, rc, None) \<Rightarrow> (b, rc, None) | (b, rc, Some low) \<Rightarrow> (b, SUCCESS, Some (g low))))" for g
    using traffic_case_option [OF eeprom_traffic [of k b1 device lo c], of 0 "\<lambda>b rc low. (b, SUCCESS, Some (g low))"]
    by (simp add: traffic_refl)
  show ?thesis using traffic_trans [OF t1 t2] traffic_mono [OF t1, of "encoder_request k" 2]
    unfolding read_passive_encoder_frequency_def e Let_def prod.case
    by (auto simp: numeral_2_eq_2 split: option.split)
qed

lemma correct_traffic:
  "traffic (encoder_request k) 3 b (fst (correct_frequency k device req required hi lo c current b))"
proof (cases "current = required")
  case False
  have t: "traffic (encoder_request k) 2 b' (fst (case read_passive_encoder_frequency k device hi lo c (usleep us b') of
      (b, rc, None) \<Rightarrow> (b, rc, None) | (b, rc, Some v) \<Rightarrow> if v \<noteq> required then (b, FAIL, None) else (b, SUCCESS, Some v)))"
    for b' :: "'a bus_scheme" and us
  proof (rule traffic_trans [OF traffic_usleep, unfolded add_0_left])
    show "traffic (encoder_request k) 2 (usleep us b') (fst (case read_passive_encoder_frequency k device hi lo c (usleep us b') of
      (b, rc, None) \<Rightarrow> (b, rc, None) | (b, rc, Some v) \<Rightarrow> if v \<noteq> required then (b, FAIL, None) else (b, SUCCESS, Some v)))"
      by (rule traffic_case_option [OF frequency_traffic, where k = 0, unfolded add_0_right]) (simp add: traffic_refl)
  qed
  have "traffic (encoder_request k) (1 + 2) b (fst (correct_frequency k device req required hi lo c current b))"
    unfolding correct_frequency_def if_not_P [OF False]
    by (rule traffic_if_success) (auto intro: request_traffic [unfolded One_nat_def] t)
  then show ?thesis by (simp add: eval_nat_numeral)
qed (simp add: correct_frequency_def traffic_refl)

lemma configure_traffic: "traffic (encoder_request k) 11 b (fst (configure_passive_encoder k c b))"
proof -
  have "traffic (encoder_request k) (1 + (0 + (2 + (2 + (3 + (3 + 0)))))) b (fst (configure_passive_encoder k c b))"
    unfolding configure_passive_encoder_def
    apply (rule traffic_if_success)
     apply (rule request_traffic, simp)
    apply (rule traffic_case_option)
     apply (simp add: wait_for_passive_encoder_reply_def poll_until_traffic)
    apply (split if_split, intro conjI impI)
     apply (simp add: traffic_refl)
    unfolding Let_def
    by (intro traffic_case_option frequency_traffic correct_traffic) (simp add: traffic_refl)
  then show ?thesis by simp
qed

text \<open>Reported ready means read back.\<close>

lemma correct_frequency_required:
  "correct_frequency k device req required hi lo c current b = (b', rc, Some v) \<Longrightarrow> v = required"
  by (auto simp: correct_frequency_def split: if_splits prod.splits option.splits)

lemma eeprom_result: "read_passive_encoder_eeprom k device offset c b = (b', rc, v) \<Longrightarrow> rc = SUCCESS \<longleftrightarrow> v \<noteq> None"
  by (auto simp: read_passive_encoder_eeprom_def wait_for_passive_encoder_reply_def
      split: if_splits prod.splits option.splits dest: poll_until_result)

lemma frequency_result:
  "read_passive_encoder_frequency k device hi lo c b = (b', rc, v) \<Longrightarrow> rc = SUCCESS \<longleftrightarrow> v \<noteq> None"
  by (auto simp: read_passive_encoder_frequency_def Let_def split: if_splits prod.splits option.splits
      dest: eeprom_result)

lemma correct_result:
  "correct_frequency k device req required hi lo c current b = (b', rc, v) \<Longrightarrow> rc = SUCCESS \<longleftrightarrow> v \<noteq> None"
  by (auto simp: correct_frequency_def split: if_splits prod.splits option.splits dest: frequency_result)

lemma wait_result:
  "wait_for_passive_encoder_reply k d cmd l t b = (b', rc, v) \<Longrightarrow> rc = SUCCESS \<longleftrightarrow> v \<noteq> None"
  unfolding wait_for_passive_encoder_reply_def by (rule poll_until_result)

text \<open>Sequencing for the results: a step with no value ends the whole with its code.\<close>

lemma result_case_option:
  assumes "\<And>b' rc. x = (b', rc, None) \<Longrightarrow> rc \<noteq> SUCCESS"
    and "\<And>b' rc v. x = (b', rc, Some v) \<Longrightarrow> P (g b' rc v)"
    and "\<And>b' rc. rc \<noteq> SUCCESS \<Longrightarrow> P (b', rc, None)"
  shows "P (case x of (b', rc, None) \<Rightarrow> (b', rc, None) | (b', rc, Some v) \<Rightarrow> g b' rc v)"
proof -
  obtain b' rc o' where x: "x = (b', rc, o')" by (metis prod_cases3)
  then show ?thesis using assms by (cases o') auto
qed

definition ready_ok :: "'a bus_scheme \<times> ReturnCode \<times> (u8 \<times> u8 \<times> u8 \<times> int \<times> int) option \<Rightarrow> bool" where
  "ready_ok x \<longleftrightarrow> (case x of (b', rc, ready) \<Rightarrow>
     if rc = SUCCESS
     then \<exists>major minor patch. ready = Some (major, minor, patch, 255, 0) \<and> \<not> firmware_below_minimum major minor patch
     else ready = None)"

lemma ready_ok_fail: "rc \<noteq> SUCCESS \<Longrightarrow> ready_ok (b', rc, None)"
  by (simp add: ready_ok_def)

lemmas ready_seq = result_case_option [where P = ready_ok, OF _ _ ready_ok_fail]

lemma configure_result: "ready_ok (configure_passive_encoder k c b)"
proof -
  obtain b1 rc1 where s: "send_passive_encoder_request k [kPassiveEncoderAllDevices, kPassiveEncoderReqVersion] b = (b1, rc1)"
    by fastforce
  have last: "ready_ok (b', SUCCESS, Some (x, y, z, adc, report))"
    if "\<not> firmware_below_minimum x y z" "adc = 255" "report = 0" for b' :: "'a bus_scheme" and x y z adc report
    using that by (simp add: ready_ok_def)
  note req = kPassiveEncoderRequiredAdcFrequency_def kPassiveEncoderRequiredReportFrequency_def
  show ?thesis unfolding configure_passive_encoder_def s Let_def prod.case
    apply (split if_split, intro conjI impI)
     apply (simp add: ready_ok_fail)
    apply (rule ready_seq, use wait_result in fastforce)
     apply (split if_split, intro conjI impI)
      apply (simp add: ready_ok_fail)
     apply (rule ready_seq, use frequency_result in fastforce)
      apply (rule ready_seq, use frequency_result in fastforce)
       apply (rule ready_seq, use correct_result in fastforce)
        apply (rule ready_seq, use correct_result in fastforce)
         apply (rule last)
           apply (auto dest!: correct_frequency_required simp: req)
    done
qed

text \<open>The requests are the encoders of the routes.\<close>

lemma request_step:
  "smap_find (fold add_request routes q) k
   = (if \<exists>p \<in> set routes. encoder_id (snd p) = k
      then Some (smap_find q k = Some True \<or> (\<exists>p \<in> set routes. encoder_id (snd p) = k \<and> firmware_compat (snd p)))
      else smap_find q k)"
  by (induction routes arbitrary: q) (auto simp: add_request_def Let_def split: option.split)

lemma request_find:
  "smap_find (request_firmware_compat routes) k =
     (if \<exists>p \<in> set routes. encoder_id (snd p) = k
      then Some (\<exists>p \<in> set routes. encoder_id (snd p) = k \<and> firmware_compat (snd p)) else None)"
  unfolding request_firmware_compat_def request_step by simp

lemma smap_set_length: "length (smap_set k v q) \<le> Suc (length q)"
  by (induction k v q rule: smap_set.induct) auto

lemma request_length: "length (request_firmware_compat routes) \<le> length routes"
proof -
  have "length (fold add_request routes q) \<le> length q + length routes" for q
  proof (induction routes arbitrary: q)
    case (Cons p routes)
    have "length (add_request p q) \<le> Suc (length q)" by (simp add: add_request_def Let_def smap_set_length)
    then show ?case using Cons [of "add_request p q"] by simp
  qed simp
  from this [of "[]"] show ?thesis by (simp add: request_firmware_compat_def)
qed

definition request_of :: "int set \<Rightarrow> can_frame \<Rightarrow> bool" where
  "request_of ks f \<longleftrightarrow> (\<exists>k \<in> ks. encoder_request k f)"

lemma configure_all_traffic:
  "fst ` set reqs \<subseteq> ks \<Longrightarrow> traffic (request_of ks) (11 * length reqs) b (fst (configure_all reqs b))"
proof (induction reqs b rule: configure_all.induct)
  case (2 k c rest b)
  obtain b1 rc r where c: "configure_passive_encoder k c b = (b1, rc, r)" by (metis prod_cases3)
  have "traffic (request_of ks) 11 b b1"
    using traffic_mono [OF configure_traffic [of k b c], of "request_of ks" 11] 2(2) by (auto simp: c request_of_def)
  then show ?case using 2(1) [OF c [symmetric] refl] 2(2) traffic_trans [of "request_of ks" 11 b b1]
      traffic_mono [of "request_of ks" 11 b b1] by (auto simp: c)
qed (simp add: traffic_refl)

lemma configure_encoders_traffic:
  "traffic (request_of (encoder_id ` snd ` set (passive_encoder_routes m))) (11 * length (passive_encoder_routes m)) m
     (fst (configure_passive_encoders m))"
proof -
  let ?q = "request_firmware_compat (passive_encoder_routes m)" and ?ks = "encoder_id ` snd ` set (passive_encoder_routes m)"
  obtain m1 rc where c: "configure_all ?q m = (m1, rc)" by fastforce
  have "fst ` set ?q \<subseteq> ?ks"
  proof
    fix k
    assume "k \<in> fst ` set ?q"
    then have "smap_find ?q k \<noteq> None" using smap_keys_find [of k ?q] by (simp add: smap_keys_def)
    then show "k \<in> ?ks" unfolding request_find by (auto split: if_splits)
  qed
  from configure_all_traffic [OF this, of m] have "traffic (request_of ?ks) (11 * length ?q) m m1" by (simp add: c)
  then have t: "traffic (request_of ?ks) (11 * length (passive_encoder_routes m)) m m1"
    by (rule traffic_mono) (use request_length [of "passive_encoder_routes m"] in simp_all)
  then show ?thesis using traffic_trans [OF t drain_traffic] by (simp add: configure_passive_encoders_def c drain_startup_frames_def)
qed

section \<open>Properties\<close>

text \<open>an encoder is reported ready only with verified settings. Whenever the configuration of an encoder
  succeeds, the firmware it answered with is at least 2.2.12, and the last values read back from it
  are the required ADC frequency 255 and report frequency 0; otherwise nothing is reported ready.\<close>

theorem encoder_ready_is_verified:
  "case configure_passive_encoder k c b of (b', rc, ready) \<Rightarrow>
     if rc = SUCCESS
     then \<exists>major minor patch. ready = Some (major, minor, patch, 255, 0) \<and> \<not> firmware_below_minimum major minor patch
     else ready = None"
  using configure_result [of k c b] unfolding ready_ok_def .

text \<open>opening the driver fails closed. With no reception thread running, opening either succeeds with
  the socket open and the thread running, or fails with the socket closed and no thread. On the way at most
  eleven frames per encoder route are sent, every one a request to a registered encoder, so no motor is commanded.\<close>

theorem open_fails_closed:
  assumes "\<not> rx_running m" "mit_open e m = (m', rc)"
  shows "sock m' = (rc = SUCCESS) \<and> rx_running m' = (rc = SUCCESS) \<and>
    (\<exists>new. tx m' = tx m @ new \<and> length new \<le> 11 * length (passive_encoder_routes m) \<and>
       (\<forall>f \<in> set new. \<exists>p \<in> set (passive_encoder_routes m). encoder_request (encoder_id (snd p)) f))"
proof -
  obtain m1 rc1 where o: "can_open e m = (m1, rc1)" by fastforce
  have o1: "tx m1 = tx m" "passive_encoder_routes m1 = passive_encoder_routes m" "\<not> rx_running m1"
    "sock m1 = (rc1 = SUCCESS)"
    using assms(1) o by (auto simp: can_open_def can_close_def stop_rx_def Let_def split: if_splits)
  show ?thesis
  proof (cases "rc1 = SUCCESS")
    case True
    obtain m2 rc2 where c: "configure_passive_encoders m1 = (m2, rc2)" by fastforce
    note t = configure_encoders_traffic [of m1, unfolded c fst_conv o1(2)]
    have "sock m2" "\<not> rx_running m2" using traffic_fields [OF t] o1 True by simp_all
    then have "m' = (if rc = SUCCESS then m2\<lparr>rx_running := True\<rparr> else m2\<lparr>rx_running := False, sock := False\<rparr>)"
      using assms(2) True by (auto simp: mit_open_def o c can_close_def stop_rx_def start_rx_def split: if_splits)
    moreover obtain new where "tx m2 = tx m @ new" "length new \<le> 11 * length (passive_encoder_routes m)"
      "\<forall>f \<in> set new. \<exists>p \<in> set (passive_encoder_routes m). encoder_request (encoder_id (snd p)) f"
      using t o1(1) by (auto simp: traffic_def request_of_def)
    ultimately show ?thesis using \<open>sock m2\<close> by auto
  next
    case False
    then show ?thesis using assms(2) o1 by (auto simp: mit_open_def o)
  qed
qed

text \<open>An encoder that answers every request with the required values.\<close>

definition healthy_replies :: "(nat \<times> read_event) list" where
  "healthy_replies =
     [(100, RecvFrame (mk_frame 0x60 5 [1, 0x83, 2, 2, 13])),
      (100, RecvFrame (mk_frame 0x60 5 [1, 0x86, 0, 0])), (100, RecvFrame (mk_frame 0x60 5 [1, 0x86, 0, 255])),
      (100, RecvFrame (mk_frame 0x60 5 [1, 0x86, 0, 0])), (100, RecvFrame (mk_frame 0x60 5 [1, 0x86, 0, 0]))]"

definition healthy_mit :: mit where
  "healthy_mit = sample_mit\<lparr>sock := False, rx_running := False, reads := healthy_replies,
     passive_encoder_routes := [(0x50, \<lparr>encoder_id = 0x60, route_data_index = 7, firmware_compat = False\<rparr>)]\<rparr>"

lemma poll_until_hit:
  "now b < d \<Longrightarrow> read_frame b = (b', SUCCESS, Some f) \<Longrightarrow> accept f = Some r \<Longrightarrow>
   poll_until accept d b = (b', SUCCESS, Some r)"
  by (simp add: poll_until.simps [of accept d b])

lemma read_frame_scripted:
  "sock b \<Longrightarrow> reads b = (dt, RecvFrame f) # rs \<Longrightarrow>
   read_frame b = (b\<lparr>reads := rs, now := now b + dt\<rparr>, SUCCESS, Some f)"
  by (simp add: read_frame_def)

lemma drain_quiet:
  "sock b \<Longrightarrow> reads b = [] \<Longrightarrow> now b < d \<Longrightarrow> drain_until d b = b\<lparr>now := now b + kReadTimeoutUs\<rparr>"
  by (simp add: drain_until.simps [of d b] read_frame_def)

lemma healthy_open: "snd (mit_open \<lparr>socket_ok = True, ioctl_ok = True, bind_ok = True\<rparr> healthy_mit) = SUCCESS"
  unfolding healthy_mit_def
  by (simp add: mit_open_def can_open_def configure_passive_encoders_def request_firmware_compat_def add_request_def
      configure_passive_encoder_def send_passive_encoder_request_def send_frame_ok wait_for_passive_encoder_reply_def
      read_passive_encoder_frequency_def read_passive_encoder_eeprom_def poll_until_hit read_frame_scripted
      sample_mit_def healthy_replies_def reply_matches_def mk_frame_def byte_def kPassiveEncoderReqVersion_def
      kPassiveEncoderResponseFlag_def kPassiveEncoderReqReadings_def kPassiveEncoderVersionTimeoutMs_def
      kPassiveEncoderEepromTimeoutMs_def firmware_below_minimum_def frequency_of_def be16_def correct_frequency_def
      kPassiveEncoderRequiredAdcFrequency_def kPassiveEncoderRequiredReportFrequency_def start_rx_def
      drain_startup_frames_def drain_quiet kPassiveEncoderDrainTimeoutMs_def)

theorem open_fails_closed_witness:
  "\<exists>m'. mit_open \<lparr>socket_ok = True, ioctl_ok = True, bind_ok = True\<rparr> healthy_mit = (m', SUCCESS) \<and>
     sock m' \<and> rx_running m' \<and> length (tx m') \<le> 11"
proof -
  obtain m' where o: "mit_open \<lparr>socket_ok = True, ioctl_ok = True, bind_ok = True\<rparr> healthy_mit = (m', SUCCESS)"
    using healthy_open by (metis prod.collapse)
  have "\<not> rx_running healthy_mit" by (simp add: healthy_mit_def)
  from open_fails_closed [OF this o] show ?thesis using o by (auto simp: healthy_mit_def sample_mit_def)
qed

end
