(* ===== verification/Enable_Handshake.thy ===== *)
theory Enable_Handshake
  imports Driver_Can_Mit Servo_Dm_Status
begin

text \<open>
  \<^verbatim>\<open>DriverCanMit::enable\<close> of \<^verbatim>\<open>native/pi_control/src/pi_driver_can_mit.cpp\<close>, the synchronous handshake that
  turns one servo on or off with the reception thread stopped, and
  \<^verbatim>\<open>DriverCanMit::arm_comm_loss_protection\<close> with the ENCOS range query, which assert the policy on a
  CAN loss for every servo. The counters that only feed log lines are left out. The type argument is
  the servo type itself; the handshake's local variables are arguments of its loops.
\<close>

section \<open>Handshake\<close>

text \<open>\<^verbatim>\<open>send_reset_sequence\<close>: the reset frame, up to three times.\<close>

primrec send_resets :: "nat \<Rightarrow> can_frame \<Rightarrow> 'a mit_scheme \<Rightarrow> 'a mit_scheme \<times> ReturnCode" where
  "send_resets 0 f m = (m, SUCCESS)"
| "send_resets (Suc n) f m =
     (let (m, rc) = send_frame f m in if rc \<noteq> SUCCESS then (m, rc) else send_resets n f (usleep 100 m))"

definition send_reset_sequence :: "int \<Rightarrow> 'a mit_scheme \<Rightarrow> 'a mit_scheme \<times> ReturnCode" where
  "send_reset_sequence sid m = send_resets 3 (can_frame_to_reset_dm_servo (word_of_int sid)) m"

text \<open>How the reading of the responses to one enable frame ends.\<close>

datatype attempt = Acknowledged | NextAttempt | GiveUp ReturnCode

text \<open>The variables that live across attempts.\<close>

record handshake =
  last_non_normal_status :: int
  startup_fault_reset_attempted :: bool

definition after_reset :: "'a mit_scheme \<times> ReturnCode \<Rightarrow> handshake \<Rightarrow> 'a mit_scheme \<times> handshake \<times> attempt" where
  "after_reset r h = (let (m, rc) = r in (m, h, if rc \<noteq> SUCCESS then GiveUp rc else NextAttempt))"

text \<open>A response of the servo itself, whose status is not the expected one.\<close>

definition non_normal_response ::
  "int \<Rightarrow> bool \<Rightarrow> u8 \<Rightarrow> 'a mit_scheme \<Rightarrow> handshake \<Rightarrow> 'a mit_scheme \<times> handshake \<times> attempt" where
  "non_normal_response sid enable_flag status_code m h =
     (let h = h\<lparr>last_non_normal_status := uint status_code\<rparr>; status = dm_servo_status_info status_code
      in if is_fault status
         then (if enable_flag \<and> is_resettable_on_enable status \<and> \<not> startup_fault_reset_attempted h
               then after_reset (send_reset_sequence sid m) (h\<lparr>startup_fault_reset_attempted := True\<rparr>)
               else (m\<lparr>last_enable_fault_status := uint status_code\<rparr>, h, GiveUp HARDWARE_FAULT))
         else after_reset (send_reset_sequence sid m) h)"

definition note_response :: "(int \<Rightarrow> int) \<Rightarrow> bool \<Rightarrow> can_frame \<Rightarrow> 'a mit_scheme \<Rightarrow> 'a mit_scheme" where
  "note_response idx enable_flag f m =
     (if enable_flag then m\<lparr>received := fst (parse_dm_servo_status idx (dm_par m) (now m) f (received m))\<rparr> else m)"

definition normal_code :: "bool \<Rightarrow> u8" where
  "normal_code enable_flag = drop_bit 4 (if enable_flag then 0x10 else 0x00)"

primrec response_loop ::
  "(int \<Rightarrow> int) \<Rightarrow> int \<Rightarrow> bool \<Rightarrow> nat \<Rightarrow> 'a mit_scheme \<Rightarrow> handshake \<Rightarrow> 'a mit_scheme \<times> handshake \<times> attempt" where
  "response_loop idx sid enable_flag 0 m h = (m, h, NextAttempt)"
| "response_loop idx sid enable_flag (Suc n) m h =
     (case read_frame m of
        (m, rc, None) \<Rightarrow> (m, h, if rc = NO_RESPONSE then NextAttempt else GiveUp rc)
      | (m, rc, Some f) \<Rightarrow>
          (if dm_response_motor_id f < 0 \<or> dm_response_motor_id f \<noteq> sid
           then response_loop idx sid enable_flag n m h
           else let m = note_response idx enable_flag f m; status_code = drop_bit 4 (byte f 0)
                in if status_code = normal_code enable_flag then (m, h, Acknowledged)
                   else non_normal_response sid enable_flag status_code m h))"

text \<open>One attempt: the enable frame and its responses; a busy socket costs the attempt.\<close>

definition one_attempt ::
  "(int \<Rightarrow> int) \<Rightarrow> int \<Rightarrow> bool \<Rightarrow> 'a mit_scheme \<Rightarrow> handshake \<Rightarrow> 'a mit_scheme \<times> handshake \<times> attempt" where
  "one_attempt idx sid enable_flag m h =
     (let (m, rc) = send_frame (can_frame_to_enable_dm_servo (word_of_int sid) enable_flag) m
      in if rc = BUSY then (m, h, NextAttempt)
         else if rc \<noteq> SUCCESS then (m, h, GiveUp rc)
         else response_loop idx sid enable_flag (nat MAX_SERVO_INFO_BUF_SIZE) m h)"

primrec attempt_loop ::
  "(int \<Rightarrow> int) \<Rightarrow> int \<Rightarrow> bool \<Rightarrow> nat \<Rightarrow> 'a mit_scheme \<Rightarrow> handshake \<Rightarrow> 'a mit_scheme \<times> ReturnCode" where
  "attempt_loop idx sid enable_flag 0 m h = (m, if 0 \<le> last_non_normal_status h then FAIL else NO_RESPONSE)"
| "attempt_loop idx sid enable_flag (Suc n) m h =
     (case one_attempt idx sid enable_flag m h of
        (m, h, Acknowledged) \<Rightarrow> (m, SUCCESS)
      | (m, h, GiveUp rc) \<Rightarrow> (m, rc)
      | (m, h, NextAttempt) \<Rightarrow> attempt_loop idx sid enable_flag n m h)"

definition DM_SERVO_CAN_TIMEOUT_DISARM :: u32 where "DM_SERVO_CAN_TIMEOUT_DISARM = 0"
definition ENABLE_ENCOS_CACHE_WAIT_US :: nat where "ENABLE_ENCOS_CACHE_WAIT_US = 5000"

text \<open>A leftover communication-loss window is disarmed right after a successful enable.\<close>

definition disarm_stale_window :: "int \<Rightarrow> 'a mit_scheme \<Rightarrow> 'a mit_scheme" where
  "disarm_stale_window sid m =
     (let (m, rc) = send_frame (can_frame_to_write_register_dm_servo (word_of_int sid) TIMEOUT DM_SERVO_CAN_TIMEOUT_DISARM) m
      in if rc \<noteq> SUCCESS then m else fst (read_frame m))"

definition handshake_run :: "(int \<Rightarrow> int) \<Rightarrow> int \<Rightarrow> bool \<Rightarrow> 'a mit_scheme \<Rightarrow> 'a mit_scheme \<times> ReturnCode" where
  "handshake_run idx sid enable_flag m =
     (let (m, rc) = attempt_loop idx sid enable_flag 10 m
            \<lparr>last_non_normal_status = -1, startup_fault_reset_attempted = False\<rparr>
      in if rc \<noteq> SUCCESS then (m, rc)
         else (if enable_flag then disarm_stale_window sid m else m, SUCCESS))"

text \<open>The DM branch of \<^verbatim>\<open>enable\<close>: operation mode, then the handshake between stop and start of the reception.\<close>

definition enable_dm :: "(int \<Rightarrow> int) \<Rightarrow> int \<Rightarrow> bool \<Rightarrow> 'a mit_scheme \<Rightarrow> 'a mit_scheme \<times> ReturnCode" where
  "enable_dm idx sid enable_flag m =
     (let (m, rc) = send_frame (can_frame_to_set_operation_mode_dm_servo (word_of_int sid)) m
      in if rc \<noteq> SUCCESS then (m, rc)
      else let (m, handshake_code) = handshake_run idx sid enable_flag (stop_rx (usleep 100 m));
               (m, restart_code) = start_rx m
      in if restart_code \<noteq> SUCCESS then (m, restart_code)
         else if handshake_code \<noteq> SUCCESS then (m, handshake_code)
         else (usleep 100 m, SUCCESS))"

definition enable ::
  "(int \<Rightarrow> int) \<Rightarrow> int \<Rightarrow> ServoType \<Rightarrow> bool \<Rightarrow> 'a mit_scheme \<Rightarrow> ('a mit_scheme \<times> ReturnCode) option" where
  "enable idx sid ty enable_flag m =
     (let m = m\<lparr>last_enable_fault_status := -1\<rparr>
      in if \<not> is_socket_open m then Some (m, NOT_INITIALIZED)
      else if ty = ENCOS_A4310
      then (case can_frame_to_command_encos_servo (dm_par m) (word_of_int sid) (Fin 0) (Fin 0) (Fin 0) (Fin 0) (Fin 0) of
              BuildError rc \<Rightarrow> Some (m, rc)
            | BuildUndefined \<Rightarrow> None
            | Built f \<Rightarrow>
                (let (m, rc) = send_frame f m
                 in Some (if rc \<noteq> SUCCESS then (m, rc)
                          else (usleep 100 (usleep ENABLE_ENCOS_CACHE_WAIT_US m), SUCCESS))))
      else Some (enable_dm idx sid enable_flag m))"

text \<open>The loops at a literal count, for evaluation.\<close>

lemma response_loop_numeral:
  "response_loop idx sid enable_flag (numeral k) m h =
     (case read_frame m of
        (m, rc, None) \<Rightarrow> (m, h, if rc = NO_RESPONSE then NextAttempt else GiveUp rc)
      | (m, rc, Some f) \<Rightarrow>
          (if dm_response_motor_id f < 0 \<or> dm_response_motor_id f \<noteq> sid
           then response_loop idx sid enable_flag (pred_numeral k) m h
           else let m = note_response idx enable_flag f m; status_code = drop_bit 4 (byte f 0)
                in if status_code = normal_code enable_flag then (m, h, Acknowledged)
                   else non_normal_response sid enable_flag status_code m h))"
  by (simp add: numeral_eq_Suc)

lemma attempt_loop_numeral:
  "attempt_loop idx sid enable_flag (numeral k) m h =
     (case one_attempt idx sid enable_flag m h of
        (m, h, Acknowledged) \<Rightarrow> (m, SUCCESS)
      | (m, h, GiveUp rc) \<Rightarrow> (m, rc)
      | (m, h, NextAttempt) \<Rightarrow> attempt_loop idx sid enable_flag (pred_numeral k) m h)"
  by (simp add: numeral_eq_Suc)

lemmas loop_eval = response_loop_numeral attempt_loop_numeral

section \<open>Traffic of the handshake\<close>

definition handshake_frame :: "int \<Rightarrow> bool \<Rightarrow> can_frame \<Rightarrow> bool" where
  "handshake_frame sid enable_flag f \<longleftrightarrow>
     f \<in> {can_frame_to_set_operation_mode_dm_servo (word_of_int sid),
          can_frame_to_enable_dm_servo (word_of_int sid) enable_flag,
          can_frame_to_reset_dm_servo (word_of_int sid),
          can_frame_to_write_register_dm_servo (word_of_int sid) TIMEOUT DM_SERVO_CAN_TIMEOUT_DISARM}"

lemma traffic_mit_fields [simp]:
  "traffic P n m (m'\<lparr>received := c\<rparr>) = traffic P n m m'"
  "traffic P n m (m'\<lparr>last_enable_fault_status := x\<rparr>) = traffic P n m m'"
  "traffic P n (m\<lparr>last_enable_fault_status := x\<rparr>) m' = traffic P n m m'"
  by (simp_all add: traffic_def)

lemma send_resets_traffic: "P f \<Longrightarrow> traffic P n m (fst (send_resets n f m))"
proof (induction n arbitrary: m)
  case (Suc n)
  obtain m1 rc where s: "send_frame f m = (m1, rc)" by fastforce
  have t: "traffic P 1 m m1" using traffic_send [of P f m] Suc.prems by (simp add: s)
  have "traffic P (0 + n) m1 (fst (send_resets n f (usleep 100 m1)))"
    by (rule traffic_trans [OF traffic_usleep]) (rule Suc.IH [OF Suc.prems])
  then show ?case using traffic_trans [OF t, of n] traffic_mono [OF t, of P "Suc n"] by (simp add: s)
qed (simp add: traffic_refl)

lemma reset_traffic: "traffic (handshake_frame sid en) 3 m (fst (send_reset_sequence sid m))"
  unfolding send_reset_sequence_def by (rule send_resets_traffic) (simp add: handshake_frame_def)

lemma non_normal_traffic:
  "traffic (handshake_frame sid en) 3 m (fst (non_normal_response sid en' st m h))"
  using reset_traffic [of sid en m]
  by (simp add: non_normal_response_def after_reset_def Let_def case_prod_beta traffic_refl)

lemma note_traffic: "traffic P 0 m (note_response idx en f m)"
  by (simp add: note_response_def traffic_refl)

lemma response_loop_traffic:
  "traffic (handshake_frame sid en) 3 m (fst (response_loop idx sid en n m h))"
proof (induction n arbitrary: m)
  case (Suc n)
  obtain m1 rc fo where r: "read_frame m = (m1, rc, fo)" by (metis prod_cases3)
  have t: "traffic (handshake_frame sid en) 0 m m1" using traffic_read [of _ m] by (simp add: r)
  note step = traffic_trans [OF t, where k = 3, unfolded add_0_left]
  show ?case
  proof (cases fo)
    case None
    then show ?thesis using traffic_mono [OF t] by (simp add: r)
  next
    case (Some f)
    have "traffic (handshake_frame sid en) 3 m1
        (fst (non_normal_response sid en (drop_bit 4 (byte f 0)) (note_response idx en f m1) h))"
      using traffic_trans [OF note_traffic non_normal_traffic] by simp
    moreover have "traffic (handshake_frame sid en) 3 m1 (note_response idx en f m1)"
      by (rule traffic_mono [OF note_traffic]) simp_all
    ultimately show ?thesis using Suc.IH [of m1] step by (simp add: r Some Let_def)
  qed
qed (simp add: traffic_refl)

lemma one_attempt_traffic: "traffic (handshake_frame sid en) 4 m (fst (one_attempt idx sid en m h))"
proof -
  obtain m1 rc where s: "send_frame (can_frame_to_enable_dm_servo (word_of_int sid) en) m = (m1, rc)" by fastforce
  have t: "traffic (handshake_frame sid en) 1 m m1"
    using traffic_send [of "handshake_frame sid en" "can_frame_to_enable_dm_servo (word_of_int sid) en" m]
    by (simp add: s handshake_frame_def)
  have "traffic (handshake_frame sid en) 4 m (fst (response_loop idx sid en n m1 h))" for n
    using traffic_trans [OF t response_loop_traffic] by (simp add: eval_nat_numeral)
  then show ?thesis using traffic_mono [OF t, of "handshake_frame sid en" 4] by (simp add: one_attempt_def s)
qed

lemma attempt_loop_traffic: "traffic (handshake_frame sid en) (4 * n) m (fst (attempt_loop idx sid en n m h))"
proof (induction n arbitrary: m h)
  case (Suc n)
  obtain m1 h1 a where o: "one_attempt idx sid en m h = (m1, h1, a)" by (metis prod_cases3)
  have t: "traffic (handshake_frame sid en) 4 m m1" using one_attempt_traffic [of sid en m idx h] by (simp add: o)
  show ?case using traffic_trans [OF t Suc.IH] traffic_mono [OF t, of "handshake_frame sid en" "4 * Suc n"]
    by (cases a) (simp_all add: o)
qed (simp add: traffic_refl)

lemma disarm_traffic: "traffic (handshake_frame sid en) 1 m (disarm_stale_window sid m)"
proof -
  let ?f = "can_frame_to_write_register_dm_servo (word_of_int sid) TIMEOUT DM_SERVO_CAN_TIMEOUT_DISARM"
  obtain m1 rc where s: "send_frame ?f m = (m1, rc)" by fastforce
  have t: "traffic (handshake_frame sid en) 1 m m1"
    using traffic_send [of "handshake_frame sid en" ?f m] by (simp add: s handshake_frame_def)
  then show ?thesis using traffic_trans [OF t traffic_read] by (simp add: disarm_stale_window_def s)
qed

lemma handshake_traffic: "traffic (handshake_frame sid en) 41 m (fst (handshake_run idx sid en m))"
proof -
  let ?h = "\<lparr>last_non_normal_status = -1, startup_fault_reset_attempted = False\<rparr>"
  obtain m1 rc where a: "attempt_loop idx sid en 10 m ?h = (m1, rc)" by fastforce
  have t: "traffic (handshake_frame sid en) 40 m m1" using attempt_loop_traffic [of sid en 10 m idx ?h] by (simp add: a)
  show ?thesis using traffic_trans [OF t disarm_traffic] traffic_mono [OF t, of "handshake_frame sid en" 41]
    by (auto simp: handshake_run_def a)
qed

text \<open>The whole enable of a DM servo, up to the thread flag, which ends up set.\<close>

lemma enable_dm_traffic:
  assumes "sock m" "rx_running m"
  shows "traffic (handshake_frame sid en) 42 m (fst (enable_dm idx sid en m))"
proof -
  let ?P = "handshake_frame sid en"
  obtain m1 rc where s: "send_frame (can_frame_to_set_operation_mode_dm_servo (word_of_int sid)) m = (m1, rc)" by fastforce
  have t1: "traffic ?P 1 m m1"
    using traffic_send [of ?P "can_frame_to_set_operation_mode_dm_servo (word_of_int sid)" m]
    by (simp add: s handshake_frame_def)
  define u where "u = usleep 100 m1"
  have t2: "traffic ?P 1 m u" using traffic_trans [OF t1 traffic_usleep] by (simp add: u_def)
  have u: "sock u" "rx_running u" using traffic_fields [OF t2] assms by simp_all
  obtain m2 hc where h: "handshake_run idx sid en (stop_rx u) = (m2, hc)" by fastforce
  have t3: "traffic ?P 41 (stop_rx u) m2" using handshake_traffic [of sid en "stop_rx u" idx] by (simp add: h)
  then have f: "sock m2" "\<not> rx_running m2" using traffic_fields [OF t3] u by (simp_all add: stop_rx_def)
  have "u\<lparr>rx_running := True\<rparr> = u" using u(2) by simp
  then have t4: "traffic ?P 41 u (m2\<lparr>rx_running := True\<rparr>)"
    using traffic_set_rx [OF t3, of True] by (simp add: stop_rx_def)
  have t: "traffic ?P (1 + 41) m (m2\<lparr>rx_running := True\<rparr>)" using t2 t4 by (rule traffic_trans)
  have "traffic ?P (1 + 41 + 0) m (usleep 100 (m2\<lparr>rx_running := True\<rparr>))" using t traffic_usleep by (rule traffic_trans)
  then show ?thesis using t traffic_mono [OF t1, of ?P 42] f
    by (simp add: enable_dm_def s u_def [symmetric] h start_rx_def)
qed

section \<open>Success is an acknowledgement\<close>

definition answered :: "int \<Rightarrow> bool \<Rightarrow> (nat \<times> read_event) list \<Rightarrow> bool" where
  "answered sid en used \<longleftrightarrow>
     (\<exists>dt f. (dt, RecvFrame f) \<in> set used \<and> dm_response_motor_id f = sid \<and> drop_bit 4 (byte f 0) = normal_code en)"

lemma read_frame_script:
  "read_frame b = (b', rc, Some f) \<Longrightarrow> \<exists>dt. reads b = (dt, RecvFrame f) # reads b'"
proof -
  have c: "read_code ev = (rc', Some f) \<Longrightarrow> ev = RecvFrame f" for ev rc' by (cases ev) auto
  assume "read_frame b = (b', rc, Some f)"
  then show ?thesis using c by (auto simp: read_frame_def split: if_splits list.splits)
qed

lemma reset_code: "send_resets n f m = (m', rc) \<Longrightarrow> after_reset (m', rc) h \<noteq> (m'', h', GiveUp SUCCESS)"
  by (simp add: after_reset_def)

lemma non_normal_not_ack:
  "non_normal_response sid en st m h = (m', h', a) \<Longrightarrow> a \<noteq> Acknowledged \<and> a \<noteq> GiveUp SUCCESS"
  by (auto simp: non_normal_response_def after_reset_def Let_def split: if_splits prod.splits)

lemma response_loop_ack:
  assumes "response_loop idx sid en n m h = (m', h', a)"
  shows "a \<noteq> GiveUp SUCCESS \<and> (a = Acknowledged \<longrightarrow> (\<exists>used. reads m = used @ reads m' \<and> answered sid en used))"
  using assms
proof (induction n arbitrary: m)
  case (Suc n)
  obtain m1 rc fo where r: "read_frame m = (m1, rc, fo)" by (metis prod_cases3)
  show ?case
  proof (cases fo)
    case None
    then show ?thesis using Suc.prems read_frame_some [OF r] by (auto simp: r split: if_splits)
  next
    case (Some f)
    obtain dt where d: "reads m = (dt, RecvFrame f) # reads m1" using read_frame_script r Some by blast
    let ?st = "drop_bit 4 (byte f 0)"
    consider "dm_response_motor_id f < 0 \<or> dm_response_motor_id f \<noteq> sid"
      | "dm_response_motor_id f = sid" "0 \<le> sid" "?st = normal_code en"
      | "dm_response_motor_id f = sid" "0 \<le> sid" "?st \<noteq> normal_code en" by linarith
    then show ?thesis
    proof cases
      case 1
      then have "response_loop idx sid en n m1 h = (m', h', a)" using Suc.prems by (auto simp: r Some)
      from Suc.IH [OF this] show ?thesis unfolding d answered_def by (metis append_Cons list.set_intros(2))
    next
      case 2
      then have "m' = note_response idx en f m1" "a = Acknowledged" using Suc.prems by (simp_all add: r Some)
      moreover have "reads (note_response idx en f m1) = reads m1" by (simp add: note_response_def)
      moreover have "answered sid en [(dt, RecvFrame f)]" using 2 by (auto simp: answered_def)
      ultimately show ?thesis using d by (metis append_Cons append_Nil attempt.distinct(3))
    next
      case 3
      then have "non_normal_response sid en ?st (note_response idx en f m1) h = (m', h', a)"
        using Suc.prems by (simp add: r Some Let_def)
      from non_normal_not_ack [OF this] show ?thesis by simp
    qed
  qed
qed simp

lemma answered_append: "answered sid en used \<Longrightarrow> answered sid en (pre @ used)" "answered sid en used \<Longrightarrow> answered sid en (used @ post)"
  by (auto simp: answered_def)

lemma usleep_reads: "reads (usleep us b) = reads b"
  by (simp add: usleep_def)

lemma traffic_reads: "traffic P n b b' \<Longrightarrow> \<exists>used. reads b = used @ reads b'"
  by (simp add: traffic_def)

lemma one_attempt_ack:
  assumes "one_attempt idx sid en m h = (m', h', a)"
  shows "a \<noteq> GiveUp SUCCESS \<and> (a = Acknowledged \<longrightarrow> (\<exists>used. reads m = used @ reads m' \<and> answered sid en used))"
proof -
  obtain m1 rc where s: "send_frame (can_frame_to_enable_dm_servo (word_of_int sid) en) m = (m1, rc)" by fastforce
  have "reads m1 = reads m" using send_frame_frame [OF s] by simp
  then show ?thesis using assms response_loop_ack [of idx sid en _ m1 h m' h' a]
    by (auto simp: one_attempt_def s split: if_splits)
qed

lemma attempt_loop_ack:
  "attempt_loop idx sid en n m h = (m', SUCCESS) \<Longrightarrow> \<exists>used. reads m = used @ reads m' \<and> answered sid en used"
proof (induction n arbitrary: m h)
  case (Suc n)
  obtain m1 h1 a where o: "one_attempt idx sid en m h = (m1, h1, a)" by (metis prod_cases3)
  note ack = one_attempt_ack [OF o]
  show ?case
  proof (cases a)
    case NextAttempt
    then have "attempt_loop idx sid en n m1 h1 = (m', SUCCESS)" using Suc.prems by (simp add: o)
    from Suc.IH [OF this] obtain used where u: "reads m1 = used @ reads m'" "answered sid en used" by blast
    obtain used0 where "reads m = used0 @ reads m1"
      using traffic_reads [OF one_attempt_traffic [of sid en m idx h]] by (auto simp: o)
    with u show ?thesis using answered_append(1) by (metis append.assoc)
  qed (use ack Suc.prems in \<open>auto simp: o\<close>)
qed (auto split: if_splits)

lemma one_attempt_hard_fault:
  assumes "sock u" "writes u = []" "reads u = (dt, RecvFrame f) # rs" "dm_response_motor_id f = sid" "0 \<le> sid"
    and "is_fault (dm_servo_status_info (drop_bit 4 (byte f 0)))"
      "\<not> is_resettable_on_enable (dm_servo_status_info (drop_bit 4 (byte f 0)))" "drop_bit 4 (byte f 0) \<noteq> normal_code en"
  shows "\<exists>u' h'. one_attempt idx sid en u h = (u', h', GiveUp HARDWARE_FAULT) \<and> sock u' \<and> rx_running u' = rx_running u \<and>
    last_enable_fault_status u' = uint (drop_bit 4 (byte f 0)) \<and>
    tx u' = tx u @ [can_frame_to_enable_dm_servo (word_of_int sid) en]"
  using assms
  by (simp add: one_attempt_def send_frame_ok MAX_SERVO_INFO_BUF_SIZE_def read_frame_def loop_eval note_response_def
      non_normal_response_def Let_def)

section \<open>Properties\<close>

text \<open>C5: enabling a DM servo is bounded and always restores reception. Whatever the bus does, the call
  returns; the socket and the reception thread are as they were, and at most 42 frames were sent, each
  one the mode write, the enable or disable, a reset or the disarming of the timeout of this very servo.\<close>

theorem enable_restores_reception:
  assumes "sock m" "rx_running m" "ty \<noteq> ENCOS_A4310"
  shows "\<exists>m' rc. enable idx sid ty en m = Some (m', rc) \<and> sock m' \<and> rx_running m' \<and>
    (\<exists>new. tx m' = tx m @ new \<and> length new \<le> 42 \<and> (\<forall>f \<in> set new. handshake_frame sid en f))"
proof -
  let ?m = "m\<lparr>last_enable_fault_status := -1\<rparr>"
  obtain m' rc where e: "enable_dm idx sid en ?m = (m', rc)" by fastforce
  have "traffic (handshake_frame sid en) 42 ?m m'" using enable_dm_traffic [of ?m sid en idx] assms by (simp add: e)
  then have "traffic (handshake_frame sid en) 42 m m'" by simp
  then show ?thesis using assms by (simp add: enable_def e is_socket_open_def traffic_def)
qed

text \<open>A servo that answers the mode write with a stray frame, then the enable with its status.\<close>

definition enabling_mit :: mit where
  "enabling_mit = sample_mit\<lparr>reads :=
     [(200, RecvFrame (mk_frame 0x80 8 [4])), (300, RecvFrame (mk_frame 0x14 8 [0x14, 0x80, 0, 0x7F, 0xF7, 0xFF, 0, 30]))]\<rparr>"

theorem enable_restores_reception_witness:
  "\<exists>m' rc. enable (\<lambda>_. 0) 4 DM_4310 True enabling_mit = Some (m', rc) \<and> sock m' \<and> rx_running m' \<and> length (tx m') \<le> 42"
proof -
  have "sock enabling_mit" "rx_running enabling_mit" "tx enabling_mit = []" by (simp_all add: enabling_mit_def sample_mit_def)
  with enable_restores_reception [of enabling_mit DM_4310 "\<lambda>_. 0" 4 True] show ?thesis by auto
qed

text \<open>C3: a servo counts as enabled only when it said so. If enabling or disabling a DM servo succeeds, one of the
  frames read during the call came from this servo and carried exactly the expected status; frames
  of other servos, of other bus participants and faults never count.\<close>

theorem enable_success_is_acknowledged:
  assumes "ty \<noteq> ENCOS_A4310" "enable idx sid ty en m = Some (m', SUCCESS)"
  shows "\<exists>used. reads m = used @ reads m' \<and> answered sid en used"
proof -
  let ?m = "m\<lparr>last_enable_fault_status := -1\<rparr>" and ?h = "\<lparr>last_non_normal_status = -1, startup_fault_reset_attempted = False\<rparr>"
  have e: "enable_dm idx sid en ?m = (m', SUCCESS)" using assms by (auto simp: enable_def Let_def split: if_splits)
  obtain m1 where s: "send_frame (can_frame_to_set_operation_mode_dm_servo (word_of_int sid)) ?m = (m1, SUCCESS)"
    using e by (auto simp: enable_dm_def split: prod.splits if_splits)
  define u where "u = stop_rx (usleep 100 m1)"
  have r: "reads u = reads m" using send_frame_frame [OF s] by (simp add: u_def usleep_def stop_rx_def)
  obtain m2 hc where h: "handshake_run idx sid en u = (m2, hc)" by fastforce
  have "hc = SUCCESS \<and> reads m' = reads m2"
    using e by (auto simp: enable_dm_def s u_def [symmetric] h start_rx_def usleep_reads split: if_splits)
  then have h: "handshake_run idx sid en u = (m2, SUCCESS)" and m2: "reads m' = reads m2" using h by simp_all
  obtain m3 where a: "attempt_loop idx sid en 10 u ?h = (m3, SUCCESS)" and d: "m2 = (if en then disarm_stale_window sid m3 else m3)"
    using h by (auto simp: handshake_run_def split: prod.splits if_splits)
  obtain used where 1: "reads u = used @ reads m3" "answered sid en used" using attempt_loop_ack [OF a] by blast
  obtain post where "reads m3 = post @ reads m2" using traffic_reads [OF disarm_traffic [of sid True m3]] d by (cases en) auto
  then show ?thesis using 1 r m2 answered_append(2) [OF 1(2), of post] by (metis append.assoc)
qed

lemma enabling_succeeds: "\<exists>m'. enable (\<lambda>_. 0) 4 DM_4310 True enabling_mit = Some (m', SUCCESS)"
  by (simp add: enable_def enabling_mit_def sample_mit_def is_socket_open_def enable_dm_def send_frame_ok usleep_def
      stop_rx_def handshake_run_def one_attempt_def MAX_SERVO_INFO_BUF_SIZE_def read_frame_def loop_eval
      dm_response_motor_id_def mk_frame_def byte_def note_response_def normal_code_def disarm_stale_window_def start_rx_def)

theorem enable_success_is_acknowledged_witness:
  "\<exists>m' used. enable (\<lambda>_. 0) 4 DM_4310 True enabling_mit = Some (m', SUCCESS) \<and>
     reads enabling_mit = used @ reads m' \<and> answered 4 True used"
  using enabling_succeeds enable_success_is_acknowledged [of DM_4310 "\<lambda>_. 0" 4 True enabling_mit] by blast

text \<open>C4: a hard fault is never reset away. When the first answer of the servo carries a fault that may not be reset,
  enabling stops at once with \<open>HARDWARE_FAULT\<close>; the fault code is kept for the caller, nothing was sent
  but the mode write and one enable frame, and reception runs again.\<close>

theorem hard_fault_is_not_reset:
  assumes "sock m" "writes m = []" "reads m = (dt, RecvFrame f) # rs" "ty \<noteq> ENCOS_A4310"
    and "dm_response_motor_id f = sid" "0 \<le> sid"
    and "is_fault (dm_servo_status_info (drop_bit 4 (byte f 0)))" "\<not> is_resettable_on_enable (dm_servo_status_info (drop_bit 4 (byte f 0)))"
  shows "\<exists>m'. enable idx sid ty en m = Some (m', HARDWARE_FAULT) \<and>
    last_enable_fault_status m' = uint (drop_bit 4 (byte f 0)) \<and> rx_running m' \<and>
    tx m' = tx m @ [can_frame_to_set_operation_mode_dm_servo (word_of_int sid), can_frame_to_enable_dm_servo (word_of_int sid) en]"
proof -
  have n: "drop_bit 4 (byte f 0) \<noteq> normal_code en"
    using assms(7) by (cases en) (auto simp: normal_code_def dm_servo_status_info_def kDisabled_def kEnabled_def)
  define u where "u = stop_rx (usleep 100 (m\<lparr>last_enable_fault_status := -1,
      tx := tx m @ [can_frame_to_set_operation_mode_dm_servo (word_of_int sid)], now := now m + 100\<rparr>))"
  have u: "sock u" "writes u = []" "reads u = (dt, RecvFrame f) # rs" "\<not> rx_running u"
    "tx u = tx m @ [can_frame_to_set_operation_mode_dm_servo (word_of_int sid)]"
    using assms(1-3) by (simp_all add: u_def usleep_def stop_rx_def)
  have send: "send_frame (can_frame_to_set_operation_mode_dm_servo (word_of_int sid)) (m\<lparr>last_enable_fault_status := -1\<rparr>) =
      (m\<lparr>last_enable_fault_status := -1, tx := tx m @ [can_frame_to_set_operation_mode_dm_servo (word_of_int sid)],
         now := now m + 100\<rparr>, SUCCESS)"
    using assms(1,2) by (simp add: send_frame_ok)
  obtain u' h' where a: "one_attempt idx sid en u \<lparr>last_non_normal_status = -1, startup_fault_reset_attempted = False\<rparr>
      = (u', h', GiveUp HARDWARE_FAULT)" "sock u'" "\<not> rx_running u'" "last_enable_fault_status u' = uint (drop_bit 4 (byte f 0))"
      "tx u' = tx u @ [can_frame_to_enable_dm_servo (word_of_int sid) en]"
    using one_attempt_hard_fault [OF u(1-3) assms(5-8) n] u(4) by metis
  have "handshake_run idx sid en u = (u', HARDWARE_FAULT)" by (simp add: handshake_run_def loop_eval a(1))
  then show ?thesis using assms(1,4) a u(5)
    by (simp add: enable_def is_socket_open_def enable_dm_def send u_def [symmetric] start_rx_def)
qed

theorem hard_fault_is_not_reset_witness:
  "\<exists>m'. enable (\<lambda>_. 0) 4 DM_4340 True (sample_mit\<lparr>reads := [(300, RecvFrame (mk_frame 0x14 8 [0xC4, 0x80, 0, 0x7F, 0xF7, 0xFF, 0, 99]))]\<rparr>)
     = Some (m', HARDWARE_FAULT) \<and> last_enable_fault_status m' = 12 \<and> length (tx m') = 2"
proof -
  let ?f = "mk_frame 0x14 8 [0xC4, 0x80, 0, 0x7F, 0xF7, 0xFF, 0, 99]"
  let ?m = "sample_mit\<lparr>reads := [(300, RecvFrame ?f)]\<rparr>"
  have st: "drop_bit 4 (byte ?f 0) = 0xC" by (simp add: mk_frame_def byte_def)
  have "dm_response_motor_id ?f = 4" by (simp add: dm_response_motor_id_def mk_frame_def byte_def)
  moreover have "is_fault (dm_servo_status_info 0xC)" "\<not> is_resettable_on_enable (dm_servo_status_info 0xC)"
    by (simp_all add: dm_servo_status_info_def kMotorCoilOvertemperature_def)
  moreover have "sock ?m" "writes ?m = []" "reads ?m = [(300, RecvFrame ?f)]" "tx ?m = []" by (simp_all add: sample_mit_def)
  ultimately show ?thesis using hard_fault_is_not_reset [of ?m 300 ?f "[]" DM_4340 4 "\<lambda>_. 0" True] st by auto
qed

end
