(* ===== verification/Comm_Loss.thy ===== *)
theory Comm_Loss
  imports Enable_Handshake
begin

text \<open>
  \<^verbatim>\<open>DriverCanMit::arm_comm_loss_protection\<close> of \<^verbatim>\<open>native/pi_control/src/pi_driver_can_mit.cpp\<close> with the
  ENCOS range query and \<^verbatim>\<open>ServoDm::adopt_encos_mit_range\<close> of \<^verbatim>\<open>pi_servo_dm.cpp\<close>: with reception stopped, every
  servo of the device gets the policy of the device on a CAN loss, stop (an armed window) or
  hold position (window off), and the codec of an ENCOS motor adopts the speed range the motor reports.
\<close>

section \<open>Range adoption\<close>

definition ENCOS_SPD_RANGE_SCALE :: flt where "ENCOS_SPD_RANGE_SCALE = dlit (1/100)"
definition ENCOS_TOR_RANGE_SCALE :: flt where "ENCOS_TOR_RANGE_SCALE = dlit (1/10)"

definition range_matches :: "flt \<times> flt \<Rightarrow> flt \<times> flt \<Rightarrow> bool" where
  "range_matches r c \<longleftrightarrow>
     flt_le (fabs (fsub binary32 (fst r) (fst c))) (dlit (1/1000)) \<and> flt_le (fabs (fsub binary32 (snd r) (snd c))) (dlit (1/1000))"

definition adopt_encos_mit_range :: "u8 \<Rightarrow> flt \<Rightarrow> flt \<Rightarrow> dm_obj \<Rightarrow> dm_obj \<times> ReturnCode" where
  "adopt_encos_mit_range query_code range_min range_max ob =
     (case obj_param ob of
        None \<Rightarrow> (ob, NOT_INITIALIZED)
      | Some p_current \<Rightarrow>
          (if \<not> flt_lt range_min range_max then (ob, FAIL)
           else if query_code = ENCOS_QUERY_SPD_RANGE
           then (let ob = ob\<lparr>reported_spd := Some (range_min, range_max)\<rparr>
                 in if range_matches (range_min, range_max) (vel_min p_current, vel_max p_current) then (ob, SUCCESS)
                    else let base = (case encos_param_override ob of None \<Rightarrow> p_current | Some ov \<Rightarrow> ov);
                             ov = base\<lparr>vel_min := range_min, vel_max := range_max\<rparr>
                         in (ob\<lparr>encos_param_override := Some ov, obj_param := Some ov\<rparr>, SUCCESS))
           else if query_code = ENCOS_QUERY_TOR_RANGE
           then (ob\<lparr>reported_tor := Some (range_min, range_max)\<rparr>, SUCCESS)
           else (ob, INVALID_PARAM)))"

text \<open>One of the two queries of \<^verbatim>\<open>query_and_adopt_encos_mit_ranges\<close>; every failure keeps the codec.\<close>

definition query_range :: "int \<Rightarrow> u8 \<times> flt \<Rightarrow> 'a mit_scheme \<Rightarrow> 'a mit_scheme" where
  "query_range sid q m =
     (case can_frame_to_get_mit_range_encos_servo (word_of_int sid) (fst q) of
        None \<Rightarrow> m
      | Some frame \<Rightarrow>
          (let (m, rc) = send_frame frame m
           in if rc \<noteq> SUCCESS then m
              else case read_frame m of
                (m, rc, None) \<Rightarrow> m
              | (m, rc, Some reply) \<Rightarrow>
                  (case parse_mit_range_reply_encos_servo reply (word_of_int sid) (fst q) (snd q) of
                     None \<Rightarrow> m
                   | Some (range_min, range_max) \<Rightarrow>
                       (case dm_objs m sid of
                          None \<Rightarrow> m
                        | Some ob \<Rightarrow> usleep 100 (m\<lparr>dm_objs := (dm_objs m)
                            (sid := Some (fst (adopt_encos_mit_range (fst q) range_min range_max ob)))\<rparr>)))))"

definition query_and_adopt_encos_mit_ranges :: "int \<Rightarrow> 'a mit_scheme \<Rightarrow> 'a mit_scheme" where
  "query_and_adopt_encos_mit_ranges sid m =
     query_range sid (ENCOS_QUERY_TOR_RANGE, ENCOS_TOR_RANGE_SCALE)
       (query_range sid (ENCOS_QUERY_SPD_RANGE, ENCOS_SPD_RANGE_SCALE) m)"

section \<open>The policy pass\<close>

definition DM_SERVO_CAN_TIMEOUT_MS :: u32 where "DM_SERVO_CAN_TIMEOUT_MS = 500"
definition DM_TIMEOUT_COUNTS_PER_MS :: u32 where "DM_TIMEOUT_COUNTS_PER_MS = 20"
definition ENCOS_SERVO_CAN_TIMEOUT_MS :: u16 where "ENCOS_SERVO_CAN_TIMEOUT_MS = 500"
definition ENCOS_SERVO_CAN_TIMEOUT_DISARM :: u16 where "ENCOS_SERVO_CAN_TIMEOUT_DISARM = 0"

definition encos_timeout_ms :: "bool \<Rightarrow> u16" where
  "encos_timeout_ms stop_on_comm_loss =
     (if stop_on_comm_loss then ENCOS_SERVO_CAN_TIMEOUT_MS else ENCOS_SERVO_CAN_TIMEOUT_DISARM)"

definition dm_timeout_counts :: "bool \<Rightarrow> u32" where
  "dm_timeout_counts stop_on_comm_loss =
     (if stop_on_comm_loss then DM_SERVO_CAN_TIMEOUT_MS * DM_TIMEOUT_COUNTS_PER_MS else DM_SERVO_CAN_TIMEOUT_DISARM)"

text \<open>Send a frame and drain one reply; a failed write drains nothing.\<close>

definition send_and_drain :: "can_frame \<Rightarrow> 'a mit_scheme \<Rightarrow> 'a mit_scheme \<times> ReturnCode" where
  "send_and_drain f m =
     (let (m, rc) = send_frame f m in if rc \<noteq> SUCCESS then (m, rc) else (fst (read_frame m), SUCCESS))"

definition encos_needs_write :: "int \<Rightarrow> u16 \<Rightarrow> 'a mit_scheme \<Rightarrow> 'a mit_scheme \<times> bool" where
  "encos_needs_write sid timeout m =
     (let (m, rc) = send_frame (can_frame_to_get_can_timeout_encos_servo (word_of_int sid)) m
      in if rc \<noteq> SUCCESS then (m, True)
         else case read_frame m of
           (m, rc, None) \<Rightarrow> (m, True)
         | (m, rc, Some reply) \<Rightarrow>
             (case parse_can_timeout_reply_encos_servo reply (word_of_int sid) of
                None \<Rightarrow> (m, True)
              | Some current_ms \<Rightarrow> (m, current_ms \<noteq> timeout)))"

definition arm_encos :: "int \<Rightarrow> bool \<Rightarrow> 'a mit_scheme \<Rightarrow> 'a mit_scheme" where
  "arm_encos sid stop_on_comm_loss m =
     (let m = query_and_adopt_encos_mit_ranges sid m;
          (m, needs_write) = encos_needs_write sid (encos_timeout_ms stop_on_comm_loss) m
      in if \<not> needs_write then m
         else fst (send_and_drain (can_frame_to_set_can_timeout_encos_servo (word_of_int sid) (encos_timeout_ms stop_on_comm_loss)) m))"

definition arm_dm :: "int \<Rightarrow> bool \<Rightarrow> 'a mit_scheme \<Rightarrow> 'a mit_scheme" where
  "arm_dm sid stop_on_comm_loss m =
     (let (m, rc) = send_and_drain (can_frame_to_enable_dm_servo (word_of_int sid) True) m
      in if rc \<noteq> SUCCESS then m
         else fst (send_and_drain (can_frame_to_write_register_dm_servo (word_of_int sid) TIMEOUT
                     (dm_timeout_counts stop_on_comm_loss)) m))"

text \<open>One servo: an id with no DM object behind it is skipped without the pause.\<close>

definition arm_one :: "bool \<Rightarrow> int \<Rightarrow> 'a mit_scheme \<Rightarrow> 'a mit_scheme" where
  "arm_one stop_on_comm_loss sid m =
     (case dm_objs m sid of
        None \<Rightarrow> m
      | Some ob \<Rightarrow>
          usleep 100
            (if obj_type ob = ENCOS_A4310 then arm_encos sid stop_on_comm_loss m
             else if obj_type ob = DM_4340 \<or> obj_type ob = DM_4310 then arm_dm sid stop_on_comm_loss m
             else m))"

text \<open>The device is the list of its servo ids and its wish on a CAN loss; \<open>None\<close> is a null pointer.\<close>

definition arm_comm_loss_protection :: "(int list \<times> bool) option \<Rightarrow> 'a mit_scheme \<Rightarrow> 'a mit_scheme \<times> ReturnCode" where
  "arm_comm_loss_protection p_dev m =
     (if \<not> is_socket_open m then (m, NOT_INITIALIZED)
      else case p_dev of
        None \<Rightarrow> (m, FAIL)
      | Some (servo_ids, stop_on_comm_loss) \<Rightarrow>
          (if servo_ids = [] then (m, SUCCESS)
           else start_rx (fold (arm_one stop_on_comm_loss) servo_ids (stop_rx m))))"

section \<open>Traffic of the policy pass\<close>

definition policy_frame :: "bool \<Rightarrow> int set \<Rightarrow> can_frame \<Rightarrow> bool" where
  "policy_frame stop_on_comm_loss ids f \<longleftrightarrow> (\<exists>sid \<in> ids.
     f = can_frame_to_enable_dm_servo (word_of_int sid) True \<or>
     f = can_frame_to_write_register_dm_servo (word_of_int sid) TIMEOUT (dm_timeout_counts stop_on_comm_loss) \<or>
     f = can_frame_to_get_can_timeout_encos_servo (word_of_int sid) \<or>
     f = can_frame_to_set_can_timeout_encos_servo (word_of_int sid) (encos_timeout_ms stop_on_comm_loss) \<or>
     (\<exists>q. can_frame_to_get_mit_range_encos_servo (word_of_int sid) q = Some f))"

lemma traffic_objs [simp]: "traffic P n m (m'\<lparr>dm_objs := ob\<rparr>) = traffic P n m m'"
  by (simp add: traffic_def)

lemma send_and_drain_traffic:
  assumes "P f"
  shows "traffic P 1 m (fst (send_and_drain f m))"
proof -
  obtain m1 rc where s: "send_frame f m = (m1, rc)" by fastforce
  have t: "traffic P 1 m m1" using traffic_send [of P f m] assms by (simp add: s)
  then show ?thesis using traffic_trans [OF t traffic_read] by (simp add: send_and_drain_def s)
qed

lemma query_range_traffic:
  assumes "\<And>f. can_frame_to_get_mit_range_encos_servo (word_of_int sid) (fst q) = Some f \<Longrightarrow> P f"
  shows "traffic P 1 m (query_range sid q m)"
proof (cases "can_frame_to_get_mit_range_encos_servo (word_of_int sid) (fst q)")
  case (Some f)
  obtain m1 rc where s: "send_frame f m = (m1, rc)" by fastforce
  obtain m2 rc2 fo where r: "read_frame m1 = (m2, rc2, fo)" by (metis prod_cases3)
  have t1: "traffic P 1 m m1" using traffic_send [of P f m] assms [OF Some] by (simp add: s)
  have t2: "traffic P 1 m m2" using traffic_trans [OF t1 traffic_read] by (simp add: r)
  have "traffic P 1 m (usleep 100 (m2\<lparr>dm_objs := ob\<rparr>))" for ob
    using traffic_trans [OF _ traffic_usleep, of P 1 m "m2\<lparr>dm_objs := ob\<rparr>"] t2 by simp
  then show ?thesis using t1 t2 by (simp add: query_range_def Some s r split: option.split)
qed (simp add: query_range_def traffic_refl)

lemma encos_needs_write_traffic:
  assumes "P (can_frame_to_get_can_timeout_encos_servo (word_of_int sid))"
  shows "traffic P 1 m (fst (encos_needs_write sid timeout m))"
proof -
  obtain m1 rc where s: "send_frame (can_frame_to_get_can_timeout_encos_servo (word_of_int sid)) m = (m1, rc)" by fastforce
  obtain m2 rc2 fo where r: "read_frame m1 = (m2, rc2, fo)" by (metis prod_cases3)
  have t1: "traffic P 1 m m1" using traffic_send [of P _ m] assms s by (metis fst_conv)
  have t2: "traffic P 1 m m2" using traffic_trans [OF t1 traffic_read] by (simp add: r)
  show ?thesis using t1 t2 by (simp add: encos_needs_write_def s r split: option.split)
qed

lemma arm_encos_traffic:
  assumes "sid \<in> ids"
  shows "traffic (policy_frame stop ids) 4 m (arm_encos sid stop m)"
proof -
  let ?P = "policy_frame stop ids"
  define m2 where "m2 = query_and_adopt_encos_mit_ranges sid m"
  have q: "traffic ?P 1 m (query_range sid x m)" for x and m :: "'a mit_scheme"
    by (rule query_range_traffic) (use assms in \<open>auto simp: policy_frame_def\<close>)
  have t2: "traffic ?P (1 + 1) m m2" unfolding m2_def query_and_adopt_encos_mit_ranges_def by (rule traffic_trans [OF q q])
  obtain m3 w where w: "encos_needs_write sid (encos_timeout_ms stop) m2 = (m3, w)" by fastforce
  have "traffic ?P 1 m2 m3"
    using encos_needs_write_traffic [of ?P sid m2 "encos_timeout_ms stop"] assms w by (auto simp: policy_frame_def)
  with t2 have t3: "traffic ?P (1 + 1 + 1) m m3" by (rule traffic_trans)
  have "traffic ?P 1 m3 (fst (send_and_drain (can_frame_to_set_can_timeout_encos_servo (word_of_int sid) (encos_timeout_ms stop)) m3))"
    by (rule send_and_drain_traffic) (use assms in \<open>auto simp: policy_frame_def\<close>)
  with t3 have "traffic ?P (1 + 1 + 1 + 1) m
      (fst (send_and_drain (can_frame_to_set_can_timeout_encos_servo (word_of_int sid) (encos_timeout_ms stop)) m3))"
    by (rule traffic_trans)
  then show ?thesis using traffic_mono [OF t3, of ?P 4] by (simp add: arm_encos_def m2_def [symmetric] w eval_nat_numeral)
qed

lemma arm_dm_traffic:
  assumes "sid \<in> ids"
  shows "traffic (policy_frame stop ids) 2 m (arm_dm sid stop m)"
proof -
  let ?P = "policy_frame stop ids"
  obtain m1 rc where s: "send_and_drain (can_frame_to_enable_dm_servo (word_of_int sid) True) m = (m1, rc)" by fastforce
  have t1: "traffic ?P 1 m m1"
    using send_and_drain_traffic [of ?P "can_frame_to_enable_dm_servo (word_of_int sid) True" m] assms s
    by (auto simp: policy_frame_def)
  have "traffic ?P 1 m1 (fst (send_and_drain (can_frame_to_write_register_dm_servo (word_of_int sid) TIMEOUT (dm_timeout_counts stop)) m1))"
    by (rule send_and_drain_traffic) (use assms in \<open>auto simp: policy_frame_def\<close>)
  with t1 have "traffic ?P (1 + 1) m
      (fst (send_and_drain (can_frame_to_write_register_dm_servo (word_of_int sid) TIMEOUT (dm_timeout_counts stop)) m1))"
    by (rule traffic_trans)
  then show ?thesis using traffic_mono [OF t1, of ?P 2] by (simp add: arm_dm_def s eval_nat_numeral)
qed

lemma arm_one_traffic:
  assumes "sid \<in> ids"
  shows "traffic (policy_frame stop ids) 4 m (arm_one stop sid m)"
proof -
  let ?P = "policy_frame stop ids"
  have pause: "traffic ?P 4 m (usleep 100 m')" if "traffic ?P 4 m m'" for m' :: "'a mit_scheme"
    using traffic_trans [OF that traffic_usleep] by simp
  have "traffic ?P 4 m (arm_dm sid stop m)" by (rule traffic_mono [OF arm_dm_traffic [OF assms]]) simp_all
  then show ?thesis using pause arm_encos_traffic [OF assms, of stop m] by (simp add: arm_one_def traffic_refl split: option.split)
qed

lemma arm_fold_traffic:
  "set servo_ids \<subseteq> ids \<Longrightarrow>
   traffic (policy_frame stop ids) (4 * length servo_ids) m (fold (arm_one stop) servo_ids m)"
proof (induction servo_ids arbitrary: m)
  case (Cons sid servo_ids)
  then show ?case using traffic_trans [OF arm_one_traffic [of sid ids stop m] Cons.IH] by simp
qed (simp add: traffic_refl)




section \<open>Properties\<close>

text \<open>the policy pass sends nothing but the policy. With reception running, the pass over any servos and any
  behaviour of the bus succeeds and leaves reception running; at most four frames per servo are sent,
  all to servos of the device, and every timeout they write is the one of the device's policy, which is
  zero, the protection switched off, for a device that has to hold its position.\<close>

theorem arm_sends_only_the_policy:
  assumes "sock m" "rx_running m" "arm_comm_loss_protection (Some (servo_ids, stop)) m = (m', rc)"
  shows "rc = SUCCESS \<and> sock m' \<and> rx_running m' \<and>
    (\<exists>new. tx m' = tx m @ new \<and> length new \<le> 4 * length servo_ids \<and> (\<forall>f \<in> set new. policy_frame stop (set servo_ids) f)) \<and>
    dm_timeout_counts stop = (if stop then 10000 else 0) \<and> encos_timeout_ms stop = (if stop then 500 else 0)"
proof -
  have v: "dm_timeout_counts stop = (if stop then 10000 else 0)" "encos_timeout_ms stop = (if stop then 500 else 0)"
    by (simp_all add: dm_timeout_counts_def encos_timeout_ms_def DM_SERVO_CAN_TIMEOUT_MS_def DM_TIMEOUT_COUNTS_PER_MS_def
        DM_SERVO_CAN_TIMEOUT_DISARM_def ENCOS_SERVO_CAN_TIMEOUT_MS_def ENCOS_SERVO_CAN_TIMEOUT_DISARM_def)
  show ?thesis
  proof (cases "servo_ids = []")
    case True
    then show ?thesis using assms v by (auto simp: arm_comm_loss_protection_def is_socket_open_def)
  next
    case False
    define u where "u = fold (arm_one stop) servo_ids (stop_rx m)"
    have t: "traffic (policy_frame stop (set servo_ids)) (4 * length servo_ids) (stop_rx m) u"
      unfolding u_def by (rule arm_fold_traffic) simp
    have "sock u" "\<not> rx_running u" using traffic_fields [OF t] assms(1) by (simp_all add: stop_rx_def)
    moreover have "(m', rc) = start_rx u"
      using assms(1,3) False by (simp add: arm_comm_loss_protection_def is_socket_open_def u_def)
    ultimately show ?thesis using t v by (auto simp: start_rx_def traffic_def stop_rx_def)
  qed
qed

definition dm_servo_obj :: "ServoType \<Rightarrow> dm_param \<Rightarrow> dm_obj" where
  "dm_servo_obj ty sp = \<lparr>obj_type = ty, obj_param = Some sp, encos_param_override = None, reported_spd = None, reported_tor = None\<rparr>"

definition armed_mit :: mit where
  "armed_mit = sample_mit\<lparr>dm_objs := [1 \<mapsto> dm_servo_obj ENCOS_A4310 g_servo_dm_param_encos_A4310,
     4 \<mapsto> dm_servo_obj DM_4310 g_servo_dm_param_4310]\<rparr>"

theorem arm_sends_only_the_policy_witness:
  "case arm_comm_loss_protection (Some ([1, 4, 9], False)) armed_mit of
     (m', rc) \<Rightarrow> rc = SUCCESS \<and> rx_running m' \<and> length (tx m') \<le> 12 \<and> (\<forall>f \<in> set (tx m'). policy_frame False {1, 4, 9} f)"
proof -
  obtain m' rc where a: "arm_comm_loss_protection (Some ([1, 4, 9], False)) armed_mit = (m', rc)" by fastforce
  have "sock armed_mit" "rx_running armed_mit" "tx armed_mit = []" by (simp_all add: armed_mit_def sample_mit_def)
  with arm_sends_only_the_policy [OF _ _ a] show ?thesis by (auto simp: a)
qed



end
