(* ===== verification/Servo_Dm.thy ===== *)
theory Servo_Dm
  imports Comm_Loss
begin

text \<open>
  The DM and ENCOS servo, \<^verbatim>\<open>native/pi_control/src/pi_servo_dm.cpp\<close>: configuration, start and startup
  verification, the position and torque commands, the read cycle with its dead-bus detection, and the
  thermal stop of an end effector, which is latched. The codec part of the object (type, parameter
  set, reported ranges) is the driver's \<open>dm_objs\<close> entry, because the reception and arming code reach it
  there. The two driver calls that are virtual are a record of functions, with one instance for
  \<^verbatim>\<open>DriverCanMit\<close> and one for the read-only \<^verbatim>\<open>DriverArxEncoder\<close> of
  \<^verbatim>\<open>native/pi_control/src/pi_driver_arx_encoder.cpp\<close>. An undefined float-to-integer conversion
  in a frame builder is \<open>None\<close>.
\<close>

section \<open>State\<close>

record servo_dm = servo +
  p_driver_can :: bool
  checker_motor_no_response :: hold_checker
  motor_moved :: bool
  last_reported_fault_code :: u8
  thermal_fault_latched :: bool

record 'm mit_ops =
  v_send_command :: "(ServoType \<times> int) option \<Rightarrow> flt \<Rightarrow> flt \<Rightarrow> flt \<Rightarrow> flt \<Rightarrow> flt \<Rightarrow> 'm \<Rightarrow> ('m \<times> ReturnCode) option"
  v_enable :: "int \<Rightarrow> ServoType \<Rightarrow> bool \<Rightarrow> 'm \<Rightarrow> ('m \<times> ReturnCode) option"

type_synonym ('a, 'm) dm_result = "('a servo_dm_scheme \<times> 'm mit_scheme \<times> ReturnCode) option"

definition MAX_CNT_MOTOR_NO_RESPONSE_INITIAL :: int where "MAX_CNT_MOTOR_NO_RESPONSE_INITIAL = 500"
definition MAX_CNT_MOTOR_NO_RESPONSE_NORMAL :: int where "MAX_CNT_MOTOR_NO_RESPONSE_NORMAL = 10000"

definition new_servo_dm :: "servo_data \<Rightarrow> bool \<Rightarrow> bool \<Rightarrow> bool \<Rightarrow> servo_dm" where
  "new_servo_dm d safety_feature_off safety_torque_mode has_driver =
     servo.extend (new_servo d safety_feature_off safety_torque_mode)
       \<lparr>p_driver_can = has_driver, checker_motor_no_response = new_hold_checker MAX_CNT_MOTOR_NO_RESPONSE_INITIAL,
        motor_moved = False, last_reported_fault_code = 0, thermal_fault_latched = False\<rparr>"

definition is_effector :: "'a servo_data_scheme \<Rightarrow> bool" where
  "is_effector sv \<longleftrightarrow> dev_type (p_device sv) = EFFECTOR"

section \<open>The two drivers\<close>

definition can_mit_ops :: "(int \<Rightarrow> int) \<Rightarrow> 'a mit_scheme mit_ops" where
  "can_mit_ops idx = \<lparr>v_send_command = send_command, v_enable = enable idx\<rparr>"

text \<open>
  \<^verbatim>\<open>DriverArxEncoder::enable\<close> polls the cache while the reception thread runs: \<open>arrivals\<close> has the frames
  that arrive during each 1 ms sleep.
\<close>

fun arx_warmup ::
  "(int \<Rightarrow> int) \<Rightarrow> int \<Rightarrow> nat \<Rightarrow> can_frame list list \<Rightarrow> 'a mit_scheme \<Rightarrow> 'a mit_scheme" where
  "arx_warmup idx i 0 arrivals m = m"
| "arx_warmup idx i (Suc n) arrivals m =
     (if get_received_motor_id m i \<noteq> 0 then m
      else let m = usleep 1000 m
           in case arrivals of
                [] \<Rightarrow> arx_warmup idx i n [] m
              | fs # rest \<Rightarrow> arx_warmup idx i n rest (fold (\<lambda>f. arx_handle_received_message idx (Some f)) fs m))"

definition ARX_ENCODER_WARMUP_MAX_RETRY :: nat where "ARX_ENCODER_WARMUP_MAX_RETRY = 50"

definition arx_enable ::
  "(int \<Rightarrow> int) \<Rightarrow> can_frame list list \<Rightarrow> int \<Rightarrow> ServoType \<Rightarrow> bool \<Rightarrow> 'a mit_scheme \<Rightarrow> ('a mit_scheme \<times> ReturnCode) option" where
  "arx_enable idx arrivals sid ty enable_flag m =
     (if idx sid < 0 then Some (m, FAIL)
      else Some (arx_warmup idx (idx sid) ARX_ENCODER_WARMUP_MAX_RETRY arrivals m, SUCCESS))"

definition arx_send_command ::
  "(ServoType \<times> int) option \<Rightarrow> flt \<Rightarrow> flt \<Rightarrow> flt \<Rightarrow> flt \<Rightarrow> flt \<Rightarrow> 'a mit_scheme \<Rightarrow> ('a mit_scheme \<times> ReturnCode) option" where
  "arx_send_command p_servo_dm kp kd position velocity torque m = Some (m, SUCCESS)"

definition arx_reset_zero_position :: "int \<Rightarrow> ServoType \<Rightarrow> 'a mit_scheme \<Rightarrow> 'a mit_scheme \<times> ReturnCode" where
  "arx_reset_zero_position sid ty m = (m, SUCCESS)"

definition arx_ops :: "(int \<Rightarrow> int) \<Rightarrow> can_frame list list \<Rightarrow> 'a mit_scheme mit_ops" where
  "arx_ops idx arrivals = \<lparr>v_send_command = arx_send_command, v_enable = arx_enable idx arrivals\<rparr>"

section \<open>The thermal stop\<close>

definition reject_if_thermal_fault_latched :: "'a servo_dm_scheme \<Rightarrow> ReturnCode" where
  "reject_if_thermal_fault_latched sv = (if thermal_fault_latched sv then HARDWARE_FAULT else SUCCESS)"

definition latch_effector_thermal_fault ::
  "'m mit_scheme mit_ops \<Rightarrow> u8 \<Rightarrow> 'a servo_dm_scheme \<Rightarrow> 'm mit_scheme \<Rightarrow> ('a, 'm) dm_result" where
  "latch_effector_thermal_fault ops status_code sv m =
     (if thermal_fault_latched sv then Some (sv, m, HARDWARE_FAULT)
      else let sv = sv\<lparr>thermal_fault_latched := True, parked := True, last_reported_fault_code := status_code\<rparr>
           in if p_driver_can sv
              then (case v_send_command ops (Some (sv_type sv, id_of sv)) (Fin 0) (Fin 0) (Fin 0) (Fin 0) (Fin 0) m of
                      None \<Rightarrow> None
                    | Some (m, zero_rc) \<Rightarrow> Some (sv, fst (send_disable_once (id_of sv) (sv_type sv) m), HARDWARE_FAULT))
              else Some (sv, m, HARDWARE_FAULT))"

definition park_safely :: "'m mit_scheme mit_ops \<Rightarrow> 'a servo_dm_scheme \<Rightarrow> 'm mit_scheme \<Rightarrow> ('a, 'm) dm_result" where
  "park_safely ops sv m =
     (if parked sv then Some (sv, m, SUCCESS)
      else if \<not> p_driver_can sv then Some (sv, m, NOT_INITIALIZED)
      else case v_send_command ops (Some (sv_type sv, id_of sv)) (Fin 0) (pos_kd sv) (Fin 0) (Fin 0) (Fin 0) m of
             None \<Rightarrow> None
           | Some (m, rc) \<Rightarrow>
               (if rc \<noteq> SUCCESS then Some (sv, m, rc)
                else case v_enable ops (id_of sv) (sv_type sv) False (usleep 100 m) of
                       None \<Rightarrow> None
                     | Some (m, rc) \<Rightarrow>
                         (if rc \<noteq> SUCCESS then Some (sv, m, rc)
                          else Some (sv\<lparr>parked := True\<rparr>, usleep 100 m, SUCCESS))))"

section \<open>Configuration\<close>

definition init_current_estimation :: "'a servo_scheme \<Rightarrow> 'a servo_scheme \<times> ReturnCode" where
  "init_current_estimation sv =
     (let p = motor_params_current_estimation sv;
          p' = (if servo_model sv = ''DM J4340''
                then p\<lparr>kt0 := dlit (1087 / 10000), r0 := dlit (9292449 / 10 ^ 7), t0 := dlit 25, beta := dlit (- 15 / 10000),
                       alpha := dlit (39 / 10000), c1 := dlit 0, c2 := dlit 0, eta_inv := dlit (96 / 100),
                       p_drv := dlit 2, eta_g := dlit (90 / 100), gear_ratio := dlit 40\<rparr>
                else if servo_model sv = ''DM J4310''
                then p\<lparr>kt0 := dlit (1032 / 10000), r0 := dlit (8413959 / 10 ^ 7), t0 := dlit 25, beta := dlit (- 15 / 10000),
                       alpha := dlit (39 / 10000), c1 := dlit 0, c2 := dlit 0, eta_inv := dlit (96 / 100),
                       p_drv := dlit 2, eta_g := dlit (90 / 100), gear_ratio := dlit 10\<rparr>
                else if servo_model sv = ''ARX Remote Encoder''
                then p\<lparr>kt0 := dlit 0, r0 := dlit 0, t0 := dlit 25, beta := dlit 0, alpha := dlit 0, c1 := dlit 0,
                       c2 := dlit 0, eta_inv := dlit 1, p_drv := dlit 0, eta_g := dlit 1, gear_ratio := dlit 1\<rparr>
                else p)
      in (sv\<lparr>motor_params_current_estimation := p'\<rparr>, SUCCESS))"

text \<open>The servo model decides the type and the parameter set; \<open>None\<close> is an unsupported model.\<close>

definition dm_model :: "string \<Rightarrow> (ServoType \<times> dm_param) option" where
  "dm_model model =
     (if model = ''DM J4340'' then Some (DM_4340, g_servo_dm_param_4340)
      else if model = ''DM J4310'' then Some (DM_4310, g_servo_dm_param_4310)
      else if model = ''Encos EC-A4310-P2-36'' then Some (ENCOS_A4310, g_servo_dm_param_encos_A4310)
      else if model = ''ARX Remote Encoder'' then Some (ARX_ENCODER, g_servo_dm_param_arx_encoder)
      else None)"

definition dm_init_config_model ::
  "'p \<Rightarrow> json \<Rightarrow> 'a servo_dm_scheme \<Rightarrow> 'm mit_scheme \<Rightarrow> 'p registry
   \<Rightarrow> 'a servo_dm_scheme \<times> 'm mit_scheme \<times> 'p registry \<times> ReturnCode" where
  "dm_init_config_model p cfg sv m r =
     (if \<not> p_driver_can sv then (sv, m, r, NOT_INITIALIZED)
      else let (sv, r, rc) = init_config_model init_current_estimation p cfg sv r
      in if rc \<noteq> SUCCESS then (sv, m, r, rc)
      else case dm_model (servo_model sv) of
             None \<Rightarrow> (sv, m, r, NOT_SUPPORTED)
           | Some (ty, par) \<Rightarrow>
               (sv\<lparr>sv_type := ty, sv_param := servo_param.truncate par\<rparr>,
                m\<lparr>dm_objs := (dm_objs m)(id_of sv \<mapsto>
                    \<lparr>obj_type = ty, obj_param = Some par, encos_param_override = None, reported_spd = None, reported_tor = None\<rparr>)\<rparr>,
                r, SUCCESS))"

definition dm_init_config_individual :: "json \<Rightarrow> 'a servo_dm_scheme \<Rightarrow> 'a servo_dm_scheme \<times> ReturnCode" where
  "dm_init_config_individual cfg sv =
     (let (sv, rc) = init_config_individual cfg sv
      in if rc \<noteq> SUCCESS then (sv, rc) else if \<not> p_driver_can sv then (sv, NOT_INITIALIZED) else (sv, SUCCESS))"

section \<open>Start and verification\<close>

definition start_hardware :: "'m mit_scheme mit_ops \<Rightarrow> 'a servo_dm_scheme \<Rightarrow> 'm mit_scheme \<Rightarrow> ('a, 'm) dm_result" where
  "start_hardware ops sv m =
     (if reject_if_thermal_fault_latched sv \<noteq> SUCCESS then Some (sv, m, HARDWARE_FAULT)
      else if \<not> p_driver_can sv then Some (sv, m, NOT_INITIALIZED)
      else case v_enable ops (id_of sv) (sv_type sv) True m of
             None \<Rightarrow> None
           | Some (m, rc) \<Rightarrow>
               (if rc = SUCCESS then Some (sv, m, SUCCESS)
                else if rc = HARDWARE_FAULT \<and> 0 \<le> last_enable_fault_status m \<and> is_effector sv \<and>
                        is_thermal_fault (dm_servo_status_info (word_of_int (last_enable_fault_status m)))
                then latch_effector_thermal_fault ops (word_of_int (last_enable_fault_status m))
                       (estimate_current (fst (mit_read_hardware_values True m sv))) m
                else Some (sv, m, rc)))"

definition verify_position_fresh :: "'a servo_dm_scheme \<Rightarrow> 'm mit_scheme \<Rightarrow> ReturnCode" where
  "verify_position_fresh sv m =
     (if \<not> p_driver_can sv then NOT_INITIALIZED
      else if get_received_motor_id m (data_index sv) = 0 then FAIL else SUCCESS)"

definition healthy_code :: "ServoType \<Rightarrow> u8" where
  "healthy_code ty = (if ty = DM_4340 \<or> ty = DM_4310 then 1 else 0)"

definition verify_operational :: "'m mit_scheme mit_ops \<Rightarrow> 'a servo_dm_scheme \<Rightarrow> 'm mit_scheme \<Rightarrow> ('a, 'm) dm_result" where
  "verify_operational ops sv m =
     (if \<not> p_driver_can sv then Some (sv, m, NOT_INITIALIZED)
      else if sv_type sv = CAN_PASSIVE_ENCODER \<or> sv_type sv = ARX_ENCODER then Some (sv, m, SUCCESS)
      else let (sv, rc) = mit_read_hardware_values True m sv
      in if rc \<noteq> SUCCESS then Some (sv, m, rc)
      else if motor_error_code sv = healthy_code (sv_type sv) then Some (sv, m, SUCCESS)
      else if sv_type sv \<noteq> DM_4340 \<and> sv_type sv \<noteq> DM_4310 then Some (sv, m, FAIL)
      else case v_enable ops (id_of sv) (sv_type sv) True m of
             None \<Rightarrow> None
           | Some (m, rc) \<Rightarrow>
               (if rc \<noteq> SUCCESS then Some (sv, m, rc)
                else let (sv, rc) = mit_read_hardware_values True m sv
                in if rc \<noteq> SUCCESS then Some (sv, m, rc)
                else if motor_error_code sv \<noteq> healthy_code (sv_type sv) then Some (sv, m, FAIL)
                else Some (sv, m, SUCCESS)))"

section \<open>Commands\<close>

definition get_effective_pos_kp :: "'a servo_data_scheme \<Rightarrow> flt" where
  "get_effective_pos_kp sv = (if flt_eq (pos_kp sv) (Fin 0) then Fin 10 else pos_kp sv)"

definition command_kp :: "'a servo_data_scheme \<Rightarrow> flt" where
  "command_kp sv = (if dev_force_feedback_enabled (p_device sv) then get_adjusted_pos_kp sv else get_effective_pos_kp sv)"

definition command_pos :: "'a servo_data_scheme \<Rightarrow> flt \<Rightarrow> flt" where
  "command_pos sv target_pos = get_pos_rad_absolute sv (clipping target_pos (pos_min_rel sv) (pos_max_rel sv))"

definition issue ::
  "'m mit_scheme mit_ops \<Rightarrow> nat \<Rightarrow> flt \<Rightarrow> flt \<Rightarrow> flt \<Rightarrow> flt \<Rightarrow> flt \<Rightarrow> 'a servo_dm_scheme \<Rightarrow> 'm mit_scheme \<Rightarrow> ('a, 'm) dm_result" where
  "issue ops us kp kd pos vel tor sv m =
     (case v_send_command ops (Some (sv_type sv, id_of sv)) kp kd pos vel tor m of
        None \<Rightarrow> None
      | Some (m, rc) \<Rightarrow> Some (sv, usleep us m, rc))"

definition move :: "'m mit_scheme mit_ops \<Rightarrow> flt \<Rightarrow> 'a servo_dm_scheme \<Rightarrow> 'm mit_scheme \<Rightarrow> ('a, 'm) dm_result" where
  "move ops target_pos sv m =
     (if reject_if_thermal_fault_latched sv \<noteq> SUCCESS then Some (sv, m, HARDWARE_FAULT)
      else if \<not> p_driver_can sv then Some (sv, m, NOT_INITIALIZED)
      else issue ops 100 (command_kp sv) (get_adjusted_pos_kd sv) (command_pos sv target_pos) (Fin 0) (Fin 0) sv m)"

definition move_full ::
  "'m mit_scheme mit_ops \<Rightarrow> flt \<Rightarrow> flt \<Rightarrow> flt \<Rightarrow> 'a servo_dm_scheme \<Rightarrow> 'm mit_scheme \<Rightarrow> ('a, 'm) dm_result" where
  "move_full ops target_pos target_vel target_tor sv m =
     (if reject_if_thermal_fault_latched sv \<noteq> SUCCESS then Some (sv, m, HARDWARE_FAULT)
      else case (p_driver_can sv, p_joint sv) of
        (True, Some j) \<Rightarrow>
          issue ops 100 (command_kp sv) (get_adjusted_pos_kd sv) (command_pos sv target_pos) target_vel
            (clipping target_tor (torq_min j) (torq_max j)) sv m
      | _ \<Rightarrow> Some (sv, m, NOT_INITIALIZED))"

definition apply_torque :: "'m mit_scheme mit_ops \<Rightarrow> flt \<Rightarrow> 'a servo_dm_scheme \<Rightarrow> 'm mit_scheme \<Rightarrow> ('a, 'm) dm_result" where
  "apply_torque ops torque sv m =
     (if reject_if_thermal_fault_latched sv \<noteq> SUCCESS then Some (sv, m, HARDWARE_FAULT)
      else case (p_driver_can sv, p_joint sv) of
        (True, Some j) \<Rightarrow>
          issue ops 200 (Fin 0) (Fin 0) (Fin 0) (Fin 0)
            (clipping (fmul binary32 torque (torq_rescale j)) (torq_min j) (torq_max j)) sv m
      | _ \<Rightarrow> Some (sv, m, NOT_INITIALIZED))"

definition apply_torque_with_damping ::
  "'m mit_scheme mit_ops \<Rightarrow> flt \<Rightarrow> 'a servo_dm_scheme \<Rightarrow> 'm mit_scheme \<Rightarrow> ('a, 'm) dm_result" where
  "apply_torque_with_damping ops torque sv m =
     (if reject_if_thermal_fault_latched sv \<noteq> SUCCESS then Some (sv, m, HARDWARE_FAULT)
      else case (p_driver_can sv, p_joint sv) of
        (True, Some j) \<Rightarrow>
          issue ops 200 (Fin 0) (get_adjusted_pos_kd sv) (Fin 0) (Fin 0)
            (clipping (fmul binary32 torque (torq_rescale j)) (torq_min j) (torq_max j)) sv m
      | _ \<Rightarrow> Some (sv, m, NOT_INITIALIZED))"

section \<open>The read cycle\<close>

definition get_frame_age_ms :: "'a servo_dm_scheme \<Rightarrow> 'm mit_scheme \<Rightarrow> int" where
  "get_frame_age_ms sv m =
     (if \<not> p_driver_can sv then -1
      else let t = get_last_update_perf m (data_index sv) in if t = 0 then -1 else int (age_ms t (now m)))"

definition last_update :: "'a servo_dm_scheme \<Rightarrow> 'm mit_scheme \<Rightarrow> nat" where
  "last_update sv m = (if p_driver_can sv then get_last_update_perf m (data_index sv) else 0)"

definition frame_stale :: "'a servo_dm_scheme \<Rightarrow> 'm mit_scheme \<Rightarrow> bool" where
  "frame_stale sv m \<longleftrightarrow>
     last_update sv m = 0 \<or> stale_threshold (motor_moved sv) < age_ms (last_update sv m) (now m)"

text \<open>The status evaluation after the base class's read, whose code is \<open>rc\<close>.\<close>

definition evaluate_status ::
  "'m mit_scheme mit_ops \<Rightarrow> ReturnCode \<Rightarrow> 'a servo_dm_scheme \<Rightarrow> 'm mit_scheme \<Rightarrow> ('a, 'm) dm_result" where
  "evaluate_status ops rc sv m =
     (let status = dm_servo_status_info (motor_error_code sv)
      in if sv_type sv = ENCOS_A4310 \<or> sv_type sv = ARX_ENCODER then Some (sv, m, rc)
      else if is_effector sv \<and> (is_thermal_fault status \<or> flt_lt (Fin 93) (temperature sv))
      then latch_effector_thermal_fault ops (motor_error_code sv) sv m
      else if is_fault status
      then Some (sv\<lparr>last_reported_fault_code := motor_error_code sv\<rparr>, m, if rc = SUCCESS then HARDWARE_FAULT else rc)
      else Some (sv\<lparr>last_reported_fault_code := 0\<rparr>, m, rc))"

definition note_motor_moved :: "bool \<Rightarrow> 'a servo_dm_scheme \<Rightarrow> 'a servo_dm_scheme" where
  "note_motor_moved last_update_is_zero sv =
     (if \<not> motor_moved sv \<and> \<not> last_update_is_zero
      then sv\<lparr>motor_moved := True, checker_motor_no_response :=
               set_hold_count_threshold (checker_motor_no_response sv) MAX_CNT_MOTOR_NO_RESPONSE_NORMAL\<rparr>
      else sv)"

definition dm_read_hardware_values ::
  "'m mit_scheme mit_ops \<Rightarrow> 'a servo_dm_scheme \<Rightarrow> 'm mit_scheme \<Rightarrow> ('a, 'm) dm_result" where
  "dm_read_hardware_values ops sv m =
     (let (h, holding) = is_holding (checker_motor_no_response sv) (frame_stale sv m);
          last_update_is_zero = (last_update sv m = 0);
          sv = sv\<lparr>checker_motor_no_response := h\<rparr>
      in if holding
         then (let (sm, rc) = graceful_management sv SAFE_MODE_SIG (safe_mode sv) in Some (sv\<lparr>safe_mode := sm\<rparr>, m, rc))
         else let sv = sv\<lparr>safe_mode := fst (exit_safe_mode SAFE_MODE_SIG (safe_mode sv))\<rparr>;
                  (sv, rc) = read_hardware_values
                    (if p_driver_can sv then Some (mit_read_hardware_values True m) else None)
                    (note_motor_moved last_update_is_zero sv)
              in evaluate_status ops rc sv m)"

text \<open>\<^verbatim>\<open>get_mit_codec_report\<close>: the effective and the reported ranges; \<open>None\<close> before configuration.\<close>

record mit_codec_report =
  codec_vel :: "flt \<times> flt"
  codec_tor :: "flt \<times> flt"
  rep_spd :: "(flt \<times> flt) option"
  rep_tor :: "(flt \<times> flt) option"
  rep_pos_kp :: flt
  rep_pos_kd :: flt

definition get_mit_codec_report :: "'a servo_dm_scheme \<Rightarrow> 'm mit_scheme \<Rightarrow> mit_codec_report option" where
  "get_mit_codec_report sv m =
     (case dm_objs m (id_of sv) of
        None \<Rightarrow> None
      | Some ob \<Rightarrow>
          (case obj_param ob of
             None \<Rightarrow> None
           | Some par \<Rightarrow>
               Some \<lparr>codec_vel = (vel_min par, vel_max par), codec_tor = (tor_min par, tor_max par),
                     rep_spd = reported_spd ob, rep_tor = reported_tor ob,
                     rep_pos_kp = get_effective_pos_kp sv, rep_pos_kd = pos_kd sv\<rparr>))"

section \<open>What the base class leaves alone\<close>

text \<open>The identity of the servo, the cached sample the checks look at, and the derived class's fields.\<close>

definition kept :: "'a servo_scheme \<Rightarrow> bool \<times> ServoType \<times> int \<times> int \<times> device_view \<times> joint_view option \<times> 'a" where
  "kept sv = (parked sv, sv_type sv, id_of sv, data_index sv, p_device sv, p_joint sv, servo.more sv)"

definition sampled :: "'a servo_scheme \<Rightarrow> flt \<times> flt \<times> flt \<times> flt \<times> u8" where
  "sampled sv = (curr_pos_abs sv, curr_vel sv, curr_tor sv, temperature sv, motor_error_code sv)"

lemma checks_keep:
  "kept (fst (check_temperature sv)) = kept sv" "sampled (fst (check_temperature sv)) = sampled sv"
  "kept (fst (check_pos_exceed sv)) = kept sv" "sampled (fst (check_pos_exceed sv)) = sampled sv"
  "kept (fst (check_pos_behind sv)) = kept sv" "sampled (fst (check_pos_behind sv)) = sampled sv"
  "kept (fst (check_vel sv)) = kept sv" "sampled (fst (check_vel sv)) = sampled sv"
  "kept (fst (check_tor sv)) = kept sv" "sampled (fst (check_tor sv)) = sampled sv"
  by (simp_all add: kept_def sampled_def check_defs Let_def split: prod.split)

lemma safety_checks_kept: "kept (fst (safety_checks sv)) = kept sv \<and> sampled (fst (safety_checks sv)) = sampled sv"
  unfolding safety_checks_def
  by (intro then_check_fst [where P = "\<lambda>s. kept s = kept sv \<and> sampled s = sampled sv"]) (simp_all add: checks_keep)

lemma wrap_keeps:
  "kept (fst (initialize_position_wrap sv)) = kept sv" "sampled (fst (initialize_position_wrap sv)) = sampled sv"
  by (simp_all add: initialize_position_wrap_def kept_def sampled_def Let_def)

lemma mit_read_keeps: "kept (fst (mit_read_hardware_values b m sv)) = kept sv"
proof -
  have "kept (fst (let (sv, rc) = initialize_position_wrap sv in if rc \<noteq> SUCCESS then (sv, rc) else (sv, SUCCESS)))
      = kept sv" for sv :: "'a servo_scheme"
    using wrap_keeps(1) [of sv] by (simp add: case_prod_beta)
  then show ?thesis unfolding mit_read_hardware_values_def by (simp add: Let_def) (simp add: kept_def)
qed

lemma estimate_keeps: "kept (estimate_current sv) = kept sv" "sampled (estimate_current sv) = sampled sv"
  by (simp_all add: estimate_current_def kept_def sampled_def)

lemma previous_keeps: "kept (keep_previous sv) = kept sv" "sampled (keep_previous sv) = sampled sv"
  by (simp_all add: keep_previous_def kept_def sampled_def)

lemma base_read_keeps:
  assumes "\<And>s. kept (fst (rd s)) = kept s"
  shows "kept (fst (read_hardware_values (if d then Some rd else None) sv)) = kept sv"
  using assms
  by (simp add: read_hardware_values_def Let_def previous_keeps safety_checks_kept estimate_keeps case_prod_beta split: option.split)

text \<open>The fields of the derived class are part of what is kept.\<close>

lemma kept_dm:
  fixes sv sv' :: "'a servo_dm_scheme"
  assumes "kept sv' = kept sv"
  shows "thermal_fault_latched sv' = thermal_fault_latched sv" "parked sv' = parked sv" "sv_type sv' = sv_type sv"
    "id_of sv' = id_of sv" "data_index sv' = data_index sv" "p_device sv' = p_device sv" "p_joint sv' = p_joint sv"
    "motor_moved sv' = motor_moved sv" "p_driver_can sv' = p_driver_can sv"
    "checker_motor_no_response sv' = checker_motor_no_response sv"
    "last_reported_fault_code sv' = last_reported_fault_code sv"
  using assms by (cases sv; cases sv'; simp add: kept_def)+

section \<open>Traffic of a servo\<close>

text \<open>A frame for motor \<open>sid\<close>: on its own id, or a register access that names it.\<close>

definition own_frame :: "int \<Rightarrow> can_frame \<Rightarrow> bool" where
  "own_frame sid f \<longleftrightarrow>
     (let w = word_of_int sid :: u16
      in can_id f = ucast w \<or> can_id f = 0x7FF \<and> take 2 (data f) = [ucast (w AND 0xFF), ucast (drop_bit 8 w)])"

definition sent :: "(can_frame \<Rightarrow> bool) \<Rightarrow> 'a bus_scheme \<Rightarrow> 'a bus_scheme \<Rightarrow> bool" where
  "sent P m m' \<longleftrightarrow> (\<exists>new. tx m' = tx m @ new \<and> (\<forall>f \<in> set new. P f))"

lemma sent_refl: "tx m' = tx m \<Longrightarrow> sent P m m'"
  by (simp add: sent_def)

lemma sent_trans: "sent P m m' \<Longrightarrow> sent P m' m'' \<Longrightarrow> sent P m m''"
  by (force simp: sent_def)

lemma sent_usleep [simp]: "sent P m (usleep us m') = sent P m m'" "sent P (usleep us m) m' = sent P m m'"
  by (simp_all add: sent_def usleep_def)

lemma sent_traffic: "traffic Q n m m' \<Longrightarrow> (\<And>f. Q f \<Longrightarrow> P f) \<Longrightarrow> sent P m m'"
  by (auto simp: sent_def traffic_def)

lemma sent_send_frame: "P f \<Longrightarrow> sent P m (fst (send_frame f m))"
  using sent_traffic [OF traffic_send [of P f m]] by blast

lemma sent_send_frameD: "send_frame f m = (m', rc) \<Longrightarrow> P f \<Longrightarrow> sent P m m'"
  using sent_send_frame [of P f m] by simp

lemma own_handshake_frame: "handshake_frame sid en f \<Longrightarrow> own_frame sid f"
  by (auto simp: handshake_frame_def own_frame_def can_frame_to_set_operation_mode_dm_servo_def
      can_frame_to_enable_dm_servo_def can_frame_to_reset_dm_servo_def can_frame_to_write_register_dm_servo_def
      mk_frame_def Let_def)

lemma send_command_sent:
  assumes "send_command (Some (ty, sid)) kp kd p v t m = Some (m', rc)"
  shows "sent (own_frame sid) m m'"
proof -
  have dm: "own_frame sid f" if "can_frame_to_command_dm_servo (dm_par m) (word_of_int sid) kp kd p v t = Built f" for f
    using that by (auto simp: can_frame_to_command_dm_servo_def own_frame_def zero_frame_def Let_def split: option.splits)
  have encos: "own_frame sid f" if "can_frame_to_command_encos_servo (dm_par m) (word_of_int sid) kp kd p v t = Built f" for f
    using that by (auto simp: can_frame_to_command_encos_servo_def own_frame_def zero_frame_def Let_def split: option.splits)
  have "sent (own_frame sid) m m'" if "send_built b m = Some (m', rc)" "\<And>f. b = Built f \<Longrightarrow> own_frame sid f" for b
    using that by (cases b) (auto simp: send_built_def sent_refl elim: sent_send_frameD)
  then show ?thesis using assms dm encos by (auto simp: send_command_def sent_refl split: if_splits)
qed

lemma stop_start_tx [simp]: "tx (stop_rx m) = tx m" "tx (fst (start_rx m)) = tx m"
  by (simp_all add: stop_rx_def start_rx_def)

lemma sent_mono: "sent Q m m' \<Longrightarrow> (\<And>f. Q f \<Longrightarrow> P f) \<Longrightarrow> sent P m m'"
  by (auto simp: sent_def)

lemma enable_dm_handshake: "sent (handshake_frame sid en) m (fst (enable_dm idx sid en m))"
proof -
  let ?P = "handshake_frame sid en"
  obtain m1 rc where s: "send_frame (can_frame_to_set_operation_mode_dm_servo (word_of_int sid)) m = (m1, rc)" by fastforce
  have s1: "sent ?P m m1" using sent_send_frameD [OF s, of ?P] by (simp add: handshake_frame_def)
  obtain m2 hc where h: "handshake_run idx sid en (stop_rx (usleep 100 m1)) = (m2, hc)" by fastforce
  have "sent ?P (stop_rx (usleep 100 m1)) m2"
    using sent_traffic [OF handshake_traffic [of sid en "stop_rx (usleep 100 m1)" idx]] by (simp add: h)
  then have "sent ?P m1 m2" by (simp add: sent_def usleep_def stop_rx_def)
  then have "sent ?P m m2" using s1 sent_trans by blast
  moreover obtain m3 rs where r: "start_rx m2 = (m3, rs)" by fastforce
  moreover have "tx m3 = tx m2" using stop_start_tx(2) [of m2] by (simp add: r)
  ultimately have "sent ?P m m3" by (simp add: sent_def)
  then show ?thesis using s1 by (simp add: enable_dm_def s h r)
qed

lemma enable_dm_sent: "sent (own_frame sid) m (fst (enable_dm idx sid en m))"
  using sent_mono [OF enable_dm_handshake own_handshake_frame] .

lemma enable_handshake:
  assumes "enable idx sid ty en m = Some (m', rc)" "ty = DM_4340 \<or> ty = DM_4310"
  shows "sent (handshake_frame sid en) m m'"
proof -
  let ?m = "m\<lparr>last_enable_fault_status := -1\<rparr>"
  have "sent P ?m x = sent P m x" for P x by (simp add: sent_def)
  then show ?thesis using assms enable_dm_handshake [of sid en ?m idx]
    by (auto simp: enable_def Let_def sent_refl split: if_splits prod.splits)
qed

lemma enable_sent:
  assumes "enable idx sid ty en m = Some (m', rc)"
  shows "sent (own_frame sid) m m'"
proof -
  let ?m = "m\<lparr>last_enable_fault_status := -1\<rparr>"
  have e: "own_frame sid f"
    if "can_frame_to_command_encos_servo (dm_par ?m) (word_of_int sid) (Fin 0) (Fin 0) (Fin 0) (Fin 0) (Fin 0) = Built f" for f
    using that by (auto simp: can_frame_to_command_encos_servo_def own_frame_def zero_frame_def Let_def split: option.splits)
  have c: "sent P ?m x = sent P m x" for P x by (simp add: sent_def)
  have f: "sent (own_frame sid) m m1" if "own_frame sid f" "send_frame f ?m = (m1, rc1)" for f m1 rc1
    using sent_send_frameD [OF that(2), of "own_frame sid"] that(1) by (simp add: c)
  have d: "sent (own_frame sid) m m1" if "enable_dm idx sid en ?m = (m1, rc1)" for m1 rc1
    using enable_dm_sent [of sid ?m idx en] by (simp add: c that)
  show ?thesis using assms
    by (auto simp: enable_def Let_def sent_refl split: if_splits build.splits prod.splits dest: d f [OF e])
qed

lemma send_disable_once_sent: "sent (own_frame sid) m (fst (send_disable_once sid ty m))"
  using sent_send_frame [of "own_frame sid" "can_frame_to_enable_dm_servo (word_of_int sid) False" m]
    own_handshake_frame [of sid False]
  by (simp add: send_disable_once_def sent_refl handshake_frame_def)

lemma arx_handle_tx: "tx (arx_handle_received_message idx f m) = tx m"
  by (simp add: arx_handle_received_message_def update_encoder_slot_def Let_def split: option.split)

lemma arx_fold_tx: "tx (fold (\<lambda>f. arx_handle_received_message idx (Some f)) fs m) = tx m"
  by (induction fs arbitrary: m) (simp_all add: arx_handle_tx)

lemma arx_warmup_tx: "tx (arx_warmup idx i n arrivals m) = tx m"
  by (induction idx i n arrivals m rule: arx_warmup.induct)
    (simp_all add: arx_fold_tx usleep_def Let_def split: list.split)

section \<open>Calls and runs\<close>

datatype dm_call =
  Start | Verify | Move flt | MoveFull flt flt flt | Torque flt | TorqueDamped flt | Park | ReadValues

fun dm_exec :: "'m mit_scheme mit_ops \<Rightarrow> dm_call \<Rightarrow> 'a servo_dm_scheme \<Rightarrow> 'm mit_scheme \<Rightarrow> ('a, 'm) dm_result" where
  "dm_exec ops Start sv m = start_hardware ops sv m"
| "dm_exec ops Verify sv m = verify_operational ops sv m"
| "dm_exec ops (Move p) sv m = move ops p sv m"
| "dm_exec ops (MoveFull p v t) sv m = move_full ops p v t sv m"
| "dm_exec ops (Torque t) sv m = apply_torque ops t sv m"
| "dm_exec ops (TorqueDamped t) sv m = apply_torque_with_damping ops t sv m"
| "dm_exec ops Park sv m = park_safely ops sv m"
| "dm_exec ops ReadValues sv m = dm_read_hardware_values ops sv m"

text \<open>
  What happens to one servo and its bus: a call of any of its operations, a pass of the driver's communication-loss policy over
  any servos, or anything else, the reception thread, the clock and the calls of other servos, which speak only for
  their own motors and so transmit no frame for this one.
\<close>

datatype dm_event = Call dm_call | Policy "int list" bool | Elsewhere

inductive dm_step ::
  "'m mit_scheme mit_ops \<Rightarrow> dm_event \<Rightarrow> 'a servo_dm_scheme \<times> 'm mit_scheme \<Rightarrow> 'a servo_dm_scheme \<times> 'm mit_scheme \<Rightarrow> bool" for ops where
  call: "dm_exec ops c sv m = Some (sv', m', rc) \<Longrightarrow> dm_step ops (Call c) (sv, m) (sv', m')"
| policy: "arm_comm_loss_protection (Some (servo_ids, stop)) m = (m', rc) \<Longrightarrow> dm_step ops (Policy servo_ids stop) (sv, m) (sv, m')"
| elsewhere: "sent (\<lambda>f. \<not> own_frame (id_of sv) f) m m' \<Longrightarrow> dm_step ops Elsewhere (sv, m) (sv, m')"

inductive_cases dm_stepE: "dm_step ops ev (sv, m) st"

inductive dm_run ::
  "'m mit_scheme mit_ops \<Rightarrow> dm_event list \<Rightarrow> 'a servo_dm_scheme \<times> 'm mit_scheme \<Rightarrow> 'a servo_dm_scheme \<times> 'm mit_scheme \<Rightarrow> bool" for ops where
  none: "dm_run ops [] st st"
| more: "dm_step ops ev st st1 \<Longrightarrow> dm_run ops evs st1 st2 \<Longrightarrow> dm_run ops (ev # evs) st st2"

text \<open>A service frame switches a motor on, resets it, sets its mode, or reads or writes its timeout or ranges; it carries no position, velocity or torque.\<close>

definition service_frame :: "can_frame \<Rightarrow> bool" where
  "service_frame f \<longleftrightarrow> (\<exists>k. handshake_frame k True f \<or> (\<exists>stop. policy_frame stop {k} f))"

fun wakes :: "dm_event \<Rightarrow> bool" where
  "wakes (Call c) = (c = Verify)"
| "wakes (Policy ids stop) = True"
| "wakes Elsewhere = False"

lemma policy_service: "sent service_frame m (fst (arm_comm_loss_protection (Some (servo_ids, stop)) m))"
proof -
  have "sent service_frame (stop_rx m) (fold (arm_one stop) servo_ids (stop_rx m))"
    by (rule sent_traffic [OF arm_fold_traffic [OF order_refl]]) (auto simp: service_frame_def policy_frame_def)
  then show ?thesis by (simp add: arm_comm_loss_protection_def sent_refl sent_def)
qed

section \<open>The driver contract\<close>

text \<open>
  What a servo relies on of its driver: a command or an enable for motor \<open>sid\<close> transmits nothing
  but frames for \<open>sid\<close>, and an enable of a DM motor nothing but the frames of the handshake.
\<close>

locale motor_driver =
  fixes ops :: "'m mit_scheme mit_ops"
  assumes send_own: "v_send_command ops (Some (ty, sid)) kp kd p v t m = Some (m', rc) \<Longrightarrow> sent (own_frame sid) m m'"
    and enable_own: "v_enable ops sid ty en m = Some (m', rc) \<Longrightarrow> sent (own_frame sid) m m'"
    and enable_serves: "v_enable ops sid ty en m = Some (m', rc) \<Longrightarrow> ty = DM_4340 \<or> ty = DM_4310 \<Longrightarrow> sent (handshake_frame sid en) m m'"
begin

lemma latch_own:
  "latch_effector_thermal_fault ops c sv m = Some (sv', m', rc) \<Longrightarrow> sent (own_frame (id_of sv)) m m'"
  by (auto simp: latch_effector_thermal_fault_def Let_def sent_refl split: if_splits option.splits
      intro: sent_trans [OF send_own send_disable_once_sent])

lemma issue_own: "issue ops us kp kd p v t sv m = Some (sv', m', rc) \<Longrightarrow> sent (own_frame (id_of sv)) m m'"
  by (auto simp: issue_def split: option.splits intro: send_own)

lemma park_own: "park_safely ops sv m = Some (sv', m', rc) \<Longrightarrow> sent (own_frame (id_of sv)) m m'"
  by (auto simp: park_safely_def sent_refl split: if_splits option.splits
      dest!: send_own enable_own) (blast intro: sent_trans)+

lemma start_own:
  assumes "start_hardware ops sv m = Some (sv', m', rc)"
  shows "sent (own_frame (id_of sv)) m m'"
proof -
  have k: "id_of (estimate_current (fst (mit_read_hardware_values True m1 sv))) = id_of sv" for m1 :: "'m mit_scheme"
    by (rule kept_dm(4)) (simp add: estimate_keeps mit_read_keeps)
  have e: "sent (own_frame (id_of sv)) m m1" if "v_enable ops (id_of sv) (sv_type sv) True m = Some (m1, c)" for m1 c
    using enable_own that .
  have l: "sent (own_frame (id_of sv)) m1 m'"
    if "latch_effector_thermal_fault ops c (estimate_current (fst (mit_read_hardware_values True m1 sv))) m1
      = Some (sv', m', rc)" for m1 c
    using latch_own [OF that] by (simp add: k)
  show ?thesis using assms e l sent_trans unfolding start_hardware_def
    by (auto simp: sent_refl split: if_splits option.splits) blast
qed

lemma evaluate_own: "evaluate_status ops c sv m = Some (sv', m', rc) \<Longrightarrow> sent (own_frame (id_of sv)) m m'"
  by (auto simp: evaluate_status_def Let_def sent_refl split: if_splits dest: latch_own)

lemma verify_own:
  assumes "verify_operational ops sv m = Some (sv', m', rc)"
  shows "sent (own_frame (id_of sv)) m m'"
proof -
  obtain s1 r1 where 1: "mit_read_hardware_values True m sv = (s1, r1)" by fastforce
  have "kept s1 = kept sv" using mit_read_keeps [of True m sv] by (simp add: 1)
  then have "id_of s1 = id_of sv" by (rule kept_dm(4))
  then have "sent (own_frame (id_of sv)) m m1" if "v_enable ops (id_of s1) (sv_type s1) True m = Some (m1, c)" for m1 c
    using enable_own [OF that] by simp
  then show ?thesis using assms unfolding verify_operational_def
    by (auto simp: 1 Let_def sent_refl split: if_splits option.splits prod.splits)
qed

lemma read_own:
  assumes "dm_read_hardware_values ops sv m = Some (sv', m', rc)"
  shows "sent (own_frame (id_of sv)) m m'"
proof -
  obtain h holding where h: "is_holding (checker_motor_no_response sv) (frame_stale sv m) = (h, holding)" by fastforce
  define s1 where "s1 = note_motor_moved (last_update sv m = 0)
    (sv\<lparr>checker_motor_no_response := h, safe_mode := fst (exit_safe_mode SAFE_MODE_SIG (safe_mode sv))\<rparr>)"
  obtain s2 r2 where r: "read_hardware_values (if p_driver_can sv then Some (mit_read_hardware_values True m) else None) s1
      = (s2, r2)" by fastforce
  have "kept s2 = kept s1"
    using base_read_keeps [of "mit_read_hardware_values True m" "p_driver_can sv" s1, OF mit_read_keeps] by (simp add: r)
  then have "id_of s2 = id_of s1" by (rule kept_dm(4))
  also have "\<dots> = id_of sv" by (simp add: s1_def note_motor_moved_def)
  finally have "sent (own_frame (id_of sv)) m m'" if "evaluate_status ops r2 s2 m = Some (sv', m', rc)"
    using evaluate_own [OF that] by simp
  then show ?thesis using assms unfolding dm_read_hardware_values_def
    by (auto simp: h Let_def r s1_def [symmetric] sent_refl split: if_splits prod.splits)
qed

lemma command_own:
  "move ops p sv m = Some (sv', m', rc) \<Longrightarrow> sent (own_frame (id_of sv)) m m'"
  "move_full ops p v t sv m = Some (sv', m', rc) \<Longrightarrow> sent (own_frame (id_of sv)) m m'"
  "apply_torque ops t sv m = Some (sv', m', rc) \<Longrightarrow> sent (own_frame (id_of sv)) m m'"
  "apply_torque_with_damping ops t sv m = Some (sv', m', rc) \<Longrightarrow> sent (own_frame (id_of sv)) m m'"
  by (auto simp: move_def move_full_def apply_torque_def apply_torque_with_damping_def sent_refl
      split: if_splits bool.splits option.splits dest: issue_own)

lemma call_own: "dm_exec ops c sv m = Some (sv', m', rc) \<Longrightarrow> sent (own_frame (id_of sv)) m m'"
  by (cases c) (auto dest: start_own verify_own command_own park_own read_own)

end

interpretation mit_driver: motor_driver "can_mit_ops idx" for idx
  by unfold_locales (auto simp: can_mit_ops_def intro: send_command_sent enable_sent enable_handshake)

interpretation arx_driver: motor_driver "arx_ops idx arrivals" for idx arrivals
  by unfold_locales
    (auto simp: arx_ops_def arx_send_command_def arx_enable_def arx_warmup_tx sent_refl split: if_splits)

section \<open>The latch and the read cycle\<close>

text \<open>The read cycle once the dead-bus check has passed.\<close>

definition read_tail :: "'m mit_scheme \<Rightarrow> 'a servo_dm_scheme \<Rightarrow> 'a servo_dm_scheme \<times> ReturnCode" where
  "read_tail m sv =
     read_hardware_values (if p_driver_can sv then Some (mit_read_hardware_values True m) else None)
       (note_motor_moved (last_update sv m = 0)
         (sv\<lparr>checker_motor_no_response := hold_step (checker_motor_no_response sv) (frame_stale sv m),
             safe_mode := fst (exit_safe_mode SAFE_MODE_SIG (safe_mode sv))\<rparr>))"

lemma graceful_sig: "snd (graceful_management sv SAFE_MODE_SIG sm) = SAFE_MODE_SIG"
  by (simp add: graceful_management_def graceful_management_sig_def)

lemma dm_read_cases:
  "dm_read_hardware_values ops sv m =
     (if holding_status (hold_step (checker_motor_no_response sv) (frame_stale sv m))
      then (let sv = sv\<lparr>checker_motor_no_response := hold_step (checker_motor_no_response sv) (frame_stale sv m)\<rparr>
            in Some (sv\<lparr>safe_mode := fst (graceful_management sv SAFE_MODE_SIG (safe_mode sv))\<rparr>, m, SAFE_MODE_SIG))
      else evaluate_status ops (snd (read_tail m sv)) (fst (read_tail m sv)) m)"
proof -
  have i: "is_holding h c = (hold_step h c, holding_status (hold_step h c))" for h c
    by (simp add: hold_step_def is_holding_def Let_def)
  show ?thesis unfolding dm_read_hardware_values_def read_tail_def i
    by (simp add: Let_def case_prod_beta graceful_sig)
qed

lemma read_tail_kept:
  fixes sv :: "'a servo_dm_scheme"
  shows "thermal_fault_latched (fst (read_tail m sv)) = thermal_fault_latched sv" "parked (fst (read_tail m sv)) = parked sv"
    "sv_type (fst (read_tail m sv)) = sv_type sv" "id_of (fst (read_tail m sv)) = id_of sv"
    "data_index (fst (read_tail m sv)) = data_index sv" "p_device (fst (read_tail m sv)) = p_device sv"
    "p_driver_can (fst (read_tail m sv)) = p_driver_can sv"
    "motor_moved (fst (read_tail m sv)) = (motor_moved sv \<or> last_update sv m \<noteq> 0)"
    "motor_moved sv \<or> last_update sv m = 0 \<Longrightarrow> checker_motor_no_response (fst (read_tail m sv))
       = hold_step (checker_motor_no_response sv) (frame_stale sv m)"
proof -
  let ?s = "note_motor_moved (last_update sv m = 0)
         (sv\<lparr>checker_motor_no_response := hold_step (checker_motor_no_response sv) (frame_stale sv m),
             safe_mode := fst (exit_safe_mode SAFE_MODE_SIG (safe_mode sv))\<rparr>)"
  have "kept (fst (read_tail m sv)) = kept ?s"
    unfolding read_tail_def by (rule base_read_keeps) (rule mit_read_keeps)
  note k = kept_dm [OF this]
  show "thermal_fault_latched (fst (read_tail m sv)) = thermal_fault_latched sv" "parked (fst (read_tail m sv)) = parked sv"
    "sv_type (fst (read_tail m sv)) = sv_type sv" "id_of (fst (read_tail m sv)) = id_of sv"
    "data_index (fst (read_tail m sv)) = data_index sv" "p_device (fst (read_tail m sv)) = p_device sv"
    "p_driver_can (fst (read_tail m sv)) = p_driver_can sv"
    "motor_moved (fst (read_tail m sv)) = (motor_moved sv \<or> last_update sv m \<noteq> 0)"
    "motor_moved sv \<or> last_update sv m = 0 \<Longrightarrow> checker_motor_no_response (fst (read_tail m sv))
       = hold_step (checker_motor_no_response sv) (frame_stale sv m)"
    unfolding k by (auto simp: note_motor_moved_def)
qed

lemma latched_call:
  assumes "thermal_fault_latched sv" "parked sv" "c \<noteq> Verify" "dm_exec ops c sv m = Some (sv', m', rc)"
  shows "m' = m \<and> thermal_fault_latched sv' \<and> parked sv' \<and> id_of sv' = id_of sv"
proof (cases c)
  case ReadValues
  have "evaluate_status ops (snd (read_tail m sv)) (fst (read_tail m sv)) m = Some (sv', m', rc) \<Longrightarrow> ?thesis"
    using assms(1,2)
    by (auto simp: evaluate_status_def Let_def latch_effector_thermal_fault_def read_tail_kept split: if_splits)
  then show ?thesis using ReadValues assms by (auto simp: dm_read_cases Let_def split: if_splits)
qed (use assms in \<open>auto simp: start_hardware_def move_def move_full_def apply_torque_def apply_torque_with_damping_def
    park_safely_def reject_if_thermal_fault_latched_def\<close>)

text \<open>The verification does not look at the latch: it may switch the motor on again, but it keeps the latch.\<close>

context motor_driver
begin

lemma latched_verify:
  assumes "verify_operational ops sv m = Some (sv', m', rc)"
  shows "sent service_frame m m' \<and> thermal_fault_latched sv' = thermal_fault_latched sv \<and> parked sv' = parked sv \<and> id_of sv' = id_of sv"
proof -
  have k: "thermal_fault_latched (fst (mit_read_hardware_values True w s)) = thermal_fault_latched s"
    "parked (fst (mit_read_hardware_values True w s)) = parked s" "id_of (fst (mit_read_hardware_values True w s)) = id_of s"
    for w :: "'m mit_scheme" and s :: "'b servo_dm_scheme"
    using kept_dm [OF mit_read_keeps [of True w s]] by simp_all
  have e: "sent service_frame m m1" if "v_enable ops sid ty True m = Some (m1, c)" "ty = DM_4340 \<or> ty = DM_4310" for sid ty m1 c
    by (rule sent_mono [OF enable_serves [OF that]]) (auto simp: service_frame_def)
  show ?thesis using assms unfolding verify_operational_def
    by (auto simp: Let_def case_prod_beta k sent_refl split: if_splits option.splits dest: e)
qed

lemma latched_step:
  assumes "dm_step ops ev (sv, m) (sv', m')" "thermal_fault_latched sv" "parked sv"
  shows "sent (\<lambda>f. own_frame (id_of sv) f \<longrightarrow> service_frame f \<and> wakes ev) m m' \<and>
    thermal_fault_latched sv' \<and> parked sv' \<and> id_of sv' = id_of sv"
  using assms(1)
proof (cases rule: dm_step.cases)
  case (call c rc)
  then have e: "ev = Call c" "dm_exec ops c sv m = Some (sv', m', rc)" by simp_all
  show ?thesis
  proof (cases "c = Verify")
    case True
    then show ?thesis using latched_verify [of sv m sv' m' rc] e assms(2,3) by (auto elim: sent_mono)
  next
    case False
    then show ?thesis using latched_call [OF assms(2,3) False e(2)] by (simp add: sent_refl)
  qed
next
  case (policy servo_ids stop rc)
  then show ?thesis using policy_service [of m servo_ids stop] assms(2,3) by (auto elim: sent_mono)
next
  case elsewhere
  then show ?thesis using assms(2,3) by (auto elim: sent_mono)
qed

lemma latched_run:
  assumes "dm_run ops evs st st'" "thermal_fault_latched (fst st)" "parked (fst st)"
  shows "sent (\<lambda>f. own_frame (id_of (fst st)) f \<longrightarrow> service_frame f \<and> (\<exists>ev \<in> set evs. wakes ev)) (snd st) (snd st') \<and>
    thermal_fault_latched (fst st') \<and> parked (fst st') \<and> id_of (fst st') = id_of (fst st)"
  using assms
proof (induction rule: dm_run.induct)
  case (more ev st st1 evs st2)
  obtain sv m sv1 m1 where st: "st = (sv, m)" "st1 = (sv1, m1)" by fastforce
  have 1: "sent (\<lambda>f. own_frame (id_of sv) f \<longrightarrow> service_frame f \<and> wakes ev) m m1" "thermal_fault_latched sv1" "parked sv1" "id_of sv1 = id_of sv"
    using latched_step [of ev sv m sv1 m1] more.hyps(1) more.prems st by simp_all
  let ?P = "\<lambda>f. own_frame (id_of sv) f \<longrightarrow> service_frame f \<and> (\<exists>ev' \<in> set (ev # evs). wakes ev')"
  have "sent ?P m m1" using 1(1) by (rule sent_mono) auto
  moreover have "sent ?P m1 (snd st2)" using more.IH 1 st by (auto elim: sent_mono)
  ultimately show ?case using more.IH 1 st by (auto intro: sent_trans)
qed (simp add: sent_refl)

end

text \<open>The motor-parameter hook of this class keeps the base class's configuration contract.\<close>

interpretation dm_hook: current_estimation_hook init_current_estimation
  by unfold_locales (simp add: init_current_estimation_def Let_def)

section \<open>Properties\<close>

text \<open>C9: A servo speaks for its own motor only. Whatever operation is called, on either driver and with any
  outcome, every frame it puts on the bus carries the motor's own id or is a register access that names it.\<close>

theorem servo_speaks_for_itself:
  assumes "ops \<in> {can_mit_ops idx, arx_ops idx arrivals}" "dm_exec ops c sv m = Some (sv', m', rc)"
  shows "\<exists>new. tx m' = tx m @ new \<and> (\<forall>f \<in> set new. own_frame (id_of sv) f)"
  using assms mit_driver.call_own arx_driver.call_own unfolding sent_def by blast

text \<open>C7: The thermal latch of an effector is permanent and the motor gets no command after it. In any run of calls of the servo, the
  startup verification included, of passes of the communication-loss policy and of activity elsewhere on the bus, on either CAN driver,
  the servo stays latched: starting it and every position or torque command are refused with \<open>HARDWARE_FAULT\<close> and change nothing,
  and parking is a no-op. Every frame transmitted for the motor is a service frame, which carries no position, velocity or torque,
  and there is none at all unless the verification or a policy pass ran: these two do not look at the latch and may switch the motor on again.\<close>

theorem thermal_stop_is_permanent:
  assumes "ops \<in> {can_mit_ops idx, arx_ops idx arrivals}"
    and "\<not> thermal_fault_latched sv" "latch_effector_thermal_fault ops code sv m = Some (sv1, m1, rc1)"
    and "dm_run ops evs (sv1, m1) (sv2, m2)"
  shows "(\<exists>new. tx m2 = tx m1 @ new \<and>
      (\<forall>f \<in> set new. own_frame (id_of sv) f \<longrightarrow> service_frame f \<and> (\<exists>ev \<in> set evs. ev = Call Verify \<or> (\<exists>ids stop. ev = Policy ids stop)))) \<and>
    dm_exec ops Start sv2 m2 = Some (sv2, m2, HARDWARE_FAULT) \<and>
    dm_exec ops (Move p) sv2 m2 = Some (sv2, m2, HARDWARE_FAULT) \<and>
    dm_exec ops (MoveFull p v t) sv2 m2 = Some (sv2, m2, HARDWARE_FAULT) \<and>
    dm_exec ops (Torque t) sv2 m2 = Some (sv2, m2, HARDWARE_FAULT) \<and>
    dm_exec ops (TorqueDamped t) sv2 m2 = Some (sv2, m2, HARDWARE_FAULT) \<and>
    dm_exec ops Park sv2 m2 = Some (sv2, m2, SUCCESS)"
proof -
  have l: "thermal_fault_latched sv1" "parked sv1" "id_of sv1 = id_of sv"
    using assms(2,3) by (auto simp: latch_effector_thermal_fault_def Let_def split: if_splits option.splits)
  have "sent (\<lambda>f. own_frame (id_of sv) f \<longrightarrow> service_frame f \<and> (\<exists>ev \<in> set evs. wakes ev)) m1 m2 \<and> thermal_fault_latched sv2 \<and> parked sv2"
    using assms(1,4) mit_driver.latched_run [of idx evs "(sv1, m1)" "(sv2, m2)"]
      arx_driver.latched_run [of idx arrivals evs "(sv1, m1)" "(sv2, m2)"] l by auto
  moreover have "wakes ev \<longleftrightarrow> ev = Call Verify \<or> (\<exists>ids stop. ev = Policy ids stop)" for ev by (cases ev) auto
  ultimately show ?thesis
    by (simp add: sent_def start_hardware_def move_def move_full_def apply_torque_def apply_torque_with_damping_def
        park_safely_def reject_if_thermal_fault_latched_def)
qed

text \<open>A fresh sample.\<close>

lemma mit_read_sampled:
  assumes "in_cache (data_index sv)"
  shows "let d = received m ! nat (data_index sv); sv' = fst (mit_read_hardware_values True m sv)
    in motor_error_code sv' = error_u8 d \<and> temperature sv' = of_int_f binary32 (uint (temperature_u8 d))"
proof -
  have "motor_error_code (fst (let (s, rc) = initialize_position_wrap s in if rc \<noteq> SUCCESS then (s, rc) else (s, SUCCESS)))
      = motor_error_code s"
    "temperature (fst (let (s, rc) = initialize_position_wrap s in if rc \<noteq> SUCCESS then (s, rc) else (s, SUCCESS)))
      = temperature s" for s :: "'a servo_scheme"
    using wrap_keeps(2) [of s] by (simp_all add: case_prod_beta sampled_def)
  then show ?thesis using assms unfolding mit_read_hardware_values_def by (simp add: Let_def)
qed

lemma base_read_sampled:
  "sampled (fst (read_hardware_values (Some rd) sv)) = sampled (fst (rd (keep_previous sv)))"
  by (simp add: read_hardware_values_def Let_def estimate_keeps case_prod_beta safety_checks_kept split: option.split)

lemma read_tail_sample:
  fixes sv :: "'a servo_dm_scheme"
  assumes "p_driver_can sv" "in_cache (data_index sv)"
  shows "motor_error_code (fst (read_tail m sv)) = error_u8 (received m ! nat (data_index sv))"
    "temperature (fst (read_tail m sv)) = of_int_f binary32 (uint (temperature_u8 (received m ! nat (data_index sv))))"
proof -
  define s where "s = note_motor_moved (last_update sv m = 0)
         (sv\<lparr>checker_motor_no_response := hold_step (checker_motor_no_response sv) (frame_stale sv m),
             safe_mode := fst (exit_safe_mode SAFE_MODE_SIG (safe_mode sv))\<rparr>)"
  have d: "data_index (keep_previous s) = data_index sv" by (simp add: s_def note_motor_moved_def keep_previous_def)
  have "sampled (fst (read_tail m sv)) = sampled (fst (mit_read_hardware_values True m (keep_previous s)))"
    using assms(1) unfolding read_tail_def s_def [symmetric] by (simp add: base_read_sampled)
  then show "motor_error_code (fst (read_tail m sv)) = error_u8 (received m ! nat (data_index sv))"
    "temperature (fst (read_tail m sv)) = of_int_f binary32 (uint (temperature_u8 (received m ! nat (data_index sv))))"
    using mit_read_sampled [of "keep_previous s" m] assms(2) by (simp_all add: d sampled_def Let_def)
qed

lemma zero_command_built:
  assumes "par (uint mid) = Some sp" "actuated_param sp"
  shows "\<exists>z. can_frame_to_command_dm_servo par mid (Fin 0) (Fin 0) (Fin 0) (Fin 0) (Fin 0) = Built z"
  using quantise_defined [OF assms(2), of "Fin 0" "Fin 0" "Fin 0" "Fin 0" "Fin 0" 12]
  by (auto simp: can_frame_to_command_dm_servo_def assms(1))

text \<open>C8: One hot sample stops the effector. When a read cycle of a DM effector servo sees a fresh status frame with a
  thermal fault code, or a temperature above 93 degrees, it returns \<open>HARDWARE_FAULT\<close> whatever the other checks say, latches the
  fault, and puts on the bus a zero command and then a disable frame, in this order and nothing else.\<close>

theorem thermal_fault_stops_the_effector:
  fixes sv :: "'a servo_dm_scheme" and m :: "'m mit_scheme"
  assumes "sv_type sv \<in> {DM_4340, DM_4310}" "is_effector sv" "p_driver_can sv" "\<not> thermal_fault_latched sv"
    and "in_cache (data_index sv)" "\<not> frame_stale sv m" "\<not> holding_status (checker_motor_no_response sv)"
    and "0 < hold_count_threshold (checker_motor_no_response sv)"
    and "is_thermal_fault (dm_servo_status_info (error_u8 (received m ! nat (data_index sv)))) \<or>
      93 < uint (temperature_u8 (received m ! nat (data_index sv)))"
    and "sock m" "writes m = []"
    and "dm_par m (uint (word_of_int (id_of sv) :: u16)) = Some sp" "actuated_param sp"
  shows "\<exists>sv' m' z. dm_read_hardware_values (can_mit_ops idx) sv m = Some (sv', m', HARDWARE_FAULT) \<and>
    thermal_fault_latched sv' \<and> parked sv' \<and>
    can_frame_to_command_dm_servo (dm_par m) (word_of_int (id_of sv)) (Fin 0) (Fin 0) (Fin 0) (Fin 0) (Fin 0) = Built z \<and>
    tx m' = tx m @ [z, can_frame_to_enable_dm_servo (word_of_int (id_of sv)) False]"
proof -
  let ?t = "fst (read_tail m sv)" and ?f = "can_frame_to_enable_dm_servo (word_of_int (id_of sv)) False"
  obtain z where z: "can_frame_to_command_dm_servo (dm_par m) (word_of_int (id_of sv)) (Fin 0) (Fin 0) (Fin 0) (Fin 0) (Fin 0) = Built z"
    using zero_command_built [of "dm_par m" "word_of_int (id_of sv)", OF assms(12,13)] by blast
  have h: "\<not> holding_status (hold_step (checker_motor_no_response sv) (frame_stale sv m))"
    using assms(6-8) by (simp add: hold_defs)
  have e: "of_int_f binary32 (uint (w :: u8)) = Fin (of_int (uint w))" for w
    using uint_bounded [of w] by (intro of_int_f32_exact) simp
  have lt93: "93 < u \<Longrightarrow> flt_lt (Fin 93) (Fin (of_int u))" for u :: int by simp
  have "is_thermal_fault (dm_servo_status_info (motor_error_code ?t)) \<or> flt_lt (Fin 93) (temperature ?t)"
    using assms(9) lt93 unfolding read_tail_sample [OF assms(3,5)] e by blast
  then have "dm_read_hardware_values (can_mit_ops idx) sv m
      = latch_effector_thermal_fault (can_mit_ops idx) (motor_error_code ?t) ?t m"
    using assms(1,2) by (auto simp: dm_read_cases h evaluate_status_def Let_def read_tail_kept is_effector_def)
  moreover have "send_command (Some (sv_type sv, id_of sv)) (Fin 0) (Fin 0) (Fin 0) (Fin 0) (Fin 0) m = Some (send_frame z m)"
    using assms(1,10) z by (auto simp: send_command_def send_built_def is_socket_open_def)
  moreover obtain m1 where "send_frame z m = (m1, SUCCESS)" "tx m1 = tx m @ [z]" "sock m1" "writes m1 = []"
    using assms(10,11) by (simp add: send_frame_def usleep_def)
  moreover from this have "tx (fst (send_disable_once (id_of sv) (sv_type sv) m1)) = tx m @ [z, ?f]"
    using assms(1) by (auto simp: send_disable_once_def is_socket_open_def send_frame_def usleep_def)
  ultimately show ?thesis using assms(3,4) z
    by (simp add: latch_effector_thermal_fault_def read_tail_kept can_mit_ops_def Let_def)
qed

text \<open>A verified motor is healthy. When the startup verification of a DM or ENCOS servo succeeds, directly or
  after its re-enable, the cached status frame has the code of an enabled DM motor (1) or of an ENCOS motor without
  error (0).\<close>

theorem verified_means_healthy:
  assumes "sv_type sv \<in> {DM_4340, DM_4310, ENCOS_A4310}" "verify_operational ops sv m = Some (sv', m', SUCCESS)"
  shows "in_cache (data_index sv) \<and>
    error_u8 (received m' ! nat (data_index sv)) = (if sv_type sv = ENCOS_A4310 then 0 else 1)"
proof -
  have r: "in_cache (data_index s)" "motor_error_code s' = error_u8 (received x ! nat (data_index s))"
    "sv_type s' = sv_type s" "data_index s' = data_index s"
    if "mit_read_hardware_values True x s = (s', SUCCESS)" for x :: "'b mit_scheme" and s s' :: "'a servo_dm_scheme"
  proof -
    show c: "in_cache (data_index s)" using that by (auto simp: mit_read_hardware_values_def split: if_splits)
    show "motor_error_code s' = error_u8 (received x ! nat (data_index s))"
      using mit_read_sampled [OF c, of x] by (simp add: that Let_def)
    have "kept s' = kept s" using mit_read_keeps [of True x s] by (simp add: that)
    then show "sv_type s' = sv_type s" "data_index s' = data_index s" by (simp_all add: kept_def)
  qed
  obtain s1 c1 where 1: "mit_read_hardware_values True m sv = (s1, c1)" by fastforce
  show ?thesis
  proof (cases "c1 = SUCCESS \<and> motor_error_code s1 = healthy_code (sv_type s1)")
    case True
    then have "m' = m" using assms by (auto simp: verify_operational_def 1 split: if_splits)
    then show ?thesis using r [OF 1 [unfolded True [THEN conjunct1]]] True assms(1) by (auto simp: healthy_code_def)
  next
    case False
    then obtain m1 s2 where 2: "c1 = SUCCESS" "v_enable ops (id_of s1) (sv_type s1) True m = Some (m1, SUCCESS)"
        "mit_read_hardware_values True m1 s1 = (s2, SUCCESS)" "motor_error_code s2 = healthy_code (sv_type s2)" "m' = m1"
      using assms by (auto simp: verify_operational_def 1 Let_def split: if_splits option.splits prod.splits)
    then show ?thesis using r [OF 1 [unfolded 2(1)]] r [OF 2(3)] assms(1) by (auto simp: healthy_code_def)
  qed
qed

section \<open>Dead-bus detection\<close>

primrec dm_reads :: "'m mit_scheme mit_ops \<Rightarrow> 'a servo_dm_scheme \<Rightarrow> 'm mit_scheme list \<Rightarrow> 'a servo_dm_scheme option" where
  "dm_reads ops sv [] = Some sv"
| "dm_reads ops sv (m # ms) =
     (case dm_read_hardware_values ops sv m of None \<Rightarrow> None | Some (sv', _, _) \<Rightarrow> dm_reads ops sv' ms)"

text \<open>A cycle that can only age: the servo is past its first frame, or no frame has ever come.\<close>

definition no_news :: "'a servo_dm_scheme \<Rightarrow> 'm mit_scheme \<Rightarrow> bool" where
  "no_news sv m \<longleftrightarrow> frame_stale sv m \<and> (motor_moved sv \<or> last_update sv m = 0)"

lemma evaluate_keeps:
  fixes sv :: "'a servo_dm_scheme"
  assumes "evaluate_status ops rc sv m = Some (sv', m', rc')"
  shows "checker_motor_no_response sv' = checker_motor_no_response sv" "motor_moved sv' = motor_moved sv"
    "p_driver_can sv' = p_driver_can sv" "data_index sv' = data_index sv"
  using assms by (auto simp: evaluate_status_def latch_effector_thermal_fault_def Let_def split: if_splits option.splits)

lemma dead_read:
  fixes sv :: "'a servo_dm_scheme" and m :: "'m mit_scheme"
  assumes "no_news sv m" "dm_read_hardware_values ops sv m = Some (sv', m', rc)"
  shows "checker_motor_no_response sv' = hold_step (checker_motor_no_response sv) True"
    "no_news sv' = (no_news sv :: 'm mit_scheme \<Rightarrow> bool)"
proof -
  have n: "frame_stale sv m" "motor_moved sv \<or> last_update sv m = 0" using assms(1) by (simp_all add: no_news_def)
  have "checker_motor_no_response sv' = hold_step (checker_motor_no_response sv) True \<and> motor_moved sv' = motor_moved sv \<and>
      p_driver_can sv' = p_driver_can sv \<and> data_index sv' = data_index sv"
  proof (cases "holding_status (hold_step (checker_motor_no_response sv) True)")
    case True
    then show ?thesis using assms(2) by (auto simp: dm_read_cases n(1) Let_def)
  next
    case False
    then have e: "evaluate_status ops (snd (read_tail m sv)) (fst (read_tail m sv)) m = Some (sv', m', rc)"
      using assms(2) by (simp add: dm_read_cases n(1))
    show ?thesis unfolding evaluate_keeps [OF e] using n by (auto simp: read_tail_kept)
  qed
  then show "checker_motor_no_response sv' = hold_step (checker_motor_no_response sv) True"
    "no_news sv' = (no_news sv :: 'm mit_scheme \<Rightarrow> bool)"
    by (auto simp: no_news_def frame_stale_def last_update_def fun_eq_iff)
qed

lemma dead_reads:
  fixes sv :: "'a servo_dm_scheme" and ms :: "'m mit_scheme list"
  assumes "\<forall>m \<in> set ms. no_news sv m" "dm_reads ops sv ms = Some sv'"
  shows "checker_motor_no_response sv' = hold_run (checker_motor_no_response sv) (replicate (length ms) True) \<and>
    no_news sv' = (no_news sv :: 'm mit_scheme \<Rightarrow> bool)"
  using assms
proof (induction ms arbitrary: sv)
  case (Cons m ms)
  obtain s1 m1 rc where r: "dm_read_hardware_values ops sv m = Some (s1, m1, rc)" "dm_reads ops s1 ms = Some sv'"
    using Cons.prems(2) by (auto split: option.splits)
  have "no_news sv m" using Cons.prems(1) by simp
  note d = dead_read [OF this r(1)]
  show ?case using Cons.IH [OF _ r(2)] Cons.prems(1) d by (simp add: hold_run_def)
qed (simp add: hold_run_def)

text \<open>Only the dead-bus check reports a lost signal.\<close>

lemma manage_code: "snd (manage code sv) = Some rc \<Longrightarrow> rc \<in> {code, SUCCESS}"
  by (auto simp: manage_def graceful_management_def graceful_management_pos_exceed_def graceful_management_pos_behind_def
      graceful_management_vel_def graceful_management_tor_def graceful_management_sig_def
      graceful_management_temperature_def Let_def split: if_splits ReturnCode.splits)

lemma checks_code:
  "snd (check_temperature sv) \<noteq> Some SAFE_MODE_SIG" "snd (check_pos_exceed sv) \<noteq> Some SAFE_MODE_SIG"
  "snd (check_pos_behind sv) \<noteq> Some SAFE_MODE_SIG" "snd (check_vel sv) \<noteq> Some SAFE_MODE_SIG"
  "snd (check_tor sv) \<noteq> Some SAFE_MODE_SIG"
  by (auto simp: check_temperature_def check_pos_exceed_def check_pos_behind_def check_vel_def check_tor_def leave_def
      Let_def case_prod_beta dest!: manage_code split: if_splits)

lemma then_check_snd: "snd (f sv) \<noteq> Some c \<Longrightarrow> (\<And>s. snd (g s) \<noteq> Some c) \<Longrightarrow> snd (then_check f g sv) \<noteq> Some c"
  by (auto simp: then_check_def split: prod.split option.split)

lemma safety_checks_code: "snd (safety_checks sv) \<noteq> Some SAFE_MODE_SIG"
  unfolding safety_checks_def by (intro then_check_snd checks_code)

lemma mit_read_code: "snd (mit_read_hardware_values b m sv) \<in> {SUCCESS, INVALID_PARAM}"
  by (simp add: mit_read_hardware_values_def initialize_position_wrap_def Let_def)

lemma read_tail_code: "snd (read_tail m sv) \<noteq> SAFE_MODE_SIG"
proof -
  have "snd (read_hardware_values (if d then Some (mit_read_hardware_values True m) else None) s) \<noteq> SAFE_MODE_SIG"
    for d and s :: "'a servo_dm_scheme"
    using mit_read_code [of True m "keep_previous s"] safety_checks_code
    by (auto simp: read_hardware_values_def Let_def case_prod_beta split: option.split)
  then show ?thesis by (simp add: read_tail_def)
qed

lemma evaluate_code: "evaluate_status ops rc sv m = Some (sv', m', SAFE_MODE_SIG) \<Longrightarrow> rc = SAFE_MODE_SIG"
  by (auto simp: evaluate_status_def latch_effector_thermal_fault_def Let_def split: if_splits option.splits)

text \<open>When a dead bus is reported. With a freshly set checker and cycles that bring no news, the read cycle reports
  \<open>SAFE_MODE_SIG\<close> exactly from the 500th such cycle on while the servo has never been heard, and exactly from
  the 10000th on once it has: the phase the comments call tighter waits twenty times longer.\<close>

theorem dead_bus_detection_exact:
  fixes sv :: "'a servo_dm_scheme" and m :: "'m mit_scheme"
  assumes "checker_motor_no_response sv = new_hold_checker (if motor_moved sv then 10000 else 500)"
    and "\<forall>m' \<in> set (ms @ [m]). no_news sv m'" "dm_reads ops sv ms = Some sv'"
    and "dm_read_hardware_values ops sv' m = Some (sv'', m'', rc)"
  shows "rc = SAFE_MODE_SIG \<longleftrightarrow> (if motor_moved sv then 10000 else 500) \<le> Suc (length ms)"
proof -
  let ?n = "if motor_moved sv then 10000 else 500 :: nat"
  have d: "checker_motor_no_response sv' = hold_run (new_hold_checker (int ?n)) (replicate (length ms) True)" "no_news sv' m"
    using dead_reads [OF _ assms(3)] assms(1,2) by auto
  have "holding_status (hold_step (checker_motor_no_response sv') True) \<longleftrightarrow> ?n \<le> Suc (length ms)"
  proof (cases "?n \<le> Suc (length ms)")
    case True
    then show ?thesis using hold_run_holds [of ?n "Suc (length ms)"] unfolding d hold_run_replicate_Suc by simp
  next
    case False
    then show ?thesis using hold_run_counts [of "Suc (length ms)" ?n] unfolding d hold_run_replicate_Suc
      by (simp add: new_hold_checker_def)
  qed
  moreover have "frame_stale sv' m" using d(2) by (simp add: no_news_def)
  ultimately show ?thesis using assms(4) read_tail_code [of m sv']
    by (auto simp: dm_read_cases Let_def split: if_splits dest: evaluate_code)
qed

definition gripper :: servo_dm where
  "gripper = (new_servo_dm (sample_servo\<lparr>p_device := (p_device sample_servo)\<lparr>dev_type := EFFECTOR\<rparr>\<rparr>) False False True)
     \<lparr>sv_type := DM_4310, motor_moved := True, checker_motor_no_response := new_hold_checker 10000\<rparr>"

definition gripper_bus :: "u8 \<Rightarrow> u8 \<Rightarrow> mit" where
  "gripper_bus code temp = sample_mit\<lparr>
     dm_objs := [4 \<mapsto> \<lparr>obj_type = DM_4310, obj_param = Some g_servo_dm_param_4310, encos_param_override = None,
       reported_spd = None, reported_tor = None\<rparr>],
     received := new_received[3 := zero_received\<lparr>motor_id := 4, error_u8 := code, temperature_u8 := temp,
       last_update_perf := 6999000\<rparr>]\<rparr>"

lemma gripper_fields:
  "sv_type gripper = DM_4310" "is_effector gripper" "p_driver_can gripper" "\<not> thermal_fault_latched gripper"
  "data_index gripper = 3" "id_of gripper = 4" "motor_moved gripper"
  "checker_motor_no_response gripper = new_hold_checker 10000"
  by (simp_all add: gripper_def new_servo_dm_def new_servo_def servo.defs servo_data.defs is_effector_def sample_servo_def)

lemma gripper_joint:
  "p_joint gripper = Some \<lparr>tele_pos = Fin 0, torq_min = Fin (-10), torq_max = Fin 10, torq_rescale = Fin 1, pos_error_margin = Fin 0\<rparr>"
  by (simp add: gripper_def new_servo_dm_def new_servo_def servo.defs servo_data.defs sample_servo_def)

lemma gripper_bus_fields:
  "sock (gripper_bus c t)" "writes (gripper_bus c t) = []" "now (gripper_bus c t) = 7000000" "tx (gripper_bus c t) = []"
  "received (gripper_bus c t) ! 3 = zero_received\<lparr>motor_id := 4, error_u8 := c, temperature_u8 := t, last_update_perf := 6999000\<rparr>"
  "dm_par (gripper_bus c t) 4 = Some g_servo_dm_param_4310"
  by (simp_all add: gripper_bus_def sample_mit_def new_received_def dm_par_def)

lemma gripper_fresh: "\<not> frame_stale gripper (gripper_bus c t)"
  by (simp add: frame_stale_def last_update_def gripper_fields gripper_bus_fields get_last_update_perf_def in_cache_def
      MAX_SERVO_INFO_BUF_SIZE_def age_ms_def stale_threshold_def CAN_MIT_STALE_FRAME_AGE_NORMAL_MS_def)

theorem thermal_fault_stops_the_effector_witness:
  "\<exists>sv' m' z. dm_read_hardware_values (can_mit_ops (\<lambda>_. 3)) gripper (gripper_bus 0xC 40) = Some (sv', m', HARDWARE_FAULT) \<and>
     thermal_fault_latched sv' \<and> tx m' = [z, can_frame_to_enable_dm_servo 4 False]"
proof -
  have "in_cache (data_index gripper)" by (simp add: gripper_fields in_cache_def MAX_SERVO_INFO_BUF_SIZE_def)
  moreover have "is_thermal_fault (dm_servo_status_info 0xC)" by (simp add: is_thermal_fault_iff)
  ultimately show ?thesis
    using thermal_fault_stops_the_effector [of gripper "gripper_bus 0xC 40" g_servo_dm_param_4310 "\<lambda>_. 3"]
      actuated_params(2)
    by (force simp: gripper_fields gripper_bus_fields gripper_fresh new_hold_checker_def)
qed

lemma gripper_latches:
  "\<exists>sv1 m1. latch_effector_thermal_fault (can_mit_ops idx) 0xC gripper (gripper_bus 0xC 40) = Some (sv1, m1, HARDWARE_FAULT)"
proof -
  obtain z where "can_frame_to_command_dm_servo (dm_par (gripper_bus 0xC 40)) 4 (Fin 0) (Fin 0) (Fin 0) (Fin 0) (Fin 0) = Built z"
    using zero_command_built [of "dm_par (gripper_bus 0xC 40)" 4 g_servo_dm_param_4310] actuated_params(2)
    by (auto simp: gripper_bus_fields)
  then show ?thesis
    by (simp add: latch_effector_thermal_fault_def gripper_fields Let_def can_mit_ops_def send_command_def
        gripper_bus_fields is_socket_open_def send_built_def send_frame_ok)
qed

theorem thermal_stop_is_permanent_witness:
  "\<exists>sv1 m1 m2 new. latch_effector_thermal_fault (can_mit_ops (\<lambda>_. 3)) 0xC gripper (gripper_bus 0xC 40) = Some (sv1, m1, HARDWARE_FAULT) \<and>
     dm_run (can_mit_ops (\<lambda>_. 3)) [Elsewhere, Policy [4] True] (sv1, m1) (sv1, m2) \<and>
     tx m2 = tx m1 @ new \<and> (\<forall>f \<in> set new. own_frame 4 f \<longrightarrow> service_frame f) \<and>
     dm_exec (can_mit_ops (\<lambda>_. 3)) (Torque (Fin 1)) sv1 m2 = Some (sv1, m2, HARDWARE_FAULT)"
proof -
  let ?ops = "can_mit_ops (\<lambda>_. 3)"
  obtain sv1 m1 where l: "latch_effector_thermal_fault ?ops 0xC gripper (gripper_bus 0xC 40)
      = Some (sv1, m1, HARDWARE_FAULT)" using gripper_latches by blast
  obtain m2 rc where p: "arm_comm_loss_protection (Some ([4], True)) (m1\<lparr>now := 9000000\<rparr>) = (m2, rc)" by fastforce
  have "dm_step ?ops Elsewhere (sv1, m1) (sv1, m1\<lparr>now := 9000000\<rparr>)" by (rule dm_step.elsewhere) (simp add: sent_def)
  moreover have "dm_step ?ops (Policy [4] True) (sv1, m1\<lparr>now := 9000000\<rparr>) (sv1, m2)" using p by (rule dm_step.policy)
  ultimately have r: "dm_run ?ops [Elsewhere, Policy [4] True] (sv1, m1) (sv1, m2)" by (blast intro: dm_run.intros)
  have "id_of gripper = 4" by (simp add: gripper_fields)
  with thermal_stop_is_permanent [of ?ops "\<lambda>_. 3" "[]", OF _ gripper_fields(4) l r, of "Fin 0" "Fin 0" "Fin 1"]
  obtain new where "tx m2 = tx m1 @ new" "\<forall>f \<in> set new. own_frame 4 f \<longrightarrow> service_frame f"
    "dm_exec ?ops (Torque (Fin 1)) sv1 m2 = Some (sv1, m2, HARDWARE_FAULT)" by auto
  then show ?thesis using l r by blast
qed

theorem servo_speaks_for_itself_witness:
  "\<exists>sv' m' z. dm_exec (can_mit_ops (\<lambda>_. 3)) (Torque (Fin 0)) gripper (gripper_bus 1 40) = Some (sv', m', SUCCESS) \<and>
     tx m' = [z] \<and> own_frame 4 z"
proof -
  have z: "fmul binary32 (Fin 0) (Fin 1) = Fin 0" "clipping (Fin 0) (Fin (-10)) (Fin 10) = Fin 0"
    by (simp_all add: clipping_def flt_eval)
  obtain z where "can_frame_to_command_dm_servo (dm_par (gripper_bus 1 40)) 4 (Fin 0) (Fin 0) (Fin 0) (Fin 0) (Fin 0) = Built z"
    using zero_command_built [of "dm_par (gripper_bus 1 40)" 4 g_servo_dm_param_4310] actuated_params(2)
    by (auto simp: gripper_bus_fields)
  then obtain sv' m' where e: "dm_exec (can_mit_ops (\<lambda>_. 3)) (Torque (Fin 0)) gripper (gripper_bus 1 40) = Some (sv', m', SUCCESS)"
      "tx m' = [z]"
    by (simp add: apply_torque_def gripper_fields gripper_joint reject_if_thermal_fault_latched_def z issue_def
        can_mit_ops_def send_command_def gripper_bus_fields is_socket_open_def send_built_def send_frame_ok usleep_def)
  then show ?thesis
    using servo_speaks_for_itself [of "can_mit_ops (\<lambda>_. 3)" "\<lambda>_. 3" "[]", OF _ e(1)] by (simp add: gripper_fields gripper_bus_fields)
qed

theorem verified_means_healthy_witness:
  "\<exists>sv'. verify_operational (can_mit_ops (\<lambda>_. 3)) gripper (gripper_bus 1 40) = Some (sv', gripper_bus 1 40, SUCCESS) \<and>
     error_u8 (received (gripper_bus 1 40) ! 3) = 1"
proof -
  have w: "position_wrap_period gripper = Fin 0"
    by (simp add: gripper_def new_servo_dm_def new_servo_def servo.defs servo_data.defs sample_servo_def)
  obtain sv' where v: "verify_operational (can_mit_ops (\<lambda>_. 3)) gripper (gripper_bus 1 40) = Some (sv', gripper_bus 1 40, SUCCESS)"
    by (simp add: verify_operational_def gripper_fields mit_read_hardware_values_def in_cache_def MAX_SERVO_INFO_BUF_SIZE_def
        gripper_bus_fields initialize_position_wrap_def w Let_def healthy_code_def)
  then show ?thesis
    using verified_means_healthy [of gripper "can_mit_ops (\<lambda>_. 3)" "gripper_bus 1 40", OF _ v] by (simp add: gripper_fields)
qed

lemma arm_reads_return:
  fixes sv :: "'a servo_dm_scheme"
  assumes "\<not> is_effector sv"
  shows "\<exists>sv' m' rc. dm_read_hardware_values ops sv m = Some (sv', m', rc) \<and> \<not> is_effector sv'"
proof -
  have "\<not> is_effector (fst (read_tail m sv))" using assms by (simp add: is_effector_def read_tail_kept)
  then show ?thesis using assms by (auto simp: dm_read_cases Let_def evaluate_status_def is_effector_def)
qed

lemma arm_run_returns:
  fixes sv :: "'a servo_dm_scheme"
  shows "\<not> is_effector sv \<Longrightarrow> \<exists>sv'. dm_reads ops sv ms = Some sv' \<and> \<not> is_effector sv'"
proof (induction ms arbitrary: sv)
  case (Cons m ms)
  obtain s m' rc where "dm_read_hardware_values ops sv m = Some (s, m', rc)" "\<not> is_effector s"
    using arm_reads_return [OF Cons.prems] by blast
  then show ?case using Cons.IH by simp
qed simp

theorem dead_bus_detection_exact_witness:
  "let ops = can_mit_ops (\<lambda>_. 3); sv = new_servo_dm sample_servo False False True
   in \<exists>sv' sv'' m''. dm_reads ops sv (replicate 499 sample_mit) = Some sv' \<and>
        dm_read_hardware_values ops sv' sample_mit = Some (sv'', m'', SAFE_MODE_SIG)"
proof -
  let ?ops = "can_mit_ops (\<lambda>_. 3)" and ?sv = "new_servo_dm sample_servo False False True"
  have f: "\<not> is_effector ?sv" "\<not> motor_moved ?sv" "p_driver_can ?sv" "data_index ?sv = 3"
      "checker_motor_no_response ?sv = new_hold_checker 500"
    by (simp_all add: new_servo_dm_def new_servo_def servo.defs servo_data.defs is_effector_def sample_servo_def
        MAX_CNT_MOTOR_NO_RESPONSE_INITIAL_def)
  have n: "no_news ?sv sample_mit"
    by (simp add: no_news_def frame_stale_def last_update_def f get_last_update_perf_def in_cache_def
        MAX_SERVO_INFO_BUF_SIZE_def sample_mit_def new_received_def zero_received_def)
  obtain sv' where 1: "dm_reads ?ops ?sv (replicate 499 sample_mit) = Some sv'" "\<not> is_effector sv'"
    using arm_run_returns [OF f(1)] by blast
  obtain sv'' m'' rc where 2: "dm_read_hardware_values ?ops sv' sample_mit = Some (sv'', m'', rc)"
    using arm_reads_return [OF 1(2)] by blast
  have "rc = SAFE_MODE_SIG"
    using dead_bus_detection_exact [of ?sv "replicate 499 sample_mit" sample_mit, OF _ _ 1(1) 2] n f by simp
  then show ?thesis using 1 2 by auto
qed

end
