(* ===== verification/Rate_Limit.thy ===== *)
theory Rate_Limit
  imports Pi_Prelude
begin

text \<open>
  Events that a component may fire no closer together than a gap: the times at which it fires
  over a sequence of timed inputs, and the contract of a component that keeps the gap.
\<close>

primrec event_times :: "('s \<Rightarrow> 'i \<Rightarrow> 's) \<Rightarrow> ('s \<Rightarrow> 'i \<Rightarrow> bool) \<Rightarrow> ('i \<Rightarrow> nat) \<Rightarrow> 's \<Rightarrow> 'i list \<Rightarrow> nat list" where
  "event_times step fires time s [] = []"
| "event_times step fires time s (i # is) =
     (if fires s i then [time i] else []) @ event_times step fires time (step s i) is"

primrec all_inputs :: "('s \<Rightarrow> 'i \<Rightarrow> 's) \<Rightarrow> ('s \<Rightarrow> 'i \<Rightarrow> bool) \<Rightarrow> 's \<Rightarrow> 'i list \<Rightarrow> bool" where
  "all_inputs step ok s [] = True"
| "all_inputs step ok s (i # is) = (ok s i \<and> all_inputs step ok (step s i) is)"

text \<open>\<open>since p s\<close>: the last event was at \<open>p\<close>, and \<open>s\<close> remembers enough to keep the gap.\<close>

locale spaced_events =
  fixes step :: "'s \<Rightarrow> 'i \<Rightarrow> 's" and fires :: "'s \<Rightarrow> 'i \<Rightarrow> bool" and time :: "'i \<Rightarrow> nat"
    and ok :: "'s \<Rightarrow> 'i \<Rightarrow> bool" and since :: "nat \<Rightarrow> 's \<Rightarrow> bool" and gap :: nat
  assumes fired: "ok s i \<Longrightarrow> fires s i \<Longrightarrow> since (time i) (step s i)"
    and kept: "ok s i \<Longrightarrow> since p s \<Longrightarrow> p \<le> time i \<Longrightarrow> \<not> fires s i \<Longrightarrow> since p (step s i)"
    and spaced: "ok s i \<Longrightarrow> since p s \<Longrightarrow> p \<le> time i \<Longrightarrow> fires s i \<Longrightarrow> p + gap \<le> time i"
begin

lemma events_after:
  assumes "all_inputs step ok s is" "sorted (p # map time is)" "since p s"
  shows "\<forall>t \<in> set (event_times step fires time s is). p + gap \<le> t"
  using assms
proof (induction "is" arbitrary: s p)
  case (Cons i "is")
  show ?case
  proof (cases "fires s i")
    case True
    then have g: "p + gap \<le> time i" using Cons.prems spaced [of s i p] by simp
    have "\<forall>t \<in> set (event_times step fires time (step s i) is). time i + gap \<le> t"
      using Cons.prems True fired by (intro Cons.IH) auto
    then show ?thesis using g True by fastforce
  next
    case False
    have "\<forall>t \<in> set (event_times step fires time (step s i) is). p + gap \<le> t"
      using Cons.prems False kept by (intro Cons.IH) auto
    then show ?thesis using False by simp
  qed
qed simp

lemma events_spaced:
  assumes "all_inputs step ok s is" "sorted (map time is)"
  shows "sorted_wrt (\<lambda>a b. a + gap \<le> b) (event_times step fires time s is)"
  using assms
proof (induction "is" arbitrary: s)
  case (Cons i "is")
  have "sorted_wrt (\<lambda>a b. a + gap \<le> b) (event_times step fires time (step s i) is)"
    using Cons.prems by (intro Cons.IH) auto
  moreover have "fires s i \<Longrightarrow> \<forall>t \<in> set (event_times step fires time (step s i) is). time i + gap \<le> t"
    using Cons.prems fired by (intro events_after) auto
  ultimately show ?case by simp
qed simp

end

end
