(* ===== verification/Can_Encoder.thy ===== *)
theory Can_Encoder
  imports Encoder_Setup Rate_Limit
begin

text \<open>
  The passive trigger encoder of the teaching handle, \<^verbatim>\<open>native/pi_control/src/pi_servo_can_encoder.cpp\<close>: its
  configuration, the startup probe, and the read cycle with its poll scheduler (one outstanding poll, a 10 ms
  deadline, a 500 ms back-off) and its recovery ladder (warning at 2 s of silence, firmware restart at 3 s, signal loss
  at 20 s). The clock is the driver's; \<open>pub\<close> stands for the device's joystick topic and answers a message with a
  return code. A read returns the messages it published.
\<close>

section \<open>State\<close>

record encoder_servo = servo +
  enc_driver :: bool
  response_can_id :: int
  button_num :: int
  last_update_count :: u32
  publish_joystick_enabled :: bool
  response_seen :: bool
  poll_outstanding :: bool
  silence_warned :: bool
  restart_sent :: bool
  poll_sent_at :: nat
  next_poll_allowed_at :: nat
  last_response_at :: nat

definition PASSIVE_ENCODER_POLL_INTERVAL :: nat where "PASSIVE_ENCODER_POLL_INTERVAL = 4000"
definition PASSIVE_ENCODER_RESPONSE_DEADLINE :: nat where "PASSIVE_ENCODER_RESPONSE_DEADLINE = 10000"
definition PASSIVE_ENCODER_RETRY_BACKOFF :: nat where "PASSIVE_ENCODER_RETRY_BACKOFF = 500000"
definition PASSIVE_ENCODER_START_TIMEOUT :: nat where "PASSIVE_ENCODER_START_TIMEOUT = 1500000"
definition PASSIVE_ENCODER_START_WAIT :: nat where "PASSIVE_ENCODER_START_WAIT = 1000"
definition PASSIVE_ENCODER_SILENCE_WARN :: nat where "PASSIVE_ENCODER_SILENCE_WARN = 2000000"
definition PASSIVE_ENCODER_RESTART_AT :: nat where "PASSIVE_ENCODER_RESTART_AT = 3000000"
definition PASSIVE_ENCODER_FAILURE_AT :: nat where "PASSIVE_ENCODER_FAILURE_AT = 20000000"

lemmas encoder_times = PASSIVE_ENCODER_POLL_INTERVAL_def PASSIVE_ENCODER_RESPONSE_DEADLINE_def
  PASSIVE_ENCODER_RETRY_BACKOFF_def PASSIVE_ENCODER_START_TIMEOUT_def PASSIVE_ENCODER_START_WAIT_def
  PASSIVE_ENCODER_SILENCE_WARN_def PASSIVE_ENCODER_RESTART_AT_def PASSIVE_ENCODER_FAILURE_AT_def

definition g_servo_can_passive_encoder_param :: servo_param where
  "g_servo_can_passive_encoder_param = \<lparr>tolerable_pos_difference_rad = dlit (2 / 10), max_pos_difference_rad = dlit (3 / 10),
     velocity_threshold_rad_sec = dlit (1 / 10)\<rparr>"

definition new_encoder_servo :: "servo_data \<Rightarrow> bool \<Rightarrow> bool \<Rightarrow> bool \<Rightarrow> encoder_servo" where
  "new_encoder_servo d safety_feature_off safety_torque_mode has_driver =
     servo.extend (new_servo d safety_feature_off safety_torque_mode)
       \<lparr>enc_driver = has_driver, response_can_id = -1, button_num = 2, last_update_count = 0,
        publish_joystick_enabled = False, response_seen = False, poll_outstanding = False, silence_warned = False,
        restart_sent = False, poll_sent_at = 0, next_poll_allowed_at = 0, last_response_at = 0\<rparr>"

section \<open>Frames\<close>

definition handle_request :: "int \<Rightarrow> u8 \<Rightarrow> can_frame" where
  "handle_request i b = mk_frame (word_of_int i) 2 [0xFF, b]"

definition send_poll_frame :: "'a encoder_servo_scheme \<Rightarrow> 'm mit_scheme \<Rightarrow> 'm mit_scheme \<times> ReturnCode" where
  "send_poll_frame sv m = send_frame (handle_request (id_of sv) 0x02) m"

definition send_restart_frame :: "'a encoder_servo_scheme \<Rightarrow> 'm mit_scheme \<Rightarrow> 'm mit_scheme \<times> ReturnCode" where
  "send_restart_frame sv m = send_frame (handle_request (id_of sv) 0x0F) m"

section \<open>Configuration and the no-op commands\<close>

definition enc_park_safely :: "'a encoder_servo_scheme \<Rightarrow> 'a encoder_servo_scheme \<times> ReturnCode" where
  "enc_park_safely sv = (sv\<lparr>parked := True\<rparr>, SUCCESS)"

definition enc_move :: "flt \<Rightarrow> 'a encoder_servo_scheme \<Rightarrow> ReturnCode" where
  "enc_move target_pos sv = SUCCESS"

definition enc_move_full :: "flt \<Rightarrow> flt \<Rightarrow> flt \<Rightarrow> 'a encoder_servo_scheme \<Rightarrow> ReturnCode" where
  "enc_move_full target_pos target_vel target_tor sv = SUCCESS"

definition enc_apply_torque :: "flt \<Rightarrow> 'a encoder_servo_scheme \<Rightarrow> ReturnCode" where
  "enc_apply_torque torque sv = SUCCESS"

text \<open>An optional field that must have its type when it is present.\<close>

definition checked_field :: "(json \<Rightarrow> 'b option) \<Rightarrow> json \<Rightarrow> string \<Rightarrow> 'b \<Rightarrow> 'b \<times> ReturnCode" where
  "checked_field get cfg k v = (if j_contains cfg k then get_field_value get cfg k v else (v, SUCCESS))"

definition enc_init_config_model ::
  "'p \<Rightarrow> json \<Rightarrow> 'a encoder_servo_scheme \<Rightarrow> 'm mit_scheme \<Rightarrow> 'p registry
   \<Rightarrow> 'a encoder_servo_scheme \<times> 'm mit_scheme \<times> 'p registry \<times> ReturnCode" where
  "enc_init_config_model p cfg sv m r =
     (let (sv, r, rc) = init_config_model base_init_current_estimation p cfg
            (sv\<lparr>sv_type := CAN_PASSIVE_ENCODER, sv_param := g_servo_can_passive_encoder_param\<rparr>) r
      in if rc \<noteq> SUCCESS then (sv, m, r, rc)
      else if \<not> enc_driver sv then (sv, m, r, NOT_INITIALIZED)
      else let (rid, rc) = checked_field get_int cfg ''response_can_id'' (id_of sv + 1);
               sv = sv\<lparr>response_can_id := rid\<rparr>
      in if rc \<noteq> SUCCESS then (sv, m, r, rc)
      else let (n, rc) = checked_field get_int cfg ''joystick_button_num'' (button_num sv); sv = sv\<lparr>button_num := n\<rparr>
      in if rc \<noteq> SUCCESS then (sv, m, r, rc)
      else if j_contains cfg ''joystick_button_num'' \<and> (button_num sv < 0 \<or> 8 < button_num sv) then (sv, m, r, INVALID_PARAM)
      else let (fw, rc) = checked_field get_bool cfg ''passive_encoder_firmware_compat'' False
      in if rc \<noteq> SUCCESS then (sv, m, r, rc)
      else let (m, rc) = register_passive_encoder (response_can_id sv) (id_of sv) (data_index sv) fw m
      in if rc \<noteq> SUCCESS then (sv, m, r, rc) else (sv, m, r, SUCCESS))"

section \<open>The poll scheduler\<close>

text \<open>An outstanding poll past its deadline is given up; the next one waits for the back-off.\<close>

definition expire_poll :: "nat \<Rightarrow> 'a encoder_servo_scheme \<Rightarrow> 'a encoder_servo_scheme" where
  "expire_poll t sv =
     (if poll_outstanding sv \<and> PASSIVE_ENCODER_RESPONSE_DEADLINE \<le> t - poll_sent_at sv
      then sv\<lparr>poll_outstanding := False, next_poll_allowed_at := t + PASSIVE_ENCODER_RETRY_BACKOFF\<rparr> else sv)"

definition poll_due :: "nat \<Rightarrow> 'a encoder_servo_scheme \<Rightarrow> bool" where
  "poll_due t sv \<longleftrightarrow> \<not> poll_outstanding sv \<and> next_poll_allowed_at sv \<le> t"

definition poll_sent :: "nat \<Rightarrow> 'a encoder_servo_scheme \<Rightarrow> 'a encoder_servo_scheme" where
  "poll_sent t sv =
     sv\<lparr>poll_sent_at := t, poll_outstanding := True, next_poll_allowed_at := t + PASSIVE_ENCODER_POLL_INTERVAL\<rparr>"

definition poll_if_due ::
  "nat \<Rightarrow> 'a encoder_servo_scheme \<Rightarrow> 'm mit_scheme \<Rightarrow> 'a encoder_servo_scheme \<times> 'm mit_scheme \<times> ReturnCode" where
  "poll_if_due t sv m =
     (if poll_due t sv
      then (let (m, rc) = send_poll_frame sv m in if rc \<noteq> SUCCESS then (sv, m, rc) else (poll_sent t sv, m, SUCCESS))
      else (sv, m, SUCCESS))"

definition keep_interval :: "'a encoder_servo_scheme \<Rightarrow> nat" where
  "keep_interval sv = max (next_poll_allowed_at sv) (poll_sent_at sv + PASSIVE_ENCODER_POLL_INTERVAL)"

section \<open>Startup probe\<close>

text \<open>
  One round of the probe: the result, or the state before the 1 ms sleep. During each sleep the reception
  thread handles the frames of one entry of \<open>arrivals\<close>.
\<close>

definition probe_round ::
  "'a encoder_servo_scheme \<Rightarrow> 'm mit_scheme
   \<Rightarrow> ('a encoder_servo_scheme \<times> 'm mit_scheme \<times> ReturnCode) + ('a encoder_servo_scheme \<times> 'm mit_scheme)" where
  "probe_round sv m =
     (let t = now m;
          answered = (case get_received_encoder_data m (data_index sv) of Some (_, _, _, count) \<Rightarrow> 0 < count | None \<Rightarrow> False)
      in if answered
         then Inl (sv\<lparr>response_seen := True, poll_outstanding := False, last_response_at := t,
                     next_poll_allowed_at := keep_interval sv\<rparr>, m, SUCCESS)
         else case poll_if_due t (expire_poll t sv) m of
                (sv, m, rc) \<Rightarrow> if rc \<noteq> SUCCESS then Inl (sv, m, rc) else Inr (sv, m))"

definition sleep_and_receive :: "(int \<Rightarrow> int) \<Rightarrow> nat \<Rightarrow> can_frame list \<Rightarrow> 'm mit_scheme \<Rightarrow> 'm mit_scheme" where
  "sleep_and_receive idx us frames m = fold (handle_frame idx) frames (usleep us m)"

lemma handle_frame_now [simp]: "now (handle_frame idx f m) = now m" "tx (handle_frame idx f m) = tx m"
  by (simp_all add: handle_frame_def Let_def case_prod_beta split: option.split)

lemma receive_now [simp]: "now (fold (handle_frame idx) fs m) = now m" "tx (fold (handle_frame idx) fs m) = tx m"
  by (induction fs arbitrary: m) simp_all

lemma probe_round_now: "probe_round sv m = Inr (sv', m') \<Longrightarrow> now m \<le> now m'"
  by (auto simp: probe_round_def poll_if_due_def send_poll_frame_def Let_def split: if_splits prod.splits
      dest!: send_frame_frame)

function probe_loop ::
  "(int \<Rightarrow> int) \<Rightarrow> nat \<Rightarrow> can_frame list list \<Rightarrow> 'a encoder_servo_scheme \<Rightarrow> 'm mit_scheme
   \<Rightarrow> 'a encoder_servo_scheme \<times> 'm mit_scheme \<times> ReturnCode" where
  "probe_loop idx startup_deadline arrivals sv m =
     (if startup_deadline \<le> now m then (sv, m, NO_RESPONSE)
      else case probe_round sv m of
             Inl r \<Rightarrow> r
           | Inr (sv, m) \<Rightarrow>
               probe_loop idx startup_deadline (drop 1 arrivals) sv
                 (sleep_and_receive idx PASSIVE_ENCODER_START_WAIT (concat (take 1 arrivals)) m))"
  by pat_completeness auto
termination
  by (relation "measure (\<lambda>(idx, d, arrivals, sv, m). d - now m)")
    (auto simp: sleep_and_receive_def usleep_def PASSIVE_ENCODER_START_WAIT_def dest!: probe_round_now)

declare probe_loop.simps [simp del]

definition enc_start_hardware ::
  "(int \<Rightarrow> int) \<Rightarrow> string \<Rightarrow> can_frame list list \<Rightarrow> 'a encoder_servo_scheme \<Rightarrow> 'm mit_scheme
   \<Rightarrow> 'a encoder_servo_scheme \<times> 'm mit_scheme \<times> ReturnCode" where
  "enc_start_hardware idx topic_joystick arrivals sv m =
     (if \<not> enc_driver sv then (sv, m, NOT_INITIALIZED)
      else let sv = sv\<lparr>publish_joystick_enabled :=
                 (dev_role (p_device sv) = LEADER \<and> topic_joystick \<noteq> ''None'' \<and> topic_joystick \<noteq> ''''),
               next_poll_allowed_at := now m\<rparr>
           in probe_loop idx (now m + PASSIVE_ENCODER_START_TIMEOUT) arrivals sv m)"

definition enc_verify_position_fresh :: "'a encoder_servo_scheme \<Rightarrow> 'm mit_scheme \<Rightarrow> ReturnCode" where
  "enc_verify_position_fresh sv m =
     (if \<not> enc_driver sv then NOT_INITIALIZED
      else case get_received_encoder_data m (data_index sv) of
             None \<Rightarrow> FAIL
           | Some (_, _, _, count) \<Rightarrow> if count = 0 then FAIL else SUCCESS)"

section \<open>Read cycle\<close>

definition button_bits :: "int \<Rightarrow> u8 \<Rightarrow> int list" where
  "button_bits n digital = map (\<lambda>i. uint (drop_bit i digital AND 1)) [0 ..< nat n]"

text \<open>The message, when one is published, and the return code.\<close>

definition publish_buttons ::
  "(int list \<Rightarrow> ReturnCode) \<Rightarrow> u8 \<Rightarrow> 'a encoder_servo_scheme \<Rightarrow> int list option \<times> ReturnCode" where
  "publish_buttons pub digital sv =
     (if \<not> publish_joystick_enabled sv then (None, SUCCESS)
      else let msg = button_bits (button_num sv) digital; rc = pub msg
           in if rc \<noteq> SUCCESS then (Some msg, rc) else (Some msg, SUCCESS))"

definition take_sample :: "flt \<Rightarrow> flt \<Rightarrow> 'a encoder_servo_scheme \<Rightarrow> 'a encoder_servo_scheme" where
  "take_sample pos vel sv = (keep_previous sv)\<lparr>curr_pos_abs := fabs pos, curr_vel := vel, curr_tor := Fin 0\<rparr>"

definition on_response :: "nat \<Rightarrow> 'a encoder_servo_scheme \<Rightarrow> 'a encoder_servo_scheme" where
  "on_response t sv =
     sv\<lparr>response_seen := True, poll_outstanding := False, last_response_at := t, silence_warned := False,
        restart_sent := False, next_poll_allowed_at := (if poll_outstanding sv then keep_interval sv else next_poll_allowed_at sv),
        safe_mode := fst (exit_safe_mode SAFE_MODE_SIG (safe_mode sv))\<rparr>"

definition silence :: "nat \<Rightarrow> 'a encoder_servo_scheme \<Rightarrow> nat" where
  "silence t sv = t - last_response_at sv"

text \<open>The steps of the ladder; the last one ends the cycle.\<close>

definition warn_step :: "nat \<Rightarrow> 'a encoder_servo_scheme \<Rightarrow> 'a encoder_servo_scheme" where
  "warn_step t sv =
     (if \<not> silence_warned sv \<and> PASSIVE_ENCODER_SILENCE_WARN \<le> silence t sv then sv\<lparr>silence_warned := True\<rparr> else sv)"

definition restart_due :: "nat \<Rightarrow> 'a encoder_servo_scheme \<Rightarrow> bool" where
  "restart_due t sv \<longleftrightarrow> \<not> restart_sent sv \<and> PASSIVE_ENCODER_RESTART_AT \<le> silence t sv"

definition restart_step ::
  "nat \<Rightarrow> 'a encoder_servo_scheme \<Rightarrow> 'm mit_scheme \<Rightarrow> 'a encoder_servo_scheme \<times> 'm mit_scheme" where
  "restart_step t sv m =
     (if restart_due t sv
      then (sv\<lparr>restart_sent := True, poll_outstanding := False, next_poll_allowed_at := t + PASSIVE_ENCODER_RETRY_BACKOFF\<rparr>,
            fst (send_restart_frame sv m))
      else (sv, m))"

definition on_silence ::
  "nat \<Rightarrow> 'a encoder_servo_scheme \<Rightarrow> 'm mit_scheme
   \<Rightarrow> 'a encoder_servo_scheme \<times> 'm mit_scheme \<times> ReturnCode option" where
  "on_silence t sv m =
     (let sv = expire_poll t sv
      in if response_seen sv
         then (let (sv, m) = restart_step t (warn_step t sv) m
               in if PASSIVE_ENCODER_FAILURE_AT \<le> silence t sv
                  then (let (sm, rc) = graceful_management sv SAFE_MODE_SIG (safe_mode sv)
                        in (sv\<lparr>safe_mode := sm\<rparr>, m, Some rc))
                  else (sv, m, None))
         else (sv, m, None))"

definition enc_read_hardware_values ::
  "(int list \<Rightarrow> ReturnCode) \<Rightarrow> 'a encoder_servo_scheme \<Rightarrow> 'm mit_scheme
   \<Rightarrow> 'a encoder_servo_scheme \<times> 'm mit_scheme \<times> int list option \<times> ReturnCode" where
  "enc_read_hardware_values pub sv m =
     (if \<not> enc_driver sv then (sv, m, None, NOT_INITIALIZED)
      else case get_received_encoder_data m (data_index sv) of
        None \<Rightarrow> (keep_previous sv, m, None, FAIL)
      | Some (pos, vel, digital, count) \<Rightarrow>
          (let t = now m; fresh = (count \<noteq> last_update_count sv);
               sv = (take_sample pos vel sv)\<lparr>last_update_count := count\<rparr>;
               (sv, m, over) = (if fresh then (on_response t sv, m, None) else on_silence t sv m)
           in case over of
                Some rc \<Rightarrow> (sv, m, None, rc)
              | None \<Rightarrow>
                  (case poll_if_due t sv m of
                     (sv, m, rc) \<Rightarrow>
                       if rc \<noteq> SUCCESS then (sv, m, None, rc)
                       else if fresh then (let (msg, rc) = publish_buttons pub digital sv in (sv, m, msg, rc))
                       else (sv, m, None, SUCCESS))))"

definition get_pos_servo :: "'a encoder_servo_scheme \<Rightarrow> flt" where
  "get_pos_servo sv = curr_pos_abs sv"

section \<open>What one read does\<close>

text \<open>The cached sample, and whether it is new to the servo.\<close>

definition enc_count :: "'m mit_scheme \<Rightarrow> 'a encoder_servo_scheme \<Rightarrow> u32" where
  "enc_count m sv = update_count (received m ! nat (data_index sv))"

text \<open>The state after the response or silence branch, and the code when the ladder has ended the cycle.\<close>

definition enc_branch ::
  "'a encoder_servo_scheme \<Rightarrow> 'm mit_scheme \<Rightarrow> 'a encoder_servo_scheme \<times> 'm mit_scheme \<times> ReturnCode option" where
  "enc_branch sv m =
     (let d = received m ! nat (data_index sv);
          s = (take_sample (angle_actual_rad d) (speed_actual_rad d) sv)\<lparr>last_update_count := update_count d\<rparr>
      in if update_count d \<noteq> last_update_count sv then (on_response (now m) s, m, None) else on_silence (now m) s m)"

lemma enc_read_cases:
  assumes "enc_driver sv" "in_cache (data_index sv)"
  shows "enc_read_hardware_values pub sv m =
    (case enc_branch sv m of
       (s, m1, Some rc) \<Rightarrow> (s, m1, None, rc)
     | (s, m1, None) \<Rightarrow>
         (case poll_if_due (now m) s m1 of
            (s2, m2, rc) \<Rightarrow>
              if rc \<noteq> SUCCESS then (s2, m2, None, rc)
              else if enc_count m sv \<noteq> last_update_count sv
              then (let (msg, rc) = publish_buttons pub (digital_inputs (received m ! nat (data_index sv))) s2 in (s2, m2, msg, rc))
              else (s2, m2, None, SUCCESS)))"
  using assms
  by (simp add: enc_read_hardware_values_def get_received_encoder_data_def enc_branch_def enc_count_def Let_def
      case_prod_beta split: option.split)

definition poll_frames :: "int \<Rightarrow> nat \<Rightarrow> can_frame list" where
  "poll_frames i k = replicate k (handle_request i 0x02)"

definition restart_frames :: "int \<Rightarrow> nat \<Rightarrow> can_frame list" where
  "restart_frames i k = replicate k (handle_request i 0x0F)"

text \<open>What the scheduler and the ladder keep: identity and configuration.\<close>

definition enc_kept :: "'a encoder_servo_scheme \<Rightarrow> bool \<times> int \<times> int" where
  "enc_kept sv = (enc_driver sv, id_of sv, data_index sv)"

lemma enc_kept_fields: "enc_kept s = enc_kept sv \<Longrightarrow> enc_driver s = enc_driver sv \<and> id_of s = id_of sv \<and> data_index s = data_index sv"
  by (simp add: enc_kept_def)

text \<open>Every step of the scheduler is a change of its own fields.\<close>

lemma sample_fields [simp]:
  "enc_kept ((take_sample p v sv)\<lparr>last_update_count := c\<rparr>) = enc_kept sv"
  "poll_outstanding (take_sample p v sv) = poll_outstanding sv" "restart_sent (take_sample p v sv) = restart_sent sv"
  "response_seen (take_sample p v sv) = response_seen sv" "poll_sent_at (take_sample p v sv) = poll_sent_at sv"
  "next_poll_allowed_at (take_sample p v sv) = next_poll_allowed_at sv"
  "last_response_at (take_sample p v sv) = last_response_at sv" "id_of (take_sample p v sv) = id_of sv"
  "safe_mode (take_sample p v sv) = safe_mode sv" "curr_pos_abs (take_sample p v sv) = fabs p"
  by (simp_all add: take_sample_def keep_previous_def enc_kept_def)

lemma expire_fields [simp]:
  "enc_kept (expire_poll t sv) = enc_kept sv" "restart_sent (expire_poll t sv) = restart_sent sv"
  "response_seen (expire_poll t sv) = response_seen sv" "last_response_at (expire_poll t sv) = last_response_at sv"
  "last_update_count (expire_poll t sv) = last_update_count sv" "id_of (expire_poll t sv) = id_of sv"
  "safe_mode (expire_poll t sv) = safe_mode sv" "curr_pos_abs (expire_poll t sv) = curr_pos_abs sv"
  "poll_sent_at (expire_poll t sv) = poll_sent_at sv"
  by (simp_all add: expire_poll_def enc_kept_def)

lemma warn_fields [simp]:
  "enc_kept (warn_step t sv) = enc_kept sv" "restart_sent (warn_step t sv) = restart_sent sv"
  "response_seen (warn_step t sv) = response_seen sv" "last_response_at (warn_step t sv) = last_response_at sv"
  "last_update_count (warn_step t sv) = last_update_count sv" "id_of (warn_step t sv) = id_of sv"
  "next_poll_allowed_at (warn_step t sv) = next_poll_allowed_at sv" "poll_outstanding (warn_step t sv) = poll_outstanding sv"
  "curr_pos_abs (warn_step t sv) = curr_pos_abs sv" "poll_sent_at (warn_step t sv) = poll_sent_at sv"
  by (simp_all add: warn_step_def enc_kept_def)

lemma restart_fields [simp]:
  "enc_kept (fst (restart_step t sv m)) = enc_kept sv"
  "restart_sent (fst (restart_step t sv m)) = (restart_sent sv \<or> restart_due t sv)"
  "response_seen (fst (restart_step t sv m)) = response_seen sv"
  "last_response_at (fst (restart_step t sv m)) = last_response_at sv"
  "last_update_count (fst (restart_step t sv m)) = last_update_count sv"
  "curr_pos_abs (fst (restart_step t sv m)) = curr_pos_abs sv"
  "poll_sent_at (fst (restart_step t sv m)) = poll_sent_at sv"
  by (auto simp: restart_step_def enc_kept_def)

lemma restart_frames_sent:
  "\<exists>k \<le> 1. tx (snd (restart_step t sv m)) = tx m @ restart_frames (id_of sv) k \<and> (0 < k \<longrightarrow> restart_due t sv)"
proof -
  obtain m1 rc where s: "send_restart_frame sv m = (m1, rc)" by fastforce
  have "tx m1 = (if rc = SUCCESS then tx m @ [handle_request (id_of sv) 0x0F] else tx m)"
    using send_frame_tx s unfolding send_restart_frame_def by blast
  then show ?thesis
    by (cases "rc = SUCCESS \<and> restart_due t sv")
      (rule exI [of _ 1], simp add: restart_step_def s restart_frames_def, rule exI [of _ 0], auto simp: restart_step_def s restart_frames_def)
qed

text \<open>The silent branch.\<close>

lemma silence_effect:
  assumes "on_silence t sv m = (s, m1, over)"
  shows "enc_kept s = enc_kept sv" "last_update_count s = last_update_count sv" "response_seen s = response_seen sv"
    "curr_pos_abs s = curr_pos_abs sv"
    "\<exists>k \<le> 1. tx m1 = tx m @ restart_frames (id_of sv) k \<and> (0 < k \<longrightarrow> response_seen sv \<and> \<not> restart_sent sv \<and> restart_sent s)"
    "restart_sent s = (restart_sent sv \<or> response_seen sv \<and> 3000000 \<le> t - last_response_at sv)"
    "over = (if response_seen sv \<and> 20000000 \<le> t - last_response_at sv then Some SAFE_MODE_SIG else None)"
    "next_poll_allowed_at s \<in> {next_poll_allowed_at sv, t + 500000}"
    "poll_outstanding s \<longrightarrow> poll_outstanding sv" "poll_outstanding sv \<longrightarrow> poll_outstanding s \<or> next_poll_allowed_at s = t + 500000"
proof -
  let ?e = "expire_poll t sv"
  obtain s1 m2 where r: "restart_step t (warn_step t ?e) m = (s1, m2)" by fastforce
  have g: "snd (graceful_management x SAFE_MODE_SIG sm) = SAFE_MODE_SIG" for x :: "'a encoder_servo_scheme" and sm
    by (simp add: graceful_management_def graceful_management_sig_def)
  note rf = restart_fields [of t "warn_step t ?e" m, unfolded r fst_conv]
  obtain k where k: "k \<le> 1" "tx m2 = tx m @ restart_frames (id_of sv) k" "0 < k \<longrightarrow> restart_due t (warn_step t ?e)"
    using restart_frames_sent [of t "warn_step t ?e" m] by (auto simp: r)
  have d: "restart_due t (warn_step t ?e) \<longleftrightarrow> \<not> restart_sent sv \<and> 3000000 \<le> t - last_response_at sv"
    by (simp add: restart_due_def silence_def encoder_times)
  have si: "silence t s1 = t - last_response_at sv" using rf(4) by (simp add: silence_def)
  have p: "next_poll_allowed_at s1 \<in> {next_poll_allowed_at sv, t + 500000}" "poll_outstanding s1 \<longrightarrow> poll_outstanding sv"
      "poll_outstanding sv \<longrightarrow> poll_outstanding s1 \<or> next_poll_allowed_at s1 = t + 500000"
    using arg_cong [OF r, of fst] by (auto simp: restart_step_def expire_poll_def encoder_times split: if_splits)
  have e: "next_poll_allowed_at ?e \<in> {next_poll_allowed_at sv, t + 500000}" "poll_outstanding ?e \<longrightarrow> poll_outstanding sv"
      "poll_outstanding sv \<longrightarrow> poll_outstanding ?e \<or> next_poll_allowed_at ?e = t + 500000"
    by (simp_all add: expire_poll_def encoder_times)
  have o: "on_silence t sv m = (if response_seen sv
      then (if 20000000 \<le> t - last_response_at sv
            then (s1\<lparr>safe_mode := fst (graceful_management s1 SAFE_MODE_SIG (safe_mode s1))\<rparr>, m2, Some SAFE_MODE_SIG)
            else (s1, m2, None)) else (?e, m, None))"
    using g by (simp add: on_silence_def r si Let_def case_prod_beta encoder_times)
  define s0 where "s0 = (if response_seen sv then s1 else ?e)"
  obtain x where sx: "s = s0\<lparr>safe_mode := x\<rparr>"
  proof (cases "response_seen sv \<and> 20000000 \<le> t - last_response_at sv")
    case False
    then have "s = s0\<lparr>safe_mode := safe_mode s0\<rparr>" using assms [unfolded o] by (auto simp: s0_def split: if_splits)
    then show ?thesis by (rule that)
  qed (use assms [unfolded o] that in \<open>auto simp: s0_def\<close>)
  have f: "enc_kept s = enc_kept s0" "last_update_count s = last_update_count s0" "response_seen s = response_seen s0"
    "curr_pos_abs s = curr_pos_abs s0" "restart_sent s = restart_sent s0" "poll_outstanding s = poll_outstanding s0"
    "next_poll_allowed_at s = next_poll_allowed_at s0"
    unfolding sx by (simp_all add: enc_kept_def)
  show "over = (if response_seen sv \<and> 20000000 \<le> t - last_response_at sv then Some SAFE_MODE_SIG else None)"
    using assms [unfolded o] by (simp split: if_splits)
  show "enc_kept s = enc_kept sv" "last_update_count s = last_update_count sv" "response_seen s = response_seen sv"
    "curr_pos_abs s = curr_pos_abs sv"
    "restart_sent s = (restart_sent sv \<or> response_seen sv \<and> 3000000 \<le> t - last_response_at sv)"
    "next_poll_allowed_at s \<in> {next_poll_allowed_at sv, t + 500000}"
    "poll_outstanding s \<longrightarrow> poll_outstanding sv" "poll_outstanding sv \<longrightarrow> poll_outstanding s \<or> next_poll_allowed_at s = t + 500000"
    unfolding f by (cases "response_seen sv"; use rf p e d in \<open>auto simp: s0_def; fail\<close>)+
  show "\<exists>k \<le> 1. tx m1 = tx m @ restart_frames (id_of sv) k \<and> (0 < k \<longrightarrow> response_seen sv \<and> \<not> restart_sent sv \<and> restart_sent s)"
  proof (cases "response_seen sv")
    case True
    then have "m1 = m2" "restart_sent s = restart_sent s1" using assms [unfolded o] by (auto split: if_splits)
    then show ?thesis using k d rf(2) True by (intro exI [of _ k]) auto
  next
    case False
    then show ?thesis using assms [unfolded o] by (intro exI [of _ 0]) (auto simp: restart_frames_def)
  qed
qed

lemma send_frame_code: "send_frame f m = (m', rc) \<Longrightarrow> rc \<in> {SUCCESS, FAIL, BUSY}"
proof -
  have "write_code ev \<in> {SUCCESS, FAIL, BUSY}" for ev by (cases ev) simp_all
  then show "send_frame f m = (m', rc) \<Longrightarrow> rc \<in> {SUCCESS, FAIL, BUSY}"
    by (auto simp: send_frame_def Let_def split: if_splits prod.splits)
qed

lemma poll_effect:
  assumes "poll_if_due t s m = (s', m', rc)"
  shows "tx m' = tx m \<and> s' = s \<or>
      tx m' = tx m @ [handle_request (id_of s) 0x02] \<and> poll_due t s \<and> s' = poll_sent t s"
    "rc \<noteq> SAFE_MODE_SIG"
proof -
  obtain m1 rc1 where s: "send_poll_frame s m = (m1, rc1)" by fastforce
  have "tx m1 = (if rc1 = SUCCESS then tx m @ [handle_request (id_of s) 0x02] else tx m)" "rc1 \<in> {SUCCESS, FAIL, BUSY}"
    using send_frame_tx send_frame_code s unfolding send_poll_frame_def by blast+
  then show "tx m' = tx m \<and> s' = s \<or>
      tx m' = tx m @ [handle_request (id_of s) 0x02] \<and> poll_due t s \<and> s' = poll_sent t s" "rc \<noteq> SAFE_MODE_SIG"
    using assms by (auto simp: poll_if_due_def s split: if_splits)
qed

lemma poll_sent_fields [simp]:
  "enc_kept (poll_sent t s) = enc_kept s" "last_update_count (poll_sent t s) = last_update_count s"
  "response_seen (poll_sent t s) = response_seen s" "restart_sent (poll_sent t s) = restart_sent s"
  "next_poll_allowed_at (poll_sent t s) = t + 4000" "poll_outstanding (poll_sent t s)"
  "curr_pos_abs (poll_sent t s) = curr_pos_abs s"
  by (simp_all add: poll_sent_def enc_kept_def encoder_times)

lemma response_fields [simp]:
  "enc_kept (on_response t s) = enc_kept s" "last_update_count (on_response t s) = last_update_count s"
  "next_poll_allowed_at s \<le> next_poll_allowed_at (on_response t s)"
  by (simp_all add: on_response_def enc_kept_def keep_interval_def)

text \<open>The branch, and then the whole read.\<close>

lemma branch_effect:
  assumes "enc_branch sv m = (s, m1, over)"
  shows "enc_kept s = enc_kept sv" "last_update_count s = enc_count m sv"
    "\<exists>k \<le> 1. tx m1 = tx m @ restart_frames (id_of sv) k \<and>
       (0 < k \<longrightarrow> enc_count m sv = last_update_count sv \<and> \<not> restart_sent sv \<and> restart_sent s)"
    "next_poll_allowed_at sv \<le> next_poll_allowed_at s \<or> next_poll_allowed_at s = now m + 500000"
proof -
  let ?d = "received m ! nat (data_index sv)"
  let ?s = "(take_sample (angle_actual_rad ?d) (speed_actual_rad ?d) sv)\<lparr>last_update_count := update_count ?d\<rparr>"
  have c: "enc_kept s = enc_kept sv \<and> last_update_count s = enc_count m sv \<and>
    (\<exists>k \<le> 1. tx m1 = tx m @ restart_frames (id_of sv) k \<and>
       (0 < k \<longrightarrow> enc_count m sv = last_update_count sv \<and> \<not> restart_sent sv \<and> restart_sent s)) \<and>
    (next_poll_allowed_at sv \<le> next_poll_allowed_at s \<or> next_poll_allowed_at s = now m + 500000)"
  proof (cases "enc_count m sv = last_update_count sv")
    case True
    then have b: "on_silence (now m) ?s m = (s, m1, over)" using assms by (simp add: enc_branch_def enc_count_def Let_def)
    from silence_effect(1,2,5,8) [OF b] True show ?thesis by (auto simp: enc_count_def)
  next
    case False
    then have b: "s = on_response (now m) ?s" "m1 = m" using assms by (auto simp: enc_branch_def enc_count_def Let_def)
    show ?thesis using response_fields(3) [of ?s "now m"] unfolding b
      by (auto simp: enc_count_def restart_frames_def intro!: exI [of _ 0])
  qed
  then show "enc_kept s = enc_kept sv" "last_update_count s = enc_count m sv"
    "\<exists>k \<le> 1. tx m1 = tx m @ restart_frames (id_of sv) k \<and>
       (0 < k \<longrightarrow> enc_count m sv = last_update_count sv \<and> \<not> restart_sent sv \<and> restart_sent s)"
    "next_poll_allowed_at sv \<le> next_poll_allowed_at s \<or> next_poll_allowed_at s = now m + 500000"
    by blast+
qed

text \<open>A read splits into its branch and, unless the ladder has ended it, the poll.\<close>

lemma read_effect:
  assumes "enc_driver sv" "in_cache (data_index sv)" "enc_read_hardware_values pub sv m = (sv', m', msg, rc)"
  obtains s m1 over where "enc_branch sv m = (s, m1, over)"
    "tx m' = tx m1 \<and> sv' = s \<or>
     tx m' = tx m1 @ [handle_request (id_of sv) 0x02] \<and> poll_due (now m) s \<and> sv' = poll_sent (now m) s"
proof -
  obtain s m1 over where b: "enc_branch sv m = (s, m1, over)" by (metis prod_cases3)
  obtain s2 m2 rc2 where p: "poll_if_due (now m) s m1 = (s2, m2, rc2)" by (metis prod_cases3)
  have "(sv', m') \<in> {(s, m1), (s2, m2)}"
    using assms(3) unfolding enc_read_cases [OF assms(1,2)] b
    by (auto simp: p split: option.splits if_splits prod.splits)
  then show ?thesis using poll_effect(1) [OF p] branch_effect(1) [OF b] that [OF b] by (auto simp: enc_kept_def)
qed
section \<open>Rates\<close>

definition enc_next :: "(int list \<Rightarrow> ReturnCode) \<Rightarrow> 'a encoder_servo_scheme \<Rightarrow> 'm mit_scheme \<Rightarrow> 'a encoder_servo_scheme" where
  "enc_next pub sv m = fst (enc_read_hardware_values pub sv m)"

definition enc_frames :: "(int list \<Rightarrow> ReturnCode) \<Rightarrow> 'a encoder_servo_scheme \<Rightarrow> 'm mit_scheme \<Rightarrow> can_frame list" where
  "enc_frames pub sv m = drop (length (tx m)) (tx (fst (snd (enc_read_hardware_values pub sv m))))"

definition enc_polls :: "(int list \<Rightarrow> ReturnCode) \<Rightarrow> 'a encoder_servo_scheme \<Rightarrow> 'm mit_scheme \<Rightarrow> bool" where
  "enc_polls pub sv m \<longleftrightarrow> handle_request (id_of sv) 0x02 \<in> set (enc_frames pub sv m)"

definition enc_restarts :: "(int list \<Rightarrow> ReturnCode) \<Rightarrow> 'a encoder_servo_scheme \<Rightarrow> 'm mit_scheme \<Rightarrow> bool" where
  "enc_restarts pub sv m \<longleftrightarrow> handle_request (id_of sv) 0x0F \<in> set (enc_frames pub sv m)"

text \<open>A configured encoder, and one that the encoder has not answered since the last read.\<close>

definition enc_ready :: "'a encoder_servo_scheme \<Rightarrow> bool" where
  "enc_ready sv \<longleftrightarrow> enc_driver sv \<and> in_cache (data_index sv)"

definition enc_silent :: "'a encoder_servo_scheme \<Rightarrow> 'm mit_scheme \<Rightarrow> bool" where
  "enc_silent sv m \<longleftrightarrow> enc_ready sv \<and> enc_count m sv = last_update_count sv"

lemma requests_differ [simp]: "handle_request i 0x02 \<noteq> handle_request j 0x0F" "handle_request i 0x0F \<noteq> handle_request j 0x02"
  by (simp_all add: handle_request_def mk_frame_def)

lemma read_split:
  assumes "enc_ready sv"
  obtains s m1 over j where "enc_branch sv m = (s, m1, over)" "j \<le> 1"
    "0 < j \<longrightarrow> enc_count m sv = last_update_count sv \<and> \<not> restart_sent sv \<and> restart_sent s"
    "enc_next pub sv m = s \<and> enc_frames pub sv m = restart_frames (id_of sv) j \<or>
     poll_due (now m) s \<and> enc_next pub sv m = poll_sent (now m) s \<and>
       enc_frames pub sv m = restart_frames (id_of sv) j @ [handle_request (id_of sv) 0x02]"
proof -
  obtain sv' m' msg rc where r: "enc_read_hardware_values pub sv m = (sv', m', msg, rc)" by (metis prod_cases4)
  obtain s m1 over where b: "enc_branch sv m = (s, m1, over)"
    and e: "tx m' = tx m1 \<and> sv' = s \<or>
     tx m' = tx m1 @ [handle_request (id_of sv) 0x02] \<and> poll_due (now m) s \<and> sv' = poll_sent (now m) s"
    using read_effect [OF _ _ r] assms unfolding enc_ready_def by blast
  obtain k where k: "k \<le> 1" "tx m1 = tx m @ restart_frames (id_of sv) k"
    "0 < k \<longrightarrow> enc_count m sv = last_update_count sv \<and> \<not> restart_sent sv \<and> restart_sent s"
    using branch_effect(3) [OF b] by blast
  have "enc_next pub sv m = sv'" "enc_frames pub sv m = drop (length (tx m)) (tx m')"
    by (simp_all add: enc_next_def enc_frames_def r)
  then show ?thesis using e k(2) by (intro that [OF b k(1,3)]) auto
qed

lemma enc_polls_iff:
  assumes "enc_ready sv"
  obtains s m1 over where "enc_branch sv m = (s, m1, over)"
    "enc_polls pub sv m \<longrightarrow> poll_due (now m) s \<and> enc_next pub sv m = poll_sent (now m) s"
    "\<not> enc_polls pub sv m \<longrightarrow> enc_next pub sv m = s"
proof -
  obtain s m1 over j where b: "enc_branch sv m = (s, m1, over)" and e:
    "enc_next pub sv m = s \<and> enc_frames pub sv m = restart_frames (id_of sv) j \<or>
     poll_due (now m) s \<and> enc_next pub sv m = poll_sent (now m) s \<and>
       enc_frames pub sv m = restart_frames (id_of sv) j @ [handle_request (id_of sv) 0x02]"
    using read_split [OF assms] by metis
  show ?thesis using e by (intro that [OF b]) (auto simp: enc_polls_def restart_frames_def)
qed

lemma enc_next_ready: "enc_ready sv \<Longrightarrow> enc_ready (enc_next pub sv m) \<and> id_of (enc_next pub sv m) = id_of sv"
proof -
  assume r: "enc_ready sv"
  obtain s m1 over where b: "enc_branch sv m = (s, m1, over)"
    and "enc_next pub sv m = s \<or> enc_next pub sv m = poll_sent (now m) s" using enc_polls_iff [OF r] by metis
  then have "enc_kept (enc_next pub sv m) = enc_kept sv" using branch_effect(1) [OF b] by auto
  then show ?thesis using r by (auto simp: enc_ready_def enc_kept_def)
qed

interpretation enc_rate: spaced_events "enc_next pub" "enc_polls pub" now "\<lambda>sv _. enc_ready sv"
  "\<lambda>p sv. p + 4000 \<le> next_poll_allowed_at sv" 4000 for pub
proof unfold_locales
  fix sv :: "'a encoder_servo_scheme" and m :: "'b mit_scheme" and p
  assume r: "enc_ready sv"
  obtain s m1 over where b: "enc_branch sv m = (s, m1, over)"
    and e: "enc_polls pub sv m \<longrightarrow> poll_due (now m) s \<and> enc_next pub sv m = poll_sent (now m) s"
      "\<not> enc_polls pub sv m \<longrightarrow> enc_next pub sv m = s" using enc_polls_iff [OF r] by metis
  note n = branch_effect(4) [OF b]
  show "enc_polls pub sv m \<Longrightarrow> now m + 4000 \<le> next_poll_allowed_at (enc_next pub sv m)" using e by simp
  show "p + 4000 \<le> next_poll_allowed_at sv \<Longrightarrow> p \<le> now m \<Longrightarrow> \<not> enc_polls pub sv m \<Longrightarrow>
      p + 4000 \<le> next_poll_allowed_at (enc_next pub sv m)" using e n by auto
  show "p + 4000 \<le> next_poll_allowed_at sv \<Longrightarrow> p \<le> now m \<Longrightarrow> enc_polls pub sv m \<Longrightarrow> p + 4000 \<le> now m"
    using e n by (auto simp: poll_due_def)
qed

lemma silent_branch:
  assumes "enc_silent sv m" "enc_branch sv m = (s, m1, over)"
  shows "next_poll_allowed_at s \<in> {next_poll_allowed_at sv, now m + 500000}"
    "poll_outstanding sv \<longrightarrow> poll_outstanding s \<or> next_poll_allowed_at s = now m + 500000"
    "poll_outstanding s \<longrightarrow> poll_outstanding sv"
    "restart_sent s = (restart_sent sv \<or> response_seen sv \<and> 3000000 \<le> now m - last_response_at sv)"
    "response_seen s = response_seen sv"
    "over = (if response_seen sv \<and> 20000000 \<le> now m - last_response_at sv then Some SAFE_MODE_SIG else None)"
    "curr_pos_abs s = fabs (angle_actual_rad (received m ! nat (data_index sv)))"
proof -
  let ?d = "received m ! nat (data_index sv)"
  let ?s = "(take_sample (angle_actual_rad ?d) (speed_actual_rad ?d) sv)\<lparr>last_update_count := update_count ?d\<rparr>"
  have b: "on_silence (now m) ?s m = (s, m1, over)"
    using assms by (simp add: enc_branch_def enc_silent_def enc_count_def Let_def)
  show "next_poll_allowed_at s \<in> {next_poll_allowed_at sv, now m + 500000}"
    "poll_outstanding sv \<longrightarrow> poll_outstanding s \<or> next_poll_allowed_at s = now m + 500000"
    "poll_outstanding s \<longrightarrow> poll_outstanding sv"
    "restart_sent s = (restart_sent sv \<or> response_seen sv \<and> 3000000 \<le> now m - last_response_at sv)"
    "response_seen s = response_seen sv"
    "over = (if response_seen sv \<and> 20000000 \<le> now m - last_response_at sv then Some SAFE_MODE_SIG else None)"
    "curr_pos_abs s = fabs (angle_actual_rad (received m ! nat (data_index sv)))"
    using silence_effect [OF b] by simp_all
qed

interpretation enc_backoff: spaced_events "enc_next pub" "enc_polls pub" now enc_silent
  "\<lambda>p sv. poll_outstanding sv \<or> p + 500000 \<le> next_poll_allowed_at sv" 500000 for pub
proof unfold_locales
  fix sv :: "'a encoder_servo_scheme" and m :: "'b mit_scheme" and p
  assume r: "enc_silent sv m"
  obtain s m1 over where b: "enc_branch sv m = (s, m1, over)"
    and e: "enc_polls pub sv m \<longrightarrow> poll_due (now m) s \<and> enc_next pub sv m = poll_sent (now m) s"
      "\<not> enc_polls pub sv m \<longrightarrow> enc_next pub sv m = s" using enc_polls_iff r unfolding enc_silent_def by metis
  note n = silent_branch(1-3) [OF r b]
  show "enc_polls pub sv m \<Longrightarrow> poll_outstanding (enc_next pub sv m) \<or> now m + 500000 \<le> next_poll_allowed_at (enc_next pub sv m)"
    using e by simp
  show "poll_outstanding sv \<or> p + 500000 \<le> next_poll_allowed_at sv \<Longrightarrow> p \<le> now m \<Longrightarrow> \<not> enc_polls pub sv m \<Longrightarrow>
      poll_outstanding (enc_next pub sv m) \<or> p + 500000 \<le> next_poll_allowed_at (enc_next pub sv m)" using e n by auto
  show "poll_outstanding sv \<or> p + 500000 \<le> next_poll_allowed_at sv \<Longrightarrow> p \<le> now m \<Longrightarrow> enc_polls pub sv m \<Longrightarrow>
      p + 500000 \<le> now m" using e n by (auto simp: poll_due_def)
qed

lemma ready_run: "enc_ready sv \<Longrightarrow> all_inputs (enc_next pub) (\<lambda>sv _. enc_ready sv) sv ms"
  by (induction ms arbitrary: sv) (simp_all add: enc_next_ready)

lemma restart_step_run:
  assumes "enc_silent sv m"
  shows "enc_restarts pub sv m \<Longrightarrow> \<not> restart_sent sv \<and> restart_sent (enc_next pub sv m)"
    "restart_sent sv \<Longrightarrow> restart_sent (enc_next pub sv m)"
proof -
  have r: "enc_ready sv" using assms by (simp add: enc_silent_def)
  obtain s m1 over j where b: "enc_branch sv m = (s, m1, over)" "j \<le> 1"
    "0 < j \<longrightarrow> enc_count m sv = last_update_count sv \<and> \<not> restart_sent sv \<and> restart_sent s"
    "enc_next pub sv m = s \<and> enc_frames pub sv m = restart_frames (id_of sv) j \<or>
     poll_due (now m) s \<and> enc_next pub sv m = poll_sent (now m) s \<and>
       enc_frames pub sv m = restart_frames (id_of sv) j @ [handle_request (id_of sv) 0x02]"
    using read_split [OF r] by metis
  have n: "restart_sent (enc_next pub sv m) = restart_sent s" using b(4) by auto
  show "enc_restarts pub sv m \<Longrightarrow> \<not> restart_sent sv \<and> restart_sent (enc_next pub sv m)"
    using b(3,4) n by (auto simp: enc_restarts_def restart_frames_def)
  show "restart_sent sv \<Longrightarrow> restart_sent (enc_next pub sv m)" unfolding n silent_branch(4) [OF assms b(1)] by simp
qed

lemma restarted_quiet:
  "all_inputs (enc_next pub) enc_silent sv ms \<Longrightarrow> restart_sent sv \<Longrightarrow> event_times (enc_next pub) (enc_restarts pub) now sv ms = []"
proof (induction ms arbitrary: sv)
  case (Cons m ms)
  have s: "enc_silent sv m" using Cons.prems by simp
  show ?case using Cons restart_step_run [OF s, of pub] by auto
qed simp

lemma restart_once:
  "all_inputs (enc_next pub) enc_silent sv ms \<Longrightarrow> length (event_times (enc_next pub) (enc_restarts pub) now sv ms) \<le> 1"
proof (induction ms arbitrary: sv)
  case (Cons m ms)
  have s: "enc_silent sv m" using Cons.prems by simp
  show ?case using Cons restart_step_run(1) [OF s, of pub] restarted_quiet [of pub "enc_next pub sv m" ms] by auto
qed simp

section \<open>Startup\<close>

definition polls_used :: "nat \<Rightarrow> nat \<Rightarrow> 'a encoder_servo_scheme \<Rightarrow> bool" where
  "polls_used st k sv \<longleftrightarrow>
     (if poll_outstanding sv then 0 < k \<and> st + 510000 * (k - 1) \<le> poll_sent_at sv
      else st + 510000 * k \<le> next_poll_allowed_at sv)"

lemma expire_used: "polls_used st k sv \<Longrightarrow> polls_used st k (expire_poll t sv)"
  by (cases k) (auto simp: polls_used_def expire_poll_def encoder_times)

lemma probe_round_continues:
  assumes "probe_round sv m = Inr (sv', m')" "polls_used st k sv" "now m < st + 1500000"
  shows "enc_kept sv' = enc_kept sv \<and>
    (\<exists>j. tx m' = tx m @ poll_frames (id_of sv) j \<and> polls_used st (k + j) sv' \<and> (0 < j \<longrightarrow> k + j \<le> 3))"
proof -
  let ?e = "expire_poll (now m) sv"
  have p: "poll_if_due (now m) ?e m = (sv', m', SUCCESS)"
    using assms(1) by (auto simp: probe_round_def Let_def split: if_splits prod.splits)
  have u: "polls_used st k ?e" using assms(2) by (rule expire_used)
  from poll_effect(1) [OF p] show ?thesis
  proof
    assume "tx m' = tx m \<and> sv' = ?e"
    then show ?thesis using u by (auto simp: poll_frames_def intro!: exI [of _ 0])
  next
    assume d: "tx m' = tx m @ [handle_request (id_of ?e) 2] \<and> poll_due (now m) ?e \<and> sv' = poll_sent (now m) ?e"
    then have "st + 510000 * k \<le> now m" using u by (auto simp: poll_due_def polls_used_def)
    then have "polls_used st (k + 1) sv'" "k + 1 \<le> 3" using d assms(3) by (auto simp: polls_used_def poll_sent_def)
    then show ?thesis using d by (auto simp: poll_frames_def intro!: exI [of _ 1])
  qed
qed

lemma probe_round_ends:
  assumes "probe_round sv m = Inl (sv', m', rc)"
  shows "tx m' = tx m \<and> enc_kept sv' = enc_kept sv \<and>
    (rc = SUCCESS \<longrightarrow> m' = m \<and> in_cache (data_index sv) \<and> update_count (received m ! nat (data_index sv)) \<noteq> 0)"
proof (cases "case get_received_encoder_data m (data_index sv) of Some (_, _, _, count) \<Rightarrow> 0 < count | None \<Rightarrow> False")
  case True
  then show ?thesis using assms
    by (auto simp: probe_round_def Let_def get_received_encoder_data_def enc_kept_def split: if_splits)
next
  case False
  then have p: "poll_if_due (now m) (expire_poll (now m) sv) m = (sv', m', rc)" "rc \<noteq> SUCCESS"
    using assms by (auto simp: probe_round_def Let_def split: prod.splits if_splits)
  have "sv' \<noteq> poll_sent (now m) (expire_poll (now m) sv) \<or> tx m' = tx m"
    using p by (auto simp: poll_if_due_def send_poll_frame_def split: if_splits prod.splits dest!: send_frame_tx)
  then show ?thesis using poll_effect(1) [OF p(1)] p(2) by auto
qed

lemma probe_bounded:
  assumes "probe_loop idx (st + 1500000) arrivals sv m = (sv', m', rc)" "polls_used st k sv" "k \<le> 3"
  shows "enc_kept sv' = enc_kept sv \<and> (\<exists>j. tx m' = tx m @ poll_frames (id_of sv) j \<and> k + j \<le> 3) \<and>
    (rc = SUCCESS \<longrightarrow> in_cache (data_index sv) \<and> update_count (received m' ! nat (data_index sv)) \<noteq> 0)"
  using assms
proof (induction idx "st + 1500000" arrivals sv m arbitrary: k rule: probe_loop.induct)
  case (1 idx arrivals sv m)
  show ?case
  proof (cases "st + 1500000 \<le> now m")
    case True
    then have "(sv', m', rc) = (sv, m, NO_RESPONSE)" using "1.prems"(1) by (simp add: probe_loop.simps)
    then show ?thesis using "1.prems"(3) by (auto simp: poll_frames_def intro: exI [of _ 0])
  next
    case False
    show ?thesis
    proof (cases "probe_round sv m")
      case (Inl r)
      then have "probe_round sv m = Inl (sv', m', rc)" using "1.prems"(1) False by (simp add: probe_loop.simps)
      from probe_round_ends [OF this] show ?thesis using "1.prems"(3) by (auto simp: poll_frames_def intro: exI [of _ 0])
    next
      case (Inr y)
      obtain s1 m1 where r: "probe_round sv m = Inr (s1, m1)" using Inr by (cases y) auto
      let ?m = "sleep_and_receive idx PASSIVE_ENCODER_START_WAIT (concat (take 1 arrivals)) m1"
      have tx: "tx ?m = tx m1" by (simp add: sleep_and_receive_def usleep_def)
      obtain j where j: "enc_kept s1 = enc_kept sv" "tx m1 = tx m @ poll_frames (id_of sv) j" "polls_used st (k + j) s1"
        "0 < j \<longrightarrow> k + j \<le> 3" using probe_round_continues [OF r "1.prems"(2)] False by auto
      have "k + j \<le> 3" using j(4) "1.prems"(3) by (cases j) auto
      moreover have "probe_loop idx (st + 1500000) (drop 1 arrivals) s1 ?m = (sv', m', rc)"
        using "1.prems"(1) False by (subst (asm) probe_loop.simps) (simp add: r)
      ultimately have "enc_kept sv' = enc_kept s1 \<and> (\<exists>j'. tx m' = tx ?m @ poll_frames (id_of s1) j' \<and> k + j + j' \<le> 3) \<and>
          (rc = SUCCESS \<longrightarrow> in_cache (data_index s1) \<and> update_count (received m' ! nat (data_index s1)) \<noteq> 0)"
        using "1.hyps" [OF _ r refl] j(3) False by simp
      then obtain j' where j': "enc_kept sv' = enc_kept s1" "tx m' = tx ?m @ poll_frames (id_of s1) j'" "k + j + j' \<le> 3"
        "rc = SUCCESS \<longrightarrow> in_cache (data_index s1) \<and> update_count (received m' ! nat (data_index s1)) \<noteq> 0" by blast
      have "tx m' = tx m @ poll_frames (id_of sv) (j + j')"
        using j'(2) j(1,2) tx by (simp add: poll_frames_def replicate_add enc_kept_def)
      then show ?thesis using j' j(1) by (auto simp: enc_kept_def intro!: exI [of _ "j + j'"])
    qed
  qed
qed

section \<open>Properties\<close>

text \<open>The poll rate of the trigger encoder. Whatever the encoder answers and however often the servo is read, two polls
  are at least 4 ms apart; while the encoder does not answer, at least 500 ms.\<close>

theorem encoder_poll_rate:
  assumes "enc_ready sv" "sorted (map now ms)"
  shows "sorted_wrt (\<lambda>a b. a + 4000 \<le> b) (event_times (enc_next pub) (enc_polls pub) now sv ms) \<and>
    (all_inputs (enc_next pub) enc_silent sv ms \<longrightarrow>
     sorted_wrt (\<lambda>a b. a + 500000 \<le> b) (event_times (enc_next pub) (enc_polls pub) now sv ms))"
  using assms by (simp add: enc_rate.events_spaced enc_backoff.events_spaced ready_run)

text \<open>C40: The recovery ladder of the trigger encoder. In a cycle that brings no new response the last trigger value is
  held and no buttons are published; the cycle reports a lost signal exactly when the silence has lasted 20 s,
  and the restart request counts as sent from 3 s on. However long the silence lasts, the firmware is restarted at most once.\<close>

theorem encoder_silence_ladder:
  assumes "all_inputs (enc_next pub) enc_silent sv (m # ms)" "response_seen sv"
    and "enc_read_hardware_values pub sv m = (sv', m', msg, rc)"
  shows "(rc = SAFE_MODE_SIG \<longleftrightarrow> 20000000 \<le> now m - last_response_at sv) \<and> msg = None \<and>
    curr_pos_abs sv' = fabs (angle_actual_rad (received m ! nat (data_index sv))) \<and>
    restart_sent sv' = (restart_sent sv \<or> 3000000 \<le> now m - last_response_at sv) \<and>
    length (event_times (enc_next pub) (enc_restarts pub) now sv (m # ms)) \<le> 1"
proof -
  have s: "enc_silent sv m" using assms(1) by simp
  then have r: "enc_driver sv" "in_cache (data_index sv)" "enc_count m sv = last_update_count sv"
    by (simp_all add: enc_silent_def enc_ready_def)
  obtain s1 m1 over where b: "enc_branch sv m = (s1, m1, over)" by (metis prod_cases3)
  obtain s2 m2 rc2 where p: "poll_if_due (now m) s1 m1 = (s2, m2, rc2)" by (metis prod_cases3)
  have e: "curr_pos_abs s2 = curr_pos_abs s1" "restart_sent s2 = restart_sent s1" using poll_effect(1) [OF p] by auto
  note sb = silent_branch(4,6,7) [OF s b]
  have 1: "(rc = SAFE_MODE_SIG \<longleftrightarrow> 20000000 \<le> now m - last_response_at sv) \<and> msg = None \<and>
      curr_pos_abs sv' = curr_pos_abs s1 \<and> restart_sent sv' = restart_sent s1"
    using assms(2,3) poll_effect(2) [OF p] e sb(2) unfolding enc_read_cases [OF r(1,2)] b
    by (auto simp: p r(3) split: if_splits)
  have 2: "length (event_times (enc_next pub) (enc_restarts pub) now sv (m # ms)) \<le> 1"
    using restart_once [OF assms(1)] .
  show ?thesis using 1 2 sb assms(2) by simp
qed

text \<open>The startup probe is bounded and its success is real. It always returns, having put on the bus nothing but polls
  of its own encoder and at most three of them; it succeeds only when a response is in the cache, so the
  freshness check that follows succeeds too.\<close>

theorem startup_probe_bounded:
  assumes "\<not> poll_outstanding sv" "enc_start_hardware idx topic arrivals sv m = (sv', m', rc)"
  shows "(\<exists>k \<le> 3. tx m' = tx m @ replicate k (handle_request (id_of sv) 0x02)) \<and>
    (rc = SUCCESS \<longrightarrow> enc_verify_position_fresh sv' m' = SUCCESS)"
proof (cases "enc_driver sv")
  case True
  define s where "s = sv\<lparr>publish_joystick_enabled := (dev_role (p_device sv) = LEADER \<and> topic \<noteq> ''None'' \<and> topic \<noteq> ''''),
      next_poll_allowed_at := now m\<rparr>"
  have p: "probe_loop idx (now m + 1500000) arrivals s m = (sv', m', rc)"
    using assms(2) True by (simp add: enc_start_hardware_def s_def encoder_times)
  have "polls_used (now m) 0 s" using assms(1) by (simp add: polls_used_def s_def)
  from probe_bounded [OF p this] have b: "enc_kept sv' = enc_kept s" "\<exists>j \<le> 3. tx m' = tx m @ poll_frames (id_of s) j"
    "rc = SUCCESS \<longrightarrow> in_cache (data_index s) \<and> update_count (received m' ! nat (data_index s)) \<noteq> 0" by auto
  moreover have "enc_kept s = enc_kept sv" "id_of s = id_of sv" "data_index s = data_index sv" by (simp_all add: s_def enc_kept_def)
  ultimately show ?thesis using True enc_kept_fields [of sv' sv]
    by (auto simp: poll_frames_def enc_verify_position_fresh_def get_received_encoder_data_def Let_def)
next
  case False
  then show ?thesis using assms(2) by (auto simp: enc_start_hardware_def intro: exI [of _ 0])
qed

text \<open>A configured encoder is heard. After its configuration has succeeded, a frame with the configured response id
  and at least 6 bytes ends up in the slot of its data index, under its own id, as a new response.\<close>

theorem configured_encoder_is_heard:
  assumes "enc_init_config_model p cfg sv m r = (sv', m', r', SUCCESS)"
    and "uint (can_id f AND 0x7FF) = response_can_id sv'" "6 \<le> can_dlc f" "mit_ok m"
  shows "let d = received (handle_frame idx f m') ! nat (data_index sv')
    in motor_id d = id_of sv' \<and> update_count d = update_count (received m' ! nat (data_index sv')) + 1 \<and>
       last_update_perf d = now m'"
proof -
  obtain s r1 rc1 where i: "init_config_model base_init_current_estimation p cfg
      (sv\<lparr>sv_type := CAN_PASSIVE_ENCODER, sv_param := g_servo_can_passive_encoder_param\<rparr>) r = (s, r1, rc1)" by (metis prod_cases3)
  obtain rid c2 where 2: "checked_field get_int cfg ''response_can_id'' (id_of s + 1) = (rid, c2)" by fastforce
  obtain n c3 where 3: "checked_field get_int cfg ''joystick_button_num'' (button_num s) = (n, c3)" by fastforce
  obtain fw c4 where 4: "checked_field get_bool cfg ''passive_encoder_firmware_compat'' False = (fw, c4)" by fastforce
  let ?s = "s\<lparr>response_can_id := rid, button_num := n\<rparr>"
  have "sv' = ?s" "register_passive_encoder rid (id_of s) (data_index s) fw m = (m', SUCCESS)"
    using assms(1) by (auto simp: enc_init_config_model_def i 2 3 4 Let_def split: if_splits prod.splits)
  then have sv': "id_of sv' = id_of s" "data_index sv' = data_index s" "response_can_id sv' = rid"
    and c: "in_cache (data_index s)" and m': "m' = m\<lparr>passive_encoder_routes := smap_set rid
      \<lparr>encoder_id = id_of s, route_data_index = data_index s, firmware_compat = fw\<rparr> (passive_encoder_routes m)\<rparr>"
    by (auto simp: register_passive_encoder_def split: if_splits)
  have "smap_find (passive_encoder_routes m') rid =
      Some \<lparr>encoder_id = id_of s, route_data_index = data_index s, firmware_compat = fw\<rparr>"
    by (simp add: m' smap_find_set)
  moreover have "nat (data_index s) < length (received m')"
    using c assms(4) by (auto simp: m' mit_ok_def in_cache_def MAX_SERVO_INFO_BUF_SIZE_def)
  ultimately show ?thesis using assms(2,3)
    by (simp add: handle_frame_def sv' parse_encoder_status_def Let_def)
qed

definition trigger :: encoder_servo where
  "trigger = (new_encoder_servo (sample_servo\<lparr>id_of := 0x50E\<rparr>) False False True)
     \<lparr>response_seen := True, last_response_at := 1000000, last_update_count := 7\<rparr>"

definition trigger_bus :: "nat \<Rightarrow> u32 \<Rightarrow> mit" where
  "trigger_bus t n = sample_mit\<lparr>now := t, received := new_received[3 := zero_received\<lparr>motor_id := 0x50E,
     angle_actual_rad := Fin (-1), update_count := n\<rparr>]\<rparr>"

lemma trigger_fields:
  "enc_ready trigger" "response_seen trigger" "last_response_at trigger = 1000000" "last_update_count trigger = 7"
  "data_index trigger = 3" "enc_driver trigger" "\<not> poll_outstanding trigger" "id_of trigger = 0x50E" "\<not> restart_sent trigger"
  "next_poll_allowed_at trigger = 0"
  by (simp_all add: trigger_def new_encoder_servo_def new_servo_def servo.defs servo_data.defs enc_ready_def
      sample_servo_def in_cache_def MAX_SERVO_INFO_BUF_SIZE_def)

lemma trigger_bus_fields:
  "now (trigger_bus t n) = t" "received (trigger_bus t n) ! 3 =
     zero_received\<lparr>motor_id := 0x50E, angle_actual_rad := Fin (-1), update_count := n\<rparr>" "sock (trigger_bus t n)"
  "writes (trigger_bus t n) = []" "tx (trigger_bus t n) = []"
  by (simp_all add: trigger_bus_def sample_mit_def new_received_def)

lemma trigger_silent: "enc_silent trigger (trigger_bus t 7)"
  by (simp add: enc_silent_def trigger_fields enc_count_def trigger_bus_fields)

theorem encoder_poll_rate_witness:
  "sorted_wrt (\<lambda>a b. a + 4000 \<le> b) (event_times (enc_next (\<lambda>_. SUCCESS)) (enc_polls (\<lambda>_. SUCCESS)) now trigger
     (map (\<lambda>k. trigger_bus (1000000 + k * 1000) (word_of_nat (k div 3))) [0 ..< 50]))"
  using encoder_poll_rate [OF trigger_fields(1), of "map (\<lambda>k. trigger_bus (1000000 + k * 1000) (word_of_nat (k div 3))) [0 ..< 50]" "\<lambda>_. SUCCESS"]
  by (simp add: sorted_iff_nth_mono trigger_bus_fields)

theorem encoder_silence_ladder_witness:
  "\<exists>sv' m'. enc_read_hardware_values (\<lambda>_. SUCCESS) trigger (trigger_bus 21000000 7) = (sv', m', None, SAFE_MODE_SIG) \<and>
     curr_pos_abs sv' = Fin 1 \<and> restart_sent sv'"
proof -
  obtain sv' m' msg rc where r: "enc_read_hardware_values (\<lambda>_. SUCCESS) trigger (trigger_bus 21000000 7) = (sv', m', msg, rc)"
    by (metis prod_cases4)
  have "all_inputs (enc_next (\<lambda>_. SUCCESS)) enc_silent trigger [trigger_bus 21000000 7]" by (simp add: trigger_silent)
  from encoder_silence_ladder [OF this trigger_fields(2) r] show ?thesis
    by (simp add: r trigger_bus_fields trigger_fields)
qed

theorem startup_probe_bounded_witness:
  "\<exists>sv' m'. enc_start_hardware (\<lambda>_. 3) ''None'' [] trigger (trigger_bus 1000000 1) = (sv', m', SUCCESS) \<and>
     enc_verify_position_fresh sv' m' = SUCCESS"
proof -
  obtain sv' m' where r: "enc_start_hardware (\<lambda>_. 3) ''None'' [] trigger (trigger_bus 1000000 1) = (sv', m', SUCCESS)"
    by (simp add: enc_start_hardware_def trigger_fields trigger_bus_fields probe_loop.simps probe_round_def encoder_times
        get_received_encoder_data_def in_cache_def MAX_SERVO_INFO_BUF_SIZE_def Let_def)
  from startup_probe_bounded [OF trigger_fields(7) r] r show ?thesis by blast
qed

definition sample_encoder_cfg :: json where
  "sample_encoder_cfg = JObject [(''servo_id'', JInt 0x50E), (''data_index'', JInt 3), (''servo_model'', JString ''CAN Passive Encoder'')]"

theorem configured_encoder_is_heard_witness:
  "\<exists>sv' m' r'. enc_init_config_model ''p'' sample_encoder_cfg trigger (trigger_bus 1000000 4) empty_registry = (sv', m', r', SUCCESS) \<and>
     update_count (received (handle_frame (\<lambda>_. -1) \<lparr>can_id = 0x50F, can_dlc = 6, data = replicate 8 0\<rparr> m') ! 3) = 5"
proof -
  have i: "int32 0x50E = 0x50E" "int32 3 = 3" by (simp_all add: int32_def)
  obtain sv' m' r' where c: "enc_init_config_model ''p'' sample_encoder_cfg trigger (trigger_bus 1000000 4) empty_registry
      = (sv', m', r', SUCCESS)" and f: "response_can_id sv' = 0x50F" "data_index sv' = 3" "received m' = received (trigger_bus 1000000 4)"
    by (simp add: enc_init_config_model_def init_config_model_def sample_encoder_cfg_def get_field_value_def i Let_def model_gains_def
        opt_field_def model_limits_def base_init_current_estimation_def checked_field_def register_passive_encoder_def
        in_cache_def MAX_SERVO_INFO_BUF_SIZE_def trigger_fields)
  have "mit_ok (trigger_bus 1000000 4)" by (simp add: mit_ok_def trigger_bus_def sample_mit_def new_received_def)
  from configured_encoder_is_heard [OF c _ _ this, of "\<lparr>can_id = 0x50F, can_dlc = 6, data = replicate 8 0\<rparr>" "\<lambda>_. -1"] c
  show ?thesis by (simp add: f trigger_bus_fields Let_def)
qed

end
