(* ===== verification/Joint.thy ===== *)
theory Joint
  imports Servo_Cycle
begin

text \<open>
  A joint, \<^verbatim>\<open>native/pi_control/src/pi_joint.cpp\<close> and \<^verbatim>\<open>include/pi_joint.hpp\<close>: its configuration, the factory of all
  joints of a device, the calls it forwards to its servos, the spring, the stability and stuck detectors and the
  grip-torque limiter. A servo is an object of any class; its virtual functions are a record, and they work on the
  object and on the state \<open>'w\<close> of the driver. A servo reads the joint through its back pointer, so every call passes
  the joint's current view. An index out of range of a vector is undefined in C++ and an unspecified servo
  here; \<open>joint_ok\<close> says that it does not happen.
\<close>

section \<open>Servo objects\<close>

type_synonym ('s, 'w) servo_call = "'s \<Rightarrow> 'w \<Rightarrow> ('s \<times> 'w \<times> ReturnCode) option"

record ('s, 'w) servo_class =
  sc_base :: "'s \<Rightarrow> servo_data"
  sc_upd :: "(servo_data \<Rightarrow> servo_data) \<Rightarrow> 's \<Rightarrow> 's"
  sc_read :: "('s, 'w) servo_call"
  sc_start :: "('s, 'w) servo_call"
  sc_verify_operational :: "('s, 'w) servo_call"
  sc_verify_fresh :: "'s \<Rightarrow> 'w \<Rightarrow> ReturnCode"
  sc_park :: "('s, 'w) servo_call"
  sc_move :: "flt \<Rightarrow> ('s, 'w) servo_call"
  sc_move_full :: "flt \<Rightarrow> flt \<Rightarrow> flt \<Rightarrow> ('s, 'w) servo_call"
  sc_torque :: "flt \<Rightarrow> ('s, 'w) servo_call"
  sc_torque_damped :: "flt \<Rightarrow> ('s, 'w) servo_call"
  sc_leader :: "('s, 'w) servo_call"
  sc_follower :: "('s, 'w) servo_call"
  sc_effective_kp :: "'s \<Rightarrow> flt"
  sc_safe_tele :: "'s \<Rightarrow> flt \<Rightarrow> flt"

section \<open>State\<close>

record 's joint = joint_view +
  j_id :: int
  j_driver :: bool
  pos_max_safety_margin :: flt
  pos_max_safety_margin_configured :: bool
  normalized_pos_min :: flt
  normalized_pos_max :: flt
  normalized_pos_min_configured :: bool
  normalized_pos_max_configured :: bool
  pos_rescale :: flt
  j_vel_max :: flt
  follow_vel_max :: flt
  follow_vel_max_configured :: bool
  follow_viscous_damping :: flt
  gravity_comp_factor :: flt
  grip_torque_limit_nm :: flt
  last_grip_requested_target_pos :: flt
  last_grip_applied_target_pos :: flt
  grip_limiter_active :: bool
  accel_max :: flt
  safe_mode_derating :: flt
  safe_torq_min :: flt
  safe_torq_max :: flt
  tele_vel :: flt
  tele_tor :: flt
  follower_pos :: flt
  follower_pos_valid :: bool
  follower_vel :: flt
  follower_tor :: flt
  follower_temperature :: flt
  follower_idc_current :: flt
  j_prev_pos :: flt
  spring_invert :: bool
  spring_enabled :: bool
  spring_constant :: flt
  spring_preload :: flt
  spring_force_config :: bool
  spring_type :: int
  threshold_angle_change :: flt
  threshold_time_sec :: flt
  last_significant_change_time :: nat
  target_pos :: flt
  adjusted_target_pos :: flt
  prev_target_pos :: flt
  target_tor :: flt
  prev_target_tor :: flt
  stuck_last_pos_rad :: flt
  stuck_iter_count :: int
  stuck_latched :: bool
  reference_servo_index :: int
  servos :: "'s list"
  prev_tele_pos :: flt
  tele_pos_moving_dir :: flt
  stalled_position :: flt

text \<open>A new joint. The members without an initialiser hold whatever the memory held: \<open>g\<close>; the id is written before it is read.\<close>

definition new_joint :: "(string \<Rightarrow> flt) \<Rightarrow> bool \<Rightarrow> 's joint" where
  "new_joint g has_driver =
     \<lparr>tele_pos = Fin 0, torq_min = g ''torq_min_'', torq_max = g ''torq_max_'', torq_rescale = g ''torq_rescale_'',
      pos_error_margin = g ''pos_error_margin_'',
      j_id = 0, j_driver = has_driver, pos_max_safety_margin = Fin 0, pos_max_safety_margin_configured = False,
      normalized_pos_min = Fin 0, normalized_pos_max = Fin 0, normalized_pos_min_configured = False,
      normalized_pos_max_configured = False, pos_rescale = g ''pos_rescale_'', j_vel_max = Fin 0, follow_vel_max = Fin 0,
      follow_vel_max_configured = False, follow_viscous_damping = Fin 0, gravity_comp_factor = Fin 1,
      grip_torque_limit_nm = Fin 0, last_grip_requested_target_pos = Fin 0, last_grip_applied_target_pos = Fin 0,
      grip_limiter_active = False, accel_max = g ''accel_max_'', safe_mode_derating = g ''safe_mode_derating_'',
      safe_torq_min = g ''safe_torq_min_'', safe_torq_max = g ''safe_torq_max_'',
      tele_vel = Fin 0, tele_tor = Fin 0, follower_pos = Fin 0, follower_pos_valid = False, follower_vel = Fin 0, follower_tor = Fin 0,
      follower_temperature = Fin 0, follower_idc_current = Fin 0, j_prev_pos = Fin 0,
      spring_invert = False, spring_enabled = False, spring_constant = Fin 0, spring_preload = Fin 0,
      spring_force_config = False, spring_type = 1, threshold_angle_change = Fin 0, threshold_time_sec = Fin 0,
      last_significant_change_time = 0, target_pos = Fin 0, adjusted_target_pos = Fin 0,
      prev_target_pos = Fin 0, target_tor = Fin 0, prev_target_tor = Fin 0, stuck_last_pos_rad = Fin 0,
      stuck_iter_count = 0, stuck_latched = False, reference_servo_index = 0, servos = [], prev_tele_pos = Fin 0,
      tele_pos_moving_dir = Fin 0, stalled_position = Fin 0\<rparr>"

definition joint_ok :: "'s joint \<Rightarrow> bool" where
  "joint_ok j \<longleftrightarrow> 0 \<le> reference_servo_index j \<and> reference_servo_index j < int (length (servos j))"

definition reference_servo :: "'s joint \<Rightarrow> 's" where
  "reference_servo j = servos j ! nat (reference_servo_index j)"

definition joint_pos_relative :: "('s, 'w) servo_class \<Rightarrow> 's joint \<Rightarrow> flt" where
  "joint_pos_relative c j = get_pos_rad_relative (sc_base c (reference_servo j))"

definition joint_pos_absolute :: "('s, 'w) servo_class \<Rightarrow> 's joint \<Rightarrow> flt" where
  "joint_pos_absolute c j = curr_pos_abs (sc_base c (reference_servo j))"

definition get_pos_min_relative :: "('s, 'w) servo_class \<Rightarrow> 's joint \<Rightarrow> flt" where
  "get_pos_min_relative c j = pos_min_rel (sc_base c (reference_servo j))"

definition get_pos_max_relative :: "('s, 'w) servo_class \<Rightarrow> 's joint \<Rightarrow> flt" where
  "get_pos_max_relative c j = pos_max_rel (sc_base c (reference_servo j))"

definition get_spring_home_pos_absolute :: "('s, 'w) servo_class \<Rightarrow> 's joint \<Rightarrow> flt" where
  "get_spring_home_pos_absolute c j =
     (let b = sc_base c (reference_servo j) in get_pos_rad_absolute b (spring_home_pos_rel b))"

definition joint_pos_relative_of :: "('s, 'w) servo_class \<Rightarrow> flt \<Rightarrow> 's joint \<Rightarrow> flt" where
  "joint_pos_relative_of c rad_absolute j = rel_of_abs (sc_base c (reference_servo j)) rad_absolute"

definition joint_pos_absolute_of :: "('s, 'w) servo_class \<Rightarrow> flt \<Rightarrow> 's joint \<Rightarrow> flt" where
  "joint_pos_absolute_of c rad_relative j = get_pos_rad_absolute (sc_base c (reference_servo j)) rad_relative"

definition joint_vel :: "('s, 'w) servo_class \<Rightarrow> 's joint \<Rightarrow> flt" where
  "joint_vel c j = curr_vel (sc_base c (reference_servo j))"

definition joint_tor :: "('s, 'w) servo_class \<Rightarrow> 's joint \<Rightarrow> flt" where
  "joint_tor c j = curr_tor (sc_base c (reference_servo j))"

definition joint_temperature :: "('s, 'w) servo_class \<Rightarrow> 's joint \<Rightarrow> flt" where
  "joint_temperature c j = temperature (sc_base c (reference_servo j))"

definition get_home_pos_relative :: "('s, 'w) servo_class \<Rightarrow> 's joint \<Rightarrow> flt" where
  "get_home_pos_relative c j = home_pos_rel (sc_base c (reference_servo j))"

definition get_response_delay :: "('s, 'w) servo_class \<Rightarrow> 's joint \<Rightarrow> flt" where
  "get_response_delay c j = response_delay (sc_base c (reference_servo j))"

definition get_dir_invert :: "('s, 'w) servo_class \<Rightarrow> 's joint \<Rightarrow> int" where
  "get_dir_invert c j = dir_invert (sc_base c (reference_servo j))"

definition get_servo_ids :: "('s, 'w) servo_class \<Rightarrow> 's joint \<Rightarrow> int list \<Rightarrow> int list \<times> ReturnCode" where
  "get_servo_ids c j servo_ids = (servo_ids @ map (\<lambda>s. id_of (sc_base c s)) (servos j), SUCCESS)"

definition get_idc_current :: "('s, 'w) servo_class \<Rightarrow> 's joint \<Rightarrow> flt" where
  "get_idc_current c j = foldl (\<lambda>acc s. fadd binary32 acc (idc_current (sc_base c s))) (Fin 0) (servos j)"

definition set_on_reference ::
  "('s, 'w) servo_class \<Rightarrow> (servo_data \<Rightarrow> servo_data) \<Rightarrow> 's joint \<Rightarrow> 's joint \<times> ReturnCode" where
  "set_on_reference c f j =
     (if reference_servo_index j < 0 \<or> int (length (servos j)) \<le> reference_servo_index j then (j, NOT_INITIALIZED)
      else (j\<lparr>servos := (servos j)[nat (reference_servo_index j) := sc_upd c f (reference_servo j)]\<rparr>, SUCCESS))"

definition set_pos_max_relative :: "('s, 'w) servo_class \<Rightarrow> flt \<Rightarrow> 's joint \<Rightarrow> 's joint \<times> ReturnCode" where
  "set_pos_max_relative c pos_max = set_on_reference c (\<lambda>d. d\<lparr>pos_max_rel := pos_max\<rparr>)"

definition set_pos_min_relative :: "('s, 'w) servo_class \<Rightarrow> flt \<Rightarrow> 's joint \<Rightarrow> 's joint \<times> ReturnCode" where
  "set_pos_min_relative c pos_min = set_on_reference c (\<lambda>d. d\<lparr>pos_min_rel := pos_min\<rparr>)"

definition set_pos_kd :: "('s, 'w) servo_class \<Rightarrow> flt \<Rightarrow> 's joint \<Rightarrow> 's joint \<times> ReturnCode" where
  "set_pos_kd c kd = set_on_reference c (\<lambda>d. d\<lparr>pos_kd := kd\<rparr>)"

definition reference_servo_id :: "('s, 'w) servo_class \<Rightarrow> 's joint \<Rightarrow> int" where
  "reference_servo_id c j =
     (if servos j = [] then -1
      else let i = (if joint_ok j then nat (reference_servo_index j) else 0)
           in sint (word_of_int (id_of (sc_base c (servos j ! i))) :: 16 word))"

section \<open>Configuration\<close>

definition has_normalized_position_range :: "'s joint \<Rightarrow> bool" where
  "has_normalized_position_range j \<longleftrightarrow> normalized_pos_min_configured j \<and> normalized_pos_max_configured j"

definition get_normalized_pos_min_relative :: "('s, 'w) servo_class \<Rightarrow> 's joint \<Rightarrow> flt" where
  "get_normalized_pos_min_relative c j =
     (if has_normalized_position_range j then normalized_pos_min j else get_pos_min_relative c j)"

definition get_normalized_pos_max_relative :: "('s, 'w) servo_class \<Rightarrow> 's joint \<Rightarrow> flt" where
  "get_normalized_pos_max_relative c j =
     (if has_normalized_position_range j then normalized_pos_max j else get_pos_max_relative c j)"

definition given :: "(json \<Rightarrow> 'b option) \<Rightarrow> json \<Rightarrow> string \<Rightarrow> bool" where
  "given get cfg k \<longleftrightarrow> (case j_field cfg k of None \<Rightarrow> False | Some v \<Rightarrow> get v \<noteq> None)"

definition positive_finite :: "flt \<Rightarrow> bool" where
  "positive_finite x \<longleftrightarrow> isfinite x \<and> \<not> flt_le x (Fin 0)"

definition joint_model_spring :: "json \<Rightarrow> 's joint \<Rightarrow> 's joint" where
  "joint_model_spring cfg j =
     j\<lparr>spring_constant := opt_field get_float cfg ''spring_constant'' (spring_constant j),
       spring_preload := opt_field get_float cfg ''spring_preload'' (spring_preload j),
       spring_force_config := opt_field get_bool cfg ''spring_force_config'' (spring_force_config j),
       spring_type := opt_field get_int cfg ''spring_type'' (spring_type j),
       threshold_angle_change := opt_field get_float cfg ''threshold_angle_change'' (threshold_angle_change j),
       threshold_time_sec := opt_field get_float cfg ''threshold_time_sec'' (threshold_time_sec j)\<rparr>"

definition joint_model_torque :: "json \<Rightarrow> 's joint \<Rightarrow> 's joint" where
  "joint_model_torque cfg j =
     j\<lparr>torq_rescale := opt_field get_float cfg ''torq_rescale'' (torq_rescale j),
       torq_min := opt_field get_float cfg ''torq_min'' (torq_min j),
       torq_max := opt_field get_float cfg ''torq_max'' (torq_max j),
       safe_torq_min := opt_field get_float cfg ''safe_torq_min'' (safe_torq_min j),
       safe_torq_max := opt_field get_float cfg ''safe_torq_max'' (safe_torq_max j),
       j_vel_max := opt_field get_float cfg ''vel_max'' (j_vel_max j)\<rparr>"

definition joint_model_follow :: "json \<Rightarrow> 's joint \<Rightarrow> 's joint \<times> ReturnCode" where
  "joint_model_follow cfg j =
     (let j = (if given get_float cfg ''follow_vel_max''
               then j\<lparr>follow_vel_max := opt_field get_float cfg ''follow_vel_max'' (follow_vel_max j), follow_vel_max_configured := True\<rparr>
               else j\<lparr>follow_vel_max := j_vel_max j\<rparr>)
      in if \<not> positive_finite (follow_vel_max j) then (j, INVALID_PARAM)
      else let j = j\<lparr>follow_viscous_damping := opt_field get_float cfg ''follow_viscous_damping'' (follow_viscous_damping j)\<rparr>
      in if given get_float cfg ''follow_viscous_damping'' \<and>
            (\<not> isfinite (follow_viscous_damping j) \<or> flt_lt (follow_viscous_damping j) (Fin 0))
         then (j, INVALID_PARAM)
      else let j = j\<lparr>gravity_comp_factor := opt_field get_float cfg ''gravity_comp_factor'' (gravity_comp_factor j),
                     grip_torque_limit_nm := opt_field get_float cfg ''grip_torque_limit'' (grip_torque_limit_nm j)\<rparr>
      in if given get_float cfg ''grip_torque_limit'' \<and> flt_lt (grip_torque_limit_nm j) (Fin 0) then (j, INVALID_PARAM)
         else (j, SUCCESS))"

definition joint_model_position :: "json \<Rightarrow> 's joint \<Rightarrow> 's joint" where
  "joint_model_position cfg j =
     j\<lparr>pos_rescale := opt_field get_float cfg ''pos_rescale'' (pos_rescale j),
       pos_error_margin := opt_field get_float cfg ''pos_error_margin'' (pos_error_margin j),
       pos_max_safety_margin := opt_field get_float cfg ''pos_max_safety_margin'' (pos_max_safety_margin j),
       pos_max_safety_margin_configured := (given get_float cfg ''pos_max_safety_margin'' \<or> pos_max_safety_margin_configured j),
       normalized_pos_min := opt_field get_float cfg ''normalized_pos_min'' (normalized_pos_min j),
       normalized_pos_min_configured := (given get_float cfg ''normalized_pos_min'' \<or> normalized_pos_min_configured j),
       normalized_pos_max := opt_field get_float cfg ''normalized_pos_max'' (normalized_pos_max j),
       normalized_pos_max_configured := (given get_float cfg ''normalized_pos_max'' \<or> normalized_pos_max_configured j),
       accel_max := opt_field get_float cfg ''accel_max'' (accel_max j),
       safe_mode_derating := opt_field get_float cfg ''safe_mode_derating'' (safe_mode_derating j),
       spring_invert := opt_field get_bool cfg ''spring_invert'' (spring_invert j)\<rparr>"

definition joint_init_config_model :: "json \<Rightarrow> 's joint \<Rightarrow> 's joint \<times> ReturnCode" where
  "joint_init_config_model cfg j =
     (let (i, rc) = get_field_value get_int cfg ''joint_id'' (j_id j); j = j\<lparr>j_id := i\<rparr>
      in if rc \<noteq> SUCCESS then (j, rc)
      else let (j, rc) = joint_model_follow cfg (joint_model_torque cfg (joint_model_spring cfg j))
      in if rc \<noteq> SUCCESS then (j, rc) else (joint_model_position cfg j, SUCCESS))"

definition joint_individual_limits :: "json \<Rightarrow> 's joint \<Rightarrow> 's joint" where
  "joint_individual_limits cfg j =
     (let j = j\<lparr>j_vel_max := opt_field get_float cfg ''vel_max'' (j_vel_max j),
                accel_max := opt_field get_float cfg ''accel_max'' (accel_max j)\<rparr>
      in if given get_float cfg ''follow_vel_max''
         then j\<lparr>follow_vel_max := opt_field get_float cfg ''follow_vel_max'' (follow_vel_max j), follow_vel_max_configured := True\<rparr>
         else if \<not> follow_vel_max_configured j then j\<lparr>follow_vel_max := j_vel_max j\<rparr> else j)"

definition joint_init_config_individual :: "json \<Rightarrow> 's joint \<Rightarrow> 's joint \<times> ReturnCode" where
  "joint_init_config_individual cfg j =
     (let j = j\<lparr>spring_invert := opt_field get_bool cfg ''spring_invert'' (spring_invert j),
                reference_servo_index := opt_field get_int cfg ''reference_servo_index'' (reference_servo_index j)\<rparr>
      in if reference_servo_index j < 0 \<or> int (length (servos j)) \<le> reference_servo_index j then (j, INVALID_PARAM)
      else let j = joint_individual_limits cfg j
      in if \<not> positive_finite (j_vel_max j) \<or> \<not> positive_finite (accel_max j) \<or> \<not> positive_finite (follow_vel_max j)
         then (j, INVALID_PARAM)
      else let r = opt_field get_float cfg ''torq_rescale'' (torq_rescale j)
      in if given get_float cfg ''torq_rescale''
         then (if \<not> isfinite r \<or> flt_lt r (Fin 0) then (j, INVALID_PARAM) else (j\<lparr>torq_rescale := r\<rparr>, SUCCESS))
         else (j, SUCCESS))"

definition validate_normalized_position_range :: "('s, 'w) servo_class \<Rightarrow> 's joint \<Rightarrow> ReturnCode" where
  "validate_normalized_position_range c j =
     (if normalized_pos_min_configured j \<noteq> normalized_pos_max_configured j then INVALID_PARAM
      else if \<not> has_normalized_position_range j then SUCCESS
      else let raw_min = get_pos_min_relative c j; raw_max = get_pos_max_relative c j
      in if pos_max_safety_margin_configured j then INVALID_PARAM
      else if \<not> isfinite raw_min \<or> \<not> isfinite raw_max \<or> flt_le raw_max raw_min then INVALID_PARAM
      else if \<not> isfinite (normalized_pos_min j) \<or> \<not> isfinite (normalized_pos_max j) \<or>
              flt_le (normalized_pos_max j) (normalized_pos_min j) then INVALID_PARAM
      else if flt_lt (normalized_pos_min j) raw_min \<or> flt_lt raw_max (normalized_pos_max j) then INVALID_PARAM
      else SUCCESS)"

text \<open>
  \<^verbatim>\<open>Joint::new_joints\<close>. \<open>mk\<close> is \<^verbatim>\<open>Servo::new_servos\<close> for one joint, \<open>ind\<close> the individual configuration of its servos and \<open>del\<close>
  the destructor of a servo, which runs for every servo made so far when the factory fails.
\<close>

fun model_joints ::
  "(string \<Rightarrow> flt) \<Rightarrow> bool \<Rightarrow> (json \<Rightarrow> 'w \<Rightarrow> 's list \<times> 'w \<times> ReturnCode) \<Rightarrow> json list \<Rightarrow> 'w \<Rightarrow> 's joint list \<times> 'w \<times> ReturnCode" where
  "model_joints g drv mk [] w = ([], w, SUCCESS)"
| "model_joints g drv mk (cfg # cfgs) w =
     (let (j, rc) = joint_init_config_model cfg (new_joint g drv)
      in if rc \<noteq> SUCCESS then ([], w, rc)
      else let (svs, w, rc) = mk cfg w
      in if rc \<noteq> SUCCESS then ([], w, rc)
      else let (js, w, rc) = model_joints g drv mk cfgs w in (j\<lparr>servos := svs\<rparr> # js, w, rc))"

fun individual_joints ::
  "('s, 'w) servo_class \<Rightarrow> (json \<Rightarrow> 's list \<Rightarrow> 's list \<times> ReturnCode) \<Rightarrow> json list \<Rightarrow> 's joint list \<Rightarrow> 's joint list \<times> ReturnCode" where
  "individual_joints c ind [] js = (js, if js = [] then SUCCESS else INVALID_PARAM)"
| "individual_joints c ind (cfg # cfgs) [] = ([], INVALID_PARAM)"
| "individual_joints c ind (cfg # cfgs) (j # js) =
     (let (j, rc) = joint_init_config_individual cfg j
      in if rc \<noteq> SUCCESS then (j # js, rc)
      else let (svs, rc) = ind cfg (servos j); j = j\<lparr>servos := svs\<rparr>
      in if rc \<noteq> SUCCESS then (j # js, rc)
      else let rc = validate_normalized_position_range c j
      in if rc \<noteq> SUCCESS then (j # js, rc)
      else let (js, rc) = individual_joints c ind cfgs js in (j # js, rc))"

definition destroy_joints :: "('s \<Rightarrow> 'w \<Rightarrow> 'w) \<Rightarrow> 's joint list \<Rightarrow> 'w \<Rightarrow> 'w" where
  "destroy_joints del js w = fold del (concat (map servos js)) w"

definition new_joints ::
  "('s, 'w) servo_class \<Rightarrow> (string \<Rightarrow> flt) \<Rightarrow> bool \<Rightarrow> (json \<Rightarrow> 'w \<Rightarrow> 's list \<times> 'w \<times> ReturnCode)
   \<Rightarrow> (json \<Rightarrow> 's list \<Rightarrow> 's list \<times> ReturnCode) \<Rightarrow> ('s \<Rightarrow> 'w \<Rightarrow> 'w) \<Rightarrow> json option \<Rightarrow> json option \<Rightarrow> 's joint list \<Rightarrow> 'w
   \<Rightarrow> 's joint list \<times> 'w \<times> ReturnCode" where
  "new_joints c g drv mk ind del model individual joints w =
     (case model of
        None \<Rightarrow> (joints, w, NOT_INITIALIZED)
      | Some mv \<Rightarrow>
          (case j_field mv ''joints'' of
             None \<Rightarrow> (joints, w, INVALID_PARAM)
           | Some l \<Rightarrow>
               (if j_elems l = [] then (joints, w, INVALID_PARAM)
                else let (js, w, rc) = model_joints g drv mk (j_elems l) w
                in if rc \<noteq> SUCCESS then (joints, destroy_joints del js w, rc)
                else case individual of
                       None \<Rightarrow> (joints, destroy_joints del js w, NOT_INITIALIZED)
                     | Some iv \<Rightarrow>
                         (case j_field iv ''joints'' of
                            None \<Rightarrow> (joints, destroy_joints del js w, INVALID_PARAM)
                          | Some il \<Rightarrow>
                              (let (js, rc) = individual_joints c ind (j_elems il) js
                               in if rc \<noteq> SUCCESS then (joints, destroy_joints del js w, rc)
                                  else (joints @ js, w, SUCCESS))))))"

section \<open>Calls on the servos\<close>

text \<open>A loop that stops at the first error, and one that visits every servo.\<close>

primrec until_error :: "('s, 'w) servo_call \<Rightarrow> 's list \<Rightarrow> 'w \<Rightarrow> ('s list \<times> 'w \<times> ReturnCode) option" where
  "until_error f [] w = Some ([], w, SUCCESS)"
| "until_error f (s # ss) w =
     (case f s w of
        None \<Rightarrow> None
      | Some (s, w, rc) \<Rightarrow>
          (if rc \<noteq> SUCCESS then Some (s # ss, w, rc)
           else case until_error f ss w of None \<Rightarrow> None | Some (ss, w, rc) \<Rightarrow> Some (s # ss, w, rc)))"

primrec visit_all :: "('s, 'w) servo_call \<Rightarrow> 's list \<Rightarrow> 'w \<Rightarrow> ('s list \<times> 'w \<times> ReturnCode list) option" where
  "visit_all f [] w = Some ([], w, [])"
| "visit_all f (s # ss) w =
     (case f s w of
        None \<Rightarrow> None
      | Some (s, w, rc) \<Rightarrow> (case visit_all f ss w of None \<Rightarrow> None | Some (ss, w, rcs) \<Rightarrow> Some (s # ss, w, rc # rcs)))"

definition first_error :: "ReturnCode list \<Rightarrow> ReturnCode" where
  "first_error rcs = (case filter (\<lambda>rc. rc \<noteq> SUCCESS) rcs of [] \<Rightarrow> SUCCESS | rc # _ \<Rightarrow> rc)"

text \<open>A call sees the joint through the servo's back pointer.\<close>

definition seen :: "('s, 'w) servo_class \<Rightarrow> 's joint \<Rightarrow> ('s, 'w) servo_call \<Rightarrow> ('s, 'w) servo_call" where
  "seen c j f s w = f (sc_upd c (\<lambda>d. d\<lparr>p_joint := Some (joint_view.truncate j)\<rparr>) s) w"

definition forward :: "('s, 'w) servo_class \<Rightarrow> ('s, 'w) servo_call \<Rightarrow> 's joint \<Rightarrow> 'w \<Rightarrow> ('s joint \<times> 'w \<times> ReturnCode) option" where
  "forward c f j w =
     (case until_error (seen c j f) (servos j) w of None \<Rightarrow> None | Some (ss, w, rc) \<Rightarrow> Some (j\<lparr>servos := ss\<rparr>, w, rc))"

type_synonym ('s, 'w) joint_call = "'s joint \<Rightarrow> 'w \<Rightarrow> ('s joint \<times> 'w \<times> ReturnCode) option"

definition joint_start_hardware :: "('s, 'w) servo_class \<Rightarrow> ('s, 'w) joint_call" where
  "joint_start_hardware c = forward c (sc_start c)"

definition joint_verify_operational :: "('s, 'w) servo_class \<Rightarrow> ('s, 'w) joint_call" where
  "joint_verify_operational c = forward c (sc_verify_operational c)"

definition joint_move :: "('s, 'w) servo_class \<Rightarrow> flt \<Rightarrow> ('s, 'w) joint_call" where
  "joint_move c target = forward c (sc_move c target)"

definition joint_move_full :: "('s, 'w) servo_class \<Rightarrow> flt \<Rightarrow> flt \<Rightarrow> flt \<Rightarrow> ('s, 'w) joint_call" where
  "joint_move_full c pos vel tor = forward c (sc_move_full c pos vel tor)"

definition joint_apply_torque :: "('s, 'w) servo_class \<Rightarrow> flt \<Rightarrow> ('s, 'w) joint_call" where
  "joint_apply_torque c torque = forward c (sc_torque c torque)"

definition joint_apply_torque_with_damping :: "('s, 'w) servo_class \<Rightarrow> flt \<Rightarrow> ('s, 'w) joint_call" where
  "joint_apply_torque_with_damping c torque = forward c (sc_torque_damped c torque)"

definition joint_change_control_mode_for_follower :: "('s, 'w) servo_class \<Rightarrow> ('s, 'w) joint_call" where
  "joint_change_control_mode_for_follower c = forward c (sc_follower c)"

definition joint_verify_position_fresh :: "('s, 'w) servo_class \<Rightarrow> 's joint \<Rightarrow> 'w \<Rightarrow> ReturnCode" where
  "joint_verify_position_fresh c j w =
     (if servos j = [] \<or> reference_servo_index j < 0 \<or> int (length (servos j)) \<le> reference_servo_index j
      then NOT_INITIALIZED else sc_verify_fresh c (reference_servo j) w)"

definition joint_park_safely :: "('s, 'w) servo_class \<Rightarrow> ('s, 'w) joint_call" where
  "joint_park_safely c j w =
     (case visit_all (seen c j (sc_park c)) (servos j) w of
        None \<Rightarrow> None | Some (ss, w, rcs) \<Rightarrow> Some (j\<lparr>servos := ss\<rparr>, w, first_error rcs))"

definition joint_read_hardware_values :: "('s, 'w) servo_class \<Rightarrow> ('s, 'w) joint_call" where
  "joint_read_hardware_values c j w =
     (if \<not> j_driver j then Some (j, w, NOT_INITIALIZED)
      else case visit_all (seen c j (sc_read c)) (servos j) w of
        None \<Rightarrow> None
      | Some (ss, w, rcs) \<Rightarrow>
          (let j = j\<lparr>servos := ss\<rparr>; e = first_error (filter (\<lambda>rc. rc \<noteq> STALL) rcs)
           in if e \<noteq> SUCCESS then Some (j\<lparr>stalled_position := Fin 0\<rparr>, w, e)
              else if STALL \<in> set rcs
              then Some (j\<lparr>stalled_position := joint_pos_relative c j, tele_pos := joint_pos_relative c j\<rparr>, w, SUCCESS)
              else Some (j\<lparr>stalled_position := Fin 0\<rparr>, w, SUCCESS)))"

definition hold_at_current_position :: "('s, 'w) servo_class \<Rightarrow> ('s, 'w) joint_call" where
  "hold_at_current_position c j w =
     (let curr = joint_pos_relative c j in joint_move c curr (j\<lparr>prev_target_pos := curr, target_pos := curr\<rparr>) w)"

section \<open>Spring\<close>

definition calc_spring_force :: "('s, 'w) servo_class \<Rightarrow> 's joint \<Rightarrow> flt" where
  "calc_spring_force c j =
     (let displacement = fsub binary32 (joint_pos_absolute c j) (get_spring_home_pos_absolute c j);
          displacement_preload = fdiv binary32 (spring_preload j) (spring_constant j);
          adjusted_displacement = fadd binary32 displacement displacement_preload;
          adjusted_spring_type = (if spring_invert j then - spring_type j else spring_type j);
          pull = fmul binary32 (fneg (spring_constant j)) adjusted_displacement;
          spring_torque =
            (if spring_type j = 2 then pull
             else if adjusted_spring_type = 1 then (if flt_lt (Fin 0) adjusted_displacement then pull else Fin 0)
             else if adjusted_spring_type = -1 then (if flt_lt adjusted_displacement (Fin 0) then pull else Fin 0)
             else Fin 0)
      in clipping spring_torque (torq_min j) (torq_max j))"

definition apply_spring_force :: "('s, 'w) servo_class \<Rightarrow> flt \<Rightarrow> bool \<Rightarrow> ('s, 'w) joint_call" where
  "apply_spring_force c base_torque commandline_flag j w =
     (let spring_force = (if commandline_flag \<and> spring_force_config j \<and> spring_enabled j then calc_spring_force c j else Fin 0)
      in joint_apply_torque c (fadd binary32 spring_force base_torque) j w)"

definition change_control_mode_for_spring :: "'s joint \<Rightarrow> 's joint \<times> ReturnCode" where
  "change_control_mode_for_spring j = (j\<lparr>spring_enabled := spring_force_config j\<rparr>, SUCCESS)"

definition joint_change_control_mode_for_leader :: "('s, 'w) servo_class \<Rightarrow> nat \<Rightarrow> ('s, 'w) joint_call" where
  "joint_change_control_mode_for_leader c current_time j w =
     (let (j, rc) = change_control_mode_for_spring j
      in if rc \<noteq> SUCCESS then Some (j, w, rc)
         else forward c (sc_leader c)
                (j\<lparr>j_prev_pos := joint_pos_relative c j, last_significant_change_time := current_time\<rparr>) w)"

section \<open>Detectors\<close>

text \<open>\<^verbatim>\<open>update_stability\<close>; times are in microseconds and their difference is truncated to milliseconds.\<close>

definition update_stability :: "('s, 'w) servo_class \<Rightarrow> nat \<Rightarrow> 's joint \<Rightarrow> 's joint \<times> bool" where
  "update_stability c step_started_time j =
     (let pos = joint_pos_absolute c j; delta_pos = fabs (fsub binary32 pos (j_prev_pos j));
          j = (if last_significant_change_time j = 0 \<or> flt_lt (threshold_angle_change j) delta_pos
               then j\<lparr>last_significant_change_time := step_started_time, j_prev_pos := pos\<rparr> else j);
          ms = (step_started_time - last_significant_change_time j) div 1000
      in (j, flt_lt (threshold_time_sec j) (fdiv binary64 (of_int_f binary64 (int ms)) (Fin 1000))))"

definition READY_MOVE_STUCK_POS_DELTA_RAD :: flt where
  "READY_MOVE_STUCK_POS_DELTA_RAD = fround binary32 (1 / 10000)"

definition READY_MOVE_STUCK_ITER_THRESHOLD :: int where "READY_MOVE_STUCK_ITER_THRESHOLD = 200"

definition reset_stuck_counter :: "('s, 'w) servo_class \<Rightarrow> 's joint \<Rightarrow> 's joint" where
  "reset_stuck_counter c j =
     j\<lparr>stuck_last_pos_rad := joint_pos_relative c j, stuck_iter_count := 0, stuck_latched := False\<rparr>"

definition update_and_check_stuck :: "('s, 'w) servo_class \<Rightarrow> 's joint \<Rightarrow> 's joint \<times> bool" where
  "update_and_check_stuck c j =
     (let curr_pos = joint_pos_relative c j;
          move_delta = fabs (fsub binary32 curr_pos (stuck_last_pos_rad j));
          displacement = fabs (fsub binary32 (target_pos j) curr_pos);
          count = (if flt_lt (pos_error_margin j) displacement \<and> flt_lt move_delta READY_MOVE_STUCK_POS_DELTA_RAD
                   then stuck_iter_count j + 1 else 0);
          j = j\<lparr>stuck_last_pos_rad := curr_pos, stuck_iter_count := count,
                stuck_latched := (READY_MOVE_STUCK_ITER_THRESHOLD < count \<or> stuck_latched j)\<rparr>
      in (j, stuck_latched j))"

section \<open>Grip limiter and teleoperation target\<close>

text \<open>The derated limit: the factor is computed in \<^verbatim>\<open>double\<close>, the product stored as \<^verbatim>\<open>float\<close>.\<close>

definition derated_limit :: "flt \<Rightarrow> flt \<Rightarrow> flt" where
  "derated_limit temp limit =
     (if flt_le (Fin 60) temp
      then let capped = (if flt_lt temp (Fin 90) then temp else Fin 90);
               factor = fsub binary64 (Fin 1) (fdiv binary64 (fsub binary64 capped (Fin 60)) (Fin 30))
           in narrow binary32 (fmul binary64 limit factor)
      else limit)"

definition clamp_target_to_grip_torque_limit :: "('s, 'w) servo_class \<Rightarrow> flt \<Rightarrow> 's joint \<Rightarrow> 's joint \<times> flt" where
  "clamp_target_to_grip_torque_limit c target j =
     (let j = j\<lparr>last_grip_requested_target_pos := target, last_grip_applied_target_pos := target, grip_limiter_active := False\<rparr>
      in if flt_le (grip_torque_limit_nm j) (Fin 0) \<or> servos j = [] \<or> int (length (servos j)) \<le> reference_servo_index j
         then (j, target)
      else let kp = sc_effective_kp c (reference_servo j)
      in if flt_le kp (Fin 0) then (j, target)
      else let limit = derated_limit (temperature (sc_base c (reference_servo j))) (grip_torque_limit_nm j);
               window = fdiv binary32 limit kp;
               current = joint_pos_relative c j;
               clamped = clipping target (fsub binary32 current window) (fadd binary32 current window)
           in (j\<lparr>last_grip_applied_target_pos := clamped, grip_limiter_active := (\<not> flt_eq clamped target)\<rparr>, clamped))"

definition set_tele_pos_rad :: "flt \<Rightarrow> 's joint \<Rightarrow> 's joint" where
  "set_tele_pos_rad tele j =
     (let j = (if \<not> flt_eq (stalled_position j) (Fin 0)
               then (if flt_lt (Fin 0) (tele_pos_moving_dir j) \<and> flt_lt tele (stalled_position j)
                     then j\<lparr>stalled_position := Fin 0\<rparr>
                     else if flt_lt (tele_pos_moving_dir j) (Fin 0) \<and> flt_lt (stalled_position j) tele
                     then j\<lparr>stalled_position := Fin 0\<rparr>
                     else j)
               else j\<lparr>tele_pos_moving_dir := fsub binary32 (tele_pos j) (prev_tele_pos j), prev_tele_pos := tele_pos j\<rparr>)
      in j\<lparr>tele_pos := tele\<rparr>)"

definition set_tele_vel_rad_sec :: "flt \<Rightarrow> 's joint \<Rightarrow> 's joint" where
  "set_tele_vel_rad_sec vel j = j\<lparr>tele_vel := vel\<rparr>"

definition set_tele_tor_nm :: "flt \<Rightarrow> 's joint \<Rightarrow> 's joint" where
  "set_tele_tor_nm tor j = j\<lparr>tele_tor := tor\<rparr>"

definition joint_safe_tele_pos_rad :: "('s, 'w) servo_class \<Rightarrow> flt \<Rightarrow> 's joint \<Rightarrow> flt" where
  "joint_safe_tele_pos_rad c tele j = sc_safe_tele c (reference_servo j) tele"

section \<open>Configuration\<close>

text \<open>A configured joint: its reference servo exists, its speed limits are positive, its normalised range lies in the raw one.\<close>

definition joint_config_inv :: "('s, 'w) servo_class \<Rightarrow> 's joint \<Rightarrow> bool" where
  "joint_config_inv c j \<longleftrightarrow> joint_ok j \<and>
     positive_finite (j_vel_max j) \<and> positive_finite (accel_max j) \<and> positive_finite (follow_vel_max j) \<and>
     (has_normalized_position_range j \<longrightarrow>
        flt_le (get_pos_min_relative c j) (normalized_pos_min j) \<and> flt_lt (normalized_pos_min j) (normalized_pos_max j) \<and>
        flt_le (normalized_pos_max j) (get_pos_max_relative c j))"

lemma joint_limits_frame [simp]:
  "servos (joint_individual_limits cfg j) = servos j"
  "reference_servo_index (joint_individual_limits cfg j) = reference_servo_index j"
  by (simp_all add: joint_individual_limits_def Let_def)

lemma joint_individual_ok:
  assumes "joint_init_config_individual cfg j = (j', SUCCESS)"
  shows "joint_ok j'" "servos j' = servos j" "positive_finite (j_vel_max j')" "positive_finite (accel_max j')"
    "positive_finite (follow_vel_max j')"
  using assms unfolding joint_init_config_individual_def joint_ok_def
  by (simp_all add: Let_def split: if_split_asm) auto

lemma validated_range:
  assumes "validate_normalized_position_range c j = SUCCESS" "has_normalized_position_range j"
  shows "flt_le (get_pos_min_relative c j) (normalized_pos_min j) \<and> flt_lt (normalized_pos_min j) (normalized_pos_max j) \<and>
    flt_le (normalized_pos_max j) (get_pos_max_relative c j)"
proof -
  let ?a = "get_pos_min_relative c j" and ?b = "get_pos_max_relative c j"
    and ?p = "normalized_pos_min j" and ?q = "normalized_pos_max j"
  have "isfinite ?a" "isfinite ?b" "isfinite ?p" "isfinite ?q" "\<not> flt_le ?q ?p" "\<not> flt_lt ?p ?a" "\<not> flt_lt ?b ?q"
    using assms unfolding validate_normalized_position_range_def by (simp_all add: Let_def split: if_split_asm)
  then show ?thesis using finite_not_le [of ?p ?q] finite_not_lt [of ?a ?p] finite_not_lt [of ?q ?b] by blast
qed

lemma individual_joints_inv:
  "(\<And>cfg svs svs' rc. ind cfg svs = (svs', rc) \<Longrightarrow> length svs' = length svs) \<Longrightarrow>
   individual_joints c ind cfgs js = (js', SUCCESS) \<Longrightarrow> \<forall>j \<in> set js'. joint_config_inv c j"
proof (induction c ind cfgs js arbitrary: js' rule: individual_joints.induct)
  case (3 c ind cfg cfgs j js)
  obtain j1 r1 where 1: "joint_init_config_individual cfg j = (j1, r1)" by fastforce
  obtain svs r2 where 2: "ind cfg (servos j1) = (svs, r2)" by fastforce
  let ?j = "j1\<lparr>servos := svs\<rparr>"
  obtain js1 r3 where 3: "individual_joints c ind cfgs js = (js1, r3)" by fastforce
  have ok: "r1 = SUCCESS" "r2 = SUCCESS" "validate_normalized_position_range c ?j = SUCCESS" "r3 = SUCCESS" "js' = ?j # js1"
    using "3.prems"(2) by (simp_all add: 1 2 3 Let_def split: if_split_asm)
  note i = joint_individual_ok [OF 1 [unfolded ok(1)]]
  have "joint_config_inv c ?j"
    using i "3.prems"(1) [OF 2] validated_range [OF ok(3)] by (auto simp: joint_config_inv_def joint_ok_def)
  moreover have "\<forall>j \<in> set js1. joint_config_inv c j" using "3.IH" [OF 1 [symmetric] refl _ 2 [symmetric]] 3 ok "3.prems"(1) by simp
  ultimately show ?case using ok(5) by simp
qed (auto split: if_split_asm)

text \<open>What the factory relies on of the servos' individual configuration: it does not change their number.\<close>

locale servo_configurator =
  fixes ind :: "json \<Rightarrow> 's list \<Rightarrow> 's list \<times> ReturnCode"
  assumes same_number: "ind cfg svs = (svs', rc) \<Longrightarrow> length svs' = length svs"
begin

lemma factory_result:
  assumes "new_joints c g drv mk ind del model individual joints w = (joints', w', rc)"
  shows "rc = SUCCESS \<and> (\<exists>js. joints' = joints @ js \<and> (\<forall>j \<in> set js. joint_config_inv c j)) \<or> rc \<noteq> SUCCESS \<and> joints' = joints"
proof -
  have i: "individual_joints c ind cfgs js = (js', SUCCESS) \<Longrightarrow> \<forall>j \<in> set js'. joint_config_inv c j" for cfgs js js'
    by (rule individual_joints_inv [OF same_number])
  show ?thesis using assms unfolding new_joints_def
    by (auto simp: Let_def dest: i split: option.splits if_split_asm prod.splits)
qed

end

lemma individual_loop_length: "individual_loop cfgs svs = (svs', rc) \<Longrightarrow> length svs' = length svs"
  by (induction cfgs svs arbitrary: svs' rc rule: individual_loop.induct) (auto simp: Let_def split: prod.splits if_split_asm)

interpretation base_configurator: servo_configurator "\<lambda>cfg svs. init_config_individual_all cfg False svs"
  by unfold_locales (auto simp: init_config_individual_all_def split: option.splits if_split_asm dest: individual_loop_length)

section \<open>Loops over the servos\<close>

lemma visit_all_calls:
  "visit_all f ss w = Some (ss', w', rcs) \<Longrightarrow>
   length rcs = length ss \<and> list_all2 (\<lambda>s (s', rc). \<exists>w1 w2. f s w1 = Some (s', w2, rc)) ss (zip ss' rcs) \<and> length ss' = length ss"
proof (induction ss arbitrary: w ss' rcs)
  case (Cons s ss)
  then obtain s1 w1 rc1 ss1 rcs1 where "f s w = Some (s1, w1, rc1)" "visit_all f ss w1 = Some (ss1, w', rcs1)"
    "ss' = s1 # ss1" "rcs = rc1 # rcs1" by (auto split: option.splits)
  then show ?case using Cons.IH by auto
qed simp

lemma first_error_success: "first_error rcs = SUCCESS \<longleftrightarrow> set rcs \<subseteq> {SUCCESS}"
proof
  assume "first_error rcs = SUCCESS"
  then have "filter (\<lambda>rc. rc \<noteq> SUCCESS) rcs = []"
    by (cases "filter (\<lambda>rc. rc \<noteq> SUCCESS) rcs") (auto simp: first_error_def filter_eq_Cons_iff)
  then show "set rcs \<subseteq> {SUCCESS}" by (auto simp: filter_empty_conv)
next
  assume "set rcs \<subseteq> {SUCCESS}"
  then have "filter (\<lambda>rc. rc \<noteq> SUCCESS) rcs = []" by (auto simp: filter_empty_conv)
  then show "first_error rcs = SUCCESS" by (simp add: first_error_def)
qed

section \<open>The stuck detector\<close>

definition stuck_step :: "('s, 'w) servo_class \<Rightarrow> 's joint \<Rightarrow> 's list \<Rightarrow> 's joint" where
  "stuck_step c j ss = fst (update_and_check_stuck c (j\<lparr>servos := ss\<rparr>))"

text \<open>The joint is away from its target and has not moved since the last cycle.\<close>

definition no_progress :: "('s, 'w) servo_class \<Rightarrow> 's joint \<Rightarrow> 's list \<Rightarrow> bool" where
  "no_progress c j ss \<longleftrightarrow> (let p = joint_pos_relative c (j\<lparr>servos := ss\<rparr>)
     in flt_lt (pos_error_margin j) (fabs (fsub binary32 (target_pos j) p)) \<and>
        flt_lt (fabs (fsub binary32 p (stuck_last_pos_rad j))) READY_MOVE_STUCK_POS_DELTA_RAD)"

lemma stuck_step_fields:
  "stuck_iter_count (stuck_step c j ss) = (if no_progress c j ss then stuck_iter_count j + 1 else 0)"
  "stuck_latched (stuck_step c j ss) = (200 < stuck_iter_count (stuck_step c j ss) \<or> stuck_latched j)"
  "snd (update_and_check_stuck c (j\<lparr>servos := ss\<rparr>)) = stuck_latched (stuck_step c j ss)"
  by (simp_all add: stuck_step_def update_and_check_stuck_def no_progress_def Let_def READY_MOVE_STUCK_ITER_THRESHOLD_def)

interpretation stuck: consecutive_trigger "stuck_step c" "no_progress c" stuck_latched stuck_iter_count "\<lambda>_. 201" for c
  by unfold_locales (auto simp: stuck_step_fields)

lemma stuck_run_latched: "stuck_latched j \<Longrightarrow> stuck_latched (foldl (stuck_step c) j is)"
  by (induction "is" arbitrary: j) (simp_all add: stuck_step_fields)

section \<open>The grip limiter\<close>

lemma derating_factor:
  assumes "60 \<le> T" "T \<le> 90"
  shows "\<exists>f. fsub binary64 (Fin 1) (fdiv binary64 (fsub binary64 (Fin T) (Fin 60)) (Fin 30)) = Fin f \<and> 0 \<le> f \<and> f \<le> 1 \<and> (T = 90 \<longrightarrow> f = 0)"
proof -
  obtain a where a: "fround binary64 (T - 60) = Fin a" "0 \<le> a" "a \<le> 30"
    using fround_between [of 0 "T - 60" 30 binary64] assms by (auto simp del: is_flt.simps)
  obtain b where b: "fround binary64 (a / 30) = Fin b" "0 \<le> b" "b \<le> 1"
    using fround_between [of 0 "a / 30" 1 binary64] a by (auto simp del: is_flt.simps)
  obtain f where f: "fround binary64 (1 - b) = Fin f" "0 \<le> f" "f \<le> 1"
    using fround_between [of 0 "1 - b" 1 binary64] b by (auto simp del: is_flt.simps)
  have "T = 90 \<Longrightarrow> a = 30" using a fround_exact [OF is_flt_small(3)] by simp
  then have "T = 90 \<Longrightarrow> f = 0" using b f fround_exact [OF is_flt_small(2)] by simp
  then show ?thesis using a b f by (simp add: fsub_def)
qed

text \<open>Derating keeps the limit between zero and its configured value, and a motor at the critical temperature has no torque left.\<close>

lemma derated_limit_range:
  assumes "is_flt binary32 (Fin l)" "0 \<le> l"
  shows "\<exists>d. derated_limit (Fin T) (Fin l) = Fin d \<and> 0 \<le> d \<and> d \<le> l \<and> (90 \<le> T \<longrightarrow> d = 0)"
proof (cases "60 \<le> T")
  case True
  define C where "C = min T 90"
  obtain f where f: "fsub binary64 (Fin 1) (fdiv binary64 (fsub binary64 (Fin C) (Fin 60)) (Fin 30)) = Fin f"
    "0 \<le> f" "f \<le> 1" "C = 90 \<longrightarrow> f = 0" using derating_factor [of C] True by (auto simp: C_def)
  have "l * f \<le> l" using assms(2) f by (simp add: mult_left_le)
  then obtain m where m: "fround binary64 (l * f) = Fin m" "0 \<le> m" "m \<le> l"
    using fround_between [of 0 "l * f" l binary64] assms f is_flt_widen [OF assms(1)] by (auto simp del: is_flt.simps)
  then obtain d where d: "fround binary32 m = Fin d" "0 \<le> d" "d \<le> l"
    using fround_between [of 0 m l binary32] assms by (auto simp del: is_flt.simps)
  have "90 \<le> T \<Longrightarrow> d = 0" using f(4) m d by (simp add: C_def)
  moreover have "(if flt_lt (Fin T) (Fin 90) then Fin T else Fin 90) = Fin C" by (auto simp: C_def)
  ultimately show ?thesis using True f m d by (simp add: derated_limit_def Let_def del: fadd.simps)
qed (use assms in \<open>simp add: derated_limit_def\<close>)

text \<open>Adding a window to a position does not go below it.\<close>

lemma window_around:
  assumes "flt_le (Fin 0) w" "is_flt binary32 (Fin p)"
  shows "flt_le (fsub binary32 (Fin p) w) (Fin p)" "flt_le (Fin p) (fadd binary32 (Fin p) w)"
proof -
  have "w = PInf \<or> (\<exists>a \<ge> 0. w = Fin a)" using assms(1) by (simp add: nonneg_iff)
  moreover have "flt_le (fround binary32 (p - a)) (Fin p) \<and> flt_le (Fin p) (fround binary32 (p + a))" if "0 \<le> a" for a
    using rnd_mono [of "p - a" p binary32] rnd_mono [of p "p + a" binary32] that assms(2)
    by (auto simp: fround_def Let_def flt_le_def)
  moreover have "flt_le NInf (Fin p)" "flt_le (Fin p) PInf" by (simp_all add: flt_le_def)
  ultimately show "flt_le (fsub binary32 (Fin p) w) (Fin p)" "flt_le (Fin p) (fadd binary32 (Fin p) w)"
    by (auto simp: fsub_def)
qed

text \<open>The grip limiter keeps the target in a window around the current position whose half width is the derated torque
  limit over the position gain. The window is never wider than the underated limit allows, contains the current
  position, and at the critical temperature it is that position alone. The published values agree with the result.
\<close>

theorem grip_target_bounded:
  assumes "joint_ok j" "grip_torque_limit_nm j = Fin l" "0 < l" "is_flt binary32 (Fin l)"
    "sc_effective_kp c (reference_servo j) = Fin k" "0 < k"
    "temperature (sc_base c (reference_servo j)) = Fin T" "joint_pos_relative c j = Fin p" "is_flt binary32 (Fin p)"
    "target \<noteq> NaN" "clamp_target_to_grip_torque_limit c target j = (j', t)"
  shows "\<exists>w. flt_le (Fin 0) w \<and> flt_le w (fround binary32 (l / k)) \<and>
      flt_le (fsub binary32 (Fin p) w) t \<and> flt_le t (fadd binary32 (Fin p) w) \<and>
      (90 \<le> T \<longrightarrow> t = Fin p) \<and> (T < 60 \<longrightarrow> w = fround binary32 (l / k)) \<and>
      (flt_le (fsub binary32 (Fin p) w) target \<and> flt_le target (fadd binary32 (Fin p) w) \<longrightarrow> t = target) \<and>
      last_grip_applied_target_pos j' = t \<and> (grip_limiter_active j' \<longleftrightarrow> t \<noteq> target)"
proof -
  obtain d where d: "derated_limit (Fin T) (Fin l) = Fin d" "0 \<le> d" "d \<le> l" "90 \<le> T \<longrightarrow> d = 0"
    using derated_limit_range [OF assms(4), of T] assms(3) by auto
  define w where "w = fdiv binary32 (Fin d) (Fin k)"
  let ?lo = "fsub binary32 (Fin p) w" and ?hi = "fadd binary32 (Fin p) w"
  have ne: "servos j \<noteq> []" "\<not> int (length (servos j)) \<le> reference_servo_index j" using assms(1) by (auto simp: joint_ok_def)
  have r: "t = clipping target ?lo ?hi" "last_grip_applied_target_pos j' = t" "grip_limiter_active j' = (\<not> flt_eq t target)"
    using assms(2,3,5-8,11) ne d(1)
    by (auto simp: clamp_target_to_grip_torque_limit_def Let_def w_def joint_pos_relative_def reference_servo_def)
  have w: "w = fround binary32 (d / k)" using assms(6) by (simp add: w_def)
  have w0: "flt_le (Fin 0) w" unfolding w using d(2) assms(6) by (intro fround_nonneg) simp
  note win = window_around [OF w0 assms(9)]
  have "flt_le ?lo ?hi" by (rule flt_le_trans [OF win])
  moreover have "?lo \<noteq> NaN" "?hi \<noteq> NaN" using win by (auto simp: flt_le_def)
  ultimately have in_win: "flt_le ?lo t" "flt_le t ?hi" using clipping_range [OF assms(10), of ?lo ?hi] r(1) by auto
  have "flt_le w (fround binary32 (l / k))"
    unfolding w using d(3) assms(6) by (intro fround_mono) (simp_all add: divide_right_mono)
  moreover have "t = Fin p" if "90 \<le> T"
    using in_win d(4) that assms(9) w by (simp add: fsub_def fround_exact flt_le_antisym)
  moreover have "w = fround binary32 (l / k)" if "T < 60" using that d(1) w by (simp add: derated_limit_def)
  moreover have "t = target" if "flt_le ?lo target" "flt_le target ?hi"
    using that r(1) by (simp add: clipping_def flt_le_not_lt)
  moreover have "flt_eq t target \<longleftrightarrow> t = target" using assms(10) by (cases target; cases t) auto
  ultimately show ?thesis using w0 in_win r(2,3) by blast
qed

text \<open>C33: The joint factory. When it succeeds, the joints it appended are configured: the reference servo exists, speed and
  acceleration limits are positive and finite, and a normalised range lies inside the servo's limits. When it fails, the
  caller's list is unchanged.
\<close>

theorem joint_configuration_sound:
  assumes "new_joints c g drv mk (\<lambda>cfg svs. init_config_individual_all cfg False svs) del model individual joints w
    = (joints', w', rc)"
  shows "rc = SUCCESS \<and> (\<exists>js. joints' = joints @ js \<and> (\<forall>j \<in> set js. joint_config_inv c j)) \<or> rc \<noteq> SUCCESS \<and> joints' = joints"
  by (rule base_configurator.factory_result [OF assms])

text \<open>The stuck detector of the ready move. After a reset a joint is reported stuck only if in 201 consecutive cycles it was away
  from its target and did not move; and the report stays until the next reset.
\<close>

theorem stuck_report_exact:
  assumes "stuck_latched (foldl (stuck_step c) (reset_stuck_counter c j) xs)"
  shows "replicate_in 201 (conds_of (stuck_step c) (no_progress c) (reset_stuck_counter c j) xs) \<and>
    (\<forall>ys. stuck_latched (foldl (stuck_step c) (reset_stuck_counter c j) (xs @ ys)))"
  using stuck.activation_needs_run [of "reset_stuck_counter c j" c xs] assms stuck_run_latched [of _ c]
  by (simp add: reset_stuck_counter_def)

text \<open>Parking a joint parks every servo in turn, also after a failure, and reports success exactly if all succeed.\<close>

lemma park_reaches_every_servo:
  assumes "joint_park_safely c j w = Some (j', w', rc)"
  shows "\<exists>rcs. length rcs = length (servos j) \<and> length (servos j') = length (servos j) \<and>
    list_all2 (\<lambda>s (s', r). \<exists>w1 w2. seen c j (sc_park c) s w1 = Some (s', w2, r)) (servos j) (zip (servos j') rcs) \<and>
    (rc = SUCCESS \<longleftrightarrow> set rcs \<subseteq> {SUCCESS})"
proof -
  obtain ss rcs where "visit_all (seen c j (sc_park c)) (servos j) w = Some (ss, w', rcs)" "j' = j\<lparr>servos := ss\<rparr>" "rc = first_error rcs"
    using assms by (auto simp: joint_park_safely_def split: option.splits)
  then show ?thesis using visit_all_calls [of "seen c j (sc_park c)" "servos j" w ss w' rcs] first_error_success [of rcs] by auto
qed

text \<open>
  A two-sided spring without stiffness has no defined torque: the preload is divided by the spring constant first, so the
  product is a NaN whatever the position, and the clipping passes it on.
\<close>

theorem stiffness_zero_spring_is_nan:
  assumes "spring_type j = 2" "spring_constant j = Fin 0"
  shows "calc_spring_force c j = NaN"
proof -
  have "fmul binary32 (Fin 0) (fadd binary32 d (fdiv binary32 a (Fin 0))) = NaN" for a d
    by (cases a; cases d) (auto simp: inf_of_def)
  then show ?thesis using assms by (simp add: calc_spring_force_def Let_def clipping_def)
qed

section \<open>Concrete joints\<close>

text \<open>A servo whose calls do nothing.\<close>

definition idle_call :: "(servo, unit) servo_call" where
  "idle_call s w = Some (s, w, SUCCESS)"

definition idle_servos :: "(servo, unit) servo_class" where
  "idle_servos = \<lparr>sc_base = servo_data.truncate, sc_upd = (\<lambda>f s. servo_data.extend (f (servo_data.truncate s)) (servo_data.more s)),
     sc_read = idle_call, sc_start = idle_call, sc_verify_operational = idle_call, sc_verify_fresh = (\<lambda>_ _. SUCCESS), sc_park = idle_call,
     sc_move = (\<lambda>_. idle_call), sc_move_full = (\<lambda>_ _ _. idle_call), sc_torque = (\<lambda>_. idle_call), sc_torque_damped = (\<lambda>_. idle_call),
     sc_leader = idle_call, sc_follower = idle_call, sc_effective_kp = pos_kp, sc_safe_tele = (\<lambda>_ t. t)\<rparr>"

definition sample_joint :: "flt \<Rightarrow> servo joint" where
  "sample_joint temp = (new_joint (\<lambda>_. Fin 0) True)\<lparr>grip_torque_limit_nm := Fin 3, target_pos := Fin 2,
     servos := [new_servo (sample_servo\<lparr>temperature := temp\<rparr>) False False]\<rparr>"

lemma sample_joint_facts:
  "joint_ok (sample_joint temp)" "joint_pos_relative idle_servos (sample_joint temp) = Fin 1"
  "sc_effective_kp idle_servos (reference_servo (sample_joint temp)) = Fin 30"
  "temperature (sc_base idle_servos (reference_servo (sample_joint temp))) = temp"
  "grip_torque_limit_nm (sample_joint temp) = Fin 3"
proof -
  show "joint_ok (sample_joint temp)" "sc_effective_kp idle_servos (reference_servo (sample_joint temp)) = Fin 30"
    "temperature (sc_base idle_servos (reference_servo (sample_joint temp))) = temp" "grip_torque_limit_nm (sample_joint temp) = Fin 3"
    by (simp_all add: sample_joint_def new_joint_def joint_ok_def reference_servo_def idle_servos_def new_servo_def servo_data.defs sample_servo_def)
  have "get_pos_rad_relative (servo_data.truncate s) = get_pos_rad_relative s" for s :: servo
    by (simp add: get_pos_rad_relative_def rel_of_abs_def servo_data.defs)
  then show "joint_pos_relative idle_servos (sample_joint temp) = Fin 1"
    by (simp add: joint_pos_relative_def sample_joint_def new_joint_def reference_servo_def idle_servos_def new_servo_def servo_data.defs
        get_pos_rad_relative_def rel_of_abs_def sample_servo_def of_int_dir fsub_def fround32_one)
qed

theorem grip_target_bounded_witness:
  "snd (clamp_target_to_grip_torque_limit idle_servos (Fin 2) (sample_joint (Fin 95))) = Fin 1"
proof -
  have f: "is_flt binary32 (Fin 3)" "is_flt binary32 (Fin 1)" by (simp_all add: flt_eval)
  obtain j' t where c: "clamp_target_to_grip_torque_limit idle_servos (Fin 2) (sample_joint (Fin 95)) = (j', t)" by fastforce
  have "t = Fin 1"
    using grip_target_bounded [OF sample_joint_facts(1,5) _ f(1) sample_joint_facts(3) _ sample_joint_facts(4,2) f(2) _ c] by auto
  then show ?thesis by (simp add: c)
qed

definition joint_model_cfg :: json where
  "joint_model_cfg = JObject [(''joints'', JArray [JObject [(''joint_id'', JInt 3), (''vel_max'', JInt 2), (''accel_max'', JInt 8)]])]"

definition joint_individual_cfg :: json where
  "joint_individual_cfg = JObject [(''joints'', JArray [JObject [(''servos'', JArray [sample_individual_cfg])]])]"

theorem joint_configuration_sound_witness:
  "\<exists>j. new_joints idle_servos (\<lambda>_. Fin 0) True (\<lambda>_ w. ([new_servo sample_servo False False], w, SUCCESS))
       (\<lambda>cfg svs. init_config_individual_all cfg False svs) (\<lambda>_ w. w) (Some joint_model_cfg) (Some joint_individual_cfg) [] ()
     = ([j], (), SUCCESS) \<and> joint_config_inv idle_servos j"
proof -
  have i: "int32 3 = 3" by (simp add: int32_def)
  obtain s where "init_config_individual sample_individual_cfg (new_servo sample_servo False False) = (s, SUCCESS)"
    by (simp add: init_config_individual_def sample_individual_cfg_def get_field_value_def Let_def new_servo_def sample_servo_def servo_data.defs
        individual_limits_def individual_gains_def opt_field_def wrap_config_ok_def of_int_f_eval fsub_def)
  then obtain j where j: "new_joints idle_servos (\<lambda>_. Fin 0) True (\<lambda>_ w. ([new_servo sample_servo False False], w, SUCCESS))
       (\<lambda>cfg svs. init_config_individual_all cfg False svs) (\<lambda>_ w. w) (Some joint_model_cfg) (Some joint_individual_cfg) [] ()
     = ([j], (), SUCCESS)"
    by (simp add: new_joints_def joint_model_cfg_def joint_individual_cfg_def joint_init_config_model_def get_field_value_def i Let_def
        joint_model_spring_def joint_model_torque_def joint_model_follow_def joint_model_position_def opt_field_def given_def of_int_f_eval
        positive_finite_def new_joint_def joint_init_config_individual_def joint_individual_limits_def init_config_individual_all_def
        validate_normalized_position_range_def has_normalized_position_range_def)
  show ?thesis using joint_configuration_sound [OF j] j by auto
qed

text \<open>A joint that stands still away from its target.\<close>

lemma standing_step:
  assumes "stuck_last_pos_rad j = Fin 1" "target_pos j = Fin 2" "pos_error_margin j = Fin 0" "reference_servo_index j = 0"
  shows "let j' = stuck_step idle_servos j (servos (sample_joint temp))
    in stuck_last_pos_rad j' = Fin 1 \<and> target_pos j' = Fin 2 \<and> pos_error_margin j' = Fin 0 \<and> reference_servo_index j' = 0 \<and>
       stuck_iter_count j' = stuck_iter_count j + 1"
proof -
  let ?ss = "servos (sample_joint temp)"
  have p: "joint_pos_relative idle_servos (j\<lparr>servos := ?ss\<rparr>) = Fin 1"
    using sample_joint_facts(2) [of temp] assms(4) by (simp add: joint_pos_relative_def reference_servo_def sample_joint_def new_joint_def)
  have "no_progress idle_servos j ?ss"
    using assms by (simp add: no_progress_def p Let_def fsub_def fround32_one READY_MOVE_STUCK_POS_DELTA_RAD_def) (simp add: flt_eval)
  then show ?thesis using assms(2-4) stuck_step_fields(1) [of idle_servos j ?ss]
    by (simp add: stuck_step_def update_and_check_stuck_def Let_def p)
qed

lemma standing_run:
  assumes "stuck_last_pos_rad j = Fin 1" "target_pos j = Fin 2" "pos_error_margin j = Fin 0" "reference_servo_index j = 0"
  shows "stuck_iter_count (foldl (stuck_step idle_servos) j (replicate n (servos (sample_joint temp)))) = stuck_iter_count j + int n"
  using assms
proof (induction n arbitrary: j)
  case (Suc n)
  let ?j = "stuck_step idle_servos j (servos (sample_joint temp))"
  have "stuck_iter_count (foldl (stuck_step idle_servos) ?j (replicate n (servos (sample_joint temp)))) = stuck_iter_count ?j + int n"
    using standing_step [OF Suc.prems, of temp] by (intro Suc.IH) (simp_all add: Let_def)
  then show ?case using standing_step [OF Suc.prems, of temp] by (simp add: Let_def)
qed simp

theorem stuck_report_exact_witness:
  "stuck_latched (foldl (stuck_step idle_servos) (reset_stuck_counter idle_servos (sample_joint (Fin 30)))
     (replicate 201 (servos (sample_joint (Fin 30))) @ [[]]))"
proof -
  let ?j = "reset_stuck_counter idle_servos (sample_joint (Fin 30))" and ?ss = "servos (sample_joint (Fin 30))"
  have r: "stuck_last_pos_rad ?j = Fin 1" "target_pos ?j = Fin 2" "pos_error_margin ?j = Fin 0" "reference_servo_index ?j = 0"
    "stuck_iter_count ?j = 0"
    using sample_joint_facts(2) [of "Fin 30"] by (simp_all add: reset_stuck_counter_def sample_joint_def new_joint_def)
  let ?k = "foldl (stuck_step idle_servos) ?j (replicate 200 ?ss)"
  have s: "replicate 201 ?ss = replicate 200 ?ss @ [?ss]" using replicate_append_same [of 200 ?ss] by (simp flip: replicate_Suc)
  have f: "foldl (stuck_step idle_servos) ?j (replicate 201 ?ss) = stuck_step idle_servos ?k ?ss" by (simp only: s foldl_append foldl_Cons foldl_Nil)
  have "stuck_iter_count (stuck_step idle_servos ?k ?ss) = 201"
    using standing_run [OF r(1-4), of 201 "Fin 30"] r(5) f by simp
  then have "stuck_latched (foldl (stuck_step idle_servos) ?j (replicate 201 ?ss))"
    unfolding f using stuck_step_fields(2) [of idle_servos ?k ?ss] by simp
  then show ?thesis using stuck_report_exact by blast
qed

end
