(* ===== verification/Can_Joint.thy ===== *)
theory Can_Joint
  imports Joint Servo_Dm Can_Encoder
begin

text \<open>
  Joints on the CAN bus. A servo of such a joint is a \<^verbatim>\<open>ServoDm\<close> or a \<^verbatim>\<open>ServoCanPassiveEncoder\<close> object, and the joint calls it through
  the base class \<^verbatim>\<open>Servo\<close> of \<^verbatim>\<open>native/pi_control/include/pi_servo.hpp\<close>: the overridden functions of the two classes and the base
  class's defaults make the table of virtual functions. What a joint does with a table of which every call keeps the servo's
  identity, or transmits only the servo's own frames, is proved for any table and used for this one.
\<close>

section \<open>Virtual functions of the two classes\<close>

datatype any_servo = ADm servo_dm | AEnc encoder_servo

record can_world = mit +
  published :: "int list list"

fun any_base :: "any_servo \<Rightarrow> servo_data" where
  "any_base (ADm s) = servo_data.truncate s"
| "any_base (AEnc s) = servo_data.truncate s"

definition upd_data :: "(servo_data \<Rightarrow> servo_data) \<Rightarrow> 'a servo_data_scheme \<Rightarrow> 'a servo_data_scheme" where
  "upd_data f s = servo_data.extend (f (servo_data.truncate s)) (servo_data.more s)"

fun any_upd :: "(servo_data \<Rightarrow> servo_data) \<Rightarrow> any_servo \<Rightarrow> any_servo" where
  "any_upd f (ADm s) = ADm (upd_data f s)"
| "any_upd f (AEnc s) = AEnc (upd_data f s)"

type_synonym any_call = "(any_servo, can_world) servo_call"

fun on_dm :: "can_world mit_ops \<Rightarrow> dm_call \<Rightarrow> servo_dm \<Rightarrow> can_world \<Rightarrow> (any_servo \<times> can_world \<times> ReturnCode) option" where
  "on_dm ops c s w = (case dm_exec ops c s w of None \<Rightarrow> None | Some (s, w, rc) \<Rightarrow> Some (ADm s, w, rc))"

text \<open>What the table depends on: the driver's virtual functions, the slot assignment, the joystick topic and its publisher.\<close>

record can_env =
  env_ops :: "can_world mit_ops"
  env_idx :: "int \<Rightarrow> int"
  env_topic :: string
  env_pub :: "int list \<Rightarrow> ReturnCode"
  env_arrivals :: "can_frame list list"

text \<open>A command: the DM servo executes it, the encoder has only the given code.\<close>

fun any_command :: "can_env \<Rightarrow> dm_call \<Rightarrow> (encoder_servo \<Rightarrow> ReturnCode) \<Rightarrow> any_call" where
  "any_command e c r (ADm s) w = on_dm (env_ops e) c s w"
| "any_command e c r (AEnc s) w = Some (AEnc s, w, r s)"

fun any_start :: "can_env \<Rightarrow> any_call" where
  "any_start e (ADm s) w = on_dm (env_ops e) Start s w"
| "any_start e (AEnc s) w =
     (let (s, w, rc) = enc_start_hardware (env_idx e) (env_topic e) (env_arrivals e) s w in Some (AEnc s, w, rc))"

fun any_park :: "can_env \<Rightarrow> any_call" where
  "any_park e (ADm s) w = on_dm (env_ops e) Park s w"
| "any_park e (AEnc s) w = (let (s, rc) = enc_park_safely s in Some (AEnc s, w, rc))"

fun any_read :: "can_env \<Rightarrow> any_call" where
  "any_read e (ADm s) w = on_dm (env_ops e) ReadValues s w"
| "any_read e (AEnc s) w =
     (let (s, w, msg, rc) = enc_read_hardware_values (env_pub e) s w
      in Some (AEnc s, w\<lparr>published := published w @ (case msg of None \<Rightarrow> [] | Some b \<Rightarrow> [b])\<rparr>, rc))"

fun any_fresh :: "any_servo \<Rightarrow> can_world \<Rightarrow> ReturnCode" where
  "any_fresh (ADm s) w = verify_position_fresh s w"
| "any_fresh (AEnc s) w = enc_verify_position_fresh s w"

fun any_effective_kp :: "any_servo \<Rightarrow> flt" where
  "any_effective_kp (ADm s) = get_effective_pos_kp s"
| "any_effective_kp (AEnc s) = pos_kp s"

fun any_safe_tele :: "any_servo \<Rightarrow> flt \<Rightarrow> flt" where
  "any_safe_tele (ADm s) tele = get_safe_tele_pos_rad (safe_mode s) s tele"
| "any_safe_tele (AEnc s) tele = get_safe_tele_pos_rad (safe_mode s) s tele"

text \<open>The base class's default for a mode change does nothing.\<close>

definition no_call :: any_call where
  "no_call s w = Some (s, w, SUCCESS)"

definition can_servos :: "can_env \<Rightarrow> (any_servo, can_world) servo_class" where
  "can_servos e =
     \<lparr>sc_base = any_base, sc_upd = any_upd, sc_read = any_read e, sc_start = any_start e,
      sc_verify_operational = any_command e Verify (\<lambda>_. SUCCESS), sc_verify_fresh = any_fresh, sc_park = any_park e,
      sc_move = (\<lambda>p. any_command e (Move p) (enc_move p)),
      sc_move_full = (\<lambda>p v t. any_command e (MoveFull p v t) (enc_move_full p v t)),
      sc_torque = (\<lambda>t. any_command e (Torque t) (enc_apply_torque t)),
      sc_torque_damped = (\<lambda>t. any_command e (TorqueDamped t) (enc_apply_torque t)),
      sc_leader = no_call, sc_follower = no_call, sc_effective_kp = any_effective_kp, sc_safe_tele = any_safe_tele\<rparr>"

section \<open>Calls of a joint\<close>

datatype joint_op =
  JStart | JVerify | JPark | JRead | JMove flt | JMoveFull flt flt flt | JTorque flt | JTorqueDamped flt
| JHold | JSpring flt bool | JLeader nat | JFollower

fun joint_exec :: "('s, 'w) servo_class \<Rightarrow> joint_op \<Rightarrow> ('s, 'w) joint_call" where
  "joint_exec c JStart j w = joint_start_hardware c j w"
| "joint_exec c JVerify j w = joint_verify_operational c j w"
| "joint_exec c JPark j w = joint_park_safely c j w"
| "joint_exec c JRead j w = joint_read_hardware_values c j w"
| "joint_exec c (JMove p) j w = joint_move c p j w"
| "joint_exec c (JMoveFull p v t) j w = joint_move_full c p v t j w"
| "joint_exec c (JTorque t) j w = joint_apply_torque c t j w"
| "joint_exec c (JTorqueDamped t) j w = joint_apply_torque_with_damping c t j w"
| "joint_exec c JHold j w = hold_at_current_position c j w"
| "joint_exec c (JSpring b cmdline) j w = apply_spring_force c b cmdline j w"
| "joint_exec c (JLeader t) j w = joint_change_control_mode_for_leader c t j w"
| "joint_exec c JFollower j w = joint_change_control_mode_for_follower c j w"

text \<open>The calls a joint makes on a servo, as one predicate.\<close>

inductive servo_call_of :: "('s, 'w) servo_class \<Rightarrow> ('s, 'w) servo_call \<Rightarrow> bool" for c where
  "servo_call_of c (sc_read c)"
| "servo_call_of c (sc_start c)"
| "servo_call_of c (sc_verify_operational c)"
| "servo_call_of c (sc_park c)"
| "servo_call_of c (sc_move c p)"
| "servo_call_of c (sc_move_full c p v t)"
| "servo_call_of c (sc_torque c t)"
| "servo_call_of c (sc_torque_damped c t)"
| "servo_call_of c (sc_leader c)"
| "servo_call_of c (sc_follower c)"

text \<open>A loop over the servos that may stop early.\<close>

inductive visits :: "('s, 'w) servo_call \<Rightarrow> 's list \<Rightarrow> 'w \<Rightarrow> 's list \<Rightarrow> 'w \<Rightarrow> bool" for f where
  stop: "visits f ss w ss w"
| visit: "f s w = Some (s', w1, rc) \<Longrightarrow> visits f ss w1 ss' w' \<Longrightarrow> visits f (s # ss) w (s' # ss') w'"

lemma until_error_visits: "until_error f ss w = Some (ss', w', rc) \<Longrightarrow> visits f ss w ss' w'"
proof (induction ss arbitrary: w ss')
  case (Cons s ss)
  then obtain s1 w1 rc1 where f: "f s w = Some (s1, w1, rc1)" by (auto split: option.splits)
  show ?case
  proof (cases "rc1 = SUCCESS")
    case True
    then obtain ss1 where "until_error f ss w1 = Some (ss1, w', rc)" "ss' = s1 # ss1" using Cons.prems f by (auto split: option.splits)
    then show ?thesis using visits.visit [of f, OF f Cons.IH] by blast
  qed (use Cons.prems f visits.visit [of f, OF f visits.stop] in auto)
qed (simp add: visits.stop)

lemma visit_all_visits: "visit_all f ss w = Some (ss', w', rcs) \<Longrightarrow> visits f ss w ss' w'"
proof (induction ss arbitrary: w ss' rcs)
  case (Cons s ss)
  then obtain s1 w1 rc1 ss1 rcs1 where "f s w = Some (s1, w1, rc1)" "visit_all f ss w1 = Some (ss1, w', rcs1)" "ss' = s1 # ss1"
    by (auto split: option.splits)
  then show ?case using visits.visit Cons.IH by metis
qed (simp add: visits.stop)

text \<open>Every joint operation is one loop over its servos with one of these calls, on a joint that differs only in its own fields.\<close>

lemma forward_loop:
  assumes "forward c f j w = Some (j', w', rc)" "servo_call_of c f"
  shows "\<exists>f. servo_call_of c f \<and> visits (seen c j f) (servos j) w (servos j') w' \<and> reference_servo_index j' = reference_servo_index j"
proof -
  obtain ss where "until_error (seen c j f) (servos j) w = Some (ss, w', rc)" "j' = j\<lparr>servos := ss\<rparr>"
    using assms(1) by (auto simp: forward_def split: option.splits)
  then show ?thesis using until_error_visits [of "seen c j f"] assms(2) by auto
qed

lemma joint_exec_loop:
  assumes "joint_exec c op j w = Some (j', w', rc)"
  shows "\<exists>f j1. servo_call_of c f \<and> visits (seen c j1 f) (servos j) w (servos j') w' \<and> reference_servo_index j' = reference_servo_index j"
proof -
  define Q where "Q \<longleftrightarrow> (\<exists>f j1. servo_call_of c f \<and> visits (seen c j1 f) (servos j) w (servos j') w' \<and>
    reference_servo_index j' = reference_servo_index j)"
  have fwd: Q if "forward c f j1 w = Some (j', w', rc)" "servo_call_of c f" "servos j1 = servos j"
    "reference_servo_index j1 = reference_servo_index j" for f j1
    unfolding Q_def using forward_loop [OF that(1,2)] that(3,4) by auto
  have all: Q if "visit_all (seen c j f) (servos j) w = Some (servos j', w', rcs)" "servo_call_of c f"
    "reference_servo_index j' = reference_servo_index j" for f rcs
    unfolding Q_def using visit_all_visits [OF that(1)] that(2,3) by blast
  note d = joint_start_hardware_def joint_verify_operational_def joint_move_def joint_move_full_def joint_apply_torque_def
    joint_apply_torque_with_damping_def joint_change_control_mode_for_follower_def
  have Q
  proof (cases op)
    case JPark
    then obtain ss rcs where "visit_all (seen c j (sc_park c)) (servos j) w = Some (ss, w', rcs)" "j' = j\<lparr>servos := ss\<rparr>"
      using assms by (auto simp: joint_park_safely_def split: option.splits)
    then show Q using all [of "sc_park c" rcs] by (simp add: servo_call_of.intros)
  next
    case JRead
    show Q
    proof (cases "j_driver j")
      case True
      then obtain ss rcs where "visit_all (seen c j (sc_read c)) (servos j) w = Some (ss, w', rcs)" "servos j' = ss"
        "reference_servo_index j' = reference_servo_index j"
        using assms JRead by (auto simp: joint_read_hardware_values_def Let_def split: option.splits if_splits)
      then show Q using all [of "sc_read c" rcs] by (simp add: servo_call_of.intros)
    next
      case False
      then have "j' = j" "w' = w" using assms JRead by (simp_all add: joint_read_hardware_values_def)
      then show Q unfolding Q_def using servo_call_of.intros(1) [of c] visits.stop [of "seen c j (sc_read c)" "servos j" w] by blast
    qed
  next
    case JHold
    then show Q using assms by (auto simp: hold_at_current_position_def Let_def d intro: fwd servo_call_of.intros)
  next
    case (JSpring b f)
    then show Q using assms by (auto simp: apply_spring_force_def Let_def d intro: fwd servo_call_of.intros)
  next
    case (JLeader t)
    then show Q using assms
      by (auto simp: joint_change_control_mode_for_leader_def change_control_mode_for_spring_def intro: fwd servo_call_of.intros)
  qed (use assms in \<open>auto simp: d intro: fwd servo_call_of.intros\<close>)
  then show ?thesis unfolding Q_def .
qed

section \<open>Contracts\<close>

text \<open>A class whose calls keep the identity of the object.\<close>

locale servo_identity =
  fixes c :: "('s, 'w) servo_class" and tag :: "'s \<Rightarrow> 't"
  assumes call_tag: "servo_call_of c f \<Longrightarrow> f s w = Some (s', w', rc) \<Longrightarrow> tag s' = tag s"
    and view_tag: "tag (sc_upd c (\<lambda>d. d\<lparr>p_joint := x\<rparr>) s) = tag s"
begin

lemma seen_tag: "servo_call_of c f \<Longrightarrow> seen c j f s w = Some (s', w', rc) \<Longrightarrow> tag s' = tag s"
  using call_tag view_tag by (fastforce simp: seen_def)

lemma visits_tags: "visits (seen c j f) ss w ss' w' \<Longrightarrow> servo_call_of c f \<Longrightarrow> map tag ss' = map tag ss"
  by (induction rule: visits.induct) (simp_all add: seen_tag)

lemma joint_tags:
  assumes "joint_exec c op j w = Some (j', w', rc)"
  shows "map tag (servos j') = map tag (servos j) \<and> reference_servo_index j' = reference_servo_index j"
  using joint_exec_loop [OF assms] visits_tags by metis

lemma joint_stays_ok:
  assumes "joint_exec c op j w = Some (j', w', rc)" "joint_ok j"
  shows "joint_ok j'"
  using joint_tags [OF assms(1)] assms(2) map_eq_imp_length_eq [of tag "servos j'" tag "servos j"] by (simp add: joint_ok_def)

end

text \<open>Such a class on a bus, where a call for an object transmits only frames that belong to it.\<close>

locale servo_traffic = servo_identity c tag for c :: "('s, 'b bus_scheme) servo_class" and tag :: "'s \<Rightarrow> 't" +
  fixes own :: "'t \<Rightarrow> can_frame \<Rightarrow> bool"
  assumes call_sent: "servo_call_of c f \<Longrightarrow> f s w = Some (s', w', rc) \<Longrightarrow> sent (own (tag s)) w w'"
begin

lemma visits_sent:
  "visits (seen c j f) ss w ss' w' \<Longrightarrow> servo_call_of c f \<Longrightarrow> sent (\<lambda>fr. \<exists>s \<in> set ss. own (tag s) fr) w w'"
proof (induction rule: visits.induct)
  case (visit s w s' w1 rc ss ss' w')
  have "sent (own (tag s)) w w1" using call_sent [OF visit.prems] visit.hyps(1) view_tag by (fastforce simp: seen_def)
  then have "sent (\<lambda>fr. \<exists>s \<in> set (s # ss). own (tag s) fr) w w1" by (auto simp: sent_def)
  moreover have "sent (\<lambda>fr. \<exists>s \<in> set (s # ss). own (tag s) fr) w1 w'" using visit.IH [OF visit.prems] by (auto simp: sent_def)
  ultimately show ?case by (rule sent_trans)
qed (simp add: sent_refl)

lemma joint_sent:
  assumes "joint_exec c op j w = Some (j', w', rc)"
  shows "sent (\<lambda>fr. \<exists>s \<in> set (servos j). own (tag s) fr) w w'"
  using joint_exec_loop [OF assms] visits_sent by metis

end

section \<open>The CAN servos keep the contracts\<close>

fun any_tag :: "any_servo \<Rightarrow> bool \<times> int \<times> int" where
  "any_tag (ADm s) = (True, id_of s, data_index s)"
| "any_tag (AEnc s) = (False, id_of s, data_index s)"

definition encoder_frame :: "int \<Rightarrow> can_frame \<Rightarrow> bool" where
  "encoder_frame i f \<longleftrightarrow> f = handle_request i 0x02 \<or> f = handle_request i 0x0F"

fun can_own :: "bool \<times> int \<times> int \<Rightarrow> can_frame \<Rightarrow> bool" where
  "can_own (is_dm, i, _) f = (if is_dm then own_frame i f else encoder_frame i f)"

lemma can_own_class [simp]: "can_own (True, i, k) = own_frame i" "can_own (False, i, k) = encoder_frame i"
  by (simp_all add: fun_eq_iff)

lemma latch_identity:
  "latch_effector_thermal_fault ops code sv m = Some (sv', m', rc) \<Longrightarrow> id_of sv' = id_of sv \<and> data_index sv' = data_index sv"
  by (auto simp: latch_effector_thermal_fault_def Let_def split: if_splits option.splits)

lemma evaluate_identity:
  "evaluate_status ops code sv m = Some (sv', m', rc) \<Longrightarrow> id_of sv' = id_of sv \<and> data_index sv' = data_index sv"
  by (auto simp: evaluate_status_def Let_def split: if_splits dest: latch_identity)

lemma mit_read_identity:
  fixes sv :: "'a servo_dm_scheme"
  shows "id_of (fst (mit_read_hardware_values b m sv)) = id_of sv" "data_index (fst (mit_read_hardware_values b m sv)) = data_index sv"
  using kept_dm [OF mit_read_keeps [of b m sv]] by simp_all

lemma mit_read_identityD:
  fixes sv :: "'a servo_dm_scheme"
  assumes "mit_read_hardware_values b m sv = (sv', rc)"
  shows "id_of sv' = id_of sv \<and> data_index sv' = data_index sv"
  using mit_read_identity [of b m sv] by (simp add: assms)

lemma estimate_identity: "id_of (estimate_current sv) = id_of sv" "data_index (estimate_current sv) = data_index sv"
  by (simp_all add: estimate_current_def)

lemma dm_call_identity:
  assumes "dm_exec ops c sv m = Some (sv', m', rc)"
  shows "id_of sv' = id_of sv \<and> data_index sv' = data_index sv"
proof (cases c)
  case Start
  then show ?thesis using assms
    by (auto simp: start_hardware_def estimate_identity mit_read_identity split: if_splits option.splits dest!: latch_identity)
next
  case Verify
  then show ?thesis using assms
    by (auto simp: verify_operational_def Let_def split: if_splits option.splits prod.splits dest!: mit_read_identityD)
next
  case ReadValues
  have "?thesis" if "evaluate_status ops (snd (read_tail m sv)) (fst (read_tail m sv)) m = Some (sv', m', rc)"
    using evaluate_identity [OF that] by (simp add: read_tail_kept)
  then show ?thesis using assms ReadValues by (auto simp: dm_read_cases Let_def split: if_splits)
qed (use assms in \<open>auto simp: move_def move_full_def apply_torque_def apply_torque_with_damping_def issue_def
    park_safely_def split: if_splits option.splits bool.splits\<close>)

lemma probe_round_own:
  "probe_round sv m = Inr (sv', m') \<Longrightarrow> enc_kept sv' = enc_kept sv \<and> sent (encoder_frame (id_of sv)) m m'"
  "probe_round sv m = Inl (sv', m', rc) \<Longrightarrow> enc_kept sv' = enc_kept sv \<and> sent (encoder_frame (id_of sv)) m m'"
proof -
  assume "probe_round sv m = Inr (sv', m')"
  then have p: "poll_if_due (now m) (expire_poll (now m) sv) m = (sv', m', SUCCESS)"
    by (auto simp: probe_round_def Let_def split: if_splits prod.splits)
  from poll_effect(1) [OF p] show "enc_kept sv' = enc_kept sv \<and> sent (encoder_frame (id_of sv)) m m'"
    by (auto simp: sent_def encoder_frame_def)
next
  assume "probe_round sv m = Inl (sv', m', rc)"
  then show "enc_kept sv' = enc_kept sv \<and> sent (encoder_frame (id_of sv)) m m'" using probe_round_ends by (blast intro: sent_refl)
qed

lemma probe_own:
  "probe_loop idx d arrivals sv m = (sv', m', rc) \<Longrightarrow> enc_kept sv' = enc_kept sv \<and> sent (encoder_frame (id_of sv)) m m'"
proof (induction idx d arrivals sv m rule: probe_loop.induct)
  case (1 idx d arrivals sv m)
  show ?case
  proof (cases "d \<le> now m")
    case True
    then show ?thesis using "1.prems" by (simp add: probe_loop.simps sent_refl)
  next
    case False
    show ?thesis
    proof (cases "probe_round sv m")
      case (Inl r)
      then have "probe_round sv m = Inl (sv', m', rc)" using "1.prems" False by (simp add: probe_loop.simps)
      then show ?thesis by (rule probe_round_own)
    next
      case (Inr y)
      obtain s1 m1 where r: "probe_round sv m = Inr (s1, m1)" using Inr by (cases y) auto
      let ?m = "sleep_and_receive idx PASSIVE_ENCODER_START_WAIT (concat (take 1 arrivals)) m1"
      have k: "enc_kept s1 = enc_kept sv" "sent (encoder_frame (id_of sv)) m m1" using probe_round_own(1) [OF r] by auto
      have "probe_loop idx d (drop 1 arrivals) s1 ?m = (sv', m', rc)"
        using "1.prems" False by (subst (asm) probe_loop.simps) (simp add: r)
      then have ih: "enc_kept sv' = enc_kept s1" "sent (encoder_frame (id_of s1)) ?m m'" using "1.IH" [OF False r refl] by auto
      have "sent (encoder_frame (id_of sv)) m1 m'"
        using ih(2) enc_kept_fields [OF k(1)] by (simp add: sent_def sleep_and_receive_def usleep_def)
      then show ?thesis using sent_trans [OF k(2)] ih(1) k(1) by simp
    qed
  qed
qed

lemma enc_start_own:
  assumes "enc_start_hardware idx topic arrivals sv m = (sv', m', rc)"
  shows "id_of sv' = id_of sv \<and> data_index sv' = data_index sv \<and> sent (encoder_frame (id_of sv)) m m'"
  using assms by (auto simp: enc_start_hardware_def Let_def sent_refl enc_kept_def split: if_splits dest!: probe_own)

lemma enc_read_own:
  assumes "enc_read_hardware_values pub sv m = (sv', m', msg, rc)"
  shows "id_of sv' = id_of sv \<and> data_index sv' = data_index sv \<and> sent (encoder_frame (id_of sv)) m m'"
proof (cases "enc_ready sv")
  case True
  then obtain s m1 over where b: "enc_branch sv m = (s, m1, over)" and e: "tx m' = tx m1 \<and> sv' = s \<or>
     tx m' = tx m1 @ [handle_request (id_of sv) 0x02] \<and> poll_due (now m) s \<and> sv' = poll_sent (now m) s"
    using read_effect [OF _ _ assms] unfolding enc_ready_def by blast
  obtain k where k: "tx m1 = tx m @ restart_frames (id_of sv) k" using branch_effect(3) [OF b] by blast
  have "enc_kept sv' = enc_kept sv" using e branch_effect(1) [OF b] by auto
  moreover have "sent (encoder_frame (id_of sv)) m m'" using e k by (auto simp: sent_def encoder_frame_def restart_frames_def)
  ultimately show ?thesis by (simp add: enc_kept_def)
next
  case False
  then show ?thesis using assms
    by (auto simp: enc_ready_def enc_read_hardware_values_def get_received_encoder_data_def keep_previous_def sent_refl split: if_splits)
qed

lemma view_identity [simp]: "any_tag (any_upd (\<lambda>d. d\<lparr>p_joint := x\<rparr>) s) = any_tag s"
  by (cases s) (simp_all add: upd_data_def servo_data.defs)

lemma any_command_result:
  assumes "any_command e c r s w = Some (s', w', rc)" "motor_driver (env_ops e)"
  shows "any_tag s' = any_tag s \<and> sent (can_own (any_tag s)) w w'"
proof (cases s)
  case (ADm d)
  then obtain d' where "dm_exec (env_ops e) c d w = Some (d', w', rc)" "s' = ADm d'" using assms(1) by (auto split: option.splits)
  then show ?thesis using ADm dm_call_identity [of "env_ops e" c d w d' w' rc] motor_driver.call_own [OF assms(2)] by auto
qed (use assms in \<open>auto simp: sent_refl\<close>)

lemma any_read_result:
  assumes "any_read e s w = Some (s', w', rc)" "motor_driver (env_ops e)"
  shows "any_tag s' = any_tag s \<and> sent (can_own (any_tag s)) w w'"
proof (cases s)
  case (ADm d)
  then show ?thesis using assms any_command_result [of e ReadValues _ s w s' w' rc] by simp
next
  case (AEnc d)
  obtain d1 w1 msg rc1 where r: "enc_read_hardware_values (env_pub e) d w = (d1, w1, msg, rc1)" by (metis prod_cases4)
  then show ?thesis using assms AEnc enc_read_own [OF r] by (auto simp: sent_def)
qed

lemma any_start_result:
  assumes "any_start e s w = Some (s', w', rc)" "motor_driver (env_ops e)"
  shows "any_tag s' = any_tag s \<and> sent (can_own (any_tag s)) w w'"
proof (cases s)
  case (ADm d)
  then show ?thesis using assms any_command_result [of e Start _ s w s' w' rc] by simp
next
  case (AEnc d)
  obtain d1 w1 rc1 where r: "enc_start_hardware (env_idx e) (env_topic e) (env_arrivals e) d w = (d1, w1, rc1)" by (metis prod_cases3)
  then show ?thesis using assms AEnc enc_start_own [OF r] by (auto simp: sent_def)
qed

lemma any_park_result:
  assumes "any_park e s w = Some (s', w', rc)" "motor_driver (env_ops e)"
  shows "any_tag s' = any_tag s \<and> sent (can_own (any_tag s)) w w'"
proof (cases s)
  case (ADm d)
  then show ?thesis using assms any_command_result [of e Park _ s w s' w' rc] by simp
qed (use assms in \<open>auto simp: enc_park_safely_def sent_refl\<close>)

lemma can_call_result:
  assumes "servo_call_of (can_servos e) f" "f s w = Some (s', w', rc)" "motor_driver (env_ops e)"
  shows "any_tag s' = any_tag s \<and> sent (can_own (any_tag s)) w w'"
  using assms
  by (cases rule: servo_call_of.cases)
    (auto simp: can_servos_def no_call_def sent_refl
      dest: any_command_result any_read_result any_start_result any_park_result simp del: any_command.simps)

lemma can_traffic:
  assumes "motor_driver (env_ops e)"
  shows "servo_traffic (can_servos e) any_tag can_own"
proof
  fix x s
  show "any_tag (sc_upd (can_servos e) (\<lambda>d. d\<lparr>p_joint := x\<rparr>) s) = any_tag s" by (simp add: can_servos_def)
qed (use can_call_result [OF _ _ assms] in blast)+

text \<open>The environments of the two CAN drivers.\<close>

abbreviation mit_env :: "(int \<Rightarrow> int) \<Rightarrow> string \<Rightarrow> (int list \<Rightarrow> ReturnCode) \<Rightarrow> can_frame list list \<Rightarrow> can_env" where
  "mit_env idx topic pub arr \<equiv> \<lparr>env_ops = can_mit_ops idx, env_idx = idx, env_topic = topic, env_pub = pub, env_arrivals = arr\<rparr>"

interpretation mit_joint: servo_traffic "can_servos (mit_env idx topic pub arr)" any_tag can_own for idx topic pub arr
  by (rule can_traffic) (simp add: mit_driver.motor_driver_axioms)

section \<open>Parking and the thermal latch\<close>

fun any_parked :: "any_servo \<Rightarrow> bool" where
  "any_parked (ADm s) = parked s"
| "any_parked (AEnc s) = parked s"

fun any_latched :: "any_servo \<Rightarrow> bool" where
  "any_latched (ADm s) = thermal_fault_latched s"
| "any_latched (AEnc s) = False"

lemma upd_data_parts [simp]:
  fixes s :: servo_dm and t :: encoder_servo
  shows "parked (upd_data f s) = parked s" "thermal_fault_latched (upd_data f s) = thermal_fault_latched s"
    "parked (upd_data f t) = parked t"
  by (cases s; simp add: upd_data_def servo_data.defs) (cases s; cases t; simp add: upd_data_def servo_data.defs)+

lemma any_upd_parts [simp]: "any_parked (any_upd f s) = any_parked s" "any_latched (any_upd f s) = any_latched s"
  by (cases s; simp)+

lemma any_park_success: "any_park e s w = Some (s', w', SUCCESS) \<Longrightarrow> any_parked s'"
  by (cases s) (auto simp: park_safely_def enc_park_safely_def split: option.splits if_splits)

lemma any_park_again: "any_parked s \<Longrightarrow> \<exists>s'. any_park e s w = Some (s', w, SUCCESS)"
  by (cases s) (auto simp: park_safely_def enc_park_safely_def)

lemma visit_all_same_world:
  "\<forall>s \<in> set ss. \<forall>w. \<exists>s'. f s w = Some (s', w, SUCCESS) \<Longrightarrow> \<exists>ss'. visit_all f ss w = Some (ss', w, replicate (length ss) SUCCESS)"
proof (induction ss)
  case (Cons s ss)
  obtain s' where s: "f s w = Some (s', w, SUCCESS)" using Cons.prems by (meson list.set_intros(1))
  obtain ss' where "visit_all f ss w = Some (ss', w, replicate (length ss) SUCCESS)" using Cons by auto
  then show ?case by (simp add: s)
qed simp

text \<open>A loop that stops at the first error does not succeed if one of the calls fails in every state.\<close>

lemma until_error_refused:
  "until_error f ss w = Some (ss', w', rc) \<Longrightarrow> s \<in> set ss \<Longrightarrow> (\<And>w s' w' rc. f s w = Some (s', w', rc) \<Longrightarrow> rc \<noteq> SUCCESS) \<Longrightarrow> rc \<noteq> SUCCESS"
proof (induction ss arbitrary: w ss')
  case (Cons a ss)
  then obtain a1 w1 r1 where f: "f a w = Some (a1, w1, r1)" by (auto split: option.splits)
  show ?case
  proof (cases "r1 = SUCCESS")
    case True
    then obtain ss1 where "until_error f ss w1 = Some (ss1, w', rc)" using Cons.prems(1) f by (auto split: option.splits)
    moreover have "s \<in> set ss" using Cons.prems(2,3) f True by auto
    ultimately show ?thesis using Cons.IH Cons.prems(3) by blast
  qed (use Cons.prems(1) f in auto)
qed simp

definition drives :: "dm_call \<Rightarrow> bool" where
  "drives c \<longleftrightarrow> c \<noteq> Verify \<and> c \<noteq> Park \<and> c \<noteq> ReadValues"

lemma latched_command: "any_latched s \<Longrightarrow> drives c \<Longrightarrow> any_command e c r s w = Some (s', w', rc) \<Longrightarrow> rc = HARDWARE_FAULT"
  by (cases s; cases c) (auto simp: drives_def start_hardware_def move_def move_full_def apply_torque_def
      apply_torque_with_damping_def reject_if_thermal_fault_latched_def)

lemma latched_start: "any_latched s \<Longrightarrow> any_start e s w = Some (s', w', rc) \<Longrightarrow> rc = HARDWARE_FAULT"
  by (cases s) (auto simp: start_hardware_def reject_if_thermal_fault_latched_def)

lemma latched_forward:
  assumes "forward (can_servos e) f j w = Some (j', w', rc)" "s \<in> set (servos j)" "any_latched s"
    "\<And>s w s' w' rc. any_latched s \<Longrightarrow> f s w = Some (s', w', rc) \<Longrightarrow> rc = HARDWARE_FAULT"
  shows "rc \<noteq> SUCCESS"
proof -
  obtain ss where u: "until_error (seen (can_servos e) j f) (servos j) w = Some (ss, w', rc)"
    using assms(1) by (auto simp: forward_def split: option.splits)
  have "any_latched (sc_upd (can_servos e) g s)" for g using assms(3) by (simp add: can_servos_def)
  then have "r = HARDWARE_FAULT" if "seen (can_servos e) j f s w1 = Some (s1, w2, r)" for w1 s1 w2 r
    using that assms(4) unfolding seen_def by blast
  then show ?thesis using until_error_refused [OF u assms(2)] by blast
qed

section \<open>Properties\<close>

text \<open>A joint speaks for its own servos. Every frame that an operation of a joint causes belongs to one of its servos: a frame
  for that motor, or a poll or restart request to that encoder.
\<close>

theorem joint_traffic_is_its_own:
  assumes "joint_exec (can_servos (mit_env idx topic pub arr)) op j w = Some (j', w', rc)"
  shows "\<exists>new. tx w' = tx w @ new \<and> (\<forall>f \<in> set new. \<exists>s \<in> set (servos j). can_own (any_tag s) f)"
  using mit_joint.joint_sent [OF assms] unfolding sent_def .

text \<open>A parked joint. When parking reports success every servo of the joint is parked, and parking it again succeeds
  without a transmission.
\<close>

theorem parked_joint:
  assumes "joint_exec (can_servos e) JPark j w = Some (j', w', SUCCESS)"
  shows "(\<forall>s \<in> set (servos j'). any_parked s) \<and>
    (\<exists>j''. joint_exec (can_servos e) JPark j' w' = Some (j'', w', SUCCESS))"
proof -
  obtain rcs where p: "length rcs = length (servos j)" "length (servos j') = length (servos j)"
    "list_all2 (\<lambda>s (s', r). \<exists>w1 w2. seen (can_servos e) j (sc_park (can_servos e)) s w1 = Some (s', w2, r))
       (servos j) (zip (servos j') rcs)" "set rcs \<subseteq> {SUCCESS}"
    using park_reaches_every_servo [of "can_servos e" j w j' w' SUCCESS] assms by auto
  have all: "any_parked s" if mem: "s \<in> set (servos j')" for s
  proof -
    obtain i where i: "i < length (servos j')" "servos j' ! i = s" using mem unfolding in_set_conv_nth by blast
    have "rcs ! i \<in> set rcs" using i(1) p(1,2) by simp
    then have "rcs ! i = SUCCESS" using p(4) by blast
    then have "\<exists>w1 w2. seen (can_servos e) j (sc_park (can_servos e)) (servos j ! i) w1 = Some (s, w2, SUCCESS)"
      using list_all2_nthD [OF p(3), of i] i p(1,2) by auto
    then show ?thesis by (auto simp: seen_def can_servos_def dest: any_park_success)
  qed
  have "\<exists>ss. visit_all (seen (can_servos e) j' (sc_park (can_servos e))) (servos j') w' = Some (ss, w', replicate (length (servos j')) SUCCESS)"
    by (rule visit_all_same_world) (use all in \<open>auto simp: seen_def can_servos_def intro: any_park_again\<close>)
  then show ?thesis using all first_error_success [of "replicate (length (servos j')) SUCCESS"] by (auto simp: joint_park_safely_def)
qed

text \<open>C31: A joint with an overheated servo is not driven. As long as the thermal fault of one of its servos is latched, starting the
  joint, holding it and every position, torque and spring command fail.
\<close>

theorem latched_joint_refuses:
  assumes "s \<in> set (servos j)" "any_latched s" "op \<in> {JStart, JMove p, JMoveFull p v t, JTorque t, JTorqueDamped t, JHold, JSpring t b}"
    "joint_exec (can_servos e) op j w = Some (j', w', rc)"
  shows "rc \<noteq> SUCCESS"
proof -
  have c: "sc_move (can_servos e) q = any_command e (Move q) (enc_move q)"
    "sc_move_full (can_servos e) q v t = any_command e (MoveFull q v t) (enc_move_full q v t)"
    "sc_torque (can_servos e) q = any_command e (Torque q) (enc_apply_torque q)"
    "sc_torque_damped (can_servos e) q = any_command e (TorqueDamped q) (enc_apply_torque q)" for q
    by (simp_all add: can_servos_def)
  have d: "drives Start" "drives (Move q)" "drives (MoveFull q v t)" "drives (Torque q)" "drives (TorqueDamped q)" for q
    by (simp_all add: drives_def)
  have start: "sc_start (can_servos e) = any_start e" by (simp add: can_servos_def)
  have refused: False if "forward (can_servos e) (any_command e c r) j1 w = Some (j', w', SUCCESS)" "drives c" "servos j1 = servos j" for c r j1
    using latched_forward [OF that(1), of s] that(2,3) assms(1,2) latched_command by auto
  have started: False if "forward (can_servos e) (any_start e) j w = Some (j', w', SUCCESS)"
    using latched_forward [OF that assms(1,2) latched_start] by simp
  have hold: False if "forward (can_servos e) (any_command e (Move q) r) (j\<lparr>prev_target_pos := q, target_pos := q\<rparr>) w = Some (j', w', SUCCESS)" for q r
    using refused [OF that d(2)] by simp
  note refused = hold refused [OF _ d(2) refl] refused [OF _ d(3) refl] refused [OF _ d(4) refl] refused [OF _ d(5) refl]
  show ?thesis using assms(3,4)
    by (auto dest: refused started simp: joint_start_hardware_def joint_move_def joint_move_full_def joint_apply_torque_def
        joint_apply_torque_with_damping_def hold_at_current_position_def apply_spring_force_def Let_def c start)
qed

section \<open>Concrete joints on the bus\<close>

definition bus_world :: "mit \<Rightarrow> can_world" where
  "bus_world m = mit.extend m \<lparr>published = []\<rparr>"

definition trigger_joint :: "any_servo joint" where
  "trigger_joint = (new_joint (\<lambda>_. Fin 0) True)\<lparr>servos := [AEnc trigger]\<rparr>"

definition gripper_joint_obj :: "bool \<Rightarrow> any_servo joint" where
  "gripper_joint_obj latched = (new_joint (\<lambda>_. Fin 0) True)\<lparr>servos := [AEnc trigger, ADm (gripper\<lparr>thermal_fault_latched := latched\<rparr>)]\<rparr>"

lemma upd_view [simp]: "upd_data (\<lambda>d. d\<lparr>p_joint := x\<rparr>) s = s\<lparr>p_joint := x\<rparr>"
  by (cases s) (simp add: upd_data_def servo_data.defs)

lemma sample_joint_servos [simp]:
  "servos (gripper_joint_obj b) = [AEnc trigger, ADm (gripper\<lparr>thermal_fault_latched := b\<rparr>)]" "servos trigger_joint = [AEnc trigger]"
  "joint_view.truncate (gripper_joint_obj b) = \<lparr>tele_pos = Fin 0, torq_min = Fin 0, torq_max = Fin 0, torq_rescale = Fin 0, pos_error_margin = Fin 0\<rparr>"
  by (simp_all add: gripper_joint_obj_def trigger_joint_def new_joint_def joint_view.defs)

abbreviation quiet_env :: can_env where
  "quiet_env \<equiv> mit_env (\<lambda>_. 3) ''None'' (\<lambda>_. SUCCESS) []"

lemma trigger_joint_parks: "\<exists>j'. joint_exec (can_servos e) JPark trigger_joint w = Some (j', w, SUCCESS)"
  by (simp add: joint_park_safely_def trigger_joint_def new_joint_def seen_def can_servos_def enc_park_safely_def first_error_def)

theorem parked_joint_witness:
  "\<exists>j' j''. joint_exec (can_servos quiet_env) JPark trigger_joint (bus_world sample_mit) = Some (j', bus_world sample_mit, SUCCESS) \<and>
     joint_exec (can_servos quiet_env) JPark j' (bus_world sample_mit) = Some (j'', bus_world sample_mit, SUCCESS)"
  using trigger_joint_parks [of quiet_env] parked_joint [of quiet_env trigger_joint "bus_world sample_mit"] by blast

theorem latched_joint_refuses_witness:
  "\<exists>j' w' rc. joint_exec (can_servos quiet_env) (JTorque (Fin 1)) (gripper_joint_obj True) (bus_world (gripper_bus 1 40)) = Some (j', w', rc) \<and>
     rc \<noteq> SUCCESS"
proof -
  let ?j = "gripper_joint_obj True"
  obtain j' w' rc where e: "joint_exec (can_servos quiet_env) (JTorque (Fin 1)) ?j (bus_world (gripper_bus 1 40)) = Some (j', w', rc)"
    by (simp add: joint_apply_torque_def forward_def seen_def can_servos_def
        apply_torque_def reject_if_thermal_fault_latched_def enc_apply_torque_def)
  then show ?thesis
    using latched_joint_refuses [of "ADm (gripper\<lparr>thermal_fault_latched := True\<rparr>)" ?j, OF _ _ _ e] by simp
qed

theorem joint_traffic_is_its_own_witness:
  "\<exists>j' w' z. joint_exec (can_servos quiet_env) (JTorque (Fin 0)) (gripper_joint_obj False) (bus_world (gripper_bus 1 40)) = Some (j', w', SUCCESS) \<and>
     tx w' = [z] \<and> (own_frame 4 z \<or> encoder_frame 0x50E z)"
proof -
  let ?j = "gripper_joint_obj False" and ?w = "bus_world (gripper_bus 1 40)"
  have z: "fmul binary32 (Fin 0) (Fin 0) = Fin 0" "clipping (Fin 0) (Fin 0) (Fin 0) = Fin 0" by (simp_all add: clipping_def)
  have w: "dm_par ?w = dm_par (gripper_bus 1 40)" "sock ?w" "writes ?w = []" "tx ?w = []"
    by (simp_all add: bus_world_def mit.defs dm_par_def fun_eq_iff gripper_bus_fields)
  obtain z where "can_frame_to_command_dm_servo (dm_par ?w) 4 (Fin 0) (Fin 0) (Fin 0) (Fin 0) (Fin 0) = Built z"
    using zero_command_built [of "dm_par (gripper_bus 1 40)" 4 g_servo_dm_param_4310] actuated_params(2)
    by (auto simp: gripper_bus_fields w)
  then obtain j' w' where e: "joint_exec (can_servos quiet_env) (JTorque (Fin 0)) ?j ?w = Some (j', w', SUCCESS)" "tx w' = [z]"
    using gripper_fields
    by (simp add: joint_apply_torque_def forward_def seen_def can_servos_def
        apply_torque_def gripper_fields reject_if_thermal_fault_latched_def z issue_def enc_apply_torque_def
        can_mit_ops_def send_command_def w is_socket_open_def send_built_def send_frame_ok usleep_def)
  then show ?thesis
    using joint_traffic_is_its_own [OF e(1)] by (auto simp: trigger_fields gripper_fields w)
qed

end
