(* ===== verification/Device.thy ===== *)
theory Device
  imports Joint
begin

text \<open>
  The device base class, \<^verbatim>\<open>native/pi_control/src/pi_device.cpp\<close> and \<^verbatim>\<open>include/pi_device.hpp\<close>: one control cycle with its two state
  machines (a commanded move to the ready position, emergency recovery), the watchdogs on the control loop and on the client,
  start and stop, and the factory. A concrete device extends the record; its virtual functions and its collaborators (driver, topic, clock)
  are a record of functions. What a device has published through its topic is a list of events; the topic's two flags, running and
  paused, stand beside it. Times are in microseconds.
\<close>

section \<open>State\<close>

datatype MoveToReadyCmdState = CMD_IDLE | CMD_REQUESTED | CMD_MOVING | CMD_RESTORE
datatype EmergencyRecoveryState = EM_NONE | EM_REQUESTED | EM_MOVING_SLOW | EM_COMPLETED | EM_TIMED_OUT
datatype ControlModeIntent = NORMAL_OPERATION | READY_MOVE_OVERRIDE

record cla_args =
  cla_role :: Role
  cla_device_model :: string
  cla_planning_type :: string
  cla_force_feedback :: flt
  cla_control_frequency :: int
  cla_emergency_shutdown_timeout_ms :: int
  cla_move_to_ready_vel_rad_s_normal :: flt
  cla_move_to_ready_vel_rad_s_error :: flt
  cla_dont_go_to_home_pos :: bool
  cla_msg_type :: MsgType

record device =
  is_normal_status :: bool
  is_ready :: bool
  is_driver_created_by_this :: bool
  is_topic_created_by_this :: bool
  is_read_only :: bool
  has_driver :: bool
  has_topic :: bool
  has_algo :: bool
  d_role :: Role
  d_mode :: DeviceMode
  d_type :: DeviceType
  enabled_spring_effect :: bool
  enabled_force_feedback :: bool
  dof :: int
  servo_num :: int
  dof_total :: int
  servo_num_total :: int
  init_count :: int
  reached_cnt :: int
  ready_move_budget_total :: int
  ready_move_budget_used :: int
  follower_gravity_compensation :: bool
  d_msg_type :: MsgType
  control_frequency :: int
  cla :: cla_args
  move_to_ready_cmd_state :: MoveToReadyCmdState
  move_to_ready_request_id :: int
  completed_move_to_ready_request_id :: int
  stop_after_ready :: bool
  logged_recovery_publish_gate :: bool
  client_heartbeat_seen :: bool
  client_watchdog_tripped :: bool
  last_client_heartbeat :: nat
  emergency_state :: EmergencyRecoveryState
  slow_move_active :: bool
  emergency_cause :: int
  emergency_failed_joint_id :: int
  last_failed_joint_id :: int
  failed_joint_ids :: "int list"
  emergency_start_time :: nat
  last_recovery_progress_publish :: nat
  last_step_heartbeat :: nat
  emergency_completed_published :: bool
  last_ready_move_progress_publish :: nat

record data_joint =
  msg_pos :: flt
  msg_vel :: flt
  msg_tor :: flt
  msg_temperature :: flt
  msg_idc_current :: flt
  msg_frame_age_ms :: flt

datatype topic_event =
  PubJoints "data_joint list"
| PubInfo int "flt list" "int list"
| PubEffector "flt list"

record 'w node =
  n_drv :: 'w
  n_events :: "topic_event list"
  n_running :: bool
  n_paused :: bool
  n_msg_id :: u32

type_synonym ('d, 'w) dcall = "'d \<times> 'w node \<Rightarrow> (('d \<times> 'w node) \<times> ReturnCode) option"

text \<open>The virtual functions of a concrete device, and its collaborators.\<close>

record ('d, 'w) device_class =
  vd_park :: "('d, 'w) dcall"
  vd_read :: "('d, 'w) dcall"
  vd_write :: "('d, 'w) dcall"
  vd_move_to_ready :: "('d, 'w) dcall"
  vd_leader :: "('d, 'w) dcall"
  vd_follower :: "('d, 'w) dcall"
  vd_set_control_mode :: "Role \<Rightarrow> ControlModeIntent \<Rightarrow> ('d, 'w) dcall"
  vd_clear_buffers :: "nat \<Rightarrow> 'd \<Rightarrow> 'd"
  vd_reset_ready :: "'d \<Rightarrow> 'd"
  vd_observation :: "'d \<times> 'w node \<Rightarrow> (('d \<times> 'w node) \<times> data_joint list \<times> ReturnCode) option"
  vd_completion_ratio :: "'d \<Rightarrow> 'd \<times> flt"
  vd_force_feedback :: "bool \<Rightarrow> flt \<Rightarrow> ('d, 'w) dcall"
  vd_hold :: "('d, 'w) dcall"
  vd_open :: "'w \<Rightarrow> 'w \<times> ReturnCode"
  vd_close :: "'w \<Rightarrow> 'w \<times> ReturnCode"
  vd_arm :: "'w \<Rightarrow> 'w \<times> ReturnCode"
  vd_now :: "'w \<Rightarrow> nat"
  vd_publish :: "topic_event \<Rightarrow> 'd \<times> 'w node \<Rightarrow> 'w node \<times> ReturnCode"
  vd_topic_step :: "'d \<times> 'w node \<Rightarrow> ('d \<times> 'w node) option"

definition now_of :: "('d, 'w) device_class \<Rightarrow> 'w node \<Rightarrow> nat" where
  "now_of c n = vd_now c (n_drv n)"

section \<open>Accessors\<close>

definition is_in_emergency_recovery :: "'a device_scheme \<Rightarrow> bool" where
  "is_in_emergency_recovery d \<longleftrightarrow> emergency_state d \<noteq> EM_NONE"

definition is_startup_ready_phase :: "'a device_scheme \<Rightarrow> bool" where
  "is_startup_ready_phase d \<longleftrightarrow> move_to_ready_cmd_state d = CMD_IDLE \<and> \<not> is_in_emergency_recovery d"

definition is_in_any_move_to_ready_state :: "'a device_scheme \<Rightarrow> bool" where
  "is_in_any_move_to_ready_state d \<longleftrightarrow>
     \<not> is_ready d \<or> move_to_ready_cmd_state d \<noteq> CMD_IDLE \<or> emergency_state d \<noteq> EM_NONE"

definition rejects_direct_commands :: "'a device_scheme \<Rightarrow> bool" where
  "rejects_direct_commands d \<longleftrightarrow> emergency_state d \<noteq> EM_NONE \<or> move_to_ready_cmd_state d \<noteq> CMD_IDLE"

definition is_force_feedback_enabled :: "'a device_scheme \<Rightarrow> bool" where
  "is_force_feedback_enabled d \<longleftrightarrow>
     d_role d = LEADER \<and> enabled_force_feedback d \<and> flt_le (Fin 0) (cla_force_feedback (cla d))"

definition wants_comm_loss_stop :: "'a device_scheme \<Rightarrow> bool" where
  "wants_comm_loss_stop d \<longleftrightarrow> d_role d \<noteq> FOLLOWER"

text \<open>What the servos see of the device through their back pointer.\<close>

definition device_view_of :: "'a device_scheme \<Rightarrow> device_view" where
  "device_view_of d =
     \<lparr>dev_type = d_type d, dev_role = d_role d, dev_mode = d_mode d, dev_msg_type = d_msg_type d,
      dev_in_move_to_ready = is_in_any_move_to_ready_state d, dev_read_only = is_read_only d,
      dev_force_feedback_enabled = is_force_feedback_enabled d, dev_force_feedback = cla_force_feedback (cla d)\<rparr>"

definition ready_move_step_rad :: "flt \<Rightarrow> 'a device_scheme \<Rightarrow> flt" where
  "ready_move_step_rad velocity_rad_s d =
     (let freq = of_int_f binary32 (cla_control_frequency (cla d));
          dt = (if flt_lt (Fin 0) freq then fdiv binary32 (Fin 1) freq else fdiv binary32 (Fin 1) (Fin 50))
      in fmul binary32 velocity_rad_s dt)"

definition ready_move_velocity :: "'a device_scheme \<Rightarrow> flt" where
  "ready_move_velocity d =
     (if slow_move_active d then cla_move_to_ready_vel_rad_s_error (cla d) else cla_move_to_ready_vel_rad_s_normal (cla d))"

definition mark_joint_failed_during_recovery :: "int \<Rightarrow> 'a device_scheme \<Rightarrow> 'a device_scheme" where
  "mark_joint_failed_during_recovery i d = d\<lparr>failed_joint_ids := List.insert i (failed_joint_ids d)\<rparr>"

definition set_last_failed_joint_id :: "int \<Rightarrow> 'a device_scheme \<Rightarrow> 'a device_scheme" where
  "set_last_failed_joint_id i d = d\<lparr>last_failed_joint_id := i\<rparr>"

definition base_reset_ready :: "'a device_scheme \<Rightarrow> 'a device_scheme" where
  "base_reset_ready d = d\<lparr>is_ready := False, init_count := 0, reached_cnt := 0\<rparr>"

section \<open>The budget of a ready move\<close>

definition READY_MOVE_BUDGET_TRAVEL_SCALE :: int where "READY_MOVE_BUDGET_TRAVEL_SCALE = 3"
definition READY_MOVE_BUDGET_MIN_ITERS :: int where "READY_MOVE_BUDGET_MIN_ITERS = 1500"
definition DEVICE_ARRIVED_CONFIRM_CNT :: int where "DEVICE_ARRIVED_CONFIRM_CNT = 30"

text \<open>A conversion to a 64-bit integer that is out of range, and an overflow of the sum, are undefined.\<close>

fun to_long :: "flt \<Rightarrow> int option" where
  "to_long (Fin a) = (let n = trunc a in if - (2 ^ 63) \<le> n \<and> n < 2 ^ 63 then Some n else None)"
| "to_long _ = None"

definition ready_move_budget_init :: "flt \<Rightarrow> flt \<Rightarrow> 'a device_scheme \<Rightarrow> 'a device_scheme option" where
  "ready_move_budget_init max_displacement_rad step_rad d =
     (let eps = lit32 (1 / 10 ^ 9); step = (if flt_lt eps step_rad then step_rad else eps)
      in case to_long (fdiv binary32 max_displacement_rad step) of
           None \<Rightarrow> None
         | Some t \<Rightarrow>
             (let total = READY_MOVE_BUDGET_TRAVEL_SCALE * (t + 1) + DEVICE_ARRIVED_CONFIRM_CNT
              in if total < 2 ^ 63
                 then Some (d\<lparr>ready_move_budget_total := max READY_MOVE_BUDGET_MIN_ITERS total, ready_move_budget_used := 0\<rparr>)
                 else None))"

definition ready_move_budget_spend :: "'a device_scheme \<Rightarrow> 'a device_scheme \<times> bool" where
  "ready_move_budget_spend d =
     (let used = ready_move_budget_used d + 1
      in (d\<lparr>ready_move_budget_used := used\<rparr>, 0 < ready_move_budget_total d \<and> ready_move_budget_total d < used))"

section \<open>Requests and runtime commands\<close>

definition request_move_to_ready_position :: "int \<Rightarrow> 'a device_scheme \<Rightarrow> 'a device_scheme" where
  "request_move_to_ready_position request_id d =
     d\<lparr>move_to_ready_request_id := request_id, completed_move_to_ready_request_id := 0, is_ready := False,
       last_ready_move_progress_publish := 0, move_to_ready_cmd_state := CMD_REQUESTED\<rparr>"

definition request_move_to_ready_and_stop :: "int \<Rightarrow> 'a device_scheme \<Rightarrow> 'a device_scheme" where
  "request_move_to_ready_and_stop request_id d =
     request_move_to_ready_position request_id (d\<lparr>stop_after_ready := True\<rparr>)"

definition note_client_heartbeat :: "nat \<Rightarrow> 'a device_scheme \<Rightarrow> 'a device_scheme" where
  "note_client_heartbeat t d =
     d\<lparr>client_heartbeat_seen := True, client_watchdog_tripped := False, last_client_heartbeat := t\<rparr>"

definition set_runtime_force_feedback ::
  "(Role \<Rightarrow> ControlModeIntent \<Rightarrow> ('a device_scheme, 'w) dcall) \<Rightarrow> bool \<Rightarrow> flt \<Rightarrow> ('a device_scheme, 'w) dcall" where
  "set_runtime_force_feedback mode on gain s =
     (case s of (d, n) \<Rightarrow>
        if d_role d \<noteq> LEADER then Some ((d, n), NOT_SUPPORTED)
        else if on \<and> flt_lt gain (Fin 0) then Some ((d, n), INVALID_PARAM)
        else mode LEADER NORMAL_OPERATION
               (d\<lparr>enabled_force_feedback := on,
                  cla := (cla d)\<lparr>cla_force_feedback := (if on then gain else Fin (-1))\<rparr>\<rparr>, n))"

definition set_runtime_force_feedback_gain :: "flt \<Rightarrow> 'a device_scheme \<Rightarrow> 'a device_scheme \<times> ReturnCode" where
  "set_runtime_force_feedback_gain gain d =
     (if d_role d \<noteq> LEADER then (d, NOT_SUPPORTED)
      else if flt_lt gain (Fin 0) then (d, INVALID_PARAM)
      else (d\<lparr>cla := (cla d)\<lparr>cla_force_feedback := gain\<rparr>\<rparr>, SUCCESS))"

definition runtime_hold :: "(nat \<Rightarrow> 'a device_scheme \<Rightarrow> 'a device_scheme) \<Rightarrow> ('w \<Rightarrow> nat) \<Rightarrow> ('a device_scheme, 'w) dcall" where
  "runtime_hold clear now s =
     Some (if rejects_direct_commands (fst s) then (s, BUSY) else ((clear (now (n_drv (snd s))) (fst s), snd s), SUCCESS))"

definition set_pause_leader_command_listening :: "bool \<Rightarrow> 'a device_scheme \<times> 'w node \<Rightarrow> 'a device_scheme \<times> 'w node" where
  "set_pause_leader_command_listening b s = (case s of (d, n) \<Rightarrow> (d, if has_topic d then n\<lparr>n_paused := b\<rparr> else n))"

definition publish_device_info ::
  "('a device_scheme, 'w) device_class \<Rightarrow> int \<Rightarrow> flt list \<Rightarrow> int list \<Rightarrow> 'a device_scheme \<times> 'w node
   \<Rightarrow> ('a device_scheme \<times> 'w node) \<times> ReturnCode" where
  "publish_device_info c key fs ints s =
     (if \<not> has_topic (fst s) then (s, NOT_INITIALIZED)
      else let (n, rc) = vd_publish c (PubInfo key fs ints) s in ((fst s, n), rc))"

definition topic_stop :: "'a device_scheme \<times> 'w node \<Rightarrow> ('a device_scheme \<times> 'w node) \<times> ReturnCode" where
  "topic_stop s = ((fst s, (snd s)\<lparr>n_running := False\<rparr>), SUCCESS)"

definition device_is_running :: "'a device_scheme \<times> 'w node \<Rightarrow> bool" where
  "device_is_running s \<longleftrightarrow> has_topic (fst s) \<and> n_running (snd s)"

section \<open>Emergency recovery\<close>

definition DEVICE_INFO_ERROR_DETECTED :: int where "DEVICE_INFO_ERROR_DETECTED = 20"
definition DEVICE_INFO_RECOVERY_IN_PROGRESS :: int where "DEVICE_INFO_RECOVERY_IN_PROGRESS = 21"
definition DEVICE_INFO_SHUTDOWN_AFTER_ERROR :: int where "DEVICE_INFO_SHUTDOWN_AFTER_ERROR = 22"
definition DEVICE_INFO_READY_MOVE_IN_PROGRESS :: int where "DEVICE_INFO_READY_MOVE_IN_PROGRESS = 23"
definition EMERGENCY_PROGRESS_PUBLISH_INTERVAL_MS :: int where "EMERGENCY_PROGRESS_PUBLISH_INTERVAL_MS = 200"
definition kClientHeartbeatTimeoutMs :: int where "kClientHeartbeatTimeoutMs = 5000"

definition int16 :: "int \<Rightarrow> int" where
  "int16 i = sint (word_of_int i :: 16 word)"

definition elapsed_ms :: "nat \<Rightarrow> nat \<Rightarrow> int" where
  "elapsed_ms since t = int ((t - since) div 1000)"

definition enter_emergency_recovery ::
  "('a device_scheme, 'w) device_class \<Rightarrow> ReturnCode \<Rightarrow> int \<Rightarrow> 'a device_scheme \<times> 'w node \<Rightarrow> 'a device_scheme \<times> 'w node" where
  "enter_emergency_recovery c cause failed_joint_id s =
     (case s of (d, n) \<Rightarrow>
        let disable = (cause = SAFE_MODE_SIG \<and> 0 \<le> failed_joint_id)
        in if emergency_state d = EM_NONE
           then let d = d\<lparr>emergency_state := EM_REQUESTED, emergency_cause := code_of cause,
                          emergency_failed_joint_id := failed_joint_id, slow_move_active := True,
                          failed_joint_ids := (if disable then [int16 failed_joint_id] else []),
                          emergency_completed_published := False\<rparr>
                in fst (publish_device_info c DEVICE_INFO_ERROR_DETECTED [Fin 0] [code_of cause, failed_joint_id, 0]
                          (set_pause_leader_command_listening True (d, n)))
           else (if disable then mark_joint_failed_during_recovery (int16 failed_joint_id) d else d, n))"

definition mark_emergency_recovery_completed ::
  "('a device_scheme, 'w) device_class \<Rightarrow> 'a device_scheme \<times> 'w node \<Rightarrow> 'a device_scheme \<times> 'w node" where
  "mark_emergency_recovery_completed c s =
     (case s of (d, n) \<Rightarrow>
        if emergency_state d = EM_NONE then (d, n)
        else if emergency_completed_published d then (d\<lparr>emergency_state := EM_COMPLETED\<rparr>, n)
        else let s = fst (publish_device_info c DEVICE_INFO_SHUTDOWN_AFTER_ERROR [Fin 1]
                            [emergency_cause d, emergency_failed_joint_id d, 0]
                            (d\<lparr>emergency_state := EM_COMPLETED, emergency_completed_published := True\<rparr>, n))
             in if has_topic d then fst (topic_stop s) else s)"

definition clamp01 :: "flt \<Rightarrow> flt" where
  "clamp01 p = (let p = (if flt_lt p (Fin 0) then Fin 0 else p) in if flt_lt (Fin 1) p then Fin 1 else p)"

definition publish_recovery_progress ::
  "('a device_scheme, 'w) device_class \<Rightarrow> flt \<Rightarrow> 'a device_scheme \<times> 'w node \<Rightarrow> 'a device_scheme \<times> 'w node" where
  "publish_recovery_progress c progress s =
     (if emergency_state (fst s) \<noteq> EM_MOVING_SLOW then s
      else fst (publish_device_info c DEVICE_INFO_RECOVERY_IN_PROGRESS [clamp01 progress]
                  [emergency_cause (fst s), emergency_failed_joint_id (fst s), 0] s))"

definition publish_ready_move_progress ::
  "('a device_scheme, 'w) device_class \<Rightarrow> int \<Rightarrow> bool \<Rightarrow> flt \<Rightarrow> 'a device_scheme \<times> 'w node \<Rightarrow> 'a device_scheme \<times> 'w node" where
  "publish_ready_move_progress c source is_error progress s =
     fst (publish_device_info c DEVICE_INFO_READY_MOVE_IN_PROGRESS [clamp01 progress] [source, if is_error then 1 else 0] s)"

definition check_emergency_timeout_locked :: "nat \<Rightarrow> 'a device_scheme \<Rightarrow> 'a device_scheme" where
  "check_emergency_timeout_locked t d =
     (if emergency_state d = EM_MOVING_SLOW \<and> 0 < cla_emergency_shutdown_timeout_ms (cla d) \<and>
         cla_emergency_shutdown_timeout_ms (cla d) \<le> elapsed_ms (last_step_heartbeat d) t
      then d\<lparr>emergency_state := EM_TIMED_OUT\<rparr> else d)"

definition check_client_heartbeat_watchdog ::
  "('a device_scheme, 'w) device_class \<Rightarrow> 'a device_scheme \<times> 'w node \<Rightarrow> ('a device_scheme \<times> 'w node) option" where
  "check_client_heartbeat_watchdog c s =
     (case s of (d, n) \<Rightarrow>
        if \<not> client_heartbeat_seen d \<or> client_watchdog_tripped d then Some s
        else if is_in_any_move_to_ready_state d then Some s
        else if elapsed_ms (last_client_heartbeat d) (now_of c n) < kClientHeartbeatTimeoutMs then Some s
        else let d = d\<lparr>client_watchdog_tripped := True\<rparr>
             in if d_role d = LEADER
                then (if is_force_feedback_enabled d
                      then (case vd_force_feedback c False (Fin (-1)) (d, n) of None \<Rightarrow> None | Some (s, _) \<Rightarrow> Some s)
                      else Some (d, n))
                else if d_role d = FOLLOWER
                then map_option fst (vd_hold c (set_pause_leader_command_listening True (d, n)))
                else Some (d, n))"

section \<open>One control cycle\<close>

text \<open>The commanded move to the ready position, and the entry into recovery: both override the control mode and restart the ready move.\<close>

definition begin_ready_move ::
  "('a device_scheme, 'w) device_class \<Rightarrow> 'a device_scheme \<times> 'w node \<Rightarrow> ('a device_scheme \<times> 'w node) option" where
  "begin_ready_move c s =
     (case vd_set_control_mode c FOLLOWER READY_MOVE_OVERRIDE (vd_clear_buffers c (now_of c (snd s)) (fst s), snd s) of
        None \<Rightarrow> None | Some ((d, n), _) \<Rightarrow> Some (vd_reset_ready c d, n))"

definition handle_command_request ::
  "('a device_scheme, 'w) device_class \<Rightarrow> 'a device_scheme \<times> 'w node \<Rightarrow> ('a device_scheme \<times> 'w node) option" where
  "handle_command_request c s =
     (if move_to_ready_cmd_state (fst s) = CMD_REQUESTED
      then (case begin_ready_move c s of None \<Rightarrow> None | Some (d, n) \<Rightarrow> Some (d\<lparr>move_to_ready_cmd_state := CMD_MOVING\<rparr>, n))
      else Some s)"

definition handle_recovery_request ::
  "('a device_scheme, 'w) device_class \<Rightarrow> 'a device_scheme \<times> 'w node \<Rightarrow> ('a device_scheme \<times> 'w node) option" where
  "handle_recovery_request c s =
     (if emergency_state (fst s) = EM_REQUESTED
      then (case begin_ready_move c s of
              None \<Rightarrow> None
            | Some (d, n) \<Rightarrow> Some (d\<lparr>emergency_start_time := now_of c n, last_step_heartbeat := now_of c n,
                                      emergency_state := EM_MOVING_SLOW\<rparr>, n))
      else Some s)"

definition recovery_progress ::
  "('a device_scheme, 'w) device_class \<Rightarrow> 'a device_scheme \<times> 'w node \<Rightarrow> ('a device_scheme \<times> 'w node) \<times> flt" where
  "recovery_progress c s =
     (if emergency_state (fst s) = EM_MOVING_SLOW then let (d, p) = vd_completion_ratio c (fst s) in ((d, snd s), clamp01 p) else (s, Fin 0))"

definition publish_recovery_phase ::
  "('a device_scheme, 'w) device_class \<Rightarrow> flt \<Rightarrow> 'a device_scheme \<times> 'w node \<Rightarrow> 'a device_scheme \<times> 'w node" where
  "publish_recovery_phase c progress s =
     (let t = now_of c (snd s)
      in if emergency_state (fst s) = EM_MOVING_SLOW \<and>
            EMERGENCY_PROGRESS_PUBLISH_INTERVAL_MS \<le> elapsed_ms (last_recovery_progress_publish (fst s)) t
         then publish_recovery_progress c progress ((fst s)\<lparr>last_recovery_progress_publish := t\<rparr>, snd s) else s)"

definition publish_ready_phase ::
  "('a device_scheme, 'w) device_class \<Rightarrow> flt \<Rightarrow> 'a device_scheme \<times> 'w node \<Rightarrow> 'a device_scheme \<times> 'w node" where
  "publish_ready_phase c progress s =
     (let d = fst s; t = now_of c (snd s);
          startup = (\<not> is_ready d \<and> move_to_ready_cmd_state d = CMD_IDLE \<and> emergency_state d = EM_NONE);
          command = (move_to_ready_cmd_state d = CMD_MOVING \<and> emergency_state d = EM_NONE);
          emergency = (emergency_state d = EM_MOVING_SLOW)
      in if (startup \<or> command \<or> emergency) \<and>
            EMERGENCY_PROGRESS_PUBLISH_INTERVAL_MS \<le> elapsed_ms (last_ready_move_progress_publish d) t
         then let d = d\<lparr>last_ready_move_progress_publish := t\<rparr>;
                  (d, p) = (if emergency then (d, progress) else vd_completion_ratio c d)
              in publish_ready_move_progress c (if emergency then 2 else if command then 1 else 0) emergency p (d, snd s)
         else s)"

definition publish_progress ::
  "('a device_scheme, 'w) device_class \<Rightarrow> 'a device_scheme \<times> 'w node \<Rightarrow> 'a device_scheme \<times> 'w node" where
  "publish_progress c s =
     (let (s, progress) = recovery_progress c s in publish_ready_phase c progress (publish_recovery_phase c progress s))"

text \<open>The work of the cycle: another step of the ready move, or an operation in the device's role.\<close>

definition ready_cycle :: "('a device_scheme, 'w) device_class \<Rightarrow> ('a device_scheme, 'w) dcall" where
  "ready_cycle c s =
     (case vd_move_to_ready c s of
        None \<Rightarrow> None
      | Some ((d, n), rc) \<Rightarrow>
          (if rc \<noteq> SUCCESS then Some ((d, n), rc)
           else if \<not> is_ready d then Some ((d, n), SUCCESS)
           else if move_to_ready_cmd_state d = CMD_IDLE
           then (case vd_set_control_mode c (d_role d) NORMAL_OPERATION (d, n) of None \<Rightarrow> None | Some (s, _) \<Rightarrow> Some (s, SUCCESS))
           else if move_to_ready_cmd_state d = CMD_MOVING
           then Some ((d\<lparr>completed_move_to_ready_request_id := move_to_ready_request_id d, move_to_ready_request_id := 0\<rparr>, n), SUCCESS)
           else Some ((d, n), SUCCESS)))"

definition restore_after_command ::
  "('a device_scheme, 'w) device_class \<Rightarrow> 'a device_scheme \<times> 'w node \<Rightarrow> ('a device_scheme \<times> 'w node) option" where
  "restore_after_command c s =
     (case s of (d, n) \<Rightarrow>
        if move_to_ready_cmd_state d = CMD_MOVING
        then (case vd_set_control_mode c (d_role d) NORMAL_OPERATION (d\<lparr>move_to_ready_cmd_state := CMD_RESTORE\<rparr>, n) of
                None \<Rightarrow> None
              | Some ((d, n), _) \<Rightarrow>
                  (let d = (vd_clear_buffers c (now_of c n) d)\<lparr>move_to_ready_cmd_state := CMD_IDLE\<rparr>
                   in Some (if stop_after_ready d \<and> has_topic d then fst (topic_stop (d, n)) else (d, n))))
        else Some (d, n))"

definition operate_cycle :: "('a device_scheme, 'w) device_class \<Rightarrow> ('a device_scheme, 'w) dcall" where
  "operate_cycle c s =
     (case restore_after_command c s of
        None \<Rightarrow> None
      | Some (d, n) \<Rightarrow>
          (if d_role d = LEADER then vd_leader c (d, n)
           else if d_role d = FOLLOWER then vd_follower c (d, n)
           else Some ((d, n), NOT_SUPPORTED)))"

definition publish_observation :: "('a device_scheme, 'w) device_class \<Rightarrow> ('a device_scheme, 'w) dcall" where
  "publish_observation c s =
     (case vd_observation c s of
        None \<Rightarrow> None
      | Some ((d, n), joints, rc) \<Rightarrow>
          (if rc \<noteq> SUCCESS then Some ((d, n), rc)
           else let (n, rc) = vd_publish c (PubJoints joints) (d, n) in Some ((d, n), rc)))"

definition publish_phase :: "('a device_scheme, 'w) device_class \<Rightarrow> ('a device_scheme, 'w) dcall" where
  "publish_phase c s =
     (if d_role (fst s) = LEADER
      then (if is_in_emergency_recovery (fst s) then Some (((fst s)\<lparr>logged_recovery_publish_gate := True\<rparr>, snd s), SUCCESS)
            else if d_msg_type (fst s) = JOINT_INFO then publish_observation c s
            else Some (s, NOT_SUPPORTED))
      else if d_role (fst s) = FOLLOWER then publish_observation c s
      else Some (s, SUCCESS))"

definition topic_phase :: "('a device_scheme, 'w) device_class \<Rightarrow> ('a device_scheme, 'w) dcall" where
  "topic_phase c s =
     (if \<not> is_topic_created_by_this (fst s) then Some (s, SUCCESS)
      else if \<not> has_topic (fst s) then Some (s, NOT_INITIALIZED)
      else case publish_phase c s of
             None \<Rightarrow> None
           | Some (s, rc) \<Rightarrow>
               (if rc \<noteq> SUCCESS then Some (s, rc)
                else case vd_topic_step c s of
                       None \<Rightarrow> None
                     | Some s \<Rightarrow> (case check_client_heartbeat_watchdog c s of None \<Rightarrow> None | Some s \<Rightarrow> Some (s, SUCCESS))))"

text \<open>A call that ends the cycle when it fails.\<close>

definition andthen :: "('d, 'w) dcall \<Rightarrow> ('d, 'w) dcall \<Rightarrow> ('d, 'w) dcall" where
  "andthen f g s = (case f s of None \<Rightarrow> None | Some (s, rc) \<Rightarrow> if rc \<noteq> SUCCESS then Some (s, rc) else g s)"

definition read_phase :: "('a device_scheme, 'w) device_class \<Rightarrow> ('a device_scheme, 'w) dcall" where
  "read_phase c s =
     (case vd_read c s of
        None \<Rightarrow> None
      | Some (s, rc) \<Rightarrow> Some (s, if rc \<noteq> SUCCESS \<and> \<not> is_in_emergency_recovery (fst s) then rc else SUCCESS))"

definition refresh_heartbeat :: "('a device_scheme, 'w) device_class \<Rightarrow> ('a device_scheme, 'w) dcall" where
  "refresh_heartbeat c s = Some (((fst s)\<lparr>last_step_heartbeat := now_of c (snd s)\<rparr>, snd s), SUCCESS)"

definition work_phase :: "('a device_scheme, 'w) device_class \<Rightarrow> ('a device_scheme, 'w) dcall" where
  "work_phase c s = (if \<not> is_ready (fst s) then ready_cycle c s else operate_cycle c s)"

definition after_read :: "('a device_scheme, 'w) device_class \<Rightarrow> ('a device_scheme, 'w) dcall" where
  "after_read c s =
     (case handle_command_request c s of
        None \<Rightarrow> None
      | Some s \<Rightarrow>
          (case handle_recovery_request c s of
             None \<Rightarrow> None
           | Some (d, n) \<Rightarrow>
               (let d = check_emergency_timeout_locked (now_of c n) d
                in if emergency_state d = EM_TIMED_OUT then Some (mark_emergency_recovery_completed c (d, n), SUCCESS)
                   else andthen (work_phase c) (andthen (vd_write c) (andthen (topic_phase c) (refresh_heartbeat c)))
                          (publish_progress c (d, n)))))"

definition device_step :: "('a device_scheme, 'w) device_class \<Rightarrow> ('a device_scheme, 'w) dcall" where
  "device_step c = andthen (read_phase c) (after_read c)"

section \<open>Start and stop\<close>

definition device_start :: "('a device_scheme, 'w) device_class \<Rightarrow> 'a device_scheme \<times> 'w node \<Rightarrow> ('a device_scheme \<times> 'w node) \<times> ReturnCode" where
  "device_start c s =
     (case s of (d, n) \<Rightarrow>
        if \<not> is_driver_created_by_this d then ((d, n), SUCCESS)
        else if \<not> has_driver d then ((d, n), NOT_INITIALIZED)
        else let (w, rc) = vd_open c (n_drv n) in ((d, n\<lparr>n_drv := w\<rparr>), rc))"

definition device_arm_comm_loss :: "('a device_scheme, 'w) device_class \<Rightarrow> 'a device_scheme \<times> 'w node \<Rightarrow> ('a device_scheme \<times> 'w node) \<times> ReturnCode" where
  "device_arm_comm_loss c s =
     (case s of (d, n) \<Rightarrow>
        if \<not> has_driver d then ((d, n), SUCCESS) else let (w, rc) = vd_arm c (n_drv n) in ((d, n\<lparr>n_drv := w\<rparr>), rc))"

definition device_stop :: "('a device_scheme, 'w) device_class \<Rightarrow> ('a device_scheme, 'w) dcall" where
  "device_stop c s =
     (case vd_park c s of
        None \<Rightarrow> None
      | Some ((d, n), park_rc) \<Rightarrow>
          (let ((d, n), topic_rc) =
                 (if \<not> is_topic_created_by_this d then ((d, n), SUCCESS)
                  else if \<not> has_topic d then ((d, n), NOT_INITIALIZED) else topic_stop (d, n));
               (n, driver_rc) =
                 (if \<not> is_driver_created_by_this d then (n, SUCCESS)
                  else if \<not> has_driver d then (n, NOT_INITIALIZED)
                  else let (w, rc) = vd_close c (n_drv n) in (n\<lparr>n_drv := w\<rparr>, rc))
           in Some ((d, n), first_error [park_rc, topic_rc, driver_rc])))"

section \<open>Commands to a joint\<close>

definition device_move :: "('s, 'w) servo_class \<Rightarrow> 'a device_scheme \<Rightarrow> flt \<Rightarrow> flt \<Rightarrow> ('s, 'w) joint_call" where
  "device_move c d target tor j w =
     (let j = j\<lparr>adjusted_target_pos := target, prev_target_pos := target\<rparr>;
          r = (if follower_gravity_compensation d
               then case joint_move_full c target (Fin 0) (fmul binary32 tor (torq_rescale j)) (j\<lparr>target_tor := tor\<rparr>) w of
                      None \<Rightarrow> None | Some (j, w, rc) \<Rightarrow> Some (j\<lparr>prev_target_tor := tor\<rparr>, w, rc)
               else joint_move c target j w)
      in case r of None \<Rightarrow> None | Some (j, w, rc) \<Rightarrow> Some (j, w, if rc \<noteq> SUCCESS then FAIL else SUCCESS))"

section \<open>Construction\<close>

definition new_device_object :: "cla_args \<Rightarrow> device" where
  "new_device_object a =
     \<lparr>is_normal_status = True, is_ready = False, is_driver_created_by_this = False, is_topic_created_by_this = False,
      is_read_only = False, has_driver = False, has_topic = False, has_algo = False, d_role = ROLE_UNKNOWN,
      d_mode = MODE_NORMAL, d_type = TYPE_UNKNOWN, enabled_spring_effect = False,
      enabled_force_feedback = flt_le (Fin 0) (cla_force_feedback a), dof = 0, servo_num = 0, dof_total = 0,
      servo_num_total = 0, init_count = 0, reached_cnt = 0, ready_move_budget_total = 0, ready_move_budget_used = 0,
      follower_gravity_compensation = False, d_msg_type = cla_msg_type a, control_frequency = 0, cla = a,
      move_to_ready_cmd_state = CMD_IDLE, move_to_ready_request_id = 0, completed_move_to_ready_request_id = 0,
      stop_after_ready = False, logged_recovery_publish_gate = False, client_heartbeat_seen = False,
      client_watchdog_tripped = False, last_client_heartbeat = 0, emergency_state = EM_NONE, slow_move_active = False,
      emergency_cause = 0, emergency_failed_joint_id = -1, last_failed_joint_id = -1, failed_joint_ids = [],
      emergency_start_time = 0, last_recovery_progress_publish = 0, last_step_heartbeat = 0,
      emergency_completed_published = False, last_ready_move_progress_publish = 0\<rparr>"

text \<open>The collaborators that are passed in or created: a topic, a driver, an algorithm and the result of its initialisation.\<close>

record device_parts =
  given_topic :: bool
  given_driver :: bool
  new_topic_ok :: bool
  new_driver_ok :: bool
  new_algo :: "ReturnCode option"

definition requested_planning_type :: "json \<Rightarrow> cla_args \<Rightarrow> string \<times> ReturnCode" where
  "requested_planning_type cfg_model a =
     (if cla_planning_type a = ''config'' then get_field_value get_string cfg_model ''planning_type'' []
      else (cla_planning_type a, SUCCESS))"

definition attach_algo :: "device_parts \<Rightarrow> cla_args \<Rightarrow> 'a device_scheme \<Rightarrow> 'a device_scheme \<times> ReturnCode" where
  "attach_algo q a d =
     (case new_algo q of
        Some rc \<Rightarrow> (if rc \<noteq> SUCCESS then (d\<lparr>has_algo := True\<rparr>, FAIL) else (d\<lparr>has_algo := True, d_role := cla_role a\<rparr>, SUCCESS))
      | None \<Rightarrow> (d\<lparr>has_algo := False, d_role := cla_role a\<rparr>, SUCCESS))"

definition attach_parts :: "device_parts \<Rightarrow> cla_args \<Rightarrow> 'a device_scheme \<Rightarrow> 'a device_scheme \<times> ReturnCode" where
  "attach_parts q a d =
     (if \<not> given_topic q \<and> \<not> new_topic_ok q then (d\<lparr>has_topic := False\<rparr>, FAIL)
      else let d = d\<lparr>has_topic := True, is_topic_created_by_this := \<not> given_topic q\<rparr>
           in if \<not> given_driver q \<and> \<not> new_driver_ok q then (d\<lparr>has_driver := False\<rparr>, FAIL)
              else attach_algo q a (d\<lparr>has_driver := True, is_driver_created_by_this := \<not> given_driver q\<rparr>))"

definition device_init :: "json option \<Rightarrow> cla_args \<Rightarrow> device_parts \<Rightarrow> 'a device_scheme \<Rightarrow> 'a device_scheme \<times> ReturnCode" where
  "device_init config a q d =
     (case config of
        None \<Rightarrow> (d, NOT_INITIALIZED)
      | Some cfg_model \<Rightarrow>
          (let d = d\<lparr>control_frequency := cla_control_frequency a\<rparr>; (planning, rc) = requested_planning_type cfg_model a
           in if rc \<noteq> SUCCESS then (d, rc)
              else if planning \<noteq> ''None'' then (d, NOT_SUPPORTED)
              else let (ro, rc) = get_field_value get_bool cfg_model ''read_only'' (is_read_only d);
                       d = d\<lparr>is_read_only := (if rc = SUCCESS then ro else False)\<rparr>
                   in if is_read_only d \<and> cla_role a = FOLLOWER then (d, NOT_SUPPORTED)
                      else attach_parts q a d))"

datatype DeviceClass =
  DeviceArmCan_class | DeviceArm_class | DeviceArmSerial_class | DeviceFR3_class
| DeviceEffectorCan_class | DeviceEffectorController_class | DeviceEffectorSerial_class

definition new_device :: "json \<Rightarrow> string \<Rightarrow> DeviceClass option" where
  "new_device cfg_model device_model =
     (case j_field cfg_model ''device_model'' of
        None \<Rightarrow> None
      | Some m \<Rightarrow>
          (if get_string m \<noteq> Some device_model then None
           else case Option.bind (j_field cfg_model ''device_type'') get_string of
                  Some ty \<Rightarrow>
                    (if ty = ''arm'' then
                       (case Option.bind (j_field cfg_model ''arm_type'') get_string of
                          Some a \<Rightarrow> (if a = ''can'' then Some DeviceArmCan_class
                                     else if a = ''controller'' then Some DeviceArm_class
                                     else if a = ''serial'' then Some DeviceArmSerial_class
                                     else if a = ''fr3'' then Some DeviceFR3_class else None)
                        | None \<Rightarrow> None)
                     else if ty = ''effector'' then
                       (case Option.bind (j_field cfg_model ''effector_type'') get_string of
                          Some e \<Rightarrow> (if e = ''can'' then Some DeviceEffectorCan_class
                                     else if e = ''controller'' then Some DeviceEffectorController_class
                                     else if e = ''serial'' then Some DeviceEffectorSerial_class else None)
                        | None \<Rightarrow> None)
                     else None)
                | None \<Rightarrow> None))"

end
