(* ===== verification/Device_Recovery.thy ===== *)
theory Device_Recovery
  imports Device
begin

text \<open>
  What a device promises about emergency recovery (\<^verbatim>\<open>native/pi_control/src/pi_device.cpp\<close>). The virtual functions of a
  concrete device are bound by a contract, the locale \<open>device_contract\<close>: each of them leaves the recovery state alone and publishes no
  joint observation and no shutdown notice, except that the ready move may complete the recovery
  by \<^verbatim>\<open>mark_emergency_recovery_completed()\<close>. From it follow, for the control cycle and for every run of a device, that recovery only moves forward, keeps its first cause,
  announces the shutdown at most once, and that a leader in recovery publishes no observations.
\<close>

section \<open>Recovery state of a device and its topic\<close>

definition recovery_view :: "'a device_scheme \<Rightarrow> EmergencyRecoveryState \<times> int \<times> int \<times> bool \<times> Role \<times> bool \<times> bool" where
  "recovery_view d =
     (emergency_state d, emergency_cause d, emergency_failed_joint_id d, emergency_completed_published d, d_role d, has_topic d,
      is_topic_created_by_this d)"

lemma recovery_viewD:
  "recovery_view d' = recovery_view d \<longleftrightarrow>
     emergency_state d' = emergency_state d \<and> emergency_cause d' = emergency_cause d \<and>
     emergency_failed_joint_id d' = emergency_failed_joint_id d \<and>
     emergency_completed_published d' = emergency_completed_published d \<and> d_role d' = d_role d \<and> has_topic d' = has_topic d \<and>
     is_topic_created_by_this d' = is_topic_created_by_this d"
  by (simp add: recovery_view_def)

fun is_shutdown_notice :: "topic_event \<Rightarrow> bool" where
  "is_shutdown_notice (PubInfo k fs is) \<longleftrightarrow> k = DEVICE_INFO_SHUTDOWN_AFTER_ERROR"
| "is_shutdown_notice _ \<longleftrightarrow> False"

fun is_observation :: "topic_event \<Rightarrow> bool" where
  "is_observation (PubJoints js) \<longleftrightarrow> True"
| "is_observation _ \<longleftrightarrow> False"

definition shutdown_notices :: "'w node \<Rightarrow> topic_event list" where
  "shutdown_notices n = filter is_shutdown_notice (n_events n)"

definition observations :: "'w node \<Rightarrow> topic_event list" where
  "observations n = filter is_observation (n_events n)"

fun recovery_rank :: "EmergencyRecoveryState \<Rightarrow> nat" where
  "recovery_rank EM_NONE = 0"
| "recovery_rank EM_REQUESTED = 1"
| "recovery_rank EM_MOVING_SLOW = 2"
| "recovery_rank EM_TIMED_OUT = 3"
| "recovery_rank EM_COMPLETED = 4"

lemma recovery_rank_none [simp]: "recovery_rank e = 0 \<longleftrightarrow> e = EM_NONE"
  by (cases e) auto

lemma recovery_rank_le: "recovery_rank e \<le> 4"
  by (cases e) auto

lemma recovery_rank_completed: "4 \<le> recovery_rank e \<longleftrightarrow> e = EM_COMPLETED"
  by (cases e) auto

text \<open>The record of a recovery is consistent: it is marked as announced exactly when it is completed, and at most one shutdown notice was sent, with the recorded cause.\<close>

definition recovery_ok :: "'a device_scheme \<times> 'w node \<Rightarrow> bool" where
  "recovery_ok s \<longleftrightarrow>
     emergency_completed_published (fst s) = (emergency_state (fst s) = EM_COMPLETED) \<and>
     (shutdown_notices (snd s) = [] \<or>
      emergency_completed_published (fst s) \<and>
      shutdown_notices (snd s) =
        [PubInfo DEVICE_INFO_SHUTDOWN_AFTER_ERROR [Fin 1] [emergency_cause (fst s), emergency_failed_joint_id (fst s), 0]])"

text \<open>How the recovery of a device may develop.\<close>

definition advances :: "'a device_scheme \<times> 'w node \<Rightarrow> 'a device_scheme \<times> 'w node \<Rightarrow> bool" where
  "advances s s' \<longleftrightarrow>
     recovery_rank (emergency_state (fst s)) \<le> recovery_rank (emergency_state (fst s')) \<and>
     (emergency_state (fst s) \<noteq> EM_NONE \<longrightarrow>
        emergency_cause (fst s') = emergency_cause (fst s) \<and>
        emergency_failed_joint_id (fst s') = emergency_failed_joint_id (fst s) \<and>
        (d_role (fst s) = LEADER \<longrightarrow> observations (snd s') = observations (snd s))) \<and>
     d_role (fst s') = d_role (fst s) \<and> has_topic (fst s') = has_topic (fst s) \<and> (recovery_ok s \<longrightarrow> recovery_ok s')"

lemma advances_refl [simp, intro]: "advances s s"
  by (simp add: advances_def)

lemma advances_recovering:
  "advances s s' \<Longrightarrow> emergency_state (fst s) \<noteq> EM_NONE \<Longrightarrow> emergency_state (fst s') \<noteq> EM_NONE"
  unfolding advances_def by (cases "emergency_state (fst s)") auto

lemma advances_trans [trans]:
  assumes "advances s s'" "advances s' s''"
  shows "advances s s''"
proof (cases "emergency_state (fst s) = EM_NONE")
  case True
  with assms show ?thesis by (simp add: advances_def)
next
  case False
  with assms advances_recovering [OF assms(1)] show ?thesis by (simp add: advances_def)
qed

text \<open>A call that leaves the recovery state alone and publishes neither observations nor the shutdown notice.\<close>

definition still :: "'a device_scheme \<times> 'w node \<Rightarrow> 'a device_scheme \<times> 'w node \<Rightarrow> bool" where
  "still s s' \<longleftrightarrow>
     recovery_view (fst s') = recovery_view (fst s) \<and>
     shutdown_notices (snd s') = shutdown_notices (snd s) \<and> observations (snd s') = observations (snd s)"

lemma still_refl [simp, intro]: "still s s"
  by (simp add: still_def)

lemma still_trans [trans]: "still s s' \<Longrightarrow> still s' s'' \<Longrightarrow> still s s''"
  by (simp add: still_def)

lemma still_fields:
  "recovery_view d' = recovery_view d \<Longrightarrow> n_events n' = n_events n \<Longrightarrow> still (d, n) (d', n')"
  by (simp add: still_def shutdown_notices_def observations_def)

lemma still_quiet_event:
  "recovery_view d' = recovery_view d \<Longrightarrow> n_events n' = n_events n @ es \<Longrightarrow>
   \<forall>e \<in> set es. \<not> is_shutdown_notice e \<and> \<not> is_observation e \<Longrightarrow> still (d, n) (d', n')"
  by (simp add: still_def shutdown_notices_def observations_def filter_empty_conv)

lemma still_advances: "still s s' \<Longrightarrow> advances s s'"
  by (auto simp: still_def advances_def recovery_ok_def recovery_viewD)

inductive calm :: "('a device_scheme, 'w) device_class \<Rightarrow> 'a device_scheme \<times> 'w node \<Rightarrow> 'a device_scheme \<times> 'w node \<Rightarrow> bool" for c where
  calm_still: "still s s' \<Longrightarrow> calm c s s'"
| calm_mark: "calm c s (mark_emergency_recovery_completed c s)"
| calm_trans: "calm c s s' \<Longrightarrow> calm c s' s'' \<Longrightarrow> calm c s s''"

text \<open>The virtual calls of the control cycle, the ready move apart.\<close>

definition as_call :: "('d \<times> 'w node \<Rightarrow> ('d \<times> 'w node) option) \<Rightarrow> ('d, 'w) dcall" where
  "as_call f s = (case f s of None \<Rightarrow> None | Some s \<Rightarrow> Some (s, SUCCESS))"

definition observe :: "('d, 'w) device_class \<Rightarrow> ('d, 'w) dcall" where
  "observe c s = (case vd_observation c s of None \<Rightarrow> None | Some (s, _, rc) \<Rightarrow> Some (s, rc))"

inductive device_call_of :: "('d, 'w) device_class \<Rightarrow> ('d, 'w) dcall \<Rightarrow> bool" for c where
  "device_call_of c (vd_read c)"
| "device_call_of c (vd_write c)"
| "device_call_of c (vd_leader c)"
| "device_call_of c (vd_follower c)"
| "device_call_of c (vd_set_control_mode c r i)"
| "device_call_of c (vd_force_feedback c b g)"
| "device_call_of c (observe c)"
| "device_call_of c (as_call (vd_topic_step c))"
| "device_call_of c (vd_hold c)"

lemmas device_call_intros = device_call_of.intros

section \<open>The contract of a concrete device\<close>

lemma info_device: "fst (fst (publish_device_info c k fs is s)) = fst s"
  by (simp add: publish_device_info_def split_beta)

text \<open>A topic that publishes an event, or refuses it.\<close>

locale publisher =
  fixes c :: "('a device_scheme, 'w) device_class"
  assumes publish: "vd_publish c e s = (n', rc) \<Longrightarrow> n_events n' = n_events (snd s) \<or> n_events n' = n_events (snd s) @ [e]"
begin

lemma info_events:
  "publish_device_info c k fs is s = (s', rc) \<Longrightarrow>
   fst s' = fst s \<and> (n_events (snd s') = n_events (snd s) \<or> n_events (snd s') = n_events (snd s) @ [PubInfo k fs is])"
  by (auto simp: publish_device_info_def Let_def split: prod.splits if_splits dest: publish)

lemma info_still: "k \<noteq> DEVICE_INFO_SHUTDOWN_AFTER_ERROR \<Longrightarrow> still s (fst (publish_device_info c k fs is s))"
proof -
  assume k: "k \<noteq> DEVICE_INFO_SHUTDOWN_AFTER_ERROR"
  obtain s' rc where p: "publish_device_info c k fs is s = (s', rc)" by fastforce
  show ?thesis
    using info_events [OF p] k by (auto simp: p still_def shutdown_notices_def observations_def)
qed

end

text \<open>A device on such a topic.\<close>

locale device_contract = publisher c for c :: "('a device_scheme, 'w) device_class" +
  assumes calls: "device_call_of c f \<Longrightarrow> f s = Some (s', rc) \<Longrightarrow> still s s'"
    and ready_move: "vd_move_to_ready c s = Some (s', rc) \<Longrightarrow> calm c s s'"
    and clear_view: "recovery_view (vd_clear_buffers c t d) = recovery_view d"
    and reset_view: "recovery_view (vd_reset_ready c d) = recovery_view d"
    and ratio_view: "recovery_view (fst (vd_completion_ratio c d)) = recovery_view d"
begin

lemma mark_advances: "advances s (mark_emergency_recovery_completed c s)"
proof -
  obtain d n where s: "s = (d, n)" by (cases s)
  define d' where "d' = d\<lparr>emergency_state := EM_COMPLETED, emergency_completed_published := True\<rparr>"
  define ev where "ev = PubInfo DEVICE_INFO_SHUTDOWN_AFTER_ERROR [Fin 1] [emergency_cause d, emergency_failed_joint_id d, 0]"
  obtain s1 rc where p: "publish_device_info c DEVICE_INFO_SHUTDOWN_AFTER_ERROR [Fin 1]
      [emergency_cause d, emergency_failed_joint_id d, 0] (d', n) = (s1, rc)" by fastforce
  note ev1 = info_events [OF p, folded ev_def]
  show ?thesis
  proof (cases "emergency_state d = EM_NONE \<or> emergency_completed_published d")
    case True
    then show ?thesis
      by (auto simp: s mark_emergency_recovery_completed_def advances_def recovery_ok_def recovery_rank_le)
  next
    case False
    define n1 where "n1 = snd s1"
    have s1: "s1 = (d', n1)" using ev1 by (cases s1) (simp add: n1_def)
    have m: "\<exists>n2. mark_emergency_recovery_completed c s = (d', n2) \<and> n_events n2 = n_events n1"
      using False p by (auto simp: s mark_emergency_recovery_completed_def d'_def [symmetric] s1 topic_stop_def Let_def)
    have "filter is_observation (n_events n1) = filter is_observation (n_events n)"
      using ev1 by (auto simp: s1 ev_def)
    moreover have "filter is_shutdown_notice (n_events n) = [] \<Longrightarrow> filter is_shutdown_notice (n_events n1) \<in> {[], [ev]}"
      using ev1 by (auto simp: s1 ev_def)
    ultimately show ?thesis
      using m False
      by (auto simp: s advances_def recovery_ok_def observations_def shutdown_notices_def recovery_rank_le d'_def ev_def)
  qed
qed

lemma calm_advances: "calm c s s' \<Longrightarrow> advances s s'"
proof (induction rule: calm.induct)
  case (calm_still s s')
  then show ?case by (rule still_advances)
next
  case (calm_mark s)
  then show ?case by (rule mark_advances)
next
  case (calm_trans s s' s'')
  then show ?case by (blast intro: advances_trans)
qed

lemma fields_advance:
  "recovery_view d' = recovery_view d \<Longrightarrow> n_events n' = n_events n \<Longrightarrow> advances (d, n) (d', n')"
  by (intro still_advances still_fields)

lemma begin_ready_move_still: "begin_ready_move c s = Some s' \<Longrightarrow> still s s'"
proof -
  assume b: "begin_ready_move c s = Some s'"
  define s1 where "s1 = (vd_clear_buffers c (now_of c (snd s)) (fst s), snd s)"
  from b obtain d n rc where m: "vd_set_control_mode c FOLLOWER READY_MOVE_OVERRIDE s1 = Some ((d, n), rc)"
    and s': "s' = (vd_reset_ready c d, n)"
    by (auto simp: begin_ready_move_def s1_def split: option.splits)
  have "still s s1" by (cases s) (simp add: s1_def still_fields clear_view)
  also have "still s1 (d, n)" by (rule calls [OF device_call_intros(5) m])
  also have "still (d, n) s'" unfolding s' by (rule still_fields) (simp_all add: reset_view)
  finally show ?thesis .
qed

lemma command_advances: "handle_command_request c s = Some s' \<Longrightarrow> advances s s'"
proof -
  assume h: "handle_command_request c s = Some s'"
  show ?thesis
  proof (cases "move_to_ready_cmd_state (fst s) = CMD_REQUESTED")
    case True
    with h obtain d n where b: "begin_ready_move c s = Some (d, n)" and s': "s' = (d\<lparr>move_to_ready_cmd_state := CMD_MOVING\<rparr>, n)"
      by (auto simp: handle_command_request_def split: option.splits)
    have "advances s (d, n)" by (rule still_advances [OF begin_ready_move_still [OF b]])
    also have "advances (d, n) s'" unfolding s' by (rule fields_advance) (simp_all add: recovery_view_def)
    finally show ?thesis .
  next
    case False
    with h show ?thesis by (simp add: handle_command_request_def)
  qed
qed

text \<open>Raising the recovery state to one that is not final.\<close>

lemma raise_advances:
  assumes "recovery_rank (emergency_state d) \<le> recovery_rank (emergency_state d')" "emergency_state d' \<noteq> EM_COMPLETED"
    and "emergency_cause d' = emergency_cause d" "emergency_failed_joint_id d' = emergency_failed_joint_id d"
    and "emergency_completed_published d' = emergency_completed_published d" "d_role d' = d_role d" "has_topic d' = has_topic d"
  shows "advances (d, n) (d', n)"
proof -
  have "emergency_state d \<noteq> EM_COMPLETED"
    using assms(1,2) recovery_rank_completed [of "emergency_state d'"] by auto
  with assms show ?thesis by (auto simp: advances_def recovery_ok_def)
qed

lemma recovery_request_advances: "handle_recovery_request c s = Some s' \<Longrightarrow> advances s s'"
proof -
  assume h: "handle_recovery_request c s = Some s'"
  show ?thesis
  proof (cases "emergency_state (fst s) = EM_REQUESTED")
    case True
    with h obtain d n where b: "begin_ready_move c s = Some (d, n)"
      and s': "s' = (d\<lparr>emergency_start_time := now_of c n, last_step_heartbeat := now_of c n, emergency_state := EM_MOVING_SLOW\<rparr>, n)"
      by (auto simp: handle_recovery_request_def split: option.splits)
    note st = begin_ready_move_still [OF b]
    have "advances s (d, n)" by (rule still_advances [OF st])
    also have "advances (d, n) s'"
      unfolding s' using True st by (intro raise_advances) (auto simp: still_def recovery_viewD)
    finally show ?thesis .
  next
    case False
    with h show ?thesis by (simp add: handle_recovery_request_def)
  qed
qed

lemma timeout_advances: "advances (d, n) (check_emergency_timeout_locked t d, n)"
  unfolding check_emergency_timeout_locked_def by (auto intro: raise_advances)

lemma progress_still: "still s (publish_progress c s)"
proof -
  have info: "still s1 s2 \<Longrightarrow> k \<noteq> DEVICE_INFO_SHUTDOWN_AFTER_ERROR \<Longrightarrow> still s1 (fst (publish_device_info c k fs is s2))" for s1 s2 k fs "is"
    using info_still still_trans by blast
  have rec: "still s1 (publish_recovery_progress c p ((fst s1)\<lparr>last_recovery_progress_publish := t\<rparr>, snd s1))" for s1 p t
    unfolding publish_recovery_progress_def
    by (cases s1) (auto intro!: info still_fields simp: recovery_view_def DEVICE_INFO_SHUTDOWN_AFTER_ERROR_def DEVICE_INFO_RECOVERY_IN_PROGRESS_def)
  have ratio: "still s1 (fst (recovery_progress c s1))" for s1
    by (cases s1) (auto simp: recovery_progress_def Let_def split_beta intro!: still_fields ratio_view)
  have rec_phase: "still s1 (publish_recovery_phase c p s1)" for s1 p
    by (simp add: publish_recovery_phase_def Let_def rec)
  have ready_phase: "still s1 (publish_ready_phase c p s1)" for s1 p
  proof -
    have "still s1 (fst (vd_completion_ratio c ((fst s1)\<lparr>last_ready_move_progress_publish := t\<rparr>)), snd s1)" for t
      using ratio_view [of "(fst s1)\<lparr>last_ready_move_progress_publish := t\<rparr>"]
      by (cases s1) (auto intro!: still_fields simp: recovery_viewD)
    moreover have "still s1 ((fst s1)\<lparr>last_ready_move_progress_publish := t\<rparr>, snd s1)" for t
      by (cases s1) (auto intro!: still_fields simp: recovery_view_def)
    ultimately show ?thesis
      by (auto simp: publish_ready_phase_def Let_def split_beta publish_ready_move_progress_def
          DEVICE_INFO_READY_MOVE_IN_PROGRESS_def DEVICE_INFO_SHUTDOWN_AFTER_ERROR_def intro!: info)
  qed
  show ?thesis
    using still_trans [OF ratio still_trans [OF rec_phase ready_phase]] by (simp add: publish_progress_def Let_def split_beta)
qed

end

text \<open>
  The phases of the control cycle, for any relation between states that contains \<open>still\<close> and allows the ready move and the publication of an observation.
\<close>

locale cycle_relation = device_contract c for c :: "('a device_scheme, 'w) device_class" +
  fixes R :: "'a device_scheme \<times> 'w node \<Rightarrow> 'a device_scheme \<times> 'w node \<Rightarrow> bool"
  assumes R_trans: "R s s' \<Longrightarrow> R s' s'' \<Longrightarrow> R s s''"
    and R_still: "still s s' \<Longrightarrow> R s s'"
    and R_ready: "vd_move_to_ready c s = Some (s', rc) \<Longrightarrow> R s s'"
    and R_observation: "vd_publish c (PubJoints js) (d, n) = (n', rc) \<Longrightarrow> is_topic_created_by_this d \<Longrightarrow> d_role d \<noteq> LEADER \<or> emergency_state d = EM_NONE \<Longrightarrow> R (d, n) (d, n')"
begin

lemma R_call: "device_call_of c f \<Longrightarrow> f s = Some (s', rc) \<Longrightarrow> R s s'"
  by (rule R_still) (rule calls)

lemma R_fields: "recovery_view d' = recovery_view d \<Longrightarrow> n_events n' = n_events n \<Longrightarrow> R (d, n) (d', n')"
  by (intro R_still still_fields)

lemma R_refl: "R s s"
  by (rule R_still) simp

lemma ready_cycle_related: "ready_cycle c s = Some (s', rc) \<Longrightarrow> R s s'"
proof -
  assume r: "ready_cycle c s = Some (s', rc)"
  then obtain d n rc1 where m: "vd_move_to_ready c s = Some ((d, n), rc1)"
    by (auto simp: ready_cycle_def split: option.splits)
  have "R (d, n) s'"
    using r m R_call [OF device_call_intros(5)]
    by (auto simp: ready_cycle_def recovery_view_def intro: R_fields R_refl split: option.splits if_splits)
  with R_ready [OF m] show ?thesis by (rule R_trans)
qed

lemma restore_related: "restore_after_command c s = Some s' \<Longrightarrow> R s s'"
proof -
  assume r: "restore_after_command c s = Some s'"
  obtain d n where s: "s = (d, n)" by (cases s)
  show ?thesis
  proof (cases "move_to_ready_cmd_state d = CMD_MOVING")
    case True
    define s1 where "s1 = (d\<lparr>move_to_ready_cmd_state := CMD_RESTORE\<rparr>, n)"
    from r True obtain d2 n2 rc where m: "vd_set_control_mode c (d_role d) NORMAL_OPERATION s1 = Some ((d2, n2), rc)"
      by (auto simp: restore_after_command_def s s1_def split: option.splits)
    have "R s s1" unfolding s s1_def by (rule R_fields) (simp_all add: recovery_view_def)
    moreover have "R s1 (d2, n2)" by (rule R_call [OF device_call_intros(5) m])
    moreover have "R (d2, n2) s'"
      using r True m clear_view [of "now_of c n2" d2]
      by (auto simp: restore_after_command_def s s1_def Let_def topic_stop_def recovery_viewD
          intro!: R_fields split: if_splits)
    ultimately show ?thesis by (blast intro: R_trans)
  next
    case False
    with r show ?thesis by (simp add: restore_after_command_def s R_refl)
  qed
qed

lemma operate_related: "operate_cycle c s = Some (s', rc) \<Longrightarrow> R s s'"
proof -
  assume r: "operate_cycle c s = Some (s', rc)"
  then obtain d n where m: "restore_after_command c s = Some (d, n)"
    by (auto simp: operate_cycle_def split: option.splits)
  have "R (d, n) s'"
    using r m R_call [OF device_call_intros(3)] R_call [OF device_call_intros(4)]
    by (auto simp: operate_cycle_def R_refl split: option.splits if_splits)
  with restore_related [OF m] show ?thesis by (rule R_trans)
qed

text \<open>An observation is published only by a follower or outside recovery.\<close>

lemma observation_related:
  assumes "publish_observation c s = Some (s', rc)" "is_topic_created_by_this (fst s)"
    "d_role (fst s) \<noteq> LEADER \<or> emergency_state (fst s) = EM_NONE"
  shows "R s s'"
proof -
  obtain d n js rc1 where o: "vd_observation c s = Some ((d, n), js, rc1)"
    using assms(1) by (auto simp: publish_observation_def split: option.splits)
  have st: "still s (d, n)" by (rule calls [OF device_call_intros(7)]) (simp add: observe_def o)
  have "R (d, n) s'"
  proof (cases "rc1 = SUCCESS")
    case True
    obtain n' rc2 where p: "vd_publish c (PubJoints js) (d, n) = (n', rc2)" by fastforce
    have "is_topic_created_by_this d" "d_role d \<noteq> LEADER \<or> emergency_state d = EM_NONE"
      using st assms(2,3) by (simp_all add: still_def recovery_viewD)
    moreover have "s' = (d, n')" using assms(1) True by (simp add: publish_observation_def o p)
    ultimately show ?thesis using R_observation [OF p] by simp
  next
    case False
    with assms(1) show ?thesis by (simp add: publish_observation_def o R_refl)
  qed
  with R_still [OF st] show ?thesis by (rule R_trans)
qed

lemma publish_phase_related: "publish_phase c s = Some (s', rc) \<Longrightarrow> is_topic_created_by_this (fst s) \<Longrightarrow> R s s'"
  unfolding publish_phase_def
  by (cases s) (auto simp: is_in_emergency_recovery_def recovery_view_def split: if_splits
      intro: observation_related R_fields R_refl)

lemma watchdog_related: "check_client_heartbeat_watchdog c s = Some s' \<Longrightarrow> R s s'"
proof -
  assume w: "check_client_heartbeat_watchdog c s = Some s'"
  obtain d n where s: "s = (d, n)" by (cases s)
  define d1 where "d1 = d\<lparr>client_watchdog_tripped := True\<rparr>"
  have d1: "R (d, n) (d1, n)" by (rule R_fields) (simp_all add: d1_def recovery_view_def)
  have f: "vd_force_feedback c False (Fin (-1)) (d1, n) = Some (s2, rc) \<Longrightarrow> R (d, n) s2" for s2 rc
    using R_trans [OF d1] R_call [OF device_call_intros(6)] by blast
  define s1 where "s1 = set_pause_leader_command_listening True (d1, n)"
  have "R (d1, n) s1" by (auto simp: s1_def set_pause_leader_command_listening_def intro: R_fields)
  then have h: "vd_hold c s1 = Some (s2, rc) \<Longrightarrow> R (d, n) s2" for s2 rc
    using R_trans [OF R_trans [OF d1]] R_call [OF device_call_intros(9)] by blast
  show ?thesis
    using w
    by (auto simp: s check_client_heartbeat_watchdog_def Let_def d1_def [symmetric] s1_def [symmetric]
        intro: f h d1 R_refl split: option.splits if_split_asm)
qed

lemma topic_phase_related: "topic_phase c s = Some (s', rc) \<Longrightarrow> R s s'"
proof -
  assume t: "topic_phase c s = Some (s', rc)"
  consider "s' = s" | s1 rc1 where "publish_phase c s = Some (s1, rc1)" "is_topic_created_by_this (fst s)" "s' = s1"
    | s1 rc1 s2 where "publish_phase c s = Some (s1, rc1)" "is_topic_created_by_this (fst s)" "vd_topic_step c s1 = Some s2"
        "check_client_heartbeat_watchdog c s2 = Some s'"
    using t by (auto simp: topic_phase_def split: if_splits option.splits)
  then show ?thesis
  proof cases
    case 2
    then show ?thesis by (auto intro: publish_phase_related)
  next
    case 3
    have "R s s1" by (rule publish_phase_related) (rule 3)+
    moreover have "R s1 s2" by (rule R_call [OF device_call_intros(8)]) (simp add: as_call_def 3)
    moreover have "R s2 s'" by (rule watchdog_related) (rule 3)
    ultimately show ?thesis by (blast intro: R_trans)
  qed (simp add: R_refl)
qed

lemma andthen_related:
  assumes "\<And>s s' rc. f s = Some (s', rc) \<Longrightarrow> R s s'" "\<And>s s' rc. g s = Some (s', rc) \<Longrightarrow> R s s'" "andthen f g s = Some (s', rc)"
  shows "R s s'"
proof -
  obtain s1 rc1 where f: "f s = Some (s1, rc1)" using assms(3) by (auto simp: andthen_def split: option.splits)
  moreover have "R s1 s'" using assms(2,3) f by (auto simp: andthen_def R_refl split: if_splits)
  ultimately show ?thesis using assms(1) R_trans by blast
qed

lemma refresh_related: "refresh_heartbeat c s = Some (s', rc) \<Longrightarrow> R s s'"
  by (cases s) (auto simp: refresh_heartbeat_def recovery_view_def intro: R_fields)

lemma cycle_related:
  "andthen (work_phase c) (andthen (vd_write c) (andthen (topic_phase c) (refresh_heartbeat c))) s = Some (s', rc) \<Longrightarrow> R s s'"
proof (elim andthen_related [rotated 2])
  show "work_phase c s = Some (s', rc) \<Longrightarrow> R s s'" for s s' rc
    by (auto simp: work_phase_def split: if_splits intro: ready_cycle_related operate_related)
qed (blast intro: R_call [OF device_call_intros(2)] topic_phase_related refresh_related)+

lemma read_related: "read_phase c s = Some (s', rc) \<Longrightarrow> R s s'"
  using R_call [OF device_call_intros(1)] by (fastforce simp: read_phase_def split: option.splits)

end

text \<open>Recovery may advance, but does not fall back.\<close>

sublocale device_contract \<subseteq> advance: cycle_relation c advances
proof unfold_locales
  fix s s' rc
  show "vd_move_to_ready c s = Some (s', rc) \<Longrightarrow> advances s s'" by (rule calm_advances) (rule ready_move)
next
  fix js d n n' rc
  assume p: "vd_publish c (PubJoints js) (d, n) = (n', rc)" "is_topic_created_by_this d" "d_role d \<noteq> LEADER \<or> emergency_state d = EM_NONE"
  have "shutdown_notices n' = shutdown_notices n" using publish [OF p(1)] by (auto simp: shutdown_notices_def)
  with p(3) show "advances (d, n) (d, n')" by (auto simp: advances_def recovery_ok_def)
qed (blast intro: advances_trans still_advances)+

context device_contract
begin

lemma after_read_advances: "after_read c s = Some (s', rc) \<Longrightarrow> advances s s'"
proof -
  assume a: "after_read c s = Some (s', rc)"
  then obtain s1 where 1: "handle_command_request c s = Some s1" by (auto simp: after_read_def split: option.splits)
  with a obtain d n where 2: "handle_recovery_request c s1 = Some (d, n)" by (auto simp: after_read_def split: option.splits)
  define d1 where "d1 = check_emergency_timeout_locked (now_of c n) d"
  have "advances s (d1, n)"
    unfolding d1_def using command_advances [OF 1] recovery_request_advances [OF 2] timeout_advances advances_trans by blast
  also have "advances (d1, n) s'"
  proof (cases "emergency_state d1 = EM_TIMED_OUT")
    case True
    with a 1 2 show ?thesis by (simp add: after_read_def Let_def d1_def [symmetric]) (metis mark_advances)
  next
    case False
    then have "andthen (work_phase c) (andthen (vd_write c) (andthen (topic_phase c) (refresh_heartbeat c)))
        (publish_progress c (d1, n)) = Some (s', rc)"
      using a 1 2 by (simp add: after_read_def Let_def d1_def [symmetric])
    then show ?thesis using advances_trans [OF still_advances [OF progress_still]] advance.cycle_related by blast
  qed
  finally show ?thesis .
qed

lemma step_advances: "device_step c s = Some (s', rc) \<Longrightarrow> advances s s'"
  unfolding device_step_def by (erule advance.andthen_related [rotated 2]) (auto intro: advance.read_related after_read_advances)

lemma enter_advances: "advances s (enter_emergency_recovery c cause j s)"
proof -
  obtain d n where s: "s = (d, n)" by (cases s)
  show ?thesis
  proof (cases "emergency_state d = EM_NONE")
    case False
    then show ?thesis
      by (auto simp: s enter_emergency_recovery_def mark_joint_failed_during_recovery_def recovery_view_def intro: fields_advance)
  next
    case True
    define d1 where "d1 = d\<lparr>emergency_state := EM_REQUESTED, emergency_cause := code_of cause,
      emergency_failed_joint_id := j, slow_move_active := True,
      failed_joint_ids := (if cause = SAFE_MODE_SIG \<and> 0 \<le> j then [int16 j] else []), emergency_completed_published := False\<rparr>"
    define s1 where "s1 = set_pause_leader_command_listening True (d1, n)"
    define s2 where "s2 = fst (publish_device_info c DEVICE_INFO_ERROR_DETECTED [Fin 0] [code_of cause, j, 0] s1)"
    have e: "enter_emergency_recovery c cause j s = s2"
      using True by (simp add: s enter_emergency_recovery_def d1_def s1_def s2_def)
    have "still s1 s2"
      unfolding s2_def by (rule info_still) (simp add: DEVICE_INFO_ERROR_DETECTED_def DEVICE_INFO_SHUTDOWN_AFTER_ERROR_def)
    moreover have "still (d1, n) s1"
      unfolding s1_def set_pause_leader_command_listening_def by (auto intro: still_fields)
    ultimately have "advances (d1, n) s2" by (metis still_trans still_advances)
    moreover have "advances s (d1, n)"
      using True by (auto simp: s d1_def advances_def recovery_ok_def)
    ultimately show ?thesis unfolding e by (rule advances_trans [rotated])
  qed
qed

end

section \<open>A device that never completes its recovery\<close>

text \<open>A device whose ready move does not complete the recovery either: only the watchdog on the control loop does.\<close>

definition recovery_kept :: "'a device_scheme \<times> 'w node \<Rightarrow> 'a device_scheme \<times> 'w node \<Rightarrow> bool" where
  "recovery_kept s s' \<longleftrightarrow>
     recovery_view (fst s') = recovery_view (fst s) \<and> shutdown_notices (snd s') = shutdown_notices (snd s) \<and>
     (\<not> is_topic_created_by_this (fst s) \<longrightarrow> observations (snd s') = observations (snd s))"

lemma still_kept: "still s s' \<Longrightarrow> recovery_kept s s'"
  by (simp add: still_def recovery_kept_def)

locale patient_device = device_contract c for c :: "('a device_scheme, 'w) device_class" +
  assumes ready_still: "vd_move_to_ready c s = Some (s', rc) \<Longrightarrow> still s s'"

sublocale patient_device \<subseteq> kept: cycle_relation c recovery_kept
proof unfold_locales
  fix s s' rc
  show "vd_move_to_ready c s = Some (s', rc) \<Longrightarrow> recovery_kept s s'" by (rule still_kept) (rule ready_still)
next
  fix js d n n' rc
  assume "vd_publish c (PubJoints js) (d, n) = (n', rc)" "is_topic_created_by_this d"
  from publish [OF this(1)] this(2) show "recovery_kept (d, n) (d, n')" by (auto simp: recovery_kept_def shutdown_notices_def)
qed (auto simp: recovery_kept_def still_def recovery_viewD)

context patient_device
begin

lemma slow_move_goes_on:
  assumes "vd_read c s = Some ((d, n), rc)" "emergency_state d = EM_MOVING_SLOW" "move_to_ready_cmd_state d \<noteq> CMD_REQUESTED"
    and "cla_emergency_shutdown_timeout_ms (cla d) \<le> 0 \<or> elapsed_ms (last_step_heartbeat d) (now_of c n) < cla_emergency_shutdown_timeout_ms (cla d)"
    and "device_step c s = Some (s', rc')"
  shows "recovery_kept (d, n) s'"
proof -
  have read: "read_phase c s = Some ((d, n), SUCCESS)"
    using assms(1,2) by (simp add: read_phase_def is_in_emergency_recovery_def)
  have "check_emergency_timeout_locked (now_of c n) d = d"
    using assms(4) by (auto simp: check_emergency_timeout_locked_def)
  then have "after_read c (d, n) =
      andthen (work_phase c) (andthen (vd_write c) (andthen (topic_phase c) (refresh_heartbeat c))) (publish_progress c (d, n))"
    using assms(2,3) by (simp add: after_read_def handle_command_request_def handle_recovery_request_def)
  then have "recovery_kept (publish_progress c (d, n)) s'"
    using assms(5) read by (intro kept.cycle_related) (simp add: device_step_def andthen_def)
  with still_kept [OF progress_still] show ?thesis by (rule kept.R_trans)
qed

text \<open>Outside recovery a cycle starts none, and a device on the topic of another one publishes no observation.\<close>

lemma step_kept:
  assumes "device_step c s = Some (s', rc)" "emergency_state (fst s) = EM_NONE"
  shows "recovery_kept s s'"
proof -
  obtain s1 rc1 where r: "read_phase c s = Some (s1, rc1)"
    using assms(1) by (auto simp: device_step_def andthen_def split: option.splits)
  have k1: "recovery_kept s s1" by (rule kept.read_related [OF r])
  show ?thesis
  proof (cases "rc1 = SUCCESS")
    case True
    then have a: "after_read c s1 = Some (s', rc)" using assms(1) r by (simp add: device_step_def andthen_def)
    then obtain s2 where c2: "handle_command_request c s1 = Some s2" by (auto simp: after_read_def split: option.splits)
    have k2: "recovery_kept s1 s2"
    proof (cases "move_to_ready_cmd_state (fst s1) = CMD_REQUESTED")
      case True
      with c2 obtain d n where b: "begin_ready_move c s1 = Some (d, n)" and s2: "s2 = (d\<lparr>move_to_ready_cmd_state := CMD_MOVING\<rparr>, n)"
        by (auto simp: handle_command_request_def split: option.splits)
      have "recovery_kept (d, n) s2" unfolding s2 by (rule kept.R_fields) (simp_all add: recovery_view_def)
      with still_kept [OF begin_ready_move_still [OF b]] show ?thesis by (rule kept.R_trans)
    next
      case False
      with c2 show ?thesis by (simp add: handle_command_request_def kept.R_refl)
    qed
    have k12: "recovery_kept s s2" by (rule kept.R_trans [OF k1 k2])
    then have none: "emergency_state (fst s2) = EM_NONE" using assms(2) by (simp add: recovery_kept_def recovery_viewD)
    have "andthen (work_phase c) (andthen (vd_write c) (andthen (topic_phase c) (refresh_heartbeat c))) (publish_progress c s2) = Some (s', rc)"
      using a c2 none by (cases s2) (simp add: after_read_def handle_recovery_request_def check_emergency_timeout_locked_def)
    then have "recovery_kept s2 s'" using kept.R_trans [OF still_kept [OF progress_still]] kept.cycle_related by blast
    with k12 show ?thesis by (rule kept.R_trans)
  next
    case False
    with assms(1) r k1 show ?thesis by (simp add: device_step_def andthen_def)
  qed
qed

end

section \<open>Runs of a device\<close>

text \<open>
  The main loop steps the device and enters recovery when a step fails; client commands arrive; the driver and the clock go on by themselves.
\<close>

inductive device_run ::
  "('a device_scheme, 'w) device_class \<Rightarrow> 'a device_scheme \<times> 'w node \<Rightarrow> 'a device_scheme \<times> 'w node \<Rightarrow> bool" for c where
  run_start: "device_run c s s"
| run_step: "device_run c s s' \<Longrightarrow> device_step c s' = Some (s'', rc) \<Longrightarrow> device_run c s s''"
| run_enter: "device_run c s s' \<Longrightarrow> device_run c s (enter_emergency_recovery c cause j s')"
| run_request: "device_run c s (d, n) \<Longrightarrow> device_run c s (request_move_to_ready_position i d, n)"
| run_request_stop: "device_run c s (d, n) \<Longrightarrow> device_run c s (request_move_to_ready_and_stop i d, n)"
| run_heartbeat: "device_run c s (d, n) \<Longrightarrow> device_run c s (note_client_heartbeat t d, n)"
| run_world: "device_run c s (d, n) \<Longrightarrow> device_run c s (d, n\<lparr>n_drv := w\<rparr>)"

context device_contract
begin

lemma run_advances: "device_run c s s' \<Longrightarrow> advances s s'"
proof (induction rule: device_run.induct)
  case (run_step s s' s'' rc)
  then show ?case using step_advances advances_trans by blast
next
  case (run_enter s s' cause j)
  then show ?case using enter_advances advances_trans by blast
next
  case (run_request s d n i)
  moreover have "advances (d, n) (request_move_to_ready_position i d, n)"
    by (rule fields_advance) (simp_all add: request_move_to_ready_position_def recovery_view_def)
  ultimately show ?case using advances_trans by blast
next
  case (run_request_stop s d n i)
  moreover have "advances (d, n) (request_move_to_ready_and_stop i d, n)"
    by (rule fields_advance) (simp_all add: request_move_to_ready_and_stop_def request_move_to_ready_position_def recovery_view_def)
  ultimately show ?case using advances_trans by blast
next
  case (run_heartbeat s d n t)
  moreover have "advances (d, n) (note_client_heartbeat t d, n)"
    by (rule fields_advance) (simp_all add: note_client_heartbeat_def recovery_view_def)
  ultimately show ?case using advances_trans by blast
next
  case (run_world s d n w)
  moreover have "advances (d, n) (d, n\<lparr>n_drv := w\<rparr>)" by (rule fields_advance) simp_all
  ultimately show ?case using advances_trans by blast
qed simp

end

section \<open>Property\<close>

text \<open>C18: A control loop that hung during the slow ready move ends the recovery: when the gap since the last completed cycle reaches the
  configured limit, the next cycle moves nothing. It completes the recovery, offers the shutdown notice with the first cause
  to the topic, and stops the topic, so that the main loop ends. Below the limit, or with the limit disabled, it does not.
\<close>

theorem hung_loop_is_parked:
  assumes "vd_read c s = Some ((d, n), rc)" "emergency_state d = EM_MOVING_SLOW" "\<not> emergency_completed_published d"
    and "move_to_ready_cmd_state d \<noteq> CMD_REQUESTED" "has_topic d"
  defines "limit \<equiv> cla_emergency_shutdown_timeout_ms (cla d)" and "gap \<equiv> elapsed_ms (last_step_heartbeat d) (now_of c n)"
  shows "(0 < limit \<and> limit \<le> gap \<longrightarrow>
            (\<exists>d' n'. device_step c s = Some ((d', n'), SUCCESS) \<and> emergency_state d' = EM_COMPLETED \<and> \<not> device_is_running (d', n') \<and>
               n' = (fst (vd_publish c
                       (PubInfo DEVICE_INFO_SHUTDOWN_AFTER_ERROR [Fin 1] [emergency_cause d, emergency_failed_joint_id d, 0])
                       (d', n)))\<lparr>n_running := False\<rparr>)) \<and>
         (limit \<le> 0 \<or> gap < limit \<longrightarrow> emergency_state (check_emergency_timeout_locked (now_of c n) d) = EM_MOVING_SLOW)"
proof (intro conjI impI)
  assume stale: "0 < limit \<and> limit \<le> gap"
  define d1 where "d1 = d\<lparr>emergency_state := EM_TIMED_OUT\<rparr>"
  define d' where "d' = d1\<lparr>emergency_state := EM_COMPLETED, emergency_completed_published := True\<rparr>"
  define ev where "ev = PubInfo DEVICE_INFO_SHUTDOWN_AFTER_ERROR [Fin 1] [emergency_cause d, emergency_failed_joint_id d, 0]"
  obtain n1 rc1 where p: "vd_publish c ev (d', n) = (n1, rc1)" by fastforce
  have read: "read_phase c s = Some ((d, n), SUCCESS)"
    using assms(1,2) by (simp add: read_phase_def is_in_emergency_recovery_def)
  have "check_emergency_timeout_locked (now_of c n) d = d1"
    using stale assms(2) by (simp add: check_emergency_timeout_locked_def d1_def limit_def gap_def)
  then have "after_read c (d, n) = Some (mark_emergency_recovery_completed c (d1, n), SUCCESS)"
    using assms(2,4) by (simp add: after_read_def handle_command_request_def handle_recovery_request_def d1_def)
  moreover have "mark_emergency_recovery_completed c (d1, n) = (d', n1\<lparr>n_running := False\<rparr>)"
    using assms(3,5) p
    by (simp add: mark_emergency_recovery_completed_def d1_def d'_def ev_def publish_device_info_def topic_stop_def)
  ultimately have "device_step c s = Some ((d', n1\<lparr>n_running := False\<rparr>), SUCCESS)"
    using read by (simp add: device_step_def andthen_def)
  then show "\<exists>d' n'. device_step c s = Some ((d', n'), SUCCESS) \<and> emergency_state d' = EM_COMPLETED \<and> \<not> device_is_running (d', n') \<and>
      n' = (fst (vd_publish c (PubInfo DEVICE_INFO_SHUTDOWN_AFTER_ERROR [Fin 1] [emergency_cause d, emergency_failed_joint_id d, 0])
              (d', n)))\<lparr>n_running := False\<rparr>"
    using p by (intro exI [of _ d'] exI [of _ "n1\<lparr>n_running := False\<rparr>"]) (simp add: d'_def ev_def device_is_running_def)
next
  assume "limit \<le> 0 \<or> gap < limit"
  then show "emergency_state (check_emergency_timeout_locked (now_of c n) d) = EM_MOVING_SLOW"
    using assms(2) by (auto simp: check_emergency_timeout_locked_def limit_def gap_def)
qed

section \<open>Witness\<close>

text \<open>A device whose virtual functions do nothing, with the clock as the state of its driver.\<close>

definition idle_dcall :: "('d, nat) dcall" where
  "idle_dcall s = Some (s, SUCCESS)"

definition idle_device :: "(device, nat) device_class" where
  "idle_device =
     \<lparr>vd_park = idle_dcall, vd_read = idle_dcall, vd_write = idle_dcall, vd_move_to_ready = idle_dcall, vd_leader = idle_dcall,
      vd_follower = idle_dcall, vd_set_control_mode = (\<lambda>_ _. idle_dcall), vd_clear_buffers = (\<lambda>_. id), vd_reset_ready = base_reset_ready,
      vd_observation = (\<lambda>s. Some (s, [], SUCCESS)), vd_completion_ratio = (\<lambda>d. (d, Fin 0)), vd_force_feedback = (\<lambda>_ _. idle_dcall),
      vd_hold = runtime_hold (\<lambda>_. id) (\<lambda>t. t), vd_open = (\<lambda>w. (w, SUCCESS)), vd_close = (\<lambda>w. (w, SUCCESS)), vd_arm = (\<lambda>w. (w, SUCCESS)),
      vd_now = (\<lambda>t. t), vd_publish = (\<lambda>e s. ((snd s)\<lparr>n_events := n_events (snd s) @ [e]\<rparr>, SUCCESS)), vd_topic_step = Some\<rparr>"

definition sample_args :: cla_args where
  "sample_args =
     \<lparr>cla_role = LEADER, cla_device_model = ''A_Yam'', cla_planning_type = ''None'', cla_force_feedback = Fin (-1),
      cla_control_frequency = 100, cla_emergency_shutdown_timeout_ms = 2000, cla_move_to_ready_vel_rad_s_normal = Fin (3/10),
      cla_move_to_ready_vel_rad_s_error = Fin (1/5), cla_dont_go_to_home_pos = False, cla_msg_type = JOINT_INFO\<rparr>"

definition slow_device :: device where
  "slow_device = (new_device_object sample_args)\<lparr>has_topic := True, d_role := LEADER, emergency_state := EM_MOVING_SLOW,
     emergency_cause := -20, emergency_failed_joint_id := 3, last_step_heartbeat := 1000000\<rparr>"

definition node_at :: "nat \<Rightarrow> nat node" where
  "node_at t = \<lparr>n_drv = t, n_events = [], n_running = True, n_paused = False, n_msg_id = 0\<rparr>"

theorem hung_loop_is_parked_witness:
  "\<exists>d' n'. device_step idle_device (slow_device, node_at 3000000) = Some ((d', n'), SUCCESS) \<and>
     emergency_state d' = EM_COMPLETED \<and> \<not> n_running n' \<and> shutdown_notices n' \<noteq> []"
proof -
  have read: "vd_read idle_device (slow_device, node_at 3000000) = Some ((slow_device, node_at 3000000), SUCCESS)"
    by (simp add: idle_device_def idle_dcall_def)
  have gap: "elapsed_ms (last_step_heartbeat slow_device) (now_of idle_device (node_at 3000000)) = 2000"
    by (simp add: elapsed_ms_def slow_device_def now_of_def idle_device_def node_at_def)
  show ?thesis
    using hung_loop_is_parked [OF read] gap
    by (force simp: slow_device_def new_device_object_def sample_args_def device_is_running_def idle_device_def node_at_def shutdown_notices_def)
qed

end
