(* ===== verification/Topic.thy ===== *)
theory Topic
  imports Device_Recovery
begin

text \<open>
  The command dispatcher of \<^verbatim>\<open>native/pi_control/src/pi_topic.cpp\<close>: what a received command, joint target, direct target,
  joystick sample or follower state does to the device. The virtual functions of the device that a message may call are a record.
  A topic is created by its device and always has one, so the tests for a null device are left out.
\<close>

section \<open>Messages\<close>

definition DEVICE_COMMAND_STOP :: int where "DEVICE_COMMAND_STOP = 1"
definition DEVICE_COMMAND_SET_EFFECTOR_MIN_MAX_POS :: int where "DEVICE_COMMAND_SET_EFFECTOR_MIN_MAX_POS = 10"
definition DEVICE_COMMAND_SET_DISTANCE_TO_TORQUE :: int where "DEVICE_COMMAND_SET_DISTANCE_TO_TORQUE = 11"
definition DEVICE_COMMAND_SET_EFFECTOR_KD :: int where "DEVICE_COMMAND_SET_EFFECTOR_KD = 12"
definition DEVICE_COMMAND_MOVE_TO_READY_POS :: int where "DEVICE_COMMAND_MOVE_TO_READY_POS = 13"
definition DEVICE_COMMAND_PAUSE_LEADER_COMMAND_LISTENING :: int where "DEVICE_COMMAND_PAUSE_LEADER_COMMAND_LISTENING = 14"
definition DEVICE_COMMAND_RESUME_LEADER_COMMAND_LISTENING :: int where "DEVICE_COMMAND_RESUME_LEADER_COMMAND_LISTENING = 15"
definition DEVICE_COMMAND_MOVE_TO_READY_POS_AND_PAUSE_LEADER_COMMAND_LISTENING :: int where "DEVICE_COMMAND_MOVE_TO_READY_POS_AND_PAUSE_LEADER_COMMAND_LISTENING = 16"
definition DEVICE_COMMAND_MOVE_TO_READY_AND_STOP :: int where "DEVICE_COMMAND_MOVE_TO_READY_AND_STOP = 17"
definition DEVICE_COMMAND_ENTER_GRAVITY_COMPENSATION :: int where "DEVICE_COMMAND_ENTER_GRAVITY_COMPENSATION = 30"
definition DEVICE_COMMAND_ENABLE_FORCE_FEEDBACK :: int where "DEVICE_COMMAND_ENABLE_FORCE_FEEDBACK = 31"
definition DEVICE_COMMAND_SET_FORCE_FEEDBACK_GAIN :: int where "DEVICE_COMMAND_SET_FORCE_FEEDBACK_GAIN = 32"
definition DEVICE_COMMAND_HOLD :: int where "DEVICE_COMMAND_HOLD = 33"
definition DEVICE_COMMAND_HEARTBEAT :: int where "DEVICE_COMMAND_HEARTBEAT = 34"
definition DEVICE_COMMAND_SET_TORQ_RESCALE :: int where "DEVICE_COMMAND_SET_TORQ_RESCALE = 35"

lemmas command_codes =
  DEVICE_COMMAND_STOP_def
  DEVICE_COMMAND_SET_EFFECTOR_MIN_MAX_POS_def
  DEVICE_COMMAND_SET_DISTANCE_TO_TORQUE_def
  DEVICE_COMMAND_SET_EFFECTOR_KD_def
  DEVICE_COMMAND_MOVE_TO_READY_POS_def
  DEVICE_COMMAND_PAUSE_LEADER_COMMAND_LISTENING_def
  DEVICE_COMMAND_RESUME_LEADER_COMMAND_LISTENING_def
  DEVICE_COMMAND_MOVE_TO_READY_POS_AND_PAUSE_LEADER_COMMAND_LISTENING_def
  DEVICE_COMMAND_MOVE_TO_READY_AND_STOP_def
  DEVICE_COMMAND_ENTER_GRAVITY_COMPENSATION_def
  DEVICE_COMMAND_ENABLE_FORCE_FEEDBACK_def
  DEVICE_COMMAND_SET_FORCE_FEEDBACK_GAIN_def
  DEVICE_COMMAND_HOLD_def
  DEVICE_COMMAND_HEARTBEAT_def
  DEVICE_COMMAND_SET_TORQ_RESCALE_def

record msg_command =
  mc_command :: int
  mc_num_param_float :: int
  mc_num_param_int :: int
  mc_param_float :: "flt list"
  mc_param_int :: "int list"

datatype Side = LEFT | RIGHT

record msg_joystick =
  js_side :: Side
  js_channel :: "flt list"
  js_button :: "int list"
  js_raw_channel :: "int list"
  js_mode :: int

text \<open>The functions of the device that messages reach; an arm is no effector, and its class cast fails.\<close>

record ('d, 'w) message_target =
  mt_apply_joints :: "data_joint list \<Rightarrow> ('d, 'w) dcall"
  mt_apply_joystick :: "msg_joystick \<Rightarrow> ('d, 'w) dcall"
  mt_follower_msg :: "data_joint list \<Rightarrow> ('d, 'w) dcall"
  mt_force_feedback :: "bool \<Rightarrow> flt \<Rightarrow> ('d, 'w) dcall"
  mt_force_feedback_gain :: "flt \<Rightarrow> ('d, 'w) dcall"
  mt_hold :: "('d, 'w) dcall"
  mt_gravity_float :: "bool \<Rightarrow> flt \<Rightarrow> ('d, 'w) dcall"
  mt_torq_rescale :: "flt list \<Rightarrow> ('d, 'w) dcall"
  mt_is_effector :: bool
  mt_effector_min_max :: "flt \<Rightarrow> flt \<Rightarrow> ('d, 'w) dcall"
  mt_distance_to_torque :: "flt \<Rightarrow> ('d, 'w) dcall"
  mt_effector_kd :: "flt \<Rightarrow> ('d, 'w) dcall"
  mt_request_ready :: "int \<Rightarrow> 'd \<Rightarrow> 'd"
  mt_request_stop :: "int \<Rightarrow> 'd \<Rightarrow> 'd"
  mt_now :: "'w \<Rightarrow> nat"

definition kGravityFloatAbortRadDefault :: flt where
  "kGravityFloatAbortRadDefault = lit32 (1/4)"

section \<open>Commands\<close>

definition request_id_of :: "msg_command \<Rightarrow> int" where
  "request_id_of m = (if 0 < mc_num_param_int m then mc_param_int m ! 0 else 0)"

definition counts_match :: "msg_command \<Rightarrow> bool" where
  "counts_match m \<longleftrightarrow>
     0 \<le> mc_num_param_float m \<and> mc_num_param_float m = int (length (mc_param_float m)) \<and>
     0 \<le> mc_num_param_int m \<and> mc_num_param_int m = int (length (mc_param_int m))"

definition pause_follower :: "'a device_scheme \<Rightarrow> 'w node \<Rightarrow> 'w node" where
  "pause_follower d n = (if d_role d = FOLLOWER then n\<lparr>n_paused := True\<rparr> else n)"

definition lifecycle_command :: "('a device_scheme, 'w) message_target \<Rightarrow> msg_command \<Rightarrow> ('a device_scheme, 'w) dcall option" where
  "lifecycle_command T m =
     (let cmd = mc_command m
      in if cmd = DEVICE_COMMAND_STOP then Some (\<lambda>(d, n). Some ((d, n\<lparr>n_running := False\<rparr>), SUCCESS))
         else if cmd = DEVICE_COMMAND_PAUSE_LEADER_COMMAND_LISTENING then Some (\<lambda>(d, n). Some ((d, pause_follower d n), SUCCESS))
         else if cmd = DEVICE_COMMAND_RESUME_LEADER_COMMAND_LISTENING
         then Some (\<lambda>(d, n). Some ((d, if d_role d = FOLLOWER then n\<lparr>n_paused := False\<rparr> else n), SUCCESS))
         else if cmd = DEVICE_COMMAND_MOVE_TO_READY_POS_AND_PAUSE_LEADER_COMMAND_LISTENING
         then Some (\<lambda>(d, n). Some ((mt_request_ready T (request_id_of m) d, pause_follower d n), SUCCESS))
         else if cmd = DEVICE_COMMAND_MOVE_TO_READY_AND_STOP
         then Some (\<lambda>(d, n). Some ((mt_request_stop T (request_id_of m) d, pause_follower d n), SUCCESS))
         else if cmd = DEVICE_COMMAND_MOVE_TO_READY_POS
         then Some (\<lambda>(d, n). Some ((mt_request_ready T (request_id_of m) d, n), SUCCESS))
         else None)"

definition refuse :: "ReturnCode \<Rightarrow> ('d, 'w) dcall" where
  "refuse rc s = Some (s, rc)"

definition mode_command :: "('a device_scheme, 'w) message_target \<Rightarrow> msg_command \<Rightarrow> ('a device_scheme, 'w) dcall option" where
  "mode_command T m =
     (let cmd = mc_command m; given = 0 < mc_num_param_float m; f0 = mc_param_float m ! 0
      in if cmd = DEVICE_COMMAND_ENTER_GRAVITY_COMPENSATION
         then Some (\<lambda>s. if d_role (fst s) = FOLLOWER
                        then mt_gravity_float T True (if given then f0 else kGravityFloatAbortRadDefault) s
                        else mt_force_feedback T False (Fin (-1)) s)
         else if cmd = DEVICE_COMMAND_ENABLE_FORCE_FEEDBACK
         then Some (\<lambda>s. mt_force_feedback T True (if given then f0 else cla_force_feedback (cla (fst s))) s)
         else if cmd = DEVICE_COMMAND_SET_FORCE_FEEDBACK_GAIN
         then Some (if mc_num_param_float m \<noteq> 1 then refuse INVALID_PARAM else mt_force_feedback_gain T f0)
         else if cmd = DEVICE_COMMAND_HOLD then Some (mt_hold T)
         else if cmd = DEVICE_COMMAND_SET_TORQ_RESCALE
         then Some (if \<not> given \<or> int (length (mc_param_float m)) < mc_num_param_float m then refuse INVALID_PARAM
                    else mt_torq_rescale T (take (nat (mc_num_param_float m)) (mc_param_float m)))
         else None)"

definition effector_command :: "('a device_scheme, 'w) message_target \<Rightarrow> msg_command \<Rightarrow> ('a device_scheme, 'w) dcall option" where
  "effector_command T m =
     (let cmd = mc_command m; k = mc_num_param_float m; f = (\<lambda>i. mc_param_float m ! i);
          guarded = (\<lambda>expected call. if k \<noteq> expected then refuse INVALID_PARAM
                                     else if \<not> mt_is_effector T then refuse NOT_SUPPORTED else call)
      in if cmd = DEVICE_COMMAND_SET_EFFECTOR_MIN_MAX_POS then Some (guarded 2 (mt_effector_min_max T (f 0) (f 1)))
         else if cmd = DEVICE_COMMAND_SET_DISTANCE_TO_TORQUE then Some (guarded 1 (mt_distance_to_torque T (f 0)))
         else if cmd = DEVICE_COMMAND_SET_EFFECTOR_KD then Some (guarded 1 (mt_effector_kd T (f 0)))
         else None)"

definition process_command :: "('a device_scheme, 'w) message_target \<Rightarrow> msg_command \<Rightarrow> ('a device_scheme, 'w) dcall" where
  "process_command T m s =
     (case s of (d, n) \<Rightarrow>
        if mc_command m = DEVICE_COMMAND_HEARTBEAT then Some ((note_client_heartbeat (mt_now T (n_drv n)) d, n), SUCCESS)
        else if is_in_emergency_recovery d \<and> mc_command m \<noteq> DEVICE_COMMAND_STOP \<and>
                mc_command m \<noteq> DEVICE_COMMAND_MOVE_TO_READY_AND_STOP then Some (s, BUSY)
        else if mc_command m \<noteq> DEVICE_COMMAND_STOP \<and> \<not> counts_match m then Some (s, INVALID_PARAM)
        else case lifecycle_command T m of
               Some call \<Rightarrow> call s
             | None \<Rightarrow>
                 (case mode_command T m of
                    Some call \<Rightarrow> call s
                  | None \<Rightarrow> (case effector_command T m of Some call \<Rightarrow> call s | None \<Rightarrow> Some (s, SUCCESS))))"

section \<open>Joint targets, joystick samples and follower states\<close>

definition process_leader_joints :: "('a device_scheme, 'w) message_target \<Rightarrow> data_joint list \<Rightarrow> ('a device_scheme, 'w) dcall" where
  "process_leader_joints T js s =
     (if is_in_emergency_recovery (fst s) then Some (s, SUCCESS)
      else if d_role (fst s) = FOLLOWER \<and> n_paused (snd s) then Some (s, SUCCESS)
      else mt_apply_joints T js s)"

definition process_direct_joints :: "('a device_scheme, 'w) message_target \<Rightarrow> data_joint list \<Rightarrow> ('a device_scheme, 'w) dcall" where
  "process_direct_joints T js s =
     (if d_role (fst s) \<noteq> FOLLOWER then Some (s, NOT_SUPPORTED)
      else if rejects_direct_commands (fst s) then Some (s, BUSY)
      else mt_apply_joints T js s)"

definition process_joystick :: "('a device_scheme, 'w) message_target \<Rightarrow> msg_joystick \<Rightarrow> ('a device_scheme, 'w) dcall" where
  "process_joystick T m s = (if is_in_emergency_recovery (fst s) then Some (s, SUCCESS) else mt_apply_joystick T m s)"

definition process_follower_joints :: "('a device_scheme, 'w) message_target \<Rightarrow> data_joint list \<Rightarrow> ('a device_scheme, 'w) dcall" where
  "process_follower_joints T js = mt_follower_msg T js"

text \<open>Everything a client or a leader may send.\<close>

datatype client_message =
  ClientCommand msg_command
| LeaderJoints "data_joint list"
| DirectJoints "data_joint list"
| JoystickSample msg_joystick

fun dispatch :: "('a device_scheme, 'w) message_target \<Rightarrow> client_message \<Rightarrow> ('a device_scheme, 'w) dcall" where
  "dispatch T (ClientCommand m) = process_command T m"
| "dispatch T (LeaderJoints js) = process_leader_joints T js"
| "dispatch T (DirectJoints js) = process_direct_joints T js"
| "dispatch T (JoystickSample m) = process_joystick T m"

text \<open>What the functions of a device that messages reach leave alone, the dispatcher leaves alone; at least the recovery, with \<open>still\<close> for \<open>R\<close>.\<close>

inductive message_call_of :: "('d, 'w) message_target \<Rightarrow> ('d, 'w) dcall \<Rightarrow> bool" for T where
  "message_call_of T (mt_apply_joints T js)"
| "message_call_of T (mt_apply_joystick T m)"
| "message_call_of T (mt_follower_msg T js)"
| "message_call_of T (mt_force_feedback T b g)"
| "message_call_of T (mt_force_feedback_gain T g)"
| "message_call_of T (mt_hold T)"
| "message_call_of T (mt_gravity_float T b g)"
| "message_call_of T (mt_torq_rescale T fs)"
| "message_call_of T (mt_effector_min_max T lo hi)"
| "message_call_of T (mt_distance_to_torque T g)"
| "message_call_of T (mt_effector_kd T g)"

locale message_contract = publisher c for c :: "('a device_scheme, 'w) device_class" +
  fixes T :: "('a device_scheme, 'w) message_target" and R :: "'a device_scheme \<times> 'w node \<Rightarrow> 'a device_scheme \<times> 'w node \<Rightarrow> bool"
  assumes R_trans [trans]: "R s s' \<Longrightarrow> R s' s'' \<Longrightarrow> R s s''"
    and R_base: "still s s' \<Longrightarrow> device.more (fst s') = device.more (fst s) \<Longrightarrow> R s s'"
    and target: "message_call_of T f \<Longrightarrow> f s = Some (s', rc) \<Longrightarrow> R s s'"
    and request: "R (d, n) (mt_request_ready T i d, n)" "R (d, n) (mt_request_stop T i d, n)"
begin

lemmas target_calls = message_call_of.intros [THEN target]

lemma R_refl: "R s s"
  by (rule R_base) simp_all

lemma refuse_related: "refuse k s = Some (s', rc) \<Longrightarrow> R s s'"
  by (simp add: refuse_def R_refl)

lemma node_related: "n_events n' = n_events n \<Longrightarrow> R (d, n) (d, n')"
  by (rule R_base) (simp_all add: still_fields)

lemma lifecycle_related: "lifecycle_command T m = Some call \<Longrightarrow> call s = Some (s', rc) \<Longrightarrow> R s s'"
  by (cases s) (auto simp: lifecycle_command_def Let_def pause_follower_def intro: node_related request R_refl
      R_trans [OF request(1) node_related] R_trans [OF request(2) node_related] split: if_splits)

lemma mode_related: "mode_command T m = Some call \<Longrightarrow> call s = Some (s', rc) \<Longrightarrow> R s s'"
  by (auto simp: mode_command_def Let_def split: if_splits intro: refuse_related target_calls)

lemma effector_related: "effector_command T m = Some call \<Longrightarrow> call s = Some (s', rc) \<Longrightarrow> R s s'"
  by (auto simp: effector_command_def Let_def split: if_splits intro: refuse_related target_calls)

lemma heartbeat_related: "R (d, n) (note_client_heartbeat t d, n)"
  by (rule R_base) (simp_all add: note_client_heartbeat_def recovery_view_def still_fields)

lemma command_related: "process_command T m s = Some (s', rc) \<Longrightarrow> R s s'"
  by (cases s) (auto simp: process_command_def split: if_splits option.splits
      intro: R_refl heartbeat_related lifecycle_related mode_related effector_related)

lemma leader_joints_related: "process_leader_joints T js s = Some (s', rc) \<Longrightarrow> R s s'"
  by (auto simp: process_leader_joints_def split: if_splits intro: target_calls R_refl)

lemma direct_joints_related: "process_direct_joints T js s = Some (s', rc) \<Longrightarrow> R s s'"
  by (auto simp: process_direct_joints_def split: if_splits intro: target_calls R_refl)

lemma joystick_related: "process_joystick T m s = Some (s', rc) \<Longrightarrow> R s s'"
  by (auto simp: process_joystick_def split: if_splits intro: target_calls R_refl)

lemma follower_joints_related: "process_follower_joints T js s = Some (s', rc) \<Longrightarrow> R s s'"
  unfolding process_follower_joints_def by (rule target_calls)

end

text \<open>The target of a message is at most this in recovery.\<close>

inductive recovery_reaction ::
  "('a device_scheme, 'w) message_target \<Rightarrow> 'a device_scheme \<times> 'w node \<Rightarrow> 'a device_scheme \<times> 'w node \<Rightarrow> bool" for T where
  "recovery_reaction T s s"
| "recovery_reaction T (d, n) (note_client_heartbeat t d, n)"
| "recovery_reaction T (d, n) (d, n\<lparr>n_running := False\<rparr>)"
| "recovery_reaction T (d, n) (mt_request_stop T i d, pause_follower d n)"

section \<open>Properties\<close>

lemma lifecycle_in_recovery:
  "mc_command m = DEVICE_COMMAND_STOP \<or> mc_command m = DEVICE_COMMAND_MOVE_TO_READY_AND_STOP \<Longrightarrow>
   \<exists>call. lifecycle_command T m = Some call \<and> (call s = Some (s', rc) \<longrightarrow> recovery_reaction T s s')"
  by (cases s) (auto simp: lifecycle_command_def command_codes intro: recovery_reaction.intros)

text \<open>C17: While a device is in emergency recovery, no command, joint target, direct target or joystick sample reaches its targets or
  modes: the device stays as it is, except that a heartbeat is noted, the topic is stopped, or a ready move followed by a stop is requested.
  Every other command is answered with BUSY and direct targets with BUSY or NOT_SUPPORTED.
\<close>

theorem recovery_ignores_commands:
  assumes "is_in_emergency_recovery (fst s)" "dispatch T m s = Some (s', rc)"
  shows "recovery_reaction T s s' \<and>
     (\<forall>cmd. m = ClientCommand cmd \<and>
        mc_command cmd \<notin> {DEVICE_COMMAND_STOP, DEVICE_COMMAND_MOVE_TO_READY_AND_STOP, DEVICE_COMMAND_HEARTBEAT} \<longrightarrow>
        s' = s \<and> rc = BUSY) \<and>
     (\<forall>js. m = DirectJoints js \<longrightarrow> s' = s \<and> rc \<in> {BUSY, NOT_SUPPORTED})"
proof (cases m)
  case (ClientCommand cmd)
  obtain d n where s: "s = (d, n)" by (cases s)
  consider "mc_command cmd = DEVICE_COMMAND_HEARTBEAT"
    | "mc_command cmd = DEVICE_COMMAND_STOP \<or> mc_command cmd = DEVICE_COMMAND_MOVE_TO_READY_AND_STOP"
    | "mc_command cmd \<notin> {DEVICE_COMMAND_STOP, DEVICE_COMMAND_MOVE_TO_READY_AND_STOP, DEVICE_COMMAND_HEARTBEAT}" by auto
  then show ?thesis
  proof cases
    case 1
    with assms show ?thesis by (auto simp: ClientCommand s process_command_def intro: recovery_reaction.intros)
  next
    case 2
    then show ?thesis
      using assms lifecycle_in_recovery [OF 2, of T s s' rc]
      by (auto simp: ClientCommand s process_command_def command_codes intro: recovery_reaction.intros split: if_splits)
  next
    case 3
    with assms show ?thesis by (auto simp: ClientCommand s process_command_def intro: recovery_reaction.intros)
  qed
next
  case (LeaderJoints js)
  with assms show ?thesis by (auto simp: process_leader_joints_def intro: recovery_reaction.intros)
next
  case (DirectJoints js)
  with assms show ?thesis
    by (auto simp: process_direct_joints_def rejects_direct_commands_def is_in_emergency_recovery_def
        intro: recovery_reaction.intros split: if_splits)
next
  case (JoystickSample js)
  with assms show ?thesis by (auto simp: process_joystick_def intro: recovery_reaction.intros)
qed

section \<open>Witness\<close>

definition idle_target :: "(device, nat) message_target" where
  "idle_target =
     \<lparr>mt_apply_joints = (\<lambda>_. idle_dcall), mt_apply_joystick = (\<lambda>_. idle_dcall), mt_follower_msg = (\<lambda>_. idle_dcall),
      mt_force_feedback = (\<lambda>_ _. idle_dcall), mt_force_feedback_gain = (\<lambda>_. idle_dcall), mt_hold = idle_dcall,
      mt_gravity_float = (\<lambda>_ _. idle_dcall), mt_torq_rescale = (\<lambda>_. idle_dcall), mt_is_effector = False,
      mt_effector_min_max = (\<lambda>_ _. idle_dcall), mt_distance_to_torque = (\<lambda>_. idle_dcall), mt_effector_kd = (\<lambda>_. idle_dcall),
      mt_request_ready = request_move_to_ready_position, mt_request_stop = request_move_to_ready_and_stop, mt_now = (\<lambda>t. t)\<rparr>"

definition ready_command :: msg_command where
  "ready_command = \<lparr>mc_command = DEVICE_COMMAND_MOVE_TO_READY_POS, mc_num_param_float = 0, mc_num_param_int = 1,
     mc_param_float = [], mc_param_int = [7]\<rparr>"

theorem recovery_ignores_commands_witness:
  "\<exists>rc. dispatch idle_target (ClientCommand ready_command) (slow_device, node_at 5) = Some ((slow_device, node_at 5), rc) \<and> rc = BUSY"
proof -
  have d: "dispatch idle_target (ClientCommand ready_command) (slow_device, node_at 5) = Some ((slow_device, node_at 5), BUSY)"
    by (simp add: process_command_def ready_command_def command_codes is_in_emergency_recovery_def slow_device_def)
  have "is_in_emergency_recovery (fst (slow_device, node_at 5))" by (simp add: is_in_emergency_recovery_def slow_device_def)
  from recovery_ignores_commands [OF this d] d show ?thesis by (auto simp: ready_command_def command_codes)
qed

end
