(* ===== verification/Topic_Zmq.thy ===== *)
theory Topic_Zmq
  imports Topic
begin

text \<open>
  The ZeroMQ topic, \<^verbatim>\<open>native/pi_control/src/pi_topic_zmq.cpp\<close>: the ports of a topic, the queues of received frames and how
  they are drained to the latest sample, the decoding of wire messages, one topic step, and what publishing checks. ZeroMQ itself is outside the model:
  a subscriber socket is the list of frames that have arrived, each with the flag that more frames of the same message follow, and the
  reinterpretation of bytes as wire structures is a parameter.
\<close>

section \<open>Ports\<close>

definition fnv1a_32 :: "string \<Rightarrow> u32" where
  "fnv1a_32 s = foldl (\<lambda>h c. (h XOR of_nat (of_char c)) * 16777619) 2166136261 s"

function skip_fives :: "int \<Rightarrow> int" where
  "skip_fives step = (if step mod 5 = 0 then skip_fives (step + 2) else step)"
  by auto
termination
  by (relation "measure (\<lambda>step. if step mod 5 = 0 then 1 else 0)") (simp_all, presburger)

declare skip_fives.simps [simp del]

definition probe_step :: "u32 \<Rightarrow> int \<Rightarrow> int" where
  "probe_step h port_range =
     (if port_range \<le> 1 then 1
      else let step = uint (h mod of_int port_range);
               step = (if step = 0 then 1 else step);
               step = (if step mod 2 = 0 then step + 1 else step);
               step = skip_fives step mod port_range
           in if step = 0 then 1 else step)"

definition BASE_PORT_JOINT_DYNAMIC :: int where "BASE_PORT_JOINT_DYNAMIC = 8500"
definition PORT_RANGE_JOINT_DYNAMIC :: int where "PORT_RANGE_JOINT_DYNAMIC = 1000"
definition kZmqPortProbeCandidatesPub :: int where "kZmqPortProbeCandidatesPub = 16"
definition kZmqPortProbeCandidatesSub :: int where "kZmqPortProbeCandidatesSub = kZmqPortProbeCandidatesPub"

definition generate_port_candidates_from_topic :: "string \<Rightarrow> int \<Rightarrow> int list" where
  "generate_port_candidates_from_topic topic_name max_candidates =
     (if PORT_RANGE_JOINT_DYNAMIC \<le> 0 \<or> max_candidates \<le> 0 then []
      else let k = min max_candidates PORT_RANGE_JOINT_DYNAMIC;
               h1 = fnv1a_32 topic_name;
               step = probe_step (fnv1a_32 (topic_name @ [CHR 0x1F] @ ''probe'')) PORT_RANGE_JOINT_DYNAMIC
           in map (\<lambda>i. BASE_PORT_JOINT_DYNAMIC + uint ((h1 + of_int (i * step)) mod of_int PORT_RANGE_JOINT_DYNAMIC)) [0..k - 1])"

definition generate_port_from_topic :: "string \<Rightarrow> int" where
  "generate_port_from_topic topic_name =
     (case generate_port_candidates_from_topic topic_name 1 of [] \<Rightarrow> BASE_PORT_JOINT_DYNAMIC | p # _ \<Rightarrow> p)"

text \<open>Binding a publisher: the first candidate that is free; another error than an address in use throws.\<close>

datatype bind_result = Bound | AddressInUse | BindError

primrec bind_first :: "(int \<Rightarrow> bind_result) \<Rightarrow> int list \<Rightarrow> int option" where
  "bind_first bind [] = None"
| "bind_first bind (p # ps) =
     (case bind p of Bound \<Rightarrow> Some p | AddressInUse \<Rightarrow> bind_first bind ps | BindError \<Rightarrow> None)"

definition init_pub_port :: "(int \<Rightarrow> bind_result) \<Rightarrow> string \<Rightarrow> int option" where
  "init_pub_port bind topic_name = bind_first bind (generate_port_candidates_from_topic topic_name kZmqPortProbeCandidatesPub)"

definition init_sub_port :: "string \<Rightarrow> int list" where
  "init_sub_port topic_name = generate_port_candidates_from_topic topic_name kZmqPortProbeCandidatesSub"

text \<open>The same computation in the Python client, \<^verbatim>\<open>src/openpi_control/protocol.py\<close>, on unbounded integers.\<close>

definition py_fnv1a_32 :: "string \<Rightarrow> int" where
  "py_fnv1a_32 s = foldl (\<lambda>h c. take_bit 32 (xor h (int (of_char c)) * 16777619)) 2166136261 s"

definition py_probe_step :: "int \<Rightarrow> int" where
  "py_probe_step value =
     (let step = value mod 1000; step = (if step = 0 then 1 else step);
          step = (if step mod 2 = 0 then step + 1 else step);
          step = skip_fives step mod 1000
      in if step = 0 then 1 else step)"

definition py_port_candidates :: "string \<Rightarrow> int \<Rightarrow> int list" where
  "py_port_candidates topic count =
     (let first = py_fnv1a_32 topic; step = py_probe_step (py_fnv1a_32 (topic @ [CHR 0x1F] @ ''probe''))
      in map (\<lambda>i. 8500 + (first + i * step) mod 1000) [0..count - 1])"

section \<open>Reading a subscriber socket\<close>

record zmq_frame =
  zf_data :: string
  zf_more :: bool

text \<open>Skipping the data part of a message whose topic frame was read.\<close>

definition discard_part :: "bool \<Rightarrow> zmq_frame list \<Rightarrow> zmq_frame list" where
  "discard_part has_more rest = (if has_more then tl rest else rest)"

definition record_error :: "ReturnCode \<Rightarrow> ReturnCode \<Rightarrow> ReturnCode" where
  "record_error first err = (if first = SUCCESS then err else first)"

function drain_sub_to_latest ::
  "string \<Rightarrow> nat \<Rightarrow> zmq_frame list \<Rightarrow> string option \<Rightarrow> ReturnCode \<Rightarrow> string option \<times> ReturnCode" where
  "drain_sub_to_latest expected_topic expected_size [] latest first = (latest, first)"
| "drain_sub_to_latest expected_topic expected_size (t # rest) latest first =
     (if zf_data t = [] \<or> zf_data t \<noteq> expected_topic
      then drain_sub_to_latest expected_topic expected_size (discard_part (zf_more t) rest) latest (record_error first INVALID_PARAM)
      else if \<not> zf_more t then drain_sub_to_latest expected_topic expected_size rest latest (record_error first INVALID_PARAM)
      else case rest of
             [] \<Rightarrow> drain_sub_to_latest expected_topic expected_size [] latest (record_error first FAIL)
           | m # rest' \<Rightarrow>
               (if zf_data m = [] \<or> length (zf_data m) \<noteq> expected_size
                then drain_sub_to_latest expected_topic expected_size rest' latest (record_error first INVALID_PARAM)
                else drain_sub_to_latest expected_topic expected_size rest' (Some (zf_data m)) first))"
  by pat_completeness auto
termination
  by (relation "measure (\<lambda>(_, _, q, _, _). length q)") (auto simp: discard_part_def)


section \<open>Wire messages\<close>

record zmq_joint_info =
  zj_pos :: "flt list"
  zj_vel :: "flt list"
  zj_tor :: "flt list"
  zj_temperature :: "flt list"
  zj_idc_current :: "flt list"
  zj_age_ms :: "flt list"
  zj_joint_num :: int
  zj_msg_type :: int

record zmq_command =
  zc_command :: int
  zc_num_param_float :: int
  zc_num_param_int :: int
  zc_param_float :: "flt list"
  zc_param_int :: "int list"

record zmq_joystick_info =
  zs_mode :: int
  zs_side :: int
  zs_channel :: "flt list"
  zs_channel_num :: int
  zs_button :: "int list"
  zs_button_num :: int
  zs_raw_channel :: "int list"

text \<open>The bytes of a structure of the right size, reinterpreted by the compiler's layout.\<close>

record zmq_layout =
  as_joint_info :: "string \<Rightarrow> zmq_joint_info"
  as_command :: "string \<Rightarrow> zmq_command"
  as_joystick :: "string \<Rightarrow> zmq_joystick_info"

definition kMaxWireJoints :: int where "kMaxWireJoints = 10"

definition joint_info_count_is_valid :: "zmq_joint_info \<Rightarrow> int \<Rightarrow> bool" where
  "joint_info_count_is_valid z device_dof \<longleftrightarrow> \<not> (device_dof < 0 \<or> kMaxWireJoints < device_dof \<or> zj_joint_num z \<noteq> device_dof)"

definition joints_of_wire :: "bool \<Rightarrow> zmq_joint_info \<Rightarrow> int \<Rightarrow> data_joint list" where
  "joints_of_wire keep_age z n =
     map (\<lambda>i. \<lparr>msg_pos = zj_pos z ! i, msg_vel = zj_vel z ! i, msg_tor = zj_tor z ! i, msg_temperature = zj_temperature z ! i,
               msg_idc_current = zj_idc_current z ! i, msg_frame_age_ms = (if keep_age then zj_age_ms z ! i else Fin (-1))\<rparr>)
         [0..<nat n]"

definition process_leader_msg_joint ::
  "('a device_scheme, 'w) message_target \<Rightarrow> bool \<Rightarrow> zmq_joint_info \<Rightarrow> ('a device_scheme, 'w) dcall" where
  "process_leader_msg_joint T direct z s =
     (if zj_msg_type z \<noteq> 1 then Some (s, INVALID_PARAM)
      else if \<not> joint_info_count_is_valid z (dof_total (fst s)) then Some (s, INVALID_PARAM)
      else let js = joints_of_wire False z (dof_total (fst s))
           in if direct then process_direct_joints T js s else process_leader_joints T js s)"

definition process_follower_msg_joint ::
  "('a device_scheme, 'w) message_target \<Rightarrow> zmq_joint_info \<Rightarrow> ('a device_scheme, 'w) dcall" where
  "process_follower_msg_joint T z s =
     (if zj_msg_type z \<noteq> 1 then Some (s, INVALID_PARAM)
      else if \<not> joint_info_count_is_valid z (dof_total (fst s)) then Some (s, INVALID_PARAM)
      else process_follower_joints T (joints_of_wire True z (dof_total (fst s))) s)"

definition process_leader_msg_joystick ::
  "('a device_scheme, 'w) message_target \<Rightarrow> Side \<Rightarrow> zmq_joystick_info \<Rightarrow> ('a device_scheme, 'w) dcall" where
  "process_leader_msg_joystick T topic_side z s =
     (let channel_num = zs_channel_num z mod 256; button_num = zs_button_num z mod 256
      in if 5 < channel_num \<or> 5 < button_num then Some (s, INVALID_PARAM)
         else process_joystick T
                \<lparr>js_side = (if zs_side z = 0 then LEFT else if zs_side z = 1 then RIGHT else topic_side),
                 js_channel = take (nat channel_num) (zs_channel z), js_button = take (nat button_num) (zs_button z),
                 js_raw_channel = take (nat channel_num) (zs_raw_channel z), js_mode = zs_mode z\<rparr> s)"

section \<open>One topic step\<close>

record zmq_inbox =
  sub_command :: "zmq_frame list option"
  sub_joint :: "zmq_frame list option"
  sub_direct_joint :: "zmq_frame list option"
  sub_follower_joint :: "zmq_frame list option"
  sub_joystick_left :: "zmq_frame list option"
  sub_joystick_right :: "zmq_frame list option"

record zmq_names =
  topic_joint :: string
  topic_state :: string
  topic_follower_joint :: string
  topic_direct_command :: string
  topic_lifecycle :: string
  topic_status :: string

definition DEVICE_INFO_COMMAND_ACK :: int where "DEVICE_INFO_COMMAND_ACK = 31"
definition sizeof_ZmqCommand :: nat where "sizeof_ZmqCommand = 88"
definition sizeof_ZmqJointInfo :: nat where "sizeof_ZmqJointInfo = 252"
definition sizeof_ZmqJoystickInfo :: nat where "sizeof_ZmqJoystickInfo = 44"

definition wire_command_ok :: "zmq_command \<Rightarrow> bool" where
  "wire_command_ok z \<longleftrightarrow>
     0 \<le> zc_num_param_float z \<and> zc_num_param_float z \<le> 10 \<and> 0 \<le> zc_num_param_int z \<and> zc_num_param_int z \<le> 10"

definition command_of_wire :: "zmq_command \<Rightarrow> msg_command" where
  "command_of_wire z =
     \<lparr>mc_command = zc_command z, mc_num_param_float = zc_num_param_float z, mc_num_param_int = zc_num_param_int z,
      mc_param_float = take (nat (zc_num_param_float z)) (zc_param_float z),
      mc_param_int = take (nat (zc_num_param_int z)) (zc_param_int z)\<rparr>"

definition handle_wire_command ::
  "('a device_scheme, 'w) device_class \<Rightarrow> ('a device_scheme, 'w) message_target \<Rightarrow> zmq_command \<Rightarrow> ('a device_scheme, 'w) dcall" where
  "handle_wire_command c T z s =
     (if \<not> wire_command_ok z then Some (s, INVALID_PARAM)
      else let m = command_of_wire z
           in case process_command T m s of
                None \<Rightarrow> None
              | Some (s, rc) \<Rightarrow>
                  Some (fst (publish_device_info c DEVICE_INFO_COMMAND_ACK [] [request_id_of m, code_of rc, mc_command m] s), rc))"

text \<open>At most one command is read in a step.\<close>

definition command_step ::
  "('a device_scheme, 'w) device_class \<Rightarrow> ('a device_scheme, 'w) message_target \<Rightarrow> zmq_layout \<Rightarrow> string
   \<Rightarrow> zmq_frame list option \<Rightarrow> ('a device_scheme, 'w) dcall" where
  "command_step c T L lifecycle sock s =
     (case sock of
        None \<Rightarrow> Some (s, SUCCESS)
      | Some [] \<Rightarrow> Some (s, SUCCESS)
      | Some (t # rest) \<Rightarrow>
          (if zf_data t = [] \<or> zf_data t \<noteq> lifecycle \<or> \<not> zf_more t then Some (s, INVALID_PARAM)
           else case rest of
                  [] \<Rightarrow> Some (s, FAIL)
                | m # _ \<Rightarrow>
                    (if zf_data m = [] \<or> length (zf_data m) \<noteq> sizeof_ZmqCommand then Some (s, INVALID_PARAM)
                     else handle_wire_command c T (as_command L (zf_data m)) s)))"

text \<open>A state-like stream is drained and its latest sample handled; the first error of the whole step is reported.\<close>

definition stream_step ::
  "zmq_frame list option \<Rightarrow> string \<Rightarrow> nat \<Rightarrow> (string \<Rightarrow> ('d, 'w) dcall) \<Rightarrow> ReturnCode \<Rightarrow> ('d, 'w) dcall" where
  "stream_step sock topic sz handle first s =
     (case sock of
        None \<Rightarrow> Some (s, first)
      | Some q \<Rightarrow>
          (case drain_sub_to_latest topic sz q None SUCCESS of
             (None, err) \<Rightarrow> Some (s, record_error first err)
           | (Some bytes, err) \<Rightarrow>
               (case handle bytes s of None \<Rightarrow> None | Some (s, rc) \<Rightarrow> Some (s, record_error (record_error first err) rc))))"

definition andalso :: "('d, 'w) dcall \<Rightarrow> (ReturnCode \<Rightarrow> ('d, 'w) dcall) \<Rightarrow> ('d, 'w) dcall" where
  "andalso f g s = (case f s of None \<Rightarrow> None | Some (s, rc) \<Rightarrow> g rc s)"

definition streams_step ::
  "('a device_scheme, 'w) message_target \<Rightarrow> zmq_layout \<Rightarrow> zmq_names \<Rightarrow> zmq_inbox \<Rightarrow> ReturnCode \<Rightarrow> ('a device_scheme, 'w) dcall" where
  "streams_step T L N B rc =
     (let joint = (\<lambda>direct bytes. process_leader_msg_joint T direct (as_joint_info L bytes));
          joystick = (\<lambda>side bytes. process_leader_msg_joystick T side (as_joystick L bytes))
      in andalso (stream_step (sub_joint B) (topic_joint N) sizeof_ZmqJointInfo (joint False) rc) (\<lambda>rc.
         andalso (stream_step (sub_direct_joint B) (topic_direct_command N) sizeof_ZmqJointInfo (joint True) rc) (\<lambda>rc.
         andalso (stream_step (sub_follower_joint B) (topic_follower_joint N) sizeof_ZmqJointInfo
                    (\<lambda>bytes. process_follower_msg_joint T (as_joint_info L bytes)) rc) (\<lambda>rc.
         andalso (stream_step (sub_joystick_left B) ''joystick_info_left'' sizeof_ZmqJoystickInfo (joystick LEFT) rc)
           (stream_step (sub_joystick_right B) ''joystick_info_right'' sizeof_ZmqJoystickInfo (joystick RIGHT))))))"

definition zmq_step ::
  "('a device_scheme, 'w) device_class \<Rightarrow> ('a device_scheme, 'w) message_target \<Rightarrow> zmq_layout \<Rightarrow> zmq_names
   \<Rightarrow> zmq_inbox \<Rightarrow> ('a device_scheme, 'w) dcall" where
  "zmq_step c T L N B s =
     (case command_step c T L (topic_lifecycle N) (sub_command B) s of
        None \<Rightarrow> None
      | Some (s, rc) \<Rightarrow> (if \<not> n_running (snd s) then Some (s, rc) else streams_step T L N B rc s))"

section \<open>Publishing\<close>

record zmq_ports =
  pub_joint :: bool
  pub_follower_joint :: bool
  pub_device_info :: bool
  pub_effector_info :: bool

definition sent_event :: "topic_event \<Rightarrow> 'w node \<Rightarrow> 'w node" where
  "sent_event e n = n\<lparr>n_events := n_events n @ [e]\<rparr>"

fun zmq_publish :: "zmq_ports \<Rightarrow> topic_event \<Rightarrow> 'a device_scheme \<times> 'w node \<Rightarrow> 'w node \<times> ReturnCode" where
  "zmq_publish P (PubJoints js) (d, n) =
     (if dof_total d < 0 \<or> kMaxWireJoints < dof_total d then (n, INVALID_PARAM)
      else if int (length js) \<noteq> dof_total d then (n, INVALID_PARAM)
      else if \<not> pub_follower_joint P then (n, NOT_INITIALIZED)
      else let n = sent_event (PubJoints js) n
           in if d_role d = LEADER \<and> \<not> pub_joint P then (n, NOT_INITIALIZED)
              else if d_role d \<noteq> LEADER \<and> d_role d \<noteq> FOLLOWER then (n, NOT_INITIALIZED)
              else (n\<lparr>n_msg_id := n_msg_id n + 1\<rparr>, SUCCESS))"
| "zmq_publish P (PubInfo k fs is) (d, n) =
     (if 10 < length fs \<or> 10 < length is then (n, INVALID_PARAM)
      else if \<not> pub_device_info P then (n, NOT_INITIALIZED)
      else (sent_event (PubInfo k fs is) n, SUCCESS))"
| "zmq_publish P (PubEffector fs) (d, n) =
     (if 30 < length fs then (n, INVALID_PARAM)
      else if \<not> pub_effector_info P then (n, NOT_INITIALIZED)
      else (sent_event (PubEffector fs) n, SUCCESS))"

section \<open>Construction\<close>

definition generate_unique_topic_name :: "string \<Rightarrow> string \<Rightarrow> string \<Rightarrow> string" where
  "generate_unique_topic_name base_topic_name device_model device_id =
     map (\<lambda>ch. if ch = CHR ''.'' \<or> ch = CHR ''-'' then CHR ''_'' else ch) (base_topic_name @ ''_'' @ device_model @ ''_'' @ device_id)"

definition control_period_from_frequency :: "int \<Rightarrow> int option" where
  "control_period_from_frequency f = (if f \<le> 0 then None else Some (1000 div f))"

definition new_topic_type_ok :: "json \<Rightarrow> string \<Rightarrow> bool" where
  "new_topic_type_ok cfg cla_topic_type =
     (if cla_topic_type = ''undefined''
      then (case get_field_value get_string cfg ''topic_type'' [] of (ty, rc) \<Rightarrow> rc = SUCCESS \<and> ty = ''ZMQ'')
      else cla_topic_type = ''ZMQ'')"

definition new_topic_node :: "Role \<Rightarrow> 'w \<Rightarrow> 'w node" where
  "new_topic_node role w = \<lparr>n_drv = w, n_events = [], n_running = True, n_paused = (role = FOLLOWER), n_msg_id = 0\<rparr>"

definition time_to_sleep :: "int \<Rightarrow> int \<Rightarrow> int" where
  "time_to_sleep control_period time_spent = max 0 (control_period - time_spent)"

section \<open>The topic keeps the recovery\<close>

lemma zmq_publish_event: "zmq_publish P e s = (n', rc) \<Longrightarrow> n_events n' = n_events (snd s) \<or> n_events n' = n_events (snd s) @ [e]"
  by (cases s; cases e) (auto simp: sent_event_def Let_def split: if_splits)

context message_contract
begin

lemma wire_command_related: "handle_wire_command c T z s = Some (s', rc) \<Longrightarrow> R s s'"
proof -
  assume h: "handle_wire_command c T z s = Some (s', rc)"
  show ?thesis
  proof (cases "wire_command_ok z")
    case True
    with h obtain s1 rc1 ids where p: "process_command T (command_of_wire z) s = Some (s1, rc1)"
      and s': "s' = fst (publish_device_info c DEVICE_INFO_COMMAND_ACK [] ids s1)"
      by (auto simp: handle_wire_command_def Let_def split: option.splits)
    note command_related [OF p]
    also have "R s1 s'"
      unfolding s' by (rule R_base) (simp_all add: info_still info_device DEVICE_INFO_COMMAND_ACK_def DEVICE_INFO_SHUTDOWN_AFTER_ERROR_def)
    finally show ?thesis .
  next
    case False
    with h show ?thesis by (simp add: handle_wire_command_def R_refl)
  qed
qed

lemma command_step_related: "command_step c T L lc sock s = Some (s', rc) \<Longrightarrow> R s s'"
  by (auto simp: command_step_def split: option.splits list.splits if_splits intro: wire_command_related R_refl)

lemma stream_related:
  assumes "stream_step sock topic sz h first s = Some (s', rc)" "\<And>b s s' rc. h b s = Some (s', rc) \<Longrightarrow> R s s'"
  shows "R s s'"
  using assms(1) by (auto simp: stream_step_def split: option.splits prod.splits dest: assms(2) intro: R_refl)

lemma andalso_related:
  assumes "andalso f g s = Some (s', rc)" "\<And>s s' rc. f s = Some (s', rc) \<Longrightarrow> R s s'"
    and "\<And>r s s' rc. g r s = Some (s', rc) \<Longrightarrow> R s s'"
  shows "R s s'"
proof -
  obtain s1 rc1 where f: "f s = Some (s1, rc1)" and g: "g rc1 s1 = Some (s', rc)"
    using assms(1) by (auto simp: andalso_def split: option.splits)
  show ?thesis using R_trans [OF assms(2) [OF f] assms(3) [OF g]] .
qed

lemma leader_joint_related: "process_leader_msg_joint T direct z s = Some (s', rc) \<Longrightarrow> R s s'"
  by (auto simp: process_leader_msg_joint_def Let_def split: if_splits intro: leader_joints_related direct_joints_related R_refl)

lemma follower_joint_related: "process_follower_msg_joint T z s = Some (s', rc) \<Longrightarrow> R s s'"
  by (auto simp: process_follower_msg_joint_def split: if_splits intro: follower_joints_related R_refl)

lemma joystick_sample_related: "process_leader_msg_joystick T side z s = Some (s', rc) \<Longrightarrow> R s s'"
  by (auto simp: process_leader_msg_joystick_def Let_def split: if_splits intro: joystick_related R_refl)

lemma streams_related: "streams_step T L N B r s = Some (s', rc) \<Longrightarrow> R s s'"
  unfolding streams_step_def Let_def
  by (erule andalso_related stream_related leader_joint_related follower_joint_related joystick_sample_related)+

lemma zmq_step_related: "zmq_step c T L N B s = Some (s', rc) \<Longrightarrow> R s s'"
proof -
  assume z: "zmq_step c T L N B s = Some (s', rc)"
  then obtain s1 rc1 where c1: "command_step c T L (topic_lifecycle N) (sub_command B) s = Some (s1, rc1)"
    by (auto simp: zmq_step_def split: option.splits)
  note command_step_related [OF c1]
  also have "R s1 s'" using z c1 by (auto simp: zmq_step_def split: if_splits intro: streams_related R_refl)
  finally show ?thesis .
qed

end

section \<open>Draining\<close>

text \<open>Draining, seen abstractly: a socket delivers messages, lists of parts, and the latest valid payload counts.\<close>

fun frames_of :: "string list \<Rightarrow> zmq_frame list" where
  "frames_of [] = []"
| "frames_of [x] = [\<lparr>zf_data = x, zf_more = False\<rparr>]"
| "frames_of (x # y # ys) = \<lparr>zf_data = x, zf_more = True\<rparr> # frames_of (y # ys)"

definition valid_payload :: "string \<Rightarrow> nat \<Rightarrow> string list \<Rightarrow> bool" where
  "valid_payload topic sz m \<longleftrightarrow> topic \<noteq> [] \<and> length m = 2 \<and> m ! 0 = topic \<and> m ! 1 \<noteq> [] \<and> length (m ! 1) = sz"

definition latest_payload :: "string \<Rightarrow> nat \<Rightarrow> string list list \<Rightarrow> string option" where
  "latest_payload topic sz ms =
     (case filter (valid_payload topic sz) ms of [] \<Rightarrow> None | vs \<Rightarrow> Some (last vs ! 1))"

lemma two_parts: "length m = 1 \<or> length m = 2 \<Longrightarrow> (\<exists>x. m = [x]) \<or> (\<exists>x y. m = [x, y])"
  by (auto simp: length_Suc_conv numeral_2_eq_2)

lemma drain_message:
  assumes "length m = 1 \<or> length m = 2"
  shows "drain_sub_to_latest topic sz (frames_of m @ q) latest first =
     (if valid_payload topic sz m then drain_sub_to_latest topic sz q (Some (m ! 1)) first
      else drain_sub_to_latest topic sz q latest (record_error first INVALID_PARAM))"
  using two_parts [OF assms] by (auto simp: valid_payload_def discard_part_def)

lemma drain_messages:
  assumes "\<forall>m \<in> set ms. length m = 1 \<or> length m = 2"
  shows "drain_sub_to_latest topic sz (concat (map frames_of ms)) latest first =
     (case latest_payload topic sz ms of None \<Rightarrow> latest | Some p \<Rightarrow> Some p,
      if list_all (valid_payload topic sz) ms then first else record_error first INVALID_PARAM)"
  using assms
proof (induction ms arbitrary: latest first)
  case Nil
  then show ?case by (simp add: latest_payload_def)
next
  case (Cons m ms)
  have "record_error (record_error first INVALID_PARAM) INVALID_PARAM = record_error first INVALID_PARAM"
    by (simp add: record_error_def)
  with Cons show ?case
    by (simp add: drain_message latest_payload_def split: list.splits)
qed

section \<open>Ports: agreement of publisher, subscriber and the Python client\<close>

lemma fnv_step: "uint ((h XOR of_nat (of_char c)) * 16777619 :: u32) = take_bit 32 (xor (uint h) (int (of_char c)) * 16777619)"
proof -
  have "int (of_char c) < int 256" by (simp only: of_nat_less_iff nat_of_char_less_256)
  then have "int (of_char c) < 2 ^ 32" by (rule less_le_trans) simp
  then have "uint (of_nat (of_char c) :: u32) = int (of_char c)" by (simp add: uint_nat unat_of_nat take_bit_nat_eq_self)
  then show ?thesis by (simp add: uint_word_arith_bintrs uint_xor take_bit_xor)
qed

lemma fnv_agree: "uint (fnv1a_32 s) = py_fnv1a_32 s"
proof -
  have "uint (foldl (\<lambda>h c. (h XOR of_nat (of_char c)) * 16777619 :: u32) h s) =
      foldl (\<lambda>h c. take_bit 32 (xor h (int (of_char c)) * 16777619)) (uint h) s" for h
    by (induction s arbitrary: h) (simp_all add: fnv_step)
  then show ?thesis by (simp add: fnv1a_32_def py_fnv1a_32_def)
qed

lemma skip_fives_eq: "skip_fives s = (if s mod 5 = 0 then s + 2 else s)"
  by (subst skip_fives.simps, subst skip_fives.simps) presburger

lemma probe_agree: "probe_step h 1000 = py_probe_step (uint h)"
  by (simp add: probe_step_def py_probe_step_def uint_mod Let_def)

lemma made_odd: "1 \<le> (s :: int) \<Longrightarrow> s < 1000 \<Longrightarrow> let t = (if s mod 2 = 0 then s + 1 else s) in 1 \<le> t \<and> t < 1000 \<and> t mod 2 = 1"
  unfolding Let_def by presburger

lemma made_coprime: "1 \<le> (s :: int) \<Longrightarrow> s < 1000 \<Longrightarrow> s mod 2 = 1 \<Longrightarrow>
   1 \<le> skip_fives s \<and> skip_fives s < 1000 \<and> skip_fives s mod 2 = 1 \<and> skip_fives s mod 5 \<noteq> 0"
  unfolding skip_fives_eq by presburger

lemma py_probe_step_range:
  "1 \<le> py_probe_step v \<and> py_probe_step v < 1000 \<and> py_probe_step v mod 2 = 1 \<and> py_probe_step v mod 5 \<noteq> 0"
proof -
  define a where "a = (if v mod 1000 = 0 then 1 else v mod 1000)"
  define b where "b = (if a mod 2 = 0 then a + 1 else a)"
  have a: "1 \<le> a" "a < 1000"
    using pos_mod_bound [of 1000 v] pos_mod_sign [of 1000 v] by (auto simp: a_def)
  have b: "1 \<le> b" "b < 1000" "b mod 2 = 1" using made_odd [OF a] by (simp_all add: b_def Let_def)
  have "py_probe_step v = (let s = skip_fives b mod 1000 in if s = 0 then 1 else s)"
    unfolding py_probe_step_def a_def b_def Let_def by (rule refl)
  also have "\<dots> = skip_fives b" using made_coprime [OF b] by simp
  finally show ?thesis using made_coprime [OF b] by simp
qed

lemma py_probe_step_coprime: "coprime (py_probe_step v) 1000"
proof -
  have "coprime (py_probe_step v) 2" using py_probe_step_range [of v] by (simp add: odd_iff_mod_2_eq_one)
  moreover have "py_probe_step v mod 5 \<in> {1, 2, 3, 4}"
    using py_probe_step_range [of v] pos_mod_bound [of 5 "py_probe_step v"] pos_mod_sign [of 5 "py_probe_step v"] by auto
  then have "gcd 5 (py_probe_step v mod 5) = 1" by (auto simp: gcd_non_0_int)
  then have "gcd (py_probe_step v) 5 = 1" by (subst gcd_red_int)
  then have "coprime (py_probe_step v) 5" by (simp add: coprime_iff_gcd_eq_1)
  ultimately have "coprime (py_probe_step v) (2 ^ 3 * 5 ^ 3)" by (simp del: power_numeral)
  then show ?thesis by simp
qed

definition port_step :: "string \<Rightarrow> int" where
  "port_step topic = py_probe_step (py_fnv1a_32 (topic @ [CHR 0x1F] @ ''probe''))"

lemma uint_add_of_int: "uint (h + of_int z :: u32) = take_bit 32 (uint h + z)"
proof -
  have "h + of_int z = word_of_int (uint h + z)" by simp
  then show ?thesis by (simp only: uint_word_of_int_eq) simp
qed

lemma candidate_list:
  "0 < k \<Longrightarrow> k \<le> 1000 \<Longrightarrow> generate_port_candidates_from_topic topic k =
     map (\<lambda>i. 8500 + take_bit 32 (py_fnv1a_32 topic + i * port_step topic) mod 1000) [0..k - 1]"
  by (simp add: generate_port_candidates_from_topic_def PORT_RANGE_JOINT_DYNAMIC_def BASE_PORT_JOINT_DYNAMIC_def Let_def
      probe_agree fnv_agree uint_mod uint_add_of_int port_step_def del: of_int_mult)

lemma py_candidate_list: "py_port_candidates topic k = map (\<lambda>i. 8500 + (py_fnv1a_32 topic + i * port_step topic) mod 1000) [0..k - 1]"
  by (simp add: py_port_candidates_def port_step_def Let_def)

lemma py_fnv_nonneg: "0 \<le> py_fnv1a_32 s" "py_fnv1a_32 s < 2 ^ 32"
  using fnv_agree [of s] uint_ge_0 [of "fnv1a_32 s"] uint_lt2p [of "fnv1a_32 s"] by simp_all

lemma coprime_shift_inj:
  assumes "coprime s (m :: int)" "\<bar>i - j\<bar> < m" "(a + i * s) mod m = (a + j * s) mod m"
  shows "i = j"
proof -
  have "m dvd (i - j) * s" using assms(3) by (simp add: mod_eq_dvd_iff algebra_simps)
  then have "m dvd i - j" using assms(1) by (simp add: coprime_dvd_mult_left_iff coprime_commute)
  then show ?thesis using assms(2) dvd_imp_le_int [of "i - j" m] by (cases "i = j") auto
qed

lemma publisher_candidates:
  "generate_port_candidates_from_topic ''openpi.be1b.left.state'' 16 =
     [9002, 8609, 8512, 9415, 9318, 9221, 9124, 9027, 8930, 8833, 8736, 8639, 8542, 9445, 9348, 9251]"
  by code_simp

lemma client_candidates:
  "py_port_candidates ''openpi.be1b.left.state'' 16 =
     [9002, 8905, 8808, 8711, 8614, 8517, 9420, 9323, 9226, 9129, 9032, 8935, 8838, 8741, 8644, 8547]"
  by code_simp

lemma bind_first_member: "bind_first bind ps = Some p \<Longrightarrow> p \<in> set ps \<and> bind p = Bound"
  by (induction ps) (auto split: bind_result.splits)

text \<open>C29: The candidate ports of a topic lie in the range from 8500 to 9499, the first one is the port the Python client computes, and as
  long as the 32-bit sum of the publisher does not wrap around, the whole sequences agree and probe pairwise different ports.
\<close>

theorem ports_agree_with_client:
  assumes "0 < k" "k \<le> 1000"
  shows "set (generate_port_candidates_from_topic topic k) \<subseteq> {8500..<9500} \<and>
     hd (generate_port_candidates_from_topic topic k) = hd (py_port_candidates topic k) \<and>
     (py_fnv1a_32 topic + (k - 1) * py_probe_step (py_fnv1a_32 (topic @ [CHR 0x1F] @ ''probe'')) < 2 ^ 32 \<longrightarrow>
        generate_port_candidates_from_topic topic k = py_port_candidates topic k \<and>
        distinct (generate_port_candidates_from_topic topic k))"
proof (intro conjI impI)
  show "set (generate_port_candidates_from_topic topic k) \<subseteq> {8500..<9500}"
    using assms by (auto simp: candidate_list)
  have "[0..k - 1] = 0 # [1..k - 1]" using assms upto_rec1 [of 0 "k - 1"] by simp
  then show "hd (generate_port_candidates_from_topic topic k) = hd (py_port_candidates topic k)"
    using assms py_fnv_nonneg [of topic] by (simp add: candidate_list py_candidate_list take_bit_int_eq_self)
  assume "py_fnv1a_32 topic + (k - 1) * py_probe_step (py_fnv1a_32 (topic @ [CHR 0x1F] @ ''probe'')) < 2 ^ 32"
  then have room: "py_fnv1a_32 topic + (k - 1) * port_step topic < 2 ^ 32" by (simp only: port_step_def)
  have step: "1 \<le> port_step topic" "coprime (port_step topic) 1000"
    using py_probe_step_range py_probe_step_coprime by (simp_all add: port_step_def)
  have "take_bit 32 (py_fnv1a_32 topic + i * port_step topic) = py_fnv1a_32 topic + i * port_step topic" if "i \<in> {0..k - 1}" for i
  proof (rule take_bit_int_eq_self)
    show "0 \<le> py_fnv1a_32 topic + i * port_step topic" using py_fnv_nonneg(1) [of topic] step that by simp
    have "i * port_step topic \<le> (k - 1) * port_step topic" using step that by (intro mult_right_mono) auto
    then show "py_fnv1a_32 topic + i * port_step topic < 2 ^ 32" using room by linarith
  qed
  then show eq: "generate_port_candidates_from_topic topic k = py_port_candidates topic k"
    using assms by (simp add: candidate_list py_candidate_list)
  show "distinct (generate_port_candidates_from_topic topic k)"
    unfolding eq py_candidate_list distinct_map
  proof (intro conjI inj_onI)
    fix i j
    assume "i \<in> set [0..k - 1]" "j \<in> set [0..k - 1]"
      and "8500 + (py_fnv1a_32 topic + i * port_step topic) mod 1000 = 8500 + (py_fnv1a_32 topic + j * port_step topic) mod 1000"
    then show "i = j" using assms by (intro coprime_shift_inj [OF step(2), of i j "py_fnv1a_32 topic"]) auto
  qed simp
qed

text \<open>C30: When the sum wraps around, they differ: for this topic of the client's naming scheme, a publisher that has to fall
  back from the first port binds a port that the client never connects to.
\<close>

theorem client_misses_fallback_ports:
  assumes "bind 9002 = AddressInUse" "init_pub_port bind ''openpi.be1b.left.state'' = Some p"
  shows "p \<notin> set (py_port_candidates ''openpi.be1b.left.state'' 16)"
proof -
  have "p \<in> {8609, 8512, 9415, 9318, 9221, 9124, 9027, 8930, 8833, 8736, 8639, 8542, 9445, 9348, 9251}"
    using assms bind_first_member [of bind "generate_port_candidates_from_topic ''openpi.be1b.left.state'' 16" p]
    unfolding init_pub_port_def kZmqPortProbeCandidatesPub_def publisher_candidates by auto
  then show ?thesis unfolding client_candidates by auto
qed

text \<open>C28: Draining a subscriber socket implements "the latest valid sample counts": on any queue of one- and two-part messages, however
  many of them are foreign or malformed, it returns the payload of the last message with the expected topic and size, and reports
  an error exactly when some message was not valid.
\<close>

theorem drain_refines_latest:
  assumes "\<forall>m \<in> set ms. length m = 1 \<or> length m = 2"
  shows "drain_sub_to_latest topic sz (concat (map frames_of ms)) None SUCCESS =
     (latest_payload topic sz ms, if list_all (valid_payload topic sz) ms then SUCCESS else INVALID_PARAM)"
  using drain_messages [OF assms, of topic sz None SUCCESS] by (simp add: record_error_def split: option.splits)

section \<open>Witnesses\<close>

theorem ports_agree_with_client_witness:
  "generate_port_candidates_from_topic ''openpi.a.left.state'' 16 = py_port_candidates ''openpi.a.left.state'' 16"
proof -
  have "py_fnv1a_32 ''openpi.a.left.state'' + (16 - 1) * py_probe_step (py_fnv1a_32 (''openpi.a.left.state'' @ [CHR 0x1F] @ ''probe'')) < 2 ^ 32"
    by code_simp
  then show ?thesis using ports_agree_with_client [of 16 "''openpi.a.left.state''"] by simp
qed

theorem client_misses_fallback_ports_witness:
  "init_pub_port (\<lambda>p. if p = 9002 then AddressInUse else Bound) ''openpi.be1b.left.state'' = Some 8609 \<and>
   8609 \<notin> set (py_port_candidates ''openpi.be1b.left.state'' 16)"
proof -
  have b: "init_pub_port (\<lambda>p. if p = 9002 then AddressInUse else Bound) ''openpi.be1b.left.state'' = Some 8609"
    unfolding init_pub_port_def kZmqPortProbeCandidatesPub_def publisher_candidates by simp
  then show ?thesis using client_misses_fallback_ports [OF _ b] by simp
qed

theorem drain_refines_latest_witness:
  "drain_sub_to_latest ''a'' 2 (concat (map frames_of [[''a'', ''xy''], [''b'', ''zz''], [''a'', ''uv''], [''a'']])) None SUCCESS =
     (Some ''uv'', INVALID_PARAM)"
proof -
  have "\<forall>m \<in> set [[''a'', ''xy''], [''b'', ''zz''], [''a'', ''uv''], [''a'']]. length m = 1 \<or> length m = 2" by simp
  from drain_refines_latest [OF this, of "''a''" 2] show ?thesis by (simp add: latest_payload_def valid_payload_def)
qed

end
