(* ===== verification/Force_Feedback.thy ===== *)
theory Force_Feedback
  imports Pi_Filter Stall_Detect
begin

text \<open>
  Haptic force feedback of a leader gripper, \<^verbatim>\<open>native/pi_control/src/pi_force_feedback.cpp\<close>: the filtered state of the
  follower, its stall detection and the torque that the operator feels.
\<close>

section \<open>Definitions\<close>

definition FORCE_FEEDBACK_TORQUE_FILTER_BUFFER_SIZE :: nat where "FORCE_FEEDBACK_TORQUE_FILTER_BUFFER_SIZE = 5"
definition SPRING_CONSTANT :: flt where "SPRING_CONSTANT = Fin 1"
definition STALL_TOR_GAIN :: flt where "STALL_TOR_GAIN = Fin 2"
definition FORCE_FEEDBACK_SCALE :: flt where "FORCE_FEEDBACK_SCALE = lit32 (3/10)"

record 'b force_feedback =
  ff_stall :: "'b stall_detect"
  ff_follower_pos :: flt
  ff_follower_vel :: flt
  ff_follower_tor :: flt
  ff_follower_temperature :: flt
  ff_follower_idc_current :: flt
  ff_prev_leader_pos :: flt
  ff_pos_filter :: "'b filter_obj"
  ff_vel_filter :: "'b filter_obj"
  ff_tor_filter :: "'b filter_obj"
  ff_stall_filter :: "'b filter_obj"
  ff_torque_filter :: "'b filter_obj"

definition new_force_feedback :: "'b cbuf \<Rightarrow> filter_error + 'b force_feedback" where
  "new_force_feedback B =
     (case new_filter B MOVING_AVERAGE (lit32 (1/5)) FORCE_FEEDBACK_TORQUE_FILTER_BUFFER_SIZE (lit32 (1/100)) (Fin 1) of
        Inl e \<Rightarrow> Inl e
      | Inr f \<Rightarrow>
          Inr \<lparr>ff_stall = new_stall_detect B, ff_follower_pos = Fin 0, ff_follower_vel = Fin 0, ff_follower_tor = Fin 0,
               ff_follower_temperature = Fin 0, ff_follower_idc_current = Fin 0, ff_prev_leader_pos = Fin 0,
               ff_pos_filter = f, ff_vel_filter = f, ff_tor_filter = f, ff_stall_filter = f, ff_torque_filter = f\<rparr>)"

definition get_force_feedback_torque :: "'b force_feedback \<Rightarrow> flt" where
  "get_force_feedback_torque ff = get_latest_value (ff_torque_filter ff)"

definition calc_force_feedback_torque :: "flt \<Rightarrow> 'b force_feedback \<Rightarrow> 'b force_feedback \<times> flt" where
  "calc_force_feedback_torque leader_pos ff =
     (let follower_pos = get_latest_value (ff_pos_filter ff);
          torque =
            (if flt_le leader_pos (ff_prev_leader_pos ff) \<and> is_stall_detected (ff_stall ff) \<and> flt_le leader_pos follower_pos
             then let t = fadd binary32 (Fin 0) (fmul binary32 (fneg SPRING_CONSTANT) (fsub binary32 leader_pos follower_pos));
                      t = fadd binary32 t (fmul binary32 (fneg STALL_TOR_GAIN) (get_latest_value (ff_stall_filter ff)))
                  in fmul binary32 t FORCE_FEEDBACK_SCALE
             else Fin 0)
      in (ff\<lparr>ff_prev_leader_pos := leader_pos\<rparr>, torque))"

definition feed :: "'b cbuf \<Rightarrow> flt \<Rightarrow> 'b filter_obj \<Rightarrow> 'b filter_obj option" where
  "feed B x f = map_option fst (filter_update B f x)"

definition update_follower_info ::
  "'b cbuf \<Rightarrow> flt \<Rightarrow> flt \<Rightarrow> flt \<Rightarrow> flt \<Rightarrow> flt \<Rightarrow> flt \<Rightarrow> 'b force_feedback \<Rightarrow> 'b force_feedback option" where
  "update_follower_info B leader_pos pos vel tor temp idc ff =
     (let ff = ff\<lparr>ff_follower_pos := pos, ff_follower_vel := vel, ff_follower_tor := tor,
                  ff_follower_temperature := temp, ff_follower_idc_current := idc\<rparr>
      in case (feed B pos (ff_pos_filter ff), feed B vel (ff_vel_filter ff), feed B tor (ff_tor_filter ff)) of
           (Some fp, Some fv, Some ft) \<Rightarrow>
             (let (sd, stall) = detect_stall B (ff_stall ff) pos vel tor
              in case feed B stall (ff_stall_filter ff) of
                   None \<Rightarrow> None
                 | Some fs \<Rightarrow>
                     (let (ff, torque) = calc_force_feedback_torque leader_pos
                            (ff\<lparr>ff_pos_filter := fp, ff_vel_filter := fv, ff_tor_filter := ft, ff_stall := sd, ff_stall_filter := fs\<rparr>)
                      in map_option (\<lambda>f. ff\<lparr>ff_torque_filter := f\<rparr>) (feed B torque (ff_torque_filter ff))))
         | _ \<Rightarrow> None)"

end
