(* ===== verification/Effector.thy ===== *)
theory Effector
  imports Topic_Zmq Force_Feedback
begin

text \<open>
  The end-effector, \<^verbatim>\<open>native/pi_control/src/pi_device_effector.cpp\<close> and \<^verbatim>\<open>pi_device_effector_can.cpp\<close>: a device with joints, over any
  class of servos. Reading with its tolerance of partial failures, the normalised gripper range, the ready move, operation as a
  leader and as a follower in position and torque mode, force feedback, start and verification. The driver's group calls, the
  clock and a sleep are functions on the driver's state; the servos see the device through their back pointer.
\<close>

section \<open>State\<close>

datatype EffectorControlMode = EFF_TORQUE | EFF_POSITION | EFF_UNDEFINED

record ('s, 'b) effector = device +
  joints :: "'s joint list"
  e_tele_pos :: "flt list"
  e_tele_vel :: "flt list"
  e_tele_tor :: "flt list"
  force_feedbacks :: "'b force_feedback list"
  start_index_joint :: int
  start_index_servo :: int
  control_mode :: EffectorControlMode
  ready_move_force_position_mode :: bool
  distance_to_torque :: flt
  grip_spring_offset :: flt
  open_at_min :: bool
  ramped_target_pos :: flt
  ramped_target_initialized :: bool

text \<open>
  The collaborators. The order in which the arguments of a call are evaluated is unspecified in C++; the last field says whether
  the position of an observation, which reads the servo, is evaluated before its other values.
\<close>

record ('s, 'w) effector_env =
  ee_servos :: "('s, 'w) servo_class"
  ee_group_read :: "'w \<Rightarrow> 'w \<times> ReturnCode"
  ee_group_write :: "'w \<Rightarrow> 'w \<times> ReturnCode"
  ee_settle :: "'w \<Rightarrow> 'w"
  ee_frame_age :: "'s \<Rightarrow> 'w \<Rightarrow> int"
  ee_now :: "'w \<Rightarrow> nat"
  ee_position_first :: bool

type_synonym ('s, 'b, 'z, 'w) ecall = "(('s, 'b, 'z) effector_scheme, 'w) dcall"

section \<open>Loops over the joints\<close>

definition sees_device :: "('s, 'w) servo_class \<Rightarrow> 'a device_scheme \<Rightarrow> 's joint \<Rightarrow> 's joint" where
  "sees_device c d j = j\<lparr>servos := map (sc_upd c (\<lambda>x. x\<lparr>p_device := device_view_of d\<rparr>)) (servos j)\<rparr>"

definition jcall :: "('s, 'w) effector_env \<Rightarrow> 'a device_scheme \<Rightarrow> ('s, 'w) joint_call \<Rightarrow> ('s, 'w) joint_call" where
  "jcall E d f j w = f (sees_device (ee_servos E) d j) w"

definition with_joints ::
  "(('s joint list \<times> 'w \<times> 'o) option) \<Rightarrow> ('s, 'b, 'z) effector_scheme \<times> 'w node
   \<Rightarrow> ((('s, 'b, 'z) effector_scheme \<times> 'w node) \<times> 'o) option" where
  "with_joints r s =
     (case r of None \<Rightarrow> None | Some (js, w, x) \<Rightarrow> Some (((fst s)\<lparr>joints := js\<rparr>, (snd s)\<lparr>n_drv := w\<rparr>), x))"

definition each_joint :: "('s, 'w) effector_env \<Rightarrow> ('s, 'w) joint_call \<Rightarrow> ('s, 'b, 'z, 'w) ecall" where
  "each_joint E f s = with_joints (until_error (jcall E (fst s) f) (joints (fst s)) (n_drv (snd s))) s"

text \<open>A loop that collects an outcome per joint and may stop after one.\<close>

primrec scan :: "('o \<Rightarrow> bool) \<Rightarrow> ('x \<Rightarrow> 'w \<Rightarrow> ('x \<times> 'w \<times> 'o) option) \<Rightarrow> 'x list \<Rightarrow> 'w \<Rightarrow> ('x list \<times> 'w \<times> 'o list) option" where
  "scan stop f [] w = Some ([], w, [])"
| "scan stop f (x # xs) w =
     (case f x w of
        None \<Rightarrow> None
      | Some (x, w, out) \<Rightarrow>
          (if stop out then Some (x # xs, w, [out])
           else case scan stop f xs w of None \<Rightarrow> None | Some (xs, w, outs) \<Rightarrow> Some (x # xs, w, out # outs)))"

definition skips :: "('s, 'w) servo_class \<Rightarrow> int list \<Rightarrow> 's joint \<Rightarrow> bool" where
  "skips c failed j \<longleftrightarrow> 0 \<le> reference_servo_id c j \<and> reference_servo_id c j \<in> set failed"

definition unless_failed :: "('s, 'w) servo_class \<Rightarrow> int list \<Rightarrow> ('s, 'w) joint_call \<Rightarrow> ('s, 'w) joint_call" where
  "unless_failed c failed f j w = (if skips c failed j then Some (j, w, SUCCESS) else f j w)"

definition fail_joint :: "int \<Rightarrow> 'a device_scheme \<Rightarrow> 'a device_scheme" where
  "fail_joint sid d =
     (if 0 \<le> sid then set_last_failed_joint_id sid (mark_joint_failed_during_recovery sid d) else d)\<lparr>is_normal_status := False\<rparr>"

section \<open>Control modes and buffers\<close>

definition eff_set_control_mode :: "('s, 'w) effector_env \<Rightarrow> Role \<Rightarrow> ControlModeIntent \<Rightarrow> ('s, 'b, 'z, 'w) ecall" where
  "eff_set_control_mode E target_role intent s =
     (let s = ((fst s)\<lparr>ready_move_force_position_mode := (intent = READY_MOVE_OVERRIDE)\<rparr>, snd s)
      in if intent = READY_MOVE_OVERRIDE \<or> target_role = FOLLOWER
         then each_joint E (joint_change_control_mode_for_follower (ee_servos E)) s
         else each_joint E (joint_change_control_mode_for_leader (ee_servos E) (ee_now E (n_drv (snd s)))) s)"

definition can_set_control_mode :: "Role \<Rightarrow> ControlModeIntent \<Rightarrow> ('s, 'b, 'z, 'w) ecall" where
  "can_set_control_mode target_role intent s = Some (((fst s)\<lparr>ramped_target_initialized := False\<rparr>, snd s), SUCCESS)"

definition get_effective_control_mode :: "('s, 'b, 'z) effector_scheme \<Rightarrow> EffectorControlMode" where
  "get_effective_control_mode e = (if ready_move_force_position_mode e then EFF_POSITION else control_mode e)"

definition eff_wants_comm_loss_stop :: "('s, 'b, 'z) effector_scheme \<Rightarrow> bool" where
  "eff_wants_comm_loss_stop e \<longleftrightarrow> control_mode e = EFF_TORQUE"

definition overwrite :: "'x list \<Rightarrow> 'x list \<Rightarrow> 'x list" where
  "overwrite xs ys = take (length xs) ys @ drop (length ys) xs"

definition hold_buffers :: "('s, 'w) servo_class \<Rightarrow> 's joint \<Rightarrow> 's joint" where
  "hold_buffers c j = set_tele_tor_nm (Fin 0) (set_tele_vel_rad_sec (Fin 0) (set_tele_pos_rad (joint_pos_relative c j) j))"

definition clear_command_buffers ::
  "('s, 'w) servo_class \<Rightarrow> ('s, 'b, 'z) effector_scheme \<Rightarrow> ('s, 'b, 'z) effector_scheme" where
  "clear_command_buffers c e =
     e\<lparr>e_tele_pos := overwrite (e_tele_pos e) (map (joint_pos_relative c) (joints e)),
       e_tele_vel := overwrite (e_tele_vel e) (map (\<lambda>_. Fin 0) (joints e)),
       e_tele_tor := overwrite (e_tele_tor e) (map (\<lambda>_. Fin 0) (joints e)),
       joints := map (hold_buffers c) (joints e)\<rparr>"

section \<open>Reading and writing\<close>

definition read_joint ::
  "('s, 'w) effector_env \<Rightarrow> 'a device_scheme \<Rightarrow> int list \<Rightarrow> 's joint \<Rightarrow> 'w \<Rightarrow> ('s joint \<times> 'w \<times> (int \<times> ReturnCode) option) option" where
  "read_joint E d failed j w =
     (if skips (ee_servos E) failed j then Some (j, w, None)
      else case jcall E d (joint_read_hardware_values (ee_servos E)) j w of
             None \<Rightarrow> None | Some (j', w, rc) \<Rightarrow> Some (j', w, Some (reference_servo_id (ee_servos E) j, rc)))"

definition severe :: "ReturnCode \<Rightarrow> bool" where
  "severe rc \<longleftrightarrow> rc = SAFE_MODE_SIG \<or> rc = SAFE_MODE_TEMPERATURE \<or> rc = HARDWARE_FAULT"

fun ends_read :: "bool \<Rightarrow> (int \<times> ReturnCode) option \<Rightarrow> bool" where
  "ends_read tolerate (Some (sid, rc)) \<longleftrightarrow> \<not> tolerate \<and> severe rc"
| "ends_read tolerate None \<longleftrightarrow> False"

fun note_read :: "bool \<Rightarrow> (int \<times> ReturnCode) option \<Rightarrow> 'a device_scheme \<Rightarrow> 'a device_scheme" where
  "note_read tolerate (Some (sid, rc)) d =
     (if rc = SUCCESS \<or> \<not> severe rc \<and> tolerate then d
      else let d = d\<lparr>is_normal_status := False\<rparr>; d = (if 0 \<le> sid then set_last_failed_joint_id sid d else d)
           in if tolerate \<and> rc \<noteq> SAFE_MODE_TEMPERATURE \<and> 0 \<le> sid then mark_joint_failed_during_recovery sid d else d)"
| "note_read tolerate None d = d"

definition read_result :: "bool \<Rightarrow> ReturnCode \<Rightarrow> (int \<times> ReturnCode) option list \<Rightarrow> ReturnCode" where
  "read_result tolerate group_rc outs =
     (let rcs = map snd (List.map_filter (\<lambda>x. x) outs); return_code = (if rcs = [] then SUCCESS else last rcs)
      in if tolerate
         then (if \<exists>rc \<in> set rcs. rc \<noteq> SAFE_MODE_SIG \<and> rc \<noteq> HARDWARE_FAULT then SUCCESS else return_code)
         else if severe return_code then return_code
         else if group_rc \<noteq> SUCCESS then group_rc
         else if first_error rcs \<noteq> SUCCESS then first_error rcs
         else return_code)"

definition eff_read_hardware_values :: "('s, 'w) effector_env \<Rightarrow> ('s, 'b, 'z, 'w) ecall" where
  "eff_read_hardware_values E s =
     (let e = fst s; tolerate = (is_in_emergency_recovery e \<or> \<not> is_ready e)
      in if is_driver_created_by_this e \<and> \<not> has_driver e then Some (s, FAIL)
         else let (w, group_rc) = (if is_driver_created_by_this e then ee_group_read E (n_drv (snd s)) else (n_drv (snd s), SUCCESS))
              in case with_joints (scan (ends_read tolerate) (read_joint E e (failed_joint_ids e)) (joints e) w) s of
                   None \<Rightarrow> None
                 | Some ((e, n), outs) \<Rightarrow> Some ((fold (note_read tolerate) outs e, n), read_result tolerate group_rc outs))"

definition eff_write_hardware_values :: "('s, 'w) effector_env \<Rightarrow> ('s, 'b, 'z, 'w) ecall" where
  "eff_write_hardware_values E s =
     (if is_read_only (fst s) \<or> \<not> is_driver_created_by_this (fst s) then Some (s, SUCCESS)
      else if \<not> has_driver (fst s) then Some (s, FAIL)
      else let (w, rc) = ee_group_write E (n_drv (snd s)) in Some ((fst s, (snd s)\<lparr>n_drv := w\<rparr>), rc))"

definition probe_failed_servo_id :: "('s, 'w) effector_env \<Rightarrow> ('s, 'b, 'z) effector_scheme \<times> 'w node
   \<Rightarrow> ((('s, 'b, 'z) effector_scheme \<times> 'w node) \<times> int) option" where
  "probe_failed_servo_id E s =
     (case with_joints (scan (\<lambda>x. x \<noteq> None \<and> snd (the x) \<noteq> SUCCESS) (read_joint E (fst s) []) (joints (fst s)) (n_drv (snd s))) s of
        None \<Rightarrow> None
      | Some (s, outs) \<Rightarrow>
          Some (s, case filter (\<lambda>(sid, rc). rc \<noteq> SUCCESS) (List.map_filter (\<lambda>x. x) outs) of [] \<Rightarrow> -1 | (sid, _) # _ \<Rightarrow> sid))"

definition eff_park_safely :: "('s, 'w) effector_env \<Rightarrow> ('s, 'b, 'z, 'w) ecall" where
  "eff_park_safely E s =
     (case with_joints (visit_all (jcall E (fst s) (joint_park_safely (ee_servos E))) (joints (fst s)) (n_drv (snd s))) s of
        None \<Rightarrow> None | Some (s, rcs) \<Rightarrow> Some (s, first_error rcs))"

section \<open>The normalised gripper range\<close>

definition has_reference :: "'s joint \<Rightarrow> bool" where
  "has_reference j \<longleftrightarrow> reference_servo_index j < int (length (servos j))"

definition normalize_position :: "bool \<Rightarrow> flt \<Rightarrow> flt \<Rightarrow> flt \<Rightarrow> flt" where
  "normalize_position flip pos_min pos_max pos =
     (let max_range = fsub binary32 pos_max pos_min
      in if flt_le max_range (Fin 0) then Fin 0
         else let x = fdiv binary32 (fsub binary32 (clipping pos pos_min pos_max) pos_min) max_range
              in if flip then narrow binary32 (fsub binary64 (Fin 1) x) else x)"

definition get_normalized_gripper_position ::
  "('s, 'w) effector_env \<Rightarrow> ('s, 'b, 'z) effector_scheme \<Rightarrow> 's joint \<Rightarrow> 'w \<Rightarrow> ('s joint \<times> 'w \<times> flt) option" where
  "get_normalized_gripper_position E e j w =
     (let c = ee_servos E
      in if \<not> has_reference j then Some (j, w, Fin 0)
         else case jcall E e (joint_read_hardware_values c) j w of
                None \<Rightarrow> None
              | Some (j, w, rc) \<Rightarrow>
                  Some (j, w, if rc \<noteq> SUCCESS then Fin 0
                              else normalize_position (open_at_min e) (get_normalized_pos_min_relative c j)
                                     (get_normalized_pos_max_relative c j) (joint_pos_relative c j)))"

definition effective_pos_max :: "('s, 'w) servo_class \<Rightarrow> 's joint \<Rightarrow> flt" where
  "effective_pos_max c j =
     (let margin = (if has_normalized_position_range j then Fin 0 else pos_max_safety_margin j);
          margin = (if flt_lt margin (Fin 0) then Fin 0 else margin);
          top = fsub binary32 (get_normalized_pos_max_relative c j) margin
      in if flt_le top (get_normalized_pos_min_relative c j) then get_pos_max_relative c j else top)"

fun is_finite :: "flt \<Rightarrow> bool" where
  "is_finite (Fin _) \<longleftrightarrow> True"
| "is_finite _ \<longleftrightarrow> False"

definition get_gripper_pos_rad_relative_from_normalized :: "('s, 'w) servo_class \<Rightarrow> ('s, 'b, 'z) effector_scheme \<Rightarrow> flt \<Rightarrow> flt" where
  "get_gripper_pos_rad_relative_from_normalized c e x =
     (case joints e of
        [] \<Rightarrow> Fin 0
      | j # _ \<Rightarrow>
          (if \<not> has_reference j then Fin 0
           else if \<not> is_finite x then joint_pos_relative c j
           else let x = (if flt_lt x (Fin 0) \<or> flt_lt (Fin 1) x then clipping x (Fin 0) (Fin 1) else x);
                    pos_min = get_normalized_pos_min_relative c j;
                    effective_range = fsub binary32 (effective_pos_max c j) pos_min
                in if flt_le effective_range (Fin 0) then Fin 0
                   else let x = (if open_at_min e then fsub binary32 (Fin 1) x else x)
                        in fadd binary32 (fmul binary32 x effective_range) pos_min))"

section \<open>Observations and force feedback\<close>

definition joint_frame_age :: "('s, 'w) effector_env \<Rightarrow> 's joint \<Rightarrow> 'w \<Rightarrow> flt" where
  "joint_frame_age E j w =
     (if servos j = [] \<or> \<not> has_reference j then Fin (-1) else of_int_f binary32 (ee_frame_age E (reference_servo j) w))"

definition observed :: "('s, 'w) effector_env \<Rightarrow> 's joint \<Rightarrow> 'w \<Rightarrow> flt \<Rightarrow> data_joint" where
  "observed E j w pos =
     \<lparr>msg_pos = pos, msg_vel = joint_vel (ee_servos E) j, msg_tor = joint_tor (ee_servos E) j,
      msg_temperature = joint_temperature (ee_servos E) j, msg_idc_current = get_idc_current (ee_servos E) j,
      msg_frame_age_ms = joint_frame_age E j w\<rparr>"

definition observe_joint ::
  "('s, 'w) effector_env \<Rightarrow> ('s, 'b, 'z) effector_scheme \<Rightarrow> 's joint \<Rightarrow> 'w \<Rightarrow> ('s joint \<times> 'w \<times> data_joint) option" where
  "observe_joint E e j w =
     (case get_normalized_gripper_position E e j w of
        None \<Rightarrow> None
      | Some (j', w', pos) \<Rightarrow> Some (j', w', if ee_position_first E then observed E j' w' pos else observed E j w pos))"

definition get_observation :: "('s, 'w) effector_env \<Rightarrow> ('s, 'b, 'z) effector_scheme \<times> 'w node
   \<Rightarrow> ((('s, 'b, 'z) effector_scheme \<times> 'w node) \<times> data_joint list \<times> ReturnCode) option" where
  "get_observation E s =
     (if joints (fst s) = [] then Some (s, [], NOT_INITIALIZED)
      else case with_joints (scan (\<lambda>_. False) (observe_joint E (fst s)) (joints (fst s)) (n_drv (snd s))) s of
             None \<Rightarrow> None | Some (s, js) \<Rightarrow> Some (s, js, SUCCESS))"

text \<open>\<^verbatim>\<open>Algo::check_stability_control\<close>: all joints together are stable, or none is.\<close>

definition check_stability_control :: "('s, 'w) servo_class \<Rightarrow> nat \<Rightarrow> 's joint list \<Rightarrow> 's joint list \<times> ReturnCode" where
  "check_stability_control c t js =
     (let rs = map (update_stability c t) js; js = map fst rs
      in (if list_all snd rs then map (\<lambda>j. j\<lparr>spring_enabled := False\<rparr>) js
          else map (\<lambda>j. fst (change_control_mode_for_spring j)) js, SUCCESS))"

definition eff_operate_as_leader :: "('s, 'w) effector_env \<Rightarrow> ('s, 'b, 'z, 'w) ecall" where
  "eff_operate_as_leader E s =
     (let e = fst s; c = ee_servos E
      in if d_mode e \<noteq> MODE_NORMAL then Some (s, SUCCESS)
         else if joints e = [] then Some (s, FAIL)
         else if enabled_force_feedback e \<and> length (force_feedbacks e) \<noteq> length (joints e) then Some (s, NOT_INITIALIZED)
         else if \<not> has_algo e then Some (s, NOT_INITIALIZED)
         else let base_torque = (if enabled_force_feedback e
                                 then fadd binary32 (Fin 0) (get_force_feedback_torque (hd (force_feedbacks e))) else Fin 0)
              in if enabled_spring_effect e
                 then let (js, rc) = check_stability_control c (ee_now E (n_drv (snd s))) (joints e)
                      in if rc \<noteq> SUCCESS then Some ((e\<lparr>joints := js\<rparr>, snd s), rc)
                         else each_joint E (apply_spring_force c base_torque True) (e\<lparr>joints := js\<rparr>, snd s)
                 else each_joint E (joint_apply_torque c base_torque) s)"

definition follower_joint ::
  "'b cbuf \<Rightarrow> ('s, 'w) effector_env \<Rightarrow> ('s, 'b, 'z) effector_scheme \<Rightarrow> 's joint \<times> 'b force_feedback \<times> data_joint \<Rightarrow> 'w
   \<Rightarrow> (('s joint \<times> 'b force_feedback \<times> data_joint) \<times> 'w \<times> unit) option" where
  "follower_joint B E e x w =
     (case x of (j, ff, m) \<Rightarrow>
        case get_normalized_gripper_position E e j w of
          None \<Rightarrow> None
        | Some (j, w, leader_pos) \<Rightarrow>
            (case update_follower_info B leader_pos (msg_pos m) (msg_vel m) (msg_tor m) (msg_temperature m) (msg_idc_current m) ff of
               None \<Rightarrow> None
             | Some ff \<Rightarrow>
                 Some ((j\<lparr>follower_pos := msg_pos m, follower_vel := msg_vel m, follower_tor := msg_tor m,
                          follower_temperature := msg_temperature m, follower_idc_current := msg_idc_current m\<rparr>, ff, m), w, ())))"

definition effector_data :: "'b force_feedback \<Rightarrow> flt list" where
  "effector_data ff =
     [get_latest_value (ff_pos_filter ff), get_latest_value (ff_vel_filter ff), get_latest_value (ff_tor_filter ff),
      get_latest_value (ff_stall_filter ff), get_force_feedback_torque ff]"

definition joint_count_matches :: "('s, 'b, 'z) effector_scheme \<Rightarrow> data_joint list \<Rightarrow> bool" where
  "joint_count_matches e ms \<longleftrightarrow>
     (let expected = start_index_joint e + int (length (joints e)) in 0 \<le> expected \<and> int (length ms) = expected)"

definition eff_process_follower_msg ::
  "'b cbuf \<Rightarrow> ('s, 'w) effector_env \<Rightarrow> (topic_event \<Rightarrow> ('s, 'b, 'z) effector_scheme \<times> 'w node \<Rightarrow> 'w node \<times> ReturnCode)
   \<Rightarrow> data_joint list \<Rightarrow> ('s, 'b, 'z, 'w) ecall" where
  "eff_process_follower_msg B E publish ms s =
     (let e = fst s
      in if \<not> enabled_force_feedback e then Some (s, SUCCESS)
         else if joints e = [] \<or> length (force_feedbacks e) \<noteq> length (joints e) then Some (s, NOT_INITIALIZED)
         else if \<not> joint_count_matches e ms then Some (s, INVALID_PARAM)
         else if \<not> has_topic e then Some (s, NOT_INITIALIZED)
         else if start_index_joint e < 0 then None
         else case scan (\<lambda>_. False) (follower_joint B E e)
                     (zip (joints e) (zip (force_feedbacks e) (drop (nat (start_index_joint e)) ms))) (n_drv (snd s)) of
                None \<Rightarrow> None
              | Some (xs, w, _) \<Rightarrow>
                  (let ffs = map (\<lambda>x. fst (snd x)) xs;
                       s = (e\<lparr>joints := map fst xs, force_feedbacks := ffs\<rparr>, (snd s)\<lparr>n_drv := w\<rparr>);
                       (n, rc) = publish (PubEffector (effector_data (hd ffs))) s
                   in Some ((fst s, n), rc)))"

section \<open>Targets\<close>

definition set_tele :: "flt \<times> flt \<times> flt \<Rightarrow> 's joint \<Rightarrow> 's joint" where
  "set_tele t j = (case t of (pos, vel, tor) \<Rightarrow> set_tele_tor_nm tor (set_tele_vel_rad_sec vel (set_tele_pos_rad pos j)))"

definition eff_apply_action :: "('s, 'w) servo_class \<Rightarrow> data_joint list \<Rightarrow> ('s, 'b, 'z, 'w) ecall" where
  "eff_apply_action c ms s =
     (let e = fst s; k = length (joints e)
      in if \<not> joint_count_matches e ms then Some (s, INVALID_PARAM)
         else if start_index_joint e < 0 \<or> length (e_tele_pos e) < k \<or> length (e_tele_vel e) < k \<or> length (e_tele_tor e) < k then None
         else let own = drop (nat (start_index_joint e)) ms;
                  pos = map (\<lambda>m. get_gripper_pos_rad_relative_from_normalized c e (msg_pos m)) own
              in Some ((e\<lparr>e_tele_pos := overwrite (e_tele_pos e) pos, e_tele_vel := overwrite (e_tele_vel e) (map msg_vel own),
                          e_tele_tor := overwrite (e_tele_tor e) (map msg_tor own),
                          joints := map2 set_tele (zip pos (zip (map msg_vel own) (map msg_tor own))) (joints e)\<rparr>, snd s), SUCCESS))"

text \<open>Torque mode of a CAN gripper; the ramped target is shared by the joints and travels with the driver's state.\<close>

definition ramp :: "flt \<Rightarrow> flt \<Rightarrow> flt \<times> bool \<Rightarrow> flt" where
  "ramp target measured r =
     (let start = (if snd r then fst r else measured)
      in fadd binary32 start (clipping (fsub binary32 target start) (Fin (-1)) (Fin 1)))"

definition grip_bound :: "'s joint \<Rightarrow> flt" where
  "grip_bound j = (if flt_lt (Fin 0) (grip_torque_limit_nm j) then grip_torque_limit_nm j else torq_max j)"

definition grip_torque :: "('s, 'w) servo_class \<Rightarrow> ('s, 'b, 'z) effector_scheme \<Rightarrow> flt \<Rightarrow> 's joint \<Rightarrow> flt" where
  "grip_torque c e goal j =
     (let torque = fmul binary32 (distance_to_torque e)
                     (fsub binary32 (fsub binary32 goal (joint_pos_relative c j)) (grip_spring_offset e))
      in fmul binary32 (clipping torque (fneg (grip_bound j)) (grip_bound j)) (of_int_f binary32 (get_dir_invert c j)))"

definition move_joint_with_torque ::
  "('s, 'w) effector_env \<Rightarrow> ('s, 'b, 'z) effector_scheme \<Rightarrow> flt \<Rightarrow> 's joint \<Rightarrow> 'w \<times> flt \<times> bool
   \<Rightarrow> ('s joint \<times> ('w \<times> flt \<times> bool) \<times> ReturnCode) option" where
  "move_joint_with_torque E e target j x =
     (let c = ee_servos E; clipped = clipping target (get_pos_min_relative c j) (get_pos_max_relative c j);
          goal = ramp clipped (joint_pos_relative c j) (snd x)
      in case jcall E e (joint_apply_torque_with_damping c (grip_torque c e goal j)) j (fst x) of
           None \<Rightarrow> None | Some (j, w, rc) \<Rightarrow> Some (j, (w, goal, True), rc))"

definition follow_joint ::
  "('s, 'w) effector_env \<Rightarrow> ('s, 'b, 'z) effector_scheme \<Rightarrow> 's joint \<times> flt option \<Rightarrow> 'w \<times> flt \<times> bool
   \<Rightarrow> (('s joint \<times> flt option) \<times> ('w \<times> flt \<times> bool) \<times> ReturnCode) option" where
  "follow_joint E e p x =
     (case p of
        (j, None) \<Rightarrow> None
      | (j, Some target) \<Rightarrow>
          (if control_mode e = EFF_TORQUE
           then map_option (\<lambda>(j, x, rc). ((j, Some target), x, rc)) (move_joint_with_torque E e target j x)
           else let c = ee_servos E; j = sees_device c e j; (j, t) = clamp_target_to_grip_torque_limit c target j
                in map_option (\<lambda>(j, w, rc). ((j, Some target), (w, snd x), rc)) (device_move c e t (Fin 0) j (fst x))))"

definition eff_operate_as_follower :: "('s, 'w) effector_env \<Rightarrow> ('s, 'b, 'z, 'w) ecall" where
  "eff_operate_as_follower E s =
     (let e = fst s
      in if is_read_only e then Some (s, SUCCESS)
         else if joints e = [] then Some (s, FAIL)
         else case until_error (follow_joint E e)
                     (zip (joints e) (map Some (e_tele_pos e) @ replicate (length (joints e)) None))
                     (n_drv (snd s), ramped_target_pos e, ramped_target_initialized e) of
                None \<Rightarrow> None
              | Some (ps, (w, r, i), rc) \<Rightarrow>
                  Some ((e\<lparr>joints := map fst ps, ramped_target_pos := r, ramped_target_initialized := i\<rparr>, (snd s)\<lparr>n_drv := w\<rparr>), rc))"

definition set_effector_kd :: "('s, 'w) servo_class \<Rightarrow> flt \<Rightarrow> ('s, 'b, 'z, 'w) ecall" where
  "set_effector_kd c kd s =
     (let rs = map (set_pos_kd c kd) (joints (fst s)) in Some (((fst s)\<lparr>joints := map fst rs\<rparr>, snd s), first_error (map snd rs)))"

definition set_effector_min_max_pos :: "('s, 'w) servo_class \<Rightarrow> flt \<Rightarrow> flt \<Rightarrow> ('s, 'b, 'z, 'w) ecall" where
  "set_effector_min_max_pos c lo hi s =
     (let rs = map (\<lambda>j. let (j, r1) = set_pos_min_relative c lo j; (j, r2) = set_pos_max_relative c hi j in (j, [r1, r2])) (joints (fst s))
      in Some (((fst s)\<lparr>joints := map fst rs\<rparr>, snd s), first_error (concat (map snd rs))))"

definition set_distance_to_torque :: "flt \<Rightarrow> ('s, 'b, 'z, 'w) ecall" where
  "set_distance_to_torque k s = Some (((fst s)\<lparr>distance_to_torque := k\<rparr>, snd s), SUCCESS)"

section \<open>The ready move\<close>

definition MOVE_TO_READY_VEL_RAD_S_NORMAL_EFFECTOR :: flt where "MOVE_TO_READY_VEL_RAD_S_NORMAL_EFFECTOR = Fin 3"
definition MOVE_TO_READY_VEL_RAD_S_ERROR_EFFECTOR :: flt where "MOVE_TO_READY_VEL_RAD_S_ERROR_EFFECTOR = lit32 (1/5)"
definition READY_MOVE_TOLERANCE_HYSTERESIS_RAD :: flt where "READY_MOVE_TOLERANCE_HYSTERESIS_RAD = lit32 (1/1000)"

definition effector_ready_step :: "('s, 'b, 'z) effector_scheme \<Rightarrow> flt" where
  "effector_ready_step e =
     ready_move_step_rad
       (foldl (\<lambda>v j. fmin v (j_vel_max j))
          (if slow_move_active e then MOVE_TO_READY_VEL_RAD_S_ERROR_EFFECTOR else MOVE_TO_READY_VEL_RAD_S_NORMAL_EFFECTOR)
          (joints e)) e"

text \<open>The next command of a joint: from the last command toward the target by at most a step, restarted at the measured position after an overshoot.\<close>

definition next_ready_command :: "flt \<Rightarrow> flt \<Rightarrow> flt \<Rightarrow> flt \<Rightarrow> flt \<Rightarrow> flt" where
  "next_ready_command step margin target current prev =
     (let delta_meas = fsub binary32 target current; delta_cmd = fsub binary32 target prev;
          overshoot = (flt_lt margin (fabs delta_meas) \<and>
                       (flt_lt (Fin 0) delta_meas \<and> flt_lt delta_cmd (Fin 0) \<or> flt_lt delta_meas (Fin 0) \<and> flt_lt (Fin 0) delta_cmd));
          cmd_pos = (if overshoot then current else prev);
          delta_cmd = fsub binary32 target cmd_pos
      in if flt_lt step delta_cmd then fadd binary32 cmd_pos step
         else if flt_lt delta_cmd (fneg step) then fsub binary32 cmd_pos step
         else target)"

definition ready_start :: "('s, 'w) servo_class \<Rightarrow> flt \<Rightarrow> 's joint \<Rightarrow> 's joint" where
  "ready_start c ready_position j = reset_stuck_counter c (j\<lparr>target_pos := ready_position, prev_target_pos := joint_pos_relative c j\<rparr>)"

definition ready_prepare :: "('s, 'w) servo_class \<Rightarrow> ('s, 'b, 'z) effector_scheme \<Rightarrow> ('s, 'b, 'z) effector_scheme option" where
  "ready_prepare c e =
     (if 1 \<le> init_count e then Some e
      else let goal = get_gripper_pos_rad_relative_from_normalized c e (Fin 1);
               far = foldl (\<lambda>m j. fmax m (fabs (fsub binary32 goal (joint_pos_relative c j)))) (Fin 0) (joints e)
           in ready_move_budget_init far (effector_ready_step e) (e\<lparr>reached_cnt := 0, joints := map (ready_start c goal) (joints e)\<rparr>))"

record ready_report =
  rr_sid :: int
  rr_stuck :: bool
  rr_outside :: bool
  rr_displacement :: flt
  rr_code :: ReturnCode

definition ready_joint ::
  "('s, 'w) effector_env \<Rightarrow> 'a device_scheme \<Rightarrow> int list \<Rightarrow> flt \<Rightarrow> 's joint \<Rightarrow> 'w \<Rightarrow> ('s joint \<times> 'w \<times> ready_report option) option" where
  "ready_joint E d failed step j w =
     (let c = ee_servos E; sid = reference_servo_id c j
      in if skips c failed j then Some (j, w, None)
         else let (j, is_stuck) = update_and_check_stuck c (sees_device c d j);
                  current = joint_pos_relative c j;
                  displacement = fabs (fsub binary32 (target_pos j) current);
                  outside = flt_lt (fadd binary32 (pos_error_margin j) READY_MOVE_TOLERANCE_HYSTERESIS_RAD) displacement;
                  new_pos = next_ready_command step (pos_error_margin j) (target_pos j) current (prev_target_pos j);
                  (j, target) = clamp_target_to_grip_torque_limit c new_pos (j\<lparr>prev_target_pos := new_pos\<rparr>)
              in case joint_move c target j w of
                   None \<Rightarrow> None
                 | Some (j, w, rc) \<Rightarrow>
                     Some (j, w, Some \<lparr>rr_sid = sid, rr_stuck = is_stuck, rr_outside = outside, rr_displacement = displacement, rr_code = rc\<rparr>))"

definition unsettled :: "ready_report \<Rightarrow> bool" where
  "unsettled r \<longleftrightarrow> rr_outside r \<and> \<not> rr_stuck r"

definition stopped_short :: "ready_report \<Rightarrow> bool" where
  "stopped_short r \<longleftrightarrow> rr_stuck r \<and> rr_outside r"

definition worst_joint :: "ready_report list \<Rightarrow> int" where
  "worst_joint rs =
     snd (foldl (\<lambda>(w, sid) r. if rr_outside r \<and> flt_lt w (rr_displacement r) then (rr_displacement r, rr_sid r) else (w, sid)) (Fin 0, -1) rs)"

definition note_move :: "ready_report \<Rightarrow> 'a device_scheme \<Rightarrow> 'a device_scheme" where
  "note_move r d =
     (let d = (if unsettled r then d\<lparr>reached_cnt := 0\<rparr> else d) in if rr_code r \<noteq> SUCCESS then fail_joint (rr_sid r) d else d)"

definition blame :: "int \<Rightarrow> 'a device_scheme \<Rightarrow> 'a device_scheme" where
  "blame sid d = (if 0 \<le> sid then set_last_failed_joint_id sid else id) (d\<lparr>is_normal_status := False\<rparr>)"

definition ready_finish :: "ready_report list \<Rightarrow> 'a device_scheme \<Rightarrow> 'a device_scheme" where
  "ready_finish rs d =
     (let (d, exhausted) = ready_move_budget_spend d;
          d = (if rs = [] then d\<lparr>is_ready := True, init_count := 0\<rparr>
               else if \<not> list_ex unsettled rs
               then let d = d\<lparr>reached_cnt := reached_cnt d + 1\<rparr>
                    in if DEVICE_ARRIVED_CONFIRM_CNT < reached_cnt d then d\<lparr>is_ready := True, init_count := 0\<rparr> else d
               else if exhausted then (blame (worst_joint rs) d)\<lparr>is_ready := True, init_count := 0\<rparr>
               else d\<lparr>is_ready := False\<rparr>);
          short = filter stopped_short rs;
          first_stuck = (case filter (\<lambda>r. 0 \<le> rr_sid r) short of [] \<Rightarrow> -1 | r # _ \<Rightarrow> rr_sid r);
          d = (if is_ready d \<and> short \<noteq> [] then blame first_stuck d else d)
      in d\<lparr>init_count := init_count d + 1\<rparr>)"

definition hold_pose :: "('s, 'w) servo_class \<Rightarrow> 's joint \<Rightarrow> 's joint" where
  "hold_pose c j = (let current = joint_pos_relative c j in j\<lparr>target_pos := current, prev_target_pos := current\<rparr>)"

definition eff_move_to_ready_position :: "('s, 'w) effector_env \<Rightarrow> ('s, 'b, 'z, 'w) ecall" where
  "eff_move_to_ready_position E s =
     (let e = fst s; c = ee_servos E
      in if is_read_only e then Some ((e\<lparr>is_ready := True\<rparr>, snd s), SUCCESS)
         else if cla_dont_go_to_home_pos (cla e) \<and> is_startup_ready_phase e
         then Some (((clear_command_buffers c (e\<lparr>joints := map (hold_pose c) (joints e)\<rparr>))\<lparr>is_ready := True\<rparr>, snd s), SUCCESS)
         else case ready_prepare c e of
                None \<Rightarrow> None
              | Some e \<Rightarrow>
                  (case with_joints (scan (\<lambda>_. False) (ready_joint E e (failed_joint_ids e) (effector_ready_step e)) (joints e) (n_drv (snd s)))
                          (e, snd s) of
                     None \<Rightarrow> None
                   | Some ((e, n), outs) \<Rightarrow>
                       (let rs = List.map_filter (\<lambda>x. x) outs
                        in Some ((ready_finish rs (fold note_move rs e), n), if rs = [] then SUCCESS else rr_code (last rs)))))"

section \<open>Verification, start and construction\<close>

definition group_flush :: "('s, 'w) effector_env \<Rightarrow> ('s, 'b, 'z, 'w) ecall" where
  "group_flush E s =
     (if has_driver (fst s) then let (w, rc) = ee_group_write E (n_drv (snd s)) in Some ((fst s, (snd s)\<lparr>n_drv := w\<rparr>), rc) else Some (s, SUCCESS))"

definition settle :: "('s, 'w) effector_env \<Rightarrow> ('s, 'b, 'z, 'w) ecall" where
  "settle E s = Some ((fst s, (snd s)\<lparr>n_drv := ee_settle E (n_drv (snd s))\<rparr>), SUCCESS)"

definition verify_each :: "('s, 'w) effector_env \<Rightarrow> int list \<Rightarrow> ('s, 'b, 'z, 'w) ecall" where
  "verify_each E failed = each_joint E (unless_failed (ee_servos E) failed (joint_verify_operational (ee_servos E)))"

definition probe_each :: "('s, 'w) effector_env \<Rightarrow> int list \<Rightarrow> ('s, 'b, 'z, 'w) ecall" where
  "probe_each E failed =
     each_joint E (unless_failed (ee_servos E) failed (\<lambda>j. joint_move (ee_servos E) (prev_target_pos j) j))"

definition eff_verify_servos_operational :: "('s, 'w) effector_env \<Rightarrow> ('s, 'b, 'z, 'w) ecall" where
  "eff_verify_servos_operational E s =
     (let failed = failed_joint_ids (fst s); any_probe_sent = list_ex (\<lambda>j. \<not> skips (ee_servos E) failed j) (joints (fst s))
      in if is_read_only (fst s) then Some (s, SUCCESS)
         else andthen (probe_each E failed)
                (andthen (if any_probe_sent then andthen (group_flush E) (settle E) else (\<lambda>s. Some (s, SUCCESS))) (verify_each E failed)) s)"

datatype hold_outcome = HoldSkipped | HoldFailed int | HoldSent

definition hold_joint ::
  "('s, 'w) effector_env \<Rightarrow> 'a device_scheme \<Rightarrow> int list \<Rightarrow> 's joint \<Rightarrow> 'w \<Rightarrow> ('s joint \<times> 'w \<times> hold_outcome) option" where
  "hold_joint E d failed j w =
     (let c = ee_servos E; sid = reference_servo_id c j
      in if skips c failed j then Some (j, w, HoldSkipped)
         else if joint_verify_position_fresh c j w \<noteq> SUCCESS then Some (j, w, HoldFailed sid)
         else case jcall E d (hold_at_current_position c) j w of
                None \<Rightarrow> None
              | Some (j, w, rc) \<Rightarrow> Some (if rc \<noteq> SUCCESS then (j, w, HoldFailed sid) else (reset_stuck_counter c j, w, HoldSent)))"

fun note_hold :: "hold_outcome \<Rightarrow> 'a device_scheme \<Rightarrow> 'a device_scheme" where
  "note_hold (HoldFailed sid) d = fail_joint sid d"
| "note_hold _ d = d"

definition hold_all :: "('s, 'w) effector_env \<Rightarrow> ('s, 'b, 'z, 'w) ecall" where
  "hold_all E s =
     (case with_joints (scan (\<lambda>_. False) (hold_joint E (fst s) (failed_joint_ids (fst s))) (joints (fst s)) (n_drv (snd s))) s of
        None \<Rightarrow> None
      | Some ((e, n), outs) \<Rightarrow>
          (let s = (fold note_hold outs e, n) in if HoldSent \<in> set outs then eff_write_hardware_values E s else Some (s, SUCCESS)))"

definition startup_hold :: "('s, 'w) effector_env \<Rightarrow> ('s, 'b, 'z, 'w) ecall" where
  "startup_hold E s =
     (if is_read_only (fst s) then Some (s, SUCCESS) else andthen (verify_each E (failed_joint_ids (fst s))) (hold_all E) s)"

definition eff_start_body :: "('s, 'w) effector_env \<Rightarrow> ('s, 'b, 'z, 'w) ecall" where
  "eff_start_body E =
     andthen (each_joint E (joint_start_hardware (ee_servos E)))
       (andthen (eff_read_hardware_values E)
         (andthen (startup_hold E) (andthen (eff_move_to_ready_position E) (eff_write_hardware_values E))))"

definition effector_start ::
  "(('s, 'b, 'z) effector_scheme, 'w) device_class \<Rightarrow> ('s, 'w) effector_env \<Rightarrow> ('s, 'b, 'z, 'w) ecall" where
  "effector_start C E s =
     (case device_start C s of
        (s, rc) \<Rightarrow>
          (if rc \<noteq> SUCCESS then Some (s, rc)
           else case eff_start_body E s of
                  None \<Rightarrow> None
                | Some (s, rc) \<Rightarrow>
                    (if rc = SUCCESS then Some (s, SUCCESS)
                     else case device_stop C s of None \<Rightarrow> None | Some (s, _) \<Rightarrow> Some (s, rc))))"

end
