(* ===== verification/Effector_Class.thy ===== *)
theory Effector_Class
  imports Effector
begin

text \<open>
  The effector as a device: its construction (\<^verbatim>\<open>DeviceEffector::init\<close>), its table of virtual functions on a ZeroMQ topic, and
  the proof that this class keeps the contract of a device. The facts about emergency recovery that follow from the contract hold
  for every run of an effector.
\<close>

section \<open>Construction\<close>

record effector_args =
  ea_effector_max_pos :: flt
  ea_effector_min_pos :: flt
  ea_distance_to_torque :: flt
  ea_effector_control_mode :: string

definition new_effector_object :: "cla_args \<Rightarrow> ('s, 'b) effector" where
  "new_effector_object a =
     device.extend ((new_device_object a)\<lparr>d_type := EFFECTOR\<rparr>)
       \<lparr>joints = [], e_tele_pos = [], e_tele_vel = [], e_tele_tor = [], force_feedbacks = [], start_index_joint = 0,
        start_index_servo = 0, control_mode = EFF_UNDEFINED, ready_move_force_position_mode = False, distance_to_torque = Fin 0,
        grip_spring_offset = Fin 0, open_at_min = False, ramped_target_pos = Fin 0, ramped_target_initialized = False\<rparr>"

definition parse_control_mode :: "string \<Rightarrow> EffectorControlMode option" where
  "parse_control_mode m = (if m = ''torque'' then Some EFF_TORQUE else if m = ''position'' then Some EFF_POSITION else None)"

definition configured_open_at_min :: "json \<Rightarrow> json \<Rightarrow> bool \<Rightarrow> bool" where
  "configured_open_at_min individual model b =
     (let (b, rc) = get_field_value get_bool individual ''open_at_min'' b
      in if rc = SUCCESS then b
         else let (b, rc) = get_field_value get_bool model ''open_at_min'' b in if rc = SUCCESS then b else False)"

definition configured_control_mode :: "json \<Rightarrow> EffectorControlMode option" where
  "configured_control_mode individual =
     (let (m, rc) = get_field_value get_string individual ''control_mode'' []
      in if rc = SUCCESS then parse_control_mode m else Some EFF_POSITION)"

definition OPT_DISTANCE_TO_TORQUE_DEFAULT :: flt where "OPT_DISTANCE_TO_TORQUE_DEFAULT = Fin 2"

definition configured_distance_to_torque :: "json \<Rightarrow> flt" where
  "configured_distance_to_torque individual =
     (let (x, rc) = get_field_value get_float individual ''dist_to_torque_const'' (Fin 0)
      in if rc = SUCCESS then x else OPT_DISTANCE_TO_TORQUE_DEFAULT)"

definition configure_effector :: "json \<Rightarrow> json \<Rightarrow> ('s, 'b, 'z) effector_scheme \<Rightarrow> ('s, 'b, 'z) effector_scheme \<times> ReturnCode" where
  "configure_effector model individual e =
     (let e = e\<lparr>open_at_min := configured_open_at_min individual model (open_at_min e)\<rparr>
      in case configured_control_mode individual of
           None \<Rightarrow> (e, INVALID_PARAM)
         | Some m \<Rightarrow>
             (let e = e\<lparr>control_mode := m,
                        grip_spring_offset := fst (get_field_value get_float individual ''grip_spring_offset'' (grip_spring_offset e)),
                        distance_to_torque := configured_distance_to_torque individual\<rparr>;
                  (spring, rc) = get_field_value get_bool individual ''spring_effect'' False
              in if rc \<noteq> SUCCESS then (e, rc) else (e\<lparr>enabled_spring_effect := spring\<rparr>, SUCCESS)))"

text \<open>The command line overrides limits, gain and mode.\<close>

definition override_limits :: "('s, 'w) servo_class \<Rightarrow> effector_args \<Rightarrow> 's joint \<Rightarrow> 's joint" where
  "override_limits c a j =
     (let j = (if flt_eq (ea_effector_max_pos a) (Fin (-9999)) then j else fst (set_pos_max_relative c (ea_effector_max_pos a) j))
      in if flt_eq (ea_effector_min_pos a) (Fin 9999) then j else fst (set_pos_min_relative c (ea_effector_min_pos a) j))"

definition override_effector :: "effector_args \<Rightarrow> ('s, 'b, 'z) effector_scheme \<Rightarrow> ('s, 'b, 'z) effector_scheme \<times> ReturnCode" where
  "override_effector a e =
     (let e = (if flt_lt (lit32 (1 / 10 ^ 6)) (fabs (fsub binary64 (ea_distance_to_torque a) OPT_DISTANCE_TO_TORQUE_DEFAULT))
               then e\<lparr>distance_to_torque := ea_distance_to_torque a\<rparr> else e)
      in if ea_effector_control_mode a = ''undefined'' then (e, SUCCESS)
         else case parse_control_mode (ea_effector_control_mode a) of
                None \<Rightarrow> (e, INVALID_PARAM) | Some m \<Rightarrow> (e\<lparr>control_mode := m\<rparr>, SUCCESS))"

text \<open>Indices and buffers follow the joints; an effector on an arm starts behind the joints and servos of the arm.\<close>

definition size_effector :: "(int \<times> int) option \<Rightarrow> 'b force_feedback \<Rightarrow> ('s, 'b, 'z) effector_scheme \<Rightarrow> ('s, 'b, 'z) effector_scheme" where
  "size_effector arm ff e =
     (let k = length (joints e)
      in e\<lparr>dof := int k, dof_total := int k, servo_num := int (sum_list (map (\<lambda>j. length (servos j)) (joints e))),
           start_index_joint := (case arm of None \<Rightarrow> 0 | Some (d, _) \<Rightarrow> d),
           start_index_servo := (case arm of None \<Rightarrow> 0 | Some (_, n) \<Rightarrow> n),
           e_tele_pos := replicate k (Fin 0), e_tele_vel := replicate k (Fin 0), e_tele_tor := replicate k (Fin 0),
           force_feedbacks := replicate k ff\<rparr>)"

definition effector_init ::
  "('s, 'w) servo_class \<Rightarrow> (string \<Rightarrow> flt) \<Rightarrow> (json \<Rightarrow> 'w \<Rightarrow> 's list \<times> 'w \<times> ReturnCode)
   \<Rightarrow> (json \<Rightarrow> 's list \<Rightarrow> 's list \<times> ReturnCode) \<Rightarrow> ('s \<Rightarrow> 'w \<Rightarrow> 'w) \<Rightarrow> 'b cbuf \<Rightarrow> json \<Rightarrow> json \<Rightarrow> cla_args \<Rightarrow> effector_args
   \<Rightarrow> (int \<times> int) option \<Rightarrow> device_parts \<Rightarrow> ('s, 'b, 'z, 'w) ecall" where
  "effector_init c g mk ind del B model individual a ea arm q s =
     (let (e, rc) = device_init (Some model) a q (fst s)
      in if rc \<noteq> SUCCESS then Some ((e, snd s), rc)
         else let (e, rc) = configure_effector model individual e
         in if rc \<noteq> SUCCESS then Some ((e, snd s), rc)
         else let (js, w, rc) = new_joints c g (has_driver e) mk ind del (Some model) (Some individual) (joints e) (n_drv (snd s));
                  s = (e\<lparr>joints := js\<rparr>, (snd s)\<lparr>n_drv := w\<rparr>)
         in if rc \<noteq> SUCCESS then Some (s, rc)
         else case (new_force_feedback B, js) of
                (Inr ff, j # rest) \<Rightarrow>
                  (let (e, rc) = override_effector ea ((size_effector arm ff (fst s))\<lparr>joints := override_limits c ea j # rest\<rparr>)
                   in Some ((e, snd s), rc))
              | _ \<Rightarrow> None)"

section \<open>The class of effectors on a ZeroMQ topic\<close>

record ('s, 'b, 'w) effector_world =
  ew_env :: "('s, 'w) effector_env"
  ew_bufs :: "'b cbuf"
  ew_class :: DeviceClass
  ew_open :: "'w \<Rightarrow> 'w \<times> ReturnCode"
  ew_close :: "'w \<Rightarrow> 'w \<times> ReturnCode"
  ew_arm :: "'w \<Rightarrow> 'w \<times> ReturnCode"
  ew_ports :: zmq_ports
  ew_layout :: zmq_layout
  ew_names :: zmq_names
  ew_inbox :: "'w \<Rightarrow> zmq_inbox"

definition effector_mode :: "('s, 'b, 'w) effector_world \<Rightarrow> Role \<Rightarrow> ControlModeIntent \<Rightarrow> ('s, 'b, 'z, 'w) ecall" where
  "effector_mode W = (if ew_class W = DeviceEffectorCan_class then can_set_control_mode else eff_set_control_mode (ew_env W))"

definition eff_hold :: "('s, 'b, 'w) effector_world \<Rightarrow> ('s, 'b, 'z, 'w) ecall" where
  "eff_hold W = runtime_hold (\<lambda>_. clear_command_buffers (ee_servos (ew_env W))) (ee_now (ew_env W))"

definition effector_base :: "('s, 'b, 'w) effector_world \<Rightarrow> (('s, 'b, 'z) effector_scheme, 'w) device_class" where
  "effector_base W =
     \<lparr>vd_park = eff_park_safely (ew_env W), vd_read = eff_read_hardware_values (ew_env W),
      vd_write = eff_write_hardware_values (ew_env W), vd_move_to_ready = eff_move_to_ready_position (ew_env W),
      vd_leader = eff_operate_as_leader (ew_env W), vd_follower = eff_operate_as_follower (ew_env W),
      vd_set_control_mode = effector_mode W, vd_clear_buffers = (\<lambda>_. clear_command_buffers (ee_servos (ew_env W))),
      vd_reset_ready = base_reset_ready, vd_observation = get_observation (ew_env W), vd_completion_ratio = (\<lambda>d. (d, Fin 0)),
      vd_force_feedback = set_runtime_force_feedback (effector_mode W), vd_hold = eff_hold W, vd_open = ew_open W,
      vd_close = ew_close W, vd_arm = ew_arm W, vd_now = ee_now (ew_env W), vd_publish = zmq_publish (ew_ports W),
      vd_topic_step = Some\<rparr>"

definition effector_target :: "('s, 'b, 'w) effector_world \<Rightarrow> (('s, 'b, 'z) effector_scheme, 'w) message_target" where
  "effector_target W =
     (let c = ee_servos (ew_env W)
      in \<lparr>mt_apply_joints = eff_apply_action c, mt_apply_joystick = (\<lambda>_. refuse SUCCESS),
          mt_follower_msg = eff_process_follower_msg (ew_bufs W) (ew_env W) (zmq_publish (ew_ports W)),
          mt_force_feedback = set_runtime_force_feedback (effector_mode W),
          mt_force_feedback_gain = (\<lambda>g s. let (d, rc) = set_runtime_force_feedback_gain g (fst s) in Some ((d, snd s), rc)),
          mt_hold = eff_hold W,
          mt_gravity_float = (\<lambda>_ _. refuse NOT_SUPPORTED), mt_torq_rescale = (\<lambda>_. refuse NOT_SUPPORTED), mt_is_effector = True,
          mt_effector_min_max = set_effector_min_max_pos c, mt_distance_to_torque = set_distance_to_torque,
          mt_effector_kd = set_effector_kd c, mt_request_ready = request_move_to_ready_position,
          mt_request_stop = request_move_to_ready_and_stop, mt_now = ee_now (ew_env W)\<rparr>)"

definition effector_topic_step :: "('s, 'b, 'w) effector_world \<Rightarrow> ('s, 'b, 'z, 'w) ecall" where
  "effector_topic_step W s =
     zmq_step (effector_base W) (effector_target W) (ew_layout W) (ew_names W) (ew_inbox W (n_drv (snd s))) s"

definition effector_class :: "('s, 'b, 'w) effector_world \<Rightarrow> (('s, 'b, 'z) effector_scheme, 'w) device_class" where
  "effector_class W = (effector_base W)\<lparr>vd_topic_step := (\<lambda>s. map_option fst (effector_topic_step W s))\<rparr>"

lemma effector_class_fields:
  "vd_read (effector_class W) = eff_read_hardware_values (ew_env W)" "vd_write (effector_class W) = eff_write_hardware_values (ew_env W)"
  "vd_leader (effector_class W) = eff_operate_as_leader (ew_env W)" "vd_follower (effector_class W) = eff_operate_as_follower (ew_env W)"
  "vd_move_to_ready (effector_class W) = eff_move_to_ready_position (ew_env W)" "vd_publish (effector_class W) = zmq_publish (ew_ports W)"
  "vd_completion_ratio (effector_class W) = (\<lambda>d. (d, Fin 0))" "now_of (effector_class W) n = ee_now (ew_env W) (n_drv n)"
  by (simp_all add: effector_class_def effector_base_def now_of_def)

section \<open>The effector keeps the contract\<close>

lemma fold_keeps: "(\<And>x d. g (f x d) = g d) \<Longrightarrow> g (fold f xs d) = g d"
  by (induction xs arbitrary: d) simp_all

lemmas keeps_view = fold_keeps [of recovery_view]

lemma with_joints_still: "with_joints r s = Some (s', x) \<Longrightarrow> still s s'"
  by (cases s) (auto simp: with_joints_def recovery_view_def intro!: still_fields split: option.splits)

lemma each_joint_still: "each_joint E f s = Some (s', rc) \<Longrightarrow> still s s'"
  unfolding each_joint_def by (rule with_joints_still)

lemma fail_joint_view [simp]: "recovery_view (fail_joint i d) = recovery_view d"
  by (simp add: fail_joint_def recovery_view_def set_last_failed_joint_id_def mark_joint_failed_during_recovery_def)

lemma note_read_view: "recovery_view (note_read t x d) = recovery_view d"
  by (cases "(t, x, d)" rule: note_read.cases)
     (auto simp: recovery_view_def set_last_failed_joint_id_def mark_joint_failed_during_recovery_def Let_def)

lemma note_move_view: "recovery_view (note_move r d) = recovery_view d"
  by (simp add: note_move_def Let_def) (simp add: recovery_view_def)

lemma blame_view [simp]: "recovery_view (blame i d) = recovery_view d"
  by (simp add: blame_def recovery_view_def set_last_failed_joint_id_def)

lemma clear_buffers_view: "recovery_view (clear_command_buffers c d) = recovery_view d"
  by (simp add: clear_command_buffers_def recovery_view_def)

lemma still_device: "recovery_view d' = recovery_view (fst s) \<Longrightarrow> still s (d', snd s)"
  by (cases s) (simp add: still_fields)

lemma still_drv: "recovery_view d' = recovery_view (fst s) \<Longrightarrow> still s (d', (snd s)\<lparr>n_drv := w\<rparr>)"
  by (cases s) (simp add: still_fields)

lemma read_still: "eff_read_hardware_values E s = Some (s', rc) \<Longrightarrow> still s s'"
proof -
  assume r: "eff_read_hardware_values E s = Some (s', rc)"
  define t where "t = (is_in_emergency_recovery (fst s) \<or> \<not> is_ready (fst s))"
  consider "s' = s" | e n outs r where "with_joints r s = Some ((e, n), outs)" "s' = (fold (note_read t) outs e, n)"
    using r by (auto simp: eff_read_hardware_values_def Let_def t_def [symmetric] split: if_splits option.splits prod.splits)
  then show ?thesis
  proof cases
    case 2
    have "still s (e, n)" by (rule with_joints_still) (rule 2)
    also have "still (e, n) s'" unfolding 2 by (rule still_fields) (simp_all add: keeps_view note_read_view)
    finally show ?thesis .
  qed simp
qed

lemma write_still: "eff_write_hardware_values E s = Some (s', rc) \<Longrightarrow> still s s'"
  by (auto simp: eff_write_hardware_values_def split: if_splits prod.splits intro: still_drv)

lemma leader_still: "eff_operate_as_leader E s = Some (s', rc) \<Longrightarrow> still s s'"
proof -
  assume r: "eff_operate_as_leader E s = Some (s', rc)"
  consider "s' = s" | f where "each_joint E f s = Some (s', rc)" | js where "s' = ((fst s)\<lparr>joints := js\<rparr>, snd s)"
    | js f where "each_joint E f ((fst s)\<lparr>joints := js\<rparr>, snd s) = Some (s', rc)"
    using r by (auto simp: eff_operate_as_leader_def Let_def split: if_splits prod.splits)
  then show ?thesis
  proof cases
    case 4
    have "still s ((fst s)\<lparr>joints := js\<rparr>, snd s)" by (rule still_device) (simp add: recovery_view_def)
    then show ?thesis using each_joint_still [OF 4] by (rule still_trans)
  qed (auto intro: each_joint_still still_device simp: recovery_view_def)
qed

lemma follower_still: "eff_operate_as_follower E s = Some (s', rc) \<Longrightarrow> still s s'"
  by (auto simp: eff_operate_as_follower_def Let_def recovery_view_def split: if_splits option.splits intro!: still_drv)

lemma mode_call_still: "effector_mode W r i s = Some (s', rc) \<Longrightarrow> still s s'"
proof -
  assume m: "effector_mode W r i s = Some (s', rc)"
  define s1 where "s1 = ((fst s)\<lparr>ready_move_force_position_mode := (i = READY_MOVE_OVERRIDE)\<rparr>, snd s)"
  have s1: "still s s1" unfolding s1_def by (rule still_device) (simp add: recovery_view_def)
  consider "s' = ((fst s)\<lparr>ramped_target_initialized := False\<rparr>, snd s)" | f where "each_joint (ew_env W) f s1 = Some (s', rc)"
    using m by (auto simp: effector_mode_def can_set_control_mode_def eff_set_control_mode_def Let_def s1_def split: if_splits)
  then show ?thesis
    by cases (auto intro!: still_device simp: recovery_view_def intro: still_trans [OF s1 each_joint_still])
qed

lemma force_feedback_still: "set_runtime_force_feedback (effector_mode W) b g s = Some (s', rc) \<Longrightarrow> still s s'"
proof -
  assume f: "set_runtime_force_feedback (effector_mode W) b g s = Some (s', rc)"
  define s1 where "s1 = ((fst s)\<lparr>enabled_force_feedback := b, cla := (cla (fst s))\<lparr>cla_force_feedback := (if b then g else Fin (-1))\<rparr>\<rparr>, snd s)"
  have s1: "still s s1" unfolding s1_def by (rule still_device) (simp add: recovery_view_def)
  consider "s' = s" | "effector_mode W LEADER NORMAL_OPERATION s1 = Some (s', rc)"
    using f by (cases s) (auto simp: set_runtime_force_feedback_def s1_def split: if_splits)
  then show ?thesis by cases (auto intro: still_trans [OF s1 mode_call_still])
qed

lemma observe_still: "get_observation E s = Some (s', js, rc) \<Longrightarrow> still s s'"
  by (auto simp: get_observation_def split: if_splits option.splits dest: with_joints_still)

lemma prepare_view: "ready_prepare c e = Some e' \<Longrightarrow> recovery_view e' = recovery_view e"
  by (auto simp: ready_prepare_def ready_move_budget_init_def Let_def recovery_view_def split: if_splits option.splits)

lemma finish_view: "recovery_view (ready_finish rs d) = recovery_view d"
proof -
  have upd: "recovery_view (d\<lparr>init_count := k\<rparr>) = recovery_view d" "recovery_view (d\<lparr>is_ready := b\<rparr>) = recovery_view d"
    "recovery_view (d\<lparr>reached_cnt := k\<rparr>) = recovery_view d" "recovery_view (fst (ready_move_budget_spend d)) = recovery_view d" for d :: "'a device_scheme" and k b
    by (simp_all add: recovery_view_def ready_move_budget_spend_def)
  show ?thesis by (simp add: ready_finish_def Let_def split_beta upd)
qed

lemma ready_move_cycle:
  assumes "eff_move_to_ready_position E s = Some (s', rc)" "\<not> is_read_only (fst s)"
    and "\<not> (cla_dont_go_to_home_pos (cla (fst s)) \<and> is_startup_ready_phase (fst s))"
  obtains e e' n outs where "ready_prepare (ee_servos E) (fst s) = Some e"
    and "with_joints (scan (\<lambda>_. False) (ready_joint E e (failed_joint_ids e) (effector_ready_step e)) (joints e) (n_drv (snd s)))
           (e, snd s) = Some ((e', n), outs)"
    and "s' = (let rs = List.map_filter (\<lambda>x. x) outs in ready_finish rs (fold note_move rs e'), n)"
proof -
  obtain e where e: "ready_prepare (ee_servos E) (fst s) = Some e"
    using assms by (auto simp: eff_move_to_ready_position_def split: option.splits)
  with assms obtain e' n outs where w: "with_joints (scan (\<lambda>_. False) (ready_joint E e (failed_joint_ids e) (effector_ready_step e))
      (joints e) (n_drv (snd s))) (e, snd s) = Some ((e', n), outs)"
    by (auto simp: eff_move_to_ready_position_def split: option.splits)
  have "s' = (let rs = List.map_filter (\<lambda>x. x) outs in ready_finish rs (fold note_move rs e'), n)"
    using assms e w by (simp add: eff_move_to_ready_position_def Let_def)
  with e w show thesis by (rule that)
qed

lemma ready_move_still: "eff_move_to_ready_position E s = Some (s', rc) \<Longrightarrow> still s s'"
proof -
  assume r: "eff_move_to_ready_position E s = Some (s', rc)"
  show ?thesis
  proof (cases "is_read_only (fst s) \<or> cla_dont_go_to_home_pos (cla (fst s)) \<and> is_startup_ready_phase (fst s)")
    case True
    with r show ?thesis
      by (auto intro!: still_device simp: eff_move_to_ready_position_def clear_command_buffers_def recovery_view_def Let_def split: if_splits)
  next
    case False
    with r obtain e e' n outs r where p: "ready_prepare (ee_servos E) (fst s) = Some e" "with_joints r (e, snd s) = Some ((e', n), outs)"
      "s' = (let rs = List.map_filter (\<lambda>x. x) outs in ready_finish rs (fold note_move rs e'), n)"
      by (auto elim!: ready_move_cycle)
    have "still s (e, snd s)" by (rule still_device) (rule prepare_view [OF p(1)])
    also have "still (e, snd s) (e', n)" by (rule with_joints_still) (rule p(2))
    also have "still (e', n) s'" unfolding p(3) by (rule still_fields) (simp_all add: finish_view keeps_view note_move_view Let_def)
    finally show ?thesis .
  qed
qed

lemma apply_action_still: "eff_apply_action c ms s = Some (s', rc) \<Longrightarrow> still s s'"
  by (auto simp: eff_apply_action_def Let_def recovery_view_def split: if_splits intro!: still_device)

lemma follower_msg_still: "eff_process_follower_msg B E (zmq_publish P) ms s = Some (s', rc) \<Longrightarrow> still s s'"
proof -
  assume f: "eff_process_follower_msg B E (zmq_publish P) ms s = Some (s', rc)"
  let ?work = "enabled_force_feedback (fst s) \<and> \<not> (joints (fst s) = [] \<or> length (force_feedbacks (fst s)) \<noteq> length (joints (fst s))) \<and>
     joint_count_matches (fst s) ms \<and> has_topic (fst s) \<and> \<not> start_index_joint (fst s) < 0"
  show ?thesis
  proof (cases ?work)
    case False
    then have "s' = s" using f by (simp add: eff_process_follower_msg_def Let_def split: if_split_asm)
    then show ?thesis by simp
  next
    case True
    then obtain xs w u where r: "scan (\<lambda>_. False) (follower_joint B E (fst s))
        (zip (joints (fst s)) (zip (force_feedbacks (fst s)) (drop (nat (start_index_joint (fst s))) ms))) (n_drv (snd s)) = Some (xs, w, u)"
      using f by (cases "scan (\<lambda>_. False) (follower_joint B E (fst s))
        (zip (joints (fst s)) (zip (force_feedbacks (fst s)) (drop (nat (start_index_joint (fst s))) ms))) (n_drv (snd s))")
        (auto simp: eff_process_follower_msg_def)
    define e where "e = (fst s)\<lparr>joints := map fst xs, force_feedbacks := map (\<lambda>x. fst (snd x)) xs\<rparr>"
    define ev where "ev = effector_data (hd (map (\<lambda>x. fst (snd x)) xs))"
    obtain n k where p: "zmq_publish P (PubEffector ev) (e, (snd s)\<lparr>n_drv := w\<rparr>) = (n, k)" by fastforce
    have s': "s' = (e, n)"
      using f True p by (simp add: eff_process_follower_msg_def r Let_def e_def [symmetric] ev_def [symmetric] del: zmq_publish.simps)
    from zmq_publish_event [OF p] obtain es where "n_events n = n_events (snd s) @ es" "set es \<subseteq> {PubEffector ev}" by auto
    moreover have "recovery_view e = recovery_view (fst s)" by (simp add: e_def recovery_view_def)
    ultimately have "still (fst s, snd s) (e, n)" by (intro still_quiet_event [where es = es]) auto
    then show ?thesis by (simp add: s')
  qed
qed

lemma gain_view: "recovery_view (fst (set_runtime_force_feedback_gain g d)) = recovery_view d"
  by (simp add: set_runtime_force_feedback_gain_def recovery_view_def)

lemma hold_still: "eff_hold W s = Some (s', rc) \<Longrightarrow> still s s'"
  by (auto simp: eff_hold_def runtime_hold_def clear_buffers_view intro!: still_device split: if_splits)

lemma request_keeps_view:
  "recovery_view (request_move_to_ready_position i d) = recovery_view d" "recovery_view (request_move_to_ready_and_stop i d) = recovery_view d"
  by (simp_all add: request_move_to_ready_position_def request_move_to_ready_and_stop_def recovery_view_def)

lemma setters_still:
  "set_effector_kd c kd s = Some (s', rc) \<Longrightarrow> still s s'"
  "set_effector_min_max_pos c lo hi s = Some (s', rc) \<Longrightarrow> still s s'"
  "set_distance_to_torque k s = Some (s', rc) \<Longrightarrow> still s s'"
  by (auto simp: set_effector_kd_def set_effector_min_max_pos_def set_distance_to_torque_def Let_def recovery_view_def intro!: still_device)

lemma target_still: "message_call_of (effector_target W) f \<Longrightarrow> f s = Some (s', rc) \<Longrightarrow> still s s'"
  by (erule message_call_of.cases)
     (auto simp: effector_target_def Let_def refuse_def split_beta gain_view
        intro: hold_still apply_action_still follower_msg_still force_feedback_still setters_still still_device)

interpretation effector_topic: message_contract "effector_base W" "effector_target W" still for W :: "('s, 'b, 'w) effector_world"
proof unfold_locales
  fix d i and n :: "'w node"
  show "still (d, n) (mt_request_ready (effector_target W) i d, n)" "still (d, n) (mt_request_stop (effector_target W) i d, n)"
    by (simp_all add: effector_target_def Let_def request_keeps_view still_fields)
qed (auto simp: effector_base_def intro: still_trans target_still dest: zmq_publish_event)

lemma class_call_still: "device_call_of (effector_class W) f \<Longrightarrow> f s = Some (s', rc) \<Longrightarrow> still s s'"
  by (erule device_call_of.cases)
     (auto simp: effector_class_def effector_base_def observe_def as_call_def effector_topic_step_def split: option.splits
        intro: read_still write_still leader_still follower_still mode_call_still force_feedback_still observe_still hold_still
        dest: effector_topic.zmq_step_related [unfolded effector_base_def])

interpretation effector: device_contract "effector_class W" for W :: "('s, 'b, 'w) effector_world"
proof unfold_locales
  fix e s n' rc
  show "vd_publish (effector_class W) e s = (n', rc) \<Longrightarrow> n_events n' = n_events (snd s) \<or> n_events n' = n_events (snd s) @ [e]"
    by (auto simp: effector_class_def effector_base_def dest: zmq_publish_event)
next
  fix f s s' rc
  show "device_call_of (effector_class W) f \<Longrightarrow> f s = Some (s', rc) \<Longrightarrow> still s s'" by (rule class_call_still)
next
  fix s s' rc
  show "vd_move_to_ready (effector_class W) s = Some (s', rc) \<Longrightarrow> calm (effector_class W) s s'"
    by (auto simp: effector_class_def effector_base_def intro!: calm_still ready_move_still)
qed (simp_all add: effector_class_def effector_base_def clear_buffers_view, simp add: base_reset_ready_def recovery_view_def)

interpretation effector_patient: patient_device "effector_class W" for W :: "('s, 'b, 'w) effector_world"
  by unfold_locales (auto simp: effector_class_def effector_base_def intro: ready_move_still)

section \<open>Recovery of an effector\<close>

text \<open>
  Emergency recovery of an effector is one-way. In any run, whatever the hardware, the topic and the clients do, the recovery
  state never falls back, the first cause and the first failed joint stay recorded, the shutdown notice goes out at most once and
  with that cause, and the recovery counts as announced exactly when it is completed.
\<close>

theorem effector_recovery_one_way:
  assumes "device_run (effector_class W) s s'" "recovery_ok s"
  shows "recovery_rank (emergency_state (fst s)) \<le> recovery_rank (emergency_state (fst s')) \<and> recovery_ok s' \<and>
    length (shutdown_notices (snd s')) \<le> 1 \<and>
    (emergency_state (fst s) \<noteq> EM_NONE \<longrightarrow>
       emergency_cause (fst s') = emergency_cause (fst s) \<and> emergency_failed_joint_id (fst s') = emergency_failed_joint_id (fst s))"
  using effector.run_advances [OF assms(1)] assms(2) by (auto simp: advances_def recovery_ok_def)

text \<open>
  A leader effector in emergency recovery publishes no observation, so that a follower does not copy the movements of its
  slow ready move: in any run that starts in recovery the published observations stay the same.
\<close>

theorem recovering_leader_is_silent:
  assumes "device_run (effector_class W) s s'" "emergency_state (fst s) \<noteq> EM_NONE" "d_role (fst s) = LEADER"
  shows "observations (snd s') = observations (snd s)"
  using effector.run_advances [OF assms(1)] assms(2,3) by (simp add: advances_def)

text \<open>
  The recovery of an effector on its own does not complete. A cycle of the slow ready move, also one that reports the effector ready, leaves the recovery state
  as it is and announces no shutdown, as long as the watchdog on the control loop does not trip: nothing but a hung control loop ends it.
\<close>

theorem effector_recovery_does_not_complete:
  assumes "eff_read_hardware_values (ew_env W) s = Some ((d, n), rc)" "emergency_state d = EM_MOVING_SLOW" "move_to_ready_cmd_state d \<noteq> CMD_REQUESTED"
    and "cla_emergency_shutdown_timeout_ms (cla d) \<le> 0 \<or>
         elapsed_ms (last_step_heartbeat d) (ee_now (ew_env W) (n_drv n)) < cla_emergency_shutdown_timeout_ms (cla d)"
    and "device_step (effector_class W) s = Some (s', rc')"
  shows "emergency_state (fst s') = EM_MOVING_SLOW \<and> shutdown_notices (snd s') = shutdown_notices n"
proof -
  have "recovery_kept (d, n) s'" using assms by (intro effector_patient.slow_move_goes_on) (simp_all add: effector_class_fields)
  with assms(2) show ?thesis by (simp add: recovery_kept_def recovery_viewD)
qed

section \<open>Witnesses\<close>

text \<open>A gripper with one idle servo, on a topic whose sockets are bound and whose inbox is empty; the driver has no state, and the clock stands.\<close>

definition idle_env :: "(servo, unit) effector_env" where
  "idle_env =
     \<lparr>ee_servos = idle_servos, ee_group_read = (\<lambda>w. (w, SUCCESS)), ee_group_write = (\<lambda>w. (w, SUCCESS)), ee_settle = (\<lambda>w. w),
      ee_frame_age = (\<lambda>_ _. 0), ee_now = (\<lambda>_. 0), ee_position_first = True\<rparr>"

definition idle_world :: "(servo, lbuf, unit) effector_world" where
  "idle_world =
     \<lparr>ew_env = idle_env, ew_bufs = list_cbuf, ew_class = DeviceEffectorCan_class, ew_open = (\<lambda>w. (w, SUCCESS)), ew_close = (\<lambda>w. (w, SUCCESS)),
      ew_arm = (\<lambda>w. (w, SUCCESS)), ew_ports = \<lparr>pub_joint = True, pub_follower_joint = True, pub_device_info = True, pub_effector_info = True\<rparr>,
      ew_layout = \<lparr>as_joint_info = undefined, as_command = undefined, as_joystick = undefined\<rparr>,
      ew_names = \<lparr>topic_joint = ''j'', topic_state = ''s'', topic_follower_joint = ''f'', topic_direct_command = ''d'', topic_lifecycle = ''l'', topic_status = ''t''\<rparr>,
      ew_inbox = (\<lambda>_. \<lparr>sub_command = None, sub_joint = None, sub_direct_joint = None, sub_follower_joint = None, sub_joystick_left = None, sub_joystick_right = None\<rparr>)\<rparr>"

definition sample_gripper :: "(servo, lbuf) effector" where
  "sample_gripper = (new_effector_object sample_args)\<lparr>has_topic := True, has_driver := True, has_algo := True, d_role := LEADER,
     joints := [sample_joint (Fin 30)], e_tele_pos := [Fin 0], e_tele_vel := [Fin 0], e_tele_tor := [Fin 0], control_mode := EFF_POSITION\<rparr>"

definition sample_node :: "unit node" where
  "sample_node = \<lparr>n_drv = (), n_events = [], n_running = True, n_paused = False, n_msg_id = 0\<rparr>"

lemmas sample_gripper_simps = sample_gripper_def new_effector_object_def device.defs new_device_object_def sample_args_def

definition gripper_in_recovery :: "(servo, lbuf) effector \<times> unit node" where
  "gripper_in_recovery = enter_emergency_recovery (effector_class idle_world) SAFE_MODE_SIG 3 (sample_gripper, sample_node)"

lemma gripper_in_recovery_facts:
  "recovery_ok gripper_in_recovery" "emergency_state (fst gripper_in_recovery) = EM_REQUESTED"
  "emergency_cause (fst gripper_in_recovery) = code_of SAFE_MODE_SIG" "d_role (fst gripper_in_recovery) = LEADER"
  "observations (snd gripper_in_recovery) = []"
  by (simp_all add: gripper_in_recovery_def enter_emergency_recovery_def sample_gripper_simps sample_node_def set_pause_leader_command_listening_def
      publish_device_info_def effector_class_fields idle_world_def recovery_ok_def shutdown_notices_def observations_def sent_event_def
      DEVICE_INFO_ERROR_DETECTED_def DEVICE_INFO_SHUTDOWN_AFTER_ERROR_def)

theorem effector_recovery_one_way_witness:
  "emergency_cause (fst (enter_emergency_recovery (effector_class idle_world) HARDWARE_FAULT 5 gripper_in_recovery)) = code_of SAFE_MODE_SIG"
  using effector_recovery_one_way [OF run_enter [OF run_start] gripper_in_recovery_facts(1), of idle_world HARDWARE_FAULT 5]
  by (simp add: gripper_in_recovery_facts)

theorem recovering_leader_is_silent_witness:
  "observations (snd (enter_emergency_recovery (effector_class idle_world) HARDWARE_FAULT 5 gripper_in_recovery)) = []"
  using recovering_leader_is_silent [OF run_enter [OF run_start], of gripper_in_recovery idle_world HARDWARE_FAULT 5]
  by (simp add: gripper_in_recovery_facts)

definition arrived_gripper :: "(servo, lbuf) effector" where
  "arrived_gripper = sample_gripper\<lparr>is_ready := True, emergency_state := EM_MOVING_SLOW, d_mode := MODE_PASSIVE, joints := []\<rparr>"

theorem effector_recovery_does_not_complete_witness:
  "\<exists>s' rc. device_step (effector_class idle_world) (arrived_gripper, sample_node) = Some (s', rc) \<and>
     emergency_state (fst s') = EM_MOVING_SLOW \<and> shutdown_notices (snd s') = []"
proof -
  have facts: "emergency_state arrived_gripper = EM_MOVING_SLOW" "move_to_ready_cmd_state arrived_gripper = CMD_IDLE"
    "cla_emergency_shutdown_timeout_ms (cla arrived_gripper) = 2000" "last_step_heartbeat arrived_gripper = 0" "is_ready arrived_gripper"
    "d_role arrived_gripper = LEADER" "last_recovery_progress_publish arrived_gripper = 0" "last_ready_move_progress_publish arrived_gripper = 0"
    "d_mode arrived_gripper = MODE_PASSIVE" "\<not> is_driver_created_by_this arrived_gripper" "\<not> is_topic_created_by_this arrived_gripper"
    "joints arrived_gripper = []"
    by (simp_all add: arrived_gripper_def sample_gripper_simps)
  have same: "arrived_gripper\<lparr>joints := []\<rparr> = arrived_gripper" "sample_node\<lparr>n_drv := ()\<rparr> = sample_node"
    "arrived_gripper\<lparr>last_step_heartbeat := 0\<rparr> = arrived_gripper"
    by (simp_all add: arrived_gripper_def sample_gripper_simps sample_node_def)
  have read: "eff_read_hardware_values (ew_env idle_world) (arrived_gripper, sample_node) = Some ((arrived_gripper, sample_node), SUCCESS)"
    by (simp add: eff_read_hardware_values_def facts same with_joints_def read_result_def map_filter_simps is_in_emergency_recovery_def)
  have now: "ee_now (ew_env idle_world) w = 0" for w by (simp add: idle_world_def idle_env_def)
  have "device_step (effector_class idle_world) (arrived_gripper, sample_node) = Some ((arrived_gripper, sample_node), SUCCESS)"
    by (simp add: device_step_def andthen_def read_phase_def effector_class_fields read facts is_in_emergency_recovery_def after_read_def
        handle_command_request_def handle_recovery_request_def check_emergency_timeout_locked_def now elapsed_ms_def publish_progress_def recovery_progress_def
        publish_recovery_phase_def publish_ready_phase_def clamp01_def
        EMERGENCY_PROGRESS_PUBLISH_INTERVAL_MS_def work_phase_def operate_cycle_def restore_after_command_def eff_operate_as_leader_def
        eff_write_hardware_values_def topic_phase_def refresh_heartbeat_def same)
  from effector_recovery_does_not_complete [OF read facts(1) _ _ this] this show ?thesis
    by (simp add: facts now elapsed_ms_def sample_node_def shutdown_notices_def)
qed

end
