(* ===== verification/Effector_Motion.thy ===== *)
theory Effector_Motion
  imports Effector_Class
begin

text \<open>
  What an effector promises about motion (\<^verbatim>\<open>native/pi_control/src/pi_device_effector.cpp\<close>): targets stay in the calibrated range whatever
  a client sends, the ready move steps monotonically and ends whatever the hardware does, the gripping torque is bounded, and a
  joint that was marked as failed is left alone.
\<close>

section \<open>Targets from normalised positions\<close>

lemma is_flt_one [simp]: "is_flt binary32 (Fin 1)"
  by (simp add: flt_eval)

lemma unit_flip:
  assumes "0 \<le> x" "x \<le> 1"
  shows "\<exists>y. fsub binary32 (Fin 1) (Fin x) = Fin y \<and> 0 \<le> y \<and> y \<le> 1"
  using fround_between [of 0 "1 - x" 1 binary32] assms by (auto simp: fsub_def simp del: is_flt.simps)

text \<open>Scaling a factor from zero to one into a range, in floating-point arithmetic.\<close>

lemma scale_into_range:
  assumes "0 \<le> x" "x \<le> 1" "0 \<le> r" "is_flt binary32 (Fin r)" "is_flt binary32 (Fin lo)"
  defines "y \<equiv> fadd binary32 (fmul binary32 (Fin x) (Fin r)) (Fin lo)"
  shows "flt_le (Fin lo) y \<and> flt_le y (fadd binary32 (Fin r) (Fin lo)) \<and> (x = 0 \<longrightarrow> y = Fin lo) \<and>
    (x = 1 \<longrightarrow> y = fadd binary32 (Fin r) (Fin lo))"
proof -
  have "x * r \<le> r" using assms by (simp add: mult_left_le_one_le)
  then obtain m where m: "fround binary32 (x * r) = Fin m" "0 \<le> m" "m \<le> r"
    using fround_between [of 0 "x * r" r binary32] assms by (auto simp del: is_flt.simps)
  have y: "y = fround binary32 (m + lo)" by (simp add: y_def m)
  have "flt_le (Fin lo) y" using fround_mono [of lo "m + lo" binary32] m fround_exact [OF assms(5)] by (simp add: y)
  moreover have "flt_le y (fadd binary32 (Fin r) (Fin lo))" using fround_mono [of "m + lo" "r + lo" binary32] m by (simp add: y)
  moreover have "m = 0" if "x = 0" using that m by simp
  moreover have "m = r" if "x = 1" using that m fround_exact [OF assms(4)] by simp
  ultimately show ?thesis using fround_exact [OF assms(5)] by (auto simp: y)
qed

definition gripper_range :: "('s, 'w) servo_class \<Rightarrow> 's joint \<Rightarrow> real \<Rightarrow> real \<Rightarrow> real \<Rightarrow> bool" where
  "gripper_range c j lo hi r \<longleftrightarrow>
     has_reference j \<and> get_normalized_pos_min_relative c j = Fin lo \<and> effective_pos_max c j = Fin hi \<and> lo < hi \<and>
     is_flt binary32 (Fin lo) \<and> is_flt binary32 (Fin hi) \<and> fsub binary32 (Fin hi) (Fin lo) = Fin r"

lemma gripper_range_width:
  assumes "gripper_range c j lo hi r"
  shows "0 < r" "is_flt binary32 (Fin r)"
proof -
  have r: "fround binary32 (hi - lo) = Fin r" using assms by (simp add: gripper_range_def fsub_def)
  have "rnd binary32 lo = lo" "rnd binary32 hi = hi" "lo < hi" using assms by (simp_all add: gripper_range_def)
  then have "2 powi (-149) \<le> rnd binary32 (hi - lo)" by (intro r32.rd_diff_pos)
  moreover have "r = rnd binary32 (hi - lo)" using r by (auto simp: fround_def Let_def split: if_splits)
  ultimately show "0 < r" using powi_two_pos [of "-149"] by linarith
  show "is_flt binary32 (Fin r)" using is_flt_fround [of binary32 "hi - lo"] r by simp
qed

lemma normalized_target:
  fixes x :: flt
  assumes "joints e = j # js" "gripper_range c j lo hi r"
  defines "y \<equiv> get_gripper_pos_rad_relative_from_normalized c e x" and "upper \<equiv> fadd binary32 (Fin r) (Fin lo)"
  shows "(\<not> is_finite x \<longrightarrow> y = joint_pos_relative c j) \<and>
    (is_finite x \<longrightarrow> flt_le (Fin lo) y \<and> flt_le y upper) \<and>
    (x = Fin 0 \<longrightarrow> y = (if open_at_min e then upper else Fin lo)) \<and> (x = Fin 1 \<longrightarrow> y = (if open_at_min e then Fin lo else upper))"
proof (cases x)
  case (Fin a)
  note r = gripper_range_width [OF assms(2)]
  define u where "u = (if a < 0 then 0 else if 1 < a then 1 else a)"
  have u: "0 \<le> u" "u \<le> 1" by (auto simp: u_def)
  have finite: "is_finite x" by (simp add: Fin)
  have clip: "(if flt_lt x (Fin 0) \<or> flt_lt (Fin 1) x then clipping x (Fin 0) (Fin 1) else x) = Fin u"
    by (auto simp: Fin u_def clipping_def)
  obtain v where v: "(if open_at_min e then fsub binary32 (Fin 1) (Fin u) else Fin u) = Fin v" "0 \<le> v" "v \<le> 1"
    using unit_flip [OF u] u by (cases "open_at_min e") auto
  have y: "y = fadd binary32 (fmul binary32 (Fin v) (Fin r)) (Fin lo)"
    using assms(1,2) r v(1) finite
    by (simp add: y_def get_gripper_pos_rad_relative_from_normalized_def gripper_range_def clip Let_def
        del: fmul.simps fadd.simps split del: if_split)
  have lo: "is_flt binary32 (Fin lo)" using assms(2) by (simp add: gripper_range_def del: is_flt.simps)
  note range = scale_into_range [OF v(2,3) less_imp_le [OF r(1)] r(2) lo, folded y upper_def]
  have "v = (if open_at_min e then 1 - a else a)" if "a = 0 \<or> a = 1"
    using v(1) that fround_exact [OF is_flt_one] by (auto simp: u_def fsub_def split: if_splits)
  with range show ?thesis by (auto simp: Fin)
qed (use assms in \<open>simp_all add: y_def get_gripper_pos_rad_relative_from_normalized_def gripper_range_def\<close>)

section \<open>The command of a ready move\<close>

lemma step_toward:
  assumes "is_flt binary32 (Fin b)" "is_flt binary32 (Fin t)" "is_flt binary32 (Fin h)" "0 \<le> h"
  shows "flt_lt (Fin h) (fround binary32 (t - b)) \<Longrightarrow> \<exists>v. fround binary32 (b + h) = Fin v \<and> b \<le> v \<and> v \<le> t"
    and "flt_lt (fround binary32 (t - b)) (Fin (- h)) \<Longrightarrow> \<exists>v. fround binary32 (b - h) = Fin v \<and> t \<le> v \<and> v \<le> b"
proof -
  have neg: "fround binary32 (- h) = Fin (- h)" using assms(3) rnd_minus [of binary32 h] by (intro fround_exact) simp
  have "b + h \<le> t" if "flt_lt (Fin h) (fround binary32 (t - b))"
  proof (rule ccontr)
    assume "\<not> b + h \<le> t"
    then have "flt_le (fround binary32 (t - b)) (Fin h)"
      using fround_mono [of "t - b" h binary32] fround_exact [OF assms(3)] by simp
    with that show False by (simp add: flt_le_not_lt)
  qed
  then show "flt_lt (Fin h) (fround binary32 (t - b)) \<Longrightarrow> \<exists>v. fround binary32 (b + h) = Fin v \<and> b \<le> v \<and> v \<le> t"
    using fround_between [of b "b + h" t binary32] assms by (auto simp del: is_flt.simps)
  have "t \<le> b - h" if "flt_lt (fround binary32 (t - b)) (Fin (- h))"
  proof (rule ccontr)
    assume "\<not> t \<le> b - h"
    then have "flt_le (Fin (- h)) (fround binary32 (t - b))" using fround_mono [of "- h" "t - b" binary32] neg by simp
    with that show False by (simp add: flt_le_not_lt)
  qed
  then show "flt_lt (fround binary32 (t - b)) (Fin (- h)) \<Longrightarrow> \<exists>v. fround binary32 (b - h) = Fin v \<and> t \<le> v \<and> v \<le> b"
    using fround_between [of t "b - h" b binary32] assms by (auto simp del: is_flt.simps)
qed

text \<open>
  A command of the ready move lies between the base it starts from and the target, where the base is the previous command, or
  after an overshoot the measured position, and it is the target itself or one step away from the base. The
  measured position becomes the base only when previous command and measured position lie on different sides of the target.
\<close>

theorem ready_command_between:
  assumes "is_flt binary32 (Fin t)" "is_flt binary32 (Fin p)" "is_flt binary32 (Fin q)" "is_flt binary32 (Fin h)" "0 \<le> h"
  shows "\<exists>v b. next_ready_command (Fin h) margin (Fin t) (Fin p) (Fin q) = Fin v \<and> (b = q \<or> b = p \<and> (p < t \<and> t < q \<or> q < t \<and> t < p)) \<and>
    (b \<le> v \<and> v \<le> t \<or> t \<le> v \<and> v \<le> b) \<and> (v = t \<or> fround binary32 (b + h) = Fin v \<or> fround binary32 (b - h) = Fin v)"
proof -
  have pos: "0 < x" if "flt_lt (Fin 0) (fround binary32 x)" for x
    using fround_mono [of x 0 binary32] flt_le_not_lt [of "fround binary32 x" "Fin 0"] that by (cases "0 < x") auto
  have neg: "x < 0" if "flt_lt (fround binary32 x) (Fin 0)" for x
    using fround_mono [of 0 x binary32] flt_le_not_lt [of "Fin 0" "fround binary32 x"] that by (cases "x < 0") auto
  define over where "over \<longleftrightarrow> flt_lt margin (fabs (fsub binary32 (Fin t) (Fin p))) \<and>
     (flt_lt (Fin 0) (fsub binary32 (Fin t) (Fin p)) \<and> flt_lt (fsub binary32 (Fin t) (Fin q)) (Fin 0) \<or>
      flt_lt (fsub binary32 (Fin t) (Fin p)) (Fin 0) \<and> flt_lt (Fin 0) (fsub binary32 (Fin t) (Fin q)))"
  define b where "b = (if over then p else q)"
  have base: "b = q \<or> b = p \<and> (p < t \<and> t < q \<or> q < t \<and> t < p)"
    using pos [of "t - p"] neg [of "t - p"] pos [of "t - q"] neg [of "t - q"] by (auto simp: b_def over_def fsub_def)
  have b: "is_flt binary32 (Fin b)" using assms(2,3) by (simp add: b_def del: is_flt.simps)
  have cmd: "next_ready_command (Fin h) margin (Fin t) (Fin p) (Fin q) =
      (if flt_lt (Fin h) (fround binary32 (t - b)) then fround binary32 (b + h)
       else if flt_lt (fround binary32 (t - b)) (Fin (- h)) then fround binary32 (b - h) else Fin t)"
    unfolding next_ready_command_def Let_def over_def [symmetric] by (simp add: b_def fsub_def)
  consider "flt_lt (Fin h) (fround binary32 (t - b))" | "flt_lt (fround binary32 (t - b)) (Fin (- h))"
    | "\<not> flt_lt (Fin h) (fround binary32 (t - b))" "\<not> flt_lt (fround binary32 (t - b)) (Fin (- h))" by blast
  then show ?thesis
  proof cases
    case 1
    then show ?thesis using step_toward(1) [OF b assms(1,4,5) 1] base cmd by auto
  next
    case 2
    then have "\<not> flt_lt (Fin h) (fround binary32 (t - b))"
      using assms(5) by (cases "fround binary32 (t - b)") auto
    then show ?thesis using step_toward(2) [OF b assms(1,4,5) 2] base cmd 2 by auto
  next
    case 3
    then show ?thesis using base cmd by (metis linear)
  qed
qed

section \<open>The torque of a gripper\<close>

text \<open>The torque a CAN gripper asks of its joint is within the grip limit, or within the torque limit where no grip limit is configured;
  \<open>Can_Gripper\<close> follows it to the frames.\<close>

lemma grip_torque_le:
  assumes "grip_bound j = Fin b" "0 \<le> b" "is_flt binary32 (Fin b)" "get_dir_invert c j \<in> {1, -1}"
  shows "grip_torque c e goal j = NaN \<or> (\<exists>v. grip_torque c e goal j = Fin v \<and> \<bar>v\<bar> \<le> b)"
proof -
  define x where "x = fmul binary32 (distance_to_torque e)
    (fsub binary32 (fsub binary32 goal (joint_pos_relative c j)) (grip_spring_offset e))"
  define y where "y = clipping x (Fin (- b)) (Fin b)"
  have g: "grip_torque c e goal j = fmul binary32 y (of_int_f binary32 (get_dir_invert c j))"
    by (simp add: grip_torque_def assms(1) x_def y_def)
  have y: "y = NaN \<or> (\<exists>v. y = Fin v \<and> - b \<le> v \<and> v \<le> b)" using assms(2) by (cases x) (auto simp: y_def clipping_def)
  have neg: "is_flt binary32 (Fin (- b))" using assms(3) rnd_minus [of binary32 b] by simp
  have "\<exists>v. fround binary32 u = Fin v \<and> \<bar>v\<bar> \<le> b" if "- b \<le> u" "u \<le> b" for u
    using fround_between [OF that neg assms(3)] by (auto simp: abs_le_iff simp del: is_flt.simps)
  moreover have "of_int_f binary32 (get_dir_invert c j) \<in> {Fin 1, Fin (-1)}" using assms(4) of_int_dir by auto
  ultimately show ?thesis using y by (auto simp: g)
qed

section \<open>The ready move ends\<close>

text \<open>What the ready move counts from one cycle to the next.\<close>

definition ready_counters :: "'a device_scheme \<Rightarrow> int \<times> int \<times> int \<times> int" where
  "ready_counters d = (init_count d, reached_cnt d, ready_move_budget_total d, ready_move_budget_used d)"

lemma ready_counters_eq:
  "ready_counters d' = ready_counters d \<longleftrightarrow>
     init_count d' = init_count d \<and> reached_cnt d' = reached_cnt d \<and>
     ready_move_budget_total d' = ready_move_budget_total d \<and> ready_move_budget_used d' = ready_move_budget_used d"
  by (simp add: ready_counters_def)

lemma fail_joint_counters [simp]: "ready_counters (fail_joint i d) = ready_counters d"
  by (simp add: fail_joint_def ready_counters_def set_last_failed_joint_id_def mark_joint_failed_during_recovery_def)

lemma blame_counters [simp]: "ready_counters (blame i d) = ready_counters d" "is_ready (blame i d) = is_ready d"
  by (simp_all add: blame_def ready_counters_def set_last_failed_joint_id_def)

lemma note_move_counters:
  "ready_counters (note_move r d) = ready_counters (if unsettled r then d\<lparr>reached_cnt := 0\<rparr> else d)"
  by (simp add: note_move_def)

lemma notes_counters:
  "ready_counters (fold note_move rs d) = ready_counters (if list_ex unsettled rs then d\<lparr>reached_cnt := 0\<rparr> else d)"
proof (induction rs arbitrary: d)
  case (Cons r rs)
  have "ready_counters (if list_ex unsettled rs then (note_move r d)\<lparr>reached_cnt := 0\<rparr> else note_move r d) =
      ready_counters (if list_ex unsettled (r # rs) then d\<lparr>reached_cnt := 0\<rparr> else d)"
    using note_move_counters [of r d] by (auto simp: ready_counters_def split: if_splits)
  with Cons show ?case by simp
qed simp

lemma finish_counters:
  assumes "d' = ready_finish rs d" "\<not> is_ready d'"
  shows "init_count d' = init_count d + 1" "ready_move_budget_used d' = ready_move_budget_used d + 1"
    "ready_move_budget_total d' = ready_move_budget_total d" "rs \<noteq> []"
    "if list_ex unsettled rs then reached_cnt d' = reached_cnt d \<and> \<not> (0 < ready_move_budget_total d \<and> ready_move_budget_total d < ready_move_budget_used d + 1)
     else reached_cnt d' = reached_cnt d + 1 \<and> reached_cnt d' \<le> DEVICE_ARRIVED_CONFIRM_CNT"
  using assms by (auto simp: ready_finish_def ready_move_budget_spend_def Let_def blame_def set_last_failed_joint_id_def split: if_splits)

lemma with_joints_device: "with_joints r (e, n) = Some ((e', n'), x) \<Longrightarrow> \<exists>js. e' = e\<lparr>joints := js\<rparr>"
  by (auto simp: with_joints_def split: option.splits)

text \<open>One cycle of the ready move that does not end it: the budget is spent, and once it is used up the arrival counter rises.\<close>

lemma ready_call_counters:
  assumes "eff_move_to_ready_position E s = Some (s', rc)" "\<not> is_ready (fst s')"
  obtains e where "ready_prepare (ee_servos E) (fst s) = Some e"
    and "init_count (fst s') = init_count e + 1" "ready_move_budget_total (fst s') = ready_move_budget_total e"
    and "ready_move_budget_used (fst s') = ready_move_budget_used e + 1"
    and "reached_cnt (fst s') = 0 \<and> \<not> (0 < ready_move_budget_total e \<and> ready_move_budget_total e < ready_move_budget_used e + 1) \<or>
         reached_cnt (fst s') = reached_cnt e + 1 \<and> reached_cnt (fst s') \<le> DEVICE_ARRIVED_CONFIRM_CNT"
proof -
  have "\<not> is_read_only (fst s)" "\<not> (cla_dont_go_to_home_pos (cla (fst s)) \<and> is_startup_ready_phase (fst s))"
    using assms by (auto simp: eff_move_to_ready_position_def Let_def split: if_splits)
  with assms(1) obtain e e' n outs where p: "ready_prepare (ee_servos E) (fst s) = Some e"
    and w: "with_joints (scan (\<lambda>_. False) (ready_joint E e (failed_joint_ids e) (effector_ready_step e)) (joints e) (n_drv (snd s)))
           (e, snd s) = Some ((e', n), outs)"
    and s': "s' = (let rs = List.map_filter (\<lambda>x. x) outs in ready_finish rs (fold note_move rs e'), n)"
    by (rule ready_move_cycle)
  define rs where "rs = List.map_filter (\<lambda>x. x) outs"
  define d where "d = fold note_move rs e'"
  obtain js where e': "e' = e\<lparr>joints := js\<rparr>" using with_joints_device [OF w] by blast
  have d: "ready_counters d = ready_counters (if list_ex unsettled rs then e\<lparr>reached_cnt := 0\<rparr> else e)"
    using notes_counters [of rs e'] by (simp add: d_def e' ready_counters_def)
  have f: "fst s' = ready_finish rs d" by (simp add: s' rs_def d_def Let_def)
  note fin = finish_counters [OF f assms(2)]
  show thesis
    by (rule that [OF p]) (use fin d in \<open>auto simp: ready_counters_def split: if_splits\<close>)
qed

lemma prepare_counters:
  assumes "ready_prepare c e = Some e'"
  shows "1 \<le> init_count e \<Longrightarrow> e' = e"
    and "init_count e = 0 \<Longrightarrow> init_count e' = 0 \<and> reached_cnt e' = 0 \<and> ready_move_budget_used e' = 0 \<and> READY_MOVE_BUDGET_MIN_ITERS \<le> ready_move_budget_total e'"
  using assms by (auto simp: ready_prepare_def ready_move_budget_init_def Let_def split: if_splits option.splits)

text \<open>
  A move whose every call spends the budget, where a call beyond the budget counts as an arrival: one of the calls within the budget and the
  31 confirming ones ends it.
\<close>

lemma budget_ends:
  fixes I T U C :: "nat \<Rightarrow> int"
  assumes first: "\<not> over 0 \<Longrightarrow> 1 \<le> I 0 \<and> 0 < T 0 \<and> U 0 = 1 \<and> 0 \<le> C 0 \<and> C 0 \<le> 1"
    and later: "\<And>k. \<not> over k \<Longrightarrow> \<not> over (Suc k) \<Longrightarrow> 1 \<le> I k \<Longrightarrow>
      I (Suc k) = I k + 1 \<and> T (Suc k) = T k \<and> U (Suc k) = U k + 1 \<and>
      (C (Suc k) = 0 \<and> \<not> (0 < T k \<and> T k < U k + 1) \<or> C (Suc k) = C k + 1 \<and> C (Suc k) \<le> DEVICE_ARRIVED_CONFIRM_CNT)"
  shows "\<exists>k. (k = 0 \<or> int k \<le> T 0 + 30) \<and> over k"
proof (rule ccontr)
  assume "\<nexists>k. (k = 0 \<or> int k \<le> T 0 + 30) \<and> over k"
  then have never: "k = 0 \<or> int k \<le> T 0 + 30 \<Longrightarrow> \<not> over k" for k by blast
  have inv: "k = 0 \<or> int k \<le> T 0 + 30 \<Longrightarrow> 1 \<le> I k \<and> T k = T 0 \<and> 0 < T 0 \<and> U k = int k + 1 \<and> 0 \<le> C k \<and> C k \<le> 30 \<and>
      (T 0 \<le> int k \<longrightarrow> int k - T 0 + 1 \<le> C k)" for k
  proof (induction k)
    case 0
    with first never [of 0] show ?case by auto
  next
    case (Suc k)
    then have ih: "1 \<le> I k" "T k = T 0" "0 < T 0" "U k = int k + 1" "0 \<le> C k" "C k \<le> 30" "T 0 \<le> int k \<longrightarrow> int k - T 0 + 1 \<le> C k" by auto
    from later [OF never never ih(1)] Suc.prems ih show ?case by (auto simp: DEVICE_ARRIVED_CONFIRM_CNT_def)
  qed
  have "0 < T 0" using inv [of 0] by simp
  then show False using inv [of "nat (T 0) + 30"] by auto
qed

text \<open>C23: The ready move of an effector ends. However the hardware behaves between and during the cycles, as long as nothing restarts the
  move, some call within the budget of the first call and the 31 confirming cycles that follow it reports the effector ready: joints that
  oscillate, stall, fail or never move only change what is reported.
\<close>

theorem ready_move_ends:
  assumes "init_count (fst (s 0)) = 0"
    and "\<And>k. eff_move_to_ready_position E (s k) = Some (u k, rc k)"
    and "\<And>k. ready_counters (fst (s (Suc k))) = ready_counters (fst (u k))"
  shows "\<exists>k. (k = 0 \<or> int k \<le> ready_move_budget_total (fst (u 0)) + 30) \<and> is_ready (fst (u k))"
proof (rule budget_ends [of _ "\<lambda>k. init_count (fst (u k))" "\<lambda>k. ready_move_budget_total (fst (u k))" "\<lambda>k. ready_move_budget_used (fst (u k))"
      "\<lambda>k. reached_cnt (fst (u k))"])
  assume nr: "\<not> is_ready (fst (u 0))"
  obtain e where e: "ready_prepare (ee_servos E) (fst (s 0)) = Some e"
    and c: "init_count (fst (u 0)) = init_count e + 1" "ready_move_budget_total (fst (u 0)) = ready_move_budget_total e"
      "ready_move_budget_used (fst (u 0)) = ready_move_budget_used e + 1"
      "reached_cnt (fst (u 0)) = 0 \<or> reached_cnt (fst (u 0)) = reached_cnt e + 1"
    by (rule ready_call_counters [OF assms(2) nr]) auto
  from prepare_counters(2) [OF e assms(1)] c
  show "1 \<le> init_count (fst (u 0)) \<and> 0 < ready_move_budget_total (fst (u 0)) \<and> ready_move_budget_used (fst (u 0)) = 1 \<and>
      0 \<le> reached_cnt (fst (u 0)) \<and> reached_cnt (fst (u 0)) \<le> 1"
    by (auto simp: READY_MOVE_BUDGET_MIN_ITERS_def)
next
  fix k
  assume nr: "\<not> is_ready (fst (u (Suc k)))" and i: "1 \<le> init_count (fst (u k))"
  obtain e where e: "ready_prepare (ee_servos E) (fst (s (Suc k))) = Some e"
    and c: "init_count (fst (u (Suc k))) = init_count e + 1" "ready_move_budget_total (fst (u (Suc k))) = ready_move_budget_total e"
      "ready_move_budget_used (fst (u (Suc k))) = ready_move_budget_used e + 1"
      "reached_cnt (fst (u (Suc k))) = 0 \<and> \<not> (0 < ready_move_budget_total e \<and> ready_move_budget_total e < ready_move_budget_used e + 1) \<or>
       reached_cnt (fst (u (Suc k))) = reached_cnt e + 1 \<and> reached_cnt (fst (u (Suc k))) \<le> DEVICE_ARRIVED_CONFIRM_CNT"
    by (rule ready_call_counters [OF assms(2) nr]) auto
  have "e = fst (s (Suc k))" by (rule prepare_counters(1) [OF e]) (use i assms(3) [of k] in \<open>simp add: ready_counters_eq\<close>)
  with c assms(3) [of k]
  show "init_count (fst (u (Suc k))) = init_count (fst (u k)) + 1 \<and>
      ready_move_budget_total (fst (u (Suc k))) = ready_move_budget_total (fst (u k)) \<and>
      ready_move_budget_used (fst (u (Suc k))) = ready_move_budget_used (fst (u k)) + 1 \<and>
      (reached_cnt (fst (u (Suc k))) = 0 \<and> \<not> (0 < ready_move_budget_total (fst (u k)) \<and> ready_move_budget_total (fst (u k)) < ready_move_budget_used (fst (u k)) + 1) \<or>
       reached_cnt (fst (u (Suc k))) = reached_cnt (fst (u k)) + 1 \<and> reached_cnt (fst (u (Suc k))) \<le> DEVICE_ARRIVED_CONFIRM_CNT)"
    by (auto simp: ready_counters_eq)
qed

section \<open>Joints that were marked as failed\<close>

lemma scan_length: "scan stop f xs w = Some (ys, w', outs) \<Longrightarrow> length ys = length xs"
  by (induction xs arbitrary: w ys w' outs) (auto split: option.splits if_splits)

lemma scan_keeps:
  assumes "scan stop f xs w = Some (ys, w', outs)" "i < length xs" "\<And>w. \<exists>x. f (xs ! i) w = Some (xs ! i, w, x)"
  shows "ys ! i = xs ! i"
  using assms
proof (induction xs arbitrary: i w ys w' outs)
  case (Cons x xs)
  from Cons.prems(1) obtain x' w1 r where f: "f x w = Some (x', w1, r)" by (auto split: option.splits)
  show ?case
  proof (cases i)
    case 0
    then have "x' = x" using Cons.prems(3) [of w] f by auto
    then show ?thesis using Cons.prems(1) f 0 by (auto split: if_splits option.splits)
  next
    case (Suc k)
    consider "ys = x' # xs" | ys' w2 rs where "scan stop f xs w1 = Some (ys', w2, rs)" "ys = x' # ys'"
      using Cons.prems(1) f by (auto split: if_splits option.splits)
    then show ?thesis
      using Cons.IH [of w1 _ _ _ k] Cons.prems(2,3) Suc by cases auto
  qed
qed simp

lemma note_read_marks: "set (failed_joint_ids d) \<subseteq> set (failed_joint_ids (note_read t x d))"
  by (cases "(t, x, d)" rule: note_read.cases)
     (auto simp: set_last_failed_joint_id_def mark_joint_failed_during_recovery_def Let_def)

lemma note_move_marks: "set (failed_joint_ids d) \<subseteq> set (failed_joint_ids (note_move r d))"
  by (auto simp: note_move_def fail_joint_def set_last_failed_joint_id_def mark_joint_failed_during_recovery_def Let_def)

lemma fold_marks: "(\<And>x d. set (failed_joint_ids d) \<subseteq> set (failed_joint_ids (f x d))) \<Longrightarrow>
    set (failed_joint_ids d) \<subseteq> set (failed_joint_ids (fold f xs d))"
  by (induction xs arbitrary: d) (simp_all, metis subset_trans)

lemma finish_marks: "failed_joint_ids (ready_finish rs d) = failed_joint_ids d"
  by (simp add: ready_finish_def ready_move_budget_spend_def Let_def blame_def set_last_failed_joint_id_def)

lemma note_read_joints: "joints (note_read t x e) = joints e"
  by (cases "(t, x, e)" rule: note_read.cases) (auto simp: set_last_failed_joint_id_def mark_joint_failed_during_recovery_def Let_def)

lemma note_move_joints: "joints (note_move r e) = joints e"
  by (simp add: note_move_def fail_joint_def set_last_failed_joint_id_def mark_joint_failed_during_recovery_def Let_def)

lemma finish_joints: "joints (ready_finish rs e) = joints e"
  by (simp add: ready_finish_def ready_move_budget_spend_def Let_def blame_def set_last_failed_joint_id_def)

lemma ready_start_servos [simp]: "servos (ready_start c g j) = servos j" "reference_servo_index (ready_start c g j) = reference_servo_index j"
  by (simp_all add: ready_start_def reset_stuck_counter_def)

lemma skips_servos: "servos j' = servos j \<Longrightarrow> reference_servo_index j' = reference_servo_index j \<Longrightarrow> skips c f j' = skips c f j"
  by (simp add: skips_def reference_servo_id_def reference_servo_def joint_ok_def)

lemma read_leaves_failed:
  assumes "i < length (joints e)" "skips (ee_servos E) (failed_joint_ids e) (joints e ! i)"
    and "eff_read_hardware_values E (e, n) = Some ((e', n'), rc)"
  shows "joints e' ! i = joints e ! i \<and> set (failed_joint_ids e) \<subseteq> set (failed_joint_ids e')"
proof -
  define t where "t = (is_in_emergency_recovery e \<or> \<not> is_ready e)"
  define f where "f = read_joint E e (failed_joint_ids e)"
  consider "e' = e" | e1 w outs where "with_joints (scan (ends_read t) f (joints e) w) (e, n) = Some ((e1, n'), outs)" "e' = fold (note_read t) outs e1"
    using assms(3) by (auto simp: eff_read_hardware_values_def Let_def t_def [symmetric] f_def [symmetric] split: if_splits option.splits prod.splits)
  then show ?thesis
  proof cases
    case 2
    then obtain js w' where sc: "scan (ends_read t) f (joints e) w = Some (js, w', outs)" and e1: "e1 = e\<lparr>joints := js\<rparr>"
      by (auto simp: with_joints_def split: option.splits)
    have "js ! i = joints e ! i" using scan_keeps [OF sc assms(1)] assms(2) by (simp add: f_def read_joint_def)
    then show ?thesis
      using fold_keeps [of joints "note_read t" outs e1] fold_marks [of "note_read t" e1 outs, OF note_read_marks] 2(2)
      by (simp add: note_read_joints e1)
  qed simp
qed

lemma ready_leaves_failed:
  assumes "i < length (joints e)" "skips (ee_servos E) (failed_joint_ids e) (joints e ! i)"
    and "eff_move_to_ready_position E (e, n) = Some ((e', n'), rc)"
  shows "servos (joints e' ! i) = servos (joints e ! i) \<and> set (failed_joint_ids e) \<subseteq> set (failed_joint_ids e')"
proof (cases "is_read_only e \<or> cla_dont_go_to_home_pos (cla e) \<and> is_startup_ready_phase e")
  case True
  then show ?thesis
    using assms(1,3)
    by (auto simp: eff_move_to_ready_position_def clear_command_buffers_def hold_pose_def hold_buffers_def set_tele_pos_rad_def
        set_tele_vel_rad_sec_def set_tele_tor_nm_def Let_def split: if_splits)
next
  case False
  then obtain e0 e1 outs where p: "ready_prepare (ee_servos E) e = Some e0"
    and w: "with_joints (scan (\<lambda>_. False) (ready_joint E e0 (failed_joint_ids e0) (effector_ready_step e0)) (joints e0) (n_drv n)) (e0, n) =
      Some ((e1, n'), outs)"
    and e': "e' = (let rs = List.map_filter (\<lambda>x. x) outs in ready_finish rs (fold note_move rs e1))"
    using ready_move_cycle [OF assms(3)] by auto
  define rs where "rs = List.map_filter (\<lambda>x. x) outs"
  from w obtain js w' where sc: "scan (\<lambda>_. False) (ready_joint E e0 (failed_joint_ids e0) (effector_ready_step e0)) (joints e0) (n_drv n) =
      Some (js, w', outs)" and e1: "e1 = e0\<lparr>joints := js\<rparr>"
    by (auto simp: with_joints_def split: option.splits)
  have p0: "failed_joint_ids e0 = failed_joint_ids e" "length (joints e0) = length (joints e)"
    "servos (joints e0 ! i) = servos (joints e ! i)" "reference_servo_index (joints e0 ! i) = reference_servo_index (joints e ! i)"
    using p assms(1) by (auto simp: ready_prepare_def ready_move_budget_init_def Let_def split: if_splits option.splits)
  have sk: "skips (ee_servos E) (failed_joint_ids e0) (joints e0 ! i)"
    using skips_servos [OF p0(3,4), of "ee_servos E" "failed_joint_ids e"] assms(2) by (simp add: p0)
  have "js ! i = joints e0 ! i"
    by (rule scan_keeps [OF sc]) (use assms(1) sk p0 in \<open>simp_all add: ready_joint_def\<close>)
  then have "joints e' ! i = joints e0 ! i"
    using fold_keeps [of joints note_move rs e1] by (simp add: e' Let_def finish_joints note_move_joints e1 rs_def)
  moreover have "set (failed_joint_ids e) \<subseteq> set (failed_joint_ids e')"
    using fold_marks [of note_move e1 rs, OF note_move_marks] p0(1) by (simp add: e' Let_def finish_marks e1 rs_def)
  ultimately show ?thesis by (simp add: p0)
qed

text \<open>C26: A joint that was marked as failed is left alone. Reading the hardware does not change it, a cycle of the ready move sends nothing to
  its servos, and both keep the mark, so that a disabled motor is not enabled or moved again by the recovery that it caused.
\<close>

theorem failed_joint_left_alone:
  assumes "i < length (joints e)" "skips (ee_servos E) (failed_joint_ids e) (joints e ! i)"
    and "eff_read_hardware_values E (e, n) = Some ((e1, n1), rc1)" "eff_move_to_ready_position E (e, n) = Some ((e2, n2), rc2)"
  shows "joints e1 ! i = joints e ! i \<and> servos (joints e2 ! i) = servos (joints e ! i) \<and>
     set (failed_joint_ids e) \<subseteq> set (failed_joint_ids e1) \<and> set (failed_joint_ids e) \<subseteq> set (failed_joint_ids e2)"
  using read_leaves_failed [OF assms(1,2,3)] ready_leaves_failed [OF assms(1,2,4)] by simp

section \<open>Commands of a client\<close>

text \<open>C25: A follower gripper keeps to its calibrated range. Whatever positions an accepted command holds, every target of the effector lies between the closed end
  and the open end of the range that its polarity selects, zero and one are exactly the ends, and a position that is not finite holds the gripper where it is.
\<close>

theorem commanded_targets_in_range:
  assumes "eff_apply_action c ms (e, n) = Some ((e', n'), SUCCESS)" "joints e = j # js" "gripper_range c j lo hi r"
    and "i < length (joints e)"
  defines "x \<equiv> msg_pos (ms ! (nat (start_index_joint e) + i))" and "y \<equiv> e_tele_pos e' ! i" and "upper \<equiv> fadd binary32 (Fin r) (Fin lo)"
  shows "(\<not> is_finite x \<longrightarrow> y = joint_pos_relative c j) \<and> (is_finite x \<longrightarrow> flt_le (Fin lo) y \<and> flt_le y upper) \<and>
    (x = Fin 0 \<longrightarrow> y = (if open_at_min e then upper else Fin lo)) \<and> (x = Fin 1 \<longrightarrow> y = (if open_at_min e then Fin lo else upper))"
proof -
  have m: "joint_count_matches e ms" and pos: "0 \<le> start_index_joint e" and len: "length (joints e) \<le> length (e_tele_pos e)"
    using assms(1) by (auto simp: eff_apply_action_def Let_def split: if_splits)
  define own where "own = drop (nat (start_index_joint e)) ms"
  have own: "length own = length (joints e)" using m pos by (auto simp: joint_count_matches_def own_def Let_def)
  have "e_tele_pos e' = overwrite (e_tele_pos e) (map (\<lambda>m. get_gripper_pos_rad_relative_from_normalized c e (msg_pos m)) own)"
    using assms(1) by (auto simp: eff_apply_action_def Let_def own_def split: if_splits)
  then have "y = get_gripper_pos_rad_relative_from_normalized c e (msg_pos (own ! i))"
    using own len assms(4) by (simp add: y_def overwrite_def nth_append)
  moreover have "own ! i = ms ! (nat (start_index_joint e) + i)" using own assms(4) by (simp add: own_def)
  ultimately show ?thesis using normalized_target [OF assms(2,3), of x] by (simp add: x_def upper_def)
qed

section \<open>Witnesses\<close>

theorem ready_command_between_witness:
  "\<exists>v. next_ready_command (Fin (1/2)) (Fin (1/8)) (Fin 2) (Fin 0) (Fin 0) = Fin v \<and> 0 \<le> v \<and> v \<le> 2"
proof -
  have "is_flt binary32 (Fin 2)" "is_flt binary32 (Fin (1/2))" by (simp_all add: flt_eval)
  then show ?thesis using ready_command_between [of 2 0 0 "1/2" "Fin (1/8)"] is_flt_small(4) by (fastforce simp del: is_flt.simps)
qed

lemma sample_range: "gripper_range idle_servos (sample_joint temp) (-2) 2 4"
proof -
  have f: "fround binary32 2 = Fin 2" "fround binary32 4 = Fin 4" "is_flt binary32 (Fin 2)" "is_flt binary32 (Fin (-2))"
    by (simp_all add: flt_eval)
  have "get_normalized_pos_min_relative idle_servos (sample_joint temp) = Fin (-2)"
    "get_normalized_pos_max_relative idle_servos (sample_joint temp) = Fin 2" "has_reference (sample_joint temp)"
    "effective_pos_max idle_servos (sample_joint temp) = Fin 2"
    by (simp_all add: get_normalized_pos_min_relative_def get_normalized_pos_max_relative_def has_normalized_position_range_def
        get_pos_min_relative_def get_pos_max_relative_def has_reference_def effective_pos_max_def sample_joint_def new_joint_def reference_servo_def
        idle_servos_def new_servo_def servo_data.defs sample_servo_def fsub_def f)
  then show ?thesis using f by (simp add: gripper_range_def fsub_def del: is_flt.simps)
qed

definition sample_command :: "flt \<Rightarrow> data_joint" where
  "sample_command x = \<lparr>msg_pos = x, msg_vel = Fin 0, msg_tor = Fin 0, msg_temperature = Fin 0, msg_idc_current = Fin 0, msg_frame_age_ms = Fin 0\<rparr>"

theorem commanded_targets_in_range_witness:
  "\<exists>e'. eff_apply_action idle_servos [sample_command NaN] (sample_gripper, sample_node) = Some ((e', sample_node), SUCCESS) \<and>
     e_tele_pos e' ! 0 = Fin 1"
proof -
  have g: "joints sample_gripper = [sample_joint (Fin 30)]" "start_index_joint sample_gripper = 0" "e_tele_pos sample_gripper = [Fin 0]"
    "e_tele_vel sample_gripper = [Fin 0]" "e_tele_tor sample_gripper = [Fin 0]"
    by (simp_all add: sample_gripper_def new_effector_object_def device.defs)
  obtain e' where e': "eff_apply_action idle_servos [sample_command NaN] (sample_gripper, sample_node) = Some ((e', sample_node), SUCCESS)"
    by (simp add: eff_apply_action_def joint_count_matches_def g)
  have "e_tele_pos e' ! 0 = joint_pos_relative idle_servos (sample_joint (Fin 30))"
    using commanded_targets_in_range [OF e' g(1) sample_range, of 0] by (simp add: g sample_command_def)
  then show ?thesis using e' by (auto simp: sample_joint_facts)
qed

text \<open>A gripper whose only joint was marked as failed.\<close>

definition failed_gripper :: "(servo, lbuf) effector" where
  "failed_gripper = sample_gripper\<lparr>failed_joint_ids := [4], init_count := 1\<rparr>"

lemma failed_gripper_facts:
  "joints failed_gripper = [sample_joint (Fin 30)]" "failed_joint_ids failed_gripper = [4]" "\<not> is_driver_created_by_this failed_gripper"
  "\<not> is_read_only failed_gripper" "\<not> cla_dont_go_to_home_pos (cla failed_gripper)" "init_count failed_gripper = 1"
  by (simp_all add: failed_gripper_def sample_gripper_simps)

lemma failed_gripper_skips: "skips idle_servos [4] (sample_joint (Fin 30))"
  by (simp add: skips_def reference_servo_id_def sample_joint_facts sample_joint_def new_joint_def idle_servos_def new_servo_def servo_data.defs sample_servo_def)

theorem failed_joint_left_alone_witness:
  "\<exists>e n rc. eff_move_to_ready_position idle_env (failed_gripper, sample_node) = Some ((e, n), rc) \<and>
     servos (joints e ! 0) = servos (sample_joint (Fin 30)) \<and> 4 \<in> set (failed_joint_ids e)"
proof -
  have env: "ee_servos idle_env = idle_servos" by (simp add: idle_env_def)
  obtain e1 n1 rc1 where r: "eff_read_hardware_values idle_env (failed_gripper, sample_node) = Some ((e1, n1), rc1)"
    by (simp add: eff_read_hardware_values_def failed_gripper_facts read_joint_def failed_gripper_skips env with_joints_def)
  obtain e2 n2 rc2 where m: "eff_move_to_ready_position idle_env (failed_gripper, sample_node) = Some ((e2, n2), rc2)"
    by (simp add: eff_move_to_ready_position_def failed_gripper_facts ready_prepare_def ready_joint_def failed_gripper_skips env with_joints_def Let_def)
  show ?thesis
    using failed_joint_left_alone [of 0 failed_gripper idle_env, OF _ _ r m] m by (simp add: failed_gripper_facts failed_gripper_skips env)
qed

text \<open>A gripper away from its ready position whose servo never moves.\<close>

definition stuck_gripper :: "(servo, lbuf) effector" where
  "stuck_gripper = sample_gripper\<lparr>joints := [(sample_joint (Fin 30))\<lparr>j_vel_max := Fin 1\<rparr>]\<rparr>"

lemma scan_total: "(\<And>x w. f x w \<noteq> None) \<Longrightarrow> scan stop f xs w \<noteq> None"
  by (induction xs arbitrary: w) (auto split: option.splits simp del: not_None_eq)

lemma until_error_total: "(\<And>x w. f x w \<noteq> None) \<Longrightarrow> until_error f xs w \<noteq> None"
  by (induction xs arbitrary: w) (auto split: option.splits simp del: not_None_eq)

lemma idle_ready_total:
  fixes s :: "(servo, lbuf) effector \<times> unit node"
  assumes "ready_prepare (ee_servos idle_env) (fst s) \<noteq> None"
  shows "eff_move_to_ready_position idle_env s \<noteq> None"
proof -
  have "joint_move idle_servos t j w \<noteq> None" for t j w
    using until_error_total [of "seen idle_servos j idle_call" "servos j" w]
    by (auto simp: joint_move_def forward_def idle_servos_def seen_def idle_call_def split: option.splits simp del: not_None_eq)
  then have "ready_joint idle_env d failed step j w \<noteq> None" for d :: "(servo, lbuf) effector" and failed step j w
    by (auto simp: ready_joint_def idle_env_def Let_def split: option.splits prod.splits simp del: not_None_eq)
  then have "scan (\<lambda>_. False) (ready_joint idle_env d failed step) js w \<noteq> None" for d :: "(servo, lbuf) effector" and failed step js w
    by (rule scan_total)
  with assms show ?thesis by (auto simp: eff_move_to_ready_position_def Let_def with_joints_def split: option.splits simp del: not_None_eq)
qed

lemma gripper_range_vel_max: "gripper_range c (j\<lparr>j_vel_max := v\<rparr>) = gripper_range c j"
  by (intro ext) (simp add: gripper_range_def has_reference_def get_normalized_pos_min_relative_def has_normalized_position_range_def
      get_pos_min_relative_def effective_pos_max_def get_normalized_pos_max_relative_def get_pos_max_relative_def reference_servo_def Let_def cong: if_cong)

lemma stuck_gripper_budget: "ready_prepare (ee_servos idle_env) stuck_gripper \<noteq> None"
proof -
  let ?j = "(sample_joint (Fin 30))\<lparr>j_vel_max := Fin 1\<rparr>"
  have j: "joints stuck_gripper = [?j]" "init_count stuck_gripper = 0" "\<not> slow_move_active stuck_gripper"
    "cla_control_frequency (cla stuck_gripper) = 100" "\<not> open_at_min stuck_gripper"
    by (simp_all add: stuck_gripper_def sample_gripper_simps)
  have range: "gripper_range idle_servos ?j (-2) 2 4"
    using sample_range [of "Fin 30"] by (simp only: gripper_range_vel_max)
  have pos: "joint_pos_relative idle_servos ?j = Fin 1"
    using sample_joint_facts(2) [of "Fin 30"] by (simp add: joint_pos_relative_def reference_servo_def)
  have goal: "get_gripper_pos_rad_relative_from_normalized idle_servos stuck_gripper (Fin 1) = Fin 2"
    using normalized_target [OF j(1) range, of "Fin 1"] j(5) by (simp add: flt_eval)
  have step: "effector_ready_step stuck_gripper = fround binary32 (1/100)"
    by (simp add: effector_ready_step_def ready_move_step_rad_def j MOVE_TO_READY_VEL_RAD_S_NORMAL_EFFECTOR_def fmin_def) (simp add: flt_eval of_int_f_def)
  show ?thesis
    by (simp add: ready_prepare_def j goal idle_env_def pos step ready_move_budget_init_def fsub_def fmax_def Let_def)
       (simp add: flt_eval trunc_def READY_MOVE_BUDGET_TRAVEL_SCALE_def DEVICE_ARRIVED_CONFIRM_CNT_def)
qed

lemma finish_started: "0 \<le> init_count d \<Longrightarrow> 1 \<le> init_count (ready_finish rs d)"
  by (simp add: ready_finish_def ready_move_budget_spend_def Let_def blame_def set_last_failed_joint_id_def)

lemma ready_call_started:
  assumes "eff_move_to_ready_position E s = Some (s', rc)" "0 \<le> init_count (fst s)"
    and "\<not> is_read_only (fst s)" "\<not> cla_dont_go_to_home_pos (cla (fst s))"
  shows "1 \<le> init_count (fst s')"
proof -
  obtain e e' n outs where p: "ready_prepare (ee_servos E) (fst s) = Some e"
    and w: "with_joints (scan (\<lambda>_. False) (ready_joint E e (failed_joint_ids e) (effector_ready_step e)) (joints e) (n_drv (snd s))) (e, snd s) = Some ((e', n), outs)"
    and s': "s' = (let rs = List.map_filter (\<lambda>x. x) outs in ready_finish rs (fold note_move rs e'), n)"
    by (rule ready_move_cycle [OF assms(1,3)]) (use assms(4) in simp)
  have "init_count e' = init_count e" using with_joints_device [OF w] by auto
  moreover have "0 \<le> init_count e" using prepare_counters [OF p] assms(2) by (cases "init_count (fst s) = 0") auto
  moreover have "init_count (fold note_move rs e') = init_count e'" for rs
    using notes_counters [of rs e'] by (simp add: ready_counters_def split: if_splits)
  ultimately show ?thesis by (simp add: s' Let_def finish_started)
qed

primrec stuck_run :: "nat \<Rightarrow> (servo, lbuf) effector \<times> unit node" where
  "stuck_run 0 = (stuck_gripper, sample_node)"
| "stuck_run (Suc k) = fst (the (eff_move_to_ready_position idle_env (stuck_run k)))"

lemma ready_fields_kept:
  "(is_read_only (note_move r d), cla (note_move r d)) = (is_read_only d, cla d)"
  "(is_read_only (ready_finish rs d), cla (ready_finish rs d)) = (is_read_only d, cla d)"
  by (simp_all add: note_move_def fail_joint_def set_last_failed_joint_id_def mark_joint_failed_during_recovery_def
      ready_finish_def ready_move_budget_spend_def Let_def blame_def)

lemma gripper_flags_kept:
  assumes "eff_move_to_ready_position E s = Some (s', rc)" "\<not> is_read_only (fst s)" "\<not> cla_dont_go_to_home_pos (cla (fst s))"
  shows "(is_read_only (fst s'), cla (fst s')) = (is_read_only (fst s), cla (fst s))"
proof -
  obtain e e' n outs where p: "ready_prepare (ee_servos E) (fst s) = Some e"
    and w: "with_joints (scan (\<lambda>_. False) (ready_joint E e (failed_joint_ids e) (effector_ready_step e)) (joints e) (n_drv (snd s))) (e, snd s) = Some ((e', n), outs)"
    and s': "s' = (let rs = List.map_filter (\<lambda>x. x) outs in ready_finish rs (fold note_move rs e'), n)"
    by (rule ready_move_cycle [OF assms(1,2)]) (use assms(3) in simp)
  have "(is_read_only e, cla e) = (is_read_only (fst s), cla (fst s))"
    using p by (auto simp: ready_prepare_def ready_move_budget_init_def Let_def split: if_splits option.splits)
  moreover have "(is_read_only e', cla e') = (is_read_only e, cla e)" using with_joints_device [OF w] by auto
  moreover have "(is_read_only (fold note_move rs e'), cla (fold note_move rs e')) = (is_read_only e', cla e')" for rs
    by (rule fold_keeps [of "\<lambda>d. (is_read_only d, cla d)"]) (rule ready_fields_kept)
  ultimately show ?thesis by (simp only: s' Let_def fst_conv ready_fields_kept)
qed

lemma stuck_run_started:
  "\<not> is_read_only (fst (stuck_run k)) \<and> \<not> cla_dont_go_to_home_pos (cla (fst (stuck_run k))) \<and>
   (k = 0 \<or> 1 \<le> init_count (fst (stuck_run k))) \<and> (\<exists>s' rc. eff_move_to_ready_position idle_env (stuck_run k) = Some (s', rc))"
proof (induction k)
  case 0
  then show ?case using idle_ready_total [of "(stuck_gripper, sample_node)"] stuck_gripper_budget
    by (auto simp: stuck_gripper_def sample_gripper_simps)
next
  case (Suc k)
  then obtain rc where m: "eff_move_to_ready_position idle_env (stuck_run k) = Some (stuck_run (Suc k), rc)" by auto
  have "0 \<le> init_count (fst (stuck_run k))" using Suc by (cases k) (auto simp: stuck_gripper_def sample_gripper_simps)
  with Suc have i: "1 \<le> init_count (fst (stuck_run (Suc k)))" by (intro ready_call_started [OF m]) auto
  then have "ready_prepare (ee_servos idle_env) (fst (stuck_run (Suc k))) \<noteq> None" by (simp add: ready_prepare_def)
  with idle_ready_total Suc i gripper_flags_kept [OF m] show ?case by (auto simp del: stuck_run.simps)
qed

theorem ready_move_ends_witness: "\<exists>k. is_ready (fst (stuck_run (Suc k)))"
proof -
  obtain rc where m: "\<And>k. eff_move_to_ready_position idle_env (stuck_run k) = Some (stuck_run (Suc k), rc k)"
    using stuck_run_started by (metis (no_types, lifting) fst_conv option.sel stuck_run.simps(2))
  have "init_count (fst (stuck_run 0)) = 0" by (simp add: stuck_gripper_def sample_gripper_simps)
  from ready_move_ends [of stuck_run idle_env "\<lambda>k. stuck_run (Suc k)" rc, OF this m] show ?thesis by auto
qed

end
