(* ===== verification/Can_Gripper.thy ===== *)
theory Can_Gripper
  imports Can_Joint Effector_Motion
begin

text \<open>
  A gripper in torque mode on the CAN bus: \<^verbatim>\<open>DeviceEffectorCan::move_joint_with_torque\<close> (\<open>Effector\<close>) over the joint's forwarding
  (\<open>Joint\<close>), the rescaling and clipping of \<^verbatim>\<open>ServoDm::apply_torque_with_damping\<close> (\<open>Servo_Dm\<close>) and the frame builders
  (\<open>Servo_Dm_Codec\<close>). The grip limit is followed from the configuration to the frames on the bus.
\<close>

section \<open>Torque frames\<close>

text \<open>A frame that commands the torque \<open>t\<close> and a damping, but no position or velocity, in the format of either motor family.\<close>

definition torque_command :: "(int \<Rightarrow> dm_param option) \<Rightarrow> int \<Rightarrow> flt \<Rightarrow> flt \<Rightarrow> can_frame \<Rightarrow> bool" where
  "torque_command par sid kd t f \<longleftrightarrow>
     can_frame_to_command_dm_servo par (word_of_int sid) (Fin 0) kd (Fin 0) (Fin 0) t = Built f \<or>
     can_frame_to_command_encos_servo par (word_of_int sid) (Fin 0) kd (Fin 0) (Fin 0) t = Built f"

lemma quantise_NaN_torque: "quantise sp kd_bits kp kd pos spd NaN = None"
proof -
  have "float_to_uint (clamp NaN (tor_min sp) (tor_max sp)) (tor_min sp) (tor_max sp) 12 = None"
    unfolding float_to_uint_def clamp_NaN fsub_NaN fmul_NaN_right by simp
  then show ?thesis by (simp add: quantise_def Let_def split: option.split)
qed

lemma torque_command_number: "torque_command par sid kd t f \<Longrightarrow> t \<noteq> NaN"
  by (auto simp: torque_command_def can_frame_to_command_dm_servo_def can_frame_to_command_encos_servo_def
      quantise_NaN_torque split: option.splits)

text \<open>What a torque command does to the bus: only such frames, and the motor parameters stay.\<close>

definition only_torque :: "(can_frame \<Rightarrow> bool) \<Rightarrow> 'a mit_scheme \<Rightarrow> 'a mit_scheme \<Rightarrow> bool" where
  "only_torque P w w' \<longleftrightarrow> sent P w w' \<and> dm_par w' = dm_par w"

lemma only_torque_trans: "only_torque P w w1 \<Longrightarrow> only_torque P w1 w' \<Longrightarrow> only_torque P w w'"
  by (auto simp: only_torque_def intro: sent_trans)

lemma send_built_only:
  assumes "send_built b m = Some (m', rc)" "\<And>f. b = Built f \<Longrightarrow> P f"
  shows "only_torque P m (usleep us m')"
proof (cases b)
  case (Built f)
  then have s: "send_frame f m = (m', rc)" using assms(1) by (simp add: send_built_def)
  then have "dm_par (usleep us m') = dm_par m"
    by (auto simp: dm_par_def fun_eq_iff usleep_def dest!: send_frame_result)
  then show ?thesis using sent_send_frameD [OF s] assms(2) Built by (simp add: only_torque_def)
qed (use assms in \<open>auto simp: send_built_def only_torque_def sent_refl usleep_def dm_par_def fun_eq_iff\<close>)

text \<open>The torque of the frame is the demanded one, rescaled and clipped.\<close>

definition servo_torque :: "'a joint_view_scheme \<Rightarrow> flt \<Rightarrow> flt" where
  "servo_torque v torque = clipping (fmul binary32 torque (torq_rescale v)) (torq_min v) (torq_max v)"

lemma damped_torque_frames:
  assumes "apply_torque_with_damping (can_mit_ops idx) torque sv m = Some (sv', m', rc)" "p_joint sv = Some v"
  shows "only_torque (\<lambda>f. \<exists>kd. torque_command (dm_par m) (id_of sv) kd (servo_torque v torque) f) m m'"
proof -
  let ?P = "\<lambda>f. \<exists>kd. torque_command (dm_par m) (id_of sv) kd (servo_torque v torque) f"
  have r: "only_torque ?P m m" by (simp add: only_torque_def sent_refl)
  have u: "only_torque ?P m (usleep 200 m)" by (simp add: only_torque_def sent_refl dm_par_def usleep_def fun_eq_iff)
  have "only_torque ?P m (usleep 200 m1)"
    if "send_command (Some (sv_type sv, id_of sv)) (Fin 0) kd (Fin 0) (Fin 0) (servo_torque v torque) m = Some (m1, c)" for kd m1 c
    using that u by (auto simp: send_command_def torque_command_def split: if_splits intro!: send_built_only)
  then show ?thesis using assms r
    by (auto simp: apply_torque_with_damping_def issue_def can_mit_ops_def servo_torque_def split: if_splits bool.splits option.splits)
qed

section \<open>The joint\<close>

lemma visits_only_torque:
  "visits f ss w ss' w' \<Longrightarrow> (\<And>s w1 s' w2 rc. s \<in> set ss \<Longrightarrow> dm_par w1 = dm_par w \<Longrightarrow> f s w1 = Some (s', w2, rc) \<Longrightarrow> only_torque P w1 w2) \<Longrightarrow>
   only_torque P w w'"
proof (induction rule: visits.induct)
  case (visit s w s' w1 rc ss ss' w')
  have 1: "only_torque P w w1" by (rule visit.prems [OF _ refl visit.hyps(1)]) simp
  have "only_torque P w1 w'"
  proof (rule visit.IH)
    fix t w2 t' w3 rc'
    assume "t \<in> set ss" "dm_par w2 = dm_par w1" "f t w2 = Some (t', w3, rc')"
    then show "only_torque P w2 w3" using visit.prems [of t w2 t' w3 rc'] 1 by (simp add: only_torque_def)
  qed
  with 1 show ?case by (rule only_torque_trans)
qed (simp add: only_torque_def sent_refl)

lemma joint_torque_frames:
  assumes "joint_apply_torque_with_damping (can_servos (mit_env idx topic pub arr)) torque j w = Some (j', w', rc)"
  shows "only_torque (\<lambda>f. \<exists>s \<in> set (servos j). \<exists>kd. torque_command (dm_par w) (id_of (any_base s)) kd (servo_torque j torque) f) w w'"
    (is "only_torque ?P w w'")
proof -
  let ?c = "can_servos (mit_env idx topic pub arr)"
  have v: "visits (seen ?c j (sc_torque_damped ?c torque)) (servos j) w (servos j') w'"
    using assms by (auto simp: joint_apply_torque_with_damping_def forward_def dest!: until_error_visits split: option.splits)
  have t: "servo_torque (joint_view.truncate j) torque = servo_torque j torque" by (simp add: servo_torque_def joint_view.defs)
  show ?thesis
  proof (rule visits_only_torque [OF v])
    fix s w1 s' w2 rc
    assume s: "s \<in> set (servos j)" "dm_par w1 = dm_par w" "seen ?c j (sc_torque_damped ?c torque) s w1 = Some (s', w2, rc)"
    show "only_torque ?P w1 w2"
    proof (cases s)
      case (ADm d)
      let ?d = "d\<lparr>p_joint := Some (joint_view.truncate j)\<rparr>"
      obtain d' where "apply_torque_with_damping (can_mit_ops idx) torque ?d w1 = Some (d', w2, rc)"
        using s(3) by (auto simp: seen_def can_servos_def ADm split: option.splits)
      from damped_torque_frames [OF this, of "joint_view.truncate j"]
      have "only_torque (\<lambda>f. \<exists>kd. torque_command (dm_par w) (id_of d) kd (servo_torque j torque) f) w1 w2" by (simp add: s(2) t)
      moreover have "id_of (any_base s) = id_of d" by (simp add: ADm servo_data.defs)
      ultimately have "only_torque (\<lambda>f. \<exists>kd. torque_command (dm_par w) (id_of (any_base s)) kd (servo_torque j torque) f) w1 w2" by simp
      then show ?thesis using s(1) sent_mono [of _ w1 w2 ?P] unfolding only_torque_def by blast
    next
      case (AEnc d)
      then show ?thesis using s(3) by (auto simp: seen_def can_servos_def only_torque_def sent_refl)
    qed
  qed
qed

section \<open>The limit\<close>

text \<open>Rescaling and clipping to limits around zero keep a bound on the magnitude, up to the rounding of the rescaled bound.\<close>

lemma servo_torque_bound:
  assumes "torq_min v = Fin lo" "torq_max v = Fin hi" "torq_rescale v = Fin r" "lo \<le> 0" "0 \<le> hi" "0 \<le> r" "\<bar>x\<bar> \<le> b"
  shows "\<exists>t. servo_torque v (Fin x) = Fin t \<and> lo \<le> t \<and> t \<le> hi \<and> (\<forall>c. fmul binary32 (Fin b) (Fin r) = Fin c \<longrightarrow> \<bar>t\<bar> \<le> c)"
proof -
  define y where "y = fround binary32 (x * r)"
  have s: "servo_torque v (Fin x) = clipping y (Fin lo) (Fin hi)" using assms(1-3) by (simp add: servo_torque_def y_def)
  have between: "- (b * r) \<le> x * r" "x * r \<le> b * r" using assms(6,7) mult_right_mono [of x b r] mult_right_mono [of "- b" x r] by auto
  have c: "\<exists>z. y = Fin z \<and> \<bar>z\<bar> \<le> c" if "fround binary32 (b * r) = Fin c" for c
  proof -
    have n: "fround binary32 (- (b * r)) = Fin (- c)" using that by (auto simp: fround_def Let_def rnd_minus split: if_splits)
    have "flt_le (Fin (- c)) y" "flt_le y (Fin c)"
      using fround_mono [OF between(1), of binary32] fround_mono [OF between(2), of binary32] that n
      by (simp_all add: y_def binary32_def)
    then show ?thesis by (cases y) (auto simp: abs_le_iff flt_le_def)
  qed
  have "y \<noteq> NaN" by (simp add: y_def fround_def Let_def)
  then have "\<exists>t. clipping y (Fin lo) (Fin hi) = Fin t \<and> lo \<le> t \<and> t \<le> hi \<and> (\<forall>z. y = Fin z \<longrightarrow> \<bar>t\<bar> \<le> \<bar>z\<bar>)"
    using assms(4,5) by (cases y) (auto simp: clipping_def)
  then show ?thesis unfolding s using c by fastforce
qed

section \<open>Properties\<close>

text \<open>C27: In torque mode the grip limit holds on the bus. Every frame that a torque step of a CAN gripper puts on the bus is for a servo of
  the joint and commands a torque, with no position gain; that torque is a number within the torque limits of the joint, and its
  magnitude is at most the grip limit times the joint's torque scale (rounded to a float), or the upper torque limit times the scale where no positive
  grip limit is configured. It holds whatever the target, the measured position, the spring constant and the outcome of the step.\<close>

theorem grip_force_bounded:
  assumes "ee_servos E = can_servos (mit_env idx topic pub arr)" "get_dir_invert (ee_servos E) j \<in> {1, -1}"
    and "grip_torque_limit_nm j = Fin g" "torq_min j = Fin lo" "torq_max j = Fin hi" "torq_rescale j = Fin r"
    and "is_flt binary32 (Fin g)" "is_flt binary32 (Fin hi)" "lo \<le> 0" "0 \<le> hi" "0 \<le> r"
    and "move_joint_with_torque E e target j (w, ramped) = Some (j', (w', ramped'), rc)"
  shows "\<exists>new. tx w' = tx w @ new \<and>
    (\<forall>f \<in> set new. \<exists>s \<in> set (servos j). \<exists>kd t. torque_command (dm_par w) (id_of (any_base s)) kd (Fin t) f \<and> lo \<le> t \<and> t \<le> hi \<and>
       (\<forall>c. fmul binary32 (Fin (if 0 < g then g else hi)) (Fin r) = Fin c \<longrightarrow> \<bar>t\<bar> \<le> c))"
proof -
  let ?b = "if 0 < g then g else hi" and ?c = "can_servos (mit_env idx topic pub arr)" and ?j = "sees_device (ee_servos E) e j"
  obtain goal j1 where call: "joint_apply_torque_with_damping ?c (grip_torque ?c e goal j) ?j w = Some (j1, w', rc)"
    using assms(1,12) by (auto simp: move_joint_with_torque_def jcall_def Let_def split: option.splits)
  define \<tau> where "\<tau> = grip_torque ?c e goal j"
  have \<tau>: "\<tau> = NaN \<or> (\<exists>v. \<tau> = Fin v \<and> \<bar>v\<bar> \<le> ?b)"
    unfolding \<tau>_def by (rule grip_torque_le) (use assms in \<open>auto simp: grip_bound_def simp del: is_flt.simps\<close>)
  have view: "servo_torque ?j \<tau> = servo_torque j \<tau>" by (simp add: servo_torque_def sees_device_def)
  have upd: "sc_upd ?c = any_upd" by (simp add: can_servos_def)
  have ids: "\<exists>s \<in> set (servos j). id_of (any_base s) = id_of (any_base s1)" if mem: "s1 \<in> set (servos ?j)" for s1
  proof -
    obtain s where s: "s \<in> set (servos j)" "s1 = any_upd (\<lambda>x. x\<lparr>p_device := device_view_of e\<rparr>) s"
      using mem by (auto simp: sees_device_def assms(1) upd)
    have "id_of (any_base s1) = id_of (any_base s)" unfolding s(2) by (cases s) (simp_all add: upd_data_def servo_data.defs)
    then show ?thesis using s(1) by metis
  qed
  have frame: "\<exists>s \<in> set (servos j). \<exists>kd t. torque_command (dm_par w) (id_of (any_base s)) kd (Fin t) f \<and> lo \<le> t \<and> t \<le> hi \<and>
       (\<forall>c. fmul binary32 (Fin ?b) (Fin r) = Fin c \<longrightarrow> \<bar>t\<bar> \<le> c)"
    if t: "s1 \<in> set (servos ?j)" "torque_command (dm_par w) (id_of (any_base s1)) kd (servo_torque ?j \<tau>) f" for s1 kd f
  proof -
    have "servo_torque j \<tau> \<noteq> NaN" using torque_command_number [OF t(2)] view by simp
    then have "\<tau> \<noteq> NaN" by (auto simp: servo_torque_def clipping_def)
    then obtain v where v: "\<tau> = Fin v" "\<bar>v\<bar> \<le> ?b" using \<tau> by blast
    obtain x where x: "servo_torque j \<tau> = Fin x" "lo \<le> x" "x \<le> hi" "\<forall>c. fmul binary32 (Fin ?b) (Fin r) = Fin c \<longrightarrow> \<bar>x\<bar> \<le> c"
      using servo_torque_bound [OF assms(4-6,9-11) v(2)] v(1) by auto
    obtain s where "s \<in> set (servos j)" "id_of (any_base s) = id_of (any_base s1)" using ids [OF t(1)] by blast
    then show ?thesis using t(2) x view by metis
  qed
  have "sent (\<lambda>f. \<exists>s \<in> set (servos ?j). \<exists>kd. torque_command (dm_par w) (id_of (any_base s)) kd (servo_torque ?j \<tau>) f) w w'"
    using joint_torque_frames [OF call] by (simp add: only_torque_def \<tau>_def)
  then have "sent (\<lambda>f. \<exists>s \<in> set (servos j). \<exists>kd t. torque_command (dm_par w) (id_of (any_base s)) kd (Fin t) f \<and> lo \<le> t \<and> t \<le> hi \<and>
      (\<forall>c. fmul binary32 (Fin ?b) (Fin r) = Fin c \<longrightarrow> \<bar>t\<bar> \<le> c)) w w'"
    by (rule sent_mono) (elim bexE exE, rule frame)
  then show ?thesis unfolding sent_def .
qed

section \<open>A gripper that squeezes\<close>

definition squeezing_joint :: "any_servo joint" where
  "squeezing_joint = (new_joint (\<lambda>_. Fin 0) True)\<lparr>grip_torque_limit_nm := Fin 3, torq_min := Fin (-10), torq_max := Fin 10,
     torq_rescale := Fin 1, servos := [ADm gripper]\<rparr>"

definition squeezing_effector :: "(any_servo, lbuf) effector" where
  "squeezing_effector = (new_effector_object sample_args)\<lparr>distance_to_torque := Fin 100\<rparr>"

definition squeezing_env :: "(any_servo, can_world) effector_env" where
  "squeezing_env = \<lparr>ee_servos = can_servos quiet_env, ee_group_read = (\<lambda>w. (w, SUCCESS)), ee_group_write = (\<lambda>w. (w, SUCCESS)),
     ee_settle = (\<lambda>w. w), ee_frame_age = (\<lambda>_ _. 0), ee_now = now, ee_position_first = True\<rparr>"

lemma squeezing_facts:
  "joint_pos_relative (can_servos quiet_env) squeezing_joint = Fin 1" "get_dir_invert (can_servos quiet_env) squeezing_joint = 1"
  "get_pos_min_relative (can_servos quiet_env) squeezing_joint = Fin (-2)" "get_pos_max_relative (can_servos quiet_env) squeezing_joint = Fin 2"
  by (simp_all add: joint_pos_relative_def get_dir_invert_def get_pos_min_relative_def get_pos_max_relative_def squeezing_joint_def new_joint_def
      reference_servo_def can_servos_def gripper_def new_servo_dm_def new_servo_def servo.defs servo_data.defs sample_servo_def
      get_pos_rad_relative_def rel_of_abs_def of_int_dir fsub_def fround32_one)

lemma squeezing_parts:
  "distance_to_torque squeezing_effector = Fin 100" "grip_spring_offset squeezing_effector = Fin 0"
  "grip_torque_limit_nm squeezing_joint = Fin 3" "torq_min squeezing_joint = Fin (-10)" "torq_max squeezing_joint = Fin 10"
  "torq_rescale squeezing_joint = Fin 1" "servos squeezing_joint = [ADm gripper]"
  by (simp_all add: squeezing_effector_def new_effector_object_def device.defs squeezing_joint_def new_joint_def)

lemma small_floats: "fround binary32 2 = Fin 2" "fround binary32 3 = Fin 3" "fround binary32 100 = Fin 100"
  "is_flt binary32 (Fin 3)" "is_flt binary32 (Fin 10)"
  by (simp_all add: flt_eval)

lemma squeezing_torque: "grip_torque (can_servos quiet_env) squeezing_effector (Fin 2) squeezing_joint = Fin 3"
  by (simp add: grip_torque_def squeezing_facts squeezing_parts grip_bound_def clipping_def fsub_def of_int_dir small_floats fround32_one)

lemma squeezing_goal: "ramp (clipping (Fin 2) (Fin (-2)) (Fin 2)) (Fin 1) (Fin 0, False) = Fin 2"
  by (simp add: ramp_def clipping_def fsub_def small_floats fround32_one)

lemma torque_frame_built:
  assumes "par (uint mid) = Some sp" "actuated_param sp" "kd \<noteq> NaN" "t \<noteq> NaN"
  shows "\<exists>z. can_frame_to_command_dm_servo par mid (Fin 0) kd (Fin 0) (Fin 0) t = Built z"
  using quantise_defined [OF assms(2), of "Fin 0" kd "Fin 0" "Fin 0" t 12] assms(3,4)
  by (auto simp: can_frame_to_command_dm_servo_def assms(1))

lemma upd_device: "upd_data (\<lambda>d. d\<lparr>p_device := x\<rparr>) s = s\<lparr>p_device := x\<rparr>"
  by (cases s) (simp add: upd_data_def servo_data.defs)

lemma squeezing_step:
  "\<exists>j' w' z. move_joint_with_torque squeezing_env squeezing_effector (Fin 2) squeezing_joint (bus_world (gripper_bus 1 40), Fin 0, False)
       = Some (j', (w', Fin 2, True), SUCCESS) \<and> tx w' = [z]"
proof -
  let ?w = "bus_world (gripper_bus 1 40)"
  have w: "dm_par ?w = dm_par (gripper_bus 1 40)" "sock ?w" "writes ?w = []" "tx ?w = []"
    by (simp_all add: bus_world_def mit.defs dm_par_def fun_eq_iff gripper_bus_fields)
  have "dm_par ?w (uint (4 :: u16)) = Some g_servo_dm_param_4310" by (simp add: w gripper_bus_fields)
  note built = torque_frame_built [of "dm_par ?w" 4, OF this actuated_params(2)]
  define d where "d = gripper\<lparr>p_device := device_view_of squeezing_effector, p_joint := Some (joint_view.truncate squeezing_joint)\<rparr>"
  have d: "sv_type d = DM_4310" "p_driver_can d" "\<not> thermal_fault_latched d" "id_of d = 4" "p_joint d = Some (joint_view.truncate squeezing_joint)"
    "pos_kd d = Fin 1" using gripper_fields by (simp_all add: d_def) (simp add: gripper_def new_servo_dm_def new_servo_def servo.defs servo_data.defs sample_servo_def)
  have "get_adjusted_pos_kd d \<noteq> NaN" using d(6) by (simp add: get_adjusted_pos_kd_def)
  then obtain z where z: "can_frame_to_command_dm_servo (dm_par ?w) 4 (Fin 0) (get_adjusted_pos_kd d) (Fin 0) (Fin 0) (Fin 3) = Built z"
    using built by blast
  have t: "clipping (fmul binary32 (Fin 3) (Fin 1)) (Fin (-10)) (Fin 10) = Fin 3" "clipping (lit32 3) (Fin (-10)) (Fin 10) = Fin 3"
    by (simp_all add: clipping_def small_floats)
  have v: "torq_rescale (joint_view.truncate squeezing_joint) = Fin 1" "torq_min (joint_view.truncate squeezing_joint) = Fin (-10)"
    "torq_max (joint_view.truncate squeezing_joint) = Fin 10" by (simp_all add: joint_view.defs squeezing_parts)
  obtain w' where "apply_torque_with_damping (can_mit_ops (\<lambda>_. 3)) (Fin 3) d ?w = Some (d, w', SUCCESS)" "tx w' = [z]"
    by (simp add: apply_torque_with_damping_def reject_if_thermal_fault_latched_def d v t issue_def can_mit_ops_def send_command_def
        is_socket_open_def w(2-4) z send_built_def send_frame_ok usleep_def)
  moreover have "any_upd (\<lambda>x. x\<lparr>p_joint := Some (joint_view.truncate squeezing_joint)\<rparr>)
      (any_upd (\<lambda>x. x\<lparr>p_device := device_view_of squeezing_effector\<rparr>) (ADm gripper)) = ADm d"
    by (simp add: d_def upd_device)
  moreover have "sc_upd (can_servos quiet_env) = any_upd"
    "sc_torque_damped (can_servos quiet_env) q = any_command quiet_env (TorqueDamped q) (enc_apply_torque q)" for q
    by (simp_all add: can_servos_def)
  moreover have "joint_view.truncate (squeezing_joint\<lparr>servos := ss\<rparr>) = joint_view.truncate squeezing_joint" for ss
    by (simp add: joint_view.defs)
  ultimately show ?thesis
    by (simp add: move_joint_with_torque_def squeezing_env_def squeezing_facts squeezing_goal squeezing_torque jcall_def seen_def
        joint_apply_torque_with_damping_def forward_def sees_device_def squeezing_parts del: any_upd.simps)
qed

theorem grip_force_bounded_witness:
  "\<exists>j' w' z kd t. move_joint_with_torque squeezing_env squeezing_effector (Fin 2) squeezing_joint (bus_world (gripper_bus 1 40), Fin 0, False)
       = Some (j', (w', Fin 2, True), SUCCESS) \<and> tx w' = [z] \<and>
     torque_command (dm_par (bus_world (gripper_bus 1 40))) 4 kd (Fin t) z \<and> \<bar>t\<bar> \<le> 3"
proof -
  let ?w = "bus_world (gripper_bus 1 40)"
  obtain j' w' z where m: "move_joint_with_torque squeezing_env squeezing_effector (Fin 2) squeezing_joint (?w, Fin 0, False)
       = Some (j', (w', Fin 2, True), SUCCESS)" "tx w' = [z]" using squeezing_step by blast
  have e: "ee_servos squeezing_env = can_servos quiet_env" "get_dir_invert (ee_servos squeezing_env) squeezing_joint \<in> {1, -1}"
    by (simp_all add: squeezing_env_def squeezing_facts)
  have w: "tx ?w = []" by (simp add: bus_world_def mit.defs gripper_bus_fields)
  have i: "id_of (servo_data.truncate gripper) = 4" by (simp add: gripper_fields servo_data.defs)
  from grip_force_bounded [OF e squeezing_parts(3-6) small_floats(4,5) _ _ _ m(1)]
  obtain kd t where "torque_command (dm_par ?w) 4 kd (Fin t) z" "\<bar>t\<bar> \<le> 3"
    by (auto simp: m(2) w squeezing_parts i small_floats)
  then show ?thesis using m by blast
qed

end
