(* ===== verification/Device_Invariant.thy ===== *)
theory Device_Invariant
  imports Device_Recovery
begin

text \<open>
  Invariants of a concrete device over the control cycle of \<^verbatim>\<open>native/pi_control/src/pi_device.cpp\<close>. The base class only writes its own
  fields; what a subclass adds changes through its virtual functions alone. So a predicate on the added part that the virtual functions
  keep is kept by the whole cycle, whatever path the cycle takes.
\<close>

locale device_invariant =
  fixes c :: "('a device_scheme, 'w) device_class" and P :: "'a device_scheme \<Rightarrow> bool"
  assumes base: "device.more d' = device.more d \<Longrightarrow> P d \<Longrightarrow> P d'"
    and calls: "device_call_of c f \<Longrightarrow> f s = Some (s', rc) \<Longrightarrow> P (fst s) \<Longrightarrow> P (fst s')"
    and ready: "vd_move_to_ready c s = Some (s', rc) \<Longrightarrow> P (fst s) \<Longrightarrow> P (fst s')"
    and clear: "P d \<Longrightarrow> P (vd_clear_buffers c t d)"
    and reset: "P d \<Longrightarrow> P (vd_reset_ready c d)"
    and ratio: "P d \<Longrightarrow> P (fst (vd_completion_ratio c d))"
begin

lemma calls_pair: "device_call_of c f \<Longrightarrow> f (d, n) = Some (s', rc) \<Longrightarrow> P d \<Longrightarrow> P (fst s')"
  using calls [of f "(d, n)"] by simp

lemmas call_intros = device_call_intros [THEN calls]
lemmas call_pairs = device_call_intros [THEN calls_pair]

lemma begin_keeps: "begin_ready_move c s = Some s' \<Longrightarrow> P (fst s) \<Longrightarrow> P (fst s')"
  by (auto simp: begin_ready_move_def split: option.splits intro!: reset dest!: call_pairs(5) intro: clear)

lemma command_keeps: "handle_command_request c s = Some s' \<Longrightarrow> P (fst s) \<Longrightarrow> P (fst s')"
  by (auto simp: handle_command_request_def split: option.splits if_splits dest!: begin_keeps intro: base [rotated])

lemma recovery_request_keeps: "handle_recovery_request c s = Some s' \<Longrightarrow> P (fst s) \<Longrightarrow> P (fst s')"
  by (auto simp: handle_recovery_request_def split: option.splits if_splits dest!: begin_keeps intro: base [rotated])

lemma timeout_keeps: "P d \<Longrightarrow> P (check_emergency_timeout_locked t d)"
  by (auto simp: check_emergency_timeout_locked_def intro: base [rotated])

lemma mark_keeps: "P (fst s) \<Longrightarrow> P (fst (mark_emergency_recovery_completed c s))"
  by (cases s) (auto simp: mark_emergency_recovery_completed_def Let_def info_device topic_stop_def intro: base [rotated])

lemma progress_keeps: "P (fst s) \<Longrightarrow> P (fst (publish_progress c s))"
proof -
  assume p: "P (fst s)"
  have upd: "P d \<Longrightarrow> P (d\<lparr>last_recovery_progress_publish := t\<rparr>)" "P d \<Longrightarrow> P (d\<lparr>last_ready_move_progress_publish := t\<rparr>)" for d t
    by (auto intro: base [rotated])
  have 1: "P (fst s1) \<Longrightarrow> P (fst (fst (recovery_progress c s1)))" for s1
    by (auto simp: recovery_progress_def Let_def split_beta intro: ratio)
  have 2: "P (fst s1) \<Longrightarrow> P (fst (publish_recovery_phase c q s1))" for q s1
    by (auto simp: publish_recovery_phase_def publish_recovery_progress_def Let_def info_device intro: upd)
  have 3: "P (fst s1) \<Longrightarrow> P (fst (publish_ready_phase c q s1))" for q s1
    by (auto simp: publish_ready_phase_def publish_ready_move_progress_def Let_def info_device split_beta intro: upd ratio)
  show ?thesis using 3 [OF 2 [OF 1 [OF p]]] by (simp add: publish_progress_def Let_def split_beta)
qed

lemma ready_cycle_keeps: "ready_cycle c s = Some (s', rc) \<Longrightarrow> P (fst s) \<Longrightarrow> P (fst s')"
proof -
  assume r: "ready_cycle c s = Some (s', rc)" and p: "P (fst s)"
  then obtain d n rc1 where m: "vd_move_to_ready c s = Some ((d, n), rc1)" by (auto simp: ready_cycle_def split: option.splits)
  have d: "P d" using ready [OF m p] by simp
  have f: "P (d\<lparr>completed_move_to_ready_request_id := i, move_to_ready_request_id := k\<rparr>)" for i k
    using d by (auto intro: base [rotated])
  have "vd_set_control_mode c (d_role d) NORMAL_OPERATION (d, n) = Some (s2, rc2) \<Longrightarrow> P (fst s2)" for s2 rc2
    using call_pairs(5) d by blast
  with r m d f show ?thesis by (fastforce simp: ready_cycle_def split: option.splits if_splits)
qed

lemma restore_keeps: "restore_after_command c s = Some s' \<Longrightarrow> P (fst s) \<Longrightarrow> P (fst s')"
proof -
  assume r: "restore_after_command c s = Some s'" and p: "P (fst s)"
  obtain d n where s: "s = (d, n)" by (cases s)
  show ?thesis
  proof (cases "move_to_ready_cmd_state d = CMD_MOVING")
    case True
    define s1 where "s1 = (d\<lparr>move_to_ready_cmd_state := CMD_RESTORE\<rparr>, n)"
    from r True obtain d2 n2 rc where m: "vd_set_control_mode c (d_role d) NORMAL_OPERATION s1 = Some ((d2, n2), rc)"
      by (auto simp: restore_after_command_def s s1_def split: option.splits)
    have "P (fst s1)" using p by (auto simp: s s1_def intro: base [rotated])
    from call_intros(5) [OF m this] have "P (vd_clear_buffers c (now_of c n2) d2)" by (simp add: clear)
    then show ?thesis
      using r True m by (auto simp: restore_after_command_def s s1_def Let_def topic_stop_def intro: base [rotated] split: if_splits)
  next
    case False
    with r p show ?thesis by (simp add: restore_after_command_def s)
  qed
qed

lemma operate_keeps: "operate_cycle c s = Some (s', rc) \<Longrightarrow> P (fst s) \<Longrightarrow> P (fst s')"
  by (auto simp: operate_cycle_def split: option.splits if_splits dest!: restore_keeps intro: call_pairs(3,4))

lemma publish_phase_keeps: "publish_phase c s = Some (s', rc) \<Longrightarrow> P (fst s) \<Longrightarrow> P (fst s')"
proof -
  have o: "publish_observation c s = Some (s', rc) \<Longrightarrow> P (fst s) \<Longrightarrow> P (fst s')" for s s' rc
    using call_intros(7) [of s] by (fastforce simp: publish_observation_def observe_def Let_def split: option.splits if_splits prod.splits)
  assume "publish_phase c s = Some (s', rc)" "P (fst s)"
  then show ?thesis by (auto simp: publish_phase_def split: if_splits intro: o base [rotated])
qed

lemma watchdog_keeps: "check_client_heartbeat_watchdog c s = Some s' \<Longrightarrow> P (fst s) \<Longrightarrow> P (fst s')"
proof -
  assume w: "check_client_heartbeat_watchdog c s = Some s'" and p: "P (fst s)"
  obtain d n where s: "s = (d, n)" by (cases s)
  define d1 where "d1 = d\<lparr>client_watchdog_tripped := True\<rparr>"
  define s1 where "s1 = set_pause_leader_command_listening True (d1, n)"
  have d1: "P d1" using p by (auto simp: s d1_def intro: base [rotated])
  then have s1: "P (fst s1)" by (simp add: s1_def set_pause_leader_command_listening_def)
  have f: "vd_force_feedback c False (Fin (-1)) (d1, n) = Some (s2, rc) \<Longrightarrow> P (fst s2)"
    and h: "vd_hold c s1 = Some (s2, rc) \<Longrightarrow> P (fst s2)" for s2 rc
    using call_intros(6) [of False "Fin (-1)" "(d1, n)"] call_intros(9) [of s1] d1 s1 by auto
  show ?thesis
    using w p d1 f h
    by (auto simp: s check_client_heartbeat_watchdog_def Let_def d1_def [symmetric] s1_def [symmetric] split: option.splits if_split_asm)
qed

lemma topic_phase_keeps: "topic_phase c s = Some (s', rc) \<Longrightarrow> P (fst s) \<Longrightarrow> P (fst s')"
proof -
  have t: "vd_topic_step c (d, n) = Some s2 \<Longrightarrow> P d \<Longrightarrow> P (fst s2)" for d n s2
    using call_intros(8) [of "(d, n)" s2 SUCCESS] by (simp add: as_call_def)
  have w: "check_client_heartbeat_watchdog c (d, n) = Some s2 \<Longrightarrow> P d \<Longrightarrow> P (fst s2)" for d n s2
    using watchdog_keeps [of "(d, n)"] by simp
  assume "topic_phase c s = Some (s', rc)" "P (fst s)"
  then show ?thesis
    by (auto simp: topic_phase_def split: if_splits option.splits dest!: publish_phase_keeps t w)
qed

lemma andthen_keeps:
  assumes "\<And>s s' rc. f s = Some (s', rc) \<Longrightarrow> P (fst s) \<Longrightarrow> P (fst s')" "\<And>s s' rc. g s = Some (s', rc) \<Longrightarrow> P (fst s) \<Longrightarrow> P (fst s')"
    and "andthen f g s = Some (s', rc)" "P (fst s)"
  shows "P (fst s')"
proof -
  obtain s1 rc1 where f: "f s = Some (s1, rc1)" using assms(3) by (auto simp: andthen_def split: option.splits)
  have s1: "P (fst s1)" by (rule assms(1) [OF f assms(4)])
  show ?thesis
  proof (cases "rc1 = SUCCESS")
    case True
    with assms(3) f have "g s1 = Some (s', rc)" by (simp add: andthen_def)
    then show ?thesis using s1 by (rule assms(2))
  next
    case False
    with assms(3) f s1 show ?thesis by (simp add: andthen_def)
  qed
qed

lemma work_keeps: "work_phase c s = Some (s', rc) \<Longrightarrow> P (fst s) \<Longrightarrow> P (fst s')"
  by (auto simp: work_phase_def split: if_splits intro: ready_cycle_keeps operate_keeps)

lemma refresh_keeps: "refresh_heartbeat c s = Some (s', rc) \<Longrightarrow> P (fst s) \<Longrightarrow> P (fst s')"
  by (auto simp: refresh_heartbeat_def intro: base [rotated])

lemma read_keeps: "read_phase c s = Some (s', rc) \<Longrightarrow> P (fst s) \<Longrightarrow> P (fst s')"
  by (auto simp: read_phase_def split: option.splits elim: call_intros(1))

lemma cycle_keeps:
  "andthen (work_phase c) (andthen (vd_write c) (andthen (topic_phase c) (refresh_heartbeat c))) s = Some (s', rc) \<Longrightarrow> P (fst s) \<Longrightarrow> P (fst s')"
  by (elim andthen_keeps [rotated 2]) (blast intro: work_keeps call_intros(2) topic_phase_keeps refresh_keeps)+

lemma after_read_keeps: "after_read c s = Some (s', rc) \<Longrightarrow> P (fst s) \<Longrightarrow> P (fst s')"
proof -
  assume a: "after_read c s = Some (s', rc)" and p: "P (fst s)"
  then obtain s1 where 1: "handle_command_request c s = Some s1" by (auto simp: after_read_def split: option.splits)
  with a obtain d n where 2: "handle_recovery_request c s1 = Some (d, n)" by (auto simp: after_read_def split: option.splits)
  define d1 where "d1 = check_emergency_timeout_locked (now_of c n) d"
  have d1: "P d1" using timeout_keeps recovery_request_keeps [OF 2 command_keeps [OF 1 p]] by (simp add: d1_def)
  show ?thesis
  proof (cases "emergency_state d1 = EM_TIMED_OUT")
    case True
    with a 1 2 have "s' = mark_emergency_recovery_completed c (d1, n)" by (simp add: after_read_def Let_def d1_def [symmetric])
    with d1 show ?thesis by (simp add: mark_keeps)
  next
    case False
    then have "andthen (work_phase c) (andthen (vd_write c) (andthen (topic_phase c) (refresh_heartbeat c)))
        (publish_progress c (d1, n)) = Some (s', rc)"
      using a 1 2 by (simp add: after_read_def Let_def d1_def [symmetric])
    then show ?thesis by (rule cycle_keeps) (simp add: progress_keeps d1)
  qed
qed

lemma step_keeps: "device_step c s = Some (s', rc) \<Longrightarrow> P (fst s) \<Longrightarrow> P (fst s')"
  unfolding device_step_def by (erule andthen_keeps [rotated 2]) (auto intro: read_keeps after_read_keeps)

lemma enter_keeps: "P (fst s) \<Longrightarrow> P (fst (enter_emergency_recovery c cause j s))"
  by (cases s) (auto simp: enter_emergency_recovery_def mark_joint_failed_during_recovery_def set_pause_leader_command_listening_def
      Let_def info_device intro: base [rotated])

end

end
