(* ===== verification/Arm.thy ===== *)
theory Arm
  imports Effector_Class Device_Invariant Servo_Dm
begin

text \<open>
  The arm, \<^verbatim>\<open>native/pi_control/src/pi_device_arm.cpp\<close> and its CAN and serial subclasses: a device with joints that owns an optional
  end-effector on the same driver and topic. Control modes, the calibration gravity float with its runaway watchdog, reading with
  tolerance of partial failures, progress of a ready move, the ready move itself (all joints in parallel, or one after the other),
  operation as a leader and as a follower with the synchronised slew. The dynamics library behind the gravity
  compensation is a function of the model, as are the driver's group calls and its set of dead servos.
\<close>

section \<open>State\<close>

datatype MovingMode = MOVING_INVALID | SEQUENTIAL | PARALLEL

record ('s, 'b) arm = device +
  a_joints :: "'s joint list"
  moving_mode :: MovingMode
  a_tele_pos :: "flt list"
  a_tele_vel :: "flt list"
  a_tele_tor :: "flt list"
  max_vel :: "flt list"
  a_follower_pos :: "flt list"
  a_follower_vel :: "flt list"
  a_follower_tor :: "flt list"
  a_follower_temperature :: "flt list"
  a_follower_idc_current :: "flt list"
  follower_pos_filter :: "'b filter_obj list"
  follower_vel_filter :: "'b filter_obj list"
  follower_tor_filter :: "'b filter_obj list"
  a_target_tor :: "flt list"
  current_motor_positions :: "flt list"
  slew_goal_positions :: "flt list"
  follower_slew_last_time :: nat
  joint_init_sequence :: "int list"
  moving_joint_index :: nat
  p_effector :: "('s, 'b) effector option"
  dof_effector :: int
  servo_num_effector :: int
  enabled_gravity_compensation :: bool
  is_ready_arm :: bool
  gravity_float_active :: bool
  gravity_float_baseline :: "flt list"
  gravity_float_abort_rad :: flt
  ready_move_initial_disp_to_home :: "(int \<times> flt) list"
  servo_param_publish_index :: int

text \<open>
  The collaborators: those of the effector, the dead servos the driver reports (in ascending order), the torques
  of the dynamics model, and the codec report of a servo.
\<close>

record ('s, 'b, 'w) arm_world =
  aw_world :: "('s, 'b, 'w) effector_world"
  aw_class :: DeviceClass
  aw_dead :: "'w \<Rightarrow> int list"
  aw_gravity :: "flt list \<Rightarrow> flt list \<Rightarrow> flt list \<times> ReturnCode"
  aw_has_gravity_model :: bool
  aw_report :: "'s \<Rightarrow> 'w \<Rightarrow> mit_codec_report option"

type_synonym ('s, 'b, 'z, 'w) acall = "(('s, 'b, 'z) arm_scheme, 'w) dcall"

abbreviation aw_env :: "('s, 'b, 'w) arm_world \<Rightarrow> ('s, 'w) effector_env" where
  "aw_env A \<equiv> ew_env (aw_world A)"

abbreviation aw_servos :: "('s, 'b, 'w) arm_world \<Rightarrow> ('s, 'w) servo_class" where
  "aw_servos A \<equiv> ee_servos (aw_env A)"

section \<open>Loops over the joints and the effector\<close>

definition with_arm_joints ::
  "(('s joint list \<times> 'w \<times> 'o) option) \<Rightarrow> ('s, 'b, 'z) arm_scheme \<times> 'w node
   \<Rightarrow> ((('s, 'b, 'z) arm_scheme \<times> 'w node) \<times> 'o) option" where
  "with_arm_joints r s =
     (case r of None \<Rightarrow> None | Some (js, w, x) \<Rightarrow> Some (((fst s)\<lparr>a_joints := js\<rparr>, (snd s)\<lparr>n_drv := w\<rparr>), x))"

definition each_arm_joint :: "('s, 'w) effector_env \<Rightarrow> ('s, 'w) joint_call \<Rightarrow> ('s, 'b, 'z, 'w) acall" where
  "each_arm_joint E f s = with_arm_joints (until_error (jcall E (fst s) f) (a_joints (fst s)) (n_drv (snd s))) s"

text \<open>A vector beside the joints; an index behind its end is undefined.\<close>

definition beside :: "'x list \<Rightarrow> 's joint list \<Rightarrow> ('s joint \<times> 'x option) list" where
  "beside xs js = zip js (map Some xs @ replicate (length js) None)"

definition with_value :: "('x \<Rightarrow> 'j \<Rightarrow> 'w \<Rightarrow> ('j \<times> 'w \<times> 'o) option) \<Rightarrow> 'j \<times> 'x option \<Rightarrow> 'w \<Rightarrow> (('j \<times> 'x option) \<times> 'w \<times> 'o) option" where
  "with_value f p w =
     (case p of (j, None) \<Rightarrow> None | (j, Some x) \<Rightarrow> map_option (\<lambda>(j, w, out). ((j, Some x), w, out)) (f x j w))"

definition joints_only :: "(('j \<times> 'y) list \<times> 'w \<times> 'o) option \<Rightarrow> ('j list \<times> 'w \<times> 'o) option" where
  "joints_only r = map_option (\<lambda>(ps, w, out). (map fst ps, w, out)) r"

definition each_joint_with :: "('s, 'w) effector_env \<Rightarrow> ('x \<Rightarrow> ('s, 'w) joint_call) \<Rightarrow> 'x list \<Rightarrow> ('s, 'b, 'z, 'w) acall" where
  "each_joint_with E f xs s =
     with_arm_joints (joints_only (until_error (with_value (\<lambda>x. jcall E (fst s) (f x))) (beside xs (a_joints (fst s))) (n_drv (snd s)))) s"

text \<open>A call on the effector, which works on the same topic and driver.\<close>

definition on_effector :: "('s, 'b, unit, 'w) ecall \<Rightarrow> ('s, 'b, 'z, 'w) acall" where
  "on_effector f s =
     (case p_effector (fst s) of
        None \<Rightarrow> Some (s, SUCCESS)
      | Some e \<Rightarrow> (case f (e, snd s) of None \<Rightarrow> None | Some ((e, n), rc) \<Rightarrow> Some (((fst s)\<lparr>p_effector := Some e\<rparr>, n), rc)))"

section \<open>Requests, control modes and buffers\<close>

definition arm_request_move_to_ready_position :: "int \<Rightarrow> ('s, 'b, 'z) arm_scheme \<Rightarrow> ('s, 'b, 'z) arm_scheme" where
  "arm_request_move_to_ready_position request_id a =
     (request_move_to_ready_position request_id a)\<lparr>p_effector := map_option (request_move_to_ready_position request_id) (p_effector a)\<rparr>"

definition arm_request_move_to_ready_and_stop :: "int \<Rightarrow> ('s, 'b, 'z) arm_scheme \<Rightarrow> ('s, 'b, 'z) arm_scheme" where
  "arm_request_move_to_ready_and_stop request_id a =
     (request_move_to_ready_and_stop request_id a)\<lparr>p_effector := map_option (request_move_to_ready_position request_id) (p_effector a)\<rparr>"

definition arm_rest :: "('s, 'w) servo_class \<Rightarrow> 's joint \<Rightarrow> 's joint" where
  "arm_rest c j = (let current = joint_pos_relative c j in j\<lparr>target_pos := current, adjusted_target_pos := current, prev_target_pos := current\<rparr>)"

definition reset_slew_targets_to_current :: "('s, 'w) servo_class \<Rightarrow> nat \<Rightarrow> ('s, 'b, 'z) arm_scheme \<Rightarrow> ('s, 'b, 'z) arm_scheme" where
  "reset_slew_targets_to_current c t a = a\<lparr>a_joints := map (arm_rest c) (a_joints a), follower_slew_last_time := t\<rparr>"

definition rest_now :: "('s, 'w) effector_env \<Rightarrow> ('s, 'b, 'z) arm_scheme \<times> 'w node \<Rightarrow> ('s, 'b, 'z) arm_scheme" where
  "rest_now E s = reset_slew_targets_to_current (ee_servos E) (ee_now E (n_drv (snd s))) (fst s)"

definition switch_joints :: "('s, 'w) effector_env \<Rightarrow> bool \<Rightarrow> ('s, 'b, 'z, 'w) acall" where
  "switch_joints E follower_like s =
     (if follower_like then each_arm_joint E (joint_change_control_mode_for_follower (ee_servos E)) s
      else each_arm_joint E (joint_change_control_mode_for_leader (ee_servos E) (ee_now E (n_drv (snd s)))) s)"

definition effector_follows_mode :: "('s, 'b, 'w) arm_world \<Rightarrow> ControlModeIntent \<Rightarrow> ('s, 'b, 'z, 'w) acall" where
  "effector_follows_mode A intent s =
     (if is_in_emergency_recovery (fst s) then Some (s, SUCCESS)
      else on_effector
             (\<lambda>x. effector_mode (aw_world A) (if intent = READY_MOVE_OVERRIDE then FOLLOWER else d_role (fst x)) intent x) s)"

definition arm_set_control_mode :: "('s, 'b, 'w) arm_world \<Rightarrow> Role \<Rightarrow> ControlModeIntent \<Rightarrow> ('s, 'b, 'z, 'w) acall" where
  "arm_set_control_mode A target_role intent =
     (let follower_like = (intent = READY_MOVE_OVERRIDE \<or> target_role = FOLLOWER)
      in andthen (switch_joints (aw_env A) follower_like)
           (andthen (effector_follows_mode A intent)
             (\<lambda>s. Some (if follower_like then ((rest_now (aw_env A) s)\<lparr>gravity_float_active := False\<rparr>, snd s) else s, SUCCESS))))"

definition arm_can_set_control_mode :: "('s, 'b, 'w) arm_world \<Rightarrow> Role \<Rightarrow> ControlModeIntent \<Rightarrow> ('s, 'b, 'z, 'w) acall" where
  "arm_can_set_control_mode A target_role intent s =
     Some (if target_role = FOLLOWER \<or> intent = READY_MOVE_OVERRIDE then (rest_now (aw_env A) s, snd s) else s, SUCCESS)"

definition arm_serial_set_control_mode :: "('s, 'b, 'w) arm_world \<Rightarrow> Role \<Rightarrow> ControlModeIntent \<Rightarrow> ('s, 'b, 'z, 'w) acall" where
  "arm_serial_set_control_mode A target_role intent =
     (if intent = READY_MOVE_OVERRIDE \<or> target_role = FOLLOWER then switch_joints (aw_env A) True
      else andthen (switch_joints (aw_env A) False) (effector_follows_mode A intent))"

definition arm_mode :: "('s, 'b, 'w) arm_world \<Rightarrow> Role \<Rightarrow> ControlModeIntent \<Rightarrow> ('s, 'b, 'z, 'w) acall" where
  "arm_mode A =
     (if aw_class A = DeviceArmCan_class then arm_can_set_control_mode A
      else if aw_class A = DeviceArmSerial_class then arm_serial_set_control_mode A
      else arm_set_control_mode A)"

definition arm_clear_command_buffers :: "('s, 'w) servo_class \<Rightarrow> nat \<Rightarrow> ('s, 'b, 'z) arm_scheme \<Rightarrow> ('s, 'b, 'z) arm_scheme" where
  "arm_clear_command_buffers c t a =
     reset_slew_targets_to_current c t
       (a\<lparr>a_tele_pos := overwrite (a_tele_pos a) (map (joint_pos_relative c) (a_joints a)),
          a_tele_vel := overwrite (a_tele_vel a) (map (\<lambda>_. Fin 0) (a_joints a)),
          a_tele_tor := overwrite (a_tele_tor a) (map (\<lambda>_. Fin 0) (a_joints a)),
          a_joints := map (hold_buffers c) (a_joints a)\<rparr>)"

definition arm_reset_ready :: "('s, 'b, 'z) arm_scheme \<Rightarrow> ('s, 'b, 'z) arm_scheme" where
  "arm_reset_ready a =
     (base_reset_ready a)\<lparr>is_ready_arm := False, moving_joint_index := 0, ready_move_initial_disp_to_home := []\<rparr>"

section \<open>Runtime commands\<close>

definition set_runtime_gravity_float :: "('s, 'b, 'w) arm_world \<Rightarrow> bool \<Rightarrow> flt \<Rightarrow> ('s, 'b, 'z, 'w) acall" where
  "set_runtime_gravity_float A on abort_drift_rad s =
     (let a = fst s; E = aw_env A
      in if d_role a \<noteq> FOLLOWER then Some (s, NOT_SUPPORTED)
         else if on = gravity_float_active a then Some (s, SUCCESS)
         else if on
         then (if \<not> has_algo a then Some (s, NOT_SUPPORTED)
               else if \<not> is_finite abort_drift_rad \<or> flt_le abort_drift_rad (Fin 0) then Some (s, INVALID_PARAM)
               else andthen (switch_joints E False) (\<lambda>s. Some (((fst s)\<lparr>gravity_float_active := True\<rparr>, snd s), SUCCESS))
                      (a\<lparr>gravity_float_baseline := map (joint_pos_relative (ee_servos E)) (a_joints a),
                         gravity_float_abort_rad := abort_drift_rad\<rparr>, snd s))
         else andthen (switch_joints E True) (\<lambda>s. Some (((rest_now E s)\<lparr>gravity_float_active := False\<rparr>, snd s), SUCCESS)) s)"

definition set_runtime_torq_rescale :: "flt list \<Rightarrow> ('s, 'b, 'z, 'w) acall" where
  "set_runtime_torq_rescale values s =
     (let a = fst s
      in if int (length values) \<noteq> dof a then Some (s, INVALID_PARAM)
         else if list_ex (\<lambda>v. \<not> is_finite v \<or> flt_lt v (Fin 0)) values then Some (s, INVALID_PARAM)
         else if length values < length (a_joints a) then None
         else Some ((a\<lparr>a_joints := map2 (\<lambda>j v. j\<lparr>torq_rescale := v\<rparr>) (a_joints a) values\<rparr>, snd s), SUCCESS))"

text \<open>\<^verbatim>\<open>std::lround\<close> rounds halves away from zero.\<close>

fun lround :: "flt \<Rightarrow> int option" where
  "lround (Fin a) = (let n = (if 0 \<le> a then \<lfloor>a + 1/2\<rfloor> else - \<lfloor>1/2 - a\<rfloor>) in if - (2 ^ 63) \<le> n \<and> n < 2 ^ 63 then Some n else None)"
| "lround _ = None"

definition DEVICE_INFO_SERVO_PARAM :: int where "DEVICE_INFO_SERVO_PARAM = 33"

fun range_floats :: "(flt \<times> flt) option \<Rightarrow> flt list" where
  "range_floats (Some (lo, hi)) = [lo, hi]"
| "range_floats None = [Fin 0, Fin 0]"

definition publish_next_servo_param ::
  "('s, 'b, 'w) arm_world \<Rightarrow> (('s, 'b, 'z) arm_scheme, 'w) device_class \<Rightarrow> ('s, 'b, 'z, 'w) acall" where
  "publish_next_servo_param A c s =
     (let a = fst s; k = int (length (a_joints a))
      in if a_joints a = [] then Some (s, SUCCESS)
         else let index = servo_param_publish_index a mod k;
                  a = a\<lparr>servo_param_publish_index := (index + 1) mod k\<rparr>;
                  j = a_joints a ! nat index
              in if \<not> has_reference j then Some ((a, snd s), SUCCESS)
                 else case aw_report A (reference_servo j) (n_drv (snd s)) of
                        None \<Rightarrow> Some ((a, snd s), SUCCESS)
                      | Some r \<Rightarrow>
                          (case (lround (fmul binary32 (rep_pos_kp r) (Fin 1000)), lround (fmul binary32 (rep_pos_kd r) (Fin 1000))) of
                             (Some kp, Some kd) \<Rightarrow>
                               Some (publish_device_info c DEVICE_INFO_SERVO_PARAM
                                       ([fst (codec_vel r), snd (codec_vel r), fst (codec_tor r), snd (codec_tor r)] @
                                        range_floats (rep_spd r) @ range_floats (rep_tor r) @ [torq_rescale j])
                                       [index, if rep_spd r = None then 0 else 1, if rep_tor r = None then 0 else 1,
                                        if follower_gravity_compensation a then 1 else 0, int32 kp, int32 kd]
                                       (a, snd s))
                           | _ \<Rightarrow> None))"

definition arm_hold :: "('s, 'b, 'w) arm_world \<Rightarrow> ('s, 'b, 'z, 'w) acall" where
  "arm_hold A s =
     andthen (if gravity_float_active (fst s) then set_runtime_gravity_float A False (Fin 0) else (\<lambda>s. Some (s, SUCCESS)))
       (runtime_hold (arm_clear_command_buffers (aw_servos A)) (ee_now (aw_env A))) s"

definition arm_force_feedback :: "('s, 'b, 'w) arm_world \<Rightarrow> bool \<Rightarrow> flt \<Rightarrow> ('s, 'b, 'z, 'w) acall" where
  "arm_force_feedback A on gain =
     andthen (set_runtime_force_feedback (arm_mode A) on gain)
       (on_effector (set_runtime_force_feedback (effector_mode (aw_world A)) on gain))"

definition force_feedback_gain :: "flt \<Rightarrow> ('a device_scheme, 'w) dcall" where
  "force_feedback_gain gain s = (let (d, rc) = set_runtime_force_feedback_gain gain (fst s) in Some ((d, snd s), rc))"

definition arm_force_feedback_gain :: "flt \<Rightarrow> ('s, 'b, 'z, 'w) acall" where
  "arm_force_feedback_gain gain = andthen (force_feedback_gain gain) (on_effector (force_feedback_gain gain))"

section \<open>Gravity torques\<close>

text \<open>The measured pose goes to the dynamics model, which writes the torques.\<close>

definition model_torques :: "('s, 'b, 'w) arm_world \<Rightarrow> ('s, 'b, 'z) arm_scheme \<Rightarrow> (('s, 'b, 'z) arm_scheme \<times> ReturnCode) option" where
  "model_torques A a =
     (let c = aw_servos A;
          pose = map (\<lambda>j. fmul binary32 (joint_pos_relative c j) (of_int_f binary32 (get_dir_invert c j))) (a_joints a)
      in if length (current_motor_positions a) < length (a_joints a) then None
         else let positions = overwrite (current_motor_positions a) pose; (tor, rc) = aw_gravity A positions (a_target_tor a)
              in Some (a\<lparr>current_motor_positions := positions, a_target_tor := tor\<rparr>, rc))"

definition zero_torques :: "('s, 'b, 'z) arm_scheme \<Rightarrow> ('s, 'b, 'z) arm_scheme" where
  "zero_torques a = a\<lparr>a_target_tor := map (\<lambda>_. Fin 0) (a_target_tor a)\<rparr>"

definition adjust_torques :: "('s joint \<Rightarrow> flt \<Rightarrow> flt) \<Rightarrow> ('s, 'b, 'z) arm_scheme \<Rightarrow> ('s, 'b, 'z) arm_scheme option" where
  "adjust_torques f a =
     (if length (a_target_tor a) < length (a_joints a) then None
      else Some (a\<lparr>a_target_tor := overwrite (a_target_tor a) (map2 f (a_joints a) (a_target_tor a))\<rparr>))"

definition scaled_torque :: "'s joint \<Rightarrow> flt \<Rightarrow> flt" where
  "scaled_torque j t = fmul binary32 t (gravity_comp_factor j)"

definition damped_torque :: "('s, 'w) servo_class \<Rightarrow> 's joint \<Rightarrow> flt \<Rightarrow> flt" where
  "damped_torque c j t = fsub binary32 (scaled_torque j t) (fmul binary32 (follow_viscous_damping j) (joint_vel c j))"

definition adjusted_model_torques ::
  "('s, 'b, 'w) arm_world \<Rightarrow> ('s joint \<Rightarrow> flt \<Rightarrow> flt) \<Rightarrow> ('s, 'b, 'z) arm_scheme \<Rightarrow> (('s, 'b, 'z) arm_scheme \<times> ReturnCode) option" where
  "adjusted_model_torques A f a =
     (case model_torques A a of
        None \<Rightarrow> None
      | Some (a, rc) \<Rightarrow> (if rc \<noteq> SUCCESS then Some (a, rc) else map_option (\<lambda>a. (a, SUCCESS)) (adjust_torques f a)))"

definition update_follower_feedforward_torques ::
  "('s, 'b, 'w) arm_world \<Rightarrow> ('s, 'b, 'z) arm_scheme \<Rightarrow> (('s, 'b, 'z) arm_scheme \<times> ReturnCode) option" where
  "update_follower_feedforward_torques A a =
     (let a = zero_torques a
      in if \<not> follower_gravity_compensation a then Some (a, SUCCESS)
         else if \<not> has_algo a then Some (a, NOT_INITIALIZED)
         else adjusted_model_torques A (damped_torque (aw_servos A)) a)"

section \<open>Parking, reading and writing\<close>

definition arm_park_safely :: "('s, 'b, 'w) arm_world \<Rightarrow> ('s, 'b, 'z, 'w) acall" where
  "arm_park_safely A s =
     (case on_effector (eff_park_safely (aw_env A)) s of
        None \<Rightarrow> None
      | Some (s, effector_rc) \<Rightarrow>
          (case with_arm_joints (visit_all (jcall (aw_env A) (fst s) (joint_park_safely (aw_servos A))) (a_joints (fst s)) (n_drv (snd s))) s of
             None \<Rightarrow> None | Some (s, rcs) \<Rightarrow> Some (s, first_error (effector_rc # rcs))))"

definition all_servo_ids :: "('s, 'w) servo_class \<Rightarrow> 's joint list \<Rightarrow> int list" where
  "all_servo_ids c js = fold (\<lambda>j ids. fst (get_servo_ids c j ids)) js []"

text \<open>The dead servos, without those of an effector that has not started yet.\<close>

definition dead_servos :: "('s, 'b, 'w) arm_world \<Rightarrow> ('s, 'b, 'z) arm_scheme \<Rightarrow> 'w \<Rightarrow> int list" where
  "dead_servos A a w =
     (case p_effector a of
        Some e \<Rightarrow> (if is_ready e then aw_dead A w
                   else filter (\<lambda>sid. sid \<notin> set (all_servo_ids (aw_servos A) (joints e))) (aw_dead A w))
      | None \<Rightarrow> aw_dead A w)"

definition note_dead :: "int list \<Rightarrow> 'a device_scheme \<Rightarrow> 'a device_scheme" where
  "note_dead dead d =
     (let in_recovery = is_in_emergency_recovery d; startup = (\<not> is_ready d);
          d = set_last_failed_joint_id (hd dead) d;
          d = (if in_recovery \<or> startup then fold (\<lambda>sid. mark_joint_failed_during_recovery (int16 sid)) dead d else d)
      in if \<not> in_recovery \<and> startup then d\<lparr>is_normal_status := False\<rparr> else d)"

definition arm_group_read :: "('s, 'b, 'w) arm_world \<Rightarrow> ('s, 'b, 'z) arm_scheme \<times> 'w node \<Rightarrow> (('s, 'b, 'z) arm_scheme \<times> 'w node) \<times> ReturnCode" where
  "arm_group_read A s =
     (if \<not> is_driver_created_by_this (fst s) then (s, SUCCESS)
      else let (w, rc) = ee_group_read (aw_env A) (n_drv (snd s)); n = (snd s)\<lparr>n_drv := w\<rparr>; dead = dead_servos A (fst s) w
           in if rc = SUCCESS \<or> dead = [] then ((fst s, n), SUCCESS) else ((note_dead dead (fst s), n), rc))"

definition probe_effector :: "('s, 'w) effector_env \<Rightarrow> ('s, 'b, 'z) arm_scheme \<times> 'w node \<Rightarrow> (('s, 'b, 'z) arm_scheme \<times> 'w node) option" where
  "probe_effector E s =
     (case p_effector (fst s) of
        None \<Rightarrow> Some s
      | Some e \<Rightarrow>
          (case probe_failed_servo_id E (e, snd s) of
             None \<Rightarrow> None
           | Some ((e, n), sid) \<Rightarrow>
               (let a = (fst s)\<lparr>p_effector := Some e\<rparr> in Some (if 0 \<le> sid then set_last_failed_joint_id sid a else a, n))))"

definition arm_read_hardware_values :: "('s, 'b, 'w) arm_world \<Rightarrow> ('s, 'b, 'z, 'w) acall" where
  "arm_read_hardware_values A s =
     (let E = aw_env A; tolerate = (is_in_emergency_recovery (fst s) \<or> \<not> is_ready (fst s))
      in if is_driver_created_by_this (fst s) \<and> \<not> has_driver (fst s) then Some (s, FAIL)
         else let (s, group_rc) = arm_group_read A s
              in case with_arm_joints (scan (ends_read tolerate) (read_joint E (fst s) (failed_joint_ids (fst s))) (a_joints (fst s)) (n_drv (snd s))) s of
                   None \<Rightarrow> None
                 | Some ((a, n), outs) \<Rightarrow>
                     (let s = (fold (note_read tolerate) outs a, n); rc = read_result tolerate group_rc outs;
                          any_joint_success = list_ex (\<lambda>x. x \<noteq> None \<and> snd (the x) = SUCCESS) outs
                      in if \<not> tolerate \<and> \<not> list_ex (ends_read tolerate) outs \<and> group_rc \<noteq> SUCCESS \<and> any_joint_success \<and>
                            last_failed_joint_id (fst s) < 0
                         then map_option (\<lambda>s. (s, rc)) (probe_effector E s)
                         else Some (s, rc)))"

definition arm_write_hardware_values :: "('s, 'b, 'w) arm_world \<Rightarrow> ('s, 'b, 'z, 'w) acall" where
  "arm_write_hardware_values A s =
     (if is_read_only (fst s) \<or> \<not> is_driver_created_by_this (fst s) then Some (s, SUCCESS)
      else if \<not> has_driver (fst s) then Some (s, FAIL)
      else let (w, rc) = ee_group_write (aw_env A) (n_drv (snd s))
           in Some ((fst s, (snd s)\<lparr>n_drv := w\<rparr>), if rc \<noteq> SUCCESS \<and> is_in_emergency_recovery (fst s) then SUCCESS else rc))"

section \<open>Progress of a ready move\<close>

definition home_distance :: "('s, 'w) servo_class \<Rightarrow> 's joint \<Rightarrow> flt" where
  "home_distance c j = fabs (fsub binary32 (get_home_pos_relative c j) (joint_pos_relative c j))"

definition counted :: "('s, 'w) servo_class \<Rightarrow> int list \<Rightarrow> 's joint \<Rightarrow> bool" where
  "counted c failed j \<longleftrightarrow> 0 \<le> reference_servo_id c j \<and> reference_servo_id c j \<notin> set failed"

definition initial_distances :: "('s, 'w) servo_class \<Rightarrow> int list \<Rightarrow> 's joint list \<Rightarrow> (int \<times> flt) list" where
  "initial_distances c failed js = foldl (\<lambda>m j. (reference_servo_id c j, home_distance c j) # m) [] (filter (counted c failed) js)"

definition joint_progress :: "flt \<Rightarrow> flt \<Rightarrow> flt" where
  "joint_progress initial remaining =
     (if flt_le initial (lit32 (1 / 10 ^ 6)) then Fin 1 else clamp01 (fsub binary32 (Fin 1) (fdiv binary32 remaining initial)))"

definition add_progress :: "('s, 'w) servo_class \<Rightarrow> (int \<times> flt) list \<times> flt \<Rightarrow> 's joint \<Rightarrow> (int \<times> flt) list \<times> flt" where
  "add_progress c x j =
     (let sid = reference_servo_id c j; remaining = home_distance c j;
          (m, initial) = (case map_of (fst x) sid of Some d \<Rightarrow> (fst x, d) | None \<Rightarrow> ((sid, remaining) # fst x, remaining))
      in (m, fadd binary32 (snd x) (joint_progress initial remaining)))"

definition arm_completion_ratio :: "('s, 'w) servo_class \<Rightarrow> ('s, 'b, 'z) arm_scheme \<Rightarrow> ('s, 'b, 'z) arm_scheme \<times> flt" where
  "arm_completion_ratio c a =
     (let failed = (if is_in_emergency_recovery a then failed_joint_ids a else []); js = filter (counted c failed) (a_joints a);
          m = ready_move_initial_disp_to_home a
      in if is_ready_arm a then (a, Fin 1)
         else if a_joints a = [] then (a, Fin 0)
         else if is_in_emergency_recovery a \<and> length (a_joints a) \<le> length failed then (a, Fin 1)
         else let (m, total) = foldl (add_progress c) (if m = [] then initial_distances c failed js else m, Fin 0) js
              in (a\<lparr>ready_move_initial_disp_to_home := m\<rparr>,
                  if js = [] then Fin 1 else fdiv binary32 total (of_int_f binary32 (int (length js)))))"

section \<open>The ready move\<close>

definition arm_ready_start :: "('s, 'w) servo_class \<Rightarrow> 's joint \<Rightarrow> 's joint" where
  "arm_ready_start c j = reset_stuck_counter c (j\<lparr>target_pos := get_home_pos_relative c j, prev_target_pos := joint_pos_relative c j\<rparr>)"

definition arm_ready_step :: "'a device_scheme \<Rightarrow> flt" where
  "arm_ready_step d = ready_move_step_rad (ready_move_velocity d) d"

definition arm_ready_prepare :: "('s, 'w) servo_class \<Rightarrow> ('s, 'b, 'z) arm_scheme \<Rightarrow> ('s, 'b, 'z) arm_scheme option" where
  "arm_ready_prepare c a =
     (if 1 \<le> init_count a then Some a
      else let far = foldl (\<lambda>m j. fmax m (home_distance c j)) (Fin 0) (a_joints a)
           in ready_move_budget_init far (arm_ready_step a) (a\<lparr>reached_cnt := 0, a_joints := map (arm_ready_start c) (a_joints a)\<rparr>))"

text \<open>One joint of the parallel move; a joint that failed is left alone, and its torque is not read.\<close>

definition arm_ready_joint ::
  "('s, 'w) effector_env \<Rightarrow> 'a device_scheme \<Rightarrow> int list \<Rightarrow> flt \<Rightarrow> 's joint \<times> flt option \<Rightarrow> 'w
   \<Rightarrow> (('s joint \<times> flt option) \<times> 'w \<times> ready_report option) option" where
  "arm_ready_joint E d failed step p w =
     (let c = ee_servos E; j = fst p; sid = reference_servo_id c j
      in if skips c failed j then Some (p, w, None)
         else let (j, is_stuck) = update_and_check_stuck c (sees_device c d j);
                  current = joint_pos_relative c j;
                  displacement = fabs (fsub binary32 (target_pos j) current);
                  outside = flt_lt (fadd binary32 (pos_error_margin j) READY_MOVE_TOLERANCE_HYSTERESIS_RAD) displacement;
                  new_pos = next_ready_command step (pos_error_margin j) (target_pos j) current (prev_target_pos j)
              in case snd p of
                   None \<Rightarrow> None
                 | Some tor \<Rightarrow>
                     (case device_move c d new_pos tor j w of
                        None \<Rightarrow> None
                      | Some (j, w, rc) \<Rightarrow>
                          Some ((j, Some tor), w,
                                Some \<lparr>rr_sid = sid, rr_stuck = is_stuck, rr_outside = outside, rr_displacement = displacement, rr_code = rc\<rparr>)))"

definition first_stuck_id :: "ready_report list \<Rightarrow> int" where
  "first_stuck_id rs = (case filter (\<lambda>r. stopped_short r \<and> 0 \<le> rr_sid r) rs of [] \<Rightarrow> -1 | r # _ \<Rightarrow> rr_sid r)"

definition arrive :: "('s, 'b, 'z) arm_scheme \<Rightarrow> ('s, 'b, 'z) arm_scheme" where
  "arrive a = a\<lparr>is_ready_arm := True, init_count := 0\<rparr>"

definition parallel_finish :: "ready_report list \<Rightarrow> ('s, 'b, 'z) arm_scheme \<Rightarrow> ('s, 'b, 'z) arm_scheme" where
  "parallel_finish rs a =
     (let (a, exhausted) = ready_move_budget_spend a;
          a = (if rs = [] then arrive a
               else if \<not> list_ex unsettled rs
               then let a = a\<lparr>reached_cnt := reached_cnt a + 1\<rparr> in if DEVICE_ARRIVED_CONFIRM_CNT < reached_cnt a then arrive a else a
               else if exhausted then arrive (blame (worst_joint rs) a)
               else a\<lparr>is_ready_arm := False\<rparr>)
      in if is_ready_arm a \<and> list_ex stopped_short rs then blame (first_stuck_id rs) a else a)"

definition move_parallel ::
  "('s, 'w) effector_env \<Rightarrow> (('s, 'b, 'z) arm_scheme \<times> 'w node \<Rightarrow> ('s, 'b, 'z) arm_scheme \<times> 'w node) \<Rightarrow> ('s, 'b, 'z, 'w) acall" where
  "move_parallel E mark s =
     (let a = fst s
      in case with_arm_joints (joints_only (scan (\<lambda>_. False) (arm_ready_joint E a (failed_joint_ids a) (arm_ready_step a))
                                              (beside (a_target_tor a) (a_joints a)) (n_drv (snd s)))) s of
           None \<Rightarrow> None
         | Some ((a, n), outs) \<Rightarrow>
             (let rs = List.map_filter (\<lambda>x. x) outs; s = (parallel_finish rs (fold note_move rs a), n)
              in Some (if is_ready_arm (fst s) \<and> is_in_emergency_recovery (fst s) then mark s else s,
                       if rs = [] then SUCCESS else rr_code (last rs))))"

text \<open>The sequential move: a joint is looked up by its id, the last one with that id wins. An early return skips the end of the function.\<close>

definition joint_slot :: "('s, 'b, 'z) arm_scheme \<Rightarrow> int \<Rightarrow> nat option" where
  "joint_slot a jid =
     (case filter (\<lambda>i. j_id (a_joints a ! i) = jid) [0..<length (a_joints a)] of [] \<Rightarrow> None | i # slots \<Rightarrow> Some (last (i # slots)))"

definition seq_advance :: "('s, 'b, 'z) arm_scheme \<Rightarrow> ('s, 'b, 'z) arm_scheme" where
  "seq_advance a =
     (let a = a\<lparr>reached_cnt := 0, init_count := 0, moving_joint_index := moving_joint_index a + 1\<rparr>
      in if length (joint_init_sequence a) \<le> moving_joint_index a then a\<lparr>moving_joint_index := 0, is_ready_arm := True\<rparr> else a)"

definition seq_settle :: "int \<Rightarrow> bool \<Rightarrow> 's joint \<Rightarrow> flt \<Rightarrow> ('s, 'b, 'z) arm_scheme \<Rightarrow> ('s, 'b, 'z) arm_scheme" where
  "seq_settle sid is_stuck j displacement a =
     (if flt_le displacement (fadd binary32 (pos_error_margin j) READY_MOVE_TOLERANCE_HYSTERESIS_RAD) \<or> is_stuck
      then let a = a\<lparr>reached_cnt := reached_cnt a + 1\<rparr>
           in if DEVICE_ARRIVED_CONFIRM_CNT < reached_cnt a
              then seq_advance (if is_stuck \<and> flt_le (pos_error_margin j) displacement then blame sid a else a)
              else a
      else a)"

datatype 'x flow = Return 'x | Continue 'x

fun outcome :: "'x flow \<Rightarrow> 'x" where
  "outcome (Return x) = x"
| "outcome (Continue x) = x"

definition move_slot ::
  "('s, 'w) effector_env \<Rightarrow> nat \<Rightarrow> ('s, 'b, 'z) arm_scheme \<times> 'w node \<Rightarrow> (('s, 'b, 'z) arm_scheme \<times> 'w node) flow option" where
  "move_slot E i s =
     (let c = ee_servos E; a = fst s; sid = reference_servo_id c (a_joints a ! i);
          (j, is_stuck) = update_and_check_stuck c (sees_device c a (a_joints a ! i));
          (a, exhausted) = ready_move_budget_spend (a\<lparr>a_joints := (a_joints a)[i := j]\<rparr>)
      in if exhausted then Some (Return (seq_advance (blame sid a), snd s))
         else if length (a_target_tor a) \<le> i then None
         else case device_move c a (target_pos j) (a_target_tor a ! i) j (n_drv (snd s)) of
                None \<Rightarrow> None
              | Some (j, w, rc) \<Rightarrow>
                  (let a = a\<lparr>a_joints := (a_joints a)[i := j]\<rparr>; n = (snd s)\<lparr>n_drv := w\<rparr>
                   in Some (if rc \<noteq> SUCCESS then Return (seq_advance (fail_joint sid a), n)
                            else Continue (seq_settle sid is_stuck j (fabs (fsub binary32 (target_pos j) (joint_pos_relative c j))) a, n))))"

definition move_sequential ::
  "('s, 'w) effector_env \<Rightarrow> ('s, 'b, 'z) arm_scheme \<times> 'w node \<Rightarrow> ((('s, 'b, 'z) arm_scheme \<times> 'w node) flow \<times> ReturnCode) option" where
  "move_sequential E s =
     (let a = fst s
      in if length (a_joints a) \<le> moving_joint_index a then Some (Return s, INVALID_PARAM)
         else if length (joint_init_sequence a) \<noteq> length (a_joints a) then Some (Return s, NOT_INITIALIZED)
         else case joint_slot a (joint_init_sequence a ! moving_joint_index a) of
                None \<Rightarrow> Some (Return s, INVALID_PARAM)
              | Some i \<Rightarrow>
                  (if skips (ee_servos E) (failed_joint_ids a) (a_joints a ! i) then Some (Continue (seq_advance a, snd s), SUCCESS)
                   else map_option (\<lambda>f. (f, SUCCESS)) (move_slot E i s)))"

text \<open>The arm has arrived and waits for its effector: it holds its pose.\<close>

definition hold_arm_pose :: "('s, 'w) effector_env \<Rightarrow> ('s, 'b, 'z, 'w) acall" where
  "hold_arm_pose E s =
     each_joint_with E (\<lambda>tor j. device_move (ee_servos E) (fst s) (joint_pos_relative (ee_servos E) j) tor j) (a_target_tor (fst s)) s"

definition ready_decision :: "bool \<Rightarrow> ('s, 'b, 'z) arm_scheme \<Rightarrow> ('s, 'b, 'z) arm_scheme" where
  "ready_decision in_recovery a =
     (let a = (if \<not> is_ready_arm a then a
               else case p_effector a of
                      None \<Rightarrow> a\<lparr>is_ready := True\<rparr>
                    | Some e \<Rightarrow>
                        (if in_recovery then a\<lparr>p_effector := Some (e\<lparr>is_ready := True\<rparr>), is_ready := True\<rparr>
                         else if is_ready e then a\<lparr>is_ready := True\<rparr> else a))
      in a\<lparr>init_count := init_count a + 1\<rparr>)"

definition move_arm ::
  "('s, 'w) effector_env \<Rightarrow> (('s, 'b, 'z) arm_scheme \<times> 'w node \<Rightarrow> ('s, 'b, 'z) arm_scheme \<times> 'w node)
   \<Rightarrow> ('s, 'b, 'z) arm_scheme \<times> 'w node \<Rightarrow> ((('s, 'b, 'z) arm_scheme \<times> 'w node) flow \<times> ReturnCode) option" where
  "move_arm E mark s =
     (if is_ready_arm (fst s)
      then map_option (\<lambda>(s, rc). (if rc \<noteq> SUCCESS then Return s else Continue s, rc)) (hold_arm_pose E s)
      else case arm_ready_prepare (ee_servos E) (fst s) of
             None \<Rightarrow> None
           | Some a \<Rightarrow>
               (case moving_mode a of
                  PARALLEL \<Rightarrow> map_option (\<lambda>(s, rc). (Continue s, rc)) (move_parallel E mark (a, snd s))
                | SEQUENTIAL \<Rightarrow> move_sequential E (a, snd s)
                | MOVING_INVALID \<Rightarrow> Some (Return (a, snd s), INVALID_PARAM)))"

definition arm_move_to_ready_position ::
  "('s, 'b, 'w) arm_world \<Rightarrow> (('s, 'b, 'z) arm_scheme \<times> 'w node \<Rightarrow> ('s, 'b, 'z) arm_scheme \<times> 'w node) \<Rightarrow> ('s, 'b, 'z, 'w) acall" where
  "arm_move_to_ready_position A mark s =
     (let a = fst s; c = aw_servos A; in_recovery = is_in_emergency_recovery a
      in if is_read_only a then Some ((a\<lparr>is_ready := True, is_ready_arm := True\<rparr>, snd s), SUCCESS)
         else if cla_dont_go_to_home_pos (cla a) \<and> is_startup_ready_phase a
         then Some (((arm_clear_command_buffers c (ee_now (aw_env A) (n_drv (snd s))) (a\<lparr>a_joints := map (hold_pose c) (a_joints a)\<rparr>))
                       \<lparr>is_ready := True, is_ready_arm := True\<rparr>, snd s), SUCCESS)
         else case update_follower_feedforward_torques A a of
                None \<Rightarrow> None
              | Some (a, rc) \<Rightarrow>
                  (if rc \<noteq> SUCCESS then Some ((a, snd s), rc)
                   else case move_arm (aw_env A) mark (a, snd s) of
                          None \<Rightarrow> None
                        | Some (Return s, rc) \<Rightarrow> Some (s, rc)
                        | Some (Continue s, rc) \<Rightarrow> Some ((ready_decision in_recovery (fst s), snd s), rc)))"

section \<open>Leader\<close>

text \<open>With force feedback the leader is drawn to the follower, once its state has arrived; without, it floats.\<close>

definition lead_joint :: "('s, 'w) servo_class \<Rightarrow> flt \<Rightarrow> ('s, 'w) joint_call" where
  "lead_joint c tor j =
     (if \<not> follower_pos_valid j then joint_apply_torque c tor j
      else joint_move_full c (follower_pos j) (Fin 0) (fmul binary32 tor (torq_rescale j)) (j\<lparr>adjusted_target_pos := follower_pos j\<rparr>))"

definition lead :: "('s, 'w) effector_env \<Rightarrow> ('s, 'b, 'z, 'w) acall" where
  "lead E s =
     (let a = fst s; c = ee_servos E
      in if is_force_feedback_enabled a then each_joint_with E (lead_joint c) (a_target_tor a) s
         else if enabled_spring_effect a
         then (if \<not> has_algo a then None
               else let (js, rc) = check_stability_control c (ee_now E (n_drv (snd s))) (a_joints a); s = (a\<lparr>a_joints := js\<rparr>, snd s)
                    in if rc \<noteq> SUCCESS then Some (s, rc)
                       else each_joint_with E (\<lambda>tor. apply_spring_force c tor True) (a_target_tor a) s)
         else each_joint_with E (joint_apply_torque c) (a_target_tor a) s)"

definition arm_operate_as_leader :: "('s, 'b, 'w) arm_world \<Rightarrow> ('s, 'b, 'z, 'w) acall" where
  "arm_operate_as_leader A s =
     (let a = zero_torques (fst s)
      in if d_mode (fst s) \<noteq> MODE_NORMAL then Some (s, SUCCESS)
         else if \<not> enabled_gravity_compensation a then lead (aw_env A) (a, snd s)
         else if \<not> has_algo a then Some ((a, snd s), NOT_INITIALIZED)
         else case adjusted_model_torques A scaled_torque a of
                None \<Rightarrow> None
              | Some (a, rc) \<Rightarrow> (if rc \<noteq> SUCCESS then Some ((a, snd s), rc) else lead (aw_env A) (a, snd s)))"

section \<open>Follower\<close>

text \<open>The gravity float: the first joint that drifted too far ends it.\<close>

primrec runaway :: "flt \<Rightarrow> ('j \<Rightarrow> flt) \<Rightarrow> ('j \<times> flt option) list \<Rightarrow> bool option" where
  "runaway limit pos [] = Some False"
| "runaway limit pos (p # ps) =
     (case snd p of
        None \<Rightarrow> None
      | Some start \<Rightarrow> (if flt_lt limit (fabs (fsub binary32 (pos (fst p)) start)) then Some True else runaway limit pos ps))"

definition float_joint ::
  "('s, 'w) effector_env \<Rightarrow> 'a device_scheme \<Rightarrow> 's joint \<times> flt option \<Rightarrow> 'w \<Rightarrow> (('s joint \<times> flt option) \<times> 'w \<times> ReturnCode) option" where
  "float_joint E d p w =
     (case p of
        (j, None) \<Rightarrow> None
      | (j, Some t) \<Rightarrow>
          (let tor = scaled_torque j t
           in map_option (\<lambda>(j, w, rc). ((j, Some tor), w, rc)) (jcall E d (joint_apply_torque (ee_servos E) tor) j w)))"

definition float_joints :: "('s, 'b, 'w) arm_world \<Rightarrow> ('s, 'b, 'z, 'w) acall" where
  "float_joints A s =
     (if \<not> has_algo (fst s) then None
      else case model_torques A (zero_torques (fst s)) of
             None \<Rightarrow> None
           | Some (a, rc) \<Rightarrow>
               (if rc \<noteq> SUCCESS then Some ((a, snd s), rc)
                else case until_error (float_joint (aw_env A) a) (beside (a_target_tor a) (a_joints a)) (n_drv (snd s)) of
                       None \<Rightarrow> None
                     | Some (ps, w, rc) \<Rightarrow>
                         Some ((a\<lparr>a_joints := map fst ps, a_target_tor := overwrite (a_target_tor a) (List.map_filter snd ps)\<rparr>,
                                (snd s)\<lparr>n_drv := w\<rparr>), rc)))"

definition arm_float :: "('s, 'b, 'w) arm_world \<Rightarrow> ('s, 'b, 'z, 'w) acall" where
  "arm_float A s =
     (let a = fst s; c = aw_servos A
      in case runaway (gravity_float_abort_rad a) (joint_pos_relative c) (beside (gravity_float_baseline a) (a_joints a)) of
           None \<Rightarrow> None
         | Some False \<Rightarrow> float_joints A s
         | Some True \<Rightarrow>
             andthen (set_runtime_gravity_float A False (Fin 0))
               (\<lambda>s. Some ((arm_clear_command_buffers c (ee_now (aw_env A) (n_drv (snd s))) (fst s), snd s), SUCCESS)) s)"

text \<open>The synchronised slew: one scale for all joints. Times are in microseconds; the elapsed time is a \<^verbatim>\<open>float\<close> count of seconds.\<close>

definition seconds :: "nat \<Rightarrow> flt" where
  "seconds us = fdiv binary32 (of_int_f binary32 (int us * 1000)) (Fin (10 ^ 9))"

definition slew_dt :: "nat \<Rightarrow> ('s, 'b, 'z) arm_scheme \<Rightarrow> flt" where
  "slew_dt t a =
     (if follower_slew_last_time a = 0 then fdiv binary32 (Fin 1) (of_int_f binary32 (control_frequency a))
      else fmax (lit32 (1 / 10 ^ 9)) (seconds (t - follower_slew_last_time a)))"

definition slew_limit :: "flt \<Rightarrow> flt \<Rightarrow> 's joint \<times> flt \<Rightarrow> flt" where
  "slew_limit dt scale p =
     (let delta = fabs (fsub binary32 (snd p) (prev_target_pos (fst p)))
      in if flt_lt (Fin 0) delta then fmin scale (fdiv binary32 (fmul binary32 (follow_vel_max (fst p)) dt) delta) else scale)"

definition slew_scale :: "flt \<Rightarrow> ('s joint \<times> flt) list \<Rightarrow> flt" where
  "slew_scale dt ps = foldl (slew_limit dt) (Fin 1) ps"

definition slew_command :: "flt \<Rightarrow> flt \<Rightarrow> flt \<Rightarrow> flt" where
  "slew_command scale goal previous = fadd binary32 previous (fmul binary32 scale (fsub binary32 goal previous))"

definition arm_slew :: "('s, 'b, 'w) arm_world \<Rightarrow> ('s, 'b, 'z, 'w) acall" where
  "arm_slew A s =
     (let a = fst s; c = aw_servos A; t = ee_now (aw_env A) (n_drv (snd s))
      in if length (slew_goal_positions a) \<noteq> length (a_joints a) \<or> control_frequency a \<le> 0 then Some (s, NOT_INITIALIZED)
         else let goals = map (\<lambda>j. joint_safe_tele_pos_rad c (tele_pos j) (sees_device c a j)) (a_joints a);
                  scale = slew_scale (slew_dt t a) (zip (a_joints a) goals);
                  a = a\<lparr>follower_slew_last_time := t, slew_goal_positions := goals\<rparr>
              in each_joint_with (aw_env A)
                   (\<lambda>(goal, tor) j. device_move c a (slew_command scale goal (prev_target_pos j)) tor j) (zip goals (a_target_tor a)) (a, snd s))"

definition arm_operate_as_follower :: "('s, 'b, 'w) arm_world \<Rightarrow> ('s, 'b, 'z, 'w) acall" where
  "arm_operate_as_follower A s =
     (if is_read_only (fst s) then Some (s, NOT_SUPPORTED)
      else if gravity_float_active (fst s) then arm_float A s
      else case update_follower_feedforward_torques A (fst s) of
             None \<Rightarrow> None
           | Some (a, rc) \<Rightarrow> (if rc \<noteq> SUCCESS then Some ((a, snd s), rc) else arm_slew A (a, snd s)))"

section \<open>Messages\<close>

definition take_follower_state :: "data_joint \<times> 's joint \<Rightarrow> 's joint" where
  "take_follower_state p =
     (snd p)\<lparr>follower_pos := msg_pos (fst p), follower_pos_valid := True, follower_vel := msg_vel (fst p), follower_tor := msg_tor (fst p),
             follower_temperature := msg_temperature (fst p), follower_idc_current := msg_idc_current (fst p)\<rparr>"

primrec feed_all :: "'b cbuf \<Rightarrow> 'b filter_obj list \<Rightarrow> flt list \<Rightarrow> 'b filter_obj list option" where
  "feed_all B fs [] = Some fs"
| "feed_all B fs (x # xs) =
     (case fs of
        [] \<Rightarrow> None
      | f # fs \<Rightarrow> (case (feed B x f, feed_all B fs xs) of (Some f, Some fs) \<Rightarrow> Some (f # fs) | _ \<Rightarrow> None))"

definition short_vectors :: "nat \<Rightarrow> 'x list list \<Rightarrow> bool" where
  "short_vectors k vs \<longleftrightarrow> list_ex (\<lambda>v. length v < k) vs"

definition arm_process_follower_msg :: "('s, 'b, 'w) arm_world \<Rightarrow> data_joint list \<Rightarrow> ('s, 'b, 'z, 'w) acall" where
  "arm_process_follower_msg A ms s =
     (let a = fst s; B = ew_bufs (aw_world A); k = length (a_joints a); own = take k ms
      in if int (length ms) \<noteq> dof_total a then Some (s, INVALID_PARAM)
         else if length ms < k \<or> short_vectors k [a_follower_pos a, a_follower_vel a, a_follower_tor a, a_follower_temperature a, a_follower_idc_current a]
         then None
         else case (feed_all B (follower_pos_filter a) (map msg_pos own), feed_all B (follower_vel_filter a) (map msg_vel own),
                    feed_all B (follower_tor_filter a) (map msg_tor own)) of
                (Some fp, Some fv, Some ft) \<Rightarrow>
                  on_effector (eff_process_follower_msg B (aw_env A) (zmq_publish (ew_ports (aw_world A))) ms)
                    (a\<lparr>a_follower_pos := overwrite (a_follower_pos a) (map msg_pos own),
                       a_follower_vel := overwrite (a_follower_vel a) (map msg_vel own),
                       a_follower_tor := overwrite (a_follower_tor a) (map msg_tor own),
                       a_follower_temperature := overwrite (a_follower_temperature a) (map msg_temperature own),
                       a_follower_idc_current := overwrite (a_follower_idc_current a) (map msg_idc_current own),
                       follower_pos_filter := fp, follower_vel_filter := fv, follower_tor_filter := ft,
                       a_joints := map take_follower_state (zip own (a_joints a))\<rparr>, snd s)
              | _ \<Rightarrow> None)"

definition arm_apply_action :: "('s, 'b, 'w) arm_world \<Rightarrow> data_joint list \<Rightarrow> ('s, 'b, 'z, 'w) acall" where
  "arm_apply_action A ms s =
     (let a = fst s; k = length (a_joints a); own = take k ms
      in if int (length ms) \<noteq> dof_total a then Some (s, INVALID_PARAM)
         else if length ms < k \<or> short_vectors k [a_tele_pos a, a_tele_vel a, a_tele_tor a] then None
         else on_effector (eff_apply_action (aw_servos A) ms)
                (a\<lparr>a_tele_pos := overwrite (a_tele_pos a) (map msg_pos own), a_tele_vel := overwrite (a_tele_vel a) (map msg_vel own),
                   a_tele_tor := overwrite (a_tele_tor a) (map msg_tor own),
                   a_joints := map2 (\<lambda>m. set_tele (msg_pos m, msg_vel m, msg_tor m)) own (a_joints a)\<rparr>, snd s))"

definition arm_get_observation :: "('s, 'b, 'w) arm_world \<Rightarrow> ('s, 'b, 'z) arm_scheme \<times> 'w node
   \<Rightarrow> ((('s, 'b, 'z) arm_scheme \<times> 'w node) \<times> data_joint list \<times> ReturnCode) option" where
  "arm_get_observation A s =
     (let E = aw_env A; own = map (\<lambda>j. observed E j (n_drv (snd s)) (joint_pos_relative (ee_servos E) j)) (a_joints (fst s))
      in case p_effector (fst s) of
           None \<Rightarrow> Some (s, own, SUCCESS)
         | Some e \<Rightarrow>
             (case get_observation E (e, snd s) of
                None \<Rightarrow> None
              | Some ((e, n), ms, rc) \<Rightarrow> Some (((fst s)\<lparr>p_effector := Some e\<rparr>, n), own @ ms, rc)))"

section \<open>Verification, start, stop and one step\<close>

definition arm_flush_probes :: "('s, 'w) effector_env \<Rightarrow> ('s, 'b, 'z, 'w) acall" where
  "arm_flush_probes E s =
     (let (w, rc) = (if has_driver (fst s) then ee_group_write E (n_drv (snd s)) else (n_drv (snd s), SUCCESS))
      in Some ((fst s, (snd s)\<lparr>n_drv := (if rc = SUCCESS then ee_settle E w else w)\<rparr>), rc))"

definition arm_verify_each :: "('s, 'w) effector_env \<Rightarrow> int list \<Rightarrow> ('s, 'b, 'z, 'w) acall" where
  "arm_verify_each E failed = each_arm_joint E (unless_failed (ee_servos E) failed (joint_verify_operational (ee_servos E)))"

definition arm_verify_servos_operational :: "('s, 'b, 'w) arm_world \<Rightarrow> ('s, 'b, 'z, 'w) acall" where
  "arm_verify_servos_operational A s =
     (let E = aw_env A; c = ee_servos E; failed = failed_joint_ids (fst s); any_probe_sent = list_ex (\<lambda>j. \<not> skips c failed j) (a_joints (fst s))
      in if is_read_only (fst s) then Some (s, SUCCESS)
         else andthen (each_arm_joint E (unless_failed c failed (\<lambda>j. joint_move c (prev_target_pos j) j)))
                (andthen (if any_probe_sent then arm_flush_probes E else (\<lambda>s. Some (s, SUCCESS)))
                  (andthen (arm_verify_each E failed) (on_effector (eff_verify_servos_operational E)))) s)"

definition arm_hold_all :: "('s, 'b, 'w) arm_world \<Rightarrow> ('s, 'b, 'z, 'w) acall" where
  "arm_hold_all A s =
     (case with_arm_joints (scan (\<lambda>_. False) (hold_joint (aw_env A) (fst s) (failed_joint_ids (fst s))) (a_joints (fst s)) (n_drv (snd s))) s of
        None \<Rightarrow> None
      | Some ((a, n), outs) \<Rightarrow>
          (let s = (fold note_hold outs a, n) in if HoldSent \<in> set outs then arm_write_hardware_values A s else Some (s, SUCCESS)))"

definition arm_startup_hold :: "('s, 'b, 'w) arm_world \<Rightarrow> ('s, 'b, 'z, 'w) acall" where
  "arm_startup_hold A s =
     (if is_read_only (fst s) then Some (s, SUCCESS)
      else andthen (arm_verify_each (aw_env A) (failed_joint_ids (fst s))) (arm_hold_all A) s)"

definition arm_start_body ::
  "('s, 'b, 'w) arm_world \<Rightarrow> (('s, 'b, 'z) arm_scheme \<times> 'w node \<Rightarrow> ('s, 'b, 'z) arm_scheme \<times> 'w node) \<Rightarrow> ('s, 'b, 'z, 'w) acall" where
  "arm_start_body A mark =
     andthen (each_arm_joint (aw_env A) (joint_start_hardware (aw_servos A)))
       (andthen (arm_read_hardware_values A)
         (andthen (arm_startup_hold A)
           (andthen (arm_move_to_ready_position A mark)
             (andthen (on_effector (effector_start (effector_class (aw_world A)) (aw_env A))) (arm_write_hardware_values A)))))"

definition arm_stop :: "('s, 'b, 'w) arm_world \<Rightarrow> (('s, 'b, 'z) arm_scheme, 'w) device_class \<Rightarrow> ('s, 'b, 'z, 'w) acall" where
  "arm_stop A C s =
     (case device_stop C s of
        None \<Rightarrow> None
      | Some (s, rc) \<Rightarrow>
          (case with_arm_joints (visit_all (jcall (aw_env A) (fst s) (joint_park_safely (aw_servos A))) (a_joints (fst s)) (n_drv (snd s))) s of
             None \<Rightarrow> None
           | Some (s, rcs) \<Rightarrow>
               map_option (\<lambda>(s, effector_rc). (s, first_error (rc # rcs @ [effector_rc])))
                 (on_effector (device_stop (effector_class (aw_world A))) s)))"

definition arm_start ::
  "('s, 'b, 'w) arm_world \<Rightarrow> (('s, 'b, 'z) arm_scheme, 'w) device_class \<Rightarrow> ('s, 'b, 'z, 'w) acall" where
  "arm_start A C s =
     (case device_start C s of
        (s, rc) \<Rightarrow>
          (if rc \<noteq> SUCCESS then Some (s, rc)
           else case arm_start_body A (mark_emergency_recovery_completed C) s of
                  None \<Rightarrow> None
                | Some (s, rc) \<Rightarrow>
                    (if rc = SUCCESS then Some (s, SUCCESS)
                     else case arm_stop A C s of None \<Rightarrow> None | Some (s, _) \<Rightarrow> Some (s, rc))))"

text \<open>After a failed step of the effector, its failed servo is named on the arm.\<close>

definition blame_effector :: "('s, 'w) effector_env \<Rightarrow> ('s, 'b, 'z) arm_scheme \<times> 'w node \<Rightarrow> (('s, 'b, 'z) arm_scheme \<times> 'w node) option" where
  "blame_effector E s =
     (case p_effector (fst s) of
        None \<Rightarrow> Some s
      | Some e \<Rightarrow>
          (if 0 \<le> last_failed_joint_id (fst s) then Some s
           else if 0 \<le> last_failed_joint_id e then Some (set_last_failed_joint_id (last_failed_joint_id e) (fst s), snd s)
           else probe_effector E s))"

definition arm_step :: "('s, 'b, 'w) arm_world \<Rightarrow> (('s, 'b, 'z) arm_scheme, 'w) device_class \<Rightarrow> ('s, 'b, 'z, 'w) acall" where
  "arm_step A C s =
     (let in_recovery = is_in_emergency_recovery (fst s)
      in case device_step C s of
           None \<Rightarrow> None
         | Some (s, rc) \<Rightarrow>
             (if rc \<noteq> SUCCESS \<or> in_recovery then Some (s, rc)
              else case on_effector (device_step (effector_class (aw_world A))) s of
                     None \<Rightarrow> None
                   | Some (s, rc) \<Rightarrow>
                       (if rc = SUCCESS then Some (s, rc) else map_option (\<lambda>s. (s, rc)) (blame_effector (aw_env A) s))))"

end
