(* ===== verification/Arm_Class.thy ===== *)
theory Arm_Class
  imports Arm
begin

text \<open>
  The arm as a device: its construction (\<^verbatim>\<open>DeviceArm::init\<close>) with the effector it attaches, its table of virtual functions on a
  ZeroMQ topic, and the proof that this class keeps the contract of a device and never starts a recovery in its effector. The facts
  about emergency recovery that follow from the contract hold for every run of an arm and its effector.
\<close>

section \<open>Construction\<close>

text \<open>What the command line adds for an arm; the configuration files of the effector are read by \<^verbatim>\<open>DeviceConfig\<close>.\<close>

record effector_setup =
  es_model :: "json \<times> ReturnCode"
  es_individual :: "json \<times> ReturnCode"
  es_device_model :: string
  es_cla :: cla_args
  es_args :: effector_args
  es_algo :: "ReturnCode option"

record arm_args =
  aa_moving_mode :: MovingMode
  aa_follower_gravity_compensation_override :: string
  aa_torq_rescale_override :: "flt list"
  aa_leader_gravity_compensation :: bool
  aa_effector :: "effector_setup option"

definition new_arm_object :: "cla_args \<Rightarrow> arm_args \<Rightarrow> ('s, 'b) arm" where
  "new_arm_object a aa =
     device.extend ((new_device_object a)\<lparr>d_type := ARM\<rparr>)
       \<lparr>a_joints = [], moving_mode = aa_moving_mode aa, a_tele_pos = [], a_tele_vel = [], a_tele_tor = [], max_vel = [], a_follower_pos = [],
        a_follower_vel = [], a_follower_tor = [], a_follower_temperature = [], a_follower_idc_current = [], follower_pos_filter = [],
        follower_vel_filter = [], follower_tor_filter = [], a_target_tor = [], current_motor_positions = [], slew_goal_positions = [],
        follower_slew_last_time = 0, joint_init_sequence = [], moving_joint_index = 0, p_effector = None, dof_effector = 0,
        servo_num_effector = 0, enabled_gravity_compensation = False, is_ready_arm = False, gravity_float_active = False,
        gravity_float_baseline = [], gravity_float_abort_rad = kGravityFloatAbortRadDefault, ready_move_initial_disp_to_home = [],
        servo_param_publish_index = 0\<rparr>"

text \<open>The flags of the configuration, with the request for the follower's gravity compensation; an entry of the sequence that is no number throws.\<close>

definition configure_arm :: "json \<Rightarrow> json \<Rightarrow> arm_args \<Rightarrow> ('s, 'b, 'z) arm_scheme \<Rightarrow> (('s, 'b, 'z) arm_scheme \<times> bool \<times> ReturnCode) option" where
  "configure_arm model individual aa a =
     (case j_field model ''joint_init_sequence'' of
        None \<Rightarrow> Some (a, False, INVALID_PARAM)
      | Some v \<Rightarrow>
          (case those (map get_int (j_elems v)) of
             None \<Rightarrow> None
           | Some ids \<Rightarrow>
               (let a = a\<lparr>joint_init_sequence := joint_init_sequence a @ map int16 ids\<rparr>;
                    (spring, rc1) = get_field_value get_bool individual ''spring_effect'' False;
                    (gravity, rc2) = get_field_value get_bool individual ''gravity_compensation'' False;
                    (follower, rc3) = get_field_value get_bool individual ''follower_gravity_compensation'' False;
                    rc = first_error [rc1, rc2, rc3]
                in Some (if rc \<noteq> SUCCESS then (a, False, rc)
                         else (a\<lparr>enabled_spring_effect := spring, enabled_gravity_compensation := gravity\<rparr>,
                               if aa_follower_gravity_compensation_override aa = ''config'' then follower
                               else aa_follower_gravity_compensation_override aa = ''true'', SUCCESS)))))"

definition override_torq_rescale :: "arm_args \<Rightarrow> ('s, 'b, 'z) arm_scheme \<Rightarrow> ('s, 'b, 'z) arm_scheme \<times> ReturnCode" where
  "override_torq_rescale aa a =
     (if aa_torq_rescale_override aa = [] then (a, SUCCESS)
      else if int (length (aa_torq_rescale_override aa)) \<noteq> dof a then (a, INVALID_PARAM)
      else (a\<lparr>a_joints := map2 (\<lambda>j v. j\<lparr>torq_rescale := v\<rparr>) (a_joints a) (aa_torq_rescale_override aa)\<rparr>, SUCCESS))"

definition size_arm :: "'b filter_obj \<Rightarrow> ('s, 'b, 'z) arm_scheme \<Rightarrow> ('s, 'b, 'z) arm_scheme" where
  "size_arm f a =
     (let zeros = replicate (nat (dof a)) (Fin 0); filters = replicate (nat (dof a)) f
      in a\<lparr>a_tele_pos := a_tele_pos a @ zeros, a_tele_vel := a_tele_vel a @ zeros, a_tele_tor := a_tele_tor a @ zeros,
           a_follower_pos := a_follower_pos a @ zeros, a_follower_vel := a_follower_vel a @ zeros,
           a_follower_tor := a_follower_tor a @ zeros, a_follower_temperature := a_follower_temperature a @ zeros,
           a_follower_idc_current := a_follower_idc_current a @ zeros, follower_pos_filter := follower_pos_filter a @ filters,
           follower_vel_filter := follower_vel_filter a @ filters, follower_tor_filter := follower_tor_filter a @ filters,
           servo_num := int (sum_list (map (\<lambda>j. length (servos j)) (a_joints a)))\<rparr>)"

definition is_effector_class :: "DeviceClass \<Rightarrow> bool" where
  "is_effector_class k \<longleftrightarrow> k \<in> {DeviceEffectorCan_class, DeviceEffectorController_class, DeviceEffectorSerial_class}"

text \<open>The effector is created from its configuration and initialised on the arm's topic and driver; the cast of another class is undefined.\<close>

definition attach_effector ::
  "(('s, 'b, unit, 'w) ecall) \<Rightarrow> effector_setup \<Rightarrow> ('s, 'b, 'z, 'w) acall" where
  "attach_effector initialise es s =
     (let a = fst s
      in if snd (es_model es) \<noteq> SUCCESS then Some (s, snd (es_model es))
         else if snd (es_individual es) \<noteq> SUCCESS then Some (s, snd (es_individual es))
         else case new_device (fst (es_model es)) (es_device_model es) of
                None \<Rightarrow> Some (s, FAIL)
              | Some k \<Rightarrow>
                  (if \<not> is_effector_class k then None
                   else case initialise ((new_effector_object (es_cla es))\<lparr>d_mode := d_mode a\<rparr>, snd s) of
                          None \<Rightarrow> None
                        | Some ((e, n), rc) \<Rightarrow>
                            Some ((if rc \<noteq> SUCCESS then a\<lparr>p_effector := Some e\<rparr>
                                   else a\<lparr>p_effector := Some e, dof_effector := dof e, servo_num_effector := servo_num e\<rparr>, n), rc)))"

definition resize :: "nat \<Rightarrow> flt list \<Rightarrow> flt list" where
  "resize k xs = take k xs @ replicate (k - length xs) (Fin 0)"

definition finish_arm_sizes :: "('s, 'b, 'z) arm_scheme \<Rightarrow> ('s, 'b, 'z) arm_scheme" where
  "finish_arm_sizes a =
     (let total = dof a + dof_effector a
      in a\<lparr>dof_total := total, servo_num_total := servo_num a + servo_num_effector a, a_target_tor := resize (nat total) (a_target_tor a),
           current_motor_positions := resize (nat total) (current_motor_positions a),
           slew_goal_positions := resize (nat (dof a)) (slew_goal_positions a)\<rparr>)"

definition settle_gravity_compensation ::
  "('s, 'b, 'w) arm_world \<Rightarrow> json \<Rightarrow> arm_args \<Rightarrow> bool \<Rightarrow> ('s, 'b, 'z) arm_scheme \<Rightarrow> ('s, 'b, 'z) arm_scheme \<times> ReturnCode" where
  "settle_gravity_compensation A model aa requested a =
     (let a = (if d_role a = LEADER then a\<lparr>enabled_gravity_compensation := aa_leader_gravity_compensation aa \<and> \<not> is_read_only a\<rparr> else a);
          (arm_type, rc) = get_field_value get_string model ''arm_type'' []
      in if rc \<noteq> SUCCESS then (a, rc)
         else if d_role a \<noteq> FOLLOWER \<or> \<not> requested \<or> arm_type = ''controller'' then (a, SUCCESS)
         else if aw_class A \<noteq> DeviceArmCan_class then (a, NOT_SUPPORTED)
         else if \<not> has_algo a \<or> \<not> aw_has_gravity_model A then (a, NOT_INITIALIZED)
         else (a\<lparr>enabled_gravity_compensation := True, follower_gravity_compensation := True\<rparr>, SUCCESS))"

definition own_parts :: "effector_setup \<Rightarrow> device_parts" where
  "own_parts es = \<lparr>given_topic = True, given_driver = True, new_topic_ok = True, new_driver_ok = True, new_algo = es_algo es\<rparr>"

definition arm_init ::
  "('s, 'b, 'w) arm_world \<Rightarrow> (string \<Rightarrow> flt) \<Rightarrow> (json \<Rightarrow> 'w \<Rightarrow> 's list \<times> 'w \<times> ReturnCode)
   \<Rightarrow> (json \<Rightarrow> 's list \<Rightarrow> 's list \<times> ReturnCode) \<Rightarrow> ('s \<Rightarrow> 'w \<Rightarrow> 'w) \<Rightarrow> json \<Rightarrow> json \<Rightarrow> cla_args \<Rightarrow> arm_args \<Rightarrow> device_parts
   \<Rightarrow> ('s, 'b, 'z, 'w) acall" where
  "arm_init A g mk ind del model individual cl aa q s =
     (let c = aw_servos A; B = ew_bufs (aw_world A); (a, rc) = device_init (Some model) cl q (fst s)
      in if rc \<noteq> SUCCESS then Some ((a, snd s), rc)
         else case configure_arm model individual aa a of
                None \<Rightarrow> None
              | Some (a, requested, rc) \<Rightarrow>
                  (if rc \<noteq> SUCCESS then Some ((a, snd s), rc)
                   else let (js, w, rc) = new_joints c g (has_driver a) mk ind del (Some model) (Some individual) (a_joints a) (n_drv (snd s));
                            n = (snd s)\<lparr>n_drv := w\<rparr>; a = a\<lparr>a_joints := js\<rparr>
                   in if rc \<noteq> SUCCESS then Some ((a, n), rc)
                   else let (a, rc) = override_torq_rescale aa (a\<lparr>max_vel := max_vel a @ map j_vel_max js, dof := int (length js)\<rparr>)
                   in if rc \<noteq> SUCCESS then Some ((a, n), rc)
                   else case new_filter B EMA (lit32 (1/5)) 5 (lit32 (1/100)) (Fin 1) of
                          Inl _ \<Rightarrow> None
                        | Inr f \<Rightarrow>
                            (case (case aa_effector aa of
                                     None \<Rightarrow> Some (((size_arm f a)\<lparr>p_effector := None, dof_effector := 0, servo_num_effector := 0\<rparr>, n), SUCCESS)
                                   | Some es \<Rightarrow>
                                       attach_effector
                                         (effector_init c g mk ind del B (fst (es_model es)) (fst (es_individual es)) (es_cla es) (es_args es)
                                            (Some (dof a, servo_num (size_arm f a))) (own_parts es)) es (size_arm f a, n)) of
                               None \<Rightarrow> None
                             | Some ((a, n), rc) \<Rightarrow>
                                 (if rc \<noteq> SUCCESS then Some ((a, n), rc)
                                  else let (a, rc) = settle_gravity_compensation A model aa requested (finish_arm_sizes a) in Some ((a, n), rc)))))"

section \<open>The class of arms on a ZeroMQ topic\<close>

definition arm_base :: "('s, 'b, 'w) arm_world \<Rightarrow> (('s, 'b, 'z) arm_scheme, 'w) device_class" where
  "arm_base A =
     (let W = aw_world A
      in \<lparr>vd_park = arm_park_safely A, vd_read = arm_read_hardware_values A, vd_write = arm_write_hardware_values A,
          vd_move_to_ready = refuse SUCCESS, vd_leader = arm_operate_as_leader A, vd_follower = arm_operate_as_follower A,
          vd_set_control_mode = arm_mode A, vd_clear_buffers = arm_clear_command_buffers (aw_servos A), vd_reset_ready = arm_reset_ready,
          vd_observation = arm_get_observation A, vd_completion_ratio = arm_completion_ratio (aw_servos A),
          vd_force_feedback = arm_force_feedback A, vd_hold = arm_hold A, vd_open = ew_open W, vd_close = ew_close W, vd_arm = ew_arm W,
          vd_now = ee_now (ew_env W), vd_publish = zmq_publish (ew_ports W), vd_topic_step = Some\<rparr>)"

definition arm_target :: "('s, 'b, 'w) arm_world \<Rightarrow> (('s, 'b, 'z) arm_scheme, 'w) message_target" where
  "arm_target A =
     \<lparr>mt_apply_joints = arm_apply_action A, mt_apply_joystick = (\<lambda>_. refuse SUCCESS), mt_follower_msg = arm_process_follower_msg A,
      mt_force_feedback = arm_force_feedback A, mt_force_feedback_gain = arm_force_feedback_gain, mt_hold = arm_hold A,
      mt_gravity_float = set_runtime_gravity_float A, mt_torq_rescale = set_runtime_torq_rescale, mt_is_effector = False,
      mt_effector_min_max = (\<lambda>_ _. refuse NOT_SUPPORTED), mt_distance_to_torque = (\<lambda>_. refuse NOT_SUPPORTED),
      mt_effector_kd = (\<lambda>_. refuse NOT_SUPPORTED), mt_request_ready = arm_request_move_to_ready_position,
      mt_request_stop = arm_request_move_to_ready_and_stop, mt_now = ee_now (aw_env A)\<rparr>"

definition arm_topic_step :: "('s, 'b, 'w) arm_world \<Rightarrow> ('s, 'b, 'z, 'w) acall" where
  "arm_topic_step A s =
     zmq_step (arm_base A) (arm_target A) (ew_layout (aw_world A)) (ew_names (aw_world A)) (ew_inbox (aw_world A) (n_drv (snd s))) s"

definition arm_ready_move :: "('s, 'b, 'w) arm_world \<Rightarrow> ('s, 'b, 'z, 'w) acall" where
  "arm_ready_move A = arm_move_to_ready_position A (mark_emergency_recovery_completed (arm_base A))"

definition arm_class :: "('s, 'b, 'w) arm_world \<Rightarrow> (('s, 'b, 'z) arm_scheme, 'w) device_class" where
  "arm_class A = (arm_base A)\<lparr>vd_move_to_ready := arm_ready_move A, vd_topic_step := (\<lambda>s. map_option fst (arm_topic_step A s))\<rparr>"

lemma arm_class_fields:
  "vd_read (arm_class A) = arm_read_hardware_values A" "vd_write (arm_class A) = arm_write_hardware_values A"
  "vd_leader (arm_class A) = arm_operate_as_leader A" "vd_follower (arm_class A) = arm_operate_as_follower A"
  "vd_move_to_ready (arm_class A) = arm_ready_move A" "vd_publish (arm_class A) = zmq_publish (ew_ports (aw_world A))"
  "vd_set_control_mode (arm_class A) = arm_mode A" "vd_clear_buffers (arm_class A) = arm_clear_command_buffers (aw_servos A)"
  "vd_reset_ready (arm_class A) = arm_reset_ready" "vd_completion_ratio (arm_class A) = arm_completion_ratio (aw_servos A)"
  "vd_observation (arm_class A) = arm_get_observation A" "vd_hold (arm_class A) = arm_hold A"
  "vd_force_feedback (arm_class A) = arm_force_feedback A" "now_of (arm_class A) n = ee_now (aw_env A) (n_drv n)"
  by (simp_all add: arm_class_def arm_base_def Let_def now_of_def)

section \<open>What a call leaves alone\<close>

text \<open>Neither the recovery of the arm nor that of its effector changes, and nothing about them is published.\<close>

definition effector_view :: "('s, 'b, 'z) arm_scheme \<Rightarrow> (EmergencyRecoveryState \<times> int \<times> int \<times> bool \<times> Role \<times> bool \<times> bool) option" where
  "effector_view a = map_option recovery_view (p_effector a)"

definition arm_still :: "('s, 'b, 'z) arm_scheme \<times> 'w node \<Rightarrow> ('s, 'b, 'z) arm_scheme \<times> 'w node \<Rightarrow> bool" where
  "arm_still s s' \<longleftrightarrow> still s s' \<and> effector_view (fst s') = effector_view (fst s)"

lemma arm_still_refl [simp, intro]: "arm_still s s"
  by (simp add: arm_still_def)

lemma arm_still_trans [trans]: "arm_still s s' \<Longrightarrow> arm_still s' s'' \<Longrightarrow> arm_still s s''"
  by (auto simp: arm_still_def intro: still_trans)

lemma arm_still_device: "recovery_view a = recovery_view (fst s) \<Longrightarrow> effector_view a = effector_view (fst s) \<Longrightarrow> arm_still s (a, snd s)"
  by (simp add: arm_still_def still_device)

lemma arm_still_drv:
  "recovery_view a = recovery_view (fst s) \<Longrightarrow> effector_view a = effector_view (fst s) \<Longrightarrow> arm_still s (a, (snd s)\<lparr>n_drv := w\<rparr>)"
  by (simp add: arm_still_def still_drv)

lemma arm_still_pair: "recovery_view a' = recovery_view a \<Longrightarrow> effector_view a' = effector_view a \<Longrightarrow> arm_still (a, n) (a', n)"
  using arm_still_device [of a' "(a, n)"] by simp

lemmas arm_views = recovery_view_def effector_view_def

lemma with_arm_joints_still: "with_arm_joints r s = Some (s', x) \<Longrightarrow> arm_still s s'"
  by (auto simp: with_arm_joints_def arm_views intro!: arm_still_drv split: option.splits)

lemma each_arm_joint_still: "each_arm_joint E f s = Some (s', rc) \<Longrightarrow> arm_still s s'"
  unfolding each_arm_joint_def by (rule with_arm_joints_still)

lemma each_joint_with_still: "each_joint_with E f xs s = Some (s', rc) \<Longrightarrow> arm_still s s'"
  unfolding each_joint_with_def by (rule with_arm_joints_still)

lemma on_effector_still:
  assumes "\<And>x x' rc. f x = Some (x', rc) \<Longrightarrow> still x x'" "on_effector f s = Some (s', rc)"
  shows "arm_still s s'"
proof (cases "p_effector (fst s)")
  case None
  with assms(2) show ?thesis by (simp add: on_effector_def)
next
  case (Some e)
  then obtain e' n' where f: "f (e, snd s) = Some ((e', n'), rc)" and s': "s' = ((fst s)\<lparr>p_effector := Some e'\<rparr>, n')"
    using assms(2) by (auto simp: on_effector_def split: option.splits)
  from assms(1) [OF f] Some show ?thesis by (simp add: s' arm_still_def still_def arm_views)
qed

lemma andthen_arm_still:
  assumes "\<And>s s' rc. f s = Some (s', rc) \<Longrightarrow> arm_still s s'" "\<And>s s' rc. g s = Some (s', rc) \<Longrightarrow> arm_still s s'" "andthen f g s = Some (s', rc)"
  shows "arm_still s s'"
proof -
  obtain s1 rc1 where f: "f s = Some (s1, rc1)" using assms(3) by (auto simp: andthen_def split: option.splits)
  moreover have "arm_still s1 s'" using assms(2,3) f by (auto simp: andthen_def split: if_splits)
  ultimately show ?thesis using assms(1) arm_still_trans by blast
qed

lemma rest_views [simp]:
  "recovery_view (rest_now E s) = recovery_view (fst s)" "effector_view (rest_now E s) = effector_view (fst s)"
  by (simp_all add: rest_now_def reset_slew_targets_to_current_def arm_views)

lemma gravity_float_views [simp]:
  "recovery_view (a\<lparr>gravity_float_active := b\<rparr>) = recovery_view a" "effector_view (a\<lparr>gravity_float_active := b\<rparr>) = effector_view a"
  by (simp_all add: arm_views)

lemma rest_still: "arm_still (a, n) ((rest_now E (a, n))\<lparr>gravity_float_active := b\<rparr>, n)"
  using arm_still_device [of "(rest_now E (a, n))\<lparr>gravity_float_active := b\<rparr>" "(a, n)"] by simp

lemma arm_clear_views [simp]:
  "recovery_view (arm_clear_command_buffers c t a) = recovery_view a" "effector_view (arm_clear_command_buffers c t a) = effector_view a"
  by (simp_all add: arm_clear_command_buffers_def reset_slew_targets_to_current_def arm_views)

lemma switch_still: "switch_joints E b s = Some (s', rc) \<Longrightarrow> arm_still s s'"
  by (auto simp: switch_joints_def split: if_splits intro: each_arm_joint_still)

lemma effector_follows_still: "effector_follows_mode A i s = Some (s', rc) \<Longrightarrow> arm_still s s'"
  by (auto simp: effector_follows_mode_def split: if_splits intro: on_effector_still mode_call_still)

lemma arm_mode_still: "arm_mode A r i s = Some (s', rc) \<Longrightarrow> arm_still s s'"
  by (auto simp: arm_mode_def arm_set_control_mode_def arm_serial_set_control_mode_def arm_can_set_control_mode_def Let_def
      split: if_split_asm elim!: andthen_arm_still [rotated 2] intro: switch_still effector_follows_still arm_still_device rest_still)

lemma arm_float_command_still: "set_runtime_gravity_float A b g s = Some (s', rc) \<Longrightarrow> arm_still s s'"
proof -
  assume f: "set_runtime_gravity_float A b g s = Some (s', rc)"
  define s1 where "s1 = ((fst s)\<lparr>gravity_float_baseline := map (joint_pos_relative (aw_servos A)) (a_joints (fst s)), gravity_float_abort_rad := g\<rparr>, snd s)"
  have s1: "arm_still s s1" unfolding s1_def by (rule arm_still_device) (simp_all add: arm_views)
  consider "s' = s"
    | "andthen (switch_joints (aw_env A) False) (\<lambda>s. Some (((fst s)\<lparr>gravity_float_active := True\<rparr>, snd s), SUCCESS)) s1 = Some (s', rc)"
    | "andthen (switch_joints (aw_env A) True) (\<lambda>s. Some (((rest_now (aw_env A) s)\<lparr>gravity_float_active := False\<rparr>, snd s), SUCCESS)) s = Some (s', rc)"
    using f by (auto simp: set_runtime_gravity_float_def Let_def s1_def split: if_splits)
  then show ?thesis
  proof cases
    case 2
    then have "arm_still s1 s'" by (rule andthen_arm_still [rotated 2]) (auto intro: switch_still arm_still_device)
    with s1 show ?thesis by (rule arm_still_trans)
  next
    case 3
    then show ?thesis by (rule andthen_arm_still [rotated 2]) (auto intro: switch_still arm_still_device)
  qed simp
qed

lemma torq_rescale_still: "set_runtime_torq_rescale vs s = Some (s', rc) \<Longrightarrow> arm_still s s'"
  by (auto simp: set_runtime_torq_rescale_def Let_def arm_views split: if_splits intro!: arm_still_device)

lemma arm_hold_still: "arm_hold A s = Some (s', rc) \<Longrightarrow> arm_still s s'"
proof -
  have h: "runtime_hold (arm_clear_command_buffers c) t s = Some (s', rc) \<Longrightarrow> arm_still s s'"
    for c :: "('a, 'd) servo_class" and t and s s' :: "('a, 'b, 'c) arm_scheme \<times> 'd node" and rc
    by (auto simp: runtime_hold_def split: if_splits intro!: arm_still_device)
  assume "arm_hold A s = Some (s', rc)"
  then show ?thesis
    unfolding arm_hold_def by (rule andthen_arm_still [rotated 2]) (auto split: if_splits intro: h arm_float_command_still)
qed

lemma base_force_feedback_still: "set_runtime_force_feedback (arm_mode A) b g s = Some (s', rc) \<Longrightarrow> arm_still s s'"
proof -
  assume f: "set_runtime_force_feedback (arm_mode A) b g s = Some (s', rc)"
  define s1 where "s1 = ((fst s)\<lparr>enabled_force_feedback := b, cla := (cla (fst s))\<lparr>cla_force_feedback := (if b then g else Fin (-1))\<rparr>\<rparr>, snd s)"
  have s1: "arm_still s s1" unfolding s1_def by (rule arm_still_device) (simp_all add: arm_views)
  consider "s' = s" | "arm_mode A LEADER NORMAL_OPERATION s1 = Some (s', rc)"
    using f by (cases s) (auto simp: set_runtime_force_feedback_def s1_def split: if_splits)
  then show ?thesis by cases (auto intro: arm_still_trans [OF s1 arm_mode_still])
qed

lemma arm_force_feedback_still: "arm_force_feedback A b g s = Some (s', rc) \<Longrightarrow> arm_still s s'"
  unfolding arm_force_feedback_def
  by (rule andthen_arm_still [rotated 2]) (auto intro: base_force_feedback_still on_effector_still force_feedback_still)

lemma gain_still: "force_feedback_gain g s = Some (s', rc) \<Longrightarrow> still s s'"
  using gain_view [of g "fst s"] by (auto simp: force_feedback_gain_def split_beta intro!: still_device)

lemma arm_gain_still: "arm_force_feedback_gain g s = Some (s', rc) \<Longrightarrow> arm_still s s'"
proof -
  have a: "force_feedback_gain g s = Some (s', rc) \<Longrightarrow> arm_still s s'" for s s' :: "('a, 'b, 'c) arm_scheme \<times> 'd node" and rc
    by (auto simp: force_feedback_gain_def set_runtime_force_feedback_gain_def arm_views split: if_splits intro!: arm_still_device)
  assume "arm_force_feedback_gain g s = Some (s', rc)"
  then show ?thesis
    unfolding arm_force_feedback_gain_def by (rule andthen_arm_still [rotated 2]) (auto intro: a on_effector_still gain_still)
qed

lemma note_dead_views [simp]: "recovery_view (note_dead dead a) = recovery_view a" "effector_view (note_dead dead a) = effector_view a"
proof -
  have f: "recovery_view (fold (\<lambda>sid. mark_joint_failed_during_recovery (int16 sid)) dead d) = recovery_view d" for d :: "'x device_scheme"
    by (rule fold_keeps) (simp add: recovery_view_def mark_joint_failed_during_recovery_def)
  have g: "effector_view (fold (\<lambda>sid. mark_joint_failed_during_recovery (int16 sid)) dead a) = effector_view a" for a :: "('s, 'b, 'z) arm_scheme"
    by (rule fold_keeps) (simp add: effector_view_def mark_joint_failed_during_recovery_def)
  have last: "recovery_view (set_last_failed_joint_id i d) = recovery_view d" "recovery_view (d\<lparr>is_normal_status := b\<rparr>) = recovery_view d"
    for d :: "'x device_scheme" and i b by (simp_all add: recovery_view_def set_last_failed_joint_id_def)
  show "recovery_view (note_dead dead a) = recovery_view a" by (simp add: note_dead_def Let_def f last)
  have last': "effector_view (set_last_failed_joint_id i a) = effector_view a" "effector_view (a\<lparr>is_normal_status := b\<rparr>) = effector_view a"
    for a :: "('s, 'b, 'z) arm_scheme" and i b by (simp_all add: effector_view_def set_last_failed_joint_id_def)
  show "effector_view (note_dead dead a) = effector_view a" by (simp add: note_dead_def Let_def g last')
qed

lemma note_read_effector: "effector_view (note_read t x a) = effector_view a"
  by (cases "(t, x, a)" rule: note_read.cases)
     (auto simp: effector_view_def set_last_failed_joint_id_def mark_joint_failed_during_recovery_def Let_def)

lemma group_read_still: "arm_group_read A s = (s', rc) \<Longrightarrow> arm_still s s'"
  by (auto simp: arm_group_read_def Let_def split: if_splits prod.splits intro!: arm_still_drv)

lemma probe_still: "probe_failed_servo_id E x = Some (x', i) \<Longrightarrow> still x x'"
  by (auto simp: probe_failed_servo_id_def split: option.splits dest: with_joints_still)

lemma probe_effector_still: "probe_effector E s = Some s' \<Longrightarrow> arm_still s s'"
proof (cases "p_effector (fst s)")
  case (Some e)
  moreover assume "probe_effector E s = Some s'"
  ultimately obtain e' n i where p: "probe_failed_servo_id E (e, snd s) = Some ((e', n), i)"
    and s': "s' = (let a = (fst s)\<lparr>p_effector := Some e'\<rparr> in (if 0 \<le> i then set_last_failed_joint_id i a else a, n))"
    by (auto simp: probe_effector_def Let_def split: option.splits)
  from probe_still [OF p] Some show ?thesis
    by (simp add: s' arm_still_def still_def arm_views Let_def set_last_failed_joint_id_def)
qed (simp add: probe_effector_def)

lemma arm_read_still: "arm_read_hardware_values A s = Some (s', rc) \<Longrightarrow> arm_still s s'"
proof -
  assume r: "arm_read_hardware_values A s = Some (s', rc)"
  define t where "t = (is_in_emergency_recovery (fst s) \<or> \<not> is_ready (fst s))"
  obtain s1 g where g: "arm_group_read A s = (s1, g)" by fastforce
  show ?thesis
  proof (cases "is_driver_created_by_this (fst s) \<and> \<not> has_driver (fst s)")
    case True
    with r show ?thesis by (simp add: arm_read_hardware_values_def)
  next
    case False
    define scanned where "scanned = with_arm_joints (scan (ends_read t) (read_joint (aw_env A) (fst s1) (failed_joint_ids (fst s1)))
      (a_joints (fst s1)) (n_drv (snd s1))) s1"
    obtain a n outs where w: "scanned = Some ((a, n), outs)"
      using r False by (cases scanned) (auto simp: arm_read_hardware_values_def g Let_def t_def [symmetric] scanned_def)
    define s2 where "s2 = (fold (note_read t) outs a, n)"
    have "arm_still s s1" by (rule group_read_still [OF g])
    also have "arm_still s1 (a, n)" using w unfolding scanned_def by (rule with_arm_joints_still)
    also have "arm_still (a, n) s2"
      using arm_still_device [of "fold (note_read t) outs a" "(a, n)"]
      by (simp add: s2_def keeps_view note_read_view fold_keeps [of effector_view] note_read_effector)
    also have "s' = s2 \<or> probe_effector (aw_env A) s2 = Some s'"
      using r False w [unfolded scanned_def]
      by (auto simp: arm_read_hardware_values_def g Let_def t_def [symmetric] s2_def split: if_split_asm)
    then have "arm_still s2 s'" by (auto intro: probe_effector_still)
    finally show ?thesis .
  qed
qed

lemma arm_write_still: "arm_write_hardware_values A s = Some (s', rc) \<Longrightarrow> arm_still s s'"
  by (auto simp: arm_write_hardware_values_def split: if_splits prod.splits intro!: arm_still_drv)

lemma ratio_views [simp]:
  "recovery_view (fst (arm_completion_ratio c a)) = recovery_view a" "effector_view (fst (arm_completion_ratio c a)) = effector_view a"
  by (simp_all add: arm_completion_ratio_def Let_def split_beta arm_views)

section \<open>Operation\<close>

lemma torque_views:
  "model_torques A a = Some (a', rc) \<Longrightarrow> recovery_view a' = recovery_view a \<and> effector_view a' = effector_view a"
  "adjust_torques f a = Some a' \<Longrightarrow> recovery_view a' = recovery_view a \<and> effector_view a' = effector_view a"
  "recovery_view (zero_torques a) = recovery_view a" "effector_view (zero_torques a) = effector_view a"
  by (auto simp: model_torques_def adjust_torques_def zero_torques_def Let_def arm_views split: if_splits prod.splits)

lemma adjusted_views: "adjusted_model_torques A f a = Some (a', rc) \<Longrightarrow> recovery_view a' = recovery_view a \<and> effector_view a' = effector_view a"
  by (auto simp: adjusted_model_torques_def split: option.splits if_splits dest!: torque_views(1,2))

lemma feedforward_views:
  "update_follower_feedforward_torques A a = Some (a', rc) \<Longrightarrow> recovery_view a' = recovery_view a \<and> effector_view a' = effector_view a"
  by (auto simp: update_follower_feedforward_torques_def Let_def torque_views split: if_splits dest!: adjusted_views)

lemma lead_still: "lead E s = Some (s', rc) \<Longrightarrow> arm_still s s'"
proof -
  assume l: "lead E s = Some (s', rc)"
  consider f and xs :: "flt list" where "each_joint_with E f xs s = Some (s', rc)" | js where "s' = ((fst s)\<lparr>a_joints := js\<rparr>, snd s)"
    | js f and xs :: "flt list" where "each_joint_with E f xs ((fst s)\<lparr>a_joints := js\<rparr>, snd s) = Some (s', rc)"
    using l by (auto simp: lead_def Let_def split: if_splits prod.splits)
  then show ?thesis
  proof cases
    case 3
    have "arm_still s ((fst s)\<lparr>a_joints := js\<rparr>, snd s)" by (rule arm_still_device) (simp_all add: arm_views)
    then show ?thesis using each_joint_with_still [OF 3] by (rule arm_still_trans)
  qed (auto intro: each_joint_with_still arm_still_device simp: arm_views)
qed

lemma arm_leader_still: "arm_operate_as_leader A s = Some (s', rc) \<Longrightarrow> arm_still s s'"
proof -
  assume l: "arm_operate_as_leader A s = Some (s', rc)"
  define s1 where "s1 = (zero_torques (fst s), snd s)"
  have s1: "arm_still s s1" unfolding s1_def by (rule arm_still_device) (simp_all add: torque_views)
  have m: "adjusted_model_torques A scaled_torque (fst s1) = Some (a, rc') \<Longrightarrow> arm_still s (a, snd s)" for a rc'
    by (rule arm_still_device) (auto simp: s1_def torque_views dest!: adjusted_views)
  consider "s' = s" | "lead (aw_env A) s1 = Some (s', rc)" | "s' = s1"
    | a rc' where "adjusted_model_torques A scaled_torque (fst s1) = Some (a, rc')" "s' = (a, snd s) \<or> lead (aw_env A) (a, snd s) = Some (s', rc)"
    using l by (auto simp: arm_operate_as_leader_def Let_def s1_def split: if_splits option.splits)
  then show ?thesis
    by cases (auto intro: s1 m arm_still_trans [OF s1 lead_still] arm_still_trans [OF m lead_still])
qed

lemma float_joints_still: "float_joints A s = Some (s', rc) \<Longrightarrow> arm_still s s'"
proof -
  assume f: "float_joints A s = Some (s', rc)"
  then obtain a rc' where m: "model_torques A (zero_torques (fst s)) = Some (a, rc')"
    by (auto simp: float_joints_def split: option.splits if_splits)
  have "s' = (a, snd s) \<or> (\<exists>js t w. s' = (a\<lparr>a_joints := js, a_target_tor := t\<rparr>, (snd s)\<lparr>n_drv := w\<rparr>))"
    using f m by (auto simp: float_joints_def split: option.splits if_splits)
  moreover have "recovery_view a = recovery_view (fst s)" "effector_view a = effector_view (fst s)"
    using torque_views(1) [OF m] by (simp_all add: torque_views)
  moreover have "recovery_view (a\<lparr>a_joints := js, a_target_tor := t\<rparr>) = recovery_view a"
    "effector_view (a\<lparr>a_joints := js, a_target_tor := t\<rparr>) = effector_view a" for js t
    by (simp_all add: arm_views)
  ultimately show ?thesis by (auto intro!: arm_still_device arm_still_drv)
qed

lemma arm_float_still: "arm_float A s = Some (s', rc) \<Longrightarrow> arm_still s s'"
  by (auto simp: arm_float_def Let_def split: option.splits bool.splits intro: float_joints_still
      elim!: andthen_arm_still [rotated 2] intro: arm_float_command_still arm_still_device intro!: arm_still_pair)

lemma slew_still: "arm_slew A s = Some (s', rc) \<Longrightarrow> arm_still s s'"
proof -
  assume r: "arm_slew A s = Some (s', rc)"
  have upd: "arm_still s ((fst s)\<lparr>follower_slew_last_time := t, slew_goal_positions := gs\<rparr>, snd s)" for t gs
    by (rule arm_still_device) (simp_all add: arm_views)
  show ?thesis
  proof (cases "length (slew_goal_positions (fst s)) \<noteq> length (a_joints (fst s)) \<or> control_frequency (fst s) \<le> 0")
    case True
    with r show ?thesis by (auto simp: arm_slew_def)
  next
    case False
    with r show ?thesis by (auto simp: arm_slew_def Let_def dest!: each_joint_with_still intro: arm_still_trans [OF upd])
  qed
qed

lemma arm_follower_still: "arm_operate_as_follower A s = Some (s', rc) \<Longrightarrow> arm_still s s'"
proof -
  assume f: "arm_operate_as_follower A s = Some (s', rc)"
  have u: "update_follower_feedforward_torques A (fst s) = Some (a, rc') \<Longrightarrow> arm_still s (a, snd s)" for a rc'
    by (rule arm_still_device) (auto dest!: feedforward_views)
  consider "s' = s" | "arm_float A s = Some (s', rc)"
    | a rc' where "update_follower_feedforward_torques A (fst s) = Some (a, rc')" "s' = (a, snd s) \<or> arm_slew A (a, snd s) = Some (s', rc)"
    using f by (auto simp: arm_operate_as_follower_def split: if_splits option.splits)
  then show ?thesis by cases (auto intro: arm_float_still u arm_still_trans [OF u slew_still])
qed

section \<open>Messages and observations\<close>

lemma arm_observe_still: "arm_get_observation A s = Some (s', ms, rc) \<Longrightarrow> arm_still s s'"
proof (cases "p_effector (fst s)")
  case (Some e)
  moreover assume "arm_get_observation A s = Some (s', ms, rc)"
  ultimately obtain e' n ms' where o: "get_observation (aw_env A) (e, snd s) = Some ((e', n), ms', rc)"
    and s': "s' = ((fst s)\<lparr>p_effector := Some e'\<rparr>, n)"
    by (auto simp: arm_get_observation_def Let_def split: option.splits)
  from observe_still [OF o] Some show ?thesis by (simp add: s' arm_still_def still_def arm_views)
qed (simp add: arm_get_observation_def Let_def)

lemma arm_action_still: "arm_apply_action A ms s = Some (s', rc) \<Longrightarrow> arm_still s s'"
proof -
  assume r: "arm_apply_action A ms s = Some (s', rc)"
  have upd: "arm_still s ((fst s)\<lparr>a_tele_pos := ps, a_tele_vel := vs, a_tele_tor := ts, a_joints := js\<rparr>, snd s)" for ps vs ts js
    by (rule arm_still_device) (simp_all add: arm_views)
  from r show ?thesis
    by (auto simp: arm_apply_action_def Let_def split: if_splits dest!: on_effector_still [rotated] intro: apply_action_still arm_still_trans [OF upd])
qed

lemma arm_follower_msg_still: "arm_process_follower_msg A ms s = Some (s', rc) \<Longrightarrow> arm_still s s'"
proof -
  assume r: "arm_process_follower_msg A ms s = Some (s', rc)"
  have upd: "arm_still s ((fst s)\<lparr>a_follower_pos := x1, a_follower_vel := x2, a_follower_tor := x3, a_follower_temperature := x4,
      a_follower_idc_current := x5, follower_pos_filter := x6, follower_vel_filter := x7, follower_tor_filter := x8, a_joints := x9\<rparr>, snd s)"
    for x1 x2 x3 x4 x5 x6 x7 x8 x9 by (rule arm_still_device) (simp_all add: arm_views)
  from r show ?thesis
    by (auto simp: arm_process_follower_msg_def Let_def split: if_splits option.splits dest!: on_effector_still [rotated]
        intro: follower_msg_still arm_still_trans [OF upd])
qed

lemma arm_request_views:
  "recovery_view (arm_request_move_to_ready_position i a) = recovery_view a" "effector_view (arm_request_move_to_ready_position i a) = effector_view a"
  "recovery_view (arm_request_move_to_ready_and_stop i a) = recovery_view a" "effector_view (arm_request_move_to_ready_and_stop i a) = effector_view a"
  by (cases "p_effector a"; simp add: arm_request_move_to_ready_position_def arm_request_move_to_ready_and_stop_def
      request_move_to_ready_position_def request_move_to_ready_and_stop_def arm_views)+

lemma arm_target_still: "message_call_of (arm_target A) f \<Longrightarrow> f s = Some (s', rc) \<Longrightarrow> arm_still s s'"
  by (erule message_call_of.cases)
     (auto simp: arm_target_def refuse_def
        intro: arm_action_still arm_follower_msg_still arm_force_feedback_still arm_gain_still arm_hold_still arm_float_command_still torq_rescale_still)

lemma arm_still_base: "still s s' \<Longrightarrow> device.more (fst s') = device.more (fst s) \<Longrightarrow> arm_still s s'"
  by (cases "fst s" rule: arm.cases_scheme, cases "fst s'" rule: arm.cases_scheme) (simp add: arm_still_def effector_view_def)

interpretation arm_topic: message_contract "arm_base A" "arm_target A" arm_still for A :: "('s, 'b, 'w) arm_world"
proof unfold_locales
  fix d i and n :: "'w node"
  show "arm_still (d, n) (mt_request_ready (arm_target A) i d, n)" "arm_still (d, n) (mt_request_stop (arm_target A) i d, n)"
    by (simp_all add: arm_target_def arm_request_views arm_still_pair)
qed (auto simp: arm_base_def Let_def intro: arm_still_trans arm_still_base arm_target_still dest: zmq_publish_event)

section \<open>The ready move of an arm\<close>

lemma mark_class: "mark_emergency_recovery_completed (arm_base A) = mark_emergency_recovery_completed (arm_class A)"
  by (simp add: fun_eq_iff mark_emergency_recovery_completed_def publish_device_info_def arm_class_def)

lemma arm_prepare_views: "arm_ready_prepare c a = Some a' \<Longrightarrow> recovery_view a' = recovery_view a \<and> effector_view a' = effector_view a"
  by (auto simp: arm_ready_prepare_def ready_move_budget_init_def Let_def arm_views split: if_splits option.splits)

lemma note_move_effector: "effector_view (note_move r a) = effector_view a"
  by (simp add: note_move_def fail_joint_def set_last_failed_joint_id_def mark_joint_failed_during_recovery_def effector_view_def Let_def)

lemma blame_effector_view [simp]: "effector_view (blame i a) = effector_view a"
  by (simp add: blame_def set_last_failed_joint_id_def effector_view_def)

lemma fail_joint_effector [simp]: "effector_view (fail_joint i a) = effector_view a"
  by (simp add: fail_joint_def set_last_failed_joint_id_def mark_joint_failed_during_recovery_def effector_view_def)

lemma arm_updates [simp]:
  fixes a :: "('s, 'b, 'z) arm_scheme"
  shows "recovery_view (arrive a) = recovery_view a" "effector_view (arrive a) = effector_view a"
    "recovery_view (a\<lparr>is_ready_arm := b\<rparr>) = recovery_view a" "effector_view (a\<lparr>is_ready_arm := b\<rparr>) = effector_view a"
    "recovery_view (a\<lparr>is_ready := b\<rparr>) = recovery_view a" "effector_view (a\<lparr>is_ready := b\<rparr>) = effector_view a"
    "recovery_view (a\<lparr>reached_cnt := k\<rparr>) = recovery_view a" "effector_view (a\<lparr>reached_cnt := k\<rparr>) = effector_view a"
    "recovery_view (a\<lparr>a_joints := js\<rparr>) = recovery_view a" "effector_view (a\<lparr>a_joints := js\<rparr>) = effector_view a"
    "recovery_view (fst (ready_move_budget_spend a)) = recovery_view a" "effector_view (fst (ready_move_budget_spend a)) = effector_view a"
  by (simp_all add: arrive_def ready_move_budget_spend_def arm_views Let_def)

lemma parallel_views: "recovery_view (parallel_finish rs a) = recovery_view a" "effector_view (parallel_finish rs a) = effector_view a"
  by (simp_all add: parallel_finish_def Let_def split_beta)

lemma seq_views [simp]: "recovery_view (seq_advance a) = recovery_view a" "effector_view (seq_advance a) = effector_view a"
  by (simp_all add: seq_advance_def Let_def arm_views)

lemma settle_views: "recovery_view (seq_settle i b j x a) = recovery_view a" "effector_view (seq_settle i b j x a) = effector_view a"
  by (simp_all add: seq_settle_def Let_def)

lemma decision_views: "recovery_view (ready_decision b a) = recovery_view a" "effector_view (ready_decision b a) = effector_view a"
  by (cases "p_effector a"; simp add: ready_decision_def Let_def arm_views)+

lemma move_slot_still: "move_slot E i s = Some f \<Longrightarrow> arm_still s (outcome f)"
proof -
  assume m: "move_slot E i s = Some f"
  define u where "u = update_and_check_stuck (ee_servos E) (sees_device (ee_servos E) (fst s) (a_joints (fst s) ! i))"
  define a where "a = fst (ready_move_budget_spend ((fst s)\<lparr>a_joints := (a_joints (fst s))[i := fst u]\<rparr>))"
  have a: "recovery_view a = recovery_view (fst s)" "effector_view a = effector_view (fst s)" by (simp_all add: a_def)
  consider b where "f = Return (seq_advance (blame b a), snd s)"
    | js b w where "f = Return (seq_advance (fail_joint b (a\<lparr>a_joints := js\<rparr>)), (snd s)\<lparr>n_drv := w\<rparr>)"
    | js b st x y w where "f = Continue (seq_settle b st x y (a\<lparr>a_joints := js\<rparr>), (snd s)\<lparr>n_drv := w\<rparr>)"
    using m by (auto simp: move_slot_def Let_def split_beta a_def u_def split: if_splits option.splits)
  then show ?thesis by cases (auto intro!: arm_still_device arm_still_drv simp: a settle_views)
qed

lemma move_sequential_still: "move_sequential E s = Some (f, rc) \<Longrightarrow> arm_still s (outcome f)"
  by (auto simp: move_sequential_def Let_def split: if_splits option.splits intro: move_slot_still intro!: arm_still_device)

lemma move_parallel_related:
  assumes "move_parallel E mark s = Some (s', rc)"
  obtains s1 where "arm_still s s1" "s' = s1 \<or> s' = mark s1"
proof -
  let ?r = "joints_only (scan (\<lambda>_. False) (arm_ready_joint E (fst s) (failed_joint_ids (fst s)) (arm_ready_step (fst s)))
    (beside (a_target_tor (fst s)) (a_joints (fst s))) (n_drv (snd s)))"
  obtain a n outs where w: "with_arm_joints ?r s = Some ((a, n), outs)"
    using assms by (cases "with_arm_joints ?r s") (auto simp: move_parallel_def)
  define rs where "rs = List.map_filter (\<lambda>x. x) outs"
  define s1 where "s1 = (parallel_finish rs (fold note_move rs a), n)"
  have "arm_still s (a, n)" by (rule with_arm_joints_still) (rule w)
  also have "arm_still (a, n) s1"
    unfolding s1_def
    by (rule arm_still_pair) (simp_all add: parallel_views keeps_view note_move_view fold_keeps [of effector_view] note_move_effector)
  finally show thesis
    using assms w by (intro that [of s1]) (auto simp: move_parallel_def rs_def [symmetric] s1_def Let_def)
qed

lemma hold_arm_pose_still: "hold_arm_pose E s = Some (s', rc) \<Longrightarrow> arm_still s s'"
  unfolding hold_arm_pose_def by (rule each_joint_with_still)

lemma move_arm_related:
  assumes "move_arm E mark s = Some (f, rc)"
  obtains s1 where "arm_still s s1" "outcome f = s1 \<or> outcome f = mark s1"
proof (cases "is_ready_arm (fst s)")
  case True
  with assms obtain s1 where "hold_arm_pose E s = Some (s1, rc)" "outcome f = s1"
    by (cases "hold_arm_pose E s") (auto simp: move_arm_def split: if_splits)
  then show thesis using that hold_arm_pose_still by blast
next
  case False
  with assms obtain a where p: "arm_ready_prepare (ee_servos E) (fst s) = Some a" by (auto simp: move_arm_def split: option.splits)
  have a: "arm_still s (a, snd s)" using arm_prepare_views [OF p] by (intro arm_still_device) auto
  consider s' where "move_parallel E mark (a, snd s) = Some (s', rc)" "outcome f = s'"
    | "move_sequential E (a, snd s) = Some (f, rc)" | "f = Return (a, snd s)"
    using assms False p by (cases "moving_mode a") (auto simp: move_arm_def)
  then show thesis
  proof cases
    case 1
    from 1(1) obtain s1 where "arm_still (a, snd s) s1" "s' = s1 \<or> s' = mark s1" by (rule move_parallel_related)
    with 1(2) arm_still_trans [OF a] show thesis by (intro that [of s1]) auto
  next
    case 2
    then show thesis using that arm_still_trans [OF a move_sequential_still] by blast
  next
    case 3
    then show thesis using that a by auto
  qed
qed

text \<open>A cycle of the ready move: still, then perhaps the end of the recovery, then still again.\<close>

lemma arm_ready_related:
  assumes "arm_move_to_ready_position A mark s = Some (s', rc)"
  obtains s1 s2 where "arm_still s s1" "s2 = s1 \<or> s2 = mark s1" "arm_still s2 s'"
proof -
  consider a where "recovery_view a = recovery_view (fst s)" "effector_view a = effector_view (fst s)" "s' = (a, snd s)"
    | a f rc1 where "update_follower_feedforward_torques A (fst s) = Some (a, SUCCESS)" "move_arm (aw_env A) mark (a, snd s) = Some (f, rc1)"
        "s' = outcome f \<or> s' = (ready_decision (is_in_emergency_recovery (fst s)) (fst (outcome f)), snd (outcome f))"
  proof (cases "is_read_only (fst s) \<or> cla_dont_go_to_home_pos (cla (fst s)) \<and> is_startup_ready_phase (fst s)")
    case True
    from True assms have "\<exists>a. recovery_view a = recovery_view (fst s) \<and> effector_view a = effector_view (fst s) \<and> s' = (a, snd s)"
      by (auto simp: arm_move_to_ready_position_def Let_def split: if_splits)
    then show thesis using that(1) by blast
  next
    case False
    with assms obtain a rc1 where u: "update_follower_feedforward_torques A (fst s) = Some (a, rc1)"
      by (auto simp: arm_move_to_ready_position_def Let_def split: option.splits if_splits)
    show thesis
    proof (cases "rc1 = SUCCESS")
      case True
      with assms False u obtain f rc2 where m: "move_arm (aw_env A) mark (a, snd s) = Some (f, rc2)"
        by (auto simp: arm_move_to_ready_position_def Let_def split: option.splits)
      have "s' = outcome f \<or> s' = (ready_decision (is_in_emergency_recovery (fst s)) (fst (outcome f)), snd (outcome f))"
        using assms False u True m by (cases f) (auto simp: arm_move_to_ready_position_def Let_def)
      with u m True show thesis by (intro that(2)) auto
    next
      case False': False
      with assms False u show thesis
        using feedforward_views [OF u] by (intro that(1) [of a]) (auto simp: arm_move_to_ready_position_def Let_def)
    qed
  qed
  then show thesis
  proof cases
    case 1
    then have "arm_still s s'" by (auto intro: arm_still_device)
    then show thesis using that by blast
  next
    case 2
    have a: "arm_still s (a, snd s)" using feedforward_views [OF 2(1)] by (intro arm_still_device) auto
    from 2(2) obtain s1 where s1: "arm_still (a, snd s) s1" "outcome f = s1 \<or> outcome f = mark s1" by (rule move_arm_related)
    have "arm_still (outcome f) s'"
      using 2(3) by (cases "outcome f") (auto intro: arm_still_pair simp: decision_views)
    with s1 arm_still_trans [OF a s1(1)] show thesis by (intro that [of s1 "outcome f"]) auto
  qed
qed

section \<open>The arm keeps the contracts\<close>

lemma arm_call_still: "device_call_of (arm_class A) f \<Longrightarrow> f s = Some (s', rc) \<Longrightarrow> arm_still s s'"
  by (erule device_call_of.cases)
     (auto simp: arm_class_def arm_base_def Let_def observe_def as_call_def arm_topic_step_def split: option.splits
        intro: arm_read_still arm_write_still arm_leader_still arm_follower_still arm_mode_still arm_force_feedback_still arm_observe_still arm_hold_still
        dest: arm_topic.zmq_step_related [unfolded arm_base_def Let_def])

lemma arm_reset_views: "recovery_view (arm_reset_ready a) = recovery_view a" "effector_view (arm_reset_ready a) = effector_view a"
  by (simp_all add: arm_reset_ready_def base_reset_ready_def arm_views)

interpretation arm: device_contract "arm_class A" for A :: "('s, 'b, 'w) arm_world"
proof unfold_locales
  fix e s n' rc
  show "vd_publish (arm_class A) e s = (n', rc) \<Longrightarrow> n_events n' = n_events (snd s) \<or> n_events n' = n_events (snd s) @ [e]"
    by (auto simp: arm_class_fields dest: zmq_publish_event)
next
  fix f s s' rc
  show "device_call_of (arm_class A) f \<Longrightarrow> f s = Some (s', rc) \<Longrightarrow> still s s'" by (drule (1) arm_call_still) (simp add: arm_still_def)
next
  fix s s' rc
  assume "vd_move_to_ready (arm_class A) s = Some (s', rc)"
  then have "arm_move_to_ready_position A (mark_emergency_recovery_completed (arm_class A)) s = Some (s', rc)"
    by (simp add: arm_class_fields arm_ready_move_def mark_class)
  then obtain s1 s2 where "arm_still s s1" "s2 = s1 \<or> s2 = mark_emergency_recovery_completed (arm_class A) s1" "arm_still s2 s'"
    by (rule arm_ready_related)
  then show "calm (arm_class A) s s'"
    by (auto simp: arm_still_def intro: calm_still calm_trans calm_trans [OF calm_still calm_trans [OF calm_mark calm_still]])
qed (simp_all add: arm_class_fields arm_reset_views)

text \<open>The recovery of the effector is not touched by the cycle of its arm.\<close>

lemma mark_effector_view: "effector_view (fst (mark_emergency_recovery_completed c s)) = effector_view (fst s)"
  by (cases s) (simp add: mark_emergency_recovery_completed_def info_device topic_stop_def Let_def effector_view_def)

interpretation arm_effector: device_invariant "arm_class A" "\<lambda>a. effector_view a = v"
  for A :: "('s, 'b, 'w) arm_world" and v
proof unfold_locales
  fix d d' :: "('s, 'b, 'z) arm_scheme"
  show "device.more d' = device.more d \<Longrightarrow> effector_view d = v \<Longrightarrow> effector_view d' = v"
    by (cases d rule: arm.cases_scheme, cases d' rule: arm.cases_scheme) (simp add: effector_view_def)
next
  fix f s s' rc
  show "device_call_of (arm_class A) f \<Longrightarrow> f s = Some (s', rc) \<Longrightarrow> effector_view (fst s) = v \<Longrightarrow> effector_view (fst s') = v"
    by (drule (1) arm_call_still) (simp add: arm_still_def)
next
  fix s s' rc
  assume "vd_move_to_ready (arm_class A) s = Some (s', rc)" "effector_view (fst s) = v"
  moreover from this(1) obtain s1 s2 where "arm_still s s1" "s2 = s1 \<or> s2 = mark_emergency_recovery_completed (arm_base A) s1" "arm_still s2 s'"
    unfolding arm_class_fields arm_ready_move_def by (rule arm_ready_related)
  ultimately show "effector_view (fst s') = v" by (auto simp: arm_still_def mark_effector_view)
qed (simp_all add: arm_class_fields arm_reset_views)

section \<open>Runs of an arm with its effector\<close>

text \<open>
  The main loop steps the arm, which steps its effector, and enters recovery when a step fails; client commands arrive; the driver and the
  clock go on by themselves.
\<close>

inductive arm_run :: "('s, 'b, 'w) arm_world \<Rightarrow> ('s, 'b, 'z) arm_scheme \<times> 'w node \<Rightarrow> ('s, 'b, 'z) arm_scheme \<times> 'w node \<Rightarrow> bool" for A where
  arm_run_start: "arm_run A s s"
| arm_run_step: "arm_run A s s' \<Longrightarrow> arm_step A (arm_class A) s' = Some (s'', rc) \<Longrightarrow> arm_run A s s''"
| arm_run_enter: "arm_run A s s' \<Longrightarrow> arm_run A s (enter_emergency_recovery (arm_class A) cause j s')"
| arm_run_request: "arm_run A s (a, n) \<Longrightarrow> arm_run A s (arm_request_move_to_ready_position i a, n)"
| arm_run_request_stop: "arm_run A s (a, n) \<Longrightarrow> arm_run A s (arm_request_move_to_ready_and_stop i a, n)"
| arm_run_heartbeat: "arm_run A s (a, n) \<Longrightarrow> arm_run A s (note_client_heartbeat t a, n)"
| arm_run_world: "arm_run A s (a, n) \<Longrightarrow> arm_run A s (a, n\<lparr>n_drv := w\<rparr>)"

text \<open>An effector on the topic of its arm that is in no recovery of its own.\<close>

definition effector_quiet :: "('s, 'b, 'z) arm_scheme \<Rightarrow> bool" where
  "effector_quiet a \<longleftrightarrow> (\<forall>e. p_effector a = Some e \<longrightarrow> emergency_state e = EM_NONE \<and> \<not> is_topic_created_by_this e)"

lemma effector_quiet_view: "effector_view a' = effector_view a \<Longrightarrow> effector_quiet a \<Longrightarrow> effector_quiet a'"
  by (cases "p_effector a"; cases "p_effector a'") (auto simp: effector_quiet_def effector_view_def recovery_viewD)

lemma effector_step_still:
  assumes "on_effector (device_step (effector_class W)) s = Some (s', rc)" "effector_quiet (fst s)"
  shows "arm_still s s'"
proof (cases "p_effector (fst s)")
  case None
  with assms(1) show ?thesis by (simp add: on_effector_def)
next
  case (Some e)
  then obtain e' n' where f: "device_step (effector_class W) (e, snd s) = Some ((e', n'), rc)" and s': "s' = ((fst s)\<lparr>p_effector := Some e'\<rparr>, n')"
    using assms(1) by (auto simp: on_effector_def split: option.splits)
  have "recovery_kept (e, snd s) (e', n')"
    by (rule effector_patient.step_kept [OF f]) (use assms(2) Some in \<open>simp add: effector_quiet_def\<close>)
  then show ?thesis
    using assms(2) Some by (simp add: s' recovery_kept_def arm_still_def still_def effector_quiet_def arm_views)
qed

lemma blame_effector_still: "blame_effector E s = Some s' \<Longrightarrow> arm_still s s'"
proof -
  have "arm_still s (set_last_failed_joint_id i (fst s), snd s)" for i
    by (rule arm_still_device) (simp_all add: set_last_failed_joint_id_def arm_views)
  then show "blame_effector E s = Some s' \<Longrightarrow> arm_still s s'"
    by (auto simp: blame_effector_def split: option.splits if_splits intro: probe_effector_still)
qed

lemma arm_step_advances:
  assumes "arm_step A (arm_class A) s = Some (s', rc)" "effector_quiet (fst s)"
  shows "advances s s' \<and> effector_view (fst s') = effector_view (fst s)"
proof -
  obtain s1 rc1 where d: "device_step (arm_class A) s = Some (s1, rc1)" using assms(1) by (auto simp: arm_step_def split: option.splits)
  have v: "effector_view (fst s1) = effector_view (fst s)" by (rule arm_effector.step_keeps [OF d]) simp
  have q: "effector_quiet (fst s1)" by (rule effector_quiet_view [OF v assms(2)])
  consider "s' = s1" | s2 rc2 where "on_effector (device_step (effector_class (aw_world A))) s1 = Some (s2, rc2)" "s' = s2 \<or> blame_effector (aw_env A) s2 = Some s'"
    using assms(1) d by (auto simp: arm_step_def Let_def split: if_splits option.splits)
  then have "arm_still s1 s'"
    by cases (auto dest: effector_step_still [OF _ q] blame_effector_still intro: arm_still_trans)
  with v show ?thesis using advances_trans [OF arm.step_advances [OF d] still_advances] by (auto simp: arm_still_def)
qed

lemma arm_run_advances: "arm_run A s s' \<Longrightarrow> effector_quiet (fst s) \<Longrightarrow> advances s s' \<and> effector_view (fst s') = effector_view (fst s)"
proof (induction rule: arm_run.induct)
  case (arm_run_step s s' s'' rc)
  then have "effector_quiet (fst s')" using effector_quiet_view by blast
  with arm_run_step arm_step_advances [OF arm_run_step.hyps(2)] show ?case by (auto intro: advances_trans)
next
  case (arm_run_enter s s' cause j)
  then show ?case using arm.enter_advances [of s' A cause j] arm_effector.enter_keeps [where s = s'] advances_trans by metis
next
  case (arm_run_request s a n i)
  have "arm_still (a, n) (arm_request_move_to_ready_position i a, n)" by (rule arm_still_pair) (simp_all add: arm_request_views)
  with arm_run_request show ?case by (auto simp: arm_still_def intro: advances_trans still_advances)
next
  case (arm_run_request_stop s a n i)
  have "arm_still (a, n) (arm_request_move_to_ready_and_stop i a, n)" by (rule arm_still_pair) (simp_all add: arm_request_views)
  with arm_run_request_stop show ?case by (auto simp: arm_still_def intro: advances_trans still_advances)
next
  case (arm_run_heartbeat s a n t)
  have "arm_still (a, n) (note_client_heartbeat t a, n)" by (rule arm_still_pair) (simp_all add: note_client_heartbeat_def arm_views)
  with arm_run_heartbeat show ?case by (auto simp: arm_still_def intro: advances_trans still_advances)
next
  case (arm_run_world s a n w)
  have "arm_still (a, n) (a, n\<lparr>n_drv := w\<rparr>)" using arm_still_drv [of a "(a, n)" w] by simp
  with arm_run_world show ?case by (auto simp: arm_still_def intro: advances_trans still_advances)
qed simp

section \<open>Recovery of an arm\<close>

text \<open>Emergency recovery of an arm is one-way, with its effector running beside it. In any run, whatever the hardware, the topic and the
  clients do, the recovery state never falls back, the first cause and the first failed joint stay recorded, the shutdown notice goes out at most
  once and with that cause, and the recovery counts as announced exactly when it is completed. The effector never enters a recovery of its own.
\<close>

theorem arm_recovery_one_way:
  assumes "arm_run A s s'" "recovery_ok s" "effector_quiet (fst s)"
  shows "recovery_rank (emergency_state (fst s)) \<le> recovery_rank (emergency_state (fst s')) \<and> recovery_ok s' \<and>
    length (shutdown_notices (snd s')) \<le> 1 \<and> effector_quiet (fst s') \<and>
    (emergency_state (fst s) \<noteq> EM_NONE \<longrightarrow>
       emergency_cause (fst s') = emergency_cause (fst s) \<and> emergency_failed_joint_id (fst s') = emergency_failed_joint_id (fst s))"
  using arm_run_advances [OF assms(1,3)] assms(2) effector_quiet_view [OF _ assms(3)] by (auto simp: advances_def recovery_ok_def)

text \<open>A leader arm in emergency recovery publishes no observation, and its effector none for it, so that a follower does not copy the movements of its
  slow ready move: in any run that starts in recovery the published observations stay the same.
\<close>

theorem recovering_leader_arm_is_silent:
  assumes "arm_run A s s'" "effector_quiet (fst s)" "emergency_state (fst s) \<noteq> EM_NONE" "d_role (fst s) = LEADER"
  shows "observations (snd s') = observations (snd s)"
  using arm_run_advances [OF assms(1,2)] assms(3,4) by (simp add: advances_def)

section \<open>Witnesses\<close>

text \<open>An arm of one idle servo with the gripper of the effector's witnesses on it, and a dynamics model that knows no gravity.\<close>

definition idle_arm_world :: "(servo, lbuf, unit) arm_world" where
  "idle_arm_world =
     \<lparr>aw_world = idle_world, aw_class = DeviceArmCan_class, aw_dead = (\<lambda>_. []), aw_gravity = (\<lambda>_ tor. (tor, SUCCESS)),
      aw_has_gravity_model = True, aw_report = (\<lambda>_ _. None)\<rparr>"

definition sample_arm_args :: arm_args where
  "sample_arm_args =
     \<lparr>aa_moving_mode = PARALLEL, aa_follower_gravity_compensation_override = ''config'', aa_torq_rescale_override = [],
      aa_leader_gravity_compensation = False, aa_effector = None\<rparr>"

definition sample_arm :: "(servo, lbuf) arm" where
  "sample_arm = (new_arm_object sample_args sample_arm_args)\<lparr>has_topic := True, is_topic_created_by_this := True, has_driver := True, has_algo := True,
     d_role := LEADER, a_joints := [sample_joint (Fin 30)], a_target_tor := [Fin 0], p_effector := Some sample_gripper\<rparr>"

lemmas sample_arm_simps = sample_arm_def new_arm_object_def sample_arm_args_def device.defs new_device_object_def sample_args_def

definition arm_in_recovery :: "(servo, lbuf) arm \<times> unit node" where
  "arm_in_recovery = enter_emergency_recovery (arm_class idle_arm_world) SAFE_MODE_SIG 3 (sample_arm, sample_node)"

lemma sample_gripper_quiet: "emergency_state sample_gripper = EM_NONE" "\<not> is_topic_created_by_this sample_gripper"
  by (simp_all add: sample_gripper_simps)

lemma arm_in_recovery_facts:
  "recovery_ok arm_in_recovery" "emergency_state (fst arm_in_recovery) = EM_REQUESTED"
  "emergency_cause (fst arm_in_recovery) = code_of SAFE_MODE_SIG" "d_role (fst arm_in_recovery) = LEADER"
  "observations (snd arm_in_recovery) = []" "effector_quiet (fst arm_in_recovery)"
  by (simp_all add: arm_in_recovery_def enter_emergency_recovery_def sample_arm_simps sample_node_def set_pause_leader_command_listening_def
      publish_device_info_def arm_class_fields idle_arm_world_def idle_world_def recovery_ok_def shutdown_notices_def observations_def sent_event_def
      DEVICE_INFO_ERROR_DETECTED_def DEVICE_INFO_SHUTDOWN_AFTER_ERROR_def effector_quiet_def sample_gripper_quiet)

theorem arm_recovery_one_way_witness:
  "emergency_cause (fst (enter_emergency_recovery (arm_class idle_arm_world) HARDWARE_FAULT 5 arm_in_recovery)) = code_of SAFE_MODE_SIG"
  using arm_recovery_one_way [OF arm_run_enter [OF arm_run_start], of arm_in_recovery idle_arm_world HARDWARE_FAULT 5]
  by (simp add: arm_in_recovery_facts)

theorem recovering_leader_arm_is_silent_witness:
  "observations (snd (enter_emergency_recovery (arm_class idle_arm_world) HARDWARE_FAULT 5 arm_in_recovery)) = []"
  using recovering_leader_arm_is_silent [OF arm_run_enter [OF arm_run_start], of arm_in_recovery idle_arm_world HARDWARE_FAULT 5]
  by (simp add: arm_in_recovery_facts)

end
