(* ===== verification/Arm_Motion.thy ===== *)
theory Arm_Motion
  imports Arm_Class Effector_Motion
begin

text \<open>
  What an arm promises about motion (\<^verbatim>\<open>native/pi_control/src/pi_device_arm.cpp\<close>): the parallel ready move completes an emergency recovery
  whatever the hardware does, the sequential one never does, a runaway of the gravity float is caught within one cycle, and
  the joints of a follower move in step.
\<close>

section \<open>A cycle of the parallel ready move\<close>

lemma overwrite_self: "overwrite xs [] = xs"
  by (simp add: overwrite_def)

text \<open>The feed-forward only writes its two vectors.\<close>

lemma feedforward_fields:
  "update_follower_feedforward_torques A a = Some (a', rc) \<Longrightarrow> \<exists>ps ts. a' = a\<lparr>current_motor_positions := ps, a_target_tor := ts\<rparr>"
proof -
  assume u: "update_follower_feedforward_torques A a = Some (a', rc)"
  have same: "a\<lparr>a_target_tor := ts\<rparr> = a\<lparr>current_motor_positions := current_motor_positions a, a_target_tor := ts\<rparr>" for ts by simp
  consider ts where "a' = a\<lparr>a_target_tor := ts\<rparr>" | ps ts where "a' = a\<lparr>current_motor_positions := ps, a_target_tor := ts\<rparr>"
    using u by (auto simp: update_follower_feedforward_torques_def adjusted_model_torques_def model_torques_def adjust_torques_def zero_torques_def Let_def
        split: if_splits option.splits prod.splits)
  then show ?thesis using same by cases metis+
qed

lemma mark_fields:
  "device.more (fst (mark_emergency_recovery_completed c s)) = device.more (fst s)"
  "ready_counters (fst (mark_emergency_recovery_completed c s)) = ready_counters (fst s)"
  by (cases s; simp add: mark_emergency_recovery_completed_def info_device topic_stop_def Let_def ready_counters_def)+

lemma mark_completes:
  assumes "emergency_state (fst s) \<noteq> EM_NONE" "\<not> emergency_completed_published (fst s)" "has_topic (fst s)"
  shows "emergency_state (fst (mark_emergency_recovery_completed c s)) = EM_COMPLETED" "\<not> n_running (snd (mark_emergency_recovery_completed c s))"
  using assms by (cases s; simp add: mark_emergency_recovery_completed_def info_device topic_stop_def Let_def)+

lemma arm_ready_same: "device.more (a' :: ('s, 'b, 'z) arm_scheme) = device.more a \<Longrightarrow> is_ready_arm a' = is_ready_arm a"
  by (cases a rule: arm.cases_scheme, cases a' rule: arm.cases_scheme) simp

lemma mark_ready_arm: "is_ready_arm (fst (mark_emergency_recovery_completed c s)) = is_ready_arm (fst s)"
  by (rule arm_ready_same) (rule mark_fields)

lemma decision_fields:
  "is_ready_arm (ready_decision b a) = is_ready_arm a" "init_count (ready_decision b a) = init_count a + 1"
  "reached_cnt (ready_decision b a) = reached_cnt a" "ready_move_budget_total (ready_decision b a) = ready_move_budget_total a"
  "ready_move_budget_used (ready_decision b a) = ready_move_budget_used a" "emergency_state (ready_decision b a) = emergency_state a"
  "is_ready_arm a \<Longrightarrow> b \<Longrightarrow> is_ready (ready_decision b a)"
  by (cases "p_effector a"; simp add: ready_decision_def Let_def)+

definition slow_parallel_move :: "('s, 'b, 'w) arm_world \<Rightarrow> ('s, 'b, 'z) arm_scheme \<Rightarrow> bool" where
  "slow_parallel_move A a \<longleftrightarrow>
     moving_mode a = PARALLEL \<and> \<not> is_read_only a \<and> \<not> is_ready_arm a \<and> emergency_state a = EM_MOVING_SLOW \<and>
     \<not> emergency_completed_published a \<and> has_topic a \<and> (\<exists>a'. update_follower_feedforward_torques A a = Some (a', SUCCESS))"

lemma parallel_cycle:
  assumes "arm_ready_move A s = Some (s', rc)" "slow_parallel_move A (fst s)"
  obtains a0 e a n outs rs where "ready_counters a0 = ready_counters (fst s)"
    and "arm_ready_prepare (aw_servos A) a0 = Some e"
    and "with_arm_joints (joints_only (scan (\<lambda>_. False) (arm_ready_joint (aw_env A) e (failed_joint_ids e) (arm_ready_step e))
           (beside (a_target_tor e) (a_joints e)) (n_drv (snd s)))) (e, snd s) = Some ((a, n), outs)"
    and "recovery_view e = recovery_view (fst s)" "is_ready_arm e = False" "rs = List.map_filter (\<lambda>x. x) outs"
    and "s' = (let s1 = (parallel_finish rs (fold note_move rs a), n);
                   s2 = (if is_ready_arm (fst s1) then mark_emergency_recovery_completed (arm_base A) s1 else s1)
               in (ready_decision True (fst s2), snd s2))"
proof -
  from assms(2) obtain a0 where a0: "update_follower_feedforward_torques A (fst s) = Some (a0, SUCCESS)"
    and st: "moving_mode (fst s) = PARALLEL" "\<not> is_read_only (fst s)" "\<not> is_ready_arm (fst s)" "emergency_state (fst s) = EM_MOVING_SLOW"
    by (auto simp: slow_parallel_move_def)
  from feedforward_fields [OF a0] obtain ps ts where f: "a0 = (fst s)\<lparr>current_motor_positions := ps, a_target_tor := ts\<rparr>" by blast
  have rec: "is_in_emergency_recovery (fst s) = True" using st by (simp add: is_in_emergency_recovery_def)
  have m: "(case move_arm (aw_env A) (mark_emergency_recovery_completed (arm_base A)) (a0, snd s) of
      None \<Rightarrow> None | Some (Return s, rc) \<Rightarrow> Some (s, rc) | Some (Continue s, rc) \<Rightarrow> Some ((ready_decision True (fst s), snd s), rc)) = Some (s', rc)"
    using assms(1) st a0
    by (auto simp: arm_ready_move_def arm_move_to_ready_position_def Let_def is_startup_ready_phase_def rec split: option.splits flow.splits prod.splits)
  then obtain e where e: "arm_ready_prepare (aw_servos A) a0 = Some e" using st by (auto simp: move_arm_def f split: option.splits)
  have ef: "moving_mode e = PARALLEL" "is_ready_arm e = False" "recovery_view e = recovery_view (fst s)"
    using e st by (auto simp: arm_ready_prepare_def f ready_move_budget_init_def Let_def recovery_view_def split: if_splits option.splits)
  let ?r = "joints_only (scan (\<lambda>_. False) (arm_ready_joint (aw_env A) e (failed_joint_ids e) (arm_ready_step e))
           (beside (a_target_tor e) (a_joints e)) (n_drv (snd s)))"
  have mp: "(case move_parallel (aw_env A) (mark_emergency_recovery_completed (arm_base A)) (e, snd s) of
      None \<Rightarrow> None | Some (s, rc) \<Rightarrow> Some ((ready_decision True (fst s), snd s), rc)) = Some (s', rc)"
    using m st e ef(1) by (cases "move_parallel (aw_env A) (mark_emergency_recovery_completed (arm_base A)) (e, snd s)") (auto simp: move_arm_def f)
  then obtain a n outs where w: "with_arm_joints ?r (e, snd s) = Some ((a, n), outs)"
    by (cases "with_arm_joints ?r (e, snd s)") (auto simp: move_parallel_def)
  define rs where "rs = List.map_filter (\<lambda>x. x) outs"
  define s1 where "s1 = (parallel_finish rs (fold note_move rs a), n)"
  have "recovery_view (fst s1) = recovery_view (fst s)"
    using with_arm_joints_still [OF w] ef(3) by (simp add: s1_def parallel_views keeps_view note_move_view arm_still_def still_def)
  then have r: "is_in_emergency_recovery (fst s1)" using st by (simp add: recovery_viewD is_in_emergency_recovery_def)
  have "s' = (let s2 = (if is_ready_arm (fst s1) then mark_emergency_recovery_completed (arm_base A) s1 else s1)
               in (ready_decision True (fst s2), snd s2))"
    using mp w r unfolding s1_def by (auto simp: move_parallel_def rs_def [symmetric] Let_def)
  with e w ef show thesis
    by (intro that [of a0 e a n outs rs]) (auto simp: f ready_counters_def s1_def rs_def Let_def)
qed

lemma parallel_counters:
  assumes "a' = parallel_finish rs a" "\<not> is_ready_arm a'" "\<not> is_ready_arm a"
  shows "init_count a' = init_count a" "ready_move_budget_used a' = ready_move_budget_used a + 1"
    "ready_move_budget_total a' = ready_move_budget_total a"
    "if list_ex unsettled rs then reached_cnt a' = reached_cnt a \<and> \<not> (0 < ready_move_budget_total a \<and> ready_move_budget_total a < ready_move_budget_used a + 1)
     else reached_cnt a' = reached_cnt a + 1 \<and> reached_cnt a' \<le> DEVICE_ARRIVED_CONFIRM_CNT"
  using assms by (auto simp: parallel_finish_def ready_move_budget_spend_def arrive_def Let_def blame_def set_last_failed_joint_id_def split: if_splits)

lemma note_move_ready_arm: "is_ready_arm (note_move r a) = is_ready_arm a"
  by (simp add: note_move_def fail_joint_def set_last_failed_joint_id_def mark_joint_failed_during_recovery_def Let_def)

lemma with_arm_joints_device: "with_arm_joints r (e, n) = Some ((e', n'), x) \<Longrightarrow> \<exists>js. e' = e\<lparr>a_joints := js\<rparr>"
  by (auto simp: with_arm_joints_def split: option.splits)

text \<open>A call that does not end the move spends the budget, and once it is used up the arrival counter rises.\<close>

lemma parallel_call_counters:
  fixes s s' :: "('s, 'b, 'z) arm_scheme \<times> 'w node"
  assumes "arm_ready_move A s = Some (s', rc)" "slow_parallel_move A (fst s)" "\<not> is_ready_arm (fst s')"
  obtains a0 e :: "('s, 'b, 'z) arm_scheme" where "ready_counters a0 = ready_counters (fst s)" "arm_ready_prepare (aw_servos A) a0 = Some e"
    and "init_count (fst s') = init_count e + 1" "ready_move_budget_total (fst s') = ready_move_budget_total e"
    and "ready_move_budget_used (fst s') = ready_move_budget_used e + 1"
    and "reached_cnt (fst s') = 0 \<and> \<not> (0 < ready_move_budget_total e \<and> ready_move_budget_total e < ready_move_budget_used e + 1) \<or>
         reached_cnt (fst s') = reached_cnt e + 1 \<and> reached_cnt (fst s') \<le> DEVICE_ARRIVED_CONFIRM_CNT"
proof -
  obtain a0 e a n outs rs where p: "ready_counters a0 = ready_counters (fst s)" "arm_ready_prepare (aw_servos A) a0 = Some e"
    and w: "with_arm_joints (joints_only (scan (\<lambda>_. False) (arm_ready_joint (aw_env A) e (failed_joint_ids e) (arm_ready_step e))
           (beside (a_target_tor e) (a_joints e)) (n_drv (snd s)))) (e, snd s) = Some ((a, n), outs)"
    and er: "is_ready_arm e = False"
    and s': "s' = (let s1 = (parallel_finish rs (fold note_move rs a), n);
                   s2 = (if is_ready_arm (fst s1) then mark_emergency_recovery_completed (arm_base A) s1 else s1)
               in (ready_decision True (fst s2), snd s2))"
    by (rule parallel_cycle [OF assms(1,2)]) blast
  obtain js where a: "a = e\<lparr>a_joints := js\<rparr>" using with_arm_joints_device [OF w] by blast
  define d where "d = fold note_move rs a"
  have d: "ready_counters d = ready_counters (if list_ex unsettled rs then e\<lparr>reached_cnt := 0\<rparr> else e)"
    using notes_counters [of rs a] by (simp add: d_def a ready_counters_def)
  have dr: "\<not> is_ready_arm d" using er by (simp add: d_def fold_keeps [of is_ready_arm] note_move_ready_arm a)
  have nr: "\<not> is_ready_arm (parallel_finish rs d)"
    using assms(3) by (auto simp: s' Let_def decision_fields mark_ready_arm d_def split: if_splits)
  then have f: "fst s' = ready_decision True (parallel_finish rs d)" by (simp add: s' d_def Let_def)
  note fin = parallel_counters [OF refl nr dr]
  show thesis
    by (rule that [OF p]) (use fin d in \<open>auto simp: f decision_fields ready_counters_def split: if_splits\<close>)
qed

lemma arm_prepare_counters:
  assumes "arm_ready_prepare c a = Some a'"
  shows "1 \<le> init_count a \<Longrightarrow> a' = a"
    and "init_count a = 0 \<Longrightarrow> init_count a' = 0 \<and> reached_cnt a' = 0 \<and> ready_move_budget_used a' = 0 \<and> READY_MOVE_BUDGET_MIN_ITERS \<le> ready_move_budget_total a'"
  using assms by (auto simp: arm_ready_prepare_def ready_move_budget_init_def Let_def split: if_splits option.splits)

lemma parallel_arrival:
  assumes "arm_ready_move A s = Some (s', rc)" "slow_parallel_move A (fst s)" "is_ready_arm (fst s')"
  shows "is_ready (fst s') \<and> emergency_state (fst s') = EM_COMPLETED \<and> \<not> n_running (snd s')"
proof -
  obtain e a n outs rs where w: "with_arm_joints (joints_only (scan (\<lambda>_. False) (arm_ready_joint (aw_env A) e (failed_joint_ids e) (arm_ready_step e))
           (beside (a_target_tor e) (a_joints e)) (n_drv (snd s)))) (e, snd s) = Some ((a, n), outs)"
    and v: "recovery_view e = recovery_view (fst s)"
    and s': "s' = (let s1 = (parallel_finish rs (fold note_move rs a), n);
                   s2 = (if is_ready_arm (fst s1) then mark_emergency_recovery_completed (arm_base A) s1 else s1)
               in (ready_decision True (fst s2), snd s2))"
    by (rule parallel_cycle [OF assms(1,2)]) blast
  define s1 where "s1 = (parallel_finish rs (fold note_move rs a), n)"
  have view: "recovery_view (fst s1) = recovery_view (fst s)"
    using with_arm_joints_still [OF w] v by (simp add: s1_def parallel_views keeps_view note_move_view arm_still_def still_def)
  have r: "is_ready_arm (fst s1)"
    using assms(3) by (auto simp: s' s1_def Let_def decision_fields mark_ready_arm split: if_splits)
  then have s2: "s' = (let s2 = mark_emergency_recovery_completed (arm_base A) s1 in (ready_decision True (fst s2), snd s2))"
    by (simp add: s' s1_def Let_def)
  have "emergency_state (fst s1) \<noteq> EM_NONE" "\<not> emergency_completed_published (fst s1)" "has_topic (fst s1)"
    using view assms(2) by (auto simp: recovery_viewD slow_parallel_move_def)
  from mark_completes [OF this] r show ?thesis by (simp add: s2 Let_def decision_fields mark_ready_arm)
qed

text \<open>C20: The recovery of an arm completes. However the hardware behaves between and during the cycles of the slow parallel ready move, as long as
  the dynamics model answers and nothing restarts the move, some call within the budget of the first call and the 31 confirming ones that follow
  reports the arm and its effector ready, completes the recovery and stops the topic, so that the main loop ends: joints that oscillate, stall,
  fail or never move only change what is reported.
\<close>

theorem arm_recovery_completes:
  fixes s u :: "nat \<Rightarrow> ('s, 'b, 'z) arm_scheme \<times> 'w node"
  assumes "init_count (fst (s 0)) = 0"
    and "\<And>k. (\<forall>i < k. \<not> is_ready_arm (fst (u i))) \<Longrightarrow> arm_ready_move A (s k) = Some (u k, rc k) \<and> slow_parallel_move A (fst (s k))"
    and "\<And>k. ready_counters (fst (s (Suc k))) = ready_counters (fst (u k))"
  shows "\<exists>k. (k = 0 \<or> int k \<le> ready_move_budget_total (fst (u 0)) + 30) \<and>
    is_ready (fst (u k)) \<and> emergency_state (fst (u k)) = EM_COMPLETED \<and> \<not> n_running (snd (u k))"
proof -
  define over where "over k \<longleftrightarrow> (\<exists>i \<le> k. is_ready_arm (fst (u i)))" for k
  have call: "\<not> over k \<Longrightarrow> arm_ready_move A (s k) = Some (u k, rc k) \<and> slow_parallel_move A (fst (s k)) \<and> \<not> is_ready_arm (fst (u k))" for k
    using assms(2) [of k] by (auto simp: over_def)
  have "\<exists>k. (k = 0 \<or> int k \<le> ready_move_budget_total (fst (u 0)) + 30) \<and> over k"
  proof (rule budget_ends [of _ "\<lambda>k. init_count (fst (u k))" "\<lambda>k. ready_move_budget_total (fst (u k))" "\<lambda>k. ready_move_budget_used (fst (u k))"
        "\<lambda>k. reached_cnt (fst (u k))"])
    assume nr: "\<not> over 0"
    obtain a0 e :: "('s, 'b, 'z) arm_scheme" where e: "ready_counters a0 = ready_counters (fst (s 0))" "arm_ready_prepare (aw_servos A) a0 = Some e"
      and c: "init_count (fst (u 0)) = init_count e + 1" "ready_move_budget_total (fst (u 0)) = ready_move_budget_total e"
        "ready_move_budget_used (fst (u 0)) = ready_move_budget_used e + 1"
        "reached_cnt (fst (u 0)) = 0 \<or> reached_cnt (fst (u 0)) = reached_cnt e + 1"
      by (rule parallel_call_counters) (use call [OF nr] in auto)
    have "init_count a0 = 0" using e(1) assms(1) by (simp add: ready_counters_eq)
    from arm_prepare_counters(2) [OF e(2) this] c
    show "1 \<le> init_count (fst (u 0)) \<and> 0 < ready_move_budget_total (fst (u 0)) \<and> ready_move_budget_used (fst (u 0)) = 1 \<and>
        0 \<le> reached_cnt (fst (u 0)) \<and> reached_cnt (fst (u 0)) \<le> 1"
      by (auto simp: READY_MOVE_BUDGET_MIN_ITERS_def)
  next
    fix k
    assume nr: "\<not> over (Suc k)" and i: "1 \<le> init_count (fst (u k))"
    obtain a0 e :: "('s, 'b, 'z) arm_scheme" where e: "ready_counters a0 = ready_counters (fst (s (Suc k)))" "arm_ready_prepare (aw_servos A) a0 = Some e"
      and c: "init_count (fst (u (Suc k))) = init_count e + 1" "ready_move_budget_total (fst (u (Suc k))) = ready_move_budget_total e"
        "ready_move_budget_used (fst (u (Suc k))) = ready_move_budget_used e + 1"
        "reached_cnt (fst (u (Suc k))) = 0 \<and> \<not> (0 < ready_move_budget_total e \<and> ready_move_budget_total e < ready_move_budget_used e + 1) \<or>
         reached_cnt (fst (u (Suc k))) = reached_cnt e + 1 \<and> reached_cnt (fst (u (Suc k))) \<le> DEVICE_ARRIVED_CONFIRM_CNT"
      by (rule parallel_call_counters) (use call [OF nr] in auto)
    have "e = a0" by (rule arm_prepare_counters(1) [OF e(2)]) (use i e(1) assms(3) [of k] in \<open>simp add: ready_counters_eq\<close>)
    with c e(1) assms(3) [of k]
    show "init_count (fst (u (Suc k))) = init_count (fst (u k)) + 1 \<and>
        ready_move_budget_total (fst (u (Suc k))) = ready_move_budget_total (fst (u k)) \<and>
        ready_move_budget_used (fst (u (Suc k))) = ready_move_budget_used (fst (u k)) + 1 \<and>
        (reached_cnt (fst (u (Suc k))) = 0 \<and> \<not> (0 < ready_move_budget_total (fst (u k)) \<and> ready_move_budget_total (fst (u k)) < ready_move_budget_used (fst (u k)) + 1) \<or>
         reached_cnt (fst (u (Suc k))) = reached_cnt (fst (u k)) + 1 \<and> reached_cnt (fst (u (Suc k))) \<le> DEVICE_ARRIVED_CONFIRM_CNT)"
      by (auto simp: ready_counters_eq)
  qed
  then obtain k where k: "k = 0 \<or> int k \<le> ready_move_budget_total (fst (u 0)) + 30" "\<exists>i \<le> k. is_ready_arm (fst (u i))" by (auto simp: over_def)
  define i where "i = (LEAST i. is_ready_arm (fst (u i)))"
  have i: "is_ready_arm (fst (u i))" "i \<le> k" "\<forall>j < i. \<not> is_ready_arm (fst (u j))"
    using k(2) unfolding i_def by (auto intro: LeastI Least_le order_trans dest: not_less_Least)
  have "i = 0 \<or> int i \<le> ready_move_budget_total (fst (u 0)) + 30" using k(1) i(2) by auto
  with parallel_arrival [OF _ _ i(1)] assms(2) [OF i(3)] show ?thesis by blast
qed

text \<open>The sequential ready move does not complete a recovery: no call of it, also one that reports the arm ready, changes the recovery state or announces the
  shutdown. An arm configured to move its joints one after the other stays in recovery until the watchdog on the control loop trips.
\<close>

theorem sequential_recovery_does_not_complete:
  assumes "arm_ready_move A s = Some (s', rc)" "moving_mode (fst s) = SEQUENTIAL"
  shows "emergency_state (fst s') = emergency_state (fst s) \<and> shutdown_notices (snd s') = shutdown_notices (snd s)"
proof -
  let ?mark = "mark_emergency_recovery_completed (arm_base A)"
  have m: "arm_move_to_ready_position A ?mark s = Some (s', rc)" using assms(1) by (simp add: arm_ready_move_def)
  have same: "move_arm (aw_env A) ?mark (a, n) = move_arm (aw_env A) id (a, n)" if "moving_mode a = SEQUENTIAL" for a n
    using that by (auto simp: move_arm_def arm_ready_prepare_def ready_move_budget_init_def Let_def split: option.splits if_splits)
  have "arm_move_to_ready_position A ?mark s = arm_move_to_ready_position A id s"
  proof (cases "update_follower_feedforward_torques A (fst s)")
    case (Some x)
    then obtain a rc1 where u: "update_follower_feedforward_torques A (fst s) = Some (a, rc1)" by (cases x) auto
    have "moving_mode a = SEQUENTIAL" using feedforward_fields [OF u] assms(2) by auto
    from same [OF this] show ?thesis by (simp add: arm_move_to_ready_position_def u Let_def)
  qed (simp add: arm_move_to_ready_position_def Let_def)
  with m have "arm_move_to_ready_position A id s = Some (s', rc)" by simp
  then obtain s1 s2 where "arm_still s s1" "s2 = s1 \<or> s2 = id s1" "arm_still s2 s'" by (rule arm_ready_related)
  then show ?thesis by (auto simp: arm_still_def still_def recovery_viewD)
qed

section \<open>The gravity float\<close>

lemma until_error_all:
  "until_error f xs w = Some (ys, w', SUCCESS) \<Longrightarrow> list_all2 (\<lambda>x y. \<exists>w w'. f x w = Some (y, w', SUCCESS)) xs ys"
  by (induction xs arbitrary: w ys) (fastforce split: option.splits if_splits)+

lemma runaway_found:
  assumes "i < length ps" "\<forall>p \<in> set ps. snd p \<noteq> None" "flt_lt limit (fabs (fsub binary32 (pos (fst (ps ! i))) (the (snd (ps ! i)))))"
  shows "runaway limit pos ps = Some True"
  using assms
proof (induction ps arbitrary: i)
  case (Cons p ps)
  then show ?case by (cases i) (auto split: option.splits)
qed simp

lemma beside_full: "length xs = length js \<Longrightarrow> beside xs js = zip js (map Some xs)"
  by (simp add: beside_def zip_append2)

lemma rest_position: "joint_pos_relative c (arm_rest c (hold_buffers c j)) = joint_pos_relative c j"
  by (simp add: arm_rest_def hold_buffers_def set_tele_pos_rad_def set_tele_vel_rad_sec_def set_tele_tor_nm_def Let_def joint_pos_relative_def reference_servo_def)

lemma rest_targets:
  "let j' = arm_rest c (hold_buffers c j)
   in target_pos j' = joint_pos_relative c j' \<and> adjusted_target_pos j' = joint_pos_relative c j' \<and>
      prev_target_pos j' = joint_pos_relative c j' \<and> tele_pos j' = joint_pos_relative c j'"
  by (simp add: Let_def rest_position)
     (simp add: arm_rest_def hold_buffers_def set_tele_pos_rad_def set_tele_vel_rad_sec_def set_tele_tor_nm_def Let_def joint_pos_relative_def reference_servo_def)

text \<open>C21: A runaway of the calibration float is caught in the cycle that measures it. When a joint of a floating follower has drifted from its
  baseline by more than the limit, the next operation as a follower applies no torque: it switches the joints back to position control, leaves the float, and
  leaves every joint with its measured position as its target, its last command and its buffered command, so that no older command takes effect.
\<close>

theorem runaway_float_is_held:
  assumes "gravity_float_active (fst s)" "d_role (fst s) = FOLLOWER" "\<not> is_read_only (fst s)"
    and "length (gravity_float_baseline (fst s)) = length (a_joints (fst s))" "i < length (a_joints (fst s))"
    and "flt_lt (gravity_float_abort_rad (fst s))
           (fabs (fsub binary32 (joint_pos_relative (aw_servos A) (a_joints (fst s) ! i)) (gravity_float_baseline (fst s) ! i)))"
    and "arm_operate_as_follower A s = Some (s', rc)"
  shows "\<exists>s1 rc1. switch_joints (aw_env A) True s = Some (s1, rc1) \<and>
    (if rc1 \<noteq> SUCCESS then s' = s1 \<and> rc = rc1
     else rc = SUCCESS \<and> snd s' = snd s1 \<and> \<not> gravity_float_active (fst s') \<and>
       (\<forall>j \<in> set (a_joints (fst s')).
          target_pos j = joint_pos_relative (aw_servos A) j \<and> adjusted_target_pos j = joint_pos_relative (aw_servos A) j \<and>
          prev_target_pos j = joint_pos_relative (aw_servos A) j \<and> tele_pos j = joint_pos_relative (aw_servos A) j))"
proof -
  let ?c = "aw_servos A" and ?E = "aw_env A"
  have "runaway (gravity_float_abort_rad (fst s)) (joint_pos_relative ?c) (beside (gravity_float_baseline (fst s)) (a_joints (fst s))) = Some True"
    by (rule runaway_found [of i]) (use assms(4-6) in \<open>auto simp: beside_full dest!: set_zip_rightD\<close>)
  then have f: "andthen (andthen (switch_joints ?E True) (\<lambda>s. Some (((rest_now ?E s)\<lparr>gravity_float_active := False\<rparr>, snd s), SUCCESS)))
      (\<lambda>s. Some ((arm_clear_command_buffers ?c (ee_now ?E (n_drv (snd s))) (fst s), snd s), SUCCESS)) s = Some (s', rc)"
    using assms(1-3,7)
    by (simp add: arm_operate_as_follower_def arm_float_def set_runtime_gravity_float_def Let_def andthen_def)
  then obtain s1 rc1 where s1: "switch_joints ?E True s = Some (s1, rc1)" by (auto simp: andthen_def split: option.splits)
  show ?thesis
  proof (cases "rc1 = SUCCESS")
    case True
    define a2 where "a2 = (rest_now ?E s1)\<lparr>gravity_float_active := False\<rparr>"
    have s': "s' = (arm_clear_command_buffers ?c (ee_now ?E (n_drv (snd s1))) a2, snd s1)" "rc = SUCCESS"
      using f s1 True by (simp_all add: andthen_def a2_def)
    have js: "a_joints (fst s') = map (\<lambda>j. arm_rest ?c (hold_buffers ?c j)) (a_joints a2)" "\<not> gravity_float_active (fst s')"
      by (simp_all add: s' arm_clear_command_buffers_def reset_slew_targets_to_current_def a2_def)
    have "snd s' = snd s1" by (simp add: s')
    with s1 s'(2) js True rest_targets [of ?c] show ?thesis by (auto simp: Let_def)
  next
    case False
    with f s1 show ?thesis by (auto simp: andthen_def)
  qed
qed

section \<open>The synchronised slew\<close>

lemma device_move_command: "device_move c d target tor j w = Some (j', w', rc) \<Longrightarrow> prev_target_pos j' = target"
  by (auto simp: device_move_def joint_move_def joint_move_full_def forward_def Let_def split: if_splits option.splits)

lemma slew_scale_le_one: "flt_le (slew_scale dt ps) (Fin 1)"
proof -
  have "flt_le x (Fin 1) \<Longrightarrow> flt_le (foldl (slew_limit dt) x ps) (Fin 1)" for x
  proof (induction ps arbitrary: x)
    case (Cons p ps)
    have "flt_le (slew_limit dt x p) (Fin 1)"
      using Cons.prems by (cases x; cases "fdiv binary32 (fmul binary32 (follow_vel_max (fst p)) dt) (fabs (fsub binary32 (snd p) (prev_target_pos (fst p))))")
        (auto simp: slew_limit_def Let_def fmin_def flt_le_def)
    with Cons.IH show ?case by simp
  qed simp
  then show ?thesis by (simp add: slew_scale_def flt_le_def)
qed

lemma nonneg_infs: "flt_le (Fin 0) PInf" "\<not> flt_le (Fin 0) NInf" "\<not> flt_le (Fin 0) NaN"
  by (simp_all add: flt_le_def)

lemma nonneg_div: "x = NaN \<or> flt_le (Fin 0) x \<Longrightarrow> y = NaN \<or> flt_le (Fin 0) y \<Longrightarrow> fdiv binary32 x y = NaN \<or> flt_le (Fin 0) (fdiv binary32 x y)"
  by (cases x; cases y) (auto simp: fround_nonneg nonneg_infs inf_of_def)

lemma nonneg_mul: "x = NaN \<or> flt_le (Fin 0) x \<Longrightarrow> y = NaN \<or> flt_le (Fin 0) y \<Longrightarrow> fmul binary32 x y = NaN \<or> flt_le (Fin 0) (fmul binary32 x y)"
  by (cases x; cases y) (auto simp: fround_nonneg nonneg_infs inf_of_def)

lemma fabs_nonneg: "fabs x = NaN \<or> flt_le (Fin 0) (fabs x)"
  by (cases x) (auto simp: nonneg_iff)

text \<open>A scale between zero and one: a limit that is no number is ignored.\<close>

lemma slew_limit_nonneg:
  assumes "positive_finite (follow_vel_max (fst p))" "dt = NaN \<or> flt_le (Fin 0) dt" "flt_le (Fin 0) x"
  shows "flt_le (Fin 0) (slew_limit dt x p)"
proof -
  have v: "flt_le (Fin 0) (follow_vel_max (fst p))"
    using assms(1) by (cases "follow_vel_max (fst p)") (auto simp: positive_finite_def)
  let ?q = "fdiv binary32 (fmul binary32 (follow_vel_max (fst p)) dt) (fabs (fsub binary32 (snd p) (prev_target_pos (fst p))))"
  have "?q = NaN \<or> flt_le (Fin 0) ?q"
    by (rule nonneg_div [OF nonneg_mul [OF disjI2 [OF v] assms(2)] fabs_nonneg])
  then show ?thesis using assms(3) by (auto simp: slew_limit_def Let_def fmin_def)
qed

lemma slew_scale_nonneg:
  assumes "\<forall>p \<in> set ps. positive_finite (follow_vel_max (fst p))" "dt = NaN \<or> flt_le (Fin 0) dt"
  shows "flt_le (Fin 0) (slew_scale dt ps)"
proof -
  have "flt_le (Fin 0) x \<Longrightarrow> flt_le (Fin 0) (foldl (slew_limit dt) x ps)" for x
    using assms(1) by (induction ps arbitrary: x) (simp_all add: slew_limit_nonneg [OF _ assms(2)])
  then show ?thesis by (simp add: slew_scale_def)
qed

lemma slew_dt_range: "0 < control_frequency a \<Longrightarrow> slew_dt t a = NaN \<or> flt_le (Fin 0) (slew_dt t a)"
proof -
  assume "0 < control_frequency a"
  then have "flt_le (Fin 0) (of_int_f binary32 (control_frequency a))" by (simp add: of_int_f_def fround_nonneg)
  with nonneg_div [of "Fin 1"] nonneg_infs have one: "fdiv binary32 (Fin 1) (of_int_f binary32 (control_frequency a)) = NaN \<or>
      flt_le (Fin 0) (fdiv binary32 (Fin 1) (of_int_f binary32 (control_frequency a)))" by simp
  have "seconds u = NaN \<or> flt_le (Fin 0) (seconds u)" for u
    unfolding seconds_def by (rule nonneg_div; rule disjI2) (simp_all add: of_int_f_def fround_nonneg)
  moreover have "flt_le (Fin 0) (lit32 (1 / 10 ^ 9))" by (rule fround_nonneg) simp
  ultimately show ?thesis using one by (auto simp: slew_dt_def fmax_def)
qed

text \<open>The scale is at most the limit of every joint that has some way to go.\<close>

lemma fmin_le: "\<not> flt_lt y (fmin x y)"
  by (simp add: fmin_def)

lemma slew_scale_limits:
  assumes "p \<in> set ps" "flt_lt (Fin 0) (fabs (fsub binary32 (snd p) (prev_target_pos (fst p))))"
  shows "\<not> flt_lt (fdiv binary32 (fmul binary32 (follow_vel_max (fst p)) dt) (fabs (fsub binary32 (snd p) (prev_target_pos (fst p))))) (slew_scale dt ps)"
proof -
  let ?q = "\<lambda>p. fdiv binary32 (fmul binary32 (follow_vel_max (fst p)) dt) (fabs (fsub binary32 (snd p) (prev_target_pos (fst p))))"
  have lim: "\<not> flt_lt (?q p) (slew_limit dt x p)" for x
    using assms(2) by (simp add: slew_limit_def Let_def fmin_le)
  have keep: "\<not> flt_lt y x \<Longrightarrow> \<not> flt_lt y (slew_limit dt x p')" for x y p'
    using flt_lt_trans [of y _ x] by (auto simp: slew_limit_def Let_def fmin_def split: if_splits)
  have rest: "\<not> flt_lt y x \<Longrightarrow> \<not> flt_lt y (foldl (slew_limit dt) x qs)" for x y qs
    by (induction qs arbitrary: x) (simp_all add: keep)
  from assms(1) obtain us vs where "ps = us @ p # vs" by (auto dest: split_list)
  then show ?thesis by (simp add: slew_scale_def rest lim)
qed

text \<open>A command with a scale between zero and one lies between the last command and the command of an unlimited step.\<close>

lemma slew_command_between:
  assumes "0 \<le> k" "k \<le> 1" "fsub binary32 goal (Fin p) = Fin d" "is_flt binary32 (Fin p)" "isfinite goal"
    and "fadd binary32 (Fin p) (Fin d) = Fin q"
  shows "\<exists>c. slew_command (Fin k) goal (Fin p) = Fin c \<and> (p \<le> c \<and> c \<le> q \<or> q \<le> c \<and> c \<le> p)"
proof -
  obtain g where g: "goal = Fin g" using assms(5) by (cases goal) auto
  have d: "is_flt binary32 (Fin d)" using assms(3) is_flt_fround [of binary32 "g - p"] by (simp add: g fsub_def)
  have kd: "min 0 d \<le> k * d" "k * d \<le> max 0 d" 
    using assms(1,2) mult_left_le_one_le [of d k] mult_left_le_one_le [of "- d" k] by (auto simp: min_def max_def mult_nonneg_nonpos)
  obtain x where x: "fround binary32 (k * d) = Fin x" "min 0 d \<le> x" "x \<le> max 0 d"
    using fround_between [OF kd, of binary32] d by (cases "0 \<le> d") (auto simp: min_def max_def simp del: is_flt.simps)
  have q: "is_flt binary32 (Fin q)" "fround binary32 (p + d) = Fin q" using assms(6) is_flt_fround [of binary32 "p + d"] by simp_all
  have p: "fround binary32 p = Fin p" by (rule fround_exact [OF assms(4)])
  show ?thesis
  proof (cases "0 \<le> d")
    case True
    then have m: "flt_le (fround binary32 p) (fround binary32 (p + x))" "flt_le (fround binary32 (p + x)) (fround binary32 (p + d))"
      using x by (auto intro!: fround_mono)
    then show ?thesis using p q x by (cases "fround binary32 (p + x)") (auto simp: slew_command_def g assms(3) [unfolded g] flt_le_def)
  next
    case False
    then have m: "flt_le (fround binary32 (p + x)) (fround binary32 p)" "flt_le (fround binary32 (p + d)) (fround binary32 (p + x))"
      using x by (auto intro!: fround_mono)
    then show ?thesis using p q x by (cases "fround binary32 (p + x)") (auto simp: slew_command_def g assms(3) [unfolded g] flt_le_def)
  qed
qed

lemma slew_joints:
  assumes "each_joint_with E (\<lambda>(goal, tor) j. device_move c a (slew_command scale goal (prev_target_pos j)) tor j) (zip goals ts) s = Some (s', SUCCESS)"
    and "length goals = length (a_joints (fst s))"
  shows "(\<exists>js. fst s' = (fst s)\<lparr>a_joints := js\<rparr>) \<and> length (a_joints (fst s')) = length (a_joints (fst s)) \<and>
    (\<forall>i < length (a_joints (fst s)).
       prev_target_pos (a_joints (fst s') ! i) = slew_command scale (goals ! i) (prev_target_pos (a_joints (fst s) ! i)))"
proof -
  let ?f = "with_value (\<lambda>(goal, tor). jcall E (fst s) (\<lambda>j. device_move c a (slew_command scale goal (prev_target_pos j)) tor j))"
  let ?ps = "beside (zip goals ts) (a_joints (fst s))"
  obtain qs w where u: "until_error ?f ?ps (n_drv (snd s)) = Some (qs, w, SUCCESS)" and s': "fst s' = (fst s)\<lparr>a_joints := map fst qs\<rparr>"
    using assms(1) by (auto simp: each_joint_with_def with_arm_joints_def joints_only_def case_prod_beta' split: option.splits)
  have all: "list_all2 (\<lambda>x y. \<exists>w w'. ?f x w = Some (y, w', SUCCESS)) ?ps qs" by (rule until_error_all [OF u])
  then have len: "length qs = length (a_joints (fst s))" by (auto dest!: list_all2_lengthD simp: beside_def)
  have "prev_target_pos (fst (qs ! i)) = slew_command scale (goals ! i) (prev_target_pos (a_joints (fst s) ! i))" if i: "i < length (a_joints (fst s))" for i
  proof -
    obtain w w' where q: "?f (?ps ! i) w = Some (qs ! i, w', SUCCESS)"
      using list_all2_nthD2 [OF all] i len by fastforce
    have p: "?ps ! i = (a_joints (fst s) ! i, if i < length (zip goals ts) then Some (goals ! i, ts ! i) else None)"
      using i by (auto simp: beside_def nth_append)
    with q have "i < length (zip goals ts)" by (auto simp: with_value_def split: if_splits)
    with q p show ?thesis
      by (cases "qs ! i") (auto simp: with_value_def jcall_def sees_device_def dest: device_move_command)
  qed
  with s' len show ?thesis by auto
qed

text \<open>C22: The joints of a follower move in step. A successful cycle uses one scale between zero and one for all joints, no larger than the share of its way any
  joint may go at its speed limit, and commands every joint its last command plus that share of the way to its safe goal; such a command lies between
  the last command and the command of an unlimited step, so that no joint overshoots or turns back.
\<close>

theorem slew_is_synchronised:
  assumes "arm_slew A s = Some (s', SUCCESS)" "\<forall>j \<in> set (a_joints (fst s)). positive_finite (follow_vel_max j)"
  shows "\<exists>scale. flt_le (Fin 0) scale \<and> flt_le scale (Fin 1) \<and> length (a_joints (fst s')) = length (a_joints (fst s)) \<and>
    (\<forall>i < length (a_joints (fst s)).
       let j = a_joints (fst s) ! i; previous = prev_target_pos j; goal = slew_goal_positions (fst s') ! i; way = fabs (fsub binary32 goal previous);
           dt = slew_dt (ee_now (aw_env A) (n_drv (snd s))) (fst s); command = prev_target_pos (a_joints (fst s') ! i)
       in goal = joint_safe_tele_pos_rad (aw_servos A) (tele_pos j) (sees_device (aw_servos A) (fst s) j) \<and>
          command = slew_command scale goal previous \<and>
          (flt_lt (Fin 0) way \<longrightarrow> \<not> flt_lt (fdiv binary32 (fmul binary32 (follow_vel_max j) dt) way) scale) \<and>
          (\<forall>full. is_flt binary32 previous \<and> isfinite goal \<and> fadd binary32 previous (fsub binary32 goal previous) = Fin full \<longrightarrow>
             flt_le previous command \<and> flt_le command (Fin full) \<or> flt_le (Fin full) command \<and> flt_le command previous))"
proof -
  let ?c = "aw_servos A"
  define a where "a = fst s"
  define dt where "dt = slew_dt (ee_now (aw_env A) (n_drv (snd s))) a"
  define goals where "goals = map (\<lambda>j. joint_safe_tele_pos_rad ?c (tele_pos j) (sees_device ?c a j)) (a_joints a)"
  define scale where "scale = slew_scale dt (zip (a_joints a) goals)"
  define a1 where "a1 = a\<lparr>follower_slew_last_time := ee_now (aw_env A) (n_drv (snd s)), slew_goal_positions := goals\<rparr>"
  have f: "0 < control_frequency a" and m: "each_joint_with (aw_env A)
      (\<lambda>(goal, tor) j. device_move ?c a1 (slew_command scale goal (prev_target_pos j)) tor j) (zip goals (a_target_tor a)) (a1, snd s) = Some (s', SUCCESS)"
    using assms(1) by (auto simp: arm_slew_def Let_def a_def dt_def goals_def scale_def a1_def split: if_splits)
  have lg: "length goals = length (a_joints a)" by (simp add: goals_def)
  have lims: "flt_le (Fin 0) scale" "flt_le scale (Fin 1)"
    using assms(2) slew_dt_range [OF f] by (auto simp: scale_def dt_def a_def slew_scale_le_one intro!: slew_scale_nonneg dest: set_zip_leftD)
  then obtain k where k: "scale = Fin k" "0 \<le> k" "k \<le> 1" by (cases scale) (auto simp: flt_le_def)
  from slew_joints [OF m] lg obtain js where js: "fst s' = a1\<lparr>a_joints := js\<rparr>" "length js = length (a_joints a)"
    and cmd: "\<And>i. i < length js \<Longrightarrow> prev_target_pos (js ! i) = slew_command scale (goals ! i) (prev_target_pos (a_joints a ! i))"
    by (auto simp: a1_def)
  have lim: "flt_lt (Fin 0) (fabs (fsub binary32 (goals ! i) (prev_target_pos (a_joints a ! i)))) \<Longrightarrow>
      \<not> flt_lt (fdiv binary32 (fmul binary32 (follow_vel_max (a_joints a ! i)) dt) (fabs (fsub binary32 (goals ! i) (prev_target_pos (a_joints a ! i))))) scale"
    if "i < length js" for i
    using slew_scale_limits [of "(a_joints a ! i, goals ! i)" "zip (a_joints a) goals" dt] that js(2) lg by (auto simp: scale_def in_set_zip)
  have btw: "flt_le p (slew_command scale g p) \<and> flt_le (slew_command scale g p) (Fin full) \<or> flt_le (Fin full) (slew_command scale g p) \<and> flt_le (slew_command scale g p) p"
    if h: "is_flt binary32 p" "isfinite g" "fadd binary32 p (fsub binary32 g p) = Fin full" for g p full
  proof -
    obtain x where x: "p = Fin x" using h(2,3) by (cases p; cases g) (auto simp: fsub_def)
    then obtain d where d: "fsub binary32 g (Fin x) = Fin d" using h(3) by (cases "fsub binary32 g (Fin x)") auto
    from slew_command_between [OF k(2,3) d] h x d k(1) show ?thesis by auto
  qed
  have goal: "goals ! i = joint_safe_tele_pos_rad ?c (tele_pos (a_joints a ! i)) (sees_device ?c a (a_joints a ! i))" if "i < length js" for i
    using that js(2) by (simp add: goals_def)
  show ?thesis
    by (rule exI [of _ scale])
       (use lims js cmd lim btw goal in \<open>auto simp: Let_def a_def [symmetric] dt_def [symmetric] a1_def\<close>)
qed
section \<open>Witnesses\<close>

text \<open>An arm in the slow move of a recovery whose only joint has failed.\<close>

definition failed_arm :: "(servo, lbuf) arm" where
  "failed_arm = sample_arm\<lparr>emergency_state := EM_MOVING_SLOW, slow_move_active := True, failed_joint_ids := [4]\<rparr>"

lemma sample_home: "home_distance idle_servos (sample_joint temp) = Fin 1"
proof -
  have "get_home_pos_relative idle_servos (sample_joint temp) = Fin 0"
    by (simp add: get_home_pos_relative_def sample_joint_def new_joint_def reference_servo_def idle_servos_def new_servo_def servo_data.defs sample_servo_def)
  then show ?thesis by (simp add: home_distance_def sample_joint_facts fsub_def) (simp add: flt_eval)
qed

lemma failed_arm_facts:
  "a_joints failed_arm = [sample_joint (Fin 30)]" "init_count failed_arm = 0" "moving_mode failed_arm = PARALLEL" "\<not> is_read_only failed_arm"
  "\<not> is_ready_arm failed_arm" "emergency_state failed_arm = EM_MOVING_SLOW" "\<not> emergency_completed_published failed_arm" "has_topic failed_arm"
  "\<not> follower_gravity_compensation failed_arm" "cla failed_arm = sample_args" "slow_move_active failed_arm" "failed_joint_ids failed_arm = [4]"
  by (simp_all add: failed_arm_def sample_arm_simps)

lemma failed_arm_feedforward: "update_follower_feedforward_torques idle_arm_world failed_arm = Some (zero_torques failed_arm, SUCCESS)"
  by (simp add: update_follower_feedforward_torques_def failed_arm_facts zero_torques_def Let_def)

lemma skips_start: "skips c failed (arm_ready_start c j) = skips c failed j"
  by (simp add: arm_ready_start_def skips_def reference_servo_id_def reset_stuck_counter_def reference_servo_def has_reference_def joint_ok_def Let_def)

lemma failed_arm_move:
  obtains s' where "arm_ready_move idle_arm_world (failed_arm, sample_node) = Some (s', SUCCESS)" "is_ready_arm (fst s')"
proof -
  have c: "aw_servos idle_arm_world = idle_servos" by (simp add: idle_arm_world_def idle_world_def idle_env_def)
  have step: "arm_ready_step (zero_torques failed_arm) = Fin (4294967 / 2147483648)"
    by (simp add: arm_ready_step_def ready_move_step_rad_def ready_move_velocity_def zero_torques_def failed_arm_facts sample_args_def) (simp add: flt_eval of_int_f_def)
  obtain a where a: "arm_ready_prepare idle_servos (zero_torques failed_arm) = Some a"
    and f: "moving_mode a = PARALLEL" "failed_joint_ids a = [4]" "a_joints a = [arm_ready_start idle_servos (sample_joint (Fin 30))]"
      "is_in_emergency_recovery a" "\<not> is_ready_arm a"
  proof -
    let ?a = "(zero_torques failed_arm)\<lparr>reached_cnt := 0, a_joints := [arm_ready_start idle_servos (sample_joint (Fin 30))]\<rparr>"
    have "ready_move_budget_init (Fin 1) (Fin (4294967 / 2147483648)) d \<noteq> None" for d :: "(servo, lbuf) arm"
      by (simp add: ready_move_budget_init_def flt_eval trunc_def READY_MOVE_BUDGET_TRAVEL_SCALE_def DEVICE_ARRIVED_CONFIRM_CNT_def)
    then obtain a where a: "ready_move_budget_init (Fin 1) (Fin (4294967 / 2147483648)) ?a = Some a" by blast
    moreover from a have "arm_ready_prepare idle_servos (zero_torques failed_arm) = Some a"
      by (simp add: arm_ready_prepare_def step) (simp add: zero_torques_def failed_arm_facts sample_home fmax_def)
    ultimately show thesis
      by (intro that [of a]) (auto simp: ready_move_budget_init_def zero_torques_def failed_arm_facts is_in_emergency_recovery_def Let_def split: option.splits if_splits)
  qed
  have n: "arm_ready_joint (aw_env idle_arm_world) a [4] (arm_ready_step a) (arm_ready_start idle_servos (sample_joint (Fin 30)), tor) () =
      Some ((arm_ready_start idle_servos (sample_joint (Fin 30)), tor), (), None)" for tor
    by (simp add: arm_ready_joint_def c skips_start failed_gripper_skips)
  define s1 where "s1 = (parallel_finish [] a, sample_node)"
  have w: "with_arm_joints (joints_only (scan (\<lambda>_. False) (arm_ready_joint (aw_env idle_arm_world) a (failed_joint_ids a) (arm_ready_step a))
        (beside (a_target_tor a) (a_joints a)) (n_drv sample_node))) (a, sample_node) = Some ((a, sample_node), [None])"
    by (cases "a_target_tor a") (simp_all add: f n beside_def joints_only_def with_arm_joints_def sample_node_def)
  have r: "is_ready_arm (parallel_finish [] a)" and "is_in_emergency_recovery (parallel_finish [] a)"
    using f(4) by (simp_all add: parallel_finish_def ready_move_budget_spend_def arrive_def is_in_emergency_recovery_def Let_def)
  then have "arm_ready_move idle_arm_world (failed_arm, sample_node) =
      (let s2 = mark_emergency_recovery_completed (arm_base idle_arm_world) s1 in Some ((ready_decision True (fst s2), snd s2), SUCCESS))"
    using a f(1,5) w
    by (simp add: arm_ready_move_def arm_move_to_ready_position_def failed_arm_facts failed_arm_feedforward is_in_emergency_recovery_def
       is_startup_ready_phase_def move_arm_def c move_parallel_def zero_torques_def s1_def List.map_filter_simps Let_def)
  then show thesis by (intro that) (auto simp: Let_def decision_fields mark_ready_arm s1_def r)
qed

theorem arm_recovery_completes_witness:
  "\<exists>s' rc. arm_ready_move idle_arm_world (failed_arm, sample_node) = Some (s', rc) \<and> emergency_state (fst s') = EM_COMPLETED \<and> \<not> n_running (snd s')"
proof -
  obtain s' where m: "arm_ready_move idle_arm_world (failed_arm, sample_node) = Some (s', SUCCESS)" "is_ready_arm (fst s')" by (rule failed_arm_move)
  have slow: "slow_parallel_move idle_arm_world failed_arm" by (simp add: slow_parallel_move_def failed_arm_facts failed_arm_feedforward)
  let ?s = "\<lambda>k :: nat. if k = 0 then (failed_arm, sample_node) else s'"
  have "\<exists>k. (k = 0 \<or> int k \<le> ready_move_budget_total (fst s') + 30) \<and>
      is_ready (fst s') \<and> emergency_state (fst s') = EM_COMPLETED \<and> \<not> n_running (snd s')"
    by (rule arm_recovery_completes [where s = ?s and u = "\<lambda>_. s'" and A = idle_arm_world and rc = "\<lambda>_. SUCCESS"]) (use m slow in \<open>auto simp: failed_arm_facts\<close>)
  with m(1) show ?thesis by auto
qed

text \<open>The same arm with the joints in sequence.\<close>

theorem sequential_recovery_does_not_complete_witness:
  "\<exists>s' rc. arm_ready_move idle_arm_world (failed_arm\<lparr>moving_mode := SEQUENTIAL, init_count := 1\<rparr>, sample_node) = Some (s', rc) \<and> emergency_state (fst s') = EM_MOVING_SLOW"
proof -
  let ?a = "failed_arm\<lparr>moving_mode := SEQUENTIAL, init_count := 1\<rparr>"
  have f: "joint_init_sequence ?a = []" "moving_joint_index ?a = 0" "cla ?a = sample_args" by (simp_all add: failed_arm_def sample_arm_simps)
  have "move_arm E m (zero_torques ?a, n) = Some (Return (zero_torques ?a, n), NOT_INITIALIZED)" for E :: "(servo, unit) effector_env" and m n
    using f by (simp add: move_arm_def arm_ready_prepare_def move_sequential_def zero_torques_def failed_arm_facts Let_def)
  moreover have "update_follower_feedforward_torques idle_arm_world ?a = Some (zero_torques ?a, SUCCESS)"
    by (simp add: update_follower_feedforward_torques_def zero_torques_def failed_arm_facts Let_def)
  ultimately obtain s' rc where m: "arm_ready_move idle_arm_world (?a, sample_node) = Some (s', rc)"
    using f(3) by (simp add: arm_ready_move_def arm_move_to_ready_position_def failed_arm_facts sample_args_def Let_def)
  show ?thesis using sequential_recovery_does_not_complete [OF m] m by (simp add: failed_arm_facts)
qed

text \<open>A floating follower a radian away from where it started.\<close>

definition drifted_arm :: "(servo, lbuf) arm" where
  "drifted_arm = sample_arm\<lparr>d_role := FOLLOWER, gravity_float_active := True, gravity_float_baseline := [Fin 0], gravity_float_abort_rad := Fin (1/4)\<rparr>"

lemma until_error_fine: "(\<And>x w. \<exists>y. f x w = Some (y, w, SUCCESS)) \<Longrightarrow> \<exists>ys. until_error f xs w = Some (ys, w, SUCCESS)"
proof (induction xs)
  case (Cons x xs)
  from Cons.prems obtain y where "f x w = Some (y, w, SUCCESS)" by blast
  with Cons show ?case by fastforce
qed simp

lemma forward_idle: "\<exists>j'. forward idle_servos idle_call j w = Some (j', w, SUCCESS)"
  using until_error_fine [of "seen idle_servos j idle_call" "servos j" w] by (auto simp: forward_def seen_def idle_call_def)

lemma idle_switch: "\<exists>s'. switch_joints idle_env True s = Some (s', SUCCESS)"
  using until_error_fine [of "jcall idle_env (fst s) (joint_change_control_mode_for_follower idle_servos)" "a_joints (fst s)" "n_drv (snd s)"] forward_idle
  by (auto simp: switch_joints_def each_arm_joint_def with_arm_joints_def joint_change_control_mode_for_follower_def jcall_def idle_env_def idle_servos_def)

theorem runaway_float_is_held_witness:
  "\<exists>s' rc. arm_operate_as_follower idle_arm_world (drifted_arm, sample_node) = Some (s', rc) \<and> \<not> gravity_float_active (fst s')"
proof -
  have f: "gravity_float_active drifted_arm" "d_role drifted_arm = FOLLOWER" "\<not> is_read_only drifted_arm" "gravity_float_baseline drifted_arm = [Fin 0]"
    "gravity_float_abort_rad drifted_arm = Fin (1/4)" "a_joints drifted_arm = [sample_joint (Fin 30)]"
    by (simp_all add: drifted_arm_def sample_arm_simps)
  have c: "ee_servos idle_env = idle_servos" "aw_env idle_arm_world = idle_env" by (simp_all add: idle_arm_world_def idle_world_def idle_env_def)
  have far: "flt_lt (Fin (1/4)) (fabs (fsub binary32 (joint_pos_relative idle_servos (sample_joint (Fin 30))) (Fin 0)))"
    by (simp add: sample_joint_facts fsub_def) (simp add: flt_eval)
  obtain s1 where s1: "switch_joints idle_env True (drifted_arm, sample_node) = Some (s1, SUCCESS)" using idle_switch by blast
  then obtain s' rc where m: "arm_operate_as_follower idle_arm_world (drifted_arm, sample_node) = Some (s', rc)"
    using far by (simp add: arm_operate_as_follower_def f arm_float_def c beside_def set_runtime_gravity_float_def andthen_def Let_def)
  show ?thesis
    using runaway_float_is_held [of "(drifted_arm, sample_node)" 0 idle_arm_world, OF _ _ _ _ _ _ m] far s1 m by (auto simp: f c)
qed

text \<open>A follower one radian from its goal that may go one radian per second.\<close>

definition slewing_arm :: "(servo, lbuf) arm" where
  "slewing_arm = sample_arm\<lparr>control_frequency := 100, slew_goal_positions := [Fin 0],
     a_joints := [(sample_joint (Fin 30))\<lparr>follow_vel_max := Fin 1, tele_pos := Fin 2\<rparr>]\<rparr>"

lemma device_move_idle: "\<exists>j'. device_move idle_servos d x tor j w = Some (j', w, SUCCESS)"
proof -
  have m: "sc_move idle_servos y = idle_call" "sc_move_full idle_servos y v z = idle_call" for y v z by (simp_all add: idle_servos_def)
  obtain j1 j2 where "forward idle_servos idle_call (j\<lparr>adjusted_target_pos := x, prev_target_pos := x\<rparr>) w = Some (j1, w, SUCCESS)"
    "forward idle_servos idle_call (j\<lparr>adjusted_target_pos := x, prev_target_pos := x, target_tor := tor\<rparr>) w = Some (j2, w, SUCCESS)"
    using forward_idle by meson
  then show ?thesis by (simp add: device_move_def joint_move_def joint_move_full_def m Let_def)
qed

theorem slew_is_synchronised_witness:
  "\<exists>s' scale. arm_slew idle_arm_world (slewing_arm, sample_node) = Some (s', SUCCESS) \<and> flt_le scale (Fin 1) \<and>
     prev_target_pos (a_joints (fst s') ! 0) = slew_command scale (Fin 2) (prev_target_pos (a_joints slewing_arm ! 0))"
proof -
  let ?j = "(sample_joint (Fin 30))\<lparr>follow_vel_max := Fin 1, tele_pos := Fin 2\<rparr>"
  have f: "control_frequency slewing_arm = 100" "slew_goal_positions slewing_arm = [Fin 0]" "a_joints slewing_arm = [?j]" "a_target_tor slewing_arm = [Fin 0]"
    by (simp_all add: slewing_arm_def sample_arm_simps)
  have c: "ee_servos idle_env = idle_servos" "aw_env idle_arm_world = idle_env"
    by (simp_all add: idle_arm_world_def idle_world_def idle_env_def)
  have g: "joint_safe_tele_pos_rad idle_servos x j = x" for x j by (simp add: joint_safe_tele_pos_rad_def idle_servos_def)
  define scale where "scale = slew_scale (slew_dt (ee_now idle_env (n_drv sample_node)) slewing_arm) [(?j, Fin 2)]"
  define a where "a = slewing_arm\<lparr>follower_slew_last_time := ee_now idle_env (n_drv sample_node), slew_goal_positions := [Fin 2]\<rparr>"
  have aj: "a_joints a = [?j]" by (simp add: a_def f)
  have "\<exists>s'. each_joint_with idle_env (\<lambda>(goal, tor) j. device_move idle_servos a (slew_command scale goal (prev_target_pos j)) tor j) [(Fin 2, Fin 0)]
      (a, sample_node) = Some (s', SUCCESS)"
    using device_move_idle [of a "slew_command scale (Fin 2) (prev_target_pos (sees_device idle_servos a ?j))" "Fin 0" "sees_device idle_servos a ?j" "n_drv sample_node"]
    by (auto simp: each_joint_with_def with_arm_joints_def joints_only_def beside_def with_value_def jcall_def c aj)
  then obtain s' where m: "arm_slew idle_arm_world (slewing_arm, sample_node) = Some (s', SUCCESS)"
    unfolding a_def scale_def by (auto simp: arm_slew_def f c g Let_def)
  have "positive_finite (Fin 1)" by (simp add: positive_finite_def)
  with slew_is_synchronised [OF m] m show ?thesis by (auto simp: f c g Let_def)
qed
end
