(* ===== verification/Control_Node.thy ===== *)
theory Control_Node
  imports Arm_Class
begin

unbundle bit_operations_syntax

text \<open>
  The process of a robot, \<^verbatim>\<open>native/pi_control/src/pi_control_node.cpp\<close>: start-up, the main control loop with its announcements, shutdown, and the
  monitor that ends an orphaned process. The loop runs any device given as a table of the calls it makes; the contract \<open>node_contract\<close> carries
  a relation kept by these calls to whole runs, and is interpreted on the arm and on the effector alone.
\<close>

section \<open>The parent's lifeline\<close>

text \<open>One round of the monitor thread: the result of \<^verbatim>\<open>poll\<close> and, for a readable descriptor, of \<^verbatim>\<open>read\<close>.\<close>

datatype pipe_read = ReadBytes | ReadEof | ReadInterrupted | ReadFailed

datatype poll_result = PollTimeout | PollInterrupted | PollFailed | PollEvents bool bool pipe_read

fun lost_parent :: "poll_result \<Rightarrow> bool" where
  "lost_parent PollTimeout = False"
| "lost_parent PollInterrupted = False"
| "lost_parent PollFailed = True"
| "lost_parent (PollEvents hangup readable r) = (hangup \<or> readable \<and> (r = ReadEof \<or> r = ReadFailed))"

text \<open>The flag \<^verbatim>\<open>stop_requested_\<close> is read before the round and again before the signal is sent.\<close>

fun monitor :: "(bool \<times> poll_result \<times> bool) list \<Rightarrow> bool" where
  "monitor [] = False"
| "monitor ((stop_requested, r, stop_requested_later) # rounds) =
     (if stop_requested then False else if lost_parent r then \<not> stop_requested_later else monitor rounds)"

section \<open>The program of a device\<close>

record ('d, 'w) node_program =
  np_class :: "('d, 'w) device_class"
  np_start :: "('d, 'w) dcall"
  np_verify :: "('d, 'w) dcall"
  np_step :: "('d, 'w) dcall"
  np_servo_param :: "('d, 'w) dcall"
  np_stop :: "('d, 'w) dcall"
  np_destroy :: "'d \<times> 'w node \<Rightarrow> ('d \<times> 'w node) option"

record announcements =
  informed_ready_now :: bool
  ready_announce_loops_remaining :: int
  handshake_announce_counter :: int
  servo_param_announce_counter :: int

definition new_announcements :: announcements where
  "new_announcements =
     \<lparr>informed_ready_now = False, ready_announce_loops_remaining = 0, handshake_announce_counter = 0, servo_param_announce_counter = 0\<rparr>"

definition PI_CONTROL_CAP_DIRECT_COMMAND :: int where "PI_CONTROL_CAP_DIRECT_COMMAND = push_bit 0 1"
definition PI_CONTROL_CAP_LIVE_INPUT :: int where "PI_CONTROL_CAP_LIVE_INPUT = push_bit 1 1"
definition PI_CONTROL_CAP_GRAVITY_COMP :: int where "PI_CONTROL_CAP_GRAVITY_COMP = push_bit 2 1"
definition PI_CONTROL_CAP_FORCE_FEEDBACK :: int where "PI_CONTROL_CAP_FORCE_FEEDBACK = push_bit 3 1"
definition PI_CONTROL_CAP_MOVE_TO_READY :: int where "PI_CONTROL_CAP_MOVE_TO_READY = push_bit 4 1"

definition DEVICE_INFO_READY_NOW :: int where "DEVICE_INFO_READY_NOW = 1"
definition DEVICE_INFO_PROTOCOL_HANDSHAKE :: int where "DEVICE_INFO_PROTOCOL_HANDSHAKE = 30"

definition capability_flags :: "Role \<Rightarrow> bool \<Rightarrow> int" where
  "capability_flags role read_only =
     (if role = FOLLOWER then PI_CONTROL_CAP_MOVE_TO_READY OR (PI_CONTROL_CAP_DIRECT_COMMAND OR PI_CONTROL_CAP_LIVE_INPUT)
      else if read_only then PI_CONTROL_CAP_MOVE_TO_READY
      else PI_CONTROL_CAP_MOVE_TO_READY OR (PI_CONTROL_CAP_GRAVITY_COMP OR PI_CONTROL_CAP_FORCE_FEEDBACK))"

definition handshake_data :: "Role \<Rightarrow> bool \<Rightarrow> int list" where
  "handshake_data role read_only = [1, 1, capability_flags role read_only]"

section \<open>One cycle of the main loop\<close>

text \<open>A failed step outside a recovery starts one; the loop goes on.\<close>

definition react :: "('a device_scheme, 'w) device_class \<Rightarrow> ReturnCode \<Rightarrow> 'a device_scheme \<times> 'w node \<Rightarrow> 'a device_scheme \<times> 'w node" where
  "react c rc s =
     (if rc \<noteq> SUCCESS \<and> \<not> is_in_emergency_recovery (fst s) then enter_emergency_recovery c rc (last_failed_joint_id (fst s)) s else s)"

text \<open>A counter of cycles is an \<^verbatim>\<open>int\<close>: its overflow is undefined.\<close>

definition every :: "int \<Rightarrow> int \<Rightarrow> bool" where
  "every period counter \<longleftrightarrow> counter mod max 1 period = 0"

definition count_up :: "int \<Rightarrow> int option" where
  "count_up counter = (if counter = 2 ^ 31 - 1 then None else Some (counter + 1))"

definition ready_due :: "int \<Rightarrow> int \<Rightarrow> bool" where
  "ready_due frequency remaining \<longleftrightarrow>
     0 < remaining \<and> (remaining = max 1 frequency \<or> remaining mod max 1 (frequency div 10) = 0)"

definition announce_ready ::
  "('a device_scheme, 'w) device_class \<Rightarrow> int \<Rightarrow> announcements \<Rightarrow> 'a device_scheme \<times> 'w node
   \<Rightarrow> ('a device_scheme \<times> 'w node) \<times> announcements \<times> bool" where
  "announce_ready c frequency l s =
     (if \<not> is_ready (fst s) then (s, l\<lparr>informed_ready_now := False\<rparr>, False)
      else let l = (if informed_ready_now l then l
                    else l\<lparr>ready_announce_loops_remaining := max 1 frequency, informed_ready_now := True\<rparr>);
               remaining = ready_announce_loops_remaining l;
               completed = completed_move_to_ready_request_id (fst s);
               (s, rc) = (if ready_due frequency remaining
                          then publish_device_info c DEVICE_INFO_READY_NOW [] (if 0 < completed then [completed] else []) s
                          else (s, SUCCESS))
           in if rc \<noteq> SUCCESS then (s, l, True)
              else (s, if 0 < remaining then l\<lparr>ready_announce_loops_remaining := remaining - 1\<rparr> else l, False))"

definition announce_handshake ::
  "('a device_scheme, 'w) device_class \<Rightarrow> int \<Rightarrow> int list \<Rightarrow> int \<Rightarrow> 'a device_scheme \<times> 'w node \<Rightarrow> 'a device_scheme \<times> 'w node" where
  "announce_handshake c frequency handshake counter s =
     (if every (frequency div 2) counter then fst (publish_device_info c DEVICE_INFO_PROTOCOL_HANDSHAKE [] handshake s) else s)"

definition announce_param :: "('d, 'w) dcall \<Rightarrow> int \<Rightarrow> int \<Rightarrow> ('d, 'w) dcall" where
  "announce_param publish frequency counter s = (if every (frequency div 10) counter then publish s else Some (s, SUCCESS))"

definition control_cycle ::
  "('a device_scheme, 'w) node_program \<Rightarrow> int \<Rightarrow> int list \<Rightarrow> ('a device_scheme \<times> 'w node) \<times> announcements
   \<Rightarrow> ((('a device_scheme \<times> 'w node) \<times> announcements) \<times> bool) option" where
  "control_cycle P frequency handshake x =
     (case np_step P (fst x) of
        None \<Rightarrow> None
      | Some (s, rc) \<Rightarrow>
          (case (count_up (handshake_announce_counter (snd x)), count_up (servo_param_announce_counter (snd x))) of
             (Some h, Some p) \<Rightarrow>
               (case announce_param (np_servo_param P) frequency (servo_param_announce_counter (snd x))
                       (announce_handshake (np_class P) frequency handshake (handshake_announce_counter (snd x)) (react (np_class P) rc s)) of
                  None \<Rightarrow> None
                | Some (s, _) \<Rightarrow>
                    (let (s, l, broken) = announce_ready (np_class P) frequency
                                            ((snd x)\<lparr>handshake_announce_counter := h, servo_param_announce_counter := p\<rparr>) s
                     in Some ((s, l), broken)))
           | _ \<Rightarrow> None))"

text \<open>
  The loop over a schedule: before every cycle, whether a signal has arrived, and what the world has done meanwhile. The result is
  \<open>True\<close> if the loop has ended, \<open>False\<close> at the end of the schedule.
\<close>

fun control_loop ::
  "('a device_scheme, 'w) node_program \<Rightarrow> int \<Rightarrow> int list \<Rightarrow> (bool \<times> ('w \<Rightarrow> 'w)) list \<Rightarrow> ('a device_scheme \<times> 'w node) \<times> announcements
   \<Rightarrow> ((('a device_scheme \<times> 'w node) \<times> announcements) \<times> bool) option" where
  "control_loop P frequency handshake [] x = Some (x, False)"
| "control_loop P frequency handshake ((signal, world) # ticks) x =
     (if signal \<or> \<not> device_is_running (fst x) then Some (x, True)
      else case control_cycle P frequency handshake x of
             None \<Rightarrow> None
           | Some (x, True) \<Rightarrow> Some (x, True)
           | Some (((d, n), l), False) \<Rightarrow> control_loop P frequency handshake ticks ((d, n\<lparr>n_drv := world (n_drv n)\<rparr>), l))"

section \<open>The process\<close>

text \<open>A value of \<open>None\<close> for the exit code means that the process is still running at the end of the schedule.\<close>

definition node_leave ::
  "('d, 'w) node_program \<Rightarrow> int \<Rightarrow> 'd \<times> 'w node \<Rightarrow> (('d \<times> 'w node) \<times> int option) option" where
  "node_leave P code s = map_option (\<lambda>s. (s, Some code)) (np_destroy P s)"

definition node_main ::
  "('a device_scheme, 'w) node_program \<Rightarrow> ('a device_scheme, 'w) dcall \<Rightarrow> Role \<Rightarrow> int \<Rightarrow> (bool \<times> ('w \<Rightarrow> 'w)) list \<Rightarrow> 'a device_scheme \<times> 'w node
   \<Rightarrow> (('a device_scheme \<times> 'w node) \<times> int option) option" where
  "node_main P initialise role frequency ticks s =
     (case andthen initialise (andthen (np_start P) (np_verify P)) s of
        None \<Rightarrow> None
      | Some (s, rc) \<Rightarrow>
          (if rc \<noteq> SUCCESS then node_leave P (-1) s
           else let s = fst (device_arm_comm_loss (np_class P) s)
                in case control_loop P frequency (handshake_data role (is_read_only (fst s))) ticks (s, new_announcements) of
                     None \<Rightarrow> None
                   | Some ((s, _), False) \<Rightarrow> Some (s, None)
                   | Some ((s, _), True) \<Rightarrow> (case np_stop P s of None \<Rightarrow> None | Some (s, _) \<Rightarrow> node_leave P 0 s)))"

text \<open>The two devices of this library. A destructor parks, and destroys the effector after its arm has parked.\<close>

definition effector_destroy :: "('s, 'b, 'w) effector_world \<Rightarrow> ('s, 'b, 'z) effector_scheme \<times> 'w node \<Rightarrow> (('s, 'b, 'z) effector_scheme \<times> 'w node) option" where
  "effector_destroy W s = map_option fst (eff_park_safely (ew_env W) s)"

definition arm_destroy :: "('s, 'b, 'w) arm_world \<Rightarrow> ('s, 'b, 'z) arm_scheme \<times> 'w node \<Rightarrow> (('s, 'b, 'z) arm_scheme \<times> 'w node) option" where
  "arm_destroy A s =
     (case arm_park_safely A s of
        None \<Rightarrow> None
      | Some (s, _) \<Rightarrow> map_option (\<lambda>(s, _). ((fst s)\<lparr>p_effector := None\<rparr>, snd s)) (on_effector (eff_park_safely (aw_env A)) s))"

definition effector_program :: "('s, 'b, 'w) effector_world \<Rightarrow> (('s, 'b, 'z) effector_scheme, 'w) node_program" where
  "effector_program W =
     \<lparr>np_class = effector_class W, np_start = effector_start (effector_class W) (ew_env W), np_verify = eff_verify_servos_operational (ew_env W),
      np_step = device_step (effector_class W), np_servo_param = refuse SUCCESS, np_stop = device_stop (effector_class W),
      np_destroy = effector_destroy W\<rparr>"

definition arm_program :: "('s, 'b, 'w) arm_world \<Rightarrow> (('s, 'b, 'z) arm_scheme, 'w) node_program" where
  "arm_program A =
     \<lparr>np_class = arm_class A, np_start = arm_start A (arm_class A), np_verify = arm_verify_servos_operational A,
      np_step = arm_step A (arm_class A), np_servo_param = publish_next_servo_param A (arm_class A), np_stop = arm_stop A (arm_class A),
      np_destroy = arm_destroy A\<rparr>"

section \<open>The contract of the main loop\<close>

text \<open>A relation between states that every call of the loop keeps holds over whole runs.\<close>

locale node_contract =
  fixes P :: "('a device_scheme, 'w) node_program" and R :: "'a device_scheme \<times> 'w node \<Rightarrow> 'a device_scheme \<times> 'w node \<Rightarrow> bool"
  assumes R_refl: "R s s"
    and R_trans: "R s s' \<Longrightarrow> R s' s'' \<Longrightarrow> R s s''"
    and step: "np_step P s = Some (s', rc) \<Longrightarrow> R s s'"
    and enter: "R s (enter_emergency_recovery (np_class P) cause j s)"
    and info: "key \<noteq> DEVICE_INFO_SHUTDOWN_AFTER_ERROR \<Longrightarrow> R s (fst (publish_device_info (np_class P) key fs ints s))"
    and servo_param: "np_servo_param P s = Some (s', rc) \<Longrightarrow> R s s'"
    and world: "R (d, n) (d, n\<lparr>n_drv := w\<rparr>)"
begin

lemma react_related: "R s (react (np_class P) rc s)"
  by (simp add: react_def R_refl enter)

lemma announce_related: "announce_ready (np_class P) frequency l s = (s', l', broken) \<Longrightarrow> R s s'"
  using info [of DEVICE_INFO_READY_NOW s]
  by (auto simp: announce_ready_def Let_def DEVICE_INFO_READY_NOW_def DEVICE_INFO_SHUTDOWN_AFTER_ERROR_def R_refl split: if_splits prod.splits) (metis fst_conv)+

lemma cycle_related:
  assumes "control_cycle P frequency handshake x = Some (x', broken)"
  shows "R (fst x) (fst x')"
proof -
  obtain s1 rc where s1: "np_step P (fst x) = Some (s1, rc)" using assms by (auto simp: control_cycle_def split: option.splits)
  define s2 where "s2 = react (np_class P) rc s1"
  define s3 where "s3 = announce_handshake (np_class P) frequency handshake (handshake_announce_counter (snd x)) s2"
  obtain s4 rc4 where p: "announce_param (np_servo_param P) frequency (servo_param_announce_counter (snd x)) s3 = Some (s4, rc4)"
    using assms s1 by (auto simp: control_cycle_def s2_def s3_def split: option.splits)
  then obtain l l' where a: "announce_ready (np_class P) frequency l s4 = (fst x', l', broken)"
    using assms s1 by (auto simp: control_cycle_def s2_def s3_def split: option.splits prod.splits)
  have "R (fst x) s1" by (rule step [OF s1])
  moreover have "R s1 s2" by (simp add: s2_def react_related)
  moreover have "R s2 s3"
    by (simp add: s3_def announce_handshake_def R_refl info DEVICE_INFO_PROTOCOL_HANDSHAKE_def DEVICE_INFO_SHUTDOWN_AFTER_ERROR_def)
  moreover have "R s3 s4" using p by (auto simp: announce_param_def R_refl split: if_splits intro: servo_param)
  moreover have "R s4 (fst x')" by (rule announce_related [OF a])
  ultimately show ?thesis by (blast intro: R_trans)
qed

lemma loop_related: "control_loop P frequency handshake ticks x = Some (x', ended) \<Longrightarrow> R (fst x) (fst x')"
proof (induction ticks arbitrary: x)
  case (Cons tick ticks)
  obtain signal change where tick: "tick = (signal, change)" by (cases tick)
  show ?case
  proof (cases "signal \<or> \<not> device_is_running (fst x)")
    case False
    then obtain d n l broken where c: "control_cycle P frequency handshake x = Some (((d, n), l), broken)"
      using Cons.prems by (auto simp: tick split: option.splits)
    have r: "R (fst x) (d, n)" using cycle_related [OF c] by simp
    show ?thesis
    proof (cases broken)
      case True
      with Cons.prems False c r show ?thesis by (auto simp: tick)
    next
      case broken: False
      then have "R (d, n\<lparr>n_drv := change (n_drv n)\<rparr>) (fst x')" using Cons.IH Cons.prems False c by (fastforce simp: tick)
      with r world R_trans show ?thesis by blast
    qed
  qed (use Cons.prems R_refl in \<open>auto simp: tick\<close>)
qed (simp add: R_refl)

end

section \<open>The effector and the arm keep the contract\<close>

interpretation effector_node: node_contract "effector_program W" advances for W :: "('s, 'b, 'w) effector_world"
proof unfold_locales
  fix d :: "('s, 'b, 'z) effector_scheme" and n :: "'w node" and w
  show "advances (d, n) (d, n\<lparr>n_drv := w\<rparr>)" by (intro still_advances still_fields) simp_all
qed (auto simp: effector_program_def refuse_def intro: advances_trans effector.step_advances effector.enter_advances still_advances effector.info_still)

definition arm_advances :: "('s, 'b, 'z) arm_scheme \<times> 'w node \<Rightarrow> ('s, 'b, 'z) arm_scheme \<times> 'w node \<Rightarrow> bool" where
  "arm_advances s s' \<longleftrightarrow> (effector_quiet (fst s) \<longrightarrow> advances s s' \<and> effector_view (fst s') = effector_view (fst s))"

lemma arm_still_arm_advances: "arm_still s s' \<Longrightarrow> arm_advances s s'"
  by (simp add: arm_advances_def arm_still_def still_advances)

lemma arm_info_still: "k \<noteq> DEVICE_INFO_SHUTDOWN_AFTER_ERROR \<Longrightarrow> arm_still s (fst (publish_device_info (arm_class A) k fs ints s))"
  by (simp add: arm_still_def arm.info_still info_device)

lemma servo_param_still: "publish_next_servo_param A (arm_class A) s = Some (s', rc) \<Longrightarrow> arm_still s s'"
proof -
  assume p: "publish_next_servo_param A (arm_class A) s = Some (s', rc)"
  define s1 where "s1 = ((fst s)\<lparr>servo_param_publish_index := (servo_param_publish_index (fst s) mod int (length (a_joints (fst s))) + 1) mod int (length (a_joints (fst s)))\<rparr>, snd s)"
  have "arm_still s s1" unfolding s1_def by (rule arm_still_device) (simp_all add: arm_views)
  moreover have "s' = s \<or> s' = s1 \<or> (\<exists>fs ints rc. publish_device_info (arm_class A) DEVICE_INFO_SERVO_PARAM fs ints s1 = (s', rc))"
    using p by (auto simp: publish_next_servo_param_def s1_def [symmetric] Let_def split: if_splits option.splits)
  moreover have "arm_still s1 s'" if "publish_device_info (arm_class A) DEVICE_INFO_SERVO_PARAM fs ints s1 = (s', rc)" for fs ints rc
    using arm_info_still [of DEVICE_INFO_SERVO_PARAM s1 A fs ints] that
    by (simp add: DEVICE_INFO_SERVO_PARAM_def DEVICE_INFO_SHUTDOWN_AFTER_ERROR_def)
  ultimately show ?thesis by (metis arm_still_refl arm_still_trans)
qed

lemma arm_step_arm_advances: "arm_step A (arm_class A) s = Some (s', rc) \<Longrightarrow> arm_advances s s'"
  by (auto simp: arm_advances_def dest: arm_step_advances)

interpretation arm_node: node_contract "arm_program A" arm_advances for A :: "('s, 'b, 'w) arm_world"
proof unfold_locales
  fix s s' s'' :: "('s, 'b, 'z) arm_scheme \<times> 'w node"
  show "arm_advances s s' \<Longrightarrow> arm_advances s' s'' \<Longrightarrow> arm_advances s s''"
    by (auto simp: arm_advances_def intro: advances_trans effector_quiet_view)
next
  fix s :: "('s, 'b, 'z) arm_scheme \<times> 'w node" and cause j
  show "arm_advances s (enter_emergency_recovery (np_class (arm_program A)) cause j s)"
    using arm.enter_advances [of s A cause j] arm_effector.enter_keeps [where s = s] by (auto simp: arm_advances_def arm_program_def)
next
  fix d :: "('s, 'b, 'z) arm_scheme" and n :: "'w node" and w
  show "arm_advances (d, n) (d, n\<lparr>n_drv := w\<rparr>)" by (rule arm_still_arm_advances) (use arm_still_drv [of d "(d, n)"] in simp)
qed (auto simp: arm_program_def intro: arm_step_arm_advances arm_still_arm_advances servo_param_still arm_info_still)

section \<open>Recovery in a running node\<close>

text \<open>C19: Emergency recovery of a node is one-way. Over any schedule of signals and hardware behaviour, through steps, announcements and client commands, the
  recovery state of an arm never falls back, the first cause and the first failed joint stay recorded, the shutdown notice goes out at most once and with that
  cause, the effector never enters a recovery of its own, and a leader that is in recovery publishes no observation.
\<close>

theorem node_recovery_one_way:
  assumes "control_loop (arm_program A) frequency handshake ticks (s, l) = Some ((s', l'), ended)" "recovery_ok s" "effector_quiet (fst s)"
  shows "recovery_rank (emergency_state (fst s)) \<le> recovery_rank (emergency_state (fst s')) \<and> recovery_ok s' \<and>
    length (shutdown_notices (snd s')) \<le> 1 \<and> effector_quiet (fst s') \<and>
    (emergency_state (fst s) \<noteq> EM_NONE \<longrightarrow>
       emergency_cause (fst s') = emergency_cause (fst s) \<and> emergency_failed_joint_id (fst s') = emergency_failed_joint_id (fst s) \<and>
       (d_role (fst s) = LEADER \<longrightarrow> observations (snd s') = observations (snd s)))"
proof -
  have "arm_advances s s'" using arm_node.loop_related [OF assms(1)] by simp
  with assms(2,3) effector_quiet_view [OF _ assms(3)] show ?thesis by (auto simp: arm_advances_def advances_def recovery_ok_def)
qed

lemma announce_ready_device: "announce_ready c frequency l s = (s', l', broken) \<Longrightarrow> fst s' = fst s \<and> (broken \<longrightarrow> is_ready (fst s))"
proof -
  have d: "publish_device_info c DEVICE_INFO_READY_NOW [] is s = (t, rc) \<Longrightarrow> fst t = fst s" for "is" t rc
    using info_device [of c DEVICE_INFO_READY_NOW "[]" "is" s] by simp
  show "announce_ready c frequency l s = (s', l', broken) \<Longrightarrow> fst s' = fst s \<and> (broken \<longrightarrow> is_ready (fst s))"
    by (auto simp: announce_ready_def Let_def split: if_splits prod.splits dest: d)
qed

text \<open>C24: No failure of a step goes unanswered. When the step of an arm outside a recovery returns an error, whatever the error, the same cycle of the main loop
  starts the recovery with that error as its cause and the joint the device has blamed, and the loop goes on to carry it out; it breaks only when the topic
  refuses the ready notice of a device that is ready.
\<close>

theorem failed_step_starts_recovery:
  assumes "control_cycle (arm_program A) frequency handshake (s, l) = Some ((s', l'), broken)"
    and "arm_step A (arm_class A) s = Some (s1, rc)" "rc \<noteq> SUCCESS" "emergency_state (fst s1) = EM_NONE"
  shows "emergency_state (fst s') = EM_REQUESTED \<and> emergency_cause (fst s') = code_of rc \<and>
    emergency_failed_joint_id (fst s') = last_failed_joint_id (fst s1) \<and> (broken \<longrightarrow> is_ready (fst s'))"
proof -
  define s2 where "s2 = react (arm_class A) rc s1"
  define s3 where "s3 = announce_handshake (arm_class A) frequency handshake (handshake_announce_counter l) s2"
  have s2: "emergency_state (fst s2) = EM_REQUESTED" "emergency_cause (fst s2) = code_of rc" "emergency_failed_joint_id (fst s2) = last_failed_joint_id (fst s1)"
    using assms(3,4)
    by (cases s1; simp add: s2_def react_def is_in_emergency_recovery_def enter_emergency_recovery_def info_device set_pause_leader_command_listening_def Let_def)+
  obtain s4 rc4 where p: "announce_param (publish_next_servo_param A (arm_class A)) frequency (servo_param_announce_counter l) s3 = Some (s4, rc4)"
    using assms(1,2) by (auto simp: control_cycle_def arm_program_def s2_def s3_def split: option.splits)
  then obtain l1 l2 where a: "announce_ready (arm_class A) frequency l1 s4 = (s', l2, broken)"
    using assms(1,2) by (auto simp: control_cycle_def arm_program_def s2_def s3_def split: option.splits prod.splits)
  have "arm_still s2 s3"
    unfolding s3_def announce_handshake_def
    by (auto intro: arm_info_still simp: DEVICE_INFO_PROTOCOL_HANDSHAKE_def DEVICE_INFO_SHUTDOWN_AFTER_ERROR_def)
  moreover have "arm_still s3 s4" using p by (auto simp: announce_param_def split: if_splits intro: servo_param_still)
  ultimately have "recovery_view (fst s4) = recovery_view (fst s2)" by (simp add: arm_still_def still_def)
  with s2 announce_ready_device [OF a] show ?thesis by (auto simp: recovery_viewD)
qed

section \<open>The ready notice\<close>

text \<open>The ready notice repeats for a second. From the first cycle in which a device is ready, with every notice accepted, a notice goes out in that cycle and then
  whenever the count-down from the control frequency passes a multiple of a tenth of it, and in no cycle after the first second; a cycle in which the device
  is not ready arms the announcement again.
\<close>

theorem ready_notice_schedule:
  fixes s s' :: "nat \<Rightarrow> 'a device_scheme \<times> 'w node"
  assumes "\<And>k. k < n \<Longrightarrow> announce_ready c frequency (l k) (s k) = (s' k, l' k, False) \<and> is_ready (fst (s k))"
    and "\<And>k. Suc k < n \<Longrightarrow> informed_ready_now (l (Suc k)) = informed_ready_now (l' k) \<and>
      ready_announce_loops_remaining (l (Suc k)) = ready_announce_loops_remaining (l' k)"
    and "\<not> informed_ready_now (l 0)" "k < n"
  shows "s' k = (let completed = completed_move_to_ready_request_id (fst (s k))
    in if int k < max 1 frequency \<and> (k = 0 \<or> (max 1 frequency - int k) mod max 1 (frequency div 10) = 0)
       then fst (publish_device_info c DEVICE_INFO_READY_NOW [] (if 0 < completed then [completed] else []) (s k)) else s k)"
proof -
  define total where "total = max 1 frequency"
  define left where "left k = max 0 (total - int k)" for k
  have once: "s'' = (if ready_due frequency m then fst (publish_device_info c DEVICE_INFO_READY_NOW []
        (if 0 < completed_move_to_ready_request_id (fst t) then [completed_move_to_ready_request_id (fst t)] else []) t) else t) \<and>
      informed_ready_now l2 \<and> ready_announce_loops_remaining l2 = max 0 (m - 1)"
    if a: "announce_ready c frequency l1 t = (s'', l2, False)" and "is_ready (fst t)"
      and m: "m = (if informed_ready_now l1 then ready_announce_loops_remaining l1 else total)" and "0 \<le> m" for l1 l2 t s'' m
    using that unfolding announce_ready_def Let_def total_def
    by (auto split: if_splits prod.splits)
  have inv: "informed_ready_now (l' k) \<and> ready_announce_loops_remaining (l' k) = left (Suc k) \<and>
      s' k = (if ready_due frequency (left k) then fst (publish_device_info c DEVICE_INFO_READY_NOW []
        (if 0 < completed_move_to_ready_request_id (fst (s k)) then [completed_move_to_ready_request_id (fst (s k))] else []) (s k)) else s k)"
    if "k < n" for k
    using that
  proof (induction k)
    case 0
    have "total = left 0" by (simp add: left_def total_def)
    with once [of "l 0" "s 0" "s' 0" "l' 0" total] assms(1) [OF 0] assms(3) show ?case by (auto simp: left_def total_def)
  next
    case (Suc k)
    then have "informed_ready_now (l (Suc k))" "ready_announce_loops_remaining (l (Suc k)) = left (Suc k)" using assms(2) [of k] by simp_all
    with once [of "l (Suc k)" "s (Suc k)" "s' (Suc k)" "l' (Suc k)" "left (Suc k)"] assms(1) [OF Suc.prems] show ?case by (auto simp: left_def)
  qed
  have "ready_due frequency (left k) \<longleftrightarrow> int k < total \<and> (k = 0 \<or> (total - int k) mod max 1 (frequency div 10) = 0)"
    by (auto simp: ready_due_def left_def total_def)
  with inv [OF assms(4)] show ?thesis by (simp add: total_def Let_def)
qed

section \<open>The monitor\<close>

text \<open>The process is ended exactly when some round loses the parent and no stop was requested before, nor any parent lost.\<close>

lemma orphan_is_ended:
  "monitor rounds \<longleftrightarrow> (\<exists>i < length rounds. lost_parent (fst (snd (rounds ! i))) \<and> \<not> snd (snd (rounds ! i)) \<and>
     (\<forall>j \<le> i. \<not> fst (rounds ! j)) \<and> (\<forall>j < i. \<not> lost_parent (fst (snd (rounds ! j)))))"
proof (induction rounds)
  case (Cons r rounds)
  obtain a b d where r: "r = (a, b, d)" by (cases r)
  show ?case
    by (simp add: r Cons.IH Ex_less_Suc2 All_less_Suc2 less_Suc_eq_le [symmetric] del: less_Suc_eq_le)
qed simp

section \<open>Witnesses\<close>

text \<open>An arm whose driver object is missing: its first read fails.\<close>

definition headless_arm :: "(servo, lbuf) arm" where
  "headless_arm = sample_arm\<lparr>is_driver_created_by_this := True, has_driver := False\<rparr>"

lemma headless_arm_facts:
  "is_driver_created_by_this headless_arm" "\<not> has_driver headless_arm" "emergency_state headless_arm = EM_NONE" "has_topic headless_arm"
  "last_failed_joint_id headless_arm = -1" "\<not> is_ready headless_arm" "p_effector headless_arm = Some sample_gripper" "\<not> emergency_completed_published headless_arm"
  by (simp_all add: headless_arm_def sample_arm_simps)

lemma headless_step: "arm_step idle_arm_world (arm_class idle_arm_world) (headless_arm, sample_node) = Some ((headless_arm, sample_node), FAIL)"
  by (simp add: arm_step_def device_step_def andthen_def read_phase_def arm_class_fields arm_read_hardware_values_def headless_arm_facts
      is_in_emergency_recovery_def Let_def)

lemma idle_servo_param: "\<exists>s' rc. announce_param (publish_next_servo_param idle_arm_world c) frequency counter s = Some (s', rc)"
  by (auto simp: announce_param_def publish_next_servo_param_def idle_arm_world_def Let_def)

lemma headless_cycle:
  obtains s' l' broken where "control_cycle (arm_program idle_arm_world) 100 [1, 1, 28] ((headless_arm, sample_node), new_announcements) = Some ((s', l'), broken)"
proof -
  define s3 where "s3 = announce_handshake (arm_class idle_arm_world) 100 [1, 1, 28] 0 (react (arm_class idle_arm_world) FAIL (headless_arm, sample_node))"
  obtain s4 rc where p: "announce_param (publish_next_servo_param idle_arm_world (arm_class idle_arm_world)) 100 0 s3 = Some (s4, rc)"
    using idle_servo_param by blast
  show thesis
    by (rule that [of "fst (announce_ready (arm_class idle_arm_world) 100 (new_announcements\<lparr>handshake_announce_counter := 1, servo_param_announce_counter := 1\<rparr>) s4)"])
       (use p in \<open>simp add: control_cycle_def arm_program_def headless_step new_announcements_def count_up_def s3_def split_beta Let_def\<close>)
qed

theorem failed_step_starts_recovery_witness:
  "\<exists>s' l' broken. control_cycle (arm_program idle_arm_world) 100 [1, 1, 28] ((headless_arm, sample_node), new_announcements) = Some ((s', l'), broken) \<and>
     emergency_state (fst s') = EM_REQUESTED \<and> emergency_cause (fst s') = code_of FAIL \<and> emergency_failed_joint_id (fst s') = -1"
proof -
  obtain s' l' broken where c: "control_cycle (arm_program idle_arm_world) 100 [1, 1, 28] ((headless_arm, sample_node), new_announcements) = Some ((s', l'), broken)"
    by (rule headless_cycle)
  from failed_step_starts_recovery [OF c headless_step] c show ?thesis by (auto simp: headless_arm_facts)
qed

theorem node_recovery_one_way_witness:
  "\<exists>s' l'. control_loop (arm_program idle_arm_world) 100 [1, 1, 28] [(False, id), (True, id)] ((headless_arm, sample_node), new_announcements) = Some ((s', l'), True) \<and>
     length (shutdown_notices (snd s')) \<le> 1 \<and> effector_quiet (fst s')"
proof -
  obtain s1 l1 broken where c: "control_cycle (arm_program idle_arm_world) 100 [1, 1, 28] ((headless_arm, sample_node), new_announcements) = Some ((s1, l1), broken)"
    by (rule headless_cycle)
  then obtain s' l' where r: "control_loop (arm_program idle_arm_world) 100 [1, 1, 28] [(False, id), (True, id)] ((headless_arm, sample_node), new_announcements) = Some ((s', l'), True)"
    by (cases s1; cases broken) (auto simp: device_is_running_def headless_arm_facts sample_node_def)
  have "recovery_ok (headless_arm, sample_node)" "effector_quiet headless_arm"
    by (simp_all add: recovery_ok_def headless_arm_facts shutdown_notices_def sample_node_def effector_quiet_def sample_gripper_quiet)
  with node_recovery_one_way [OF r] r show ?thesis by auto
qed

theorem ready_notice_schedule_witness:
  "\<exists>s' l'. announce_ready idle_device 100 new_announcements (slow_device\<lparr>is_ready := True\<rparr>, node_at 0) = (s', l', False) \<and>
     n_events (snd s') = [PubInfo DEVICE_INFO_READY_NOW [] []]"
proof -
  let ?s = "(slow_device\<lparr>is_ready := True\<rparr>, node_at 0)"
  have f: "has_topic slow_device" "completed_move_to_ready_request_id slow_device = 0" by (simp_all add: slow_device_def new_device_object_def)
  obtain s' l' where a: "announce_ready idle_device 100 new_announcements ?s = (s', l', False)"
    by (simp add: announce_ready_def new_announcements_def ready_due_def publish_device_info_def f idle_device_def)
  have "s' = fst (publish_device_info idle_device DEVICE_INFO_READY_NOW [] [] ?s)"
    using ready_notice_schedule [of 1 idle_device 100 "\<lambda>_. new_announcements" "\<lambda>_. ?s" "\<lambda>_. s'" "\<lambda>_. l'" 0] a
    by (simp add: f new_announcements_def)
  with a show ?thesis by (simp add: publish_device_info_def f idle_device_def node_at_def)
qed

end
