(* ===== verification/Serial_Port.thy ===== *)
theory Serial_Port
  imports Can_Bus
begin

text \<open>
  The raw tty of \<^verbatim>\<open>native/pi_control/src/pi_driver_serial.cpp\<close>, with the timed read
  \<^verbatim>\<open>DriverFt::read_exact\<close> of \<^verbatim>\<open>pi_driver_ft.cpp\<close> that the packet layer uses. The state has the kernel's input
  queue, the arrivals still to come, each with the microseconds that pass before it, and the outcomes of the
  next \<^verbatim>\<open>write\<close> calls; past the end of the latter a write takes everything. Time passes in sleeps, in waits
  and in writes. A \<^verbatim>\<open>read\<close> on the non-blocking port (\<^verbatim>\<open>VMIN = VTIME = 0\<close>) takes what is queued, at most what
  is asked for. \<^verbatim>\<open>open\<close> is that of the Linux build; the terminal flags and the latency timer are not part of the state.
\<close>

section \<open>The port\<close>

text \<open>An arrival of no bytes is a wait that ends early, \<open>ReadBreaks\<close> makes the next read fail.\<close>

datatype rx_event = Arrives "u8 list" | ReadBreaks

datatype tx_event = TxTook nat | TxInterrupted | TxFull | TxFailed

record serial_port =
  port_open :: bool
  port_fds :: nat
  port_now :: nat
  rx_queue :: "u8 list"
  rx_error :: bool
  rx_script :: "(nat \<times> rx_event) list"
  tx_script :: "(nat \<times> tx_event) list"
  tx_wire :: "u8 list"
  is_running :: bool

section \<open>Time and the system calls\<close>

fun rx_arrive :: "rx_event \<Rightarrow> 'a serial_port_scheme \<Rightarrow> 'a serial_port_scheme" where
  "rx_arrive (Arrives bs) p = p\<lparr>rx_queue := rx_queue p @ bs\<rparr>"
| "rx_arrive ReadBreaks p = p\<lparr>rx_error := True\<rparr>"

lemma arrive_script [simp]: "rx_script (rx_arrive ev p) = rx_script p" "port_now (rx_arrive ev p) = port_now p"
  by (cases ev; simp)+

function elapse :: "nat \<Rightarrow> 'a serial_port_scheme \<Rightarrow> 'a serial_port_scheme" where
  "elapse us p =
     (case rx_script p of
        [] \<Rightarrow> p\<lparr>port_now := port_now p + us\<rparr>
      | (dt, ev) # rest \<Rightarrow>
          (if dt \<le> us then elapse (us - dt) (rx_arrive ev (p\<lparr>port_now := port_now p + dt, rx_script := rest\<rparr>))
           else p\<lparr>port_now := port_now p + us, rx_script := (dt - us, ev) # rest\<rparr>))"
  by pat_completeness auto
termination by (relation "measure (\<lambda>(us, p). length (rx_script p))") auto

declare elapse.simps [simp del]

text \<open>\<^verbatim>\<open>poll\<close> on an empty queue: it ends with the first arrival or after the timeout.\<close>

definition sp_poll :: "nat \<Rightarrow> 'a serial_port_scheme \<Rightarrow> 'a serial_port_scheme" where
  "sp_poll us p =
     (case rx_script p of
        [] \<Rightarrow> p\<lparr>port_now := port_now p + us\<rparr>
      | (dt, ev) # rest \<Rightarrow>
          (if dt \<le> us then rx_arrive ev (p\<lparr>port_now := port_now p + dt, rx_script := rest\<rparr>)
           else p\<lparr>port_now := port_now p + us, rx_script := (dt - us, ev) # rest\<rparr>))"

text \<open>\<^verbatim>\<open>read\<close>: \<open>None\<close> is a hard error, no bytes is \<^verbatim>\<open>EAGAIN\<close>.\<close>

definition sp_read :: "nat \<Rightarrow> 'a serial_port_scheme \<Rightarrow> 'a serial_port_scheme \<times> u8 list option" where
  "sp_read n p =
     (if rx_error p then (p\<lparr>rx_error := False\<rparr>, None)
      else (p\<lparr>rx_queue := drop n (rx_queue p)\<rparr>, Some (take n (rx_queue p))))"

definition tcflush_input :: "'a serial_port_scheme \<Rightarrow> 'a serial_port_scheme" where
  "tcflush_input p = p\<lparr>rx_queue := []\<rparr>"

section \<open>Opening and closing\<close>

text \<open>The rates with a \<^verbatim>\<open>termios\<close> constant on Linux; any other maps to speed 0.\<close>

definition baud_constant :: "int \<Rightarrow> int option" where
  "baud_constant baud_rate =
     (if baud_rate \<in> set [9600, 19200, 38400, 57600, 115200, 230400, 460800, 500000, 576000, 921600, 1000000]
      then Some baud_rate else None)"

text \<open>What the system calls of \<^verbatim>\<open>open\<close> answer.\<close>

record serial_env =
  fd_ok :: bool
  tcgetattr_ok :: bool
  tcsetattr_ok :: bool
  modem_get_ok :: bool
  modem_set_ok :: bool

definition serial_stop_reception :: "'a serial_port_scheme \<Rightarrow> 'a serial_port_scheme \<times> ReturnCode" where
  "serial_stop_reception p = (p\<lparr>is_running := False\<rparr>, SUCCESS)"

definition serial_close :: "'a serial_port_scheme \<Rightarrow> 'a serial_port_scheme \<times> ReturnCode" where
  "serial_close p =
     (let p = fst (serial_stop_reception p)
      in (if port_open p then p\<lparr>port_open := False, port_fds := port_fds p - 1\<rparr> else p, SUCCESS))"

definition raise_modem_lines :: "serial_env \<Rightarrow> 'a serial_port_scheme \<Rightarrow> 'a serial_port_scheme" where
  "raise_modem_lines e p = (if modem_get_ok e \<and> modem_set_ok e then elapse 200000 p else p)"

definition serial_open ::
  "serial_env \<Rightarrow> string \<Rightarrow> int \<Rightarrow> 'a serial_port_scheme \<Rightarrow> 'a serial_port_scheme \<times> ReturnCode" where
  "serial_open e control_port_name baud_rate p =
     (if port_open p then (p, SUCCESS)
      else if control_port_name = [] then (p, INVALID_PARAM)
      else case baud_constant baud_rate of
        None \<Rightarrow> (p, NOT_SUPPORTED)
      | Some speed \<Rightarrow>
          (if \<not> fd_ok e then (p, FAIL)
           else let p = p\<lparr>port_fds := port_fds p + 1\<rparr>
           in if \<not> tcgetattr_ok e then (p\<lparr>port_fds := port_fds p - 1\<rparr>, FAIL)
           else if \<not> tcsetattr_ok e then (p\<lparr>port_fds := port_fds p - 1\<rparr>, FAIL)
           else (tcflush_input (raise_modem_lines e p)\<lparr>port_open := True\<rparr>, SUCCESS)))"

section \<open>Writing\<close>

text \<open>The loop of \<^verbatim>\<open>write_bytes\<close> over the outcomes of its \<^verbatim>\<open>write\<close> calls.\<close>

fun write_loop ::
  "(nat \<times> tx_event) list \<Rightarrow> u8 list \<Rightarrow> 'a serial_port_scheme \<Rightarrow> 'a serial_port_scheme \<times> ReturnCode" where
  "write_loop ws [] p = (p\<lparr>tx_script := ws\<rparr>, SUCCESS)"
| "write_loop [] bs p = (p\<lparr>tx_script := [], tx_wire := tx_wire p @ bs\<rparr>, SUCCESS)"
| "write_loop ((dt, ev) # ws) bs p =
     (let p = elapse dt p
      in case ev of
           TxTook n \<Rightarrow> write_loop ws (drop n bs) (p\<lparr>tx_wire := tx_wire p @ take n bs\<rparr>)
         | TxInterrupted \<Rightarrow> write_loop ws bs p
         | TxFull \<Rightarrow> write_loop ws bs (elapse 1000 p)
         | TxFailed \<Rightarrow> (p\<lparr>tx_script := ws\<rparr>, FAIL))"

definition write_bytes :: "u8 list option \<Rightarrow> 'a serial_port_scheme \<Rightarrow> 'a serial_port_scheme \<times> ReturnCode" where
  "write_bytes p_data p =
     (if \<not> port_open p then (p, NOT_INITIALIZED)
      else case p_data of
        None \<Rightarrow> (p, INVALID_PARAM)
      | Some bs \<Rightarrow> (if bs = [] then (p, INVALID_PARAM) else write_loop (tx_script p) bs p))"

text \<open>\<^verbatim>\<open>strlen\<close> ends at the first zero byte.\<close>

definition write_text :: "u8 list option \<Rightarrow> 'a serial_port_scheme \<Rightarrow> 'a serial_port_scheme \<times> ReturnCode" where
  "write_text text p =
     (case text of None \<Rightarrow> (p, INVALID_PARAM) | Some bs \<Rightarrow> write_bytes (Some (takeWhile (\<lambda>b. b \<noteq> 0) bs)) p)"

section \<open>Asynchronous reception\<close>

definition serial_start_reception :: "bool \<Rightarrow> 'a serial_port_scheme \<Rightarrow> 'a serial_port_scheme \<times> ReturnCode" where
  "serial_start_reception callback p =
     (let p = fst (serial_stop_reception p)
      in if \<not> port_open p then (p, NOT_INITIALIZED)
         else if \<not> callback then (p, INVALID_PARAM)
         else (p\<lparr>is_running := True\<rparr>, SUCCESS))"

text \<open>
  \<^verbatim>\<open>receive_loop\<close>, one entry of the schedule per load of \<^verbatim>\<open>is_running_\<close>: whether it is still set and the port still
  open. The callback acts on its own state.
\<close>

fun serial_receive_loop ::
  "(u8 list \<Rightarrow> 'c \<Rightarrow> 'c) \<Rightarrow> (bool \<times> bool) list \<Rightarrow> 'a serial_port_scheme \<Rightarrow> 'c \<Rightarrow> 'a serial_port_scheme \<times> 'c" where
  "serial_receive_loop callback [] p c = (p, c)"
| "serial_receive_loop callback ((running, fd) # sched) p c =
     (if \<not> running \<or> \<not> fd then (p, c)
      else case sp_read 256 p of
        (p, None) \<Rightarrow> (p, c)
      | (p, Some bs) \<Rightarrow>
          (if bs \<noteq> [] then serial_receive_loop callback sched p (callback bs c)
           else serial_receive_loop callback sched (elapse 2000 p) c))"

section \<open>The timed read\<close>

text \<open>What is yet to be received: the queue, then the arrivals in order.\<close>

fun event_bytes :: "rx_event \<Rightarrow> u8 list" where
  "event_bytes (Arrives bs) = bs"
| "event_bytes ReadBreaks = []"

definition rx_stream :: "'a serial_port_scheme \<Rightarrow> u8 list" where
  "rx_stream p = rx_queue p @ concat (map (event_bytes \<circ> snd) (rx_script p))"

lemma sp_poll_progress:
  "0 < us \<Longrightarrow> length (rx_script (sp_poll us p)) < length (rx_script p) \<or>
     length (rx_script (sp_poll us p)) = length (rx_script p) \<and> port_now p < port_now (sp_poll us p)"
  by (simp add: sp_poll_def split: list.split)

lemma sp_poll_clock: "port_now p \<le> port_now (sp_poll us p)"
  by (simp add: sp_poll_def split: list.split)

interpretation serial_wait: timed_source "\<lambda>p. (sp_poll (Suc us) p, ())" "\<lambda>p. length (rx_script p)" port_now "\<lambda>p. True"
  for us
proof unfold_locales
  show "port_now s \<le> port_now s'" if "(sp_poll (Suc us) s, ()) = (s', r)" for s s' :: "'a serial_port_scheme" and r
    using that sp_poll_clock [of s "Suc us"] by simp
  show "length (rx_script s') < length (rx_script s) \<or>
      length (rx_script s') = length (rx_script s) \<and> port_now s < port_now s'"
    if "(sp_poll (Suc us) s, ()) = (s', r)" for s s' :: "'a serial_port_scheme" and r
    using that sp_poll_progress [of "Suc us" s] by auto
qed

text \<open>The wait of one turn: the remaining whole milliseconds, at least one.\<close>

definition poll_us :: "nat \<Rightarrow> 'a serial_port_scheme \<Rightarrow> nat" where
  "poll_us deadline p = max 1 ((deadline - port_now p) div 1000) * 1000"

lemma poll_us_pos [simp]: "0 < poll_us deadline p"
  by (simp add: poll_us_def)

function read_loop :: "nat \<Rightarrow> nat \<Rightarrow> 'a serial_port_scheme \<Rightarrow> 'a serial_port_scheme \<times> u8 list" where
  "read_loop deadline n p =
     (if n = 0 then (p, [])
      else case sp_read n p of
        (p, None) \<Rightarrow> (p, [])
      | (p, Some bs) \<Rightarrow>
          (if bs \<noteq> [] then (let (p, cs) = read_loop deadline (n - length bs) p in (p, bs @ cs))
           else if deadline \<le> port_now p then (p, [])
           else read_loop deadline n (sp_poll (poll_us deadline p) p)))"
  by pat_completeness auto
termination
proof (relation "measures [\<lambda>(d, n, p). length (rx_script p), \<lambda>(d, n, p). n, \<lambda>(d, n, p). d - port_now p]", goal_cases)
  case 1
  show ?case by simp
next
  case (2 d n p p' _ bs)
  then show ?case by (auto simp: sp_read_def split: if_splits)
next
  case (3 d n p p' _ bs)
  have "rx_script p' = rx_script p \<and> port_now p' = port_now p"
    using 3 by (auto simp: sp_read_def split: if_splits)
  then show ?case using 3 serial_wait.poll_decreases [of p' d "poll_us d p' - 1"] by auto
qed

declare read_loop.simps [simp del]

definition read_exact :: "nat \<Rightarrow> nat \<Rightarrow> 'a serial_port_scheme \<Rightarrow> 'a serial_port_scheme \<times> u8 list" where
  "read_exact n deadline_ms p =
     (if \<not> port_open p \<or> n = 0 then (p, []) else read_loop (port_now p + deadline_ms * 1000) n p)"

section \<open>What an operation on the port changes\<close>

text \<open>
  The only effects of reading, waiting and writing: the clock moves forward, the receive side changes and \<open>bs\<close> goes
  onto the wire. Everything else, the fields of a driver built on the port included, stays.
\<close>

definition serial_io :: "u8 list \<Rightarrow> 'a serial_port_scheme \<Rightarrow> 'a serial_port_scheme \<Rightarrow> bool" where
  "serial_io bs p p' \<longleftrightarrow> (\<exists>t q e s w. port_now p \<le> t \<and>
     p' = p\<lparr>port_now := t, rx_queue := q, rx_error := e, rx_script := s, tx_script := w, tx_wire := tx_wire p @ bs\<rparr>)"

lemma serial_ioI:
  "port_now p \<le> t \<Longrightarrow>
   p' = p\<lparr>port_now := t, rx_queue := q, rx_error := e, rx_script := s, tx_script := w, tx_wire := tx_wire p @ bs\<rparr> \<Longrightarrow>
   serial_io bs p p'"
  unfolding serial_io_def by blast

lemma serial_io_refl [simp]: "serial_io [] p p"
  by (rule serial_ioI [where t = "port_now p" and q = "rx_queue p" and e = "rx_error p" and s = "rx_script p"
        and w = "tx_script p"]) simp_all

lemma serial_io_trans [trans]: "serial_io a p q \<Longrightarrow> serial_io b q r \<Longrightarrow> serial_io (a @ b) p r"
  unfolding serial_io_def by auto (metis le_trans)

lemma serial_io_silent: "serial_io [] p q \<Longrightarrow> serial_io b q r \<Longrightarrow> serial_io b p r"
  using serial_io_trans [of "[]"] by simp

lemma serial_io_fields:
  "serial_io bs p p' \<Longrightarrow> port_open p' = port_open p \<and> port_fds p' = port_fds p \<and> is_running p' = is_running p \<and>
     port_now p \<le> port_now p' \<and> tx_wire p' = tx_wire p @ bs \<and> serial_port.more p' = serial_port.more p"
  unfolding serial_io_def by auto

lemma serial_io_receive:
  "port_now p \<le> t \<Longrightarrow> serial_io [] p (p\<lparr>port_now := t, rx_queue := q, rx_error := e, rx_script := s\<rparr>)"
  by (rule serial_ioI [where w = "tx_script p"]) simp_all

lemma arrive_io: "serial_io [] p (rx_arrive ev p)"
  using serial_io_receive [where p = p and t = "port_now p" and e = "rx_error p" and s = "rx_script p"]
    serial_io_receive [where p = p and t = "port_now p" and q = "rx_queue p" and s = "rx_script p"]
  by (cases ev) simp_all

lemma clock_script_io: "port_now p \<le> t \<Longrightarrow> serial_io [] p (p\<lparr>port_now := t, rx_script := s\<rparr>)"
  using serial_io_receive [where p = p and t = t and q = "rx_queue p" and e = "rx_error p" and s = s] by simp

lemma clock_io: "port_now p \<le> t \<Longrightarrow> serial_io [] p (p\<lparr>port_now := t\<rparr>)"
  using serial_io_receive [where p = p and t = t and q = "rx_queue p" and e = "rx_error p" and s = "rx_script p"] by simp

lemma elapse_io: "serial_io [] p (elapse us p)"
proof (induction us p rule: elapse.induct)
  case (1 us p)
  show ?case
  proof (cases "rx_script p")
    case Nil
    then show ?thesis by (subst elapse.simps) (simp add: clock_io)
  next
    case (Cons a rest)
    obtain dt ev where a: "a = (dt, ev)" by fastforce
    show ?thesis
    proof (cases "dt \<le> us")
      case True
      have "serial_io [] p (rx_arrive ev (p\<lparr>port_now := port_now p + dt, rx_script := rest\<rparr>))"
        by (rule serial_io_silent [OF clock_script_io arrive_io]) simp
      from serial_io_silent [OF this 1 [OF Cons a [symmetric] True]] True
      show ?thesis by (subst elapse.simps) (simp add: Cons a)
    next
      case False
      then show ?thesis by (subst elapse.simps) (simp add: Cons a clock_script_io)
    qed
  qed
qed

lemma sp_poll_io: "serial_io [] p (sp_poll us p)"
  by (simp add: sp_poll_def clock_io clock_script_io serial_io_silent [OF clock_script_io arrive_io] split: list.split)

lemma sp_read_io: "serial_io [] p (fst (sp_read n p))"
  using serial_io_receive [where p = p and t = "port_now p" and e = "rx_error p" and s = "rx_script p"]
    serial_io_receive [where p = p and t = "port_now p" and q = "rx_queue p" and s = "rx_script p"]
  by (simp add: sp_read_def)

lemma flush_io: "serial_io [] p (tcflush_input p)"
  using serial_io_receive [where p = p and t = "port_now p" and q = "[]" and e = "rx_error p" and s = "rx_script p"]
  by (simp add: tcflush_input_def)

lemma read_loop_io: "serial_io [] p (fst (read_loop d n p))"
proof (induction d n p rule: read_loop.induct)
  case (1 d n p)
  obtain p' r where r: "sp_read n p = (p', r)" by fastforce
  have io: "serial_io [] p p'" using sp_read_io [of p n] by (simp add: r)
  have "serial_io [] p (fst (read_loop d n (sp_poll us p')))" if "serial_io [] (sp_poll us p') (fst (read_loop d n (sp_poll us p')))" for us
    using serial_io_silent [OF serial_io_silent [OF io sp_poll_io] that] .
  then show ?case
    by (subst read_loop.simps) (use io 1 r in \<open>auto simp: split_beta split: option.split intro: serial_io_silent\<close>)
qed

lemma read_exact_io: "serial_io [] p (fst (read_exact n ms p))"
  by (simp add: read_exact_def read_loop_io)

section \<open>Nothing is lost or made up between the wire and the reader\<close>

lemma stream_arrive: "rx_stream (rx_arrive ev p) = rx_queue p @ event_bytes ev @ concat (map (event_bytes \<circ> snd) (rx_script p))"
  by (cases ev) (simp_all add: rx_stream_def)

lemma stream_poll: "rx_stream (sp_poll us p) = rx_stream p"
  by (auto simp: sp_poll_def stream_arrive rx_stream_def [of p] split: list.split) (auto simp: rx_stream_def)

lemma stream_elapse: "rx_stream (elapse us p) = rx_stream p"
proof (induction us p rule: elapse.induct)
  case (1 us p)
  then show ?case
    by (subst elapse.simps) (auto simp: stream_arrive rx_stream_def [of p] split: list.split, auto simp: rx_stream_def)
qed

lemma stream_read:
  "sp_read n p = (p', r) \<Longrightarrow> rx_stream p = (case r of None \<Rightarrow> [] | Some bs \<Rightarrow> bs) @ rx_stream p'"
  by (auto simp: sp_read_def rx_stream_def split: if_splits)

lemma read_loop_stream:
  "read_loop d n p = (p', bs) \<Longrightarrow> rx_stream p = bs @ rx_stream p' \<and> length bs \<le> n"
proof (induction d n p arbitrary: p' bs rule: read_loop.induct)
  case (1 d n p)
  show ?case
  proof (cases "n = 0")
    case True
    then show ?thesis using 1(3) by (subst (asm) read_loop.simps) auto
  next
    case False
    obtain q r where r: "sp_read n p = (q, r)" by fastforce
    show ?thesis
    proof (cases r)
      case None
      then show ?thesis using 1(3) False stream_read [OF r] by (subst (asm) read_loop.simps) (auto simp: r)
    next
      case (Some cs)
      have len: "length cs \<le> n" using r Some by (auto simp: sp_read_def split: if_splits)
      show ?thesis
      proof (cases "cs = []")
        case True
        then show ?thesis
          using 1(3) False stream_read [OF r] 1(2) [OF False r [symmetric] Some]
          by (subst (asm) read_loop.simps) (auto simp: r Some stream_poll split: if_splits)
      next
        case ne: False
        obtain q' ds where l: "read_loop d (n - length cs) q = (q', ds)" by fastforce
        from 1(3) False ne have "p' = q'" "bs = cs @ ds" by (subst (asm) read_loop.simps, auto simp: r Some l)+
        then show ?thesis using 1(1) [OF False r [symmetric] Some ne l] stream_read [OF r] len by (auto simp: Some)
      qed
    qed
  qed
qed

lemma read_exact_stream:
  "read_exact n ms p = (p', bs) \<Longrightarrow> rx_stream p = bs @ rx_stream p' \<and> length bs \<le> n"
  by (auto simp: read_exact_def dest: read_loop_stream split: if_splits)

lemma tx_io: "serial_io bs p (p\<lparr>tx_script := w, tx_wire := tx_wire p @ bs\<rparr>)"
  by (rule serial_ioI [where t = "port_now p" and q = "rx_queue p" and e = "rx_error p" and s = "rx_script p" and w = w])
    simp_all

lemma tx_wire_io: "serial_io bs p (p\<lparr>tx_wire := tx_wire p @ bs\<rparr>)"
  using tx_io [of bs p "tx_script p"] by simp

lemma tx_script_io: "serial_io [] p (p\<lparr>tx_script := w\<rparr>)"
  using tx_io [of "[]" p w] by simp

lemma stream_tx [simp]:
  "rx_stream (p\<lparr>tx_script := w\<rparr>) = rx_stream p" "rx_stream (p\<lparr>tx_wire := v\<rparr>) = rx_stream p"
  by (simp_all add: rx_stream_def)

text \<open>A write puts a prefix of its data onto the wire, all of it when it reports success.\<close>

lemma write_loop_wire:
  "write_loop ws bs p = (p', rc) \<Longrightarrow>
   \<exists>out rest. bs = out @ rest \<and> serial_io out p p' \<and> rx_stream p' = rx_stream p \<and>
     (if rc = SUCCESS then rest = [] else rc = FAIL)"
proof (induction ws bs p arbitrary: p' rc rule: write_loop.induct)
  case (1 ws p)
  then show ?case by (auto simp: tx_script_io)
next
  case (2 b bs p)
  then show ?case using tx_io [of "b # bs" p "[]"] by (intro exI [of _ "b # bs"] exI [of _ "[]"]) auto
next
  case (3 dt ev ws b bs p)
  let ?q = "elapse dt p"
  show ?case
  proof (cases ev)
    case (TxTook n)
    from 3(1) [OF refl TxTook, of p' rc] 3(4) obtain out rest where
      o: "drop n (b # bs) = out @ rest" "serial_io out (?q\<lparr>tx_wire := tx_wire ?q @ take n (b # bs)\<rparr>) p'"
        "rx_stream p' = rx_stream p" "if rc = SUCCESS then rest = [] else rc = FAIL"
      by (auto simp: TxTook Let_def stream_elapse)
    have "b # bs = (take n (b # bs) @ out) @ rest" using o(1) by (metis append.assoc append_take_drop_id)
    moreover have "serial_io (take n (b # bs) @ out) p p'"
      by (rule serial_io_trans [OF serial_io_silent [OF elapse_io tx_wire_io] o(2)])
    ultimately show ?thesis using o(3,4) by blast
  next
    case TxInterrupted
    with 3(4) have "write_loop ws (b # bs) ?q = (p', rc)" by simp
    from 3(2) [OF refl TxInterrupted this] show ?thesis
      by (elim exE conjE) (metis serial_io_silent [OF elapse_io] stream_elapse)
  next
    case TxFull
    with 3(4) have "write_loop ws (b # bs) (elapse 1000 ?q) = (p', rc)" by simp
    from 3(3) [OF refl TxFull this] show ?thesis
      by (elim exE conjE) (metis serial_io_silent [OF serial_io_silent [OF elapse_io elapse_io]] stream_elapse)
  next
    case TxFailed
    then show ?thesis using 3(4) serial_io_silent [OF elapse_io tx_script_io, of p ws dt]
      by (intro exI [of _ "[]"] exI [of _ "b # bs"]) (auto simp: Let_def stream_elapse)
  qed
qed

lemma write_bytes_wire:
  assumes "write_bytes (Some bs) p = (p', rc)"
  shows "\<exists>out rest. bs = out @ rest \<and> serial_io out p p' \<and> rx_stream p' = rx_stream p \<and>
    (rc = SUCCESS \<longrightarrow> out = bs \<and> bs \<noteq> [] \<and> port_open p)"
proof (cases "port_open p \<and> bs \<noteq> []")
  case True
  then show ?thesis using assms write_loop_wire [of "tx_script p" bs p p' rc]
    by (auto simp: write_bytes_def split: if_splits)
next
  case False
  then have "p' = p" "rc \<noteq> SUCCESS" using assms by (auto simp: write_bytes_def split: if_splits)
  then show ?thesis by (intro exI [of _ "[]"] exI [of _ bs]) simp
qed

section \<open>Reading in time\<close>

text \<open>The arrivals within \<open>u\<close> microseconds, and what the reader can have got by the time \<open>T\<close>.\<close>

fun due :: "nat \<Rightarrow> (nat \<times> rx_event) list \<Rightarrow> rx_event list" where
  "due u [] = []"
| "due u ((dt, ev) # rest) = (if dt \<le> u then ev # due (u - dt) rest else [])"

definition answer_by :: "nat \<Rightarrow> 'a serial_port_scheme \<Rightarrow> u8 list" where
  "answer_by T p = rx_queue p @ concat (map event_bytes (due (T - port_now p) (rx_script p)))"

definition clean_by :: "nat \<Rightarrow> 'a serial_port_scheme \<Rightarrow> bool" where
  "clean_by T p \<longleftrightarrow> \<not> rx_error p \<and> ReadBreaks \<notin> set (due (T - port_now p) (rx_script p))"

lemma poll_answer:
  assumes "port_now p \<le> T" "clean_by T p" "rx_queue p = []" "answer_by T p \<noteq> []"
  shows "port_now (sp_poll us p) \<le> T \<and> clean_by T (sp_poll us p) \<and> answer_by T (sp_poll us p) = answer_by T p"
proof (cases "rx_script p")
  case Nil
  then show ?thesis using assms by (simp add: answer_by_def)
next
  case (Cons a rest)
  obtain dt ev where a: "a = (dt, ev)" by fastforce
  have dt: "dt \<le> T - port_now p" using assms(3,4) by (auto simp: answer_by_def Cons a split: if_splits)
  have e: "ev \<noteq> ReadBreaks" using assms(2) dt by (auto simp: clean_by_def Cons a)
  then obtain bs where ev: "ev = Arrives bs" by (cases ev) auto
  show ?thesis using assms dt by (auto simp: sp_poll_def clean_by_def answer_by_def Cons a ev)
qed

lemma read_answer:
  assumes "clean_by T p"
  shows "sp_read n p = (p\<lparr>rx_queue := drop n (rx_queue p)\<rparr>, Some (take n (rx_queue p)))"
    "clean_by T (p\<lparr>rx_queue := q\<rparr>)"
    "answer_by T p = take n (rx_queue p) @ answer_by T (p\<lparr>rx_queue := drop n (rx_queue p)\<rparr>)"
  using assms by (auto simp: sp_read_def clean_by_def answer_by_def)

text \<open>Bytes that arrive by \<open>T\<close>, before the deadline, are read, in whatever pieces they come.\<close>

lemma read_loop_in_time:
  assumes "T < d" "port_now p \<le> T" "clean_by T p" "n \<le> length (answer_by T p)"
  shows "\<exists>p'. read_loop d n p = (p', take n (answer_by T p)) \<and> port_now p' \<le> T \<and> clean_by T p' \<and>
    answer_by T p' = drop n (answer_by T p)"
  using assms
proof (induction d n p rule: read_loop.induct)
  case (1 d n p)
  let ?q = "p\<lparr>rx_queue := drop n (rx_queue p)\<rparr>" and ?bs = "take n (rx_queue p)"
  note rd = read_answer(1) [OF 1(5), of n] and ans = read_answer(3) [OF 1(5), of n]
  have clean: "clean_by T ?q" by (rule read_answer(2) [OF 1(5)])
  show ?case
  proof (cases "n = 0")
    case True
    then show ?thesis using 1(4,5) by (subst read_loop.simps) simp
  next
    case n: False
    show ?thesis
    proof (cases "?bs = []")
      case True
      let ?r = "sp_poll (poll_us d ?q) ?q"
      have "answer_by T ?q \<noteq> []" using n 1(6) ans True by auto
      then have r: "port_now ?r \<le> T" "clean_by T ?r" "answer_by T ?r = answer_by T p"
        using poll_answer [OF _ clean, of "poll_us d ?q"] 1(4) n True ans by auto
      have "\<not> d \<le> port_now ?q" using 1(3,4) by simp
      then have "read_loop d n p = read_loop d n ?r" using n rd True by (subst read_loop.simps) simp
      then show ?thesis using 1(2) [OF n rd [symmetric] refl _ \<open>\<not> d \<le> port_now ?q\<close> 1(3) r(1,2)] True 1(6) r(3) by simp
    next
      case False
      have "\<exists>p'. read_loop d (n - length ?bs) ?q = (p', take (n - length ?bs) (answer_by T ?q)) \<and> port_now p' \<le> T \<and>
          clean_by T p' \<and> answer_by T p' = drop (n - length ?bs) (answer_by T ?q)"
        by (rule 1(1) [OF n rd [symmetric] refl False 1(3) _ clean]) (use 1(4,6) ans in auto)
      then obtain p' where p': "read_loop d (n - length ?bs) ?q = (p', take (n - length ?bs) (answer_by T ?q))"
        "port_now p' \<le> T" "clean_by T p'" "answer_by T p' = drop (n - length ?bs) (answer_by T ?q)" by blast
      have "read_loop d n p = (p', ?bs @ take (n - length ?bs) (answer_by T ?q))"
        using n rd False p'(1) by (subst read_loop.simps) simp
      then show ?thesis using p'(2,3,4) ans by (intro exI [of _ p']) (simp add: min_def split: if_splits)
    qed
  qed
qed

lemma read_exact_in_time:
  assumes "port_open p" "T < port_now p + ms * 1000" "port_now p \<le> T" "clean_by T p" "n \<le> length (answer_by T p)" "0 < n"
  shows "\<exists>p'. read_exact n ms p = (p', take n (answer_by T p)) \<and> port_now p' \<le> T \<and> clean_by T p' \<and>
    answer_by T p' = drop n (answer_by T p) \<and> port_open p'"
proof -
  obtain p' where p': "read_exact n ms p = (p', take n (answer_by T p))" "port_now p' \<le> T" "clean_by T p'"
    "answer_by T p' = drop n (answer_by T p)"
    using read_loop_in_time [OF assms(2-5)] assms(1,6) by (auto simp: read_exact_def)
  then show ?thesis using serial_io_fields [OF read_exact_io [of p n ms]] assms(1) by auto
qed

lemma read_loop_zero [simp]: "read_loop d 0 p = (p, [])"
  by (subst read_loop.simps) simp

lemma read_queued:
  assumes "\<not> rx_error p" "0 < n" "n \<le> length (rx_queue p)" "port_open p"
  shows "read_exact n ms p = (p\<lparr>rx_queue := drop n (rx_queue p)\<rparr>, take n (rx_queue p))"
  using assms by (simp add: read_exact_def) (subst read_loop.simps, auto simp: sp_read_def min_def)

lemma read_arrival:
  assumes "\<not> rx_error p" "0 < n" "rx_queue p = []" "port_open p" "rx_script p = (dt, Arrives bs) # s" "n \<le> length bs"
    "dt \<le> ms * 1000" "0 < ms"
  shows "read_exact n ms p = (p\<lparr>port_now := port_now p + dt, rx_queue := drop n bs, rx_script := s\<rparr>, take n bs)"
proof -
  let ?q = "p\<lparr>port_now := port_now p + dt, rx_queue := bs, rx_script := s\<rparr>"
  have "sp_read n p = (p, Some [])" using assms by (simp add: sp_read_def)
  moreover have "sp_poll (poll_us (port_now p + ms * 1000) p) p = ?q"
    using assms by (simp add: sp_poll_def poll_us_def)
  ultimately have "read_exact n ms p = read_loop (port_now p + ms * 1000) n ?q"
    using assms by (simp add: read_exact_def) (subst read_loop.simps, simp)
  also have "\<dots> = (?q\<lparr>rx_queue := drop n bs\<rparr>, take n bs)"
    using assms by (subst read_loop.simps) (auto simp: sp_read_def min_def)
  finally show ?thesis by simp
qed

section \<open>The descriptor and the reception thread\<close>

text \<open>The driver owns one descriptor while the port is open and none otherwise.\<close>

definition descriptor_inv :: "'a serial_port_scheme \<Rightarrow> bool" where
  "descriptor_inv p \<longleftrightarrow> port_fds p = (if port_open p then 1 else 0)"

lemma elapse_fields [simp]: "port_open (elapse us p) = port_open p" "port_fds (elapse us p) = port_fds p"
  "serial_port.more (elapse us p) = serial_port.more p"
  using serial_io_fields [OF elapse_io [of p us]] by auto

lemma serial_open_descriptor:
  assumes "descriptor_inv p" "serial_open e name baud p = (p', rc)"
  shows "descriptor_inv p' \<and> (rc = SUCCESS \<longleftrightarrow> port_open p') \<and> serial_port.more p' = serial_port.more p"
  using assms by (auto simp: serial_open_def descriptor_inv_def raise_modem_lines_def tcflush_input_def Let_def
      split: if_splits option.splits)

lemma serial_close_descriptor:
  "descriptor_inv p \<Longrightarrow> serial_close p = (p', rc) \<Longrightarrow> descriptor_inv p' \<and> \<not> port_open p' \<and> rc = SUCCESS \<and> \<not> is_running p'"
  by (auto simp: serial_close_def descriptor_inv_def serial_stop_reception_def Let_def split: if_splits)

text \<open>The thread hands on every byte once and in order, in pieces of 1 to 256 bytes.\<close>

lemma serial_receive_loop_in_order:
  "serial_receive_loop (\<lambda>bs cs. cs @ [bs]) sched p cs = (p', cs') \<Longrightarrow>
   \<exists>new. cs' = cs @ new \<and> rx_stream p = concat new @ rx_stream p' \<and> (\<forall>c \<in> set new. c \<noteq> [] \<and> length c \<le> 256)"
proof (induction "\<lambda>(bs :: u8 list) cs. cs @ [bs]" sched p cs arbitrary: p' cs' rule: serial_receive_loop.induct)
  case (1 p c)
  then show ?case by simp
next
  case (2 running fd sched p c)
  obtain q r where r: "sp_read 256 p = (q, r)" by fastforce
  show ?case
  proof (cases "running \<and> fd \<and> r \<noteq> None")
    case False
    then have "p' = p \<or> p' = q \<and> r = None" "cs' = c" using 2(3) r by (auto split: if_splits)
    then show ?thesis using stream_read [OF r] by (intro exI [of _ "[]"]) auto
  next
    case True
    then obtain bs where bs: "r = Some bs" by auto
    have len: "length bs \<le> 256" using r bs by (auto simp: sp_read_def split: if_splits)
    show ?thesis
    proof (cases "bs = []")
      case True
      then show ?thesis using 2(2) [OF _ r [symmetric] bs] 2(3) \<open>running \<and> fd \<and> r \<noteq> None\<close> stream_read [OF r]
        by (simp add: r bs stream_elapse)
    next
      case False
      then obtain new where "cs' = (c @ [bs]) @ new" "rx_stream q = concat new @ rx_stream p'"
        "\<forall>c \<in> set new. c \<noteq> [] \<and> length c \<le> 256"
        using 2(1) [OF _ r [symmetric] bs False] 2(3) True by (auto simp: r bs)
      then show ?thesis using stream_read [OF r] False len by (intro exI [of _ "bs # new"]) (simp add: bs)
    qed
  qed
qed

end
