(* ===== verification/Driver_Ft.thy ===== *)
theory Driver_Ft
  imports Serial_Port Driver_Can_Mit
begin

unbundle bit_operations_syntax

text \<open>
  The FeeTech SMS/STS packet driver, \<^verbatim>\<open>native/pi_control/src/pi_driver_ft.cpp\<close>, on the port of \<open>Serial_Port\<close>:
  instruction and status packets with their checksum, register access with retries and the EEPROM lock, the bulk
  read over all servos that still answer, and the queues of the bulk write. A servo object is its id, a null pointer
  is \<open>None\<close>; the slot of a servo in the feedback caches comes from the registry and is the argument \<open>idx\<close>.
\<close>

section \<open>Constants\<close>

definition kFtHeaderByte :: u8 where "kFtHeaderByte = 0xFF"
definition kFtBroadcastId :: u8 where "kFtBroadcastId = 0xFE"

definition kFtInstPing :: u8 where "kFtInstPing = 0x01"
definition kFtInstRead :: u8 where "kFtInstRead = 0x02"
definition kFtInstWrite :: u8 where "kFtInstWrite = 0x03"
definition kFtInstSyncRead :: u8 where "kFtInstSyncRead = 0x82"
definition kFtInstSyncWrite :: u8 where "kFtInstSyncWrite = 0x83"

definition kFtAddrPositionPGain :: u8 where "kFtAddrPositionPGain = 21"
definition kFtAddrPositionDGain :: u8 where "kFtAddrPositionDGain = 22"
definition kFtAddrPositionIGain :: u8 where "kFtAddrPositionIGain = 23"
definition kFtAddrOperatingMode :: u8 where "kFtAddrOperatingMode = 33"
definition kFtAddrTorqueEnable :: u8 where "kFtAddrTorqueEnable = 40"
definition kFtAddrAcceleration :: u8 where "kFtAddrAcceleration = 41"
definition kFtAddrGoalPosition :: u8 where "kFtAddrGoalPosition = 42"
definition kFtAddrTorqueLimit :: u8 where "kFtAddrTorqueLimit = 48"
definition kFtAddrLockFlag :: u8 where "kFtAddrLockFlag = 55"
definition kFtAddrPresentPosition :: u8 where "kFtAddrPresentPosition = 56"

definition kFtFeedbackLength :: nat where "kFtFeedbackLength = 10"
definition kFtSramStartAddr :: u8 where "kFtSramStartAddr = 40"
definition kFtLockFlagLocked :: int where "kFtLockFlagLocked = 1"
definition kFtLockFlagUnlocked :: int where "kFtLockFlagUnlocked = 0"
definition kFtVelocitySignBit :: nat where "kFtVelocitySignBit = 15"
definition kFtLoadSignBit :: nat where "kFtLoadSignBit = 10"
definition kFtResponseTimeoutMs :: nat where "kFtResponseTimeoutMs = 40"
definition kFtSingleRegMaxAttempts :: nat where "kFtSingleRegMaxAttempts = 3"
definition kFtInstructionOverhead :: nat where "kFtInstructionOverhead = 6"
definition kFtTxBufCapacity :: nat where "kFtTxBufCapacity = 64"
definition kFtMaxInstructionParams :: nat where "kFtMaxInstructionParams = kFtTxBufCapacity - kFtInstructionOverhead"
definition kFtMaxStatusParams :: nat where "kFtMaxStatusParams = 32"
definition kFtGoalPositionMin :: int where "kFtGoalPositionMin = 0"
definition kFtGoalPositionMax :: int where "kFtGoalPositionMax = 4095"
definition kFtTorqueLimitMin :: int where "kFtTorqueLimitMin = 0"
definition kFtTorqueLimitMax :: int where "kFtTorqueLimitMax = 1000"

section \<open>Values\<close>

text \<open>The sum is an \<^verbatim>\<open>unsigned int\<close>.\<close>

definition byte_sum :: "u8 list \<Rightarrow> u32 \<Rightarrow> u32" where
  "byte_sum bs = fold (\<lambda>b acc. acc + ucast b) bs"

definition ft_checksum :: "u8 list \<Rightarrow> u8" where
  "ft_checksum bs = ucast (NOT (byte_sum bs 0) AND 0xFF)"

definition decode_sign_magnitude :: "u32 \<Rightarrow> nat \<Rightarrow> int" where
  "decode_sign_magnitude raw sign_bit =
     (let sign_mask = push_bit sign_bit (1 :: u32)
      in if raw AND sign_mask \<noteq> 0 then - sint (raw AND (sign_mask - 1)) else sint raw)"

text \<open>\<open>None\<close>: the negation overflows.\<close>

definition encode_sign_magnitude :: "int \<Rightarrow> nat \<Rightarrow> u32 option" where
  "encode_sign_magnitude v sign_bit =
     (if v = - (2 ^ 31) then None
      else if v < 0 then Some (word_of_int (- v) OR push_bit sign_bit 1) else Some (word_of_int v))"

definition le16 :: "u8 \<Rightarrow> u8 \<Rightarrow> int" where
  "le16 lo hi = uint lo OR push_bit 8 (uint hi)"

section \<open>Packets\<close>

definition flush_input :: "'a serial_port_scheme \<Rightarrow> 'a serial_port_scheme" where
  "flush_input p = (if port_open p then tcflush_input p else p)"

text \<open>\<^verbatim>\<open>FF FF ID LEN INST params CHK\<close>.\<close>

definition instruction_packet :: "u8 \<Rightarrow> u8 \<Rightarrow> u8 list \<Rightarrow> u8 list" where
  "instruction_packet sid instruction params =
     (let body = [sid, of_nat (length params + 2), instruction] @ params
      in [kFtHeaderByte, kFtHeaderByte] @ body @ [ft_checksum body])"

definition send_instruction ::
  "u8 \<Rightarrow> u8 \<Rightarrow> u8 list \<Rightarrow> 'a serial_port_scheme \<Rightarrow> 'a serial_port_scheme \<times> ReturnCode" where
  "send_instruction sid instruction params p =
     (if kFtMaxInstructionParams < length params then (p, INVALID_PARAM)
      else write_bytes (Some (instruction_packet sid instruction params)) p)"

definition remaining_ms :: "nat \<Rightarrow> 'a serial_port_scheme \<Rightarrow> nat" where
  "remaining_ms deadline p = (if deadline \<le> port_now p then 0 else (deadline - port_now p) div 1000)"

text \<open>The search for the header: the first byte other than \<^verbatim>\<open>FF\<close> after at least two of them is the id.\<close>

function sync_header :: "nat \<Rightarrow> nat \<Rightarrow> 'a serial_port_scheme \<Rightarrow> 'a serial_port_scheme \<times> u8 option" where
  "sync_header deadline header_ff_count p =
     (let remain = remaining_ms deadline p
      in if remain = 0 then (p, None)
         else case read_exact 1 remain p of
           (q, [b]) \<Rightarrow>
             (if b = kFtHeaderByte then sync_header deadline (header_ff_count + 1) q
              else if 2 \<le> header_ff_count then (q, Some b)
              else sync_header deadline 0 q)
         | (q, _) \<Rightarrow> (q, None))"
  by pat_completeness auto
termination
proof (relation "measure (\<lambda>(d, c, p). length (rx_stream p))", goal_cases)
  case 1
  show ?case by simp
next
  case (2 d c p remain q y b)
  then show ?case using read_exact_stream [of 1 "remaining_ms d p" p q "[b]"] by auto
next
  case (3 d c p remain q y b)
  then show ?case using read_exact_stream [of 1 "remaining_ms d p" p q "[b]"] by auto
qed

declare sync_header.simps [simp del]

text \<open>A status packet: the id it carries, the error bits, the parameters.\<close>

type_synonym status = "u8 \<times> u8 \<times> u8 list"

definition status_sum :: "u8 \<Rightarrow> u8 \<Rightarrow> u8 \<Rightarrow> u8 list \<Rightarrow> u8" where
  "status_sum packet_id packet_length error_byte params =
     ucast (NOT (byte_sum params (ucast packet_id + ucast packet_length + ucast error_byte)) AND 0xFF)"

definition receive_body ::
  "nat \<Rightarrow> u8 \<Rightarrow> nat \<Rightarrow> u8 \<Rightarrow> u8 \<Rightarrow> u8 \<Rightarrow> 'a serial_port_scheme \<Rightarrow> 'a serial_port_scheme \<times> ReturnCode \<times> status option" where
  "receive_body deadline expected_id param_length packet_id packet_length error_byte p =
     (if unat packet_length \<noteq> param_length + 2 then (flush_input p, FAIL, None)
      else case read_exact (param_length + 1) (remaining_ms deadline p) p of
        (p, body) \<Rightarrow>
          (if length body \<noteq> param_length + 1 then (p, NO_RESPONSE, None)
           else let params = take param_length body
                in if body ! param_length \<noteq> status_sum packet_id packet_length error_byte params
                   then (flush_input p, FAIL, None)
                   else if expected_id \<noteq> kFtBroadcastId \<and> packet_id \<noteq> expected_id then (flush_input p, FAIL, None)
                   else (p, SUCCESS, Some (packet_id, error_byte, params))))"

definition receive_status ::
  "u8 \<Rightarrow> nat \<Rightarrow> nat \<Rightarrow> 'a serial_port_scheme \<Rightarrow> 'a serial_port_scheme \<times> ReturnCode \<times> status option" where
  "receive_status expected_id param_length timeout_ms p =
     (if kFtMaxStatusParams < param_length then (p, INVALID_PARAM, None)
      else let deadline = port_now p + timeout_ms * 1000
           in case sync_header deadline 0 p of
                (p, None) \<Rightarrow> (p, NO_RESPONSE, None)
              | (p, Some packet_id) \<Rightarrow>
                  (case read_exact 2 (remaining_ms deadline p) p of
                     (p, [packet_length, error_byte]) \<Rightarrow>
                       receive_body deadline expected_id param_length packet_id packet_length error_byte p
                   | (p, _) \<Rightarrow> (p, NO_RESPONSE, None)))"

text \<open>The retries of a transaction; \<open>rc\<close> is the result so far.\<close>

fun txrx_loop ::
  "nat \<Rightarrow> ReturnCode \<Rightarrow> u8 \<Rightarrow> u8 \<Rightarrow> u8 list \<Rightarrow> nat \<Rightarrow> 'a serial_port_scheme
   \<Rightarrow> 'a serial_port_scheme \<times> ReturnCode \<times> status option" where
  "txrx_loop 0 rc sid instruction params rsp_length p = (p, rc, None)"
| "txrx_loop (Suc attempts) rc sid instruction params rsp_length p =
     (let (p, rc) = send_instruction sid instruction params (flush_input p)
      in if rc \<noteq> SUCCESS then (p, rc, None)
         else let (p, rc, st) = receive_status sid rsp_length kFtResponseTimeoutMs p
              in if rc = SUCCESS then (p, SUCCESS, st)
                 else txrx_loop attempts rc sid instruction params rsp_length p)"

definition txrx_instruction ::
  "u8 \<Rightarrow> u8 \<Rightarrow> u8 list \<Rightarrow> nat \<Rightarrow> 'a serial_port_scheme \<Rightarrow> 'a serial_port_scheme \<times> ReturnCode \<times> status option" where
  "txrx_instruction sid instruction params rsp_length p =
     txrx_loop kFtSingleRegMaxAttempts FAIL sid instruction params rsp_length p"

section \<open>Registers\<close>

definition ping :: "int \<Rightarrow> 'a serial_port_scheme \<Rightarrow> 'a serial_port_scheme \<times> ReturnCode" where
  "ping sid p = (case txrx_instruction (word_of_int sid) kFtInstPing [] 0 p of (p, rc, _) \<Rightarrow> (p, rc))"

text \<open>The value is written only on success.\<close>

definition register_value :: "status option \<Rightarrow> int option" where
  "register_value st =
     (case st of Some (_, _, [b]) \<Rightarrow> Some (uint b) | Some (_, _, [lo, hi]) \<Rightarrow> Some (le16 lo hi) | _ \<Rightarrow> None)"

definition read_register ::
  "int \<Rightarrow> u8 \<Rightarrow> nat \<Rightarrow> 'a serial_port_scheme \<Rightarrow> 'a serial_port_scheme \<times> ReturnCode \<times> int option" where
  "read_register sid addr len p =
     (if len \<noteq> 1 \<and> len \<noteq> 2 then (p, INVALID_PARAM, None)
      else case txrx_instruction (word_of_int sid) kFtInstRead [addr, of_nat len] len p of
        (p, rc, st) \<Rightarrow> (if rc \<noteq> SUCCESS then (p, rc, None) else (p, SUCCESS, register_value st)))"

definition write_params :: "u8 \<Rightarrow> int \<Rightarrow> nat \<Rightarrow> u8 list" where
  "write_params addr v len =
     [addr, word_of_int v] @ (if len = 2 then [word_of_int (drop_bit 8 v)] else [])"

definition write_register_raw ::
  "int \<Rightarrow> u8 \<Rightarrow> int \<Rightarrow> nat \<Rightarrow> 'a serial_port_scheme \<Rightarrow> 'a serial_port_scheme \<times> ReturnCode" where
  "write_register_raw sid addr v len p =
     (if len \<noteq> 1 \<and> len \<noteq> 2 then (p, INVALID_PARAM)
      else case txrx_instruction (word_of_int sid) kFtInstWrite (write_params addr v len) 0 p of (p, rc, _) \<Rightarrow> (p, rc))"

definition write_register ::
  "int \<Rightarrow> u8 \<Rightarrow> int \<Rightarrow> nat \<Rightarrow> 'a serial_port_scheme \<Rightarrow> 'a serial_port_scheme \<times> ReturnCode" where
  "write_register sid addr v len p =
     (if kFtSramStartAddr \<le> addr then write_register_raw sid addr v len p
      else let (p, rc) = write_register_raw sid kFtAddrLockFlag kFtLockFlagUnlocked 1 p
      in if rc \<noteq> SUCCESS then (p, rc)
      else let (p, write_result) = write_register_raw sid addr v len p;
               (p, rc) = write_register_raw sid kFtAddrLockFlag kFtLockFlagLocked 1 p
      in if rc \<noteq> SUCCESS then (p, rc) else (p, write_result))"

text \<open>\<^verbatim>\<open>sync_write\<close>: one broadcast packet with an entry per servo.\<close>

definition sync_entry :: "nat \<Rightarrow> int \<times> u16 \<Rightarrow> u8 list" where
  "sync_entry data_length = (\<lambda>(sid, v). [word_of_int sid, ucast v] @ (if data_length = 2 then [ucast (drop_bit 8 v)] else []))"

definition sync_write ::
  "u8 \<Rightarrow> nat \<Rightarrow> (int \<times> u16) list \<Rightarrow> 'a serial_port_scheme \<Rightarrow> 'a serial_port_scheme \<times> ReturnCode" where
  "sync_write addr data_length entries p =
     (if entries = [] then (p, SUCCESS)
      else if kFtMaxInstructionParams < 2 + length entries * (1 + data_length) then (p, INVALID_PARAM)
      else send_instruction kFtBroadcastId kFtInstSyncWrite
             ([addr, of_nat data_length] @ concat (map (sync_entry data_length) entries)) p)"

section \<open>The driver\<close>

record ft_driver = serial_port +
  all_servo_ids :: "int list"
  sync_read_ids :: "int list"
  ft_dead_servo_ids :: "int list"
  ft_last_failed_servo_id :: int
  servo_num_total :: int
  pres_pos :: "u16 list"
  pres_vel :: "int list"
  pres_load :: "int list"
  pres_temp :: "u8 list"
  pres_status :: "u8 list"
  pending_goal_position :: "(int \<times> u16) list"
  pending_torque_limit :: "(int \<times> u16) list"

text \<open>The least dead id, or -1.\<close>

definition break_point :: "int list \<Rightarrow> int" where
  "break_point dead = (if dead = [] then -1 else hd dead)"

text \<open>One servo of the probe in \<^verbatim>\<open>classify_dead_servos\<close>.\<close>

definition probe_servo :: "int \<Rightarrow> 'a ft_driver_scheme \<Rightarrow> 'a ft_driver_scheme" where
  "probe_servo sid d =
     (if sid \<in> set (ft_dead_servo_ids d) then d
      else let (d, rc) = ping sid d
           in if rc \<noteq> SUCCESS
              then (flush_input d)\<lparr>ft_dead_servo_ids := set_insert sid (ft_dead_servo_ids d)\<rparr> else d)"

definition classify_dead_servos :: "'a ft_driver_scheme \<Rightarrow> 'a ft_driver_scheme" where
  "classify_dead_servos d =
     (let need_probe = list_ex (\<lambda>sid. sid \<notin> set (ft_dead_servo_ids d)) (all_servo_ids d);
          d = (if need_probe then fold probe_servo (all_servo_ids d) d else d)
      in d\<lparr>sync_read_ids := filter (\<lambda>sid. sid \<notin> set (ft_dead_servo_ids d)) (all_servo_ids d),
           ft_last_failed_servo_id := break_point (ft_dead_servo_ids d)\<rparr>)"

text \<open>The ten bytes of one feedback packet go into the slot \<open>i\<close>.\<close>

definition store_feedback :: "nat \<Rightarrow> u8 list \<Rightarrow> 'a ft_driver_scheme \<Rightarrow> 'a ft_driver_scheme" where
  "store_feedback i fb d =
     d\<lparr>pres_pos := (pres_pos d)[i := word_of_int (le16 (fb ! 0) (fb ! 1))],
       pres_vel := (pres_vel d)[i := decode_sign_magnitude (word_of_int (le16 (fb ! 2) (fb ! 3))) kFtVelocitySignBit],
       pres_load := (pres_load d)[i := decode_sign_magnitude (word_of_int (le16 (fb ! 4) (fb ! 5))) kFtLoadSignBit],
       pres_temp := (pres_temp d)[i := fb ! 7],
       pres_status := (pres_status d)[i := fb ! 9]\<rparr>"

text \<open>The collection of the answers: \<open>n\<close> more packets are expected, \<open>pending_ids\<close> have not answered.\<close>

fun collect ::
  "(int \<Rightarrow> int) \<Rightarrow> nat \<Rightarrow> int set \<Rightarrow> 'a ft_driver_scheme \<Rightarrow> 'a ft_driver_scheme \<times> int set \<times> ReturnCode" where
  "collect idx 0 pending_ids d = (d, pending_ids, SUCCESS)"
| "collect idx (Suc n) pending_ids d =
     (case receive_status kFtBroadcastId kFtFeedbackLength kFtResponseTimeoutMs d of
        (d, rc, Some (packet_id, _, feedback)) \<Rightarrow>
          (let sid = uint packet_id; i = idx sid
           in if sid \<notin> pending_ids then (d, pending_ids, FAIL)
              else if i < 0 \<or> servo_num_total d \<le> i then (d, pending_ids - {sid}, FAIL)
              else collect idx n (pending_ids - {sid}) (store_feedback (nat i) feedback d))
      | (d, rc, None) \<Rightarrow> (d, pending_ids, rc))"

definition ft_group_read_hardware_values ::
  "(int \<Rightarrow> int) \<Rightarrow> 'a ft_driver_scheme \<Rightarrow> 'a ft_driver_scheme \<times> ReturnCode" where
  "ft_group_read_hardware_values idx d =
     (if \<not> port_open d then (d, NOT_INITIALIZED)
      else if all_servo_ids d = [] then (d, SUCCESS)
      else if sync_read_ids d = [] then (d, FAIL)
      else if kFtMaxInstructionParams < 2 + length (sync_read_ids d) then (d, INVALID_PARAM)
      else
        let (d, rc) = send_instruction kFtBroadcastId kFtInstSyncRead
              ([kFtAddrPresentPosition, of_nat kFtFeedbackLength] @ map word_of_int (sync_read_ids d)) (flush_input d)
        in if rc \<noteq> SUCCESS then (d, rc)
        else let (d, pending_ids, rc) = collect idx (length (sync_read_ids d)) (set (sync_read_ids d)) d
        in if rc \<noteq> SUCCESS \<or> pending_ids \<noteq> {} then (classify_dead_servos (flush_input d), FAIL)
           else (d\<lparr>ft_last_failed_servo_id := break_point (ft_dead_servo_ids d)\<rparr>, SUCCESS))"

definition ft_open ::
  "serial_env \<Rightarrow> string \<Rightarrow> int list option \<Rightarrow> (int \<Rightarrow> int) \<Rightarrow> int \<Rightarrow> 'a ft_driver_scheme
   \<Rightarrow> 'a ft_driver_scheme \<times> ReturnCode" where
  "ft_open e control_port_name p_dev idx baud_rate d =
     (let (d, rc) = serial_open e control_port_name baud_rate d
      in if rc \<noteq> SUCCESS then (d, rc)
      else case p_dev of
        None \<Rightarrow> (d, NOT_INITIALIZED)
      | Some servo_ids \<Rightarrow>
          (let n = length servo_ids;
               d = d\<lparr>all_servo_ids := servo_ids, sync_read_ids := servo_ids, ft_dead_servo_ids := [],
                     ft_last_failed_servo_id := -1, servo_num_total := int n,
                     pres_pos := replicate n 0, pres_vel := replicate n 0, pres_load := replicate n 0,
                     pres_temp := replicate n 0, pres_status := replicate n 0,
                     pending_goal_position := [], pending_torque_limit := []\<rparr>
           in if n = 0 then (d, SUCCESS)
              else let (d, rc) = ft_group_read_hardware_values idx d
                   in if rc \<noteq> SUCCESS then (d, FAIL) else (d, SUCCESS)))"

definition ft_close :: "'a ft_driver_scheme \<Rightarrow> 'a ft_driver_scheme \<times> ReturnCode" where
  "ft_close d = serial_close d"

definition ft_group_write_hardware_values :: "'a ft_driver_scheme \<Rightarrow> 'a ft_driver_scheme \<times> ReturnCode" where
  "ft_group_write_hardware_values d =
     (if \<not> port_open d then (d, NOT_INITIALIZED)
      else
        let (d, rc) = sync_write kFtAddrTorqueLimit 2 (pending_torque_limit d) d;
            d = d\<lparr>pending_torque_limit := []\<rparr>
        in if rc \<noteq> SUCCESS then (d\<lparr>pending_goal_position := []\<rparr>, rc)
        else let (d, rc) = sync_write kFtAddrGoalPosition 2 (pending_goal_position d) d;
                 d = d\<lparr>pending_goal_position := []\<rparr>
        in if rc \<noteq> SUCCESS then (d, rc) else (d, SUCCESS))"

section \<open>Operations on one servo\<close>

text \<open>A null servo is refused before anything is sent.\<close>

definition with_servo ::
  "int option \<Rightarrow> (int \<Rightarrow> 'd \<Rightarrow> 'd \<times> ReturnCode) \<Rightarrow> 'd \<Rightarrow> 'd \<times> ReturnCode" where
  "with_servo p_servo f d = (case p_servo of None \<Rightarrow> (d, INVALID_PARAM) | Some sid \<Rightarrow> f sid d)"

definition enable_torque :: "int option \<Rightarrow> bool \<Rightarrow> 'a ft_driver_scheme \<Rightarrow> 'a ft_driver_scheme \<times> ReturnCode" where
  "enable_torque p_servo enable =
     with_servo p_servo (\<lambda>sid. write_register sid kFtAddrTorqueEnable (if enable then 1 else 0) 1)"

definition set_operating_mode :: "int option \<Rightarrow> u8 \<Rightarrow> 'a ft_driver_scheme \<Rightarrow> 'a ft_driver_scheme \<times> ReturnCode" where
  "set_operating_mode p_servo mode = with_servo p_servo (\<lambda>sid. write_register sid kFtAddrOperatingMode (uint mode) 1)"

text \<open>A NaN gain has no integer value: the conversion is undefined.\<close>

definition to_gain_byte :: "flt \<Rightarrow> int option" where
  "to_gain_byte gain =
     (let gain = (if flt_lt gain (Fin 0) then Fin 0 else gain);
          gain = (if flt_lt (Fin 254) gain then Fin 254 else gain)
      in to_int32 gain)"

text \<open>One gain register; the following gains are converted and written only when it succeeds.\<close>

definition write_gain ::
  "int \<Rightarrow> u8 \<Rightarrow> flt \<Rightarrow> ('a ft_driver_scheme \<Rightarrow> ('a ft_driver_scheme \<times> ReturnCode) option)
   \<Rightarrow> 'a ft_driver_scheme \<Rightarrow> ('a ft_driver_scheme \<times> ReturnCode) option" where
  "write_gain sid addr gain cont d =
     (case to_gain_byte gain of
        None \<Rightarrow> None
      | Some v \<Rightarrow> (let (d, rc) = write_register sid addr v 1 d in if rc \<noteq> SUCCESS then Some (d, rc) else cont d))"

definition set_position_pid ::
  "int option \<Rightarrow> flt \<Rightarrow> flt \<Rightarrow> flt \<Rightarrow> 'a ft_driver_scheme \<Rightarrow> ('a ft_driver_scheme \<times> ReturnCode) option" where
  "set_position_pid p_servo pos_p pos_i pos_d d =
     (case p_servo of
        None \<Rightarrow> Some (d, INVALID_PARAM)
      | Some sid \<Rightarrow>
          write_gain sid kFtAddrPositionPGain pos_p
            (write_gain sid kFtAddrPositionDGain pos_d
               (write_gain sid kFtAddrPositionIGain pos_i (\<lambda>d. Some (d, SUCCESS)))) d)"

definition set_acceleration :: "int option \<Rightarrow> u8 \<Rightarrow> 'a ft_driver_scheme \<Rightarrow> 'a ft_driver_scheme \<times> ReturnCode" where
  "set_acceleration p_servo acceleration =
     with_servo p_servo (\<lambda>sid. write_register sid kFtAddrAcceleration (uint acceleration) 1)"

definition clamp_int :: "int \<Rightarrow> int \<Rightarrow> int \<Rightarrow> int" where
  "clamp_int lo hi v = (let v = (if v < lo then lo else v) in if hi < v then hi else v)"

definition set_goal_position_direct :: "int option \<Rightarrow> int \<Rightarrow> 'a ft_driver_scheme \<Rightarrow> 'a ft_driver_scheme \<times> ReturnCode" where
  "set_goal_position_direct p_servo goal_position =
     with_servo p_servo (\<lambda>sid. write_register sid kFtAddrGoalPosition
       (clamp_int kFtGoalPositionMin kFtGoalPositionMax goal_position) 2)"

definition set_goal_position_group :: "int option \<Rightarrow> int \<Rightarrow> 'a ft_driver_scheme \<Rightarrow> 'a ft_driver_scheme \<times> ReturnCode" where
  "set_goal_position_group p_servo goal_position =
     with_servo p_servo (\<lambda>sid d.
       (if sid \<in> set (ft_dead_servo_ids d) then (d, SUCCESS)
        else (d\<lparr>pending_goal_position := pending_goal_position d @
                  [(sid, word_of_int (clamp_int kFtGoalPositionMin kFtGoalPositionMax goal_position))]\<rparr>, SUCCESS)))"

definition set_torque_limit_group :: "int option \<Rightarrow> int \<Rightarrow> 'a ft_driver_scheme \<Rightarrow> 'a ft_driver_scheme \<times> ReturnCode" where
  "set_torque_limit_group p_servo torque_limit =
     with_servo p_servo (\<lambda>sid d.
       (if sid \<in> set (ft_dead_servo_ids d) then (d, SUCCESS)
        else (d\<lparr>pending_torque_limit := pending_torque_limit d @
                  [(sid, word_of_int (clamp_int kFtTorqueLimitMin kFtTorqueLimitMax torque_limit))]\<rparr>, SUCCESS)))"

definition discard_pending_group_writes :: "int option \<Rightarrow> 'a ft_driver_scheme \<Rightarrow> 'a ft_driver_scheme" where
  "discard_pending_group_writes p_servo d =
     (case p_servo of
        None \<Rightarrow> d
      | Some sid \<Rightarrow> d\<lparr>pending_goal_position := filter (\<lambda>entry. fst entry \<noteq> sid) (pending_goal_position d),
                      pending_torque_limit := filter (\<lambda>entry. fst entry \<noteq> sid) (pending_torque_limit d)\<rparr>)"

definition get_torque_enabled ::
  "int option \<Rightarrow> 'a ft_driver_scheme \<Rightarrow> 'a ft_driver_scheme \<times> ReturnCode \<times> int option" where
  "get_torque_enabled p_servo d =
     (case p_servo of None \<Rightarrow> (d, INVALID_PARAM, None) | Some sid \<Rightarrow> read_register sid kFtAddrTorqueEnable 1 d)"

definition get_present_position ::
  "int option \<Rightarrow> 'a ft_driver_scheme \<Rightarrow> 'a ft_driver_scheme \<times> ReturnCode \<times> int option" where
  "get_present_position p_servo d =
     (case p_servo of None \<Rightarrow> (d, INVALID_PARAM, None) | Some sid \<Rightarrow> read_register sid kFtAddrPresentPosition 2 d)"

definition sync_goal_position_to_present :: "int option \<Rightarrow> 'a ft_driver_scheme \<Rightarrow> 'a ft_driver_scheme \<times> ReturnCode" where
  "sync_goal_position_to_present p_servo d =
     (case get_present_position p_servo d of
        (d, rc, present) \<Rightarrow>
          (if rc \<noteq> SUCCESS then (d, rc)
           else set_goal_position_direct p_servo (case present of None \<Rightarrow> 0 | Some v \<Rightarrow> v) d))"

section \<open>Reference parser\<close>

text \<open>The receiver's specification on a byte stream: the next header, then the packet it starts.\<close>

fun find_header :: "nat \<Rightarrow> u8 list \<Rightarrow> (u8 \<times> u8 list) option" where
  "find_header c [] = None"
| "find_header c (b # bs) =
     (if b = kFtHeaderByte then find_header (c + 1) bs else if 2 \<le> c then Some (b, bs) else find_header 0 bs)"

definition parse_body :: "u8 \<Rightarrow> nat \<Rightarrow> u8 \<Rightarrow> u8 list \<Rightarrow> (status \<times> u8 list) option" where
  "parse_body expected_id n sid bs =
     (case bs of
        len # err # rest \<Rightarrow>
          (if unat len = n + 2 \<and> n < length rest \<and> rest ! n = ft_checksum (sid # len # err # take n rest) \<and>
              (expected_id = kFtBroadcastId \<or> sid = expected_id)
           then Some ((sid, err, take n rest), drop (n + 1) rest) else None)
      | _ \<Rightarrow> None)"

definition parse_status :: "u8 \<Rightarrow> nat \<Rightarrow> u8 list \<Rightarrow> (status \<times> u8 list) option" where
  "parse_status expected_id n bs =
     (case find_header 0 bs of None \<Rightarrow> None | Some (sid, rest) \<Rightarrow> parse_body expected_id n sid rest)"

text \<open>\<^verbatim>\<open>FF FF ID LEN ERR params CHK\<close>, what a servo answers.\<close>

definition status_packet :: "status \<Rightarrow> u8 list" where
  "status_packet = (\<lambda>(sid, err, params).
     let body = [sid, of_nat (length params + 2), err] @ params
     in [kFtHeaderByte, kFtHeaderByte] @ body @ [ft_checksum body])"

section \<open>Values\<close>

lemma byte_sum_start: "byte_sum bs acc = acc + byte_sum bs 0"
proof (induction bs arbitrary: acc)
  case (Cons b bs)
  show ?case using Cons [of "acc + ucast b"] Cons [of "ucast b"] by (simp add: byte_sum_def)
qed (simp add: byte_sum_def)

lemma status_sum_checksum: "status_sum sid len err params = ft_checksum (sid # len # err # params)"
  using byte_sum_start [of params "ucast sid + ucast len + ucast err"]
    byte_sum_start [of "sid # len # err # params" 0]
  by (simp add: status_sum_def ft_checksum_def byte_sum_def)

lemma header_not_broadcast [simp]: "kFtBroadcastId \<noteq> kFtHeaderByte"
  by (simp add: kFtBroadcastId_def kFtHeaderByte_def)

lemma magnitude_word:
  assumes "0 \<le> v" "v < 2 ^ sb" "sb < 32"
  shows "\<not> bit (word_of_int v :: u32) sb" "sint (word_of_int v :: u32) = v" "take_bit sb (word_of_int v :: u32) = word_of_int v"
proof -
  have t: "take_bit sb v = v" using assms(1,2) by (simp add: take_bit_int_eq_self)
  have "\<not> bit v sb" using t by (metis bit_take_bit_iff less_irrefl)
  then show "\<not> bit (word_of_int v :: u32) sb" by (simp add: bit_word_of_int_iff)
  have "(2::int) ^ sb \<le> 2 ^ 31" using assms(3) by (intro power_increasing) auto
  then have "v < 2 ^ 31" using assms(2) by linarith
  then show "sint (word_of_int v :: u32) = v" using assms(1) by (simp add: sint_sbintrunc' signed_take_bit_int_eq_self)
  show "take_bit sb (word_of_int v :: u32) = word_of_int v"
  proof (rule bit_word_eqI)
    fix n
    have "bit v n \<longrightarrow> n < sb" using t by (metis bit_take_bit_iff)
    then show "bit (take_bit sb (word_of_int v :: u32)) n = bit (word_of_int v :: u32) n"
      by (auto simp: bit_take_bit_iff bit_word_of_int_iff)
  qed
qed

section \<open>What a transaction changes\<close>

lemma flush_input_io: "serial_io [] p (flush_input p)"
  by (simp add: flush_input_def flush_io)

lemma read_exact_io_eq: "read_exact n ms p = (q, bs) \<Longrightarrow> serial_io [] p q"
  using read_exact_io [of p n ms] by simp

lemma sync_header_io: "serial_io [] p (fst (sync_header deadline c p))"
proof (induction deadline c p rule: sync_header.induct)
  case (1 deadline c p)
  obtain q bs where r: "read_exact 1 (remaining_ms deadline p) p = (q, bs)" by fastforce
  have io: "serial_io [] p q" by (rule read_exact_io_eq [OF r])
  show ?case
  proof (cases "remaining_ms deadline p = 0 \<or> (\<nexists>b. bs = [b])")
    case True
    then show ?thesis using io by (subst sync_header.simps) (auto simp: r Let_def simp del: One_nat_def split: list.split)
  next
    case False
    then obtain b where b: "bs = [b]" and m: "remaining_ms deadline p \<noteq> 0" by blast
    show ?thesis
      by (subst sync_header.simps)
        (use io 1(1) [OF refl m r [symmetric] b refl] 1(2) [OF refl m r [symmetric] b refl] m in
          \<open>auto simp: r b Let_def simp del: One_nat_def intro: serial_io_silent\<close>)
  qed
qed

lemma receive_body_io: "serial_io [] p (fst (receive_body deadline e n sid len err p))"
proof -
  obtain q body where r: "read_exact (n + 1) (remaining_ms deadline p) p = (q, body)" by fastforce
  have io: "serial_io [] p q" by (rule read_exact_io_eq [OF r])
  show ?thesis using io serial_io_silent [OF io flush_input_io] flush_input_io [of p]
    by (auto simp: receive_body_def r [simplified] Let_def)
qed

lemma receive_status_io: "serial_io [] p (fst (receive_status e n ms p))"
proof -
  let ?D = "port_now p + ms * 1000"
  obtain q h where h: "sync_header ?D 0 p = (q, h)" by fastforce
  have io: "serial_io [] p q" using sync_header_io [of p ?D 0] by (simp add: h)
  obtain r bs where r: "read_exact 2 (remaining_ms ?D q) q = (r, bs)" by fastforce
  have io': "serial_io [] p r" using serial_io_silent [OF io read_exact_io [of q 2 "remaining_ms ?D q"]] by (simp add: r)
  show ?thesis using io io' serial_io_silent [OF io' receive_body_io]
    by (auto simp: receive_status_def h r Let_def split: option.split list.split)
qed

section \<open>The receiver against the reference parser\<close>

lemma sync_header_sound:
  "sync_header deadline c p = (p', Some b) \<Longrightarrow> find_header c (rx_stream p) = Some (b, rx_stream p')"
proof (induction deadline c p rule: sync_header.induct)
  case (1 deadline c p)
  obtain q bs where r: "read_exact 1 (remaining_ms deadline p) p = (q, bs)" by fastforce
  show ?case
  proof (cases "remaining_ms deadline p = 0 \<or> (\<nexists>b. bs = [b])")
    case True
    then show ?thesis using 1(3)
      by (subst (asm) sync_header.simps) (auto simp: r Let_def simp del: One_nat_def split: if_splits list.splits)
  next
    case False
    then obtain x where x: "bs = [x]" and m: "remaining_ms deadline p \<noteq> 0" by blast
    have st: "rx_stream p = x # rx_stream q" using read_exact_stream [OF r] x by simp
    have eq: "sync_header deadline c p =
        (if x = kFtHeaderByte then sync_header deadline (c + 1) q
         else if 2 \<le> c then (q, Some x) else sync_header deadline 0 q)"
      using m by (subst sync_header.simps) (simp add: r x Let_def del: One_nat_def)
    show ?thesis
      using 1(3) 1(1) [OF refl m r [symmetric] x refl] 1(2) [OF refl m r [symmetric] x refl]
      by (auto simp: eq st split: if_splits)
  qed
qed

lemma receive_body_sound:
  assumes "receive_body deadline e n sid len err p = (p', SUCCESS, st)"
  shows "\<exists>s. st = Some s \<and> parse_body e n sid (len # err # rx_stream p) = Some (s, rx_stream p')"
proof -
  obtain q body where r: "read_exact (n + 1) (remaining_ms deadline p) p = (q, body)" by fastforce
  have l: "unat len = n + 2" and b: "length body = n + 1" "body ! n = status_sum sid len err (take n body)"
    and i: "e = kFtBroadcastId \<or> sid = e" and p': "p' = q" and st: "st = Some (sid, err, take n body)"
    using assms by (auto simp: receive_body_def r [simplified] Let_def split: if_splits)
  have s: "rx_stream p = body @ rx_stream q" using read_exact_stream [OF r] by simp
  show ?thesis using l b i by (simp add: parse_body_def s p' st nth_append status_sum_checksum)
qed

lemma receive_status_sound:
  assumes "receive_status e n ms p = (p', SUCCESS, st)"
  shows "\<exists>s. st = Some s \<and> parse_status e n (rx_stream p) = Some (s, rx_stream p')"
proof -
  let ?D = "port_now p + ms * 1000"
  have n: "\<not> kFtMaxStatusParams < n" using assms by (auto simp: receive_status_def)
  obtain q h where h: "sync_header ?D 0 p = (q, h)" by fastforce
  then obtain sid where sid: "h = Some sid" using assms n by (auto simp: receive_status_def Let_def split: option.splits)
  obtain r bs where r: "read_exact 2 (remaining_ms ?D q) q = (r, bs)" by fastforce
  then obtain len err where bs: "bs = [len, err]"
    using assms n by (auto simp: receive_status_def Let_def h sid split: list.splits)
  have "receive_body ?D e n sid len err r = (p', SUCCESS, st)"
    using assms n by (simp add: receive_status_def Let_def h sid r bs)
  from receive_body_sound [OF this] show ?thesis
    using sync_header_sound [OF h [unfolded sid]] read_exact_stream [OF r] by (simp add: parse_status_def bs)
qed

lemma receive_status_result: "receive_status e n ms p = (q, rc, st) \<Longrightarrow> rc = SUCCESS \<longleftrightarrow> st \<noteq> None"
  by (auto simp: receive_status_def receive_body_def Let_def split: if_splits option.splits list.splits prod.splits)

text \<open>The other direction, for what arrives a millisecond before the deadline.\<close>

lemma remaining_covers:
  assumes "T + 1000 \<le> deadline" "port_now p \<le> T"
  shows "0 < remaining_ms deadline p" "T < port_now p + remaining_ms deadline p * 1000"
proof -
  have "remaining_ms deadline p = (deadline - port_now p) div 1000" "1000 \<le> deadline - port_now p"
    using assms by (auto simp: remaining_ms_def)
  then show "0 < remaining_ms deadline p" "T < port_now p + remaining_ms deadline p * 1000"
    using assms by auto
qed

definition on_time :: "nat \<Rightarrow> 'a serial_port_scheme \<Rightarrow> bool" where
  "on_time T p \<longleftrightarrow> port_open p \<and> port_now p \<le> T \<and> clean_by T p"

lemma read_on_time:
  assumes "T + 1000 \<le> deadline" "on_time T p" "n \<le> length (answer_by T p)" "0 < n"
  shows "\<exists>q. read_exact n (remaining_ms deadline p) p = (q, take n (answer_by T p)) \<and> on_time T q \<and>
    answer_by T q = drop n (answer_by T p)"
  using read_exact_in_time [of p T "remaining_ms deadline p" n] remaining_covers [OF assms(1)] assms
  by (auto simp: on_time_def)

lemma sync_header_complete:
  assumes "T + 1000 \<le> deadline" "on_time T p" "find_header c (answer_by T p) = Some (b, rest)"
  shows "\<exists>q. sync_header deadline c p = (q, Some b) \<and> on_time T q \<and> answer_by T q = rest"
  using assms
proof (induction deadline c p rule: sync_header.induct)
  case (1 deadline c p)
  obtain x xs where a: "answer_by T p = x # xs" using 1(5) by (cases "answer_by T p") auto
  obtain q where q: "read_exact 1 (remaining_ms deadline p) p = (q, [x])" "on_time T q" "answer_by T q = xs"
    using read_on_time [OF 1(3,4), of 1] by (auto simp: a)
  have m: "remaining_ms deadline p \<noteq> 0" using remaining_covers(1) [OF 1(3), of p] 1(4) by (simp add: on_time_def)
  have eq: "sync_header deadline c p =
      (if x = kFtHeaderByte then sync_header deadline (c + 1) q
       else if 2 \<le> c then (q, Some x) else sync_header deadline 0 q)"
    using m by (subst sync_header.simps) (simp add: q(1) Let_def del: One_nat_def)
  show ?case
    using 1(5) 1(1) [OF refl m q(1) [symmetric] refl refl _ 1(3) q(2)] 1(2) [OF refl m q(1) [symmetric] refl refl _ _ 1(3) q(2)] q(2,3)
    by (auto simp: eq a split: if_splits)
qed

lemma receive_body_complete:
  assumes "T + 1000 \<le> deadline" "on_time T p" "parse_body e n sid (len # err # answer_by T p) = Some (s, rest)"
  shows "\<exists>q. receive_body deadline e n sid len err p = (q, SUCCESS, Some s) \<and> on_time T q \<and> answer_by T q = rest"
proof -
  let ?a = "answer_by T p"
  have a: "unat len = n + 2" "n < length ?a" "?a ! n = ft_checksum (sid # len # err # take n ?a)"
    "e = kFtBroadcastId \<or> sid = e" "s = (sid, err, take n ?a)" "rest = drop (n + 1) ?a"
    using assms(3) by (auto simp: parse_body_def split: if_splits)
  obtain q where q: "read_exact (n + 1) (remaining_ms deadline p) p = (q, take (n + 1) ?a)" "on_time T q"
    "answer_by T q = drop (n + 1) ?a"
    using read_on_time [OF assms(1,2), of "n + 1"] a(2) by auto
  show ?thesis using a q(2,3)
    by (intro exI [of _ q]) (auto simp: receive_body_def q(1) [simplified] Let_def status_sum_checksum)
qed

lemma receive_status_complete:
  assumes "n \<le> kFtMaxStatusParams" "T + 1000 \<le> port_now p + ms * 1000" "on_time T p"
    "parse_status e n (answer_by T p) = Some (s, rest)"
  shows "\<exists>q. receive_status e n ms p = (q, SUCCESS, Some s) \<and> on_time T q \<and> answer_by T q = rest"
proof -
  let ?D = "port_now p + ms * 1000"
  obtain sid bs where h: "find_header 0 (answer_by T p) = Some (sid, bs)" "parse_body e n sid bs = Some (s, rest)"
    using assms(4) by (auto simp: parse_status_def split: option.splits)
  obtain len err cs where bs: "bs = len # err # cs" using h(2) by (auto simp: parse_body_def split: list.splits)
  obtain q where q: "sync_header ?D 0 p = (q, Some sid)" "on_time T q" "answer_by T q = bs"
    using sync_header_complete [OF assms(2,3) h(1)] by blast
  obtain r where r: "read_exact 2 (remaining_ms ?D q) q = (r, [len, err])" "on_time T r" "answer_by T r = cs"
    using read_on_time [OF assms(2) q(2), of 2] q(3) by (auto simp: bs)
  show ?thesis using receive_body_complete [OF assms(2) r(2), of e n sid len err s rest] h(2) assms(1)
    by (simp add: r(3) bs receive_status_def q(1) r(1) Let_def)
qed

text \<open>A packet is parsed back, behind any bytes other than \<^verbatim>\<open>FF\<close>.\<close>

lemma find_header_skip: "kFtHeaderByte \<notin> set noise \<Longrightarrow> find_header 0 (noise @ bs) = find_header 0 bs"
  by (induction noise) auto

lemma find_header_shape:
  "find_header c bs = Some (b, rest) \<Longrightarrow>
   b \<noteq> kFtHeaderByte \<and> (\<exists>pre. replicate c kFtHeaderByte @ bs = pre @ [kFtHeaderByte, kFtHeaderByte, b] @ rest)"
proof (induction c bs rule: find_header.induct)
  case (2 c x bs)
  show ?case
  proof (cases "x = kFtHeaderByte")
    case True
    then show ?thesis using 2 by (simp add: replicate_app_Cons_same)
  next
    case ne: False
    show ?thesis
    proof (cases "2 \<le> c")
      case True
      then have "c = (c - 2) + 2" by simp
      then have "replicate c kFtHeaderByte = replicate ((c - 2) + 2) kFtHeaderByte" by (rule arg_cong)
      then have "replicate c kFtHeaderByte = replicate (c - 2) kFtHeaderByte @ [kFtHeaderByte, kFtHeaderByte]"
        unfolding replicate_add by (simp add: numeral_2_eq_2)
      then show ?thesis using 2(3) ne True by auto
    next
      case False
      then obtain pre where "bs = pre @ [kFtHeaderByte, kFtHeaderByte, b] @ rest" "b \<noteq> kFtHeaderByte"
        using 2(2) [OF ne False] 2(3) ne by auto
      then show ?thesis by (auto intro: exI [of _ "replicate c kFtHeaderByte @ x # pre"])
    qed
  qed
qed simp

lemma parse_status_bytes:
  assumes "parse_status e n bs = Some ((sid, err, params), rest)"
  shows "sid \<noteq> kFtHeaderByte \<and> (\<exists>noise. bs = noise @ status_packet (sid, err, params) @ rest)"
proof -
  obtain cs where h: "find_header 0 bs = Some (sid, cs)" "parse_body e n sid cs = Some ((sid, err, params), rest)"
    using assms by (auto simp: parse_status_def parse_body_def split: option.splits list.splits if_splits)
  then obtain len ds where cs: "cs = len # err # ds" "unat len = n + 2" "n < length ds" "params = take n ds"
    "rest = drop (n + 1) ds" "ds ! n = ft_checksum (sid # len # err # take n ds)"
    by (auto simp: parse_body_def split: list.splits if_splits)
  have "len = of_nat (n + 2)" using cs(2) by (metis of_nat_unat ucast_id)
  moreover have "ds = take n ds @ [ds ! n] @ drop (n + 1) ds" using cs(3) by (simp add: Cons_nth_drop_Suc)
  ultimately have "[kFtHeaderByte, kFtHeaderByte, sid] @ cs = status_packet (sid, err, params) @ rest"
    using cs by (auto simp: status_packet_def Let_def min_def)
  then show ?thesis using find_header_shape [OF h(1)] by auto
qed

lemma parse_status_packet:
  assumes "kFtHeaderByte \<notin> set noise" "sid \<noteq> kFtHeaderByte" "length params = n" "n \<le> kFtMaxStatusParams"
    "e = kFtBroadcastId \<or> sid = e"
  shows "parse_status e n (noise @ status_packet (sid, err, params) @ rest) = Some ((sid, err, params), rest)"
proof -
  have "unat (of_nat (n + 2) :: u8) = n + 2"
    using assms(4) unat_of_nat [where ?'a = 8, of "n + 2"] by (simp only: kFtMaxStatusParams_def) simp
  then show ?thesis using assms
    by (simp add: parse_status_def find_header_skip status_packet_def Let_def parse_body_def nth_append numeral_2_eq_2)
qed

section \<open>Instructions on the wire\<close>

text \<open>
  \<open>issues pkts p p'\<close>: from \<open>p\<close> to \<open>p'\<close> the packets go onto the wire in this order, each one to three times because of
  the retries, and nothing else does.
\<close>

primrec issues :: "u8 list list \<Rightarrow> 'a serial_port_scheme \<Rightarrow> 'a serial_port_scheme \<Rightarrow> bool" where
  "issues [] p p' \<longleftrightarrow> serial_io [] p p'"
| "issues (pkt # pkts) p p' \<longleftrightarrow>
     (\<exists>k q. 1 \<le> k \<and> k \<le> kFtSingleRegMaxAttempts \<and> serial_io (concat (replicate k pkt)) p q \<and> issues pkts q p')"

lemma issues_silent: "serial_io [] p q \<Longrightarrow> issues pkts q r \<Longrightarrow> issues pkts p r"
  by (cases pkts) (auto intro: serial_io_silent)

lemma issues_append: "issues a p q \<Longrightarrow> issues b q r \<Longrightarrow> issues (a @ b) p r"
proof (induction a arbitrary: p)
  case Nil
  then show ?case by (auto intro: issues_silent)
next
  case (Cons pkt a)
  then show ?case by auto
qed

lemma issues_then_silent: "issues pkts p q \<Longrightarrow> serial_io [] q r \<Longrightarrow> issues pkts p r"
  using issues_append [of pkts p q "[]" r] by simp

lemma issues_io: "issues pkts p q \<Longrightarrow> \<exists>out. serial_io out p q"
  by (induction pkts arbitrary: p) (auto, metis serial_io_trans)

lemma send_instruction_wire:
  assumes "send_instruction sid i params p = (p', rc)"
  shows "\<exists>out rest. instruction_packet sid i params = out @ rest \<and> serial_io out p p' \<and> rx_stream p' = rx_stream p \<and>
    (rc = SUCCESS \<longrightarrow> out = instruction_packet sid i params)"
proof (cases "kFtMaxInstructionParams < length params")
  case True
  then show ?thesis using assms
    by (intro exI [of _ "[]"] exI [of _ "instruction_packet sid i params"]) (auto simp: send_instruction_def)
next
  case False
  then show ?thesis using assms write_bytes_wire [of "instruction_packet sid i params" p p' rc]
    by (auto simp: send_instruction_def)
qed

lemma send_instruction_io: "\<exists>out. serial_io out p (fst (send_instruction sid i params p))"
  using send_instruction_wire [of sid i params p] by (metis prod.collapse)

lemma txrx_loop_io: "\<exists>out. serial_io out p (fst (txrx_loop a rc sid i params n p))"
proof (induction a rc sid i params n p rule: txrx_loop.induct)
  case (1 rc sid i params n p)
  then show ?case by (auto intro: exI [of _ "[]"])
next
  case (2 a rc sid i params n p)
  obtain q rc1 where s: "send_instruction sid i params (flush_input p) = (q, rc1)" by fastforce
  obtain out where io: "serial_io out p q"
    using serial_io_silent [OF flush_input_io] send_instruction_io [of "flush_input p" sid i params] by (auto simp: s)
  obtain r rc2 st where r: "receive_status sid n kFtResponseTimeoutMs q = (r, rc2, st)" by (metis prod_cases3)
  have io': "serial_io out p r" using serial_io_trans [OF io receive_status_io [of q sid n kFtResponseTimeoutMs]] by (simp add: r)
  show ?case
  proof (cases "rc1 = SUCCESS \<and> rc2 \<noteq> SUCCESS")
    case True
    then obtain o' where "serial_io o' r (fst (txrx_loop a rc2 sid i params n r))"
      using 2 [OF s [symmetric] refl _ r [symmetric] refl] by auto
    from serial_io_trans [OF io' this] show ?thesis using True by (auto simp: s r)
  next
    case False
    then show ?thesis using io io' by (auto simp: s r)
  qed
qed

lemma parse_status_shape:
  "parse_status e n bs = Some ((sid, err, params), rest) \<Longrightarrow> length params = n \<and> (e = kFtBroadcastId \<or> sid = e)"
  by (auto simp: parse_status_def parse_body_def split: option.splits list.splits if_splits)

text \<open>An acknowledged transaction: the instruction, as often as it was tried, and an answer of the right servo and size.\<close>

lemma txrx_loop_success:
  assumes "txrx_loop a rc sid i params n p = (p', SUCCESS, st)" "rc \<noteq> SUCCESS"
  shows "\<exists>k s err rsp. 1 \<le> k \<and> k \<le> a \<and> serial_io (concat (replicate k (instruction_packet sid i params))) p p' \<and>
    st = Some (s, err, rsp) \<and> length rsp = n \<and> (sid = kFtBroadcastId \<or> s = sid)"
  using assms
proof (induction a rc sid i params n p rule: txrx_loop.induct)
  case (1 rc sid i params n p)
  then show ?case by simp
next
  case (2 a rc sid i params n p)
  obtain q rc1 where s: "send_instruction sid i params (flush_input p) = (q, rc1)" by fastforce
  have rc1: "rc1 = SUCCESS" using 2(2) by (auto simp: s split: if_splits)
  have io: "serial_io (instruction_packet sid i params) p q"
    using serial_io_silent [OF flush_input_io] send_instruction_wire [OF s] rc1 by blast
  obtain r rc2 st2 where r: "receive_status sid n kFtResponseTimeoutMs q = (r, rc2, st2)" by (metis prod_cases3)
  have io': "serial_io (instruction_packet sid i params) p r"
    using serial_io_trans [OF io receive_status_io [of q sid n kFtResponseTimeoutMs]] by (simp add: r)
  show ?case
  proof (cases "rc2 = SUCCESS")
    case True
    then have e: "p' = r" "st = st2" using 2(2) by (simp_all add: s r rc1)
    obtain x where x: "st2 = Some x" "parse_status sid n (rx_stream q) = Some (x, rx_stream r)"
      using receive_status_sound [OF r [unfolded True]] by blast
    obtain s' err rsp where xx: "x = (s', err, rsp)" by (metis prod_cases3)
    show ?thesis using parse_status_shape [OF x(2) [unfolded xx]] io' e x(1) xx
      by (intro exI [of _ "1 :: nat"]) simp
  next
    case False
    then have "txrx_loop a rc2 sid i params n r = (p', SUCCESS, st)" using 2(2) by (simp add: s r rc1)
    from 2(1) [OF s [symmetric] refl _ r [symmetric] refl refl False this False] rc1 obtain k s' err rsp where
      k: "1 \<le> k" "k \<le> a" "serial_io (concat (replicate k (instruction_packet sid i params))) r p'"
      "st = Some (s', err, rsp)" "length rsp = n" "sid = kFtBroadcastId \<or> s' = sid" by blast
    have "serial_io (concat (replicate (Suc k) (instruction_packet sid i params))) p p'"
      using serial_io_trans [OF io' k(3)] by simp
    then show ?thesis using k by (intro exI [of _ "Suc k"]) auto
  qed
qed

lemma txrx_success:
  assumes "txrx_instruction sid i params n p = (p', SUCCESS, st)"
  shows "issues [instruction_packet sid i params] p p' \<and>
    (\<exists>s err rsp. st = Some (s, err, rsp) \<and> length rsp = n \<and> (sid = kFtBroadcastId \<or> s = sid))"
proof -
  have "\<exists>q. serial_io out p q \<and> serial_io [] q p'" if "serial_io out p p'" for out using that serial_io_refl by blast
  with txrx_loop_success [of kFtSingleRegMaxAttempts FAIL sid i params n p p' st] assms show ?thesis
    by (auto simp: txrx_instruction_def)
qed

lemma txrx_io: "\<exists>out. serial_io out p (fst (txrx_instruction sid i params n p))"
  by (simp add: txrx_instruction_def txrx_loop_io)

definition write_packet :: "int \<Rightarrow> u8 \<Rightarrow> int \<Rightarrow> nat \<Rightarrow> u8 list" where
  "write_packet sid addr v len = instruction_packet (word_of_int sid) kFtInstWrite (write_params addr v len)"

definition read_packet :: "int \<Rightarrow> u8 \<Rightarrow> nat \<Rightarrow> u8 list" where
  "read_packet sid addr len = instruction_packet (word_of_int sid) kFtInstRead [addr, of_nat len]"

definition sync_write_packet :: "u8 \<Rightarrow> (int \<times> u16) list \<Rightarrow> u8 list" where
  "sync_write_packet addr entries =
     (if entries = [] then []
      else instruction_packet kFtBroadcastId kFtInstSyncWrite ([addr, 2] @ concat (map (sync_entry 2) entries)))"

lemma serial_io_ex_refl [simp]: "\<exists>out. serial_io out p p"
  using serial_io_refl by blast

lemma ping_io: "\<exists>out. serial_io out p (fst (ping sid p))"
  using txrx_io [of p "word_of_int sid" kFtInstPing "[]" 0] by (auto simp: ping_def split: prod.split)

lemma read_register_io: "\<exists>out. serial_io out p (fst (read_register sid addr len p))"
proof -
  obtain q rc st where t: "txrx_instruction (word_of_int sid) kFtInstRead [addr, of_nat len] len p = (q, rc, st)"
    by (metis prod_cases3)
  have "\<exists>out. serial_io out p q" using txrx_io [of p "word_of_int sid" kFtInstRead "[addr, of_nat len]" len] by (simp add: t)
  then show ?thesis by (auto simp: read_register_def t split: option.split list.split)
qed

lemma register_value_length: "length rsp = 1 \<or> length rsp = 2 \<Longrightarrow> register_value (Some (x, err, rsp)) \<noteq> None"
  by (cases rsp; cases "tl rsp") (auto simp: register_value_def)

lemma read_register_success:
  assumes "read_register sid addr len p = (p', SUCCESS, v)"
  shows "issues [read_packet sid addr len] p p' \<and> v \<noteq> None"
proof -
  have len: "(len \<noteq> 1 \<and> len \<noteq> 2) = False" using assms by (auto simp: read_register_def split: if_splits)
  obtain q rc st where t: "txrx_instruction (word_of_int sid) kFtInstRead [addr, of_nat len] len p = (q, rc, st)"
    by (metis prod_cases3)
  have eq: "read_register sid addr len p = (if rc \<noteq> SUCCESS then (q, rc, None) else (q, SUCCESS, register_value st))"
    unfolding read_register_def len t by simp
  have rc: "rc = SUCCESS" "p' = q" "v = register_value st" using assms by (auto simp: eq split: if_splits)
  obtain x err rsp where st: "st = Some (x, err, rsp)" "length rsp = len" using txrx_success [OF t [unfolded rc]] by blast
  then have "v \<noteq> None" using register_value_length [of rsp x err] len rc(3) by blast
  then show ?thesis using txrx_success [OF t [unfolded rc]] rc(2) by (auto simp: read_packet_def)
qed

lemma write_register_raw_io: "\<exists>out. serial_io out p (fst (write_register_raw sid addr v len p))"
  using txrx_io [of p "word_of_int sid" kFtInstWrite "write_params addr v len" 0]
  by (auto simp: write_register_raw_def split: prod.split)

lemma write_register_raw_success:
  "write_register_raw sid addr v len p = (p', SUCCESS) \<Longrightarrow> issues [write_packet sid addr v len] p p'"
  by (auto simp: write_register_raw_def write_packet_def split: if_splits prod.splits dest!: txrx_success)

lemma serial_io_ex_trans: "\<exists>out. serial_io out p q \<Longrightarrow> \<exists>out. serial_io out q r \<Longrightarrow> \<exists>out. serial_io out p r"
  by (blast intro: serial_io_trans)

lemma write_register_io: "\<exists>out. serial_io out p (fst (write_register sid addr v len p))"
proof -
  obtain q r1 where q: "write_register_raw sid kFtAddrLockFlag kFtLockFlagUnlocked 1 p = (q, r1)" by fastforce
  obtain r r2 where r: "write_register_raw sid addr v len q = (r, r2)" by fastforce
  obtain t r3 where t: "write_register_raw sid kFtAddrLockFlag kFtLockFlagLocked 1 r = (t, r3)" by fastforce
  have 1: "\<exists>out. serial_io out p q" by (metis write_register_raw_io q fst_conv)
  have 2: "\<exists>out. serial_io out p t"
    by (metis write_register_raw_io q r t fst_conv serial_io_ex_trans)
  show ?thesis using 1 2 write_register_raw_io [of p sid addr v len]
    by (auto simp: write_register_def q [simplified] r t [simplified] Let_def)
qed

lemma write_register_success:
  assumes "write_register sid addr v len p = (p', SUCCESS)"
  shows "issues (if kFtSramStartAddr \<le> addr then [write_packet sid addr v len]
    else [write_packet sid kFtAddrLockFlag kFtLockFlagUnlocked 1, write_packet sid addr v len,
          write_packet sid kFtAddrLockFlag kFtLockFlagLocked 1]) p p'"
proof (cases "kFtSramStartAddr \<le> addr")
  case True
  then show ?thesis using assms write_register_raw_success by (simp add: write_register_def)
next
  case False
  obtain q r1 where q: "write_register_raw sid kFtAddrLockFlag kFtLockFlagUnlocked 1 p = (q, r1)" by fastforce
  obtain r r2 where r: "write_register_raw sid addr v len q = (r, r2)" by fastforce
  obtain t r3 where t: "write_register_raw sid kFtAddrLockFlag kFtLockFlagLocked 1 r = (t, r3)" by fastforce
  have ok: "r1 = SUCCESS" "r2 = SUCCESS" "r3 = SUCCESS" "p' = t"
    using assms False by (auto simp: write_register_def q [simplified] r t [simplified] Let_def split: if_splits)
  have "issues ([write_packet sid kFtAddrLockFlag kFtLockFlagUnlocked 1] @ [write_packet sid addr v len] @
      [write_packet sid kFtAddrLockFlag kFtLockFlagLocked 1]) p t"
    by (intro issues_append) (use write_register_raw_success q r t ok in blast)+
  then show ?thesis using False ok(4) by simp
qed

lemma sync_write_wire:
  assumes "sync_write addr 2 entries p = (p', rc)"
  shows "\<exists>out rest. sync_write_packet addr entries = out @ rest \<and> serial_io out p p' \<and> rx_stream p' = rx_stream p \<and>
    (rc = SUCCESS \<longrightarrow> out = sync_write_packet addr entries)"
proof (cases "entries = [] \<or> kFtMaxInstructionParams < 2 + length entries * (1 + 2)")
  case True
  then have "p' = p" "rc = SUCCESS \<longrightarrow> entries = []" using assms by (auto simp: sync_write_def split: if_splits)
  then show ?thesis
    by (intro exI [of _ "[]"] exI [of _ "sync_write_packet addr entries"]) (auto simp: sync_write_packet_def)
next
  case False
  then have "send_instruction kFtBroadcastId kFtInstSyncWrite ([addr, 2] @ concat (map (sync_entry 2) entries)) p = (p', rc)"
    using assms by (auto simp: sync_write_def)
  from send_instruction_wire [OF this] show ?thesis using False by (simp add: sync_write_packet_def)
qed

section \<open>The invariant of the driver\<close>

text \<open>
  The bulk read addresses exactly the servos not known dead, the dead ones are servos of the device in
  increasing order with the reported break point the least, every cache has a slot per servo, and the queued values are
  within the ranges of their registers.
\<close>

definition queue_ok :: "int \<Rightarrow> (int \<times> u16) list \<Rightarrow> bool" where
  "queue_ok limit entries \<longleftrightarrow> (\<forall>entry \<in> set entries. uint (snd entry) \<le> limit)"

definition caches_sized :: "'a ft_driver_scheme \<Rightarrow> bool" where
  "caches_sized d \<longleftrightarrow> servo_num_total d = int (length (all_servo_ids d)) \<and>
     length (pres_pos d) = length (all_servo_ids d) \<and> length (pres_vel d) = length (all_servo_ids d) \<and>
     length (pres_load d) = length (all_servo_ids d) \<and> length (pres_temp d) = length (all_servo_ids d) \<and>
     length (pres_status d) = length (all_servo_ids d)"

definition ft_inv :: "'a ft_driver_scheme \<Rightarrow> bool" where
  "ft_inv d \<longleftrightarrow>
     sync_read_ids d = filter (\<lambda>sid. sid \<notin> set (ft_dead_servo_ids d)) (all_servo_ids d) \<and>
     sorted_wrt (<) (ft_dead_servo_ids d) \<and> set (ft_dead_servo_ids d) \<subseteq> set (all_servo_ids d) \<and>
     ft_last_failed_servo_id d = break_point (ft_dead_servo_ids d) \<and> caches_sized d \<and>
     queue_ok kFtGoalPositionMax (pending_goal_position d) \<and> queue_ok kFtTorqueLimitMax (pending_torque_limit d)"

text \<open>The servos of the device stay the same and no dead servo comes back.\<close>

definition only_more_dead :: "'a ft_driver_scheme \<Rightarrow> 'a ft_driver_scheme \<Rightarrow> bool" where
  "only_more_dead d d' \<longleftrightarrow> all_servo_ids d' = all_servo_ids d \<and> set (ft_dead_servo_ids d) \<subseteq> set (ft_dead_servo_ids d')"

lemma only_more_dead_refl [simp]: "only_more_dead d d"
  by (simp add: only_more_dead_def)

lemma only_more_dead_trans [trans]: "only_more_dead a b \<Longrightarrow> only_more_dead b c \<Longrightarrow> only_more_dead a c"
  by (auto simp: only_more_dead_def)

lemma ft_io_fields:
  assumes "serial_io out d (d' :: 'a ft_driver_scheme)"
  shows "all_servo_ids d' = all_servo_ids d" "sync_read_ids d' = sync_read_ids d"
    "ft_dead_servo_ids d' = ft_dead_servo_ids d" "ft_last_failed_servo_id d' = ft_last_failed_servo_id d"
    "servo_num_total d' = servo_num_total d" "pres_pos d' = pres_pos d" "pres_vel d' = pres_vel d"
    "pres_load d' = pres_load d" "pres_temp d' = pres_temp d" "pres_status d' = pres_status d"
    "pending_goal_position d' = pending_goal_position d" "pending_torque_limit d' = pending_torque_limit d"
  using assms by (auto simp: serial_io_def)

lemma ft_inv_io: "\<exists>out. serial_io out d (d' :: 'a ft_driver_scheme) \<Longrightarrow> ft_inv d \<Longrightarrow> ft_inv d' \<and> only_more_dead d d'"
  by (elim exE) (simp add: ft_inv_def caches_sized_def only_more_dead_def ft_io_fields)

text \<open>The probe: a partial invariant, \<open>sync_read_ids\<close> and the break point are rebuilt at the end.\<close>

definition probe_inv :: "'a ft_driver_scheme \<Rightarrow> bool" where
  "probe_inv d \<longleftrightarrow> sorted_wrt (<) (ft_dead_servo_ids d) \<and> set (ft_dead_servo_ids d) \<subseteq> set (all_servo_ids d) \<and>
     caches_sized d \<and> queue_ok kFtGoalPositionMax (pending_goal_position d) \<and>
     queue_ok kFtTorqueLimitMax (pending_torque_limit d)"

lemma probe_inv_io: "\<exists>out. serial_io out d (d' :: 'a ft_driver_scheme) \<Longrightarrow> probe_inv d \<Longrightarrow> probe_inv d' \<and> only_more_dead d d'"
  by (elim exE) (simp add: probe_inv_def caches_sized_def only_more_dead_def ft_io_fields)

lemma mark_dead_inv:
  assumes "probe_inv d" "sid \<in> set (all_servo_ids d)"
  shows "probe_inv (d\<lparr>ft_dead_servo_ids := set_insert sid (ft_dead_servo_ids d)\<rparr>) \<and>
    only_more_dead d (d\<lparr>ft_dead_servo_ids := set_insert sid (ft_dead_servo_ids d)\<rparr>)"
  using assms by (auto simp: probe_inv_def caches_sized_def only_more_dead_def set_set_insert set_insert_sorted)

lemma probe_servo_inv:
  assumes "probe_inv d" "sid \<in> set (all_servo_ids d)"
  shows "probe_inv (probe_servo sid d) \<and> only_more_dead d (probe_servo sid d)"
proof -
  obtain q rc where q: "ping sid d = (q, rc)" by fastforce
  have 1: "\<exists>out. serial_io out d q" using ping_io [of d sid] by (simp add: q)
  have 2: "\<exists>out. serial_io out d (flush_input q)" by (rule serial_io_ex_trans [OF 1]) (blast intro: flush_input_io)
  have d: "ft_dead_servo_ids (flush_input q) = ft_dead_servo_ids q" using ft_io_fields(3) [OF flush_input_io] .
  have 3: "probe_inv (flush_input q)" "only_more_dead d (flush_input q)" using probe_inv_io [OF 2 assms(1)] by auto
  then have "sid \<in> set (all_servo_ids (flush_input q))" using assms(2) by (simp add: only_more_dead_def)
  from mark_dead_inv [OF 3(1) this] have
    "probe_inv ((flush_input q)\<lparr>ft_dead_servo_ids := set_insert sid (ft_dead_servo_ids q)\<rparr>) \<and>
     only_more_dead d ((flush_input q)\<lparr>ft_dead_servo_ids := set_insert sid (ft_dead_servo_ids q)\<rparr>)"
    using only_more_dead_trans [OF 3(2)] by (simp add: d)
  then show ?thesis using probe_inv_io [OF 1 assms(1)] assms(1) by (simp add: probe_servo_def q)
qed

lemma fold_probe_inv:
  "probe_inv d \<Longrightarrow> set sids \<subseteq> set (all_servo_ids d) \<Longrightarrow>
   probe_inv (fold probe_servo sids d) \<and> only_more_dead d (fold probe_servo sids d)"
proof (induction sids arbitrary: d)
  case (Cons sid sids)
  then have p: "probe_inv (probe_servo sid d)" "only_more_dead d (probe_servo sid d)" using probe_servo_inv [of d sid] by auto
  then have "set sids \<subseteq> set (all_servo_ids (probe_servo sid d))" using Cons.prems(2) by (simp add: only_more_dead_def)
  from Cons.IH [OF p(1) this] only_more_dead_trans [OF p(2)] show ?case by auto
qed simp

lemma classify_inv:
  assumes "probe_inv d"
  shows "ft_inv (classify_dead_servos d) \<and> only_more_dead d (classify_dead_servos d)"
proof -
  have "ft_inv (q\<lparr>sync_read_ids := filter (\<lambda>sid. sid \<notin> set (ft_dead_servo_ids q)) (all_servo_ids q),
            ft_last_failed_servo_id := break_point (ft_dead_servo_ids q)\<rparr>) \<and>
        only_more_dead d (q\<lparr>sync_read_ids := filter (\<lambda>sid. sid \<notin> set (ft_dead_servo_ids q)) (all_servo_ids q),
            ft_last_failed_servo_id := break_point (ft_dead_servo_ids q)\<rparr>)"
    if "probe_inv q \<and> only_more_dead d q" for q :: "'a ft_driver_scheme"
    using that by (auto simp: ft_inv_def probe_inv_def caches_sized_def only_more_dead_def)
  from this [of d] this [OF fold_probe_inv [OF assms, of "all_servo_ids d"]] show ?thesis
    using assms by (auto simp: classify_dead_servos_def Let_def)
qed

section \<open>The bulk read\<close>

text \<open>The five cached values of a slot, and what the feedback window encodes.\<close>

definition slot :: "'a ft_driver_scheme \<Rightarrow> nat \<Rightarrow> u16 \<times> int \<times> int \<times> u8 \<times> u8" where
  "slot d i = (pres_pos d ! i, pres_vel d ! i, pres_load d ! i, pres_temp d ! i, pres_status d ! i)"

definition decoded :: "u8 list \<Rightarrow> u16 \<times> int \<times> int \<times> u8 \<times> u8" where
  "decoded fb =
     (word_of_int (le16 (fb ! 0) (fb ! 1)),
      decode_sign_magnitude (word_of_int (le16 (fb ! 2) (fb ! 3))) kFtVelocitySignBit,
      decode_sign_magnitude (word_of_int (le16 (fb ! 4) (fb ! 5))) kFtLoadSignBit, fb ! 7, fb ! 9)"

text \<open>The status packets that follow one another in a byte stream, up to \<open>bs'\<close>.\<close>

fun answers :: "status list \<Rightarrow> u8 list \<Rightarrow> u8 list \<Rightarrow> bool" where
  "answers [] bs bs' \<longleftrightarrow> bs = bs'"
| "answers (f # fs) bs bs' \<longleftrightarrow>
     (case parse_status kFtBroadcastId kFtFeedbackLength bs of None \<Rightarrow> False | Some (g, cs) \<Rightarrow> g = f \<and> answers fs cs bs')"

abbreviation sid_of :: "status \<Rightarrow> int" where
  "sid_of f \<equiv> uint (fst f)"

lemma store_keeps:
  "all_servo_ids (store_feedback i fb d) = all_servo_ids d" "servo_num_total (store_feedback i fb d) = servo_num_total d"
  "caches_sized (store_feedback i fb d) = caches_sized d" "rx_stream (store_feedback i fb d) = rx_stream d"
  "probe_inv (store_feedback i fb d) = probe_inv d" "ft_inv (store_feedback i fb d) = ft_inv d"
  "only_more_dead c (store_feedback i fb d) = only_more_dead c d"
  by (simp_all add: store_feedback_def caches_sized_def probe_inv_def ft_inv_def only_more_dead_def rx_stream_def)

lemma slot_store:
  assumes "caches_sized d" "i < length (all_servo_ids d)"
  shows "slot (store_feedback i fb d) j = (if j = i then decoded fb else slot d j)"
  using assms by (simp add: slot_def store_feedback_def decoded_def caches_sized_def)

lemma collect_inv: "ft_inv d \<Longrightarrow> ft_inv (fst (collect idx n P d)) \<and> only_more_dead d (fst (collect idx n P d))"
proof (induction n arbitrary: P d)
  case (Suc n)
  obtain q rc st where r: "receive_status kFtBroadcastId kFtFeedbackLength kFtResponseTimeoutMs d = (q, rc, st)"
    by (metis prod_cases3)
  have q: "ft_inv q" "only_more_dead d q"
    using ft_inv_io [OF _ Suc.prems, of q] receive_status_io [of d kFtBroadcastId kFtFeedbackLength kFtResponseTimeoutMs]
    by (auto simp: r)
  have s: "ft_inv (store_feedback i fb q)" "only_more_dead d (store_feedback i fb q)" for i fb
    using q by (simp_all add: store_keeps)
  have "ft_inv (fst (collect idx n R (store_feedback i fb q))) \<and> only_more_dead d (fst (collect idx n R (store_feedback i fb q)))"
    for R i fb using Suc.IH [OF s(1), of R i fb] only_more_dead_trans [OF s(2)] by blast
  then show ?case using q by (auto simp: r Let_def split: option.split)
qed simp

lemma collect_success:
  assumes "collect idx n P d = (d', P', SUCCESS)" "caches_sized d" "inj_on idx P"
  shows "\<exists>fs. length fs = n \<and> answers fs (rx_stream d) (rx_stream d') \<and> distinct (map sid_of fs) \<and>
    set (map sid_of fs) \<subseteq> P \<and> P' = P - set (map sid_of fs) \<and>
    (\<forall>f \<in> set fs. 0 \<le> idx (sid_of f) \<and> slot d' (nat (idx (sid_of f))) = decoded (snd (snd f))) \<and>
    (\<forall>i. (\<forall>f \<in> set fs. nat (idx (sid_of f)) \<noteq> i) \<longrightarrow> slot d' i = slot d i)"
  using assms
proof (induction n arbitrary: P d)
  case 0
  then show ?case by (intro exI [of _ "[]"]) auto
next
  case (Suc n)
  obtain q rc st where r: "receive_status kFtBroadcastId kFtFeedbackLength kFtResponseTimeoutMs d = (q, rc, st)"
    by (metis prod_cases3)
  have rc: "rc = SUCCESS"
  proof (rule ccontr)
    assume "rc \<noteq> SUCCESS"
    moreover have "rc = SUCCESS \<or> st = None"
      using receive_status_result [OF r] by blast
    ultimately show False using Suc.prems(1) by (auto simp: r)
  qed
  obtain pid err fb where st: "st = Some (pid, err, fb)"
    "parse_status kFtBroadcastId kFtFeedbackLength (rx_stream d) = Some ((pid, err, fb), rx_stream q)"
    using receive_status_sound [OF r [unfolded rc]] by (metis prod_cases3)
  have io: "serial_io [] d q"
    using receive_status_io [of d kFtBroadcastId kFtFeedbackLength kFtResponseTimeoutMs] by (simp add: r)
  have size: "caches_sized q" "slot q = slot d" using Suc.prems(2) ft_io_fields [OF io]
    by (auto simp: caches_sized_def slot_def)
  let ?sid = "uint pid"
  let ?i = "idx ?sid"
  let ?s = "store_feedback (nat ?i) fb q"
  have g: "?sid \<in> P" "0 \<le> ?i" "?i < servo_num_total q" and c: "collect idx n (P - {?sid}) ?s = (d', P', SUCCESS)"
    using Suc.prems(1) by (auto simp: r st(1) Let_def split: if_splits)
  have i: "nat ?i < length (all_servo_ids q)" using g size(1) by (auto simp: caches_sized_def)
  note sl = slot_store [OF size(1) i, of fb]
  obtain fs where fs: "length fs = n" "answers fs (rx_stream ?s) (rx_stream d')" "distinct (map sid_of fs)"
    "set (map sid_of fs) \<subseteq> P - {?sid}" "P' = P - {?sid} - set (map sid_of fs)"
    "\<forall>f \<in> set fs. 0 \<le> idx (sid_of f) \<and> slot d' (nat (idx (sid_of f))) = decoded (snd (snd f))"
    "\<forall>i. (\<forall>f \<in> set fs. nat (idx (sid_of f)) \<noteq> i) \<longrightarrow> slot d' i = slot ?s i"
    using Suc.IH [OF c] Suc.prems(3) size(1) by (auto simp: store_keeps intro: inj_on_subset)
  have ne: "nat (idx (sid_of f)) \<noteq> nat ?i" if "f \<in> set fs" for f
  proof -
    have "sid_of f \<in> P" "sid_of f \<noteq> ?sid" using fs(4) that by auto
    then have "idx (sid_of f) \<noteq> ?i" using Suc.prems(3) g(1) by (auto dest: inj_onD)
    then show ?thesis using fs(6) that g(2) by auto
  qed
  have "slot d' (nat ?i) = decoded fb" using fs(7) ne sl by simp
  moreover have "slot d' j = slot d j" if "\<forall>f \<in> set fs. nat (idx (sid_of f)) \<noteq> j" "nat ?i \<noteq> j" for j
    using fs(7) that sl size(2) by simp
  ultimately show ?case using fs(1-6) g st(2)
    by (intro exI [of _ "(pid, err, fb) # fs"]) (auto simp: store_keeps)
qed

text \<open>The other direction: all the answers, one per servo in any order, arrive in time.\<close>

lemma answers_complete:
  assumes "fs = [] \<longrightarrow> bs = rest" "\<forall>f \<in> set fs. fst f \<noteq> kFtHeaderByte \<and> length (snd (snd f)) = kFtFeedbackLength"
    "bs = concat (map status_packet fs) @ rest"
  shows "answers fs bs rest"
  using assms
proof (induction fs arbitrary: bs)
  case (Cons f fs)
  obtain sid err fb where f: "f = (sid, err, fb)" by (metis prod_cases3)
  have "parse_status kFtBroadcastId kFtFeedbackLength bs = Some (f, concat (map status_packet fs) @ rest)"
    using parse_status_packet [of "[]" sid fb kFtFeedbackLength kFtBroadcastId err "concat (map status_packet fs) @ rest"]
      Cons.prems(2,3) by (simp add: f kFtFeedbackLength_def kFtMaxStatusParams_def)
  then show ?case using Cons.IH [of "concat (map status_packet fs) @ rest"] Cons.prems(2) by simp
qed simp

lemma on_time_store: "on_time T (store_feedback i fb d) = on_time T d" "answer_by T (store_feedback i fb d) = answer_by T d"
  by (simp_all add: on_time_def clean_by_def answer_by_def store_feedback_def)

lemma collect_complete:
  assumes "on_time T d" "T \<le> port_now d + 39000" "answers fs (answer_by T d) rest" "distinct (map sid_of fs)"
    "set (map sid_of fs) \<subseteq> P" "\<forall>f \<in> set fs. 0 \<le> idx (sid_of f) \<and> idx (sid_of f) < servo_num_total d"
  shows "\<exists>d'. collect idx (length fs) P d = (d', P - set (map sid_of fs), SUCCESS)"
  using assms
proof (induction fs arbitrary: P d)
  case (Cons f fs)
  obtain sid err fb where f: "f = (sid, err, fb)" by (metis prod_cases3)
  obtain cs where cs: "parse_status kFtBroadcastId kFtFeedbackLength (answer_by T d) = Some (f, cs)" "answers fs cs rest"
    using Cons.prems(3) by (auto split: option.splits)
  obtain q where q: "receive_status kFtBroadcastId kFtFeedbackLength kFtResponseTimeoutMs d = (q, SUCCESS, Some f)"
    "on_time T q" "answer_by T q = cs"
    using receive_status_complete [of kFtFeedbackLength T d kFtResponseTimeoutMs kFtBroadcastId f cs] cs(1) Cons.prems(1,2)
    by (auto simp: kFtFeedbackLength_def kFtMaxStatusParams_def kFtResponseTimeoutMs_def)
  have io: "serial_io [] d q"
    using receive_status_io [of d kFtBroadcastId kFtFeedbackLength kFtResponseTimeoutMs] by (simp add: q(1))
  let ?s = "store_feedback (nat (idx (uint sid))) fb q"
  have "\<exists>d'. collect idx (length fs) (P - {uint sid}) ?s = (d', (P - {uint sid}) - set (map sid_of fs), SUCCESS)"
  proof (rule Cons.IH)
    show "T \<le> port_now ?s + 39000" using Cons.prems(2) serial_io_fields [OF io] by (simp add: store_feedback_def)
    show "set (map sid_of fs) \<subseteq> P - {uint sid}" using Cons.prems(4,5) by (simp add: f subset_Diff_insert)
  qed (use q(2,3) cs(2) Cons.prems(4-6) ft_io_fields(5) [OF io] in \<open>auto simp: on_time_store f store_keeps\<close>)
  moreover have "P - {uint sid} - set (map sid_of fs) = P - set (map sid_of (f # fs))" by (auto simp: f)
  ultimately show ?case using Cons.prems(5,6) ft_io_fields(5) [OF io] by (simp add: q(1) f Let_def)
qed simp

lemma group_read_inv:
  assumes "ft_inv d" "ft_group_read_hardware_values idx d = (d', rc)"
  shows "ft_inv d' \<and> only_more_dead d d'"
proof (cases "\<not> port_open d \<or> all_servo_ids d = [] \<or> sync_read_ids d = [] \<or>
    kFtMaxInstructionParams < 2 + length (sync_read_ids d)")
  case True
  then show ?thesis using assms by (auto simp: ft_group_read_hardware_values_def split: if_splits)
next
  case False
  let ?req = "[kFtAddrPresentPosition, of_nat kFtFeedbackLength] @ map word_of_int (sync_read_ids d)"
  obtain q r1 where q: "send_instruction kFtBroadcastId kFtInstSyncRead ?req (flush_input d) = (q, r1)" by fastforce
  have "\<exists>out. serial_io out d q"
    using serial_io_ex_trans [OF exI [of _ "[]"] send_instruction_io, OF flush_input_io] by (metis q fst_conv)
  from ft_inv_io [OF this assms(1)] have iq: "ft_inv q" "only_more_dead d q" by auto
  obtain r P r2 where r: "collect idx (length (sync_read_ids q)) (set (sync_read_ids q)) q = (r, P, r2)" by (metis prod_cases3)
  have ir: "ft_inv r" "only_more_dead d r" using collect_inv [OF iq(1)] only_more_dead_trans [OF iq(2)] by (metis r fst_conv)+
  have fl: "ft_inv (flush_input r)" "only_more_dead d (flush_input r)"
    using ft_inv_io [OF _ ir(1), of "flush_input r"] flush_input_io [of r] only_more_dead_trans [OF ir(2)] by blast+
  then have "probe_inv (flush_input r)" by (simp add: ft_inv_def probe_inv_def)
  from classify_inv [OF this] have c: "ft_inv (classify_dead_servos (flush_input r))"
    "only_more_dead d (classify_dead_servos (flush_input r))" using only_more_dead_trans [OF fl(2)] by blast+
  have done_ok: "ft_inv (r\<lparr>ft_last_failed_servo_id := break_point (ft_dead_servo_ids r)\<rparr>)"
    "only_more_dead d (r\<lparr>ft_last_failed_servo_id := break_point (ft_dead_servo_ids r)\<rparr>)"
    using ir by (simp_all add: ft_inv_def caches_sized_def only_more_dead_def)
  show ?thesis using assms(2) False iq c done_ok
    by (auto simp: ft_group_read_hardware_values_def q [simplified] r Let_def split: if_splits)
qed

lemma group_write_inv:
  assumes "ft_inv d" "ft_group_write_hardware_values d = (d', rc)"
  shows "ft_inv d' \<and> only_more_dead d d'"
proof -
  obtain q r1 where q: "sync_write kFtAddrTorqueLimit 2 (pending_torque_limit d) d = (q, r1)" by fastforce
  have "\<exists>out. serial_io out d q" using sync_write_wire [OF q] by blast
  from ft_inv_io [OF this assms(1)] have iq: "ft_inv q" "only_more_dead d q" by auto
  let ?q = "q\<lparr>pending_torque_limit := []\<rparr>"
  obtain r r2 where r: "sync_write kFtAddrGoalPosition 2 (pending_goal_position ?q) ?q = (r, r2)" by fastforce
  have dq: "ft_inv ?q" "only_more_dead d ?q" "ft_inv (?q\<lparr>pending_goal_position := []\<rparr>)"
    "only_more_dead d (?q\<lparr>pending_goal_position := []\<rparr>)"
    using iq by (simp_all add: ft_inv_def caches_sized_def only_more_dead_def queue_ok_def)
  have "\<exists>out. serial_io out ?q r" using sync_write_wire [OF r] by blast
  from ft_inv_io [OF this dq(1)] have "ft_inv r" "only_more_dead d r" using only_more_dead_trans [OF dq(2)] by auto
  then have "ft_inv (r\<lparr>pending_goal_position := []\<rparr>)" "only_more_dead d (r\<lparr>pending_goal_position := []\<rparr>)"
    by (simp_all add: ft_inv_def caches_sized_def only_more_dead_def queue_ok_def)
  then show ?thesis using assms dq
    by (auto simp: ft_group_write_hardware_values_def q [simplified] r [simplified] Let_def split: if_splits)
qed

lemma write_bytes_ok:
  "port_open p \<Longrightarrow> tx_script p = [] \<Longrightarrow> bs \<noteq> [] \<Longrightarrow>
   write_bytes (Some bs) p = (p\<lparr>tx_script := [], tx_wire := tx_wire p @ bs\<rparr>, SUCCESS)"
  by (cases bs) (simp_all add: write_bytes_def)

lemma group_read_success:
  assumes "ft_inv d" "ft_group_read_hardware_values idx d = (d', SUCCESS)" "all_servo_ids d \<noteq> []"
    "inj_on idx (set (sync_read_ids d))"
  shows "\<exists>fs. answers fs (rx_stream (flush_input d)) (rx_stream d') \<and> set (map sid_of fs) = set (sync_read_ids d) \<and>
    (\<forall>f \<in> set fs. slot d' (nat (idx (sid_of f))) = decoded (snd (snd f))) \<and>
    (\<forall>i. i \<notin> (\<lambda>sid. nat (idx sid)) ` set (sync_read_ids d) \<longrightarrow> slot d' i = slot d i)"
proof -
  let ?req = "[kFtAddrPresentPosition, of_nat kFtFeedbackLength] @ map word_of_int (sync_read_ids d)"
  obtain q r1 where q: "send_instruction kFtBroadcastId kFtInstSyncRead ?req (flush_input d) = (q, r1)" by fastforce
  obtain out where io: "serial_io out (flush_input d) q" "rx_stream q = rx_stream (flush_input d)"
    using send_instruction_wire [OF q] by blast
  note fq = ft_io_fields [OF serial_io_silent [OF flush_input_io io(1)]]
  obtain r P r2 where r: "collect idx (length (sync_read_ids q)) (set (sync_read_ids q)) q = (r, P, r2)" by (metis prod_cases3)
  have ok: "r2 = SUCCESS" "P = {}" "d' = r\<lparr>ft_last_failed_servo_id := break_point (ft_dead_servo_ids r)\<rparr>"
    using assms(2,3) by (auto simp: ft_group_read_hardware_values_def q [simplified] r Let_def split: if_splits)
  have sz: "caches_sized q" "slot q = slot d" using assms(1) fq by (auto simp: ft_inv_def caches_sized_def slot_def)
  obtain fs where fs: "answers fs (rx_stream q) (rx_stream r)" "set (map sid_of fs) \<subseteq> set (sync_read_ids d)"
    "{} = set (sync_read_ids d) - set (map sid_of fs)"
    "\<forall>f \<in> set fs. slot r (nat (idx (sid_of f))) = decoded (snd (snd f))"
    "\<forall>i. (\<forall>f \<in> set fs. nat (idx (sid_of f)) \<noteq> i) \<longrightarrow> slot r i = slot q i"
    using collect_success [OF r [unfolded ok(1,2)] sz(1)] assms(4) unfolding fq(2) by blast
  have d': "slot d' = slot r" "rx_stream d' = rx_stream r" by (auto simp: ok(3) slot_def rx_stream_def)
  have "set (map sid_of fs) = set (sync_read_ids d)" using fs(2,3) by blast
  moreover have "\<forall>i. i \<notin> (\<lambda>sid. nat (idx sid)) ` set (sync_read_ids d) \<longrightarrow> slot r i = slot q i"
  proof (intro allI impI)
    fix i
    assume i: "i \<notin> (\<lambda>sid. nat (idx sid)) ` set (sync_read_ids d)"
    have "nat (idx (sid_of f)) \<noteq> i" if "f \<in> set fs" for f
    proof -
      have "sid_of f \<in> set (sync_read_ids d)" using fs(2) that by auto
      then show ?thesis using i by blast
    qed
    then show "slot r i = slot q i" using fs(5) by blast
  qed
  ultimately show ?thesis using fs(1,4) io(2) sz(2) by (auto simp: d')
qed

lemma group_read_answered:
  assumes "port_open d" "tx_script d = []" "all_servo_ids d \<noteq> []" "sync_read_ids d \<noteq> []" "length (sync_read_ids d) \<le> 56"
    "distinct (sync_read_ids d)" "on_time T (flush_input d)" "T \<le> port_now d + 39000"
    "answer_by T (flush_input d) = concat (map status_packet fs) @ rest"
    "distinct (map sid_of fs)" "set (map sid_of fs) = set (sync_read_ids d)"
    "\<forall>f \<in> set fs. fst f \<noteq> kFtHeaderByte \<and> length (snd (snd f)) = kFtFeedbackLength \<and>
       0 \<le> idx (sid_of f) \<and> idx (sid_of f) < servo_num_total d"
  shows "snd (ft_group_read_hardware_values idx d) = SUCCESS"
proof -
  let ?req = "[kFtAddrPresentPosition, of_nat kFtFeedbackLength] @ map word_of_int (sync_read_ids d)"
  let ?f = "flush_input d"
  let ?q = "?f\<lparr>tx_script := [], tx_wire := tx_wire ?f @ instruction_packet kFtBroadcastId kFtInstSyncRead ?req\<rparr>"
  have f: "port_open ?f" "tx_script ?f = []" "port_now ?f = port_now d" "sync_read_ids ?f = sync_read_ids d"
    "servo_num_total ?f = servo_num_total d"
    using assms(1,2) by (auto simp: flush_input_def tcflush_input_def)
  have q: "send_instruction kFtBroadcastId kFtInstSyncRead ?req ?f = (?q, SUCCESS)"
    using write_bytes_ok [OF f(1,2), of "instruction_packet kFtBroadcastId kFtInstSyncRead ?req"] assms(5)
    by (simp add: send_instruction_def kFtMaxInstructionParams_def kFtTxBufCapacity_def kFtInstructionOverhead_def
        instruction_packet_def Let_def)
  have a: "answers fs (answer_by T ?q) rest"
    using answers_complete [of fs "answer_by T ?f" rest] assms(9,12) by (auto simp: answer_by_def)
  have len: "length (sync_read_ids d) = length fs"
    using assms(6,10,11) by (metis distinct_card length_map)
  obtain d' where "collect idx (length fs) (set (sync_read_ids d)) ?q = (d', set (sync_read_ids d) - set (map sid_of fs), SUCCESS)"
    using collect_complete [OF _ _ a assms(10), of "set (sync_read_ids d)" idx] assms(7,8,11,12) f
    by (auto simp: on_time_def clean_by_def)
  then have "collect idx (length (sync_read_ids ?q)) (set (sync_read_ids ?q)) ?q = (d', {}, SUCCESS)"
    using assms(11) len f(4) by simp
  then show ?thesis using assms(1,3,4,5) q
    by (simp add: ft_group_read_hardware_values_def kFtMaxInstructionParams_def kFtTxBufCapacity_def
        kFtInstructionOverhead_def Let_def)
qed

lemma ft_open_inv:
  assumes "ft_open e name (Some ids) idx baud d = (d', SUCCESS)"
  shows "ft_inv d' \<and> all_servo_ids d' = ids"
proof -
  obtain q rc where q: "serial_open e name baud d = (q, rc)" by fastforce
  let ?n = "length ids"
  let ?q = "q\<lparr>all_servo_ids := ids, sync_read_ids := ids, ft_dead_servo_ids := [],
              ft_last_failed_servo_id := -1, servo_num_total := int ?n,
              pres_pos := replicate ?n 0, pres_vel := replicate ?n 0, pres_load := replicate ?n 0,
              pres_temp := replicate ?n 0, pres_status := replicate ?n 0,
              pending_goal_position := [], pending_torque_limit := []\<rparr>"
  have i: "ft_inv ?q" by (simp add: ft_inv_def caches_sized_def break_point_def queue_ok_def)
  obtain r rc2 where r: "ft_group_read_hardware_values idx ?q = (r, rc2)" by fastforce
  have "d' = ?q \<or> d' = r" using assms by (auto simp: ft_open_def q r Let_def split: if_splits)
  then show ?thesis using i group_read_inv [OF i r] by (auto simp: only_more_dead_def)
qed

section \<open>Runs of the driver\<close>

text \<open>The calls a device and its servos make between \<^verbatim>\<open>open\<close> and the end; the servo pointer may be null.\<close>

datatype ft_call =
    FtGroupRead
  | FtGroupWrite
  | FtEnableTorque "int option" bool
  | FtOperatingMode "int option" u8
  | FtPositionPid "int option" flt flt flt
  | FtAcceleration "int option" u8
  | FtGoalDirect "int option" int
  | FtGoalGroup "int option" int
  | FtTorqueGroup "int option" int
  | FtDiscard "int option"
  | FtGetTorque "int option"
  | FtGetPosition "int option"
  | FtSyncGoal "int option"
  | FtSleep nat
  | FtClose

fun ft_exec :: "(int \<Rightarrow> int) \<Rightarrow> ft_call \<Rightarrow> 'a ft_driver_scheme \<Rightarrow> 'a ft_driver_scheme option" where
  "ft_exec idx FtGroupRead d = Some (fst (ft_group_read_hardware_values idx d))"
| "ft_exec idx FtGroupWrite d = Some (fst (ft_group_write_hardware_values d))"
| "ft_exec idx (FtEnableTorque s e) d = Some (fst (enable_torque s e d))"
| "ft_exec idx (FtOperatingMode s m) d = Some (fst (set_operating_mode s m d))"
| "ft_exec idx (FtPositionPid s kp ki kd) d = map_option fst (set_position_pid s kp ki kd d)"
| "ft_exec idx (FtAcceleration s a) d = Some (fst (set_acceleration s a d))"
| "ft_exec idx (FtGoalDirect s g) d = Some (fst (set_goal_position_direct s g d))"
| "ft_exec idx (FtGoalGroup s g) d = Some (fst (set_goal_position_group s g d))"
| "ft_exec idx (FtTorqueGroup s t) d = Some (fst (set_torque_limit_group s t d))"
| "ft_exec idx (FtDiscard s) d = Some (discard_pending_group_writes s d)"
| "ft_exec idx (FtGetTorque s) d = Some (fst (get_torque_enabled s d))"
| "ft_exec idx (FtGetPosition s) d = Some (fst (get_present_position s d))"
| "ft_exec idx (FtSyncGoal s) d = Some (fst (sync_goal_position_to_present s d))"
| "ft_exec idx (FtSleep us) d = Some (elapse us d)"
| "ft_exec idx FtClose d = Some (fst (ft_close d))"

fun ft_run :: "(int \<Rightarrow> int) \<Rightarrow> ft_call list \<Rightarrow> 'a ft_driver_scheme \<Rightarrow> 'a ft_driver_scheme option" where
  "ft_run idx [] d = Some d"
| "ft_run idx (c # cs) d = (case ft_exec idx c d of None \<Rightarrow> None | Some d' \<Rightarrow> ft_run idx cs d')"

text \<open>The register operations touch nothing but the port.\<close>

lemma with_servo_io:
  "(\<And>sid. \<exists>out. serial_io out d (fst (f sid d))) \<Longrightarrow> \<exists>out. serial_io out d (fst (with_servo s f d))"
  by (cases s) (simp_all add: with_servo_def)

lemma register_ops_io:
  "\<exists>out. serial_io out d (fst (enable_torque s e d))"
  "\<exists>out. serial_io out d (fst (set_operating_mode s m d))"
  "\<exists>out. serial_io out d (fst (set_acceleration s a d))"
  "\<exists>out. serial_io out d (fst (set_goal_position_direct s g d))"
  unfolding enable_torque_def set_operating_mode_def set_acceleration_def set_goal_position_direct_def
  by (rule with_servo_io, rule write_register_io)+

lemma register_reads_io:
  "\<exists>out. serial_io out d (fst (get_torque_enabled s d))"
  "\<exists>out. serial_io out d (fst (get_present_position s d))"
  by (cases s; simp add: get_torque_enabled_def get_present_position_def read_register_io)+

lemma sync_goal_io: "\<exists>out. serial_io out d (fst (sync_goal_position_to_present s d))"
proof -
  obtain q rc v where q: "get_present_position s d = (q, rc, v)" by (metis prod_cases3)
  have 1: "\<exists>out. serial_io out d q" using register_reads_io(2) [of d s] by (simp add: q)
  have 2: "\<exists>out. serial_io out d (fst (set_goal_position_direct s g q))" for g
    by (rule serial_io_ex_trans [OF 1 register_ops_io(4)])
  show ?thesis using 1 2 by (auto simp: sync_goal_position_to_present_def q)
qed

lemma write_gain_io:
  assumes "\<And>q. cont q = Some (d', rc) \<Longrightarrow> \<exists>out. serial_io out q d'" "write_gain sid addr gain cont d = Some (d', rc)"
  shows "\<exists>out. serial_io out d d'"
proof -
  obtain v where v: "to_gain_byte gain = Some v" using assms(2) by (auto simp: write_gain_def split: option.splits)
  obtain q r where q: "write_register sid addr v 1 d = (q, r)" by fastforce
  have 1: "\<exists>out. serial_io out d q" using write_register_io [of d sid addr v 1] by (simp only: q fst_conv)
  show ?thesis using assms(2) 1 serial_io_ex_trans [OF 1 assms(1)]
    by (auto simp: write_gain_def v q [simplified] split: if_splits)
qed

lemma pid_io: "set_position_pid s kp ki kd d = Some (d', rc) \<Longrightarrow> \<exists>out. serial_io out d d'"
proof (cases s)
  case None
  then show "set_position_pid s kp ki kd d = Some (d', rc) \<Longrightarrow> ?thesis" by (simp add: set_position_pid_def)
next
  case (Some sid)
  assume "set_position_pid s kp ki kd d = Some (d', rc)"
  then show ?thesis unfolding set_position_pid_def Some option.case
    by (rule write_gain_io [rotated]) (erule write_gain_io [rotated], erule write_gain_io [rotated], simp)
qed

text \<open>What every operation that only uses the port has in common.\<close>

locale port_operation =
  fixes op :: "'a ft_driver_scheme \<Rightarrow> 'a ft_driver_scheme"
  assumes io: "\<exists>out. serial_io out d (op d)"
begin

lemma keeps: "ft_inv d \<Longrightarrow> ft_inv (op d) \<and> only_more_dead d (op d)"
  by (rule ft_inv_io [OF io])

lemma queues: "pending_goal_position (op d) = pending_goal_position d" "pending_torque_limit (op d) = pending_torque_limit d"
  using io [of d] ft_io_fields(11,12) by blast+

end

interpretation torque_op: port_operation "\<lambda>d. fst (enable_torque s e d)" for s e
  by unfold_locales (rule register_ops_io)

interpretation mode_op: port_operation "\<lambda>d. fst (set_operating_mode s m d)" for s m
  by unfold_locales (rule register_ops_io)

interpretation acceleration_op: port_operation "\<lambda>d. fst (set_acceleration s a d)" for s a
  by unfold_locales (rule register_ops_io)

interpretation goal_op: port_operation "\<lambda>d. fst (set_goal_position_direct s g d)" for s g
  by unfold_locales (rule register_ops_io)

interpretation torque_read_op: port_operation "\<lambda>d. fst (get_torque_enabled s d)" for s
  by unfold_locales (rule register_reads_io)

interpretation position_read_op: port_operation "\<lambda>d. fst (get_present_position s d)" for s
  by unfold_locales (rule register_reads_io)

interpretation sync_goal_op: port_operation "\<lambda>d. fst (sync_goal_position_to_present s d)" for s
  by unfold_locales (rule sync_goal_io)

interpretation sleep_op: port_operation "elapse us" for us
  by unfold_locales (blast intro: elapse_io)

lemmas port_operations_keep = torque_op.keeps mode_op.keeps acceleration_op.keeps goal_op.keeps torque_read_op.keeps
  position_read_op.keeps sync_goal_op.keeps sleep_op.keeps

lemma close_inv: "ft_inv d \<Longrightarrow> ft_inv (fst (ft_close d)) \<and> only_more_dead d (fst (ft_close d))"
  by (simp add: ft_close_def serial_close_def serial_stop_reception_def ft_inv_def caches_sized_def only_more_dead_def Let_def)

lemma clamp_int_range: "lo \<le> hi \<Longrightarrow> lo \<le> clamp_int lo hi v \<and> clamp_int lo hi v \<le> hi"
  by (simp add: clamp_int_def Let_def)

lemma clamped_word:
  assumes "0 \<le> lo" "lo \<le> hi" "hi < 65536"
  shows "uint (word_of_int (clamp_int lo hi v) :: u16) = clamp_int lo hi v"
  using clamp_int_range [OF assms(2), of v] assms by (simp add: uint_word_of_int take_bit_int_eq_self)

lemma queue_inv:
  assumes "ft_inv d"
  shows "ft_inv (fst (set_goal_position_group s g d)) \<and> only_more_dead d (fst (set_goal_position_group s g d))"
    "ft_inv (fst (set_torque_limit_group s t d)) \<and> only_more_dead d (fst (set_torque_limit_group s t d))"
    "ft_inv (discard_pending_group_writes s d) \<and> only_more_dead d (discard_pending_group_writes s d)"
  using assms clamped_word [of kFtGoalPositionMin kFtGoalPositionMax g] clamped_word [of kFtTorqueLimitMin kFtTorqueLimitMax t]
    clamp_int_range [of kFtGoalPositionMin kFtGoalPositionMax g] clamp_int_range [of kFtTorqueLimitMin kFtTorqueLimitMax t]
  by (cases s; simp add: set_goal_position_group_def set_torque_limit_group_def discard_pending_group_writes_def with_servo_def
      ft_inv_def caches_sized_def only_more_dead_def queue_ok_def kFtGoalPositionMin_def kFtGoalPositionMax_def
      kFtTorqueLimitMin_def kFtTorqueLimitMax_def)+

lemma ft_exec_inv: "ft_inv d \<Longrightarrow> ft_exec idx c d = Some d' \<Longrightarrow> ft_inv d' \<and> only_more_dead d d'"
proof (cases c)
  case FtGroupRead
  assume "ft_inv d" "ft_exec idx c d = Some d'"
  then show ?thesis using group_read_inv [of d idx d'] FtGroupRead by (metis ft_exec.simps(1) option.inject prod.collapse)
next
  case FtGroupWrite
  assume "ft_inv d" "ft_exec idx c d = Some d'"
  then show ?thesis using group_write_inv [of d d'] FtGroupWrite by (metis ft_exec.simps(2) option.inject prod.collapse)
next
  case (FtPositionPid s kp ki kd)
  assume "ft_inv d" "ft_exec idx c d = Some d'"
  then show ?thesis using ft_inv_io [of d d'] pid_io [of s kp ki kd d d'] FtPositionPid by auto
qed (auto simp: queue_inv close_inv port_operations_keep)

lemma ft_run_inv: "ft_inv d \<Longrightarrow> ft_run idx cs d = Some d' \<Longrightarrow> ft_inv d' \<and> only_more_dead d d'"
proof (induction cs arbitrary: d)
  case (Cons c cs)
  then obtain q where q: "ft_exec idx c d = Some q" "ft_run idx cs q = Some d'" by (auto split: option.splits)
  then show ?case using Cons.IH [of q] ft_exec_inv [OF Cons.prems(1) q(1)] only_more_dead_trans by blast
qed simp

section \<open>A servo on the bus\<close>

text \<open>A bus with the servo of id 1: its answer to the bulk read comes in two pieces.\<close>

definition quiet_port :: "(nat \<times> rx_event) list \<Rightarrow> ft_driver" where
  "quiet_port script =
     \<lparr>port_open = False, port_fds = 0, port_now = 0, rx_queue = [], rx_error = False, rx_script = script, tx_script = [],
      tx_wire = [], is_running = False, all_servo_ids = [], sync_read_ids = [], ft_dead_servo_ids = [],
      ft_last_failed_servo_id = -1, servo_num_total = 0, pres_pos = [], pres_vel = [], pres_load = [], pres_temp = [],
      pres_status = [], pending_goal_position = [], pending_torque_limit = []\<rparr>"

definition good_env :: serial_env where
  "good_env = \<lparr>fd_ok = True, tcgetattr_ok = True, tcsetattr_ok = True, modem_get_ok = False, modem_set_ok = False\<rparr>"

definition sample_answer :: status where
  "sample_answer = (1, 0, [0x00, 0x08, 0x05, 0x80, 0x0A, 0x04, 120, 35, 0, 0])"

definition sample_script :: "(nat \<times> rx_event) list" where
  "sample_script =
     [(1000, Arrives (take 6 (status_packet sample_answer))), (3000, Arrives (drop 6 (status_packet sample_answer)))]"

definition sample_bus :: ft_driver where
  "sample_bus = (quiet_port sample_script)\<lparr>port_open := True, port_fds := 1, all_servo_ids := [1], sync_read_ids := [1],
     servo_num_total := 1, pres_pos := [0], pres_vel := [0], pres_load := [0], pres_temp := [0], pres_status := [0]\<rparr>"

lemma sample_bus_inv: "ft_inv sample_bus"
  by (simp add: sample_bus_def quiet_port_def ft_inv_def caches_sized_def break_point_def queue_ok_def)

lemma sample_bus_on_time: "on_time 39000 (flush_input sample_bus)"
  "answer_by 39000 (flush_input sample_bus) = status_packet sample_answer"
  by (simp_all add: sample_bus_def quiet_port_def sample_script_def flush_input_def tcflush_input_def on_time_def
      clean_by_def answer_by_def)

lemma sample_bus_reads: "snd (ft_group_read_hardware_values (\<lambda>i. 0) sample_bus) = SUCCESS"
  by (rule group_read_answered [where T = 39000 and fs = "[sample_answer]" and rest = "[]"])
    (simp_all add: sample_bus_on_time, simp_all add: sample_bus_def quiet_port_def sample_answer_def kFtHeaderByte_def
      kFtFeedbackLength_def)

lemma sample_bus_opens:
  "\<exists>d. ft_open good_env ''/dev/ttyACM0'' (Some [1]) (\<lambda>i. 0) 1000000 (quiet_port sample_script) = (d, SUCCESS)"
proof -
  have "serial_open good_env ''/dev/ttyACM0'' 1000000 (quiet_port sample_script) =
      ((quiet_port sample_script)\<lparr>port_open := True, port_fds := 1\<rparr>, SUCCESS)"
    by (simp add: serial_open_def baud_constant_def good_env_def raise_modem_lines_def tcflush_input_def quiet_port_def)
  moreover have "(quiet_port sample_script)\<lparr>port_open := True, port_fds := 1, all_servo_ids := [1], sync_read_ids := [1],
      ft_dead_servo_ids := [], ft_last_failed_servo_id := -1, servo_num_total := 1, pres_pos := [0], pres_vel := [0],
      pres_load := [0], pres_temp := [0], pres_status := [0], pending_goal_position := [], pending_torque_limit := []\<rparr> = sample_bus"
    by (simp add: sample_bus_def quiet_port_def)
  ultimately show ?thesis using sample_bus_reads
    by (cases "ft_group_read_hardware_values (\<lambda>i. 0) sample_bus") (simp add: ft_open_def Let_def)
qed

text \<open>A transaction that servo 1 answers in time.\<close>

definition reply_at :: "nat \<Rightarrow> u8 list \<Rightarrow> nat \<times> rx_event" where
  "reply_at dt params = (dt, Arrives (status_packet (1, 0, params)))"

lemma reply_bytes:
  "length params \<le> kFtMaxStatusParams \<Longrightarrow> unat (of_nat (length params + 2) :: u8) = length params + 2"
  using unat_of_nat [where ?'a = 8, of "length params + 2"] by (simp only: kFtMaxStatusParams_def) simp

lemma answered_once:
  assumes "port_open p" "\<not> rx_error p" "tx_script p = []" "rx_script p = reply_at dt params # s" "dt \<le> 39000"
    "length ps \<le> 58" "length params = n" "n \<le> kFtMaxStatusParams"
  shows "txrx_instruction 1 i ps n p = (p\<lparr>port_now := port_now p + dt, rx_queue := [], rx_script := s,
     tx_script := [], tx_wire := tx_wire p @ instruction_packet 1 i ps\<rparr>, SUCCESS, Some (1, 0, params))"
proof -
  let ?f = "flush_input p"
  let ?q = "?f\<lparr>tx_script := [], tx_wire := tx_wire ?f @ instruction_packet 1 i ps\<rparr>"
  let ?len = "of_nat (n + 2) :: u8"
  let ?c = "ft_checksum (1 # ?len # 0 # params)"
  let ?h = "?q\<lparr>port_now := port_now p + dt, rx_queue := ?len # 0 # params @ [?c], rx_script := s\<rparr>"
  have pk: "status_packet (1, 0, params) = kFtHeaderByte # kFtHeaderByte # 1 # ?len # 0 # params @ [?c]"
    using assms(7) by (simp add: status_packet_def Let_def)
  have s: "send_instruction 1 i ps ?f = (?q, SUCCESS)"
    using write_bytes_ok [of ?f "instruction_packet 1 i ps"] assms
    by (simp add: send_instruction_def kFtMaxInstructionParams_def kFtTxBufCapacity_def kFtInstructionOverhead_def
        instruction_packet_def Let_def flush_input_def tcflush_input_def)
  have one: "(1 :: u8) \<noteq> kFtHeaderByte" by (simp add: kFtHeaderByte_def)
  have left: "0 < (40000 - dt) div 1000" "\<not> 40000 \<le> dt" using assms(5) by auto
  have h: "sync_header (port_now p + 40000) 0 ?q = (?h, Some 1)"
    using assms(1-5) one left
    by (simp add: sync_header.simps remaining_ms_def read_arrival read_queued flush_input_def tcflush_input_def reply_at_def pk)
  have "receive_status 1 n 40 ?q = (?h\<lparr>rx_queue := []\<rparr>, SUCCESS, Some (1, 0, params))"
    using assms h reply_bytes [of params]
    by (simp add: receive_status_def Let_def flush_input_def tcflush_input_def read_queued receive_body_def
       status_sum_checksum nth_append del: of_nat_add)
  then show ?thesis using s assms
    by (simp add: txrx_instruction_def kFtSingleRegMaxAttempts_def numeral_3_eq_3 kFtResponseTimeoutMs_def
       flush_input_def tcflush_input_def)
qed

definition answering :: "u8 list list \<Rightarrow> ft_driver" where
  "answering replies = sample_bus\<lparr>rx_script := map (reply_at 20000) replies\<rparr>"

text \<open>A port on which these replies are due, the first one after more than \<open>m\<close> microseconds.\<close>

definition ready_port :: "nat \<Rightarrow> u8 list list \<Rightarrow> ft_driver \<Rightarrow> bool" where
  "ready_port m replies p \<longleftrightarrow> port_open p \<and> \<not> rx_error p \<and> tx_script p = [] \<and>
     (case replies of
        [] \<Rightarrow> rx_script p = []
      | r # rs \<Rightarrow> (\<exists>dt. m < dt \<and> dt \<le> 39000 \<and> rx_script p = reply_at dt r # map (reply_at 20000) rs))"

lemma ready_rest:
  "port_open p \<Longrightarrow> \<not> rx_error p \<Longrightarrow> tx_script p = [] \<Longrightarrow> rx_script p = map (reply_at 20000) replies \<Longrightarrow>
   ready_port 19999 replies p"
  by (cases replies) (auto simp: ready_port_def)

lemma ready_answering: "ready_port 19999 replies (answering replies)"
  by (rule ready_rest) (simp_all add: answering_def sample_bus_def quiet_port_def)

lemma ready_sleep: "ready_port m replies p \<Longrightarrow> us \<le> m \<Longrightarrow> ready_port (m - us) replies (elapse us p)"
  by (subst elapse.simps) (auto simp: ready_port_def reply_at_def split: list.splits)

lemma ready_answered:
  assumes "ready_port m (params # replies) p" "length ps \<le> 58" "length params = n" "n \<le> kFtMaxStatusParams"
  shows "\<exists>q. txrx_instruction 1 i ps n p = (q, SUCCESS, Some (1, 0, params)) \<and> ready_port 19999 replies q"
proof -
  obtain dt where dt: "dt \<le> 39000" "rx_script p = reply_at dt params # map (reply_at 20000) replies"
    and p: "port_open p" "\<not> rx_error p" "tx_script p = []" using assms(1) by (auto simp: ready_port_def)
  show ?thesis using answered_once [OF p dt(2,1) assms(2-4)] p ready_rest by auto
qed

lemma write_acked:
  assumes "ready_port m ([] # replies) p" "len = 1 \<or> len = 2"
  shows "\<exists>q. write_register_raw 1 addr v len p = (q, SUCCESS) \<and> ready_port 19999 replies q"
  using ready_answered [OF assms(1), of "write_params addr v len" 0 kFtInstWrite] assms(2)
  by (auto simp: write_register_raw_def write_params_def)

lemma read_answered:
  assumes "ready_port m (params # replies) p" "length params = len" "len = 1 \<or> len = 2"
  shows "\<exists>q. read_register 1 addr len p = (q, SUCCESS, register_value (Some (1, 0, params))) \<and> ready_port 19999 replies q"
  using ready_answered [OF assms(1), of "[addr, of_nat len]" len kFtInstRead] assms(2,3)
  by (auto simp: read_register_def kFtMaxStatusParams_def)

lemma sram_write_acked:
  assumes "ready_port m ([] # replies) p" "len = 1 \<or> len = 2" "kFtSramStartAddr \<le> addr"
  shows "\<exists>q. write_register 1 addr v len p = (q, SUCCESS) \<and> ready_port 19999 replies q"
  using write_acked [OF assms(1,2)] assms(3) by (simp add: write_register_def)

lemma eeprom_write_acked:
  assumes "ready_port m ([] # [] # [] # replies) p" "len = 1 \<or> len = 2" "addr < kFtSramStartAddr"
  shows "\<exists>q. write_register 1 addr v len p = (q, SUCCESS) \<and> ready_port 19999 replies q"
proof -
  obtain a where a: "write_register_raw 1 kFtAddrLockFlag kFtLockFlagUnlocked (Suc 0) p = (a, SUCCESS)"
    "ready_port 19999 ([] # [] # replies) a"
    using write_acked [OF assms(1), of 1] by auto
  obtain b where b: "write_register_raw 1 addr v len a = (b, SUCCESS)" "ready_port 19999 ([] # replies) b"
    using write_acked [OF a(2) assms(2)] by blast
  obtain c where c: "write_register_raw 1 kFtAddrLockFlag kFtLockFlagLocked (Suc 0) b = (c, SUCCESS)"
    "ready_port 19999 replies c"
    using write_acked [OF b(2), of 1] by auto
  show ?thesis using a b c assms(3) [folded not_le] by (simp add: write_register_def)
qed

section \<open>Properties\<close>

text \<open>C10: an accepted status is on the wire. When \<open>receive_status\<close> reports success, the bytes it consumed are noise followed
  by exactly one complete packet with header, length, parameters of the expected size and correct checksum, from the
  expected servo; the result is that packet's content and everything behind it is still to be read.\<close>

theorem accepted_status_is_on_the_wire:
  assumes "receive_status expected_id n ms p = (p', SUCCESS, st)"
  shows "\<exists>noise sid err params. st = Some (sid, err, params) \<and> length params = n \<and> sid \<noteq> kFtHeaderByte \<and>
    (expected_id = kFtBroadcastId \<or> sid = expected_id) \<and>
    rx_stream p = noise @ status_packet (sid, err, params) @ rx_stream p'"
proof -
  obtain sid err params where s: "st = Some (sid, err, params)"
    "parse_status expected_id n (rx_stream p) = Some ((sid, err, params), rx_stream p')"
    using receive_status_sound [OF assms] by (metis prod_cases3)
  show ?thesis using s parse_status_bytes [OF s(2)] parse_status_shape [OF s(2)] by blast
qed

theorem accepted_status_is_on_the_wire_witness:
  "\<exists>p'. receive_status 1 10 40 (flush_input sample_bus) = (p', SUCCESS, Some sample_answer) \<and>
     (\<exists>noise. rx_stream (flush_input sample_bus) = noise @ status_packet sample_answer @ rx_stream p')"
proof -
  have "parse_status 1 10 (answer_by 39000 (flush_input sample_bus)) = Some (sample_answer, [])"
    using parse_status_packet [of "[]" 1 "snd (snd sample_answer)" 10 1 0 "[]"]
    by (simp add: sample_bus_on_time sample_answer_def kFtHeaderByte_def kFtMaxStatusParams_def)
  then obtain q where q: "receive_status 1 10 40 (flush_input sample_bus) = (q, SUCCESS, Some sample_answer)"
    using receive_status_complete [OF _ _ sample_bus_on_time(1), of 10 40 1 sample_answer "[]"]
    by (auto simp: kFtMaxStatusParams_def)
  from accepted_status_is_on_the_wire [OF q] q show ?thesis by auto
qed

text \<open>C11: an answer that arrives in time is accepted. Whatever the pieces in which the bytes arrive, if they are noise without
  the header byte and then a well-formed packet of the expected servo, complete one millisecond before the timeout, and no
  read fails, then \<open>receive_status\<close> succeeds with the packet's content and leaves the bytes behind it.\<close>

theorem timely_answer_is_accepted:
  assumes "port_open p" "port_now p \<le> T" "clean_by T p" "T + 1000 \<le> port_now p + ms * 1000"
    and "answer_by T p = noise @ status_packet (sid, err, params) @ rest" "kFtHeaderByte \<notin> set noise"
    and "sid \<noteq> kFtHeaderByte" "length params \<le> kFtMaxStatusParams" "expected_id = kFtBroadcastId \<or> sid = expected_id"
  shows "\<exists>q. receive_status expected_id (length params) ms p = (q, SUCCESS, Some (sid, err, params)) \<and> answer_by T q = rest"
  using receive_status_complete [OF assms(8,4)] parse_status_packet [OF assms(6,7) refl assms(8,9)] assms(1-3,5)
  by (fastforce simp: on_time_def)

theorem timely_answer_is_accepted_witness:
  "\<exists>q. receive_status kFtBroadcastId 10 40 (flush_input sample_bus) = (q, SUCCESS, Some sample_answer) \<and> answer_by 39000 q = []"
proof -
  have s: "length (snd (snd sample_answer)) = 10" "(1, 0, snd (snd sample_answer)) = sample_answer"
    by (simp_all add: sample_answer_def)
  show ?thesis
    using timely_answer_is_accepted [of "flush_input sample_bus" 39000 40 "[]" 1 0 "snd (snd sample_answer)" "[]" kFtBroadcastId]
      sample_bus_on_time unfolding s by (simp add: on_time_def kFtHeaderByte_def kFtMaxStatusParams_def)
qed

text \<open>C15: after a successful bulk read every servo that is asked has fresh feedback. There is a status packet for each of
  them behind the flushed input, and its slot holds what that packet encodes: position, signed velocity and load,
  temperature and error bits. No other slot has changed.\<close>

theorem bulk_read_is_fresh:
  assumes "ft_inv d" "ft_group_read_hardware_values idx d = (d', SUCCESS)" "all_servo_ids d \<noteq> []"
    and "inj_on idx (set (sync_read_ids d))"
  shows "\<exists>fs. answers fs (rx_stream (flush_input d)) (rx_stream d') \<and> set (map sid_of fs) = set (sync_read_ids d) \<and>
    (\<forall>f \<in> set fs. slot d' (nat (idx (sid_of f))) = decoded (snd (snd f))) \<and>
    (\<forall>i. i \<notin> (\<lambda>sid. nat (idx sid)) ` set (sync_read_ids d) \<longrightarrow> slot d' i = slot d i)"
  by (rule group_read_success [OF assms])

theorem bulk_read_is_fresh_witness:
  "\<exists>d' fs. ft_group_read_hardware_values (\<lambda>i. 0) sample_bus = (d', SUCCESS) \<and>
     answers fs (rx_stream (flush_input sample_bus)) (rx_stream d') \<and> set (map sid_of fs) = {1}"
proof -
  obtain d' where d': "ft_group_read_hardware_values (\<lambda>i. 0) sample_bus = (d', SUCCESS)"
    using sample_bus_reads by (metis prod.collapse)
  have ids: "all_servo_ids sample_bus = [1]" "sync_read_ids sample_bus = [1]" by (simp_all add: sample_bus_def)
  from bulk_read_is_fresh [OF sample_bus_inv d'] d' show ?thesis by (auto simp: ids)
qed

text \<open>the bulk read succeeds when every servo answers. If the request can be written and the answers of all servos that
  are asked, in any order and any pieces, have arrived 39 ms after the flush, the read reports success.\<close>

theorem bulk_read_succeeds:
  assumes "port_open d" "tx_script d = []" "all_servo_ids d \<noteq> []" "sync_read_ids d \<noteq> []" "length (sync_read_ids d) \<le> 56"
    and "distinct (sync_read_ids d)" "on_time T (flush_input d)" "T \<le> port_now d + 39000"
    and "answer_by T (flush_input d) = concat (map status_packet fs) @ rest"
    and "distinct (map sid_of fs)" "set (map sid_of fs) = set (sync_read_ids d)"
    and "\<forall>f \<in> set fs. fst f \<noteq> kFtHeaderByte \<and> length (snd (snd f)) = kFtFeedbackLength \<and>
       0 \<le> idx (sid_of f) \<and> idx (sid_of f) < servo_num_total d"
  shows "snd (ft_group_read_hardware_values idx d) = SUCCESS"
  by (rule group_read_answered [OF assms])

theorem bulk_read_succeeds_witness: "snd (ft_group_read_hardware_values (\<lambda>i. 0) sample_bus) = SUCCESS"
  by (rule bulk_read_succeeds [where T = 39000 and fs = "[sample_answer]" and rest = "[]"])
    (simp_all add: sample_bus_on_time, simp_all add: sample_bus_def quiet_port_def sample_answer_def kFtHeaderByte_def
      kFtFeedbackLength_def)

text \<open>C16: a servo classified dead stays out. After a successful \<open>open\<close>, whatever the device and its servos call and whatever
  the bus does, the bulk read addresses exactly the servos of the device that are not dead, no dead servo comes back, the
  reported break point is the least dead id (or -1), and every queued goal and torque limit is within its register's
  range.\<close>

theorem dead_servos_stay_out:
  assumes "ft_open e name (Some ids) idx baud d0 = (d, SUCCESS)" "ft_run idx cs d = Some d'" "ft_run idx cs' d' = Some d''"
  shows "sync_read_ids d'' = filter (\<lambda>sid. sid \<notin> set (ft_dead_servo_ids d'')) ids \<and>
    set (ft_dead_servo_ids d') \<subseteq> set (ft_dead_servo_ids d'') \<and> set (ft_dead_servo_ids d'') \<subseteq> set ids \<and>
    ft_last_failed_servo_id d'' = (if ft_dead_servo_ids d'' = [] then -1 else Min (set (ft_dead_servo_ids d''))) \<and>
    (\<forall>entry \<in> set (pending_goal_position d''). uint (snd entry) \<le> 4095) \<and>
    (\<forall>entry \<in> set (pending_torque_limit d''). uint (snd entry) \<le> 1000)"
proof -
  have d: "ft_inv d" "all_servo_ids d = ids" using ft_open_inv [OF assms(1)] by auto
  have d': "ft_inv d'" "all_servo_ids d' = ids" using ft_run_inv [OF d(1) assms(2)] d(2) by (auto simp: only_more_dead_def)
  from ft_run_inv [OF d'(1) assms(3)] d'(2) have i: "ft_inv d''" "all_servo_ids d'' = ids"
    "set (ft_dead_servo_ids d') \<subseteq> set (ft_dead_servo_ids d'')" by (auto simp: only_more_dead_def)
  then show ?thesis using hd_is_Min [of "ft_dead_servo_ids d''"]
    by (auto simp: ft_inv_def break_point_def queue_ok_def kFtGoalPositionMax_def kFtTorqueLimitMax_def)
qed

theorem dead_servos_stay_out_witness:
  "\<exists>d d''. ft_open good_env ''/dev/ttyACM0'' (Some [1]) (\<lambda>i. 0) 1000000 (quiet_port sample_script) = (d, SUCCESS) \<and>
     ft_run (\<lambda>i. 0) [FtGoalGroup (Some 1) 5000, FtTorqueGroup (Some 1) (-7)] d = Some d'' \<and>
     sync_read_ids d'' = filter (\<lambda>sid. sid \<notin> set (ft_dead_servo_ids d'')) [1] \<and>
     (\<forall>entry \<in> set (pending_goal_position d''). uint (snd entry) \<le> 4095)"
proof -
  obtain d where d: "ft_open good_env ''/dev/ttyACM0'' (Some [1]) (\<lambda>i. 0) 1000000 (quiet_port sample_script) = (d, SUCCESS)"
    using sample_bus_opens by blast
  obtain d'' where r: "ft_run (\<lambda>i. 0) [FtGoalGroup (Some 1) 5000, FtTorqueGroup (Some 1) (-7)] d = Some d''" by simp
  have n: "ft_run (\<lambda>i. 0) [] d'' = Some d''" by simp
  from dead_servos_stay_out [OF d r n] d r show ?thesis by blast
qed

text \<open>C14: limits reach the bus before goals. With the port open a group write leaves both queues empty whatever happens; what
  it puts on the wire is a prefix of the torque limit packet followed by the goal position packet, each naming the queued
  servos in order and absent when its queue is empty, and all of it when it reports success.\<close>

theorem torque_limit_before_goal:
  assumes "port_open d" "ft_group_write_hardware_values d = (d', rc)"
  shows "pending_goal_position d' = [] \<and> pending_torque_limit d' = [] \<and>
    (\<exists>out rest. sync_write_packet kFtAddrTorqueLimit (pending_torque_limit d) @
         sync_write_packet kFtAddrGoalPosition (pending_goal_position d) = out @ rest \<and>
       tx_wire d' = tx_wire d @ out \<and> (rc = SUCCESS \<longrightarrow> rest = []))"
proof -
  let ?t = "sync_write_packet kFtAddrTorqueLimit (pending_torque_limit d)"
  let ?g = "sync_write_packet kFtAddrGoalPosition (pending_goal_position d)"
  obtain q r1 where q: "sync_write kFtAddrTorqueLimit 2 (pending_torque_limit d) d = (q, r1)" by fastforce
  obtain o1 s1 where o1: "?t = o1 @ s1" "serial_io o1 d q" "r1 = SUCCESS \<longrightarrow> s1 = []"
    using sync_write_wire [OF q] by auto
  have fq: "pending_goal_position q = pending_goal_position d" "tx_wire q = tx_wire d @ o1"
    using ft_io_fields(11) [OF o1(2)] serial_io_fields [OF o1(2)] by auto
  let ?q = "q\<lparr>pending_torque_limit := []\<rparr>"
  obtain r r2 where r: "sync_write kFtAddrGoalPosition 2 (pending_goal_position q) ?q = (r, r2)" by fastforce
  obtain o2 s2 where o2: "?g = o2 @ s2" "serial_io o2 ?q r" "r2 = SUCCESS \<longrightarrow> s2 = []"
    using sync_write_wire [OF r] fq(1) by auto
  have fr: "pending_torque_limit r = []" "tx_wire r = tx_wire d @ o1 @ o2"
    using ft_io_fields(12) [OF o2(2)] serial_io_fields [OF o2(2)] fq(2) by auto
  show ?thesis
  proof (cases "r1 = SUCCESS")
    case True
    then have "d' = r\<lparr>pending_goal_position := []\<rparr>" "rc = r2"
      using assms by (auto simp: ft_group_write_hardware_values_def q r Let_def split: if_splits)
    then show ?thesis using fr o1 o2 True by (auto intro!: exI [of _ "o1 @ o2"])
  next
    case False
    then have "d' = q\<lparr>pending_torque_limit := [], pending_goal_position := []\<rparr>" "rc = r1"
      using assms by (auto simp: ft_group_write_hardware_values_def q Let_def split: if_splits)
    then show ?thesis using fq(2) o1(1) False by auto
  qed
qed

theorem torque_limit_before_goal_witness:
  "let d = sample_bus\<lparr>pending_goal_position := [(1, 2048)], pending_torque_limit := [(1, 300)]\<rparr>;
       d' = fst (ft_group_write_hardware_values d)
   in pending_goal_position d' = [] \<and>
      (\<exists>out rest. sync_write_packet kFtAddrTorqueLimit [(1, 300)] @ sync_write_packet kFtAddrGoalPosition [(1, 2048)] = out @ rest \<and>
         tx_wire d' = out)"
  using torque_limit_before_goal [of "sample_bus\<lparr>pending_goal_position := [(1, 2048)], pending_torque_limit := [(1, 300)]\<rparr>",
      OF _ prod.collapse [symmetric]]
  by (auto simp: Let_def) (auto simp: sample_bus_def quiet_port_def)

text \<open>a configuration register is never left unlocked without a re-lock attempt. A write below the SRAM boundary that
  reports success put exactly the unlock, the value and the lock onto the wire, each repeated only by retries; if it
  fails, either the unlock was not acknowledged and nothing else was sent, or the last thing done was the lock
  transaction.\<close>

theorem eeprom_is_relocked:
  assumes "addr < kFtSramStartAddr" "write_register sid addr v len p = (p', rc)"
  shows "(rc = SUCCESS \<longrightarrow> issues [write_packet sid kFtAddrLockFlag 0 1, write_packet sid addr v len,
           write_packet sid kFtAddrLockFlag 1 1] p p') \<and>
    (rc \<noteq> SUCCESS \<longrightarrow> write_register_raw sid kFtAddrLockFlag 0 1 p = (p', rc) \<or>
       (\<exists>q. issues [write_packet sid kFtAddrLockFlag 0 1] p q \<and>
          (\<exists>r. (\<exists>out. serial_io out q r) \<and> p' = fst (write_register_raw sid kFtAddrLockFlag 1 1 r))))"
proof -
  obtain q r1 where q: "write_register_raw sid kFtAddrLockFlag kFtLockFlagUnlocked 1 p = (q, r1)" by fastforce
  obtain r r2 where r: "write_register_raw sid addr v len q = (r, r2)" by fastforce
  obtain t r3 where t: "write_register_raw sid kFtAddrLockFlag kFtLockFlagLocked 1 r = (t, r3)" by fastforce
  have lo: "\<not> kFtSramStartAddr \<le> addr" using assms(1) by simp
  have eq: "(p', rc) = (if r1 \<noteq> SUCCESS then (q, r1) else if r3 \<noteq> SUCCESS then (t, r3) else (t, r2))"
    using assms(2) lo by (simp add: write_register_def q [simplified] r t [simplified] Let_def split: if_splits)
  have io: "\<exists>out. serial_io out q r" using write_register_raw_io [of q sid addr v len] by (simp add: r)
  show ?thesis
  proof (cases "r1 = SUCCESS")
    case False
    then show ?thesis using eq q by (auto simp: kFtLockFlagUnlocked_def)
  next
    case True
    have un: "issues [write_packet sid kFtAddrLockFlag 0 1] p q"
      using write_register_raw_success [OF q [unfolded True]] by (simp add: kFtLockFlagUnlocked_def)
    have p': "p' = fst (write_register_raw sid kFtAddrLockFlag 1 1 r)"
      using eq True t by (auto simp: kFtLockFlagLocked_def split: if_splits)
    have "rc = SUCCESS \<Longrightarrow> issues [write_packet sid kFtAddrLockFlag 0 1, write_packet sid addr v len,
        write_packet sid kFtAddrLockFlag 1 1] p p'"
      using write_register_success [of sid addr v len p p'] assms(2) lo
      by (simp only: kFtLockFlagLocked_def kFtLockFlagUnlocked_def if_False)
    then show ?thesis using un io p' by blast
  qed
qed

theorem eeprom_is_relocked_witness:
  "\<exists>q. write_register 1 kFtAddrOperatingMode 0 1 (answering [[], [], []]) = (q, SUCCESS) \<and>
     issues [write_packet 1 kFtAddrLockFlag 0 1, write_packet 1 kFtAddrOperatingMode 0 1, write_packet 1 kFtAddrLockFlag 1 1]
       (answering [[], [], []]) q"
proof -
  have lt: "kFtAddrOperatingMode < kFtSramStartAddr" by (simp add: kFtAddrOperatingMode_def kFtSramStartAddr_def)
  obtain q where q: "write_register 1 kFtAddrOperatingMode 0 1 (answering [[], [], []]) = (q, SUCCESS)"
    using eeprom_write_acked [OF ready_answering _ lt, of 1 0] by auto
  from eeprom_is_relocked [OF lt q] q show ?thesis by auto
qed

text \<open>sign and magnitude survive the wire. Every value whose magnitude fits below the sign bit is decoded to itself after
  encoding.\<close>

theorem sign_magnitude_roundtrip:
  assumes "\<bar>v\<bar> < 2 ^ sb" "sb < 32"
  shows "map_option (\<lambda>raw. decode_sign_magnitude raw sb) (encode_sign_magnitude v sb) = Some v"
proof (cases "v < 0")
  case False
  then have a: "0 \<le> v" "v < 2 ^ sb" "v \<noteq> - (2 ^ 31)" using assms(1) by auto
  from False a magnitude_word [OF a(1,2) assms(2)] show ?thesis
    by (simp add: encode_sign_magnitude_def decode_sign_magnitude_def push_bit_of_1 and_exp_eq_0_iff_not_bit)
next
  case True
  define u where "u = - v"
  have u: "v = - u" "0 < u" "u < 2 ^ sb" using True assms(1) by (auto simp: u_def)
  have "(2::int) ^ sb \<le> 2 ^ 31" using assms(2) by (intro power_increasing) auto
  then have ne: "u \<noteq> 2 ^ 31" using u(3) by linarith
  let ?w = "word_of_int u OR 2 ^ sb :: u32"
  note m = magnitude_word [OF less_imp_le [OF u(2)] u(3) assms(2)]
  have b: "bit ?w sb" using assms(2) by (simp add: bit_or_iff bit_exp_iff)
  have "take_bit sb (2 ^ sb :: u32) = 0" by (rule bit_word_eqI) (simp add: bit_take_bit_iff bit_exp_iff)
  then have "take_bit sb ?w = word_of_int u" using m(3) by (simp add: take_bit_or)
  then have "?w AND (2 ^ sb - 1) = word_of_int u" by (simp only: take_bit_eq_mask mask_eq_exp_minus_1)
  then show ?thesis using u(2) ne b m(2)
    by (simp add: u(1) encode_sign_magnitude_def decode_sign_magnitude_def push_bit_of_1 and_exp_eq_0_iff_not_bit)
qed

theorem sign_magnitude_roundtrip_witness:
  "map_option (\<lambda>raw. decode_sign_magnitude raw 10) (encode_sign_magnitude (-1023) 10) = Some (-1023)"
  by (rule sign_magnitude_roundtrip) simp_all

end
