(* ===== verification/Servo_Ft.thy ===== *)
theory Servo_Ft
  imports Driver_Ft Servo_Dm
begin

text \<open>
  The FeeTech servo, \<^verbatim>\<open>native/pi_control/src/pi_servo_ft.cpp\<close> with the unit conversions of its header and
  \<^verbatim>\<open>DriverFt::read_hardware_values\<close>, which fills it from the feedback caches. The driver is passed along; \<open>None\<close> is
  an undefined float-to-integer conversion. The servo always has its device.
\<close>

section \<open>State and conversions\<close>

record servo_ft = servo +
  curr_pos_steps :: int
  servo_resolution :: int
  center_offset :: int
  prof_accel :: int
  p_driver_ft :: bool

type_synonym ('a, 'd) ft_result = "('a servo_ft_scheme \<times> 'd ft_driver_scheme \<times> ReturnCode) option"

definition FT_MODE_POSITION :: u8 where "FT_MODE_POSITION = 0"
definition FT_TORQUE_LIMIT_FULL_SCALE :: int where "FT_TORQUE_LIMIT_FULL_SCALE = 1000"
definition FT_ACCELERATION_MAX :: int where "FT_ACCELERATION_MAX = 254"
definition FT_TORQUE_DISABLE_MAX_ATTEMPTS :: nat where "FT_TORQUE_DISABLE_MAX_ATTEMPTS = 5"
definition FT_TORQUE_DISABLE_RETRY_DELAY_US :: nat where "FT_TORQUE_DISABLE_RETRY_DELAY_US = 10000"

definition g_servo_ft_param :: servo_param where
  "g_servo_ft_param = \<lparr>tolerable_pos_difference_rad = dlit (2 / 10), max_pos_difference_rad = dlit (3 / 10),
     velocity_threshold_rad_sec = dlit (1 / 10)\<rparr>"

text \<open>\<^verbatim>\<open>2.0 * M_PI\<close> as a double: doubling is exact.\<close>

definition two_pi :: flt where
  "two_pi = Fin (884279719003555 / 2 ^ 47)"

definition get_vel_rad_sec :: "'a servo_ft_scheme \<Rightarrow> int \<Rightarrow> flt" where
  "get_vel_rad_sec sv servo_value = fmul binary32 (of_int_f binary32 servo_value) (kv sv)"

definition get_tor_nm :: "'a servo_ft_scheme \<Rightarrow> int \<Rightarrow> flt" where
  "get_tor_nm sv servo_value = fmul binary32 (of_int_f binary32 servo_value) (kt sv)"

definition steps_to_rad :: "'a servo_ft_scheme \<Rightarrow> int \<Rightarrow> flt" where
  "steps_to_rad sv steps =
     narrow binary32
       (fdiv binary64 (fmul binary64 (of_int_f binary64 (steps - center_offset sv)) two_pi)
          (of_int_f binary32 (servo_resolution sv)))"

definition rad_to_steps :: "'a servo_ft_scheme \<Rightarrow> flt \<Rightarrow> int option" where
  "rad_to_steps sv rad_value =
     to_int32 (fadd binary64 (fmul binary64 rad_value (fdiv binary64 (of_int_f binary32 (servo_resolution sv)) two_pi))
       (of_int_f binary64 (center_offset sv)))"

text \<open>\<^verbatim>\<open>fabs\<close> and the division by it are in double precision.\<close>

definition torque_to_torque_limit :: "'a servo_ft_scheme \<Rightarrow> flt \<Rightarrow> int option" where
  "torque_to_torque_limit sv torque =
     (if flt_le (kt sv) (Fin 0) then Some 0
      else case to_int32 (fdiv binary64 (fabs torque) (kt sv)) of
        None \<Rightarrow> None
      | Some torque_limit \<Rightarrow>
          Some (if FT_TORQUE_LIMIT_FULL_SCALE < torque_limit then FT_TORQUE_LIMIT_FULL_SCALE else torque_limit))"

definition ft_get_pos_servo :: "'a servo_ft_scheme \<Rightarrow> flt" where
  "ft_get_pos_servo sv = of_int_f binary32 (curr_pos_steps sv)"

section \<open>Configuration\<close>

text \<open>\<^verbatim>\<open>get<uint32_t>\<close>; a float goes through the 64-bit conversion of the target.\<close>

fun get_uint32 :: "json \<Rightarrow> int option" where
  "get_uint32 (JInt n) = Some (n mod 2 ^ 32)"
| "get_uint32 (JFloat (Fin a)) = Some (if - (2 ^ 63) \<le> trunc a \<and> trunc a < 2 ^ 63 then trunc a mod 2 ^ 32 else 0)"
| "get_uint32 (JFloat _) = Some 0"
| "get_uint32 (JBool b) = Some (if b then 1 else 0)"
| "get_uint32 _ = None"

definition ft_init_config_model ::
  "'p \<Rightarrow> json \<Rightarrow> 'a servo_ft_scheme \<Rightarrow> 'p registry \<Rightarrow> 'a servo_ft_scheme \<times> 'p registry \<times> ReturnCode" where
  "ft_init_config_model p cfg sv r =
     (let sv = sv\<lparr>sv_param := g_servo_ft_param\<rparr>;
          (sv, r, rc) = init_config_model base_init_current_estimation p cfg sv r
      in if rc \<noteq> SUCCESS then (sv, r, rc)
      else if servo_model sv \<noteq> ''FeeTech STS3215'' then (sv, r, NOT_SUPPORTED)
      else let sv = sv\<lparr>sv_type := FT_STS3215\<rparr>;
               (res, rc) = get_field_value get_uint32 cfg ''servo_resolution'' (servo_resolution sv);
               sv = sv\<lparr>servo_resolution := res\<rparr>
      in if rc \<noteq> SUCCESS then (sv, r, rc)
      else let sv = sv\<lparr>center_offset := servo_resolution sv div 2\<rparr>;
               (accel, rc) = get_field_value get_int cfg ''prof_accel'' (prof_accel sv);
               sv = sv\<lparr>prof_accel := accel\<rparr>
      in if rc = SUCCESS \<and> (prof_accel sv < 0 \<or> FT_ACCELERATION_MAX < prof_accel sv) then (sv, r, INVALID_PARAM)
         else (sv, r, SUCCESS))"

section \<open>Reading\<close>

definition ft_driver_read :: "'d ft_driver_scheme \<Rightarrow> 'a servo_ft_scheme \<Rightarrow> 'a servo_ft_scheme \<times> ReturnCode" where
  "ft_driver_read d sv =
     (if servo_num_total d \<le> 0 then (sv, NOT_INITIALIZED)
      else if data_index sv < 0 \<or> servo_num_total d \<le> data_index sv then (sv, INVALID_PARAM)
      else let i = nat (data_index sv); steps = uint (pres_pos d ! i);
               sv = sv\<lparr>curr_pos_steps := steps, curr_pos_abs := steps_to_rad sv steps,
                       curr_vel := get_vel_rad_sec sv (pres_vel d ! i), curr_tor := get_tor_nm sv (pres_load d ! i),
                       temperature := of_int_f binary32 (uint (pres_temp d ! i)), motor_error_code := pres_status d ! i\<rparr>
           in (sv, SUCCESS))"

section \<open>Operations\<close>

text \<open>An early return on error, else a pause and the rest.\<close>

definition step_then ::
  "('d \<Rightarrow> 'd \<times> ReturnCode) \<Rightarrow> ('d \<Rightarrow> 'd) \<Rightarrow> ('d \<Rightarrow> ('d \<times> ReturnCode) option) \<Rightarrow> 'd \<Rightarrow> ('d \<times> ReturnCode) option" where
  "step_then op pause cont d = (let (d, rc) = op d in if rc \<noteq> SUCCESS then Some (d, rc) else cont (pause d))"

definition pid_stage ::
  "'a servo_ft_scheme \<Rightarrow> ('d ft_driver_scheme \<Rightarrow> ('d ft_driver_scheme \<times> ReturnCode) option)
   \<Rightarrow> 'd ft_driver_scheme \<Rightarrow> ('d ft_driver_scheme \<times> ReturnCode) option" where
  "pid_stage sv cont d =
     (if flt_lt (Fin 0) (pos_kp sv)
      then (case set_position_pid (Some (id_of sv)) (pos_kp sv) (pos_ki sv) (pos_kd sv) d of
              None \<Rightarrow> None
            | Some (d, rc) \<Rightarrow> (if rc \<noteq> SUCCESS then Some (d, rc) else cont (elapse 200 d)))
      else cont d)"

definition accel_stage ::
  "'a servo_ft_scheme \<Rightarrow> ('d ft_driver_scheme \<Rightarrow> ('d ft_driver_scheme \<times> ReturnCode) option)
   \<Rightarrow> 'd ft_driver_scheme \<Rightarrow> ('d ft_driver_scheme \<times> ReturnCode) option" where
  "accel_stage sv cont d =
     (if 0 < prof_accel sv
      then step_then (set_acceleration (Some (id_of sv)) (word_of_int (prof_accel sv))) (elapse 200) cont d else cont d)"

text \<open>The end of the start and of the mode change: the goal becomes the present position, then torque.\<close>

definition engage_stage ::
  "('d ft_driver_scheme \<Rightarrow> 'd ft_driver_scheme) \<Rightarrow> 'a servo_ft_scheme
   \<Rightarrow> 'd ft_driver_scheme \<Rightarrow> ('d ft_driver_scheme \<times> ReturnCode) option" where
  "engage_stage pause sv =
     step_then (sync_goal_position_to_present (Some (id_of sv))) pause
       (step_then (enable_torque (Some (id_of sv)) True) pause (\<lambda>d. Some (d, SUCCESS)))"

definition ft_start_hardware ::
  "'a servo_ft_scheme \<Rightarrow> 'd ft_driver_scheme \<Rightarrow> ('d ft_driver_scheme \<times> ReturnCode) option" where
  "ft_start_hardware sv d =
     (if \<not> p_driver_ft sv then Some (d, NOT_INITIALIZED)
      else if dev_read_only (p_device sv) then Some (d, SUCCESS)
      else step_then (enable_torque (Some (id_of sv)) False) (elapse 200)
             (step_then (set_operating_mode (Some (id_of sv)) FT_MODE_POSITION) (elapse 200)
                (pid_stage sv (accel_stage sv (engage_stage (elapse 200) sv)))) d)"

definition ft_park_safely ::
  "'a servo_ft_scheme \<Rightarrow> 'd ft_driver_scheme \<Rightarrow> 'a servo_ft_scheme \<times> 'd ft_driver_scheme \<times> ReturnCode" where
  "ft_park_safely sv d =
     (if parked sv then (sv, d, SUCCESS)
      else if dev_read_only (p_device sv) then (sv, d, SUCCESS)
      else if \<not> p_driver_ft sv then (sv, d, NOT_INITIALIZED)
      else let (sv, rc) = read_hardware_values (Some (ft_driver_read d)) sv
      in if rc \<noteq> SUCCESS then (sv, d, rc)
      else let (d, rc) = set_goal_position_direct (Some (id_of sv)) (curr_pos_steps sv) (elapse 200 d)
      in if rc \<noteq> SUCCESS then (sv, d, rc)
      else let (d, rc) = enable_torque (Some (id_of sv)) False (elapse 200 d)
      in if rc \<noteq> SUCCESS then (sv, d, rc) else (sv\<lparr>parked := True\<rparr>, elapse 200 d, SUCCESS))"

text \<open>The target of a move in encoder steps.\<close>

definition target_steps :: "'a servo_ft_scheme \<Rightarrow> flt \<Rightarrow> int option" where
  "target_steps sv target_pos =
     rad_to_steps sv (get_pos_rad_absolute sv (clipping target_pos (pos_min_rel sv) (pos_max_rel sv)))"

definition ft_move ::
  "flt \<Rightarrow> 'a servo_ft_scheme \<Rightarrow> 'd ft_driver_scheme \<Rightarrow> ('d ft_driver_scheme \<times> ReturnCode) option" where
  "ft_move target_pos sv d =
     (if \<not> p_driver_ft sv then Some (d, NOT_INITIALIZED)
      else case target_steps sv target_pos of
        None \<Rightarrow> None
      | Some steps \<Rightarrow> Some (set_goal_position_group (Some (id_of sv)) steps d))"

definition ft_move_full ::
  "flt \<Rightarrow> flt \<Rightarrow> flt \<Rightarrow> 'a servo_ft_scheme \<Rightarrow> 'd ft_driver_scheme \<Rightarrow> ('d ft_driver_scheme \<times> ReturnCode) option" where
  "ft_move_full target_pos target_vel target_tor sv d =
     (case p_joint sv of
        None \<Rightarrow> Some (d, NOT_INITIALIZED)
      | Some j \<Rightarrow>
          (if \<not> p_driver_ft sv then Some (d, NOT_INITIALIZED)
           else case (target_steps sv target_pos,
                      torque_to_torque_limit sv (clipping (fmul binary32 target_tor (torq_rescale j)) (torq_min j) (torq_max j))) of
             (Some steps, Some torque_limit) \<Rightarrow>
               (let (d, rc) = set_torque_limit_group (Some (id_of sv)) torque_limit d
                in if rc \<noteq> SUCCESS then Some (d, rc) else Some (set_goal_position_group (Some (id_of sv)) steps d))
           | _ \<Rightarrow> None))"

definition ft_apply_torque :: "flt \<Rightarrow> 'a servo_ft_scheme \<Rightarrow> ReturnCode" where
  "ft_apply_torque torque sv = NOT_SUPPORTED"

definition ft_enable_torque ::
  "bool \<Rightarrow> 'a servo_ft_scheme \<Rightarrow> 'd ft_driver_scheme \<Rightarrow> 'd ft_driver_scheme \<times> ReturnCode" where
  "ft_enable_torque on sv d =
     (if \<not> p_driver_ft sv then (d, NOT_INITIALIZED)
      else if dev_read_only (p_device sv) then (d, SUCCESS)
      else enable_torque (Some (id_of sv)) on d)"

fun disable_and_verify :: "nat \<Rightarrow> int \<Rightarrow> 'd ft_driver_scheme \<Rightarrow> 'd ft_driver_scheme \<times> ReturnCode" where
  "disable_and_verify 0 sid d = (d, FAIL)"
| "disable_and_verify (Suc attempts) sid d =
     (let (d, rc) = enable_torque (Some sid) False d
      in if rc \<noteq> SUCCESS then (d, rc)
      else let (d, rc, torque_enabled) = get_torque_enabled (Some sid) (elapse 200 d)
      in if rc \<noteq> SUCCESS then (d, rc)
      else if torque_enabled = Some 0 then (d, SUCCESS)
      else disable_and_verify attempts sid (elapse FT_TORQUE_DISABLE_RETRY_DELAY_US d))"

definition ft_change_control_mode_for_leader ::
  "'a servo_ft_scheme \<Rightarrow> 'd ft_driver_scheme \<Rightarrow> 'd ft_driver_scheme \<times> ReturnCode" where
  "ft_change_control_mode_for_leader sv d =
     (if \<not> p_driver_ft sv then (d, NOT_INITIALIZED)
      else if dev_read_only (p_device sv) then (d, SUCCESS)
      else if dev_force_feedback_enabled (p_device sv) then (d, NOT_SUPPORTED)
      else disable_and_verify FT_TORQUE_DISABLE_MAX_ATTEMPTS (id_of sv) (discard_pending_group_writes (Some (id_of sv)) d))"

definition ft_change_control_mode_for_follower ::
  "'a servo_ft_scheme \<Rightarrow> 'd ft_driver_scheme \<Rightarrow> ('d ft_driver_scheme \<times> ReturnCode) option" where
  "ft_change_control_mode_for_follower sv d =
     (if \<not> p_driver_ft sv then Some (d, NOT_INITIALIZED)
      else if dev_read_only (p_device sv) then Some (d, SUCCESS)
      else step_then (enable_torque (Some (id_of sv)) False) (elapse 10000)
             (step_then (set_operating_mode (Some (id_of sv)) FT_MODE_POSITION) (\<lambda>d. d) (engage_stage (\<lambda>d. d) sv)) d)"

section \<open>What goes onto the wire\<close>

definition torque_packet :: "int \<Rightarrow> bool \<Rightarrow> u8 list" where
  "torque_packet sid on = write_packet sid kFtAddrTorqueEnable (if on then 1 else 0) 1"

definition goal_packet :: "int \<Rightarrow> int \<Rightarrow> u8 list" where
  "goal_packet sid goal_position =
     write_packet sid kFtAddrGoalPosition (clamp_int kFtGoalPositionMin kFtGoalPositionMax goal_position) 2"

text \<open>Writes of configuration registers: neither torque nor a goal.\<close>

definition config_packets :: "int \<Rightarrow> u8 list list \<Rightarrow> bool" where
  "config_packets sid pkts \<longleftrightarrow> (\<forall>pkt \<in> set pkts. \<exists>addr v. pkt = write_packet sid addr v 1 \<and>
     addr \<in> {kFtAddrLockFlag, kFtAddrOperatingMode, kFtAddrPositionPGain, kFtAddrPositionDGain, kFtAddrPositionIGain,
       kFtAddrAcceleration})"

lemma config_packets_append: "config_packets sid (a @ b) \<longleftrightarrow> config_packets sid a \<and> config_packets sid b"
  by (auto simp: config_packets_def)

lemma step_then_success:
  "step_then op pause cont d = Some (d', SUCCESS) \<Longrightarrow> \<exists>q. op d = (q, SUCCESS) \<and> cont (pause q) = Some (d', SUCCESS)"
  by (auto simp: step_then_def Let_def split: prod.splits if_splits)

lemma torque_success: "enable_torque (Some sid) e d = (d', SUCCESS) \<Longrightarrow> issues [torque_packet sid e] d d'"
  using write_register_success [of sid kFtAddrTorqueEnable "if e then 1 else 0" 1 d d']
  by (simp add: enable_torque_def with_servo_def torque_packet_def kFtSramStartAddr_def kFtAddrTorqueEnable_def)

lemma goal_success: "set_goal_position_direct (Some sid) g d = (d', SUCCESS) \<Longrightarrow> issues [goal_packet sid g] d d'"
  using write_register_success [of sid kFtAddrGoalPosition "clamp_int kFtGoalPositionMin kFtGoalPositionMax g" 2 d d']
  by (simp add: set_goal_position_direct_def with_servo_def goal_packet_def kFtSramStartAddr_def kFtAddrGoalPosition_def)

lemma config_write_success:
  assumes "write_register sid addr v 1 d = (d', SUCCESS)" "config_packets sid [write_packet sid addr v 1]"
  shows "\<exists>pkts. issues pkts d d' \<and> config_packets sid pkts"
proof -
  let ?e = "[write_packet sid kFtAddrLockFlag kFtLockFlagUnlocked 1, write_packet sid addr v 1,
      write_packet sid kFtAddrLockFlag kFtLockFlagLocked 1]"
  have "config_packets sid ?e" using assms(2) by (auto simp: config_packets_def)
  with assms(2) write_register_success [OF assms(1)] show ?thesis by (metis (full_types))
qed

lemma configI: "addr \<in> {kFtAddrLockFlag, kFtAddrOperatingMode, kFtAddrPositionPGain, kFtAddrPositionDGain,
    kFtAddrPositionIGain, kFtAddrAcceleration} \<Longrightarrow> config_packets sid [write_packet sid addr v 1]"
  by (auto simp: config_packets_def)

lemma mode_success:
  "set_operating_mode (Some sid) m d = (d', SUCCESS) \<Longrightarrow> \<exists>pkts. issues pkts d d' \<and> config_packets sid pkts"
  unfolding set_operating_mode_def with_servo_def option.case by (erule config_write_success) (rule configI, simp)

lemma acceleration_success:
  "set_acceleration (Some sid) a d = (d', SUCCESS) \<Longrightarrow> \<exists>pkts. issues pkts d d' \<and> config_packets sid pkts"
  unfolding set_acceleration_def with_servo_def option.case by (erule config_write_success) (rule configI, simp)

lemma config_then:
  assumes "\<exists>pkts. issues pkts p q \<and> config_packets sid pkts" "\<exists>pkts. issues pkts q r \<and> config_packets sid pkts"
  shows "\<exists>pkts. issues pkts p r \<and> config_packets sid pkts"
  using assms issues_append config_packets_append by metis

lemma gain_success:
  assumes "write_gain sid addr gain cont d = Some (d', SUCCESS)" "\<And>v. config_packets sid [write_packet sid addr v 1]"
    "\<And>q. cont q = Some (d', SUCCESS) \<Longrightarrow> \<exists>pkts. issues pkts q d' \<and> config_packets sid pkts"
  shows "\<exists>pkts. issues pkts d d' \<and> config_packets sid pkts"
proof -
  obtain v q where q: "write_register sid addr v 1 d = (q, SUCCESS)" "cont q = Some (d', SUCCESS)"
    using assms(1) by (auto simp: write_gain_def Let_def split: option.splits prod.splits if_splits)
  show ?thesis by (rule config_then [OF config_write_success [OF q(1) assms(2)] assms(3) [OF q(2)]])
qed

lemma no_packets: "\<exists>pkts. issues pkts d d \<and> config_packets sid pkts"
  by (rule exI [of _ "[]"]) (simp add: config_packets_def)

lemma pid_success:
  "set_position_pid (Some sid) kp ki kd d = Some (d', SUCCESS) \<Longrightarrow> \<exists>pkts. issues pkts d d' \<and> config_packets sid pkts"
  unfolding set_position_pid_def option.case
  by (erule gain_success, rule configI, simp, erule gain_success, rule configI, simp, erule gain_success, rule configI, simp)
    (auto intro: no_packets)

lemma silent_config: "serial_io [] p q \<Longrightarrow> \<exists>pkts. issues pkts p q \<and> config_packets sid pkts"
  by (rule exI [of _ "[]"]) (simp add: config_packets_def)

text \<open>The goal is the position just read.\<close>

lemma sync_goal_success:
  assumes "sync_goal_position_to_present (Some sid) d = (d', SUCCESS)"
  shows "\<exists>q v. read_register sid kFtAddrPresentPosition 2 d = (q, SUCCESS, Some v) \<and> issues [goal_packet sid v] q d'"
proof -
  obtain q rc v where q: "read_register sid kFtAddrPresentPosition 2 d = (q, rc, v)" by (metis prod_cases3)
  have rc: "rc = SUCCESS" using assms by (auto simp: sync_goal_position_to_present_def get_present_position_def q split: if_splits)
  obtain x where "v = Some x" using read_register_success [OF q [unfolded rc]] by auto
  then show ?thesis using assms goal_success
    by (auto simp: sync_goal_position_to_present_def get_present_position_def q rc)
qed

lemma engage_success:
  assumes "engage_stage pause sv d = Some (d', SUCCESS)" "\<And>q. serial_io [] q (pause q)"
  shows "\<exists>q v. read_register (id_of sv) kFtAddrPresentPosition 2 d = (q, SUCCESS, Some v) \<and>
    issues [goal_packet (id_of sv) v, torque_packet (id_of sv) True] q d'"
proof -
  obtain a where a: "sync_goal_position_to_present (Some (id_of sv)) d = (a, SUCCESS)"
    "step_then (enable_torque (Some (id_of sv)) True) pause (\<lambda>d. Some (d, SUCCESS)) (pause a) = Some (d', SUCCESS)"
    using step_then_success [OF assms(1) [unfolded engage_stage_def]] by blast
  obtain b where b: "enable_torque (Some (id_of sv)) True (pause a) = (b, SUCCESS)" "d' = pause b"
    using step_then_success [OF a(2)] by auto
  obtain q v where q: "read_register (id_of sv) kFtAddrPresentPosition 2 d = (q, SUCCESS, Some v)"
    "issues [goal_packet (id_of sv) v] q a" using sync_goal_success [OF a(1)] by blast
  have "issues ([goal_packet (id_of sv) v] @ [torque_packet (id_of sv) True]) q d'"
    unfolding b(2)
    by (rule issues_append [OF issues_then_silent [OF q(2) assms(2)] issues_then_silent [OF torque_success [OF b(1)] assms(2)]])
  then show ?thesis using q(1) by auto
qed

lemma pid_stage_success:
  assumes "pid_stage sv cont d = Some (d', SUCCESS)"
  shows "\<exists>q. (\<exists>pkts. issues pkts d q \<and> config_packets (id_of sv) pkts) \<and> cont q = Some (d', SUCCESS)"
proof (cases "flt_lt (Fin 0) (pos_kp sv)")
  case True
  obtain q where q: "set_position_pid (Some (id_of sv)) (pos_kp sv) (pos_ki sv) (pos_kd sv) d = Some (q, SUCCESS)"
    "cont (elapse 200 q) = Some (d', SUCCESS)"
    using assms True by (auto simp: pid_stage_def split: option.splits prod.splits if_splits)
  then show ?thesis using config_then [OF pid_success [OF q(1)] silent_config [OF elapse_io]] by blast
next
  case False
  then have "cont d = Some (d', SUCCESS)" using assms by (simp add: pid_stage_def)
  then show ?thesis using no_packets by blast
qed

lemma accel_stage_success:
  assumes "accel_stage sv cont d = Some (d', SUCCESS)"
  shows "\<exists>q. (\<exists>pkts. issues pkts d q \<and> config_packets (id_of sv) pkts) \<and> cont q = Some (d', SUCCESS)"
proof (cases "0 < prof_accel sv")
  case True
  have "step_then (set_acceleration (Some (id_of sv)) (word_of_int (prof_accel sv))) (elapse 200) cont d = Some (d', SUCCESS)"
    using assms True by (simp add: accel_stage_def)
  from step_then_success [OF this] obtain q where
    q: "set_acceleration (Some (id_of sv)) (word_of_int (prof_accel sv)) d = (q, SUCCESS)" "cont (elapse 200 q) = Some (d', SUCCESS)"
    by blast
  then show ?thesis using config_then [OF acceleration_success [OF q(1)] silent_config [OF elapse_io]] by blast
next
  case False
  then have "cont d = Some (d', SUCCESS)" using assms by (simp add: accel_stage_def)
  then show ?thesis using no_packets by blast
qed

lemma start_success:
  assumes "ft_start_hardware sv d = Some (d', SUCCESS)" "p_driver_ft sv" "\<not> dev_read_only (p_device sv)"
  shows "\<exists>cfg q r v. config_packets (id_of sv) cfg \<and> issues (torque_packet (id_of sv) False # cfg) d q \<and>
    read_register (id_of sv) kFtAddrPresentPosition 2 q = (r, SUCCESS, Some v) \<and>
    issues [goal_packet (id_of sv) v, torque_packet (id_of sv) True] r d'"
proof -
  let ?id = "id_of sv"
  have st: "step_then (enable_torque (Some ?id) False) (elapse 200)
      (step_then (set_operating_mode (Some ?id) FT_MODE_POSITION) (elapse 200)
        (pid_stage sv (accel_stage sv (engage_stage (elapse 200) sv)))) d = Some (d', SUCCESS)"
    using assms by (simp add: ft_start_hardware_def)
  obtain a where a: "enable_torque (Some ?id) False d = (a, SUCCESS)"
    "step_then (set_operating_mode (Some ?id) FT_MODE_POSITION) (elapse 200)
       (pid_stage sv (accel_stage sv (engage_stage (elapse 200) sv))) (elapse 200 a) = Some (d', SUCCESS)"
    using step_then_success [OF st] by blast
  obtain b where b: "set_operating_mode (Some ?id) FT_MODE_POSITION (elapse 200 a) = (b, SUCCESS)"
    "pid_stage sv (accel_stage sv (engage_stage (elapse 200) sv)) (elapse 200 b) = Some (d', SUCCESS)"
    using step_then_success [OF a(2)] by blast
  obtain c where c: "\<exists>pkts. issues pkts (elapse 200 b) c \<and> config_packets ?id pkts"
    "accel_stage sv (engage_stage (elapse 200) sv) c = Some (d', SUCCESS)" using pid_stage_success [OF b(2)] by blast
  obtain q where q: "\<exists>pkts. issues pkts c q \<and> config_packets ?id pkts"
    "engage_stage (elapse 200) sv q = Some (d', SUCCESS)" using accel_stage_success [OF c(2)] by blast
  obtain cfg where cfg: "issues cfg (elapse 200 a) q" "config_packets ?id cfg"
    using config_then [OF mode_success [OF b(1)] config_then [OF silent_config [OF elapse_io] config_then [OF c(1) q(1)]]] by blast
  have "issues ([torque_packet ?id False] @ cfg) d q"
    by (rule issues_append [OF issues_then_silent [OF torque_success [OF a(1)] elapse_io] cfg(1)])
  then have "issues (torque_packet ?id False # cfg) d q" by (simp only: append.simps)
  then show ?thesis using cfg(2) engage_success [OF q(2) elapse_io] by blast
qed

lemma disable_and_verify_success:
  assumes "disable_and_verify n sid d = (d', SUCCESS)"
  shows "\<exists>pkts q. issues pkts d q \<and> set pkts \<subseteq> {torque_packet sid False, read_packet sid kFtAddrTorqueEnable 1} \<and>
    get_torque_enabled (Some sid) q = (d', SUCCESS, Some 0)"
  using assms
proof (induction n arbitrary: d)
  case (Suc n)
  obtain a rc where a: "enable_torque (Some sid) False d = (a, rc)" by fastforce
  have rc: "rc = SUCCESS" using Suc.prems by (auto simp: a split: if_splits)
  obtain b rc' v where b: "get_torque_enabled (Some sid) (elapse 200 a) = (b, rc', v)" by (metis prod_cases3)
  have rc': "rc' = SUCCESS" using Suc.prems by (auto simp: a rc b split: if_splits)
  have off: "issues [torque_packet sid False] d (elapse 200 a)"
    by (rule issues_then_silent [OF torque_success [OF a [unfolded rc]] elapse_io])
  show ?case
  proof (cases "v = Some 0")
    case True
    then have "d' = b" using Suc.prems by (simp add: a rc b rc')
    then show ?thesis using off b rc' True by (intro exI [of _ "[torque_packet sid False]"]) auto
  next
    case False
    have rd: "issues [read_packet sid kFtAddrTorqueEnable 1] (elapse 200 a) (elapse FT_TORQUE_DISABLE_RETRY_DELAY_US b)"
      using b rc' by (intro issues_then_silent [OF _ elapse_io]) (auto simp: get_torque_enabled_def dest!: read_register_success)
    have "disable_and_verify n sid (elapse FT_TORQUE_DISABLE_RETRY_DELAY_US b) = (d', SUCCESS)"
      using Suc.prems False by (simp add: a rc b rc')
    from Suc.IH [OF this] obtain pkts q where p: "issues pkts (elapse FT_TORQUE_DISABLE_RETRY_DELAY_US b) q"
      "set pkts \<subseteq> {torque_packet sid False, read_packet sid kFtAddrTorqueEnable 1}"
      "get_torque_enabled (Some sid) q = (d', SUCCESS, Some 0)" by blast
    have "issues ([torque_packet sid False] @ [read_packet sid kFtAddrTorqueEnable 1] @ pkts) d q"
      by (rule issues_append [OF off issues_append [OF rd p(1)]])
    moreover have "set ([torque_packet sid False] @ [read_packet sid kFtAddrTorqueEnable 1] @ pkts) \<subseteq>
        {torque_packet sid False, read_packet sid kFtAddrTorqueEnable 1}" using p(2) by auto
    ultimately show ?thesis using p(3) by blast
  qed
qed simp

lemma disable_and_verify_queues:
  "pending_goal_position (fst (disable_and_verify n sid d)) = pending_goal_position d \<and>
   pending_torque_limit (fst (disable_and_verify n sid d)) = pending_torque_limit d"
proof (induction n arbitrary: d)
  case (Suc n)
  obtain a rc where a: "enable_torque (Some sid) False d = (a, rc)" by fastforce
  obtain b rc' v where b: "get_torque_enabled (Some sid) (elapse 200 a) = (b, rc', v)" by (metis prod_cases3)
  have "pending_goal_position a = pending_goal_position d" "pending_torque_limit a = pending_torque_limit d"
    using torque_op.queues [of "Some sid" False d] by (simp_all add: a)
  moreover have "pending_goal_position b = pending_goal_position a" "pending_torque_limit b = pending_torque_limit a"
    using torque_read_op.queues [of "Some sid" "elapse 200 a"] sleep_op.queues [of 200 a] by (simp_all add: b)
  ultimately show ?case using Suc by (simp add: a b sleep_op.queues)
qed simp

text \<open>Parking: the goal is the cached position and torque goes off after it.\<close>

lemma ft_driver_read_keeps: "id_of (fst (ft_driver_read d sv)) = id_of sv" "p_device (fst (ft_driver_read d sv)) = p_device sv"
  "parked (fst (ft_driver_read d sv)) = parked sv"
  by (simp_all add: ft_driver_read_def Let_def)

lemma read_keeps_id:
  assumes "read_hardware_values (Some (ft_driver_read d)) sv = (sv', SUCCESS)"
  shows "id_of sv' = id_of sv \<and> curr_pos_steps sv' = uint (pres_pos d ! nat (data_index sv))"
proof -
  let ?p = "keep_previous sv"
  have p: "id_of ?p = id_of sv" "data_index ?p = data_index sv" by (simp_all add: keep_previous_def)
  obtain r rc where r: "ft_driver_read d ?p = (r, rc)" by fastforce
  have rc: "rc = SUCCESS" using assms by (auto simp: read_hardware_values_def r Let_def split: if_splits)
  have rr: "id_of r = id_of sv" "curr_pos_steps r = uint (pres_pos d ! nat (data_index sv))"
    using r p unfolding rc by (auto simp: ft_driver_read_def Let_def split: if_splits)
  have k: "kept (fst (safety_checks (estimate_current r))) = kept r"
    using safety_checks_kept [of "estimate_current r"] estimate_keeps(1) [of r] by simp
  have steps: "id_of s' = id_of r \<and> curr_pos_steps s' = curr_pos_steps r" if "kept s' = kept r" for s' :: "'a servo_ft_scheme"
    using that by (cases s'; cases r) (simp add: kept_def)
  have "sv' = r \<or> sv' = fst (safety_checks (estimate_current r))"
    using assms by (auto simp: read_hardware_values_def r rc Let_def split: if_splits prod.splits option.splits)
  then show ?thesis using steps [OF k] rr by auto
qed

lemma park_success:
  assumes "ft_park_safely sv d = (sv', d', SUCCESS)" "\<not> parked sv" "\<not> dev_read_only (p_device sv)"
  shows "parked sv' \<and>
    issues [goal_packet (id_of sv) (uint (pres_pos d ! nat (data_index sv))), torque_packet (id_of sv) False] d d'"
proof -
  have drv: "p_driver_ft sv" using assms by (auto simp: ft_park_safely_def split: if_splits)
  obtain r rc where r: "read_hardware_values (Some (ft_driver_read d)) sv = (r, rc)" by fastforce
  have rc: "rc = SUCCESS" using assms drv by (auto simp: ft_park_safely_def r split: if_splits)
  note k = read_keeps_id [OF r [unfolded rc]]
  obtain a rc1 where a: "set_goal_position_direct (Some (id_of r)) (curr_pos_steps r) (elapse 200 d) = (a, rc1)" by fastforce
  have rc1: "rc1 = SUCCESS" using assms drv by (auto simp: ft_park_safely_def r rc a split: if_splits)
  obtain b rc2 where b: "enable_torque (Some (id_of r)) False (elapse 200 a) = (b, rc2)" by fastforce
  have rc2: "rc2 = SUCCESS" "sv' = r\<lparr>parked := True\<rparr>" "d' = elapse 200 b"
    using assms drv by (auto simp: ft_park_safely_def r rc a rc1 b split: if_splits)
  have "issues ([goal_packet (id_of r) (curr_pos_steps r)] @ [torque_packet (id_of r) False]) d d'"
    unfolding rc2(3)
    by (rule issues_append [OF issues_then_silent [OF issues_silent [OF elapse_io goal_success [OF a [unfolded rc1]]] elapse_io]
          issues_then_silent [OF torque_success [OF b [unfolded rc2(1)]] elapse_io]])
  then show ?thesis using k rc2(2) by (simp only: append.simps) simp
qed

section \<open>Rounding of the conversions\<close>

lemma fround_near:
  assumes "2 powi (1 - emax F) \<le> \<bar>x\<bar>" "\<bar>x\<bar> \<le> 2 powi (emax F)" "0 < prec F"
  shows "\<exists>y. fround F x = Fin y \<and> \<bar>y - x\<bar> \<le> \<bar>x\<bar> * 2 powi (- int (prec F))"
proof -
  have e: "\<bar>rnd F x - x\<bar> \<le> \<bar>x\<bar> * 2 powi (- int (prec F))" by (rule rnd_rel_error [OF assms(1)])
  have half: "(2 :: real) powi (- int (prec F)) \<le> 2 powi (-1)" using assms(3) by (simp only: powi_two_le_iff)
  have "\<bar>x\<bar> * 2 powi (- int (prec F)) \<le> \<bar>x\<bar> * 2 powi (-1)" by (rule mult_left_mono [OF half]) simp
  also have "\<dots> = \<bar>x\<bar> / 2" by (simp add: power_int_minus)
  finally have "\<bar>rnd F x\<bar> \<le> \<bar>x\<bar> + \<bar>x\<bar> / 2" using e by linarith
  moreover have "0 < \<bar>x\<bar>" using assms(1) by (metis less_le_trans powi_two_pos)
  ultimately have "\<bar>rnd F x\<bar> < 2 * 2 powi (emax F)" using assms(2) by linarith
  then have "\<bar>rnd F x\<bar> < 2 powi (emax F + 1)" by (simp add: powi_two_add)
  from fround_Fin [OF this] e show ?thesis by blast
qed

lemma fround64_near:
  assumes "1 / 2 ^ 20 \<le> \<bar>x\<bar>" "\<bar>x\<bar> \<le> 2 ^ 20"
  shows "\<exists>y. fround binary64 x = Fin y \<and> \<bar>y - x\<bar> \<le> \<bar>x\<bar> / 2 ^ 53"
proof -
  have "(2 :: real) powi (1 - 1023) \<le> 2 powi (- 20)" "(2 :: real) powi 20 \<le> 2 powi 1023"
    by (simp_all only: powi_two_le_iff)
  then have "2 powi (1 - 1023) \<le> \<bar>x\<bar>" "\<bar>x\<bar> \<le> 2 powi 1023" using assms by (simp_all add: power_int_minus field_simps)
  then show ?thesis using fround_near [of binary64 x] by (simp add: binary64_def power_int_minus field_simps)
qed

lemma fround32_near:
  assumes "1 / 2 ^ 20 \<le> \<bar>x\<bar>" "\<bar>x\<bar> \<le> 2 ^ 20"
  shows "\<exists>y. fround binary32 x = Fin y \<and> \<bar>y - x\<bar> \<le> \<bar>x\<bar> / 2 ^ 24"
proof -
  have "(2 :: real) powi (1 - 127) \<le> 2 powi (- 20)" "(2 :: real) powi 20 \<le> 2 powi 127"
    by (simp_all only: powi_two_le_iff)
  then have "2 powi (1 - 127) \<le> \<bar>x\<bar>" "\<bar>x\<bar> \<le> 2 powi 127" using assms by (simp_all add: power_int_minus field_simps)
  then show ?thesis using fround_near [of binary32 x] by (simp add: binary32_def power_int_minus field_simps)
qed

lemma is_flt64_half: "\<bar>n\<bar> \<le> 2 ^ 30 \<Longrightarrow> is_flt binary64 (Fin (of_int n / 2))"
proof -
  assume n: "\<bar>n\<bar> \<le> 2 ^ 30"
  have "rnd binary64 (of_int n * 2 powi (-1)) = of_int n * 2 powi (-1)"
    using n by (intro r64.rd_fix) auto
  moreover have "\<bar>of_int n / 2 :: real\<bar> < 2 powi 1024"
  proof -
    have "\<bar>of_int n :: real\<bar> \<le> of_int (2 ^ 30)" using n by (simp only: of_int_abs [symmetric] of_int_le_iff)
    moreover have "(2 :: real) powi 30 < 2 powi 1024" by (simp only: powi_two_less_iff)
    ultimately show ?thesis by simp
  qed
  ultimately show ?thesis by (simp add: binary64_def power_int_minus)
qed

lemma of_int_f64_exact: "\<bar>n\<bar> \<le> 2 ^ 29 \<Longrightarrow> of_int_f binary64 n = Fin (of_int n)"
  using fround_exact [OF is_flt64_half [of "2 * n"]] by (simp add: of_int_f_def)

text \<open>The angle of a full turn, as a real number.\<close>

definition turn :: real where
  "turn = 884279719003555 / 2 ^ 47"

lemma turn_bounds: "6 < turn" "turn < 6.3"
  by (simp_all add: turn_def)

lemma near_abs: "\<bar>y - x\<bar> \<le> e \<Longrightarrow> \<bar>x\<bar> - e \<le> \<bar>y\<bar> \<and> \<bar>y\<bar> \<le> \<bar>x\<bar> + e" for x y e :: real
  by linarith

lemma near_trans: "\<bar>y - x\<bar> \<le> d \<Longrightarrow> \<bar>z - y\<bar> \<le> e \<Longrightarrow> \<bar>z - x\<bar> \<le> d + e" for x y z d e :: real
  by linarith

lemma steps_to_rad_near:
  assumes "servo_resolution sv = 4096" "center_offset sv = 2048" "k \<noteq> 0" "\<bar>k\<bar> \<le> 2048"
  shows "\<exists>r. steps_to_rad sv (k + 2048) = Fin r \<and> \<bar>r - of_int k * turn / 4096\<bar> \<le> \<bar>of_int k\<bar> / 2 ^ 33"
proof -
  define n :: real where "n = \<bar>of_int k\<bar>"
  define x :: real where "x = of_int k * turn"
  have n: "1 \<le> n" "n \<le> 2048" unfolding n_def using assms(3,4) by linarith+
  have x: "6 * n \<le> \<bar>x\<bar>" "\<bar>x\<bar> \<le> 63 / 10 * n"
    using turn_bounds mult_left_mono [of 6 turn n] mult_left_mono [of turn "63 / 10" n] n
    by (simp_all add: x_def n_def abs_mult)
  obtain a where a: "fround binary64 x = Fin a" "\<bar>a - x\<bar> \<le> \<bar>x\<bar> / 2 ^ 53"
    using fround64_near [of x] x n by auto
  have a2: "\<bar>a - x\<bar> \<le> n / 2 ^ 50" using a(2) x(2) n(1) by simp
  have a3: "5 * n \<le> \<bar>a\<bar>" "\<bar>a\<bar> \<le> 64 / 10 * n" using near_abs [OF a2] x n by auto
  have a4: "\<bar>a / 4096 - x / 4096\<bar> \<le> n / 2 ^ 62" using a2 by (simp add: abs_le_iff field_simps)
  obtain b where b: "fround binary64 (a / 4096) = Fin b" "\<bar>b - a / 4096\<bar> \<le> \<bar>a / 4096\<bar> / 2 ^ 53"
    using fround64_near [of "a / 4096"] a3 n by auto
  have "\<bar>b - a / 4096\<bar> \<le> n / 2 ^ 60" using b(2) a3(2) n(1) by simp
  from near_trans [OF a4 this] have b2: "\<bar>b - x / 4096\<bar> \<le> n / 2 ^ 59" using n(1) by simp
  have b3: "1 / 2 ^ 11 \<le> \<bar>b\<bar>" "\<bar>b\<bar> \<le> n * (64 / 40960)" using near_abs [OF b2] x n by auto
  obtain r where r: "fround binary32 b = Fin r" "\<bar>r - b\<bar> \<le> \<bar>b\<bar> / 2 ^ 24"
    using fround32_near [of b] b3 n by auto
  have "\<bar>r - b\<bar> \<le> n * (64 / 40960) / 2 ^ 24" using r(2) b3(2) by simp
  from near_trans [OF b2 this] have r2: "\<bar>r - x / 4096\<bar> \<le> n / 2 ^ 33" using n(1) by simp
  have "of_int_f binary64 (k + 2048 - center_offset sv) = Fin (of_int k)"
    using of_int_f64_exact [of k] assms(2,4) by simp
  moreover have "of_int_f binary32 (servo_resolution sv) = Fin 4096" using of_int_f32_exact [of 4096] assms(1) by simp
  ultimately have "steps_to_rad sv (k + 2048) = Fin r"
    using a(1) by (simp add: steps_to_rad_def two_pi_def x_def turn_def b(1) r(1))
  then show ?thesis using r2 by (simp add: x_def n_def)
qed

lemma rad_to_steps_near:
  assumes "servo_resolution sv = 4096" "center_offset sv = 2048" "k \<noteq> 0" "\<bar>k\<bar> \<le> 2048"
    "\<bar>r - of_int k * turn / 4096\<bar> \<le> \<bar>of_int k\<bar> / 2 ^ 33"
  shows "\<exists>t. rad_to_steps sv (Fin r) = to_int32 (Fin t) \<and> of_int (k + 2048) - 1 / 2 \<le> t \<and> t \<le> of_int (k + 2048) + 1 / 2"
proof -
  define n :: real where "n = \<bar>of_int k\<bar>"
  define q :: real where "q = 4096 / turn"
  define x :: real where "x = of_int k * turn / 4096"
  have n: "1 \<le> n" "n \<le> 2048" unfolding n_def using assms(3,4) by linarith+
  have q: "650 < q" "q < 652" by (simp_all add: q_def turn_def)
  obtain K where K: "fround binary64 q = Fin K" "\<bar>K - q\<bar> \<le> \<bar>q\<bar> / 2 ^ 53"
    using fround64_near [of q] q by auto
  have K2: "\<bar>K - q\<bar> \<le> 1 / 2 ^ 43" using K(2) q by simp
  have K3: "\<bar>K\<bar> \<le> 653" using near_abs [OF K2] q by auto
  have x: "\<bar>x\<bar> \<le> n * (63 / 40960)" "x * q = of_int k"
    using turn_bounds mult_right_mono [of turn "63 / 10" n] n by (simp_all add: x_def n_def q_def abs_mult)
  have rx: "\<bar>r - x\<bar> \<le> n / 2 ^ 33" using assms(5) by (simp add: x_def n_def)
  have "r * K - of_int k = (r - x) * K + x * (K - q)" using x(2) by (simp add: algebra_simps)
  then have "\<bar>r * K - of_int k\<bar> \<le> \<bar>r - x\<bar> * \<bar>K\<bar> + \<bar>x\<bar> * \<bar>K - q\<bar>" by (metis abs_mult abs_triangle_ineq)
  also have "\<dots> \<le> n / 2 ^ 33 * 653 + n * (63 / 40960) * (1 / 2 ^ 43)"
    using K2 K3 rx x(1) n(1) by (intro add_mono mult_mono) auto
  also have "\<dots> \<le> 1 / 4" using n by simp
  finally have d: "\<bar>r * K - of_int k\<bar> \<le> 1 / 4" .
  have rk: "3 / 4 \<le> \<bar>r * K\<bar>" "\<bar>r * K\<bar> \<le> 2049" using near_abs [OF d] n by (simp_all add: n_def)
  obtain m where m: "fround binary64 (r * K) = Fin m" "\<bar>m - r * K\<bar> \<le> \<bar>r * K\<bar> / 2 ^ 53"
    using fround64_near [of "r * K"] rk by auto
  have "\<bar>m - r * K\<bar> \<le> 1 / 4" using m(2) rk(2) by simp
  from near_trans [OF d this] have mk: "\<bar>m - of_int k\<bar> \<le> 1 / 2" by simp
  have near: "of_int (2 * (k + 2048) - 1) / 2 \<le> m + 2048" "m + 2048 \<le> of_int (2 * (k + 2048) + 1) / 2"
    using abs_le_D1 [OF mk] abs_le_D2 [OF mk] by simp_all
  have b: "\<bar>2 * (k + 2048) - 1\<bar> \<le> 2 ^ 30" "\<bar>2 * (k + 2048) + 1\<bar> \<le> 2 ^ 30" using assms(4) by auto
  obtain t where t: "fround binary64 (m + 2048) = Fin t" "of_int (2 * (k + 2048) - 1) / 2 \<le> t"
    "t \<le> of_int (2 * (k + 2048) + 1) / 2"
    using fround_between [OF near is_flt64_half [OF b(1)] is_flt64_half [OF b(2)]] by auto
  have "of_int_f binary64 (center_offset sv) = Fin 2048" "of_int_f binary32 (servo_resolution sv) = Fin 4096"
    using of_int_f64_exact [of 2048] of_int_f32_exact [of 4096] assms(1,2) by simp_all
  then have "rad_to_steps sv (Fin r) = to_int32 (Fin t)"
    using K(1) m(1) t(1) by (simp add: rad_to_steps_def two_pi_def q_def turn_def)
  then show ?thesis using t(2,3) by (intro exI [of _ t]) (simp add: field_simps)
qed

lemma trunc_near:
  assumes "of_int s - 1 / 2 \<le> t" "t \<le> of_int s + 1 / 2" "0 \<le> s"
  shows "trunc t = s \<or> trunc t = s - 1"
proof (cases "0 \<le> t")
  case True
  have "s - 1 \<le> \<lfloor>t\<rfloor>" "\<lfloor>t\<rfloor> \<le> s" using assms by linarith+
  then show ?thesis using True by (auto simp: trunc_def)
next
  case False
  then have "s = 0" "\<lceil>t\<rceil> = 0" using assms by linarith+
  then show ?thesis using False by (simp add: trunc_def)
qed

lemma step_roundtrip:
  assumes "servo_resolution sv = 4096" "center_offset sv = 2048" "0 \<le> s" "s \<le> 4095"
  shows "\<exists>t. rad_to_steps sv (steps_to_rad sv s) = Some t \<and> (t = s \<or> t = s - 1)"
proof (cases "s = 2048")
  case True
  have "of_int_f binary64 2048 = Fin 2048" "of_int_f binary32 4096 = Fin 4096" "of_int_f binary64 0 = Fin 0"
    using of_int_f64_exact [of 2048] of_int_f64_exact [of 0] of_int_f32_exact [of 4096] by simp_all
  moreover have "fround binary64 2048 = Fin 2048" using of_int_f64_exact [of 2048] by (simp add: of_int_f_def)
  moreover obtain K where "fround binary64 (4096 / turn) = Fin K"
    using fround64_near [of "4096 / turn"] by (auto simp: turn_def)
  ultimately show ?thesis using True assms(1,2)
    by (simp add: steps_to_rad_def rad_to_steps_def two_pi_def turn_def trunc_def)
next
  case False
  define k where "k = s - 2048"
  have k: "k \<noteq> 0" "\<bar>k\<bar> \<le> 2048" "s = k + 2048" using False assms(3,4) by (auto simp: k_def)
  obtain r where r: "steps_to_rad sv s = Fin r" "\<bar>r - of_int k * turn / 4096\<bar> \<le> \<bar>of_int k\<bar> / 2 ^ 33"
    using steps_to_rad_near [OF assms(1,2) k(1,2)] k(3) by auto
  obtain t where t: "rad_to_steps sv (Fin r) = to_int32 (Fin t)" "of_int s - 1 / 2 \<le> t" "t \<le> of_int s + 1 / 2"
    using rad_to_steps_near [OF assms(1,2) k(1,2) r(2)] k(3) by auto
  from trunc_near [OF t(2,3) assms(3)] show ?thesis using assms(3,4) t(1) r(1) by (auto simp: Let_def)
qed

lemma step_values:
  "fround binary64 (4096 / (884279719003555 / 2 ^ 47)) = Fin (5734161139222659 / 8796093022208)"
  "fround binary64 (- (884279719003555 / 2 ^ 47)) = Fin (- (884279719003555 / 2 ^ 47))"
  "fround binary64 (- (884279719003555 / 2 ^ 47) / 4096) = Fin (- (884279719003555 / 2 ^ 59))"
  "fround binary32 (- (884279719003555 / 2 ^ 59)) = Fin (- (13176795 / 2 ^ 33))"
  by (simp_all add: flt_eval)

lemma step_2047_is_lost:
  assumes "servo_resolution sv = 4096" "center_offset sv = 2048"
  shows "rad_to_steps sv (steps_to_rad sv 2047) = Some 2046"
proof -
  have c: "of_int_f binary64 2048 = Fin 2048" "of_int_f binary64 (-1) = Fin (-1)" "of_int_f binary32 4096 = Fin 4096"
    using of_int_f64_exact [of 2048] of_int_f64_exact [of "-1"] of_int_f32_exact [of 4096] by simp_all
  have r: "steps_to_rad sv 2047 = Fin (- (13176795 / 2 ^ 33))"
    using assms c step_values(2-4) by (simp add: steps_to_rad_def two_pi_def)
  define m where "m = - (13176795 / 2 ^ 33) * (5734161139222659 / 8796093022208 :: real)"
  obtain y where y: "fround binary64 m = Fin y" "\<bar>y - m\<bar> \<le> \<bar>m\<bar> / 2 ^ 53"
    using fround64_near [of m] by (auto simp: m_def)
  have m: "- 1 - 1 / 2 ^ 20 \<le> m" "m \<le> - 1 - 1 / 2 ^ 26" by (simp_all add: m_def)
  then have "\<bar>m\<bar> / 2 ^ 53 \<le> 1 / 2 ^ 40" by (simp add: abs_if)
  then have n: "2046 \<le> y + 2048" "y + 2048 \<le> 2047 - 1 / 2 ^ 30"
    using m abs_le_D1 [OF y(2)] abs_le_D2 [OF y(2)] by simp_all
  have "rnd binary64 (of_int (2047 * 2 ^ 30 - 1) * 2 powi (-30)) = of_int (2047 * 2 ^ 30 - 1) * 2 powi (-30)"
    by (rule r64.rd_fix) simp_all
  moreover have "(2047 :: real) - 1 / 2 ^ 30 < 2 powi 1024"
    by (rule less_trans [of _ "2 powi 11"], simp) (simp only: powi_two_less_iff)
  ultimately have f: "is_flt binary64 (Fin (2047 - 1 / 2 ^ 30))" by (simp add: binary64_def power_int_minus)
  have "is_flt binary64 (Fin 2046)" using is_flt64_half [of 4092] by simp
  from fround_between [OF n this f] obtain t where t: "fround binary64 (y + 2048) = Fin t" "2046 \<le> t" "t \<le> 2047 - 1 / 2 ^ 30"
    by auto
  have "\<lfloor>t\<rfloor> = 2046" by (rule floor_unique) (use t(2,3) in simp_all)
  then have "to_int32 (Fin t) = Some 2046" using t(2) by (simp add: trunc_def Let_def)
  then show ?thesis using assms c r y(1) t(1) step_values(1) by (simp add: rad_to_steps_def two_pi_def m_def)
qed
section \<open>Properties\<close>

text \<open>A servo of the sample bus.\<close>

definition sample_ft :: servo_ft where
  "sample_ft = servo.extend (new_servo (sample_servo\<lparr>servo_model := ''FeeTech STS3215'', id_of := 1, data_index := 0,
     pos_kp := Fin 0\<rparr>) False False)
     \<lparr>curr_pos_steps = 0, servo_resolution = 4096, center_offset = 2048, prof_accel = 0, p_driver_ft = True\<rparr>"

lemma sample_ft_fields:
  "id_of sample_ft = 1" "pos_kp sample_ft = Fin 0" "prof_accel sample_ft = 0" "p_driver_ft sample_ft"
  "\<not> dev_read_only (p_device sample_ft)" "\<not> dev_force_feedback_enabled (p_device sample_ft)"
  "servo_resolution sample_ft = 4096" "center_offset sample_ft = 2048"
  by (simp_all add: sample_ft_def new_servo_def servo.extend_def servo_data.extend_def sample_servo_def)

lemma torque_acked:
  "ready_port m ([] # replies) p \<Longrightarrow> \<exists>q. enable_torque (Some 1) on p = (q, SUCCESS) \<and> ready_port 19999 replies q"
  using sram_write_acked [of m replies p 1 kFtAddrTorqueEnable]
  by (simp add: enable_torque_def with_servo_def kFtSramStartAddr_def kFtAddrTorqueEnable_def)

lemma mode_acked:
  "ready_port m ([] # [] # [] # replies) p \<Longrightarrow> \<exists>q. set_operating_mode (Some 1) mode p = (q, SUCCESS) \<and> ready_port 19999 replies q"
  using eeprom_write_acked [of m replies p 1 kFtAddrOperatingMode]
  by (simp add: set_operating_mode_def with_servo_def kFtSramStartAddr_def kFtAddrOperatingMode_def)

lemma sync_goal_acked:
  assumes "ready_port m ([lo, hi] # [] # replies) p"
  shows "\<exists>q. sync_goal_position_to_present (Some 1) p = (q, SUCCESS) \<and> ready_port 19999 replies q"
proof -
  obtain a where a: "read_register 1 kFtAddrPresentPosition 2 p = (a, SUCCESS, register_value (Some (1, 0, [lo, hi])))"
    "ready_port 19999 ([] # replies) a" using read_answered [OF assms, of 2] by auto
  have "\<exists>q. write_register 1 kFtAddrGoalPosition v 2 a = (q, SUCCESS) \<and> ready_port 19999 replies q" for v
    using sram_write_acked [OF a(2), of 2] by (simp add: kFtSramStartAddr_def kFtAddrGoalPosition_def)
  then show ?thesis
    by (simp add: sync_goal_position_to_present_def get_present_position_def set_goal_position_direct_def with_servo_def a(1))
qed

lemma torque_read_answered:
  "ready_port m ([b] # replies) p \<Longrightarrow>
   \<exists>q. get_torque_enabled (Some 1) p = (q, SUCCESS, Some (uint b)) \<and> ready_port 19999 replies q"
  using read_answered [of m "[b]" replies p 1] by (simp add: get_torque_enabled_def register_value_def)

text \<open>C13: torque is engaged only on the pose the servo has. A successful start puts onto the bus torque off, then
  configuration writes only, then reads the present position, writes exactly that value (clamped to the register's range)
  as the goal, and only then torque on, which is the last packet; retries repeat a packet and nothing else is sent.\<close>

theorem torque_engages_on_present_pose:
  assumes "ft_start_hardware sv d = Some (d', SUCCESS)" "p_driver_ft sv" "\<not> dev_read_only (p_device sv)"
  shows "\<exists>cfg q r v. config_packets (id_of sv) cfg \<and> issues (torque_packet (id_of sv) False # cfg) d q \<and>
    read_register (id_of sv) kFtAddrPresentPosition 2 q = (r, SUCCESS, Some v) \<and>
    issues [goal_packet (id_of sv) v, torque_packet (id_of sv) True] r d'"
  by (rule start_success [OF assms])

theorem torque_engages_on_present_pose_witness:
  "\<exists>d' cfg q r v. ft_start_hardware sample_ft (answering [[], [], [], [], [0x10, 0x08], [], []]) = Some (d', SUCCESS) \<and>
     issues (torque_packet 1 False # cfg) (answering [[], [], [], [], [0x10, 0x08], [], []]) q \<and>
     issues [goal_packet 1 v, torque_packet 1 True] r d'"
proof -
  let ?p = "answering [[], [], [], [], [0x10, 0x08], [], []]"
  obtain a where a: "enable_torque (Some 1) False ?p = (a, SUCCESS)" "ready_port 19999 [[], [], [], [0x10, 0x08], [], []] a"
    using torque_acked [OF ready_answering] by blast
  obtain b where b: "set_operating_mode (Some 1) FT_MODE_POSITION (elapse 200 a) = (b, SUCCESS)"
    "ready_port 19999 [[0x10, 0x08], [], []] b" using mode_acked [OF ready_sleep [OF a(2), of 200]] by auto
  obtain c where c: "sync_goal_position_to_present (Some 1) (elapse 200 b) = (c, SUCCESS)" "ready_port 19999 [[]] c"
    using sync_goal_acked [OF ready_sleep [OF b(2), of 200]] by auto
  obtain e where e: "enable_torque (Some 1) True (elapse 200 c) = (e, SUCCESS)"
    using torque_acked [OF ready_sleep [OF c(2), of 200]] by auto
  have "ft_start_hardware sample_ft ?p = Some (elapse 200 e, SUCCESS)"
    by (simp add: ft_start_hardware_def step_then_def pid_stage_def accel_stage_def engage_stage_def sample_ft_fields a(1) b(1) c(1) e)
  from torque_engages_on_present_pose [OF this sample_ft_fields(4,5)] this show ?thesis unfolding sample_ft_fields by blast
qed

text \<open>C12: a passive leader is really passive. When the change to leader mode succeeds, the servo's Torque Enable register was
  read back as zero by the last transaction, only torque-off writes and such reads went onto the bus, no goal or torque
  limit for the servo is left in the queues of the next group write, and the device does not use force feedback.\<close>

theorem passive_leader_is_verified:
  assumes "ft_change_control_mode_for_leader sv d = (d', SUCCESS)" "\<not> dev_read_only (p_device sv)"
  shows "\<not> dev_force_feedback_enabled (p_device sv) \<and>
    (\<forall>entry \<in> set (pending_goal_position d') \<union> set (pending_torque_limit d'). fst entry \<noteq> id_of sv) \<and>
    (\<exists>pkts q. set pkts \<subseteq> {torque_packet (id_of sv) False, read_packet (id_of sv) kFtAddrTorqueEnable 1} \<and>
       issues pkts (discard_pending_group_writes (Some (id_of sv)) d) q \<and>
       read_register (id_of sv) kFtAddrTorqueEnable 1 q = (d', SUCCESS, Some 0))"
proof -
  let ?d = "discard_pending_group_writes (Some (id_of sv)) d"
  have ff: "\<not> dev_force_feedback_enabled (p_device sv)" and
    r: "disable_and_verify FT_TORQUE_DISABLE_MAX_ATTEMPTS (id_of sv) ?d = (d', SUCCESS)"
    using assms by (auto simp: ft_change_control_mode_for_leader_def split: if_splits)
  have q: "pending_goal_position d' = pending_goal_position ?d" "pending_torque_limit d' = pending_torque_limit ?d"
    using disable_and_verify_queues [of FT_TORQUE_DISABLE_MAX_ATTEMPTS "id_of sv" ?d] by (simp_all add: r)
  have "\<forall>entry \<in> set (pending_goal_position d') \<union> set (pending_torque_limit d'). fst entry \<noteq> id_of sv"
    unfolding q by (auto simp: discard_pending_group_writes_def)
  moreover obtain pkts x where "issues pkts ?d x"
    "set pkts \<subseteq> {torque_packet (id_of sv) False, read_packet (id_of sv) kFtAddrTorqueEnable 1}"
    "read_register (id_of sv) kFtAddrTorqueEnable 1 x = (d', SUCCESS, Some 0)"
    using disable_and_verify_success [OF r] unfolding get_torque_enabled_def option.case by blast
  ultimately show ?thesis using ff by (intro conjI exI [of _ pkts] exI [of _ x])
qed

theorem passive_leader_is_verified_witness:
  "\<exists>d' q. ft_change_control_mode_for_leader sample_ft ((answering [[], [1], [], [0]])\<lparr>pending_goal_position := [(1, 5)]\<rparr>) = (d', SUCCESS) \<and>
     read_register 1 kFtAddrTorqueEnable 1 q = (d', SUCCESS, Some 0) \<and> (\<forall>entry \<in> set (pending_goal_position d'). fst entry \<noteq> 1)"
proof -
  let ?d = "(answering [[], [1], [], [0]])\<lparr>pending_goal_position := [(1, 5)]\<rparr>"
  let ?p = "discard_pending_group_writes (Some 1) ?d"
  have p: "ready_port 19999 [[], [1], [], [0]] ?p"
    using ready_answering [of "[[], [1], [], [0]]"] by (simp add: ready_port_def discard_pending_group_writes_def)
  obtain a where a: "enable_torque (Some 1) False ?p = (a, SUCCESS)" "ready_port 19999 [[1], [], [0]] a"
    using torque_acked [OF p] by blast
  obtain b where b: "get_torque_enabled (Some 1) (elapse 200 a) = (b, SUCCESS, Some 1)" "ready_port 19999 [[], [0]] b"
    using torque_read_answered [OF ready_sleep [OF a(2), of 200]] by auto
  obtain c where c: "enable_torque (Some 1) False (elapse 10000 b) = (c, SUCCESS)" "ready_port 19999 [[0]] c"
    using torque_acked [OF ready_sleep [OF b(2), of 10000]] by auto
  obtain e where e: "get_torque_enabled (Some 1) (elapse 200 c) = (e, SUCCESS, Some 0)"
    using torque_read_answered [OF ready_sleep [OF c(2), of 200]] by auto
  have five: "FT_TORQUE_DISABLE_MAX_ATTEMPTS = Suc (Suc (Suc (Suc (Suc 0))))" by (simp add: FT_TORQUE_DISABLE_MAX_ATTEMPTS_def)
  have "disable_and_verify FT_TORQUE_DISABLE_MAX_ATTEMPTS 1 ?p = (e, SUCCESS)"
    unfolding five using a(1) b(1) c(1) e by (simp add: FT_TORQUE_DISABLE_RETRY_DELAY_US_def)
  then have r: "ft_change_control_mode_for_leader sample_ft ?d = (e, SUCCESS)"
    by (simp add: ft_change_control_mode_for_leader_def sample_ft_fields)
  from passive_leader_is_verified [OF r sample_ft_fields(5)] r show ?thesis unfolding sample_ft_fields by blast
qed

text \<open>C37: a position survives the conversion to radians and back up to one encoder step. For every step of the single turn
  the conversion is defined and gives the step itself or the one below, never more and never another turn.\<close>

theorem step_roundtrip_within_one:
  assumes "servo_resolution sv = 4096" "center_offset sv = 2048" "0 \<le> s" "s \<le> 4095"
  shows "\<exists>t. rad_to_steps sv (steps_to_rad sv s) = Some t \<and> (t = s \<or> t = s - 1)"
  by (rule step_roundtrip [OF assms])

theorem step_roundtrip_within_one_witness:
  "\<exists>t. rad_to_steps sample_ft (steps_to_rad sample_ft 3000) = Some t \<and> (t = 3000 \<or> t = 2999)"
  using step_roundtrip_within_one [of sample_ft 3000] by (simp add: sample_ft_fields)

text \<open>The truncation really loses a step: a servo at step 2047 that is told to stay where it is gets step 2046.\<close>

theorem held_position_loses_a_step:
  "rad_to_steps sample_ft (steps_to_rad sample_ft 2047) = Some 2046"
  by (rule step_2047_is_lost) (simp_all add: sample_ft_fields)

end
