(* ===== verification/Spec2Isabelle.thy ===== *)
theory Spec2Isabelle
  imports Math_Ops Hold_Checker Stall_Detect Servo_Dm_Status Pi_Filter Current_Estimation
    Driver_Registry Driver_Factory Device_Config Safe_Mode Servo Servo_Cycle Can_Lifecycle Can_Bus Servo_Dm_Codec
    Driver_Can_Mit Encoder_Setup Enable_Handshake Comm_Loss Servo_Dm Can_Encoder Joint Can_Joint
    Device Device_Recovery Topic Topic_Zmq Force_Feedback Effector Effector_Class Effector_Motion Can_Gripper Arm_Motion Control_Node Servo_Ft
begin

text \<open>
  Verification of the native robot-control node under \<^verbatim>\<open>native/pi_control\<close>.

  \<^bold>\<open>The program.\<close> A control node drives an arm or an end-effector. A device owns joints, a joint
  owns servos, a servo talks to its motor through a driver. Every control cycle reads the servos through the driver,
  runs the safety checks, computes targets and sends commands. On a CAN bus the driver keeps a cache of
  the newest status frame per servo, filled by a reception thread; commands are encoded into 8-byte frames
  in the fixed-point format of the motors. At start-up the driver configures the passive encoders, enables each motor by
  a synchronous handshake and asserts the policy on a loss of communication.

  \<^bold>\<open>Numbers and time.\<close> \<open>Pi_Float\<close> has IEEE floats as reals with infinities and NaN and explicit rounding
  to nearest even in binary32 and binary64; C++ conversions that are undefined are \<open>None\<close>. Machine integers are words. Time is in
  microseconds; zero is the value of a time stamp that was never written, as in the code. Virtual calls
  are function arguments; classes that inherit extend the record of their base.

  \<^bold>\<open>The theories.\<close>
  \<^item> \<open>Pi_Prelude\<close>, \<open>Pi_Float\<close>, \<open>Std_Map\<close>, \<open>Trigger\<close>, \<open>Circular_Buffer\<close>: return codes, floats, ordered maps (contract
    \<open>keyed_store\<close>), runs of conditions and ring buffers shared by the components.
  \<^item> \<open>Math_Ops\<close> (\<^verbatim>\<open>can/math_ops.cpp\<close>): the fixed-point and half-precision codecs; ranges, round trip, termination.
  \<^item> \<open>Hold_Checker\<close>, \<open>Stall_Detect\<close>, \<open>Pi_Filter\<close>, \<open>Current_Estimation\<close>, \<open>Servo_Dm_Status\<close>: the small stateful parts, each with
    the meaning of its output over whole sequences of inputs.
  \<^item> \<open>Driver_Registry\<close> (\<^verbatim>\<open>pi_driver.cpp\<close>): the process-wide maps and, as a step relation, the lifetime of servo objects
    against the reception thread.
  \<^item> \<open>Device_Config\<close> (\<^verbatim>\<open>pi_device_config.cpp\<close>): configuration values as JSON trees, version gate, cascade.
  \<^item> \<open>Servo_State\<close>, \<open>Servo\<close>, \<open>Servo_Cycle\<close> (\<^verbatim>\<open>pi_servo.cpp\<close>): the servo object, its configuration, factory and start-up
    unwrapping, and one read cycle with its five debounced checks; \<open>Safe_Mode\<close> (\<^verbatim>\<open>pi_safe_mode.cpp\<close>) is the
    state the checks act on. The locale \<open>value_reader\<close> says what a driver's read may change.
  \<^item> \<open>Can_Lifecycle\<close>, \<open>Can_Bus\<close> (\<^verbatim>\<open>pi_driver_can.cpp\<close>): the reception thread's life cycle over all interleavings; the
    synchronous bus as a script of outcomes, with the contract \<open>timed_source\<close> that ends the polling loops and
    the relation \<open>traffic\<close> that all transactions satisfy.
  \<^item> \<open>Servo_Dm_Codec\<close> (\<^verbatim>\<open>pi_servo_dm.cpp\<close>): command, service and status frames of DM and ENCOS motors.
  \<^item> \<open>Driver_Can_Mit\<close>, \<open>Encoder_Setup\<close>, \<open>Enable_Handshake\<close>, \<open>Comm_Loss\<close> (\<^verbatim>\<open>pi_driver_can_mit.cpp\<close>): reception and watchdog, opening
    and encoder configuration, the enable handshake, and the communication-loss policy. \<open>value_reader\<close> is interpreted here.
  \<^item> \<open>Servo_Dm\<close> (\<^verbatim>\<open>pi_servo_dm.cpp\<close>, \<^verbatim>\<open>pi_driver_arx_encoder.cpp\<close>): the DM/ENCOS servo on top of the driver. The locale
    \<open>motor_driver\<close> has what it relies on of its driver and is interpreted on the MIT driver and on the read-only
    ARX driver; the runs \<open>dm_run\<close> of calls, policy passes and activity elsewhere are those in which the thermal latch is permanent.
  \<^item> \<open>Can_Encoder\<close> (\<^verbatim>\<open>pi_servo_can_encoder.cpp\<close>): the trigger encoder's probe, poll scheduler and recovery ladder; \<open>Rate_Limit\<close> has
    the contract of rate-limited events, interpreted once for all reads and once for silent ones.
  \<^item> \<open>Joint\<close> (\<^verbatim>\<open>pi_joint.cpp\<close>): the joint over any class of servos, given as a table of virtual functions: configuration and factory
    (contract \<open>servo_configurator\<close>), forwarded calls, spring, detectors and the grip limiter. \<open>Can_Joint\<close> has the table of the two CAN
    servo classes; the contracts \<open>servo_identity\<close> and, extending it, \<open>servo_traffic\<close> carry what single servo calls guarantee to every
    joint operation.
  \<^item> \<open>Device\<close> (\<^verbatim>\<open>pi_device.cpp\<close>): the device base class over the virtual functions of a concrete device: one control cycle with
    the state machines of commanded ready moves and of emergency recovery, the watchdogs, start, stop, initialisation and factory.
    \<open>Device_Recovery\<close> has the contract \<open>device_contract\<close> of a concrete device, extending that of its topic, \<open>publisher\<close>, and what it gives for
    every run: recovery only moves forward.
  \<^item> \<open>Topic\<close> (\<^verbatim>\<open>pi_topic.cpp\<close>), \<open>Topic_Zmq\<close> (\<^verbatim>\<open>pi_topic_zmq.cpp\<close>): the command dispatcher with the gate of emergency recovery, one
    step of the ZeroMQ topic, the draining of its queues as a refinement of "the latest valid sample", publishing, and the ports, compared with
    the Python client's.
  \<^item> \<open>Force_Feedback\<close> (\<^verbatim>\<open>pi_force_feedback.cpp\<close>): the torque a leader feels from the filtered state of its follower.
  \<^item> \<open>Effector\<close> (\<^verbatim>\<open>pi_device_effector.cpp\<close>, \<^verbatim>\<open>pi_device_effector_can.cpp\<close>): the end-effector over any class of servos. \<open>Effector_Class\<close> has its
    construction and its table of virtual functions on a ZeroMQ topic; the contracts \<open>publisher\<close>, \<open>message_contract\<close>, \<open>device_contract\<close> and
    \<open>patient_device\<close> are interpreted on it, so that recovery is one-way in every run. \<open>Effector_Motion\<close> has the calibrated range of commanded targets, the
    steps and the end of the ready move and the treatment of failed joints; \<open>Can_Gripper\<close> follows the grip limit through the joint and
    the servo to the frames on the CAN bus.
  \<^item> \<open>Arm\<close> (\<^verbatim>\<open>pi_device_arm.cpp\<close> and its CAN and serial subclasses): the arm over any class of servos, with the effector it owns: control modes, the
    calibration float, reading, both ready moves, operation as leader and follower, messages, start and stop. \<open>Arm_Class\<close> has its construction and its table
    of virtual functions; \<open>device_contract\<close>, \<open>message_contract\<close> and, for the state of the effector, \<open>device_invariant\<close> (\<open>Device_Invariant\<close>) are
    interpreted on it, and the runs \<open>arm_run\<close> interleave steps, commands and the driver. \<open>Arm_Motion\<close> has the end of the parallel
    ready move, which completes a recovery, the runaway watchdog of the float and the synchronised slew.
  \<^item> \<open>Control_Node\<close> (\<^verbatim>\<open>pi_control_node.cpp\<close>): the process around a device. Its contract \<open>node_contract\<close> is interpreted on the arm and on the effector
    alone, so that recovery is one-way over whole runs of the main loop; a failed step starts a recovery in the same cycle, and the ready notice
    keeps its schedule.
  \<^item> \<open>Driver_Factory\<close> (\<^verbatim>\<open>pi_driver.cpp\<close>): the choice of the driver class from the configuration, inverted by the name of the class.
  \<^item> \<open>Serial_Port\<close> (\<^verbatim>\<open>pi_driver_serial.cpp\<close>): the tty as an input queue, the arrivals still to come and the outcomes of the next writes. It interprets
    \<open>timed_source\<close>; the relation \<open>serial_io\<close> has what every operation does to the wire, and bytes that arrive by a deadline are read in whatever pieces they come.
  \<^item> \<open>Driver_Ft\<close> (\<^verbatim>\<open>pi_driver_ft.cpp\<close>): the FeeTech packet protocol with its retries, register access, bulk read and write and the classification of dead
    servos. Reception is compared with the reference parser \<open>parse_status\<close> on the whole byte stream, in both directions; the relation \<open>issues\<close> has
    the packets an operation puts on the wire, and the contract \<open>port_operation\<close> what register operations keep of the driver's state, interpreted on each of them.
  \<^item> \<open>Servo_Ft\<close> (\<^verbatim>\<open>pi_servo_ft.cpp\<close>): the FeeTech servo: torque is engaged only behind a goal at the measured position, a passive leader is verified
    by reading its torque register back, and steps survive the conversion to radians up to one.

  \<^bold>\<open>Bounds.\<close> The script of a bus is finite; past its end a read times out after its 5 ms and a write succeeds, so
  every polling loop with a deadline ends, and its recursion is a total function. The arrivals on a serial line are finite in the same way. The handshake loops run at most 10 and 20
  rounds, as in the code. The main loop runs over a finite schedule of signals and hardware behaviour; its theorems hold for every schedule, of any length.

  \<^bold>\<open>Not modelled.\<close> Log output, the wall clock and the thread scheduler; sockets, serial lines and message transport
  beyond the outcomes of their calls; the JSON parser, ZeroMQ, Pinocchio, libfranka and the vendor controller libraries, which are
  third-party code, with the thin classes around them (Trossen, FR3, Robotiq); the command line and the serial effector class.
\<close>

end
